(* ===== verification/Prelude.thy ===== *)
theory Prelude
  imports Main "HOL-Library.Word" "HOL-Library.Sublist" "HOL-Library.List_Lexorder"
    "HOL-Library.Char_ord" "HOL-Library.Multiset"
begin

text \<open>
  What every component of the development shares: the collections of rewrite rules the
  component proofs use, generic lemmas on lists and maps, and the part of Go's \<open>strings\<close>,
  \<open>strconv\<close> and \<open>fmt\<close> packages that the modelled source calls.

  A Go string is a sequence of bytes, so it is a \<^typ>\<open>string\<close> (a list of 8-bit characters)
  here, and Go's \<open><\<close> on strings is the library's lexicographic order on lists.
  \<open>strings.ToLower\<close>, \<open>strings.EqualFold\<close> and \<open>strings.TrimSpace\<close> are modelled on ASCII
  bytes; other bytes are left alone, as SQLite's \<open>LOWER\<close> does.
\<close>

named_theorems ops "definitions of the operations of a component"
named_theorems inv_intros "invariant preservation rules"

section \<open>Lists and maps\<close>

lemma filter_idem [simp]: "filter P (filter P xs) = filter P xs"
  by simp

lemma ex_nat_split: "(\<exists>k. P k) \<longleftrightarrow> P 0 \<or> (\<exists>k. P (Suc k))"
  by (metis not0_implies_Suc)

lemma find_Some_iff_mem: "List.find P xs = Some x \<Longrightarrow> x \<in> set xs \<and> P x"
  by (auto simp: find_Some_iff)

lemma find_None_all: "List.find P xs = None \<longleftrightarrow> (\<forall>x \<in> set xs. \<not> P x)"
  by (auto simp: find_None_iff)

text \<open>Pairs of positions of a list, as two-element sub-multisets.\<close>

lemma pair_mset_eq: "{#x, y#} = {#a, b#} \<longleftrightarrow> x = a \<and> y = b \<or> x = b \<and> y = a"
  by (auto simp: add_eq_conv_ex)

lemma pair_subset_filter:
  "{#a, b#} \<subseteq># filter_mset P M \<longleftrightarrow> {#a, b#} \<subseteq># M \<and> P a \<and> P b"
proof
  assume sub: "{#a, b#} \<subseteq># filter_mset P M"
  then have "a \<in># filter_mset P M" "b \<in># filter_mset P M"
    by (auto dest: mset_subset_eqD)
  moreover have "{#a, b#} \<subseteq># M"
    using sub multiset_filter_subset by (rule subset_mset.order_trans)
  ultimately show "{#a, b#} \<subseteq># M \<and> P a \<and> P b" by simp
next
  assume "{#a, b#} \<subseteq># M \<and> P a \<and> P b"
  then show "{#a, b#} \<subseteq># filter_mset P M"
    using multiset_filter_mono [of "{#a, b#}" M P] by simp
qed

lemma pair_subset_Cons:
  "{#a, b#} \<subseteq># add_mset x M \<longleftrightarrow> {#a, b#} \<subseteq># M \<or> (\<exists>y \<in># M. {#x, y#} = {#a, b#})"
proof -
  have ex: "(\<exists>y \<in># M. {#x, y#} = {#a, b#}) \<longleftrightarrow> x = a \<and> b \<in># M \<or> x = b \<and> a \<in># M"
    unfolding pair_mset_eq by blast
  have mem: "{#a, b#} \<subseteq># M \<Longrightarrow> a \<in># M \<and> b \<in># M" by (auto dest: mset_subset_eqD)
  have drop_head: "{#x, c#} \<subseteq># add_mset x M \<longleftrightarrow> c \<in># M" for c by simp
  consider "a = x" | "a \<noteq> x" "b = x" | "a \<noteq> x" "b \<noteq> x" by blast
  then show ?thesis
  proof cases
    case 1
    then show ?thesis unfolding ex using drop_head [of b] mem by blast
  next
    case 2
    then show ?thesis unfolding ex using drop_head [of a] mem by (metis add_mset_commute)
  next
    case 3
    then have "count (add_mset x M) c = count M c \<or> count {#a, b#} c = 0" for c by auto
    then have "{#a, b#} \<subseteq># add_mset x M \<longleftrightarrow> {#a, b#} \<subseteq># M"
      unfolding subseteq_mset_def by (metis le0)
    with 3 show ?thesis unfolding ex by blast
  qed
qed

lemma find_map_filter:
  "List.find P (map f (filter Q xs)) = map_option f (List.find (\<lambda>x. Q x \<and> P (f x)) xs)"
  by (induction xs) auto

lemma find_append: "List.find P (xs @ ys) = (case List.find P xs of None \<Rightarrow> List.find P ys | Some x \<Rightarrow> Some x)"
  by (induction xs) auto

lemma find_cong_on: "(\<And>x. x \<in> set xs \<Longrightarrow> P x = Q x) \<Longrightarrow> List.find P xs = List.find Q xs"
  by (induction xs) auto

text \<open>A slice with one element replaced or removed: \<open>append(s[:i], s[i+1:]...)\<close>.\<close>

definition remove_nth :: "nat \<Rightarrow> 'a list \<Rightarrow> 'a list" where
  "remove_nth i xs = take i xs @ drop (Suc i) xs"

lemma length_remove_nth [simp]: "i < length xs \<Longrightarrow> length (remove_nth i xs) = length xs - 1"
  by (auto simp: remove_nth_def min_def)

lemma set_remove_nth_subset: "set (remove_nth i xs) \<subseteq> set xs"
  by (auto simp: remove_nth_def dest: in_set_takeD in_set_dropD)

lemma nth_remove_nth:
  "i < length xs \<Longrightarrow> j < length xs - 1 \<Longrightarrow>
   remove_nth i xs ! j = (if j < i then xs ! j else xs ! Suc j)"
  by (auto simp: remove_nth_def nth_append min_def)

lemma distinct_remove_nth: "distinct xs \<Longrightarrow> distinct (remove_nth i xs)"
  by (auto simp: remove_nth_def dest: set_take_disj_set_drop_if_distinct [of xs i "Suc i"])

lemma map_remove_nth: "map f (remove_nth i xs) = remove_nth i (map f xs)"
  by (simp add: remove_nth_def take_map drop_map)

section \<open>Go strings\<close>

definition lower_char :: "char \<Rightarrow> char" where
  "lower_char c = (if CHR ''A'' \<le> c \<and> c \<le> CHR ''Z'' then char_of (of_char c + 32 :: nat) else c)"

definition to_lower :: "string \<Rightarrow> string" where
  "to_lower s = map lower_char s"

definition equal_fold :: "string \<Rightarrow> string \<Rightarrow> bool" where
  "equal_fold s t \<longleftrightarrow> to_lower s = to_lower t"

lemma equal_fold_refl [simp]: "equal_fold s s"
  by (simp add: equal_fold_def)

lemma length_to_lower [simp]: "length (to_lower s) = length s"
  by (simp add: to_lower_def)

lemma to_lower_empty [simp]: "to_lower s = [] \<longleftrightarrow> s = []"
  by (simp add: to_lower_def)

definition is_space :: "char \<Rightarrow> bool" where
  "is_space c \<longleftrightarrow> c \<in> {CHR '' '', CHR 0x09, CHR 0x0A, CHR 0x0B, CHR 0x0C, CHR 0x0D}"

definition trim_space :: "string \<Rightarrow> string" where
  "trim_space s = rev (dropWhile is_space (rev (dropWhile is_space s)))"

text \<open>
  \<open>strings.Split\<close> with a one-byte separator (always at least one part), and
  \<open>strings.FieldsFunc\<close>, the maximal runs of bytes that do not satisfy the predicate.
\<close>

fun split_by :: "(char \<Rightarrow> bool) \<Rightarrow> string \<Rightarrow> string list" where
  "split_by f [] = [[]]"
| "split_by f (x # xs) =
     (if f x then [] # split_by f xs
      else (case split_by f xs of [] \<Rightarrow> [[x]] | p # ps \<Rightarrow> (x # p) # ps))"

definition split_on :: "char \<Rightarrow> string \<Rightarrow> string list" where
  "split_on c s = split_by (\<lambda>x. x = c) s"

definition fields_func :: "(char \<Rightarrow> bool) \<Rightarrow> string \<Rightarrow> string list" where
  "fields_func f s = filter (\<lambda>p. p \<noteq> []) (split_by f s)"

definition fields :: "string \<Rightarrow> string list" where
  "fields s = fields_func is_space s"

lemma split_by_not_Nil [simp]: "split_by f s \<noteq> []"
  by (induction s) (auto split: list.splits)

lemma split_on_not_Nil [simp]: "split_on c s \<noteq> []"
  by (simp add: split_on_def)

lemma split_by_no_sep: "p \<in> set (split_by f s) \<Longrightarrow> y \<in> set p \<Longrightarrow> \<not> f y"
proof (induction s arbitrary: p)
  case (Cons x xs)
  obtain q qs where q: "split_by f xs = q # qs"
    by (cases "split_by f xs") auto
  with Cons show ?case by (fastforce split: if_splits)
qed simp

lemma split_on_no_sep: "p \<in> set (split_on c s) \<Longrightarrow> c \<notin> set p"
  using split_by_no_sep [of p "\<lambda>x. x = c" s c] by (auto simp: split_on_def)

lemma split_by_single: "\<forall>x \<in> set s. \<not> f x \<Longrightarrow> split_by f s = [s]"
  by (induction s) auto

lemma split_on_single: "c \<notin> set s \<Longrightarrow> split_on c s = [s]"
  by (auto simp: split_on_def intro: split_by_single)

lemma fields_func_no_sep: "p \<in> set (fields_func f s) \<Longrightarrow> x \<in> set p \<Longrightarrow> \<not> f x"
  by (auto simp: fields_func_def dest: split_by_no_sep)

lemma fields_func_nonempty: "p \<in> set (fields_func f s) \<Longrightarrow> p \<noteq> []"
  by (simp add: fields_func_def)

text \<open>\<open>strings.Contains\<close>: the needle starts at some suffix.\<close>

fun contains :: "string \<Rightarrow> string \<Rightarrow> bool" where
  "contains [] p = (p = [])"
| "contains (x # xs) p = (prefix p (x # xs) \<or> contains xs p)"

text \<open>\<open>strings.LastIndex\<close> of a byte; \<open>None\<close> is Go's \<open>-1\<close>.\<close>

fun last_index :: "char \<Rightarrow> string \<Rightarrow> nat option" where
  "last_index c [] = None"
| "last_index c (x # xs) =
     (case last_index c xs of Some i \<Rightarrow> Some (Suc i) | None \<Rightarrow> if x = c then Some 0 else None)"

fun first_index :: "char \<Rightarrow> string \<Rightarrow> nat option" where
  "first_index c [] = None"
| "first_index c (x # xs) = (if x = c then Some 0 else map_option Suc (first_index c xs))"

section \<open>Decimal numbers\<close>

definition digit :: "nat \<Rightarrow> char" where
  "digit n = char_of (48 + n)"

definition dval :: "char \<Rightarrow> nat" where
  "dval c = of_char c - 48"

definition is_digit :: "char \<Rightarrow> bool" where
  "is_digit c \<longleftrightarrow> CHR ''0'' \<le> c \<and> c \<le> CHR ''9''"

lemma is_digit_alt: "is_digit c \<longleftrightarrow> 48 \<le> (of_char c :: nat) \<and> (of_char c :: nat) \<le> 57"
  by (simp add: is_digit_def less_eq_char_def)

lemma is_digit_digit [simp]: "n < 10 \<Longrightarrow> is_digit (digit n)"
  by (simp add: is_digit_alt digit_def)

lemma dval_digit [simp]: "n < 10 \<Longrightarrow> dval (digit n) = n"
  by (simp add: dval_def digit_def)

lemma dval_less: "is_digit c \<Longrightarrow> dval c < 10"
  unfolding is_digit_alt dval_def by linarith

lemma dval_less_iff: "is_digit c \<Longrightarrow> is_digit d \<Longrightarrow> dval c < dval d \<longleftrightarrow> c < d"
  by (auto simp: is_digit_alt dval_def less_char_def)

lemma dval_inject: "is_digit c \<Longrightarrow> is_digit d \<Longrightarrow> dval c = dval d \<longleftrightarrow> c = d"
  using dval_less_iff [of c d] dval_less_iff [of d c] by auto

lemma digit_dval [simp]: "is_digit c \<Longrightarrow> digit (dval c) = c"
  by (simp add: dval_inject [symmetric] dval_less)

text \<open>\<open>strconv.Itoa\<close> on a non-negative number, and its inverse on digit strings.\<close>

fun dec :: "nat \<Rightarrow> string" where
  "dec n = (if n < 10 then [digit n] else dec (n div 10) @ [digit (n mod 10)])"

declare dec.simps [simp del]

definition undec :: "string \<Rightarrow> nat" where
  "undec s = foldl (\<lambda>a c. 10 * a + dval c) 0 s"

lemma foldl_undec: "foldl (\<lambda>a c. 10 * a + dval c) k s = k * 10 ^ length s + undec s"
proof (induction s rule: rev_induct)
  case (snoc x xs)
  then show ?case by (simp add: undec_def algebra_simps)
qed (simp add: undec_def)

lemma undec_Nil [simp]: "undec [] = 0"
  by (simp add: undec_def)

lemma undec_Cons: "undec (c # s) = dval c * 10 ^ length s + undec s"
  using foldl_undec [of "dval c" s] by (simp add: undec_def)

lemma undec_snoc [simp]: "undec (s @ [c]) = 10 * undec s + dval c"
  by (simp add: undec_def)

lemma undec_bound: "\<forall>c \<in> set s. is_digit c \<Longrightarrow> undec s < 10 ^ length s"
proof (induction s)
  case (Cons c s)
  then have "undec s < 10 ^ length s" and "dval c < 10"
    by (auto simp: dval_less)
  then have "dval c * 10 ^ length s + undec s < dval c * 10 ^ length s + 10 ^ length s"
    by simp
  also have "\<dots> = (dval c + 1) * 10 ^ length s"
    by (simp add: algebra_simps)
  also have "\<dots> \<le> 10 * 10 ^ length s"
    using \<open>dval c < 10\<close> by (intro mult_le_mono1) simp
  finally show ?case by (simp add: undec_Cons)
qed simp

lemma dec_digits: "\<forall>c \<in> set (dec n). is_digit c"
proof (induction n rule: dec.induct)
  case (1 n)
  then show ?case
    by (cases "n < 10") (auto simp: dec.simps [of n])
qed

lemma undec_dec [simp]: "undec (dec n) = n"
proof (induction n rule: dec.induct)
  case (1 n)
  then show ?case
    by (cases "n < 10") (auto simp: dec.simps [of n] undec_def)
qed

lemma dec_inject [simp]: "dec m = dec n \<longleftrightarrow> m = n"
  by (metis undec_dec)

lemma dec_nonempty [simp]: "dec n \<noteq> []"
  by (simp add: dec.simps [of n])

text \<open>The verbs \<open>%0wd\<close> of \<open>fmt.Sprintf\<close>: at least \<open>w\<close> digits, zero padded.\<close>

definition pad :: "nat \<Rightarrow> nat \<Rightarrow> string" where
  "pad w n = replicate (w - length (dec n)) (CHR ''0'') @ dec n"

lemma undec_append_zeros: "undec (replicate k (CHR ''0'') @ s) = undec s"
proof (induction k)
  case (Suc k)
  have "dval (CHR ''0'') = 0" by (simp add: dval_def)
  with Suc show ?case by (simp add: undec_Cons)
qed simp

lemma undec_pad [simp]: "undec (pad w n) = n"
  by (simp add: pad_def undec_append_zeros)

lemma pad_digits: "\<forall>c \<in> set (pad w n). is_digit c"
  using dec_digits [of n] by (auto simp: pad_def is_digit_def)

lemma length_dec_le: "n < 10 ^ Suc w \<Longrightarrow> length (dec n) \<le> Suc w"
proof (induction w arbitrary: n)
  case 0
  then show ?case by (simp add: dec.simps [of n])
next
  case (Suc w)
  show ?case
  proof (cases "n < 10")
    case True
    then show ?thesis by (simp add: dec.simps [of n])
  next
    case False
    have "n div 10 < 10 ^ Suc w"
      using Suc.prems by (simp add: div_less_iff_less_mult mult.commute)
    then have "length (dec (n div 10)) \<le> Suc w" by (rule Suc.IH)
    with False show ?thesis by (simp add: dec.simps [of n])
  qed
qed

lemma length_pad: "0 < w \<Longrightarrow> n < 10 ^ w \<Longrightarrow> length (pad w n) = w"
  using length_dec_le [of n "w - 1"] by (cases w) (auto simp: pad_def)

lemma pad_inject: "pad w m = pad w n \<longleftrightarrow> m = n"
  by (metis undec_pad)

text \<open>On digit strings of one length the lexicographic order is the numeric order.\<close>

lemma digits_less_iff:
  "length s = length t \<Longrightarrow> \<forall>c \<in> set s. is_digit c \<Longrightarrow> \<forall>c \<in> set t. is_digit c \<Longrightarrow>
   s < t \<longleftrightarrow> undec s < undec t"
proof (induction s t rule: list_induct2)
  case (Cons c s d t)
  have bs: "undec s < 10 ^ length s" and bt: "undec t < 10 ^ length s"
    using Cons.prems Cons.hyps undec_bound [of s] undec_bound [of t] by auto
  have IH: "s < t \<longleftrightarrow> undec s < undec t" using Cons by simp
  let ?p = "10 ^ length s :: nat"
  consider "dval c < dval d" | "dval c = dval d" | "dval d < dval c" by linarith
  then show ?case
  proof cases
    case 1
    then have "(dval c + 1) * ?p \<le> dval d * ?p" by (intro mult_le_mono1) simp
    with bs have "undec (c # s) < undec (d # t)"
      by (simp add: undec_Cons Cons.hyps algebra_simps)
    moreover have "c < d" using 1 Cons.prems by (simp add: dval_less_iff)
    ultimately show ?thesis by simp
  next
    case 2
    then have "c = d" using Cons.prems by (simp add: dval_inject)
    then show ?thesis using IH by (simp add: undec_Cons Cons.hyps)
  next
    case 3
    then have "(dval d + 1) * ?p \<le> dval c * ?p" by (intro mult_le_mono1) simp
    with bt have "\<not> undec (c # s) < undec (d # t)"
      by (simp add: undec_Cons Cons.hyps algebra_simps)
    moreover have "d < c" using 3 Cons.prems by (simp add: dval_less_iff)
    ultimately show ?thesis by auto
  qed
qed simp

lemma pad_less_iff: "0 < w \<Longrightarrow> m < 10 ^ w \<Longrightarrow> n < 10 ^ w \<Longrightarrow> pad w m < pad w n \<longleftrightarrow> m < n"
  using pad_digits by (simp add: digits_less_iff length_pad)

lemma append_less_iff:
  "length s = length t \<Longrightarrow> s @ u < t @ v \<longleftrightarrow> s < t \<or> (s = t \<and> u < (v :: 'a :: order list))"
  by (induction s t rule: list_induct2) auto

end
