(* ===== verification/Http.thy ===== *)
theory Http
  imports Prelude
begin

text \<open>
  Requests and responses of the handlers. A JSON answer is an association list in the order of the
  source's literal; a handler returns the response and the new state. The decoded body of a
  request is an argument of its handler, \<open>None\<close> when \<open>json.Decoder.Decode\<close> fails.
\<close>

datatype jval =
    JNull
  | JBool bool
  | JInt int
  | JStr string
  | JArr "jval list"
  | JObj "(string \<times> jval) list"

datatype cookie_effect = SetsCookie string | ClearsCookie

datatype body = Json jval | Location string | Plain string | Page string

record response =
  rs_status :: nat
  rs_cookies :: "cookie_effect list"
  rs_body :: body

record request =
  rq_Method :: string
  rq_Path :: string
  rq_Header :: "string \<Rightarrow> string"
  rq_RemoteAddr :: string
  rq_Cookie :: "string option"
  rq_Query :: "string \<Rightarrow> string"

definition writeJSON :: "nat \<Rightarrow> (string \<times> jval) list \<Rightarrow> response" where
  "writeJSON status obj = \<lparr>rs_status = status, rs_cookies = [], rs_body = Json (JObj obj)\<rparr>"

definition json_error :: "nat \<Rightarrow> string \<Rightarrow> response" where
  "json_error status msg = writeJSON status [(''ok'', JBool False), (''error'', JStr msg)]"

definition http_Error :: "string \<Rightarrow> nat \<Rightarrow> response" where
  "http_Error msg status = \<lparr>rs_status = status, rs_cookies = [], rs_body = Plain msg\<rparr>"

definition http_Redirect :: "string \<Rightarrow> response" where
  "http_Redirect url = \<lparr>rs_status = 302, rs_cookies = [], rs_body = Location url\<rparr>"

definition with_cookie :: "cookie_effect \<Rightarrow> response \<Rightarrow> response" where
  "with_cookie c r = r\<lparr>rs_cookies := rs_cookies r @ [c]\<rparr>"

definition method_not_allowed :: response where
  "method_not_allowed = http_Error ''Method not allowed'' 405"

text \<open>A middleware passes the request on or answers it.\<close>

datatype gate = Passes | Answers response

definition json_field :: "string \<Rightarrow> response \<Rightarrow> jval option" where
  "json_field k r = (case rs_body r of Json (JObj kvs) \<Rightarrow> map_of kvs k | _ \<Rightarrow> None)"

definition answers_ok :: "response \<Rightarrow> bool" where
  "answers_ok r \<longleftrightarrow> json_field ''ok'' r = Some (JBool True)"

lemma writeJSON_fields [simp]:
  "json_field k (writeJSON st obj) = map_of obj k"
  "rs_status (writeJSON st obj) = st"
  "rs_cookies (writeJSON st obj) = []"
  by (simp_all add: json_field_def writeJSON_def)

lemma json_error_not_ok [simp]:
  "\<not> answers_ok (json_error st msg)" "rs_status (json_error st msg) = st"
  by (simp_all add: answers_ok_def json_error_def)

lemma plain_not_ok [simp]:
  "\<not> answers_ok (http_Error msg st)" "\<not> answers_ok (http_Redirect url)" "\<not> answers_ok method_not_allowed"
  by (simp_all add: answers_ok_def json_field_def http_Error_def http_Redirect_def method_not_allowed_def)

lemma with_cookie_fields [simp]:
  "json_field k (with_cookie c r) = json_field k r" "rs_status (with_cookie c r) = rs_status r"
  "answers_ok (with_cookie c r) = answers_ok r" "rs_cookies (with_cookie c r) = rs_cookies r @ [c]"
  by (simp_all add: json_field_def with_cookie_def answers_ok_def)

end
