(* ===== verification/TunnelGuard.thy ===== *)
theory TunnelGuard
  imports Http
begin

text \<open>
  The middleware that restricts what is reachable through the public tunnel,
  \<open>internal/handlers/tunnel_guard.go\<close>. The order in which Go iterates the map of categories is
  the argument \<open>order\<close>.
\<close>

section \<open>The middleware\<close>

definition tunnelHeader :: string where
  "tunnelHeader = ''X-Tunnel''"

definition defaultAllowedRoutes :: "string list" where
  "defaultAllowedRoutes = [''home'', ''tracker'']"

definition home_route :: "string \<Rightarrow> bool" where
  "home_route path \<longleftrightarrow>
     path \<in> set [''/home'', ''/login'', ''/logout'', ''/api/login'', ''/api/users/search'', ''/api/settings'',
       ''/dashboard'', ''/profile'', ''/api/v1/user/profile'', ''/api/v1/preferences'']
     \<or> prefix ''/api/dashboard/'' path \<or> prefix ''/static/'' path"

definition checkin_route :: "string \<Rightarrow> bool" where
  "checkin_route path \<longleftrightarrow>
     path \<in> set [''/'', ''/kiosk'', ''/api/checkin'', ''/api/checkout'', ''/api/status'',
       ''/api/students/search'', ''/api/pin/check'']
     \<or> prefix ''/api/student/pin/'' path"

definition tracker_route :: "string \<Rightarrow> bool" where
  "tracker_route path \<longleftrightarrow> prefix ''/api/tracker/'' path"

definition admin_prefixes :: "string list" where
  "admin_prefixes = [''/admin'', ''/api/admin/'', ''/api/attendees'', ''/api/v1/schedule/'',
     ''/api/v1/directory'', ''/api/v1/import'', ''/api/v1/data'', ''/api/v1/password-reset'',
     ''/api/v1/memos/'', ''/api/v1/tracker/'', ''/api/v1/admin/'', ''/api/v1/student/pin/'',
     ''/api/v1/student/profile'', ''/api/v1/audit/'']"

definition admin_route :: "string \<Rightarrow> bool" where
  "admin_route path \<longleftrightarrow> (\<exists>p \<in> set admin_prefixes. prefix p path)"

definition memos_route :: "string \<Rightarrow> bool" where
  "memos_route path \<longleftrightarrow> prefix ''/memos/'' path \<or> prefix ''/memos'' path"

definition categories :: "string list" where
  "categories = [''home'', ''checkin'', ''tracker'', ''admin'', ''memos'']"

definition routeCategories :: "string \<Rightarrow> string \<Rightarrow> bool" where
  "routeCategories category =
     (if category = ''home'' then home_route
      else if category = ''checkin'' then checkin_route
      else if category = ''tracker'' then tracker_route
      else if category = ''admin'' then admin_route
      else if category = ''memos'' then memos_route
      else (\<lambda>_. False))"

definition isAPIRoute :: "string \<Rightarrow> bool" where
  "isAPIRoute path \<longleftrightarrow> prefix ''/api/'' path"

definition blocked_answer :: "string \<Rightarrow> response" where
  "blocked_answer path =
     (if isAPIRoute path
      then writeJSON 403 [(''error'', JStr ''This endpoint is not available via public access'')]
      else http_Redirect ''/home'')"

definition TunnelGuard :: "string list \<Rightarrow> string list \<Rightarrow> request \<Rightarrow> gate \<times> request" where
  "TunnelGuard order allowedRoutes r =
     (let allowed = (if allowedRoutes = [] then defaultAllowedRoutes else allowedRoutes) in
      if rq_Header r tunnelHeader \<noteq> ''true'' then (Passes, r)
      else let r' = r\<lparr>rq_Header := (rq_Header r)(tunnelHeader := [])\<rparr>; path = rq_Path r in
           case List.find (\<lambda>c. routeCategories c path) order of
             Some c \<Rightarrow> (if c \<in> set allowed then Passes else Answers (blocked_answer path), r')
           | None \<Rightarrow> (Passes, r'))"

section \<open>The categories are disjoint\<close>

lemma prefix_clash: "prefix a p \<Longrightarrow> prefix b p \<Longrightarrow> \<not> prefix a b \<Longrightarrow> \<not> prefix b a \<Longrightarrow> False"
  using prefix_same_cases by blast

definition clash :: "string list \<Rightarrow> string list \<Rightarrow> bool" where
  "clash as bs \<longleftrightarrow> list_all (\<lambda>a. list_all (\<lambda>b. \<not> prefix a b \<and> \<not> prefix b a) bs) as"

lemma clash_disjoint:
  "clash as bs \<Longrightarrow> \<exists>a \<in> set as. prefix a p \<Longrightarrow> \<exists>b \<in> set bs. prefix b p \<Longrightarrow> False"
  unfolding clash_def list_all_iff by (meson prefix_same_cases)

definition literal_off :: "string list \<Rightarrow> string list \<Rightarrow> bool" where
  "literal_off ls bs \<longleftrightarrow> list_all (\<lambda>l. list_all (\<lambda>b. \<not> prefix b l) bs) ls"

lemma literal_off_disjoint:
  "literal_off ls bs \<Longrightarrow> p \<in> set ls \<Longrightarrow> \<exists>b \<in> set bs. prefix b p \<Longrightarrow> False"
  unfolding literal_off_def list_all_iff by blast

text \<open>A category is a set of literal paths and a set of prefixes.\<close>

definition literals :: "string \<Rightarrow> string list" where
  "literals c =
     (if c = ''home'' then [''/home'', ''/login'', ''/logout'', ''/api/login'', ''/api/users/search'',
        ''/api/settings'', ''/dashboard'', ''/profile'', ''/api/v1/user/profile'', ''/api/v1/preferences'']
      else if c = ''checkin'' then [''/'', ''/kiosk'', ''/api/checkin'', ''/api/checkout'', ''/api/status'',
        ''/api/students/search'', ''/api/pin/check'']
      else [])"

definition prefixes_of :: "string \<Rightarrow> string list" where
  "prefixes_of c =
     (if c = ''home'' then [''/api/dashboard/'', ''/static/'']
      else if c = ''checkin'' then [''/api/student/pin/'']
      else if c = ''tracker'' then [''/api/tracker/'']
      else if c = ''admin'' then admin_prefixes
      else if c = ''memos'' then [''/memos/'', ''/memos'']
      else [])"

lemma routeCategories_alt:
  "routeCategories c path \<longleftrightarrow> path \<in> set (literals c) \<or> (\<exists>p \<in> set (prefixes_of c). prefix p path)"
  by (auto simp: routeCategories_def home_route_def checkin_route_def tracker_route_def admin_route_def
      memos_route_def literals_def prefixes_of_def)

lemma tables_disjoint:
  "list_all (\<lambda>c. list_all (\<lambda>d. c = d \<or> (clash (prefixes_of c) (prefixes_of d)
     \<and> literal_off (literals c) (prefixes_of d) \<and> literal_off (literals d) (prefixes_of c)
     \<and> set (literals c) \<inter> set (literals d) = {})) categories) categories"
  by code_simp

lemma categories_disjoint:
  assumes "c \<in> set categories" "d \<in> set categories" "routeCategories c path" "routeCategories d path"
  shows "c = d"
proof (rule ccontr)
  assume "c \<noteq> d"
  with tables_disjoint assms(1,2) have
    "clash (prefixes_of c) (prefixes_of d)" "literal_off (literals c) (prefixes_of d)"
    "literal_off (literals d) (prefixes_of c)" "set (literals c) \<inter> set (literals d) = {}"
    unfolding list_all_iff by blast+
  with assms(3,4) show False
    unfolding routeCategories_alt by (meson clash_disjoint literal_off_disjoint disjoint_iff)
qed

text \<open>
  C9. A request that did not come through the tunnel passes untouched. One that did loses its
  tunnel header and is answered with a refusal precisely when its path lies in a category that is
  not allowed; the iteration order of the map makes no difference, and a path in no category passes.
\<close>

theorem tunnel_guard_decides:
  assumes "set order = set categories"
  shows "TunnelGuard order allowedRoutes r =
    (if rq_Header r ''X-Tunnel'' \<noteq> ''true'' then (Passes, r)
     else (if \<exists>c \<in> set categories. routeCategories c (rq_Path r)
                \<and> c \<notin> set (if allowedRoutes = [] then [''home'', ''tracker''] else allowedRoutes)
           then Answers (blocked_answer (rq_Path r)) else Passes,
           r\<lparr>rq_Header := (rq_Header r)(''X-Tunnel'' := [])\<rparr>))"
proof (cases "List.find (\<lambda>c. routeCategories c (rq_Path r)) order")
  case None
  then have "\<forall>c \<in> set categories. \<not> routeCategories c (rq_Path r)"
    using assms by (simp add: find_None_all)
  with None show ?thesis
    by (simp add: TunnelGuard_def tunnelHeader_def defaultAllowedRoutes_def Let_def)
next
  case (Some c)
  then have "c \<in> set categories" "routeCategories c (rq_Path r)"
    using assms by (auto dest: find_Some_iff_mem)
  then have "(\<exists>d \<in> set categories. routeCategories d (rq_Path r) \<and> d \<notin> A) \<longleftrightarrow> c \<notin> A" for A
    using categories_disjoint by blast
  with Some show ?thesis
    by (simp add: TunnelGuard_def tunnelHeader_def defaultAllowedRoutes_def Let_def)
qed

definition tunnel_request :: "string \<Rightarrow> request" where
  "tunnel_request path = \<lparr>rq_Method = ''GET'', rq_Path = path,
     rq_Header = (\<lambda>h. if h = ''X-Tunnel'' then ''true'' else []), rq_RemoteAddr = ''127.0.0.1:7000'',
     rq_Cookie = None, rq_Query = (\<lambda>_. [])\<rparr>"

theorem tunnel_guard_decides_witness:
  "fst (TunnelGuard (rev categories) [] (tunnel_request ''/api/v1/data'')) =
     Answers (writeJSON 403 [(''error'', JStr ''This endpoint is not available via public access'')])
   \<and> fst (TunnelGuard categories [] (tunnel_request ''/api/v1/timeoff'')) = Passes"
proof -
  have a: "''admin'' \<in> set categories" "routeCategories ''admin'' ''/api/v1/data''"
    "list_all (\<lambda>c. \<not> routeCategories c ''/api/v1/timeoff'') categories"
    by code_simp+
  then have b: "\<exists>c \<in> set categories. routeCategories c ''/api/v1/data'' \<and> c \<notin> set [''home'', ''tracker'']"
    by (intro bexI [of _ "''admin''"]) simp_all
  from a(3) have c: "\<not> (\<exists>c \<in> set categories. routeCategories c ''/api/v1/timeoff'' \<and> c \<notin> A)" for A
    by (auto simp: list_all_iff)
  have r: "rq_Header (tunnel_request p) ''X-Tunnel'' = ''true''" "rq_Path (tunnel_request p) = p" for p
    by (simp_all add: tunnel_request_def)
  have d: "fst (TunnelGuard (rev categories) [] (tunnel_request ''/api/v1/data'')) = Answers (blocked_answer ''/api/v1/data'')"
    by (subst tunnel_guard_decides) (simp_all only: set_rev r refl if_False if_True b simp_thms fst_conv)
  have e: "fst (TunnelGuard categories [] (tunnel_request ''/api/v1/timeoff'')) = Passes"
    by (subst tunnel_guard_decides) (simp_all only: r refl if_False if_True c simp_thms fst_conv)
  show ?thesis
    unfolding d e by (simp add: blocked_answer_def isAPIRoute_def)
qed

end
