(* ===== verification/Tables.thy ===== *)
theory Tables
  imports Prelude
begin

text \<open>
  The SQLite tables of \<open>internal/database/migrate.go\<close> the server works on, as lists of rows in
  rowid order. A nullable column is an option; an \<open>INTEGER\<close> flag stays an integer; a \<open>DATETIME\<close>
  filled by \<open>datetime('now','localtime')\<close> is its civil second. An \<open>AUTOINCREMENT\<close> table also
  keeps the last identifier it gave out. A statement fails when its fault is raised:
  \<open>faults\<close> says which statements the driver rejects.
\<close>

section \<open>Rows\<close>

record student_row =
  st_id :: string
  st_first_name :: string
  st_last_name :: string
  st_grade :: "string option"
  st_school :: "string option"
  st_parent_id :: "string option"
  st_email :: "string option"
  st_phone :: "string option"
  st_address :: "string option"
  st_notes :: "string option"
  st_dob :: "string option"
  st_birthplace :: "string option"
  st_years_in_us :: "string option"
  st_first_language :: "string option"
  st_previous_schools :: "string option"
  st_courses_outside :: "string option"
  st_english_name :: "string option"
  st_package :: "string option"
  st_major :: "string option"
  st_enroll_term :: "string option"
  st_graduation :: "string option"
  st_profile_status :: string
  st_active :: int
  st_deleted :: int
  st_deleted_at :: "int option"
  st_deleted_by :: "string option"
  st_row_hash :: "string option"
  st_pin_hash :: "string option"
  st_require_pin :: int
  st_personal_pin :: "string option"
  st_pin_generated_date :: "string option"

record parent_row =
  pa_id :: string
  pa_first_name :: string
  pa_last_name :: string
  pa_email :: "string option"
  pa_phone :: "string option"
  pa_email2 :: "string option"
  pa_phone2 :: "string option"
  pa_address :: "string option"
  pa_notes :: "string option"
  pa_deleted :: int
  pa_deleted_at :: "int option"
  pa_deleted_by :: "string option"
  pa_row_hash :: "string option"

record teacher_row =
  te_id :: string
  te_first_name :: string
  te_last_name :: string
  te_email :: "string option"
  te_phone :: "string option"
  te_address :: "string option"
  te_subjects :: "string option"
  te_active :: int
  te_deleted :: int
  te_deleted_at :: "int option"
  te_deleted_by :: "string option"
  te_row_hash :: "string option"

record room_row =
  ro_id :: string
  ro_name :: string
  ro_capacity :: "int option"
  ro_notes :: "string option"
  ro_deleted :: int
  ro_deleted_at :: "int option"
  ro_deleted_by :: "string option"
  ro_row_hash :: "string option"

record schedule_row =
  sc_id :: string
  sc_day_of_week :: string
  sc_start_time :: string
  sc_end_time :: string
  sc_teacher_id :: "string option"
  sc_room_id :: "string option"
  sc_subject :: "string option"
  sc_student_ids :: "string option"
  sc_effective_from :: "string option"
  sc_effective_until :: "string option"
  sc_type :: string
  sc_deleted :: int
  sc_deleted_at :: "int option"
  sc_deleted_by :: "string option"
  sc_row_hash :: "string option"

record attendance_row =
  at_id :: int
  at_student_id :: string
  at_student_name :: string
  at_device_type :: string
  at_check_in_time :: int
  at_check_out_time :: "int option"

record attendance_meta_row =
  am_attendance_id :: int
  am_student_id :: "string option"
  am_schedule_id :: "string option"

record audit_row =
  au_id :: int
  au_attendance_id :: int
  au_student_name :: string
  au_student_id :: "string option"
  au_device_type :: string
  au_client_ip :: string
  au_fingerprint :: "string option"
  au_device_id :: "string option"
  au_action :: string
  au_created_at :: int
  au_flagged :: int
  au_flag_reason :: "string option"

record task_row =
  ti_id :: int
  ti_scope :: int
  ti_schedule_id :: "string option"
  ti_student_id :: "string option"
  ti_type :: string
  ti_name :: string
  ti_notes :: "string option"
  ti_start_date :: "string option"
  ti_end_date :: "string option"
  ti_priority :: string
  ti_recurrence :: string
  ti_category :: "string option"
  ti_criteria :: "string option"
  ti_group_id :: "string option"
  ti_group_order :: "int option"
  ti_created_by :: string
  ti_owner_type :: string
  ti_completed :: int
  ti_completed_at :: "int option"
  ti_completed_by :: "string option"
  ti_active :: int
  ti_deleted :: int
  ti_deleted_at :: "int option"
  ti_deleted_by :: "string option"
  ti_created_at :: int
  ti_updated_at :: int

record response_row =
  tr_id :: int
  tr_student_id :: string
  tr_student_name :: string
  tr_item_type :: string
  tr_item_id :: int
  tr_item_name :: string
  tr_status :: string
  tr_notes :: "string option"
  tr_response_date :: string
  tr_attendance_id :: "int option"
  tr_responded_at :: int
  tr_due_date :: "string option"
  tr_is_late :: int

record preference_row =
  up_user_id :: string
  up_user_type :: string
  up_pref_key :: string
  up_pref_value :: string
  up_updated_at :: int

text \<open>\<open>hours\<close> is a double, as its bits.\<close>

record timeoff_row =
  tf_id :: int
  tf_user_id :: string
  tf_user_type :: string
  tf_date :: string
  tf_type :: string
  tf_schedule_type :: string
  tf_hours :: "64 word"
  tf_notes :: "string option"
  tf_created_by :: "string option"
  tf_created_at :: int

record 'r tab =
  tb_rows :: "'r list"
  tb_seq :: int

record classdb =
  db_students :: "student_row list"
  db_parents :: "parent_row list"
  db_teachers :: "teacher_row list"
  db_rooms :: "room_row list"
  db_schedules :: "schedule_row list"
  db_attendance :: "attendance_row tab"
  db_meta :: "attendance_meta_row list"
  db_audit :: "audit_row tab"
  db_tasks :: "task_row tab"
  db_responses :: "response_row tab"
  db_preferences :: "preference_row list"
  db_timeoff :: "timeoff_row tab"

definition empty_tab :: "'r tab" where
  "empty_tab = \<lparr>tb_rows = [], tb_seq = 0\<rparr>"

definition empty_db :: classdb where
  "empty_db = \<lparr>db_students = [], db_parents = [], db_teachers = [], db_rooms = [], db_schedules = [],
     db_attendance = empty_tab, db_meta = [], db_audit = empty_tab, db_tasks = empty_tab,
     db_responses = empty_tab, db_preferences = [], db_timeoff = empty_tab\<rparr>"

definition coalesce :: "string option \<Rightarrow> string" where
  "coalesce c = (case c of None \<Rightarrow> [] | Some s \<Rightarrow> s)"

definition nullStr :: "string \<Rightarrow> string option" where
  "nullStr s = (if s = [] then None else Some s)"

definition nullInt :: "int \<Rightarrow> int option" where
  "nullInt n = (if n = 0 then None else Some n)"

lemma coalesce_nullStr [simp]: "coalesce (nullStr s) = s" "coalesce None = []" "coalesce (Some s) = s"
  by (simp_all add: coalesce_def nullStr_def)

section \<open>Faults\<close>

datatype stmt =
    Q_student | Q_attendance | I_attendance | U_attendance | I_meta | I_audit | Q_audit | U_audit
  | U_student_pin | I_student | Q_tasks | I_task | U_task | Q_responses | I_response | D_response
  | Q_schedules | I_schedule | U_schedule | Q_rooms | Begin_tx | Prepare_stmt | Commit_tx | Q_people
  | U_people | I_entity | D_entity | Q_preference | I_preference | Q_timeoff | I_timeoff | U_timeoff | D_timeoff

type_synonym faults = "stmt \<Rightarrow> bool"

definition no_faults :: faults where
  "no_faults = (\<lambda>_. False)"

lemma no_faults_simp [simp]: "\<not> no_faults q"
  by (simp add: no_faults_def)

section \<open>Statements\<close>

text \<open>\<open>INSERT\<close> into an autoincrement table, \<open>UPDATE .. WHERE\<close> and \<open>DELETE .. WHERE\<close>.\<close>

definition insert_row :: "(int \<Rightarrow> 'r) \<Rightarrow> 'r tab \<Rightarrow> 'r tab" where
  "insert_row mk t = \<lparr>tb_rows = tb_rows t @ [mk (tb_seq t + 1)], tb_seq = tb_seq t + 1\<rparr>"

definition update_where :: "('r \<Rightarrow> bool) \<Rightarrow> ('r \<Rightarrow> 'r) \<Rightarrow> 'r list \<Rightarrow> 'r list" where
  "update_where P f rows = map (\<lambda>r. if P r then f r else r) rows"

definition update_tab :: "('r \<Rightarrow> bool) \<Rightarrow> ('r \<Rightarrow> 'r) \<Rightarrow> 'r tab \<Rightarrow> 'r tab" where
  "update_tab P f t = t\<lparr>tb_rows := update_where P f (tb_rows t)\<rparr>"

definition delete_tab :: "('r \<Rightarrow> bool) \<Rightarrow> 'r tab \<Rightarrow> 'r tab" where
  "delete_tab P t = t\<lparr>tb_rows := filter (\<lambda>r. \<not> P r) (tb_rows t)\<rparr>"

definition count_where :: "('r \<Rightarrow> bool) \<Rightarrow> 'r list \<Rightarrow> nat" where
  "count_where P rows = length (filter P rows)"

lemma insert_row_simps [simp]:
  "tb_rows (insert_row mk t) = tb_rows t @ [mk (tb_seq t + 1)]" "tb_seq (insert_row mk t) = tb_seq t + 1"
  by (simp_all add: insert_row_def)

lemma update_tab_simps [simp]:
  "tb_rows (update_tab P f t) = update_where P f (tb_rows t)" "tb_seq (update_tab P f t) = tb_seq t"
  by (simp_all add: update_tab_def)

lemma delete_tab_simps [simp]:
  "tb_rows (delete_tab P t) = filter (\<lambda>r. \<not> P r) (tb_rows t)" "tb_seq (delete_tab P t) = tb_seq t"
  by (simp_all add: delete_tab_def)

lemma set_update_where:
  "set (update_where P f rows) = (\<lambda>r. if P r then f r else r) ` set rows"
  by (simp add: update_where_def)

lemma update_where_none: "\<forall>r \<in> set rows. \<not> P r \<Longrightarrow> update_where P f rows = rows"
  by (simp add: update_where_def map_idI)

lemma update_where_append [simp]:
  "update_where P f (xs @ ys) = update_where P f xs @ update_where P f ys"
  by (simp add: update_where_def)

lemma find_update_where:
  assumes "\<And>r. Q (f r) = Q r"
  shows "List.find Q (update_where P f rows) = map_option (\<lambda>r. if P r then f r else r) (List.find Q rows)"
  using assms by (induction rows) (auto simp: update_where_def)

text \<open>
  \<open>SELECT .. ORDER BY key DESC LIMIT 1\<close>: a row of greatest key, the last in rowid order among equal
  ones being a choice of the engine (\<open>pick\<close> says which of the greatest rows it returns).
\<close>

definition greatest_by :: "('r \<Rightarrow> int) \<Rightarrow> 'r list \<Rightarrow> 'r list" where
  "greatest_by key rows = filter (\<lambda>r. \<forall>s \<in> set rows. key s \<le> key r) rows"

lemma greatest_by_nonempty: "rows \<noteq> [] \<Longrightarrow> greatest_by key rows \<noteq> []"
proof -
  assume "rows \<noteq> []"
  then have "Max (key ` set rows) \<in> key ` set rows" by (intro Max_in) auto
  then obtain r where "r \<in> set rows" "key r = Max (key ` set rows)" by auto
  then have "r \<in> set (greatest_by key rows)" by (simp add: greatest_by_def)
  then show ?thesis by auto
qed

lemma greatest_by_subset: "r \<in> set (greatest_by key rows) \<Longrightarrow> r \<in> set rows"
  by (simp add: greatest_by_def)

section \<open>Autoincrement tables as an interface\<close>

text \<open>
  Every autoincrement table identifies its rows by an integer column that no statement writes
  after the insert. The facts on identifiers follow from that alone.
\<close>

definition keys_ok :: "('r \<Rightarrow> int) \<Rightarrow> 'r tab \<Rightarrow> bool" where
  "keys_ok key t \<longleftrightarrow> distinct (map key (tb_rows t)) \<and> (\<forall>r \<in> set (tb_rows t). 0 < key r \<and> key r \<le> tb_seq t) \<and> 0 \<le> tb_seq t"

locale autoinc =
  fixes key :: "'r \<Rightarrow> int" and mk :: "'v \<Rightarrow> int \<Rightarrow> 'r"
  assumes key_mk [simp]: "key (mk v i) = i"
begin

lemma keys_empty: "keys_ok key empty_tab"
  by (simp add: keys_ok_def empty_tab_def)

lemma keys_insert: "keys_ok key t \<Longrightarrow> keys_ok key (insert_row (mk v) t)"
  by (fastforce simp: keys_ok_def)

lemma keys_update:
  assumes "keys_ok key t" "\<And>r. key (f r) = key r"
  shows "keys_ok key (update_tab P f t)"
proof -
  have "map key (update_where P f (tb_rows t)) = map key (tb_rows t)"
    by (simp add: update_where_def assms(2))
  then show ?thesis
    using assms by (auto simp: keys_ok_def set_update_where)
qed

lemma keys_delete: "keys_ok key t \<Longrightarrow> keys_ok key (delete_tab P t)"
  by (simp add: keys_ok_def distinct_map_filter)

lemma fresh: "keys_ok key t \<Longrightarrow> r \<in> set (tb_rows t) \<Longrightarrow> key r \<noteq> tb_seq t + 1"
  by (auto simp: keys_ok_def)

lemma find_inserted:
  assumes "keys_ok key t"
  shows "List.find (\<lambda>r. key r = tb_seq t + 1) (tb_rows (insert_row (mk v) t)) = Some (mk v (tb_seq t + 1))"
proof -
  have "List.find (\<lambda>r. key r = tb_seq t + 1) (tb_rows t) = None"
    using fresh [OF assms] by (auto simp: find_None_iff)
  then show ?thesis by (simp add: find_append)
qed

lemma same_key: "keys_ok key t \<Longrightarrow> r \<in> set (tb_rows t) \<Longrightarrow> s \<in> set (tb_rows t) \<Longrightarrow> key r = key s \<Longrightarrow> r = s"
  by (auto simp: keys_ok_def distinct_map dest: inj_onD)

end

text \<open>The rows these tables are filled with, and the interpretation of the interface on each.\<close>

definition mk_attendance :: "(string \<times> string \<times> string \<times> int) \<Rightarrow> int \<Rightarrow> attendance_row" where
  "mk_attendance v i = (case v of (sid, name, device, now) \<Rightarrow>
     \<lparr>at_id = i, at_student_id = sid, at_student_name = name, at_device_type = device,
      at_check_in_time = now, at_check_out_time = None\<rparr>)"

definition mk_audit :: "audit_row \<Rightarrow> int \<Rightarrow> audit_row" where
  "mk_audit a i = a\<lparr>au_id := i\<rparr>"

definition mk_task :: "task_row \<Rightarrow> int \<Rightarrow> task_row" where
  "mk_task a i = a\<lparr>ti_id := i\<rparr>"

definition mk_timeoff :: "timeoff_row \<Rightarrow> int \<Rightarrow> timeoff_row" where
  "mk_timeoff a i = a\<lparr>tf_id := i\<rparr>"

definition mk_response :: "response_row \<Rightarrow> int \<Rightarrow> response_row" where
  "mk_response a i = a\<lparr>tr_id := i\<rparr>"

interpretation attendance_tab: autoinc at_id mk_attendance
  by unfold_locales (simp add: mk_attendance_def split: prod.split)

interpretation audit_tab: autoinc au_id mk_audit
  by unfold_locales (simp add: mk_audit_def)

interpretation task_tab: autoinc ti_id mk_task
  by unfold_locales (simp add: mk_task_def)

interpretation timeoff_tab: autoinc tf_id mk_timeoff
  by unfold_locales (simp add: mk_timeoff_def)

interpretation response_tab: autoinc tr_id mk_response
  by unfold_locales (simp add: mk_response_def)

end
