(* ===== verification/Sessions.thy ===== *)
theory Sessions
  imports Http
begin

text \<open>
  The session store of \<open>internal/auth/auth.go\<close>: a session holds several identities, one of them
  active, and the fields of the active one are copied to the top of the session. A store is a
  map from tokens to sessions; every operation holds the mutex, so operations are atomic steps.
  Instants are nanoseconds. The random token of a new session is an argument.
\<close>

section \<open>Data\<close>

record identity =
  id_Username :: string
  id_Role :: string
  id_UserType :: string
  id_EntityID :: string
  id_IsSuperAdmin :: bool
  id_DisplayName :: string

record session =
  ss_Username :: string
  ss_Role :: string
  ss_UserType :: string
  ss_EntityID :: string
  ss_IsSuperAdmin :: bool
  ss_Identities :: "identity list"
  ss_ActiveIndex :: int
  ss_ExpiresAt :: int

type_synonym sessions = "string \<rightharpoonup> session"

datatype session_error = SessionNotFound | IndexOutOfRange int nat

definition SessionMaxAge :: int where
  "SessionMaxAge = 8 * 3600 * 1000000000"

definition no_identity :: identity where
  "no_identity = \<lparr>id_Username = [], id_Role = [], id_UserType = [], id_EntityID = [],
     id_IsSuperAdmin = False, id_DisplayName = []\<rparr>"

definition no_session :: session where
  "no_session = \<lparr>ss_Username = [], ss_Role = [], ss_UserType = [], ss_EntityID = [],
     ss_IsSuperAdmin = False, ss_Identities = [], ss_ActiveIndex = 0, ss_ExpiresAt = 0\<rparr>"

definition GuestIdentity :: identity where
  "GuestIdentity = \<lparr>id_Username = ''guest'', id_Role = ''guest'', id_UserType = [], id_EntityID = [],
     id_IsSuperAdmin = False, id_DisplayName = ''Guest (Kiosk)''\<rparr>"

section \<open>Operations\<close>

definition in_range :: "int \<Rightarrow> 'a list \<Rightarrow> bool" where
  "in_range i xs \<longleftrightarrow> 0 \<le> i \<and> i < int (length xs)"

definition syncActive :: "session \<Rightarrow> session" where
  "syncActive s =
     (if ss_Identities s = [] then s
      else let i = (if in_range (ss_ActiveIndex s) (ss_Identities s) then ss_ActiveIndex s else 0);
               id = ss_Identities s ! nat i
           in s\<lparr>ss_ActiveIndex := i, ss_Username := id_Username id, ss_Role := id_Role id,
                ss_UserType := id_UserType id, ss_EntityID := id_EntityID id,
                ss_IsSuperAdmin := id_IsSuperAdmin id\<rparr>)"

definition Active :: "session \<Rightarrow> identity" where
  "Active s =
     (if ss_Identities s = [] then no_identity
      else if in_range (ss_ActiveIndex s) (ss_Identities s)
           then ss_Identities s ! nat (ss_ActiveIndex s)
           else ss_Identities s ! 0)"

definition CreateWithDisplayName ::
  "int \<Rightarrow> string \<Rightarrow> string \<Rightarrow> string \<Rightarrow> string \<Rightarrow> string \<Rightarrow> string \<Rightarrow> sessions \<Rightarrow> sessions" where
  "CreateWithDisplayName now token username role userType entityID displayName st =
     (let id = \<lparr>id_Username = username, id_Role = role, id_UserType = userType, id_EntityID = entityID,
                id_IsSuperAdmin = False, id_DisplayName = displayName\<rparr>
      in st(token \<mapsto> syncActive (no_session\<lparr>ss_Identities := [id], ss_ActiveIndex := 0,
                                           ss_ExpiresAt := now + SessionMaxAge\<rparr>)))"

definition Create :: "int \<Rightarrow> string \<Rightarrow> string \<Rightarrow> string \<Rightarrow> string \<Rightarrow> string \<Rightarrow> sessions \<Rightarrow> sessions" where
  "Create now token username role userType entityID st =
     CreateWithDisplayName now token username role userType entityID [] st"

text \<open>A negative active index, which no operation stores, would panic here.\<close>

definition SetSuperAdmin :: "string \<Rightarrow> sessions \<Rightarrow> sessions" where
  "SetSuperAdmin token st =
     (case st token of
        None \<Rightarrow> st
      | Some s \<Rightarrow>
          let i = nat (ss_ActiveIndex s);
              ids = (if ss_Identities s \<noteq> [] \<and> ss_ActiveIndex s < int (length (ss_Identities s))
                     then (ss_Identities s)[i := (ss_Identities s ! i)\<lparr>id_IsSuperAdmin := True\<rparr>]
                     else ss_Identities s)
          in st(token \<mapsto> s\<lparr>ss_Identities := ids, ss_IsSuperAdmin := True\<rparr>))"

definition Delete :: "string \<Rightarrow> sessions \<Rightarrow> sessions" where
  "Delete token st = st(token := None)"

definition Get :: "int \<Rightarrow> string \<Rightarrow> sessions \<Rightarrow> session option \<times> sessions" where
  "Get now token st =
     (case st token of
        None \<Rightarrow> (None, st)
      | Some s \<Rightarrow> if ss_ExpiresAt s < now then (None, Delete token st) else (Some (syncActive s), st))"

fun find_identity :: "identity \<Rightarrow> identity list \<Rightarrow> nat option" where
  "find_identity idn [] = None"
| "find_identity idn (x # xs) =
     (if id_Username x = id_Username idn \<and> id_Role x = id_Role idn then Some 0
      else map_option Suc (find_identity idn xs))"

definition AddIdentity :: "string \<Rightarrow> identity \<Rightarrow> sessions \<Rightarrow> (session_error + nat) \<times> sessions" where
  "AddIdentity token idn st =
     (case st token of
        None \<Rightarrow> (Inl SessionNotFound, st)
      | Some s \<Rightarrow>
          (case find_identity idn (ss_Identities s) of
             Some i \<Rightarrow> (Inr i, st(token \<mapsto> s\<lparr>ss_Identities := (ss_Identities s)[i := idn]\<rparr>))
           | None \<Rightarrow> (Inr (length (ss_Identities s)),
                      st(token \<mapsto> s\<lparr>ss_Identities := ss_Identities s @ [idn]\<rparr>))))"

definition SwitchIdentity :: "string \<Rightarrow> int \<Rightarrow> sessions \<Rightarrow> (session_error + unit) \<times> sessions" where
  "SwitchIdentity token index st =
     (case st token of
        None \<Rightarrow> (Inl SessionNotFound, st)
      | Some s \<Rightarrow>
          if \<not> in_range index (ss_Identities s)
          then (Inl (IndexOutOfRange index (length (ss_Identities s))), st)
          else (Inr (), st(token \<mapsto> syncActive (s\<lparr>ss_ActiveIndex := index\<rparr>))))"

definition RemoveIdentity :: "string \<Rightarrow> int \<Rightarrow> sessions \<Rightarrow> (session_error + bool) \<times> sessions" where
  "RemoveIdentity token index st =
     (case st token of
        None \<Rightarrow> (Inl SessionNotFound, st)
      | Some s \<Rightarrow>
          if \<not> in_range index (ss_Identities s)
          then (Inl (IndexOutOfRange index (length (ss_Identities s))), st)
          else let ids = remove_nth (nat index) (ss_Identities s); a = ss_ActiveIndex s in
               if ids = [] then (Inr False, st(token := None))
               else let a' = (if int (length ids) \<le> a then int (length ids) - 1
                              else if index < a then a - 1 else a)
                    in (Inr True, st(token \<mapsto> syncActive (s\<lparr>ss_Identities := ids, ss_ActiveIndex := a'\<rparr>))))"

section \<open>The invariant\<close>

definition id_key :: "identity \<Rightarrow> string \<times> string" where
  "id_key idn = (id_Username idn, id_Role idn)"

definition session_ok :: "session \<Rightarrow> bool" where
  "session_ok s \<longleftrightarrow> ss_Identities s \<noteq> [] \<and> in_range (ss_ActiveIndex s) (ss_Identities s)
     \<and> distinct (map id_key (ss_Identities s))"

definition sessions_ok :: "sessions \<Rightarrow> bool" where
  "sessions_ok st \<longleftrightarrow> (\<forall>t s. st t = Some s \<longrightarrow> session_ok s)"

lemma sessions_okD [dest]: "sessions_ok st \<Longrightarrow> st t = Some s \<Longrightarrow> session_ok s"
  by (auto simp: sessions_ok_def)

lemma sessions_ok_upd [inv_intros]: "sessions_ok st \<Longrightarrow> session_ok s \<Longrightarrow> sessions_ok (st(t \<mapsto> s))"
  by (auto simp: sessions_ok_def)

lemma sessions_ok_del [inv_intros]: "sessions_ok st \<Longrightarrow> sessions_ok (st(t := None))"
  by (auto simp: sessions_ok_def)

lemma syncActive_fields [simp]:
  "ss_Identities (syncActive s) = ss_Identities s" "ss_ExpiresAt (syncActive s) = ss_ExpiresAt s"
  by (simp_all add: syncActive_def Let_def)

lemma session_ok_sync [simp]: "session_ok s \<Longrightarrow> session_ok (syncActive s)"
  by (auto simp: session_ok_def syncActive_def Let_def)

lemma Active_ok: "session_ok s \<Longrightarrow> Active s = ss_Identities s ! nat (ss_ActiveIndex s)"
  by (simp add: session_ok_def Active_def)

lemma syncActive_ok:
  assumes "session_ok s"
  shows "ss_ActiveIndex (syncActive s) = ss_ActiveIndex s" "Active (syncActive s) = Active s"
    "ss_Username (syncActive s) = id_Username (Active s)" "ss_Role (syncActive s) = id_Role (Active s)"
    "ss_UserType (syncActive s) = id_UserType (Active s)" "ss_EntityID (syncActive s) = id_EntityID (Active s)"
    "ss_IsSuperAdmin (syncActive s) = id_IsSuperAdmin (Active s)"
  using assms by (simp_all add: session_ok_def syncActive_def Active_def Let_def)

lemma find_identity_Some:
  "find_identity idn xs = Some i \<Longrightarrow> i < length xs \<and> id_key (xs ! i) = id_key idn"
  by (induction xs arbitrary: i) (auto simp: id_key_def split: if_splits)

lemma find_identity_None:
  "find_identity idn xs = None \<longleftrightarrow> id_key idn \<notin> id_key ` set xs"
  by (induction xs) (auto simp: id_key_def split: if_splits)

lemma map_key_update: "i < length xs \<Longrightarrow> id_key (xs ! i) = id_key idn \<Longrightarrow> map id_key (xs[i := idn]) = map id_key xs"
  by (metis list_update_id map_update nth_map)

lemma session_ok_add:
  assumes "session_ok s"
  shows "find_identity idn (ss_Identities s) = Some i \<Longrightarrow> session_ok (s\<lparr>ss_Identities := (ss_Identities s)[i := idn]\<rparr>)"
    and "find_identity idn (ss_Identities s) = None \<Longrightarrow> session_ok (s\<lparr>ss_Identities := ss_Identities s @ [idn]\<rparr>)"
  using assms find_identity_Some [of idn "ss_Identities s" i]
  by (auto simp: session_ok_def in_range_def map_key_update find_identity_None)

lemma remove_nth_adjust:
  assumes "session_ok s" "in_range index (ss_Identities s)" "remove_nth (nat index) (ss_Identities s) \<noteq> []"
  defines "ids \<equiv> remove_nth (nat index) (ss_Identities s)"
  defines "a' \<equiv> (if int (length ids) \<le> ss_ActiveIndex s then int (length ids) - 1
                 else if index < ss_ActiveIndex s then ss_ActiveIndex s - 1 else ss_ActiveIndex s)"
  shows "session_ok (s\<lparr>ss_Identities := ids, ss_ActiveIndex := a'\<rparr>)"
    and "index \<noteq> ss_ActiveIndex s \<Longrightarrow> ids ! nat a' = ss_Identities s ! nat (ss_ActiveIndex s)"
proof -
  have pos: "length ids > 0"
    using assms(3) unfolding ids_def by blast
  have len: "length ids = length (ss_Identities s) - 1"
    using assms(2) by (simp add: ids_def in_range_def nat_less_iff)
  have a: "0 \<le> ss_ActiveIndex s" "ss_ActiveIndex s < int (length (ss_Identities s))"
    using assms(1) by (auto simp: session_ok_def in_range_def)
  have a': "0 \<le> a'" "a' < int (length ids)"
    using a len pos assms(2) by (auto simp: a'_def in_range_def)
  show "session_ok (s\<lparr>ss_Identities := ids, ss_ActiveIndex := a'\<rparr>)"
    using assms(1,3) a' by (auto simp: session_ok_def in_range_def ids_def map_remove_nth distinct_remove_nth)
  assume "index \<noteq> ss_ActiveIndex s"
  then show "ids ! nat a' = ss_Identities s ! nat (ss_ActiveIndex s)"
    using a a' len pos assms(2) unfolding ids_def
    by (subst nth_remove_nth) (auto simp: a'_def in_range_def nat_less_iff ids_def intro!: arg_cong [of _ _ "(!) _"])
qed

end
