(* ===== verification/RateLimiter.thy ===== *)
theory RateLimiter
  imports Prelude
begin

text \<open>
  The check-in rate limiter, \<open>internal/handlers/ratelimit.go\<close>. Instants and durations are
  nanoseconds. A limiter maps a device key to the check-ins recorded for it, oldest first; every
  operation holds the mutex. The background cleanup is one more operation, at any time.
\<close>

section \<open>Operations\<close>

record checkin_record =
  cr_studentName :: string
  cr_timestamp :: int

type_synonym limiter = "string \<rightharpoonup> checkin_record list"

definition NewRateLimiter :: limiter where
  "NewRateLimiter = Map.empty"

definition DeviceKey :: "string \<Rightarrow> string \<Rightarrow> string \<Rightarrow> string" where
  "DeviceKey clientIP fingerprint deviceID =
     (let key = clientIP;
          key = (if fingerprint \<noteq> [] then key @ ''|'' @ fingerprint else key)
      in if deviceID \<noteq> [] then key @ ''|'' @ deviceID else key)"

function itoa :: "int \<Rightarrow> string" where
  "itoa n = (if n < 0 then CHR ''-'' # itoa (- n)
             else if n < 10 then [digit (nat n)]
             else itoa (n div 10) @ [digit (nat (n mod 10))])"
  by pat_completeness auto
termination
  by (relation "measure (\<lambda>n. 2 * nat \<bar>n\<bar> + (if n < 0 then 1 else 0))") auto

declare itoa.simps [simp del]

definition second :: int where "second = 1000000000"

definition cooldown :: "string \<Rightarrow> int" where
  "cooldown deviceType = (if deviceType = ''kiosk'' then 30 * second else 120 * second)"

definition records_of :: "limiter \<Rightarrow> string \<Rightarrow> checkin_record list" where
  "records_of rl key = (case rl key of None \<Rightarrow> [] | Some rs \<Rightarrow> rs)"

definition wait_message :: "int \<Rightarrow> string" where
  "wait_message secs = ''Please wait '' @ itoa secs @ '' seconds before checking in another student''"

definition Check :: "int \<Rightarrow> limiter \<Rightarrow> string \<Rightarrow> string \<Rightarrow> string \<Rightarrow> string" where
  "Check now rl deviceKey studentName deviceType =
     (let cd = cooldown deviceType; cutoff = now - cd in
      case List.find (\<lambda>r. cutoff < cr_timestamp r \<and> cr_studentName r \<noteq> studentName) (records_of rl deviceKey) of
        None \<Rightarrow> []
      | Some r \<Rightarrow> wait_message ((cr_timestamp r + cd - now) div second + 1))"

definition Record :: "int \<Rightarrow> string \<Rightarrow> string \<Rightarrow> limiter \<Rightarrow> limiter" where
  "Record now deviceKey studentName rl =
     rl(deviceKey \<mapsto> records_of rl deviceKey @ [\<lparr>cr_studentName = studentName, cr_timestamp = now\<rparr>])"

definition cleanup :: "int \<Rightarrow> limiter \<Rightarrow> limiter" where
  "cleanup now rl = (\<lambda>key.
     case rl key of
       None \<Rightarrow> None
     | Some rs \<Rightarrow> let fresh = filter (\<lambda>r. now - 600 * second < cr_timestamp r) rs
                  in if fresh = [] then None else Some fresh)"

section \<open>Rendering the wait\<close>

lemma itoa_dec: "0 \<le> n \<Longrightarrow> itoa n = dec (nat n)"
proof (induction n rule: itoa.induct)
  case (1 n)
  then show ?case
    by (cases "n < 10") (auto simp: itoa.simps [of n] dec.simps [of "nat n"] nat_div_distrib nat_mod_distrib)
qed

lemma wait_message_inject: "0 \<le> m \<Longrightarrow> 0 \<le> n \<Longrightarrow> wait_message m = wait_message n \<longleftrightarrow> m = n"
  by (simp add: wait_message_def itoa_dec eq_nat_nat_iff)

lemma wait_message_nonempty [simp]: "wait_message n \<noteq> []"
  by (simp add: wait_message_def)

section \<open>The limiter against its history\<close>

text \<open>
  The specification reads the events of the limiter instead of its state: the recorded check-ins
  and the cleanups, in any interleaving.
\<close>

datatype event = Recorded int string string | Cleaned int

fun event_time :: "event \<Rightarrow> int" where
  "event_time (Recorded t key name) = t"
| "event_time (Cleaned t) = t"

fun event_step :: "event \<Rightarrow> limiter \<Rightarrow> limiter" where
  "event_step (Recorded t key name) rl = Record t key name rl"
| "event_step (Cleaned t) rl = cleanup t rl"

definition run_events :: "event list \<Rightarrow> limiter" where
  "run_events evs = fold event_step evs NewRateLimiter"

definition blocks :: "int \<Rightarrow> string \<Rightarrow> string \<Rightarrow> checkin_record \<Rightarrow> bool" where
  "blocks now deviceType name r \<longleftrightarrow> now - cooldown deviceType < cr_timestamp r \<and> cr_studentName r \<noteq> name"

lemma records_of_Record:
  "records_of (Record t key name rl) k =
     (if k = key then records_of rl key @ [\<lparr>cr_studentName = name, cr_timestamp = t\<rparr>] else records_of rl k)"
  by (simp add: records_of_def Record_def)

lemma records_of_cleanup:
  "records_of (cleanup t rl) k = filter (\<lambda>r. t - 600 * second < cr_timestamp r) (records_of rl k)"
  by (auto simp: records_of_def cleanup_def Let_def split: option.split)

lemma cooldown_short: "0 < cooldown d" "cooldown d \<le> 120 * second"
  by (simp_all add: cooldown_def second_def)

lemma blocking_records_survive:
  assumes "\<forall>e \<in> set evs. event_time e \<le> now"
  shows "filter (blocks now d name) (records_of (run_events evs) k) =
    filter (blocks now d name) (concat (map (\<lambda>e. case e of Recorded t key n \<Rightarrow>
        if key = k then [\<lparr>cr_studentName = n, cr_timestamp = t\<rparr>] else [] | Cleaned t \<Rightarrow> []) evs))"
  using assms
proof (induction evs rule: rev_induct)
  case Nil
  then show ?case by (simp add: run_events_def NewRateLimiter_def records_of_def)
next
  case (snoc e evs)
  have run: "run_events (evs @ [x]) = event_step x (run_events evs)" for x
    by (simp add: run_events_def)
  show ?case
  proof (cases e)
    case (Recorded t key n)
    with snoc show ?thesis by (auto simp: run records_of_Record)
  next
    case (Cleaned t)
    then have "t \<le> now" using snoc.prems by simp
    then have "blocks now d name r \<Longrightarrow> t - 600 * second < cr_timestamp r" for r
      using cooldown_short [of d] by (auto simp: blocks_def second_def)
    then have "filter (blocks now d name) (filter (\<lambda>r. t - 600 * second < cr_timestamp r) rs)
        = filter (blocks now d name) rs" for rs
      by (induction rs) auto
    with Cleaned snoc show ?thesis by (simp add: run records_of_cleanup)
  qed
qed

lemma Check_alt:
  "Check now rl k name d =
     (case filter (blocks now d name) (records_of rl k) of
        [] \<Rightarrow> []
      | r # rs \<Rightarrow> wait_message ((cr_timestamp r + cooldown d - now) div second + 1))"
proof -
  have "List.find P xs = (case filter P xs of [] \<Rightarrow> None | x # ys \<Rightarrow> Some x)" for P :: "checkin_record \<Rightarrow> bool" and xs
    by (induction xs) auto
  then show ?thesis
    by (simp add: Check_def Let_def blocks_def [abs_def] split: list.split)
qed

text \<open>
  C7. Whatever cleanups ran in between, a check-in is held back precisely when another student was
  recorded for the same device key within the cool-down, two minutes, or half a minute on a kiosk.
\<close>

theorem rate_limit_exact:
  assumes "\<forall>e \<in> set evs. event_time e \<le> now"
  shows "Check now (run_events evs) key name deviceType \<noteq> [] \<longleftrightarrow>
    (\<exists>t other. Recorded t key other \<in> set evs \<and> other \<noteq> name \<and> now - cooldown deviceType < t)"
proof -
  let ?rs = "concat (map (\<lambda>e. case e of Recorded t k n \<Rightarrow>
      if k = key then [\<lparr>cr_studentName = n, cr_timestamp = t\<rparr>] else [] | Cleaned t \<Rightarrow> []) evs)"
  have "Check now (run_events evs) key name deviceType \<noteq> [] \<longleftrightarrow>
      filter (blocks now deviceType name) ?rs \<noteq> []"
    unfolding Check_alt blocking_records_survive [OF assms] by (simp split: list.split)
  also have "\<dots> \<longleftrightarrow> (\<exists>r \<in> set ?rs. blocks now deviceType name r)"
    by (auto simp: filter_empty_conv)
  also have "\<dots> \<longleftrightarrow> (\<exists>t other. Recorded t key other \<in> set evs \<and> other \<noteq> name \<and> now - cooldown deviceType < t)"
    by (fastforce simp: blocks_def split: event.splits if_splits)
  finally show ?thesis .
qed

text \<open>
  The wait announced is long enough: once that many seconds have passed the record it was
  computed from no longer holds the student back, and it is at most one second above the cool-down.
\<close>

theorem wait_is_enough:
  assumes "\<forall>r \<in> set (records_of rl key). cr_timestamp r \<le> now"
    and "Check now rl key name deviceType \<noteq> []"
  shows "\<exists>r secs. r \<in> set (records_of rl key) \<and> cr_studentName r \<noteq> name
     \<and> Check now rl key name deviceType = wait_message secs
     \<and> 1 \<le> secs \<and> (secs - 1) * second \<le> cooldown deviceType
     \<and> cr_timestamp r \<le> now + secs * second - cooldown deviceType"
proof -
  obtain r rs where f: "filter (blocks now deviceType name) (records_of rl key) = r # rs"
    using assms(2) by (auto simp: Check_alt split: list.splits)
  then have "r \<in> set (filter (blocks now deviceType name) (records_of rl key))" by simp
  then have r: "r \<in> set (records_of rl key)" "blocks now deviceType name r" by simp_all
  define w where "w = cr_timestamp r + cooldown deviceType - now"
  have "0 < second" by (simp add: second_def)
  have w: "0 < w" "w \<le> cooldown deviceType"
    using r assms(1) by (auto simp: blocks_def w_def)
  have q: "w div second * second = w - w mod second"
    by (simp add: minus_mod_eq_div_mult)
  have "0 \<le> w mod second" "w mod second < second" "0 \<le> w div second"
    using \<open>0 < second\<close> w(1) by (simp_all add: pos_imp_zdiv_nonneg_iff)
  then have "0 \<le> w div second" "w div second * second \<le> w" "w \<le> (w div second + 1) * second"
    unfolding distrib_right q by simp_all
  moreover have "Check now rl key name deviceType = wait_message (w div second + 1)"
    using f by (simp add: Check_alt w_def)
  ultimately show ?thesis
    using r w by (intro exI [of _ r] exI [of _ "w div second + 1"]) (auto simp: blocks_def w_def)
qed

section \<open>Examples\<close>

theorem rate_limit_exact_witness:
  "Check (100 * second) (run_events [Recorded 0 ''10.0.0.5'' ''Ann'', Cleaned (50 * second)]) ''10.0.0.5'' ''Bob'' ''mobile'' \<noteq> []
   \<and> Check (100 * second) (run_events [Recorded 0 ''10.0.0.5'' ''Ann'', Cleaned (50 * second)]) ''10.0.0.5'' ''Bob'' ''kiosk'' = []"
  using rate_limit_exact [of "[Recorded 0 ''10.0.0.5'' ''Ann'', Cleaned (50 * second)]" "100 * second" "''10.0.0.5''" "''Bob''" "''mobile''"]
    rate_limit_exact [of "[Recorded 0 ''10.0.0.5'' ''Ann'', Cleaned (50 * second)]" "100 * second" "''10.0.0.5''" "''Bob''" "''kiosk''"]
  by (simp add: cooldown_def second_def)

theorem wait_is_enough_witness:
  "\<exists>secs. Check 5 (Record 0 ''10.0.0.5'' ''Ann'' NewRateLimiter) ''10.0.0.5'' ''Bob'' ''kiosk'' = wait_message secs
     \<and> 1 \<le> secs \<and> (secs - 1) * second \<le> 30 * second"
  using wait_is_enough [of "Record 0 ''10.0.0.5'' ''Ann'' NewRateLimiter" "''10.0.0.5''" 5 "''Bob''" "''kiosk''"]
  by (simp add: records_of_Record Check_def cooldown_def second_def NewRateLimiter_def)
    (simp add: records_of_def, blast)

end
