(* ===== verification/Calendar.thy ===== *)
theory Calendar
  imports Prelude
begin

text \<open>
  The proleptic Gregorian calendar of Go's \<open>time\<close> package, as far as the modelled source
  uses it. A day is an integer, day \<open>0\<close> being 1 January of year 1 (Go's zero time), and a
  civil second is an integer of the same origin. The theory defines the year, month and day of
  a day number, \<open>time.Weekday\<close>, \<open>Time.ISOWeek\<close>, the layouts \<open>2006-01-02\<close>, \<open>2006-01\<close>
  and \<open>15:04\<close>, and \<open>time.Parse\<close> for the first; it proves that day numbers and dates
  determine each other, and that the text order of formatted dates is the order of the days.
\<close>

section \<open>Years\<close>

definition leap :: "int \<Rightarrow> bool" where
  "leap y \<longleftrightarrow> y mod 4 = 0 \<and> (y mod 100 \<noteq> 0 \<or> y mod 400 = 0)"

definition year_len :: "int \<Rightarrow> int" where
  "year_len y = (if leap y then 366 else 365)"

text \<open>The number of days before 1 January of a year.\<close>

definition year_start :: "int \<Rightarrow> int" where
  "year_start y = 365 * (y - 1) + (y - 1) div 4 - (y - 1) div 100 + (y - 1) div 400"

definition year_of :: "int \<Rightarrow> int" where
  "year_of n =
     (let a = n div 146097; r = n mod 146097;
          b = min 3 (r div 36524); s = r - 36524 * b;
          c = s div 1461; t = s mod 1461;
          d = min 3 (t div 365)
      in 400 * a + 100 * b + 4 * c + d + 1)"

lemma div_step:
  assumes "0 < (k::int)"
  shows "y div k = (y - 1) div k + (if y mod k = 0 then 1 else 0)"
proof (cases "y mod k = 0")
  case True
  have "y - 1 = k * (y div k - 1) + (k - 1)"
    using True mult_div_mod_eq [of k y] by (simp add: algebra_simps)
  then have "(y - 1) div k = y div k - 1"
    using assms by (intro int_div_pos_eq [where r = "k - 1"]) auto
  with True show ?thesis by simp
next
  case False
  have "y - 1 = k * (y div k) + (y mod k - 1)"
    using mult_div_mod_eq [of k y] by simp
  moreover have "0 < y mod k" and "y mod k < k"
    using False pos_mod_sign [OF assms, of y] pos_mod_bound [OF assms, of y] by linarith+
  ultimately have "(y - 1) div k = y div k"
    by (intro int_div_pos_eq [where r = "y mod k - 1"]) auto
  with False show ?thesis by simp
qed

lemma mod_100_400: "(y::int) mod 400 = 0 \<Longrightarrow> y mod 100 = 0"
  and mod_4_100: "(y::int) mod 100 = 0 \<Longrightarrow> y mod 4 = 0"
  by (simp_all add: mod_eq_0_iff_dvd) (auto elim!: dvdE)

lemma leap_arith:
  assumes "c \<longrightarrow> b" "b \<longrightarrow> a"
  shows "365 * y + (A + (if a then 1 else 0)) - (B + (if b then 1 else 0)) + (C + (if c then 1 else 0))
       = 365 * (y - 1) + A - B + C + (if a \<and> (\<not> b \<or> c) then 366 else (365::int))"
  using assms by (cases a; cases b; cases c) simp_all

lemma year_start_step: "year_start (y + 1) = year_start y + year_len y"
proof -
  have steps: "y div 4 = (y - 1) div 4 + (if y mod 4 = 0 then 1 else 0)"
    "y div 100 = (y - 1) div 100 + (if y mod 100 = 0 then 1 else 0)"
    "y div 400 = (y - 1) div 400 + (if y mod 400 = 0 then 1 else 0)"
    by (rule div_step, simp)+
  have "year_start (y + 1) = 365 * y + y div 4 - y div 100 + y div 400"
    by (simp add: year_start_def)
  also have "\<dots> = year_start y + year_len y"
    unfolding year_start_def year_len_def leap_def steps
    using mod_100_400 [of y] mod_4_100 [of y] by (intro leap_arith) blast+
  finally show ?thesis .
qed

lemma year_len_bounds: "365 \<le> year_len y" "year_len y \<le> 366"
  by (simp_all add: year_len_def)

lemma year_start_mono: "x \<le> y \<Longrightarrow> year_start x \<le> year_start y"
proof (induction y rule: int_ge_induct)
  case (step i)
  then show ?case using year_len_bounds(1) [of i] by (simp add: year_start_step)
qed simp

lemma year_start_next: "x < y \<Longrightarrow> year_start x + year_len x \<le> year_start y"
  using year_start_mono [of "x + 1" y] by (simp add: year_start_step)

lemma year_start_decomp:
  assumes "0 \<le> b" "b \<le> 3" "0 \<le> c" "c \<le> 24" "0 \<le> d" "d \<le> (3::int)"
  shows "year_start (400 * a + 100 * b + 4 * c + d + 1) = 146097 * a + 36524 * b + 1461 * c + 365 * d"
proof -
  let ?y = "400 * a + 100 * b + 4 * c + d"
  have "?y div 4 = 100 * a + 25 * b + c"
    using assms by (intro int_div_pos_eq [where r = d]) auto
  moreover have "?y div 100 = 4 * a + b"
    using assms by (intro int_div_pos_eq [where r = "4 * c + d"]) auto
  moreover have "?y div 400 = a"
    using assms by (intro int_div_pos_eq [where r = "100 * b + 4 * c + d"]) auto
  ultimately show ?thesis by (simp add: year_start_def)
qed

lemma min3_div:
  assumes "0 \<le> x" "0 < (k::int)" "b = min 3 (x div k)"
  shows "0 \<le> b" "b \<le> 3" "k * b \<le> x" "b < 3 \<Longrightarrow> x < k * b + k"
proof -
  have x: "x = k * (x div k) + x mod k" "0 \<le> x mod k" "x mod k < k" "0 \<le> x div k"
    using assms(1,2) by (simp_all add: pos_imp_zdiv_nonneg_iff)
  have "k * b \<le> k * (x div k)" using assms(2,3) by (intro mult_left_mono) auto
  with x show "k * b \<le> x" by linarith
  show "0 \<le> b" "b \<le> 3" using assms(3) x(4) by auto
  assume "b < 3"
  then have "b = x div k" using assms(3) by simp
  then show "x < k * b + k" using x by (simp only:)
qed

text \<open>The year of a day is the one year whose days include it.\<close>

lemma year_of_bounds: "year_start (year_of n) \<le> n \<and> n < year_start (year_of n) + year_len (year_of n)"
proof -
  define a where "a = n div 146097"
  define r where "r = n mod 146097"
  define b where "b = min 3 (r div 36524)"
  define s where "s = r - 36524 * b"
  define c where "c = s div 1461"
  define t where "t = s mod 1461"
  define d where "d = min 3 (t div 365)"
  define y where "y = 400 * a + 100 * b + 4 * c + d + 1"
  have y: "year_of n = y"
    unfolding year_of_def Let_def y_def d_def t_def c_def s_def b_def r_def a_def by (rule refl)
  have r: "0 \<le> r" "r < 146097" "n = 146097 * a + r" by (auto simp: a_def r_def)
  have b: "0 \<le> b" "b \<le> 3" "0 \<le> s" "b < 3 \<Longrightarrow> s < 36524"
    using r(1) min3_div [of r 36524 b, OF _ _ b_def] by (simp_all add: s_def)
  have "s \<le> 36524"
    using b(2,4) r(2) by (cases "b < 3") (simp_all add: s_def)
  note b = b(1-3) this b(4)
  have c: "0 \<le> c" "c \<le> 24" "0 \<le> t" "t \<le> 1460" "s = 1461 * c + t"
    using b(3,4) pos_mod_sign [of 1461 s] pos_mod_bound [of 1461 s] mult_div_mod_eq [of 1461 s]
    unfolding c_def t_def by linarith+
  have d: "0 \<le> d" "d \<le> 3" "365 * d \<le> t" "d < 3 \<Longrightarrow> t < 365 * d + 365"
    using c(3,4) min3_div [of t 365 d, OF _ _ d_def] by simp_all
  have "t \<le> 365 * d + 365" using d(2,4) c(4) by (cases "d < 3") simp_all
  note d = d(1-3) this d(4)
  have ys: "year_start y = 146097 * a + 36524 * b + 1461 * c + 365 * d"
    unfolding y_def using b(1,2) c(1,2) d(1,2) by (rule year_start_decomp)
  have n: "n = 146097 * a + 36524 * b + 1461 * c + t"
    using r(3) c(5) by (simp add: s_def)
  have "n < year_start y + year_len y"
  proof (cases "t = 365 * d + 365")
    case False
    then show ?thesis using ys n d(4) year_len_bounds(1) [of y] by linarith
  next
    case True
    with d(5) d(2) have d3: "d = 3" by linarith
    with True have t: "t = 1460" by simp
    have "leap y"
    proof (cases "c = 24")
      case True
      with t c(5) b(4) have "s = 36524" by simp
      with b(2,5) have "b = 3" by linarith
      with True d3 have "y = 400 * (a + 1)" by (simp add: y_def)
      then have "y mod 400 = 0" by (simp only: mod_mult_self1_is_0)
      then show ?thesis using mod_100_400 [of y] mod_4_100 [of y] unfolding leap_def by metis
    next
      case False
      have "y = 4 * (100 * a + 25 * b + c + 1)" unfolding y_def using d3 by simp
      then have four: "y mod 4 = 0" by (simp only: mod_mult_self1_is_0)
      have "y mod 100 = 4 * c + 4"
      proof -
        have "y = 100 * (4 * a + b) + (4 * c + 4)" unfolding y_def using d3 by simp
        then show ?thesis using False c(1,2) by (intro int_mod_pos_eq [where q = "4 * a + b"]) auto
      qed
      with c(1) have "y mod 100 \<noteq> 0" by linarith
      with four show ?thesis unfolding leap_def by blast
    qed
    then show ?thesis using ys n t d3 by (simp add: year_len_def)
  qed
  moreover have "year_start y \<le> n" using ys n d(3) by linarith
  ultimately show ?thesis by (simp add: y)
qed

lemma year_of_unique:
  assumes "year_start y \<le> n" "n < year_start y + year_len y"
  shows "year_of n = y"
proof (rule ccontr)
  assume "year_of n \<noteq> y"
  then consider "year_of n < y" | "y < year_of n" by linarith
  then show False
    using year_of_bounds [of n] assms year_start_next [of "year_of n" y]
      year_start_next [of y "year_of n"] by cases linarith+
qed

section \<open>Months and days\<close>

text \<open>Days before the first of a month, and the length of a month.\<close>

definition month_start :: "bool \<Rightarrow> int \<Rightarrow> int" where
  "month_start l m =
     [0, 31, 59, 90, 120, 151, 181, 212, 243, 273, 304, 334, 365] ! nat (m - 1)
     + (if l \<and> 2 < m then 1 else 0)"

definition month_len :: "bool \<Rightarrow> int \<Rightarrow> int" where
  "month_len l m = month_start l (m + 1) - month_start l m"

definition month_in :: "bool \<Rightarrow> int \<Rightarrow> int" where
  "month_in l k =
     (if k < month_start l 2 then 1 else if k < month_start l 3 then 2
      else if k < month_start l 4 then 3 else if k < month_start l 5 then 4
      else if k < month_start l 6 then 5 else if k < month_start l 7 then 6
      else if k < month_start l 8 then 7 else if k < month_start l 9 then 8
      else if k < month_start l 10 then 9 else if k < month_start l 11 then 10
      else if k < month_start l 12 then 11 else 12)"

lemma month_start_vals:
  "month_start False 1 = 0" "month_start True 1 = 0"
  "month_start False 2 = 31" "month_start True 2 = 31"
  "month_start False 3 = 59" "month_start True 3 = 60"
  "month_start False 4 = 90" "month_start True 4 = 91"
  "month_start False 5 = 120" "month_start True 5 = 121"
  "month_start False 6 = 151" "month_start True 6 = 152"
  "month_start False 7 = 181" "month_start True 7 = 182"
  "month_start False 8 = 212" "month_start True 8 = 213"
  "month_start False 9 = 243" "month_start True 9 = 244"
  "month_start False 10 = 273" "month_start True 10 = 274"
  "month_start False 11 = 304" "month_start True 11 = 305"
  "month_start False 12 = 334" "month_start True 12 = 335"
  "month_start False 13 = 365" "month_start True 13 = 366"
  by (simp_all add: month_start_def)

lemma months_cases:
  assumes "1 \<le> m" "m \<le> (12::int)"
  obtains "m = 1" | "m = 2" | "m = 3" | "m = 4" | "m = 5" | "m = 6" | "m = 7" | "m = 8"
    | "m = 9" | "m = 10" | "m = 11" | "m = 12"
proof -
  have "m = 1 \<or> m = 2 \<or> m = 3 \<or> m = 4 \<or> m = 5 \<or> m = 6 \<or> m = 7 \<or> m = 8 \<or> m = 9 \<or> m = 10
      \<or> m = 11 \<or> m = 12"
    using assms by presburger
  with that show thesis by blast
qed

lemma month_in_bounds: "1 \<le> month_in l k" "month_in l k \<le> 12"
  by (simp_all add: month_in_def)

lemma month_in_start:
  assumes "0 \<le> k" "k < (if l then 366 else 365)"
  shows "month_start l (month_in l k) \<le> k \<and> k < month_start l (month_in l k + 1)"
  using assms unfolding month_in_def by (cases l) (simp_all add: month_start_vals)

lemma month_in_unique:
  assumes "1 \<le> m" "m \<le> 12" "month_start l m \<le> k" "k < month_start l (m + 1)"
  shows "month_in l k = m"
  using assms(1,2)
  by (cases m rule: months_cases)
    (use assms(3,4) in \<open>cases l; simp add: month_in_def month_start_vals\<close>)+

lemma month_len_bounds: "1 \<le> m \<Longrightarrow> m \<le> 12 \<Longrightarrow> 28 \<le> month_len l m \<and> month_len l m \<le> 31"
  by (cases m rule: months_cases; cases l; simp add: month_len_def month_start_vals)

lemma month_start_mono: "x \<le> y \<Longrightarrow> 1 \<le> x \<Longrightarrow> y \<le> 13 \<Longrightarrow> month_start l x \<le> month_start l y"
proof (induction y rule: int_ge_induct)
  case (step i)
  then show ?case using month_len_bounds [of i l] by (simp add: month_len_def)
qed simp

lemma month_start_total: "month_start l 1 = 0" "month_start l 13 = (if l then 366 else 365)"
  by (cases l; simp add: month_start_vals)+

text \<open>Dates: \<open>Time.Date\<close>, and \<open>time.Date\<close> on a valid date.\<close>

definition yday :: "int \<Rightarrow> int" where
  "yday n = n - year_start (year_of n)"

definition month_of :: "int \<Rightarrow> int" where
  "month_of n = month_in (leap (year_of n)) (yday n)"

definition dom_of :: "int \<Rightarrow> int" where
  "dom_of n = yday n - month_start (leap (year_of n)) (month_of n) + 1"

definition day_of :: "int \<Rightarrow> int \<Rightarrow> int \<Rightarrow> int" where
  "day_of y m d = year_start y + month_start (leap y) m + (d - 1)"

definition valid_date :: "int \<Rightarrow> int \<Rightarrow> int \<Rightarrow> bool" where
  "valid_date y m d \<longleftrightarrow> 1 \<le> m \<and> m \<le> 12 \<and> 1 \<le> d \<and> d \<le> month_len (leap y) m"

lemma yday_bounds: "0 \<le> yday n" "yday n < year_len (year_of n)"
  using year_of_bounds [of n] by (simp_all add: yday_def)

lemma date_of_day:
  "valid_date (year_of n) (month_of n) (dom_of n) \<and> day_of (year_of n) (month_of n) (dom_of n) = n"
proof -
  have "month_start (leap (year_of n)) (month_of n) \<le> yday n \<and>
        yday n < month_start (leap (year_of n)) (month_of n + 1)"
    unfolding month_of_def using yday_bounds [of n]
    by (intro month_in_start) (auto simp: year_len_def split: if_splits)
  then show ?thesis
    using month_in_bounds [of "leap (year_of n)" "yday n", folded month_of_def]
    by (simp add: valid_date_def day_of_def dom_of_def month_len_def yday_def)
qed

lemma day_of_date:
  assumes "valid_date y m d"
  shows "year_of (day_of y m d) = y" "month_of (day_of y m d) = m" "dom_of (day_of y m d) = d"
proof -
  let ?l = "leap y"
  let ?k = "month_start ?l m + (d - 1)"
  have m: "1 \<le> m" "m \<le> 12" "1 \<le> d" "d \<le> month_len ?l m"
    using assms by (auto simp: valid_date_def)
  have k: "month_start ?l m \<le> ?k" "?k < month_start ?l (m + 1)"
    using m by (simp_all add: month_len_def)
  have "0 \<le> ?k" using k(1) month_start_mono [of 1 m ?l] m by (simp add: month_start_total)
  moreover have "?k < year_len y"
    using k(2) month_start_mono [of "m + 1" 13 ?l] m
    by (simp add: month_start_total year_len_def split: if_splits)
  ultimately show y: "year_of (day_of y m d) = y"
    by (intro year_of_unique) (simp_all add: day_of_def)
  then have yd: "yday (day_of y m d) = ?k" by (simp add: yday_def day_of_def)
  show mo: "month_of (day_of y m d) = m"
    unfolding month_of_def y yd using m(1,2) k by (rule month_in_unique)
  show "dom_of (day_of y m d) = d" unfolding dom_of_def mo y yd by simp
qed

lemma day_of_inject:
  "valid_date y m d \<Longrightarrow> valid_date y' m' d' \<Longrightarrow> day_of y m d = day_of y' m' d' \<longleftrightarrow>
   y = y' \<and> m = m' \<and> d = d'"
  by (metis day_of_date)

text \<open>Days are ordered as their dates are, lexicographically.\<close>

lemma day_of_less:
  assumes "valid_date y m d" "valid_date y' m' d'"
    "y < y' \<or> (y = y' \<and> (m < m' \<or> (m = m' \<and> d < d')))"
  shows "day_of y m d < day_of y' m' d'"
proof -
  have lo: "month_start (leap y) 1 \<le> month_start (leap y) m" for y
    using assms by (intro month_start_mono) (auto simp: valid_date_def)
  have in_year: "day_of y m d < year_start y + year_len y" "year_start y \<le> day_of y m d"
    if "valid_date y m d" for y m d
    using year_of_bounds [of "day_of y m d"] day_of_date [OF that] by simp_all
  consider "y < y'" | "y = y'" "m < m'" | "y = y'" "m = m'" "d < d'" using assms(3) by blast
  then show ?thesis
  proof cases
    case 1
    then show ?thesis
      using year_start_next [of y y'] in_year [OF assms(1)] in_year [OF assms(2)] by linarith
  next
    case 2
    then have "month_start (leap y) (m + 1) \<le> month_start (leap y) m'"
      using assms by (intro month_start_mono) (auto simp: valid_date_def)
    with 2 show ?thesis using assms(1,2) by (simp add: day_of_def valid_date_def month_len_def)
  next
    case 3
    then show ?thesis by (simp add: day_of_def)
  qed
qed

section \<open>Weekdays and weeks\<close>

text \<open>\<open>time.Weekday\<close> counts from Sunday; day \<open>0\<close> is a Monday.\<close>

definition weekday :: "int \<Rightarrow> int" where
  "weekday n = (n + 1) mod 7"

definition weekday_name :: "int \<Rightarrow> string" where
  "weekday_name w =
     [''Sunday'', ''Monday'', ''Tuesday'', ''Wednesday'', ''Thursday'', ''Friday'', ''Saturday''] ! nat w"

text \<open>\<open>Time.ISOWeek\<close>: the year and week of the Thursday of the day's calendar week.\<close>

definition iso_week :: "int \<Rightarrow> int \<times> int" where
  "iso_week n =
     (let d = 4 - weekday n; d = (if d = 4 then - 3 else d); th = n + d
      in (year_of th, yday th div 7 + 1))"

lemma weekday_bounds: "0 \<le> weekday n" "weekday n < 7"
  by (simp_all add: weekday_def)

lemma iso_thursday:
  "n + (let d = 4 - weekday n in if d = 4 then - 3 else d) = 7 * (n div 7) + 3"
proof -
  obtain q r where qr: "n div 7 = q" "n = 7 * q + r" "0 \<le> r" "r < 7"
    using mult_div_mod_eq [of 7 n] by (metis pos_mod_bound pos_mod_sign zero_less_numeral)
  have "weekday n = (if r = 6 then 0 else r + 1)"
  proof (cases "r = 6")
    case True
    then have "n + 1 = 7 * (q + 1)" using qr(2) by simp
    then show ?thesis using True by (simp add: weekday_def)
  next
    case False
    then have "(n + 1) mod 7 = r + 1"
      using qr by (intro int_mod_pos_eq [where q = q]) auto
    then show ?thesis using False by (simp add: weekday_def)
  qed
  then show ?thesis using qr by (auto simp: Let_def)
qed

lemma iso_week_alt:
  "iso_week n = (year_of (7 * (n div 7) + 3), yday (7 * (n div 7) + 3) div 7 + 1)"
  using iso_thursday [of n] by (simp add: iso_week_def Let_def)

lemma div_7_close: "(x::int) div 7 = y div 7 \<Longrightarrow> \<bar>x - y\<bar> < 7"
  by presburger

text \<open>Two days have the same ISO week exactly when they are in the same Monday-to-Sunday week.\<close>

lemma iso_week_eq_iff: "iso_week a = iso_week b \<longleftrightarrow> a div 7 = b div 7"
proof
  assume eq: "iso_week a = iso_week b"
  let ?s = "7 * (a div 7) + 3" and ?t = "7 * (b div 7) + 3"
  have "year_of ?s = year_of ?t" and "\<bar>yday ?s - yday ?t\<bar> < 7"
    using eq div_7_close by (simp_all add: iso_week_alt)
  moreover have "?s = year_start (year_of ?s) + yday ?s" "?t = year_start (year_of ?t) + yday ?t"
    by (simp_all add: yday_def)
  ultimately have "\<bar>?s - ?t\<bar> < 7" by (metis add_diff_cancel_left)
  then show "a div 7 = b div 7" by linarith
qed (simp add: iso_week_alt)

lemma weekday_eq_iff: "weekday a = weekday b \<longleftrightarrow> a mod 7 = b mod 7"
  by (simp add: weekday_def mod_eq_dvd_iff)

section \<open>Layouts\<close>

text \<open>
  \<open>Format("2006-01-02")\<close> on the years \<open>1\<close> to \<open>9999\<close>, and \<open>time.Parse\<close> with that layout:
  exactly ten bytes, every field at its full width, the day checked against the month.
\<close>

definition fmt_date :: "int \<Rightarrow> string" where
  "fmt_date n = pad 4 (nat (year_of n)) @ ''-'' @ pad 2 (nat (month_of n)) @ ''-'' @ pad 2 (nat (dom_of n))"

definition fmt_month :: "int \<Rightarrow> string" where
  "fmt_month n = pad 4 (nat (year_of n)) @ ''-'' @ pad 2 (nat (month_of n))"

definition parse_date :: "string \<Rightarrow> int option" where
  "parse_date s =
     (if length s = 10 \<and> list_all is_digit (take 4 s) \<and> s ! 4 = CHR ''-''
         \<and> list_all is_digit (take 2 (drop 5 s)) \<and> s ! 7 = CHR ''-'' \<and> list_all is_digit (drop 8 s)
      then (let y = int (undec (take 4 s)); m = int (undec (take 2 (drop 5 s)));
                d = int (undec (drop 8 s))
            in if valid_date y m d then Some (day_of y m d) else None)
      else None)"

text \<open>The days whose year has four digits.\<close>

definition fmt_ok :: "int \<Rightarrow> bool" where
  "fmt_ok n \<longleftrightarrow> 0 \<le> n \<and> n < 3652059"

lemma fmt_ok_year:
  assumes "fmt_ok n"
  shows "1 \<le> year_of n" "year_of n \<le> 9999"
proof -
  have ends: "year_start 1 = 0" "year_start 10000 = 3652059" by (simp_all add: year_start_def)
  show "1 \<le> year_of n"
    using assms year_of_bounds [of n] year_start_next [of "year_of n" 1] ends
    by (fastforce simp: fmt_ok_def)
  show "year_of n \<le> 9999"
    using assms year_of_bounds [of n] year_start_mono [of 10000 "year_of n"] ends
    by (fastforce simp: fmt_ok_def)
qed

lemma date_fields_bounds:
  "1 \<le> month_of n" "month_of n \<le> 12" "1 \<le> dom_of n" "dom_of n \<le> 31"
  using date_of_day [of n] month_len_bounds [of "month_of n" "leap (year_of n)"]
  by (auto simp: valid_date_def)

lemma length_fmt_parts:
  "fmt_ok n \<Longrightarrow> length (pad 4 (nat (year_of n))) = 4"
  "length (pad 2 (nat (month_of n))) = 2" "length (pad 2 (nat (dom_of n))) = 2"
  using fmt_ok_year [of n] date_fields_bounds [of n] by (simp_all add: length_pad)

lemma parse_fmt_date [simp]:
  assumes "fmt_ok n"
  shows "parse_date (fmt_date n) = Some n"
proof -
  let ?y = "pad 4 (nat (year_of n))" and ?m = "pad 2 (nat (month_of n))" and ?d = "pad 2 (nat (dom_of n))"
  note len = length_fmt_parts(1) [OF assms] length_fmt_parts(2,3) [of n]
  have parts: "take 4 (fmt_date n) = ?y" "take 2 (drop 5 (fmt_date n)) = ?m" "drop 8 (fmt_date n) = ?d"
    "fmt_date n ! 4 = CHR ''-''" "fmt_date n ! 7 = CHR ''-''" "length (fmt_date n) = 10"
    using len by (simp_all add: fmt_date_def nth_append)
  have dig: "list_all is_digit ?y" "list_all is_digit ?m" "list_all is_digit ?d"
    using pad_digits by (auto simp: list_all_iff)
  have vals: "int (undec ?y) = year_of n" "int (undec ?m) = month_of n" "int (undec ?d) = dom_of n"
    using fmt_ok_year [OF assms] date_fields_bounds [of n] by simp_all
  show ?thesis
    unfolding parse_date_def parts Let_def vals using dig date_of_day [of n] by simp
qed

lemma fmt_date_inject: "fmt_ok a \<Longrightarrow> fmt_ok b \<Longrightarrow> fmt_date a = fmt_date b \<longleftrightarrow> a = b"
  by (metis option.inject parse_fmt_date)

lemma length_fmt_date: "fmt_ok n \<Longrightarrow> length (fmt_date n) = 10"
  using length_fmt_parts [of n] by (simp add: fmt_date_def)

lemma date_cases:
  obtains "a = b"
    | "year_of a < year_of b \<or> (year_of a = year_of b \<and> (month_of a < month_of b
        \<or> (month_of a = month_of b \<and> dom_of a < dom_of b)))"
    | "year_of b < year_of a \<or> (year_of b = year_of a \<and> (month_of b < month_of a
        \<or> (month_of b = month_of a \<and> dom_of b < dom_of a)))"
  by (metis date_of_day linorder_neqE)

lemma day_less_iff:
  "a < b \<longleftrightarrow> year_of a < year_of b \<or> (year_of a = year_of b \<and> (month_of a < month_of b
     \<or> (month_of a = month_of b \<and> dom_of a < dom_of b)))"
  (is "_ \<longleftrightarrow> ?L a b")
proof -
  have less: "?L x y \<Longrightarrow> x < y" for x y
    using day_of_less [of "year_of x" "month_of x" "dom_of x" "year_of y" "month_of y" "dom_of y"]
      date_of_day [of x] date_of_day [of y] by simp
  show ?thesis
  proof
    assume "a < b"
    then show "?L a b"
      using less [of b a] by (cases a b rule: date_cases) auto
  qed (rule less)
qed

text \<open>Formatted dates compare as strings the way the days compare.\<close>

lemma fmt_date_less:
  assumes "fmt_ok a" "fmt_ok b"
  shows "fmt_date a < fmt_date b \<longleftrightarrow> a < b"
proof -
  note y = fmt_ok_year [OF assms(1)] fmt_ok_year [OF assms(2)]
  note f = date_fields_bounds [of a] date_fields_bounds [of b]
  have "pad 4 (nat (year_of a)) < pad 4 (nat (year_of b)) \<longleftrightarrow> year_of a < year_of b"
    "pad 2 (nat (month_of a)) < pad 2 (nat (month_of b)) \<longleftrightarrow> month_of a < month_of b"
    "pad 2 (nat (dom_of a)) < pad 2 (nat (dom_of b)) \<longleftrightarrow> dom_of a < dom_of b"
    using y f by (subst pad_less_iff; simp)+
  moreover have "pad 4 (nat (year_of a)) = pad 4 (nat (year_of b)) \<longleftrightarrow> year_of a = year_of b"
    "pad 2 (nat (month_of a)) = pad 2 (nat (month_of b)) \<longleftrightarrow> month_of a = month_of b"
    using y f by (auto simp: pad_inject)
  ultimately show ?thesis
    using length_fmt_parts(1) [OF assms(1)] length_fmt_parts(1) [OF assms(2)]
    by (auto simp: fmt_date_def append_less_iff length_fmt_parts day_less_iff [of a b])
qed

lemma fmt_date_le: "fmt_ok a \<Longrightarrow> fmt_ok b \<Longrightarrow> fmt_date a \<le> fmt_date b \<longleftrightarrow> a \<le> b"
  using fmt_date_less [of b a] by (simp add: not_less [symmetric])

lemma fmt_month_eq_iff:
  assumes "fmt_ok a" "fmt_ok b"
  shows "fmt_month a = fmt_month b \<longleftrightarrow> year_of a = year_of b \<and> month_of a = month_of b"
  using fmt_ok_year [OF assms(1)] fmt_ok_year [OF assms(2)] length_fmt_parts(1) [OF assms(1)]
    length_fmt_parts(1) [OF assms(2)] date_fields_bounds [of a] date_fields_bounds [of b]
  by (auto simp: fmt_month_def pad_inject)

text \<open>
  Times of day as minutes: the layout \<open>15:04\<close>. Its hour may be read from one digit, its minute
  takes two; both ranges are checked and nothing may follow.
\<close>

definition fmt_hm :: "int \<Rightarrow> string" where
  "fmt_hm k = pad 2 (nat (k div 60)) @ '':'' @ pad 2 (nat (k mod 60))"

definition parse_hm :: "string \<Rightarrow> int option" where
  "parse_hm s =
     (let h = (if length s = 5 then take 2 s else take 1 s); t = drop (length h) s in
      if (length s = 5 \<or> length s = 4) \<and> list_all is_digit h \<and> t ! 0 = CHR '':''
         \<and> list_all is_digit (drop 1 t) \<and> undec h < 24 \<and> undec (drop 1 t) < 60
      then Some (60 * int (undec h) + int (undec (drop 1 t))) else None)"

lemma pad2_less: "0 \<le> i \<Longrightarrow> i < 100 \<Longrightarrow> 0 \<le> j \<Longrightarrow> j < 100 \<Longrightarrow>
  pad 2 (nat i) < pad 2 (nat j) \<longleftrightarrow> i < j"
  by (subst pad_less_iff) (auto simp: nat_less_eq_zless)

lemma fmt_hm_less:
  assumes "0 \<le> a" "a < 1440" "0 \<le> b" "b < 1440"
  shows "fmt_hm a < fmt_hm b \<longleftrightarrow> a < b"
proof -
  have r: "0 \<le> a div 60" "a div 60 < 24" "0 \<le> a mod 60" "a mod 60 < 60"
    "0 \<le> b div 60" "b div 60 < 24" "0 \<le> b mod 60" "b mod 60 < 60"
    using assms by auto
  from r have l: "length (pad 2 (nat (a div 60))) = length (pad 2 (nat (b div 60)))"
    by (simp add: length_pad)
  have "pad 2 (nat (a div 60)) < pad 2 (nat (b div 60)) \<longleftrightarrow> a div 60 < b div 60"
    "pad 2 (nat (a mod 60)) < pad 2 (nat (b mod 60)) \<longleftrightarrow> a mod 60 < b mod 60"
    using r by (simp_all add: pad2_less)
  moreover have "pad 2 (nat (a div 60)) = pad 2 (nat (b div 60)) \<longleftrightarrow> a div 60 = b div 60"
    using r by (simp add: pad_inject eq_nat_nat_iff)
  ultimately have "fmt_hm a < fmt_hm b \<longleftrightarrow> a div 60 < b div 60 \<or> (a div 60 = b div 60 \<and> a mod 60 < b mod 60)"
    by (simp add: fmt_hm_def append_less_iff [OF l])
  moreover have "a = 60 * (a div 60) + a mod 60" "b = 60 * (b div 60) + b mod 60" by simp_all
  ultimately show ?thesis using r by linarith
qed

lemma fmt_hm_le:
  "0 \<le> a \<Longrightarrow> a < 1440 \<Longrightarrow> 0 \<le> b \<Longrightarrow> b < 1440 \<Longrightarrow> fmt_hm a \<le> fmt_hm b \<longleftrightarrow> a \<le> b"
  using fmt_hm_less [of b a] by (simp add: not_less [symmetric])

lemma parse_fmt_hm [simp]:
  assumes "0 \<le> k" "k < 1440"
  shows "parse_hm (fmt_hm k) = Some k"
proof -
  let ?h = "pad 2 (nat (k div 60))" and ?m = "pad 2 (nat (k mod 60))"
  have r: "0 \<le> k div 60" "k div 60 < 24" "0 \<le> k mod 60" "k mod 60 < 60" using assms by auto
  then have len: "length ?h = 2" "length ?m = 2" by (simp_all add: length_pad)
  have parts: "length (fmt_hm k) = 5" "take 2 (fmt_hm k) = ?h" "drop (length ?h) (fmt_hm k) = '':'' @ ?m"
    using len by (simp_all add: fmt_hm_def)
  have dig: "list_all is_digit ?h" "list_all is_digit ?m"
    using pad_digits by (auto simp: list_all_iff)
  have vals: "int (undec ?h) = k div 60" "int (undec ?m) = k mod 60" using r by simp_all
  have lt: "undec ?h < 24" "undec ?m < 60" using vals r by linarith+
  have k: "60 * int (undec ?h) + int (undec ?m) = k" unfolding vals by simp
  show ?thesis unfolding parse_hm_def parts if_P [OF refl] Let_def
    using dig lt k by (simp del: undec_pad)
qed

section \<open>Civil seconds\<close>

definition day_part :: "int \<Rightarrow> int" where
  "day_part t = t div 86400"

definition minute_part :: "int \<Rightarrow> int" where
  "minute_part t = t mod 86400 div 60"

lemma minute_part_bounds: "0 \<le> minute_part t" "minute_part t < 1440"
  by (auto simp: minute_part_def)

lemma day_part_mono: "s \<le> t \<Longrightarrow> day_part s \<le> day_part t"
  by (simp add: day_part_def zdiv_mono1)

end
