(* ===== verification/Scheduling.thy ===== *)
theory Scheduling
  imports Calendar
begin

text \<open>
  The schedule engine, \<open>internal/scheduling/engine.go\<close> and \<open>conflicts.go\<close>, and the search for the
  schedule a check-in belongs to (\<open>findCurrentSchedule\<close> in \<open>internal/handlers/api.go\<close>).

  A \<open>time.Time\<close> of this component is its civil second in the server's zone; the zone is a
  fixed offset \<open>z\<close>, in seconds east of UTC. \<open>time.Parse\<close> reads a date as midnight in UTC, so
  \<open>Before\<close> and \<open>After\<close> against a parsed date compare the instant \<open>t - z\<close>. The iteration
  order of a Go map and the algorithm of \<open>sort.Slice\<close> (which is not stable) are parameters.
\<close>

section \<open>Data\<close>

record schedule =
  sch_ID :: string
  sch_DayOfWeek :: string
  sch_StartTime :: string
  sch_EndTime :: string
  sch_TeacherID :: string
  sch_RoomID :: string
  sch_Subject :: string
  sch_StudentIDs :: "string list"
  sch_EffectiveFrom :: string
  sch_EffectiveUntil :: string
  sch_Type :: string
  sch_Deleted :: bool
  sch_DeletedAt :: string
  sch_DeletedBy :: string

record class_session =
  se_ScheduleID :: string
  se_Date :: int
  se_DateStr :: string
  se_DayOfWeek :: string
  se_StartTime :: string
  se_EndTime :: string
  se_TeacherID :: string
  se_RoomID :: string
  se_Subject :: string
  se_StudentIDs :: "string list"
  se_Type :: string

datatype conflict_type = RoomConflict | TeacherConflict | StudentConflict

record conflict =
  cf_Type :: conflict_type
  cf_Session1 :: class_session
  cf_Session2 :: class_session
  cf_Detail :: string

section \<open>Materialising sessions\<close>

definition day_name :: "int \<Rightarrow> string" where
  "day_name t = weekday_name (weekday (day_part t))"

text \<open>The two effective-date tests: a date that does not parse is ignored.\<close>

definition before_from :: "int \<Rightarrow> schedule \<Rightarrow> int \<Rightarrow> bool" where
  "before_from z sched t \<longleftrightarrow> sch_EffectiveFrom sched \<noteq> [] \<and>
     (case parse_date (sch_EffectiveFrom sched) of None \<Rightarrow> False | Some ef \<Rightarrow> t - z < 86400 * ef)"

definition after_until :: "int \<Rightarrow> schedule \<Rightarrow> int \<Rightarrow> bool" where
  "after_until z sched t \<longleftrightarrow> sch_EffectiveUntil sched \<noteq> [] \<and>
     (case parse_date (sch_EffectiveUntil sched) of None \<Rightarrow> False | Some eu \<Rightarrow> 86400 * eu < t - z)"

definition sched_matches :: "int \<Rightarrow> int \<Rightarrow> schedule \<Rightarrow> bool" where
  "sched_matches z t sched \<longleftrightarrow> equal_fold (sch_DayOfWeek sched) (day_name t)
     \<and> \<not> before_from z sched t \<and> \<not> after_until z sched t"

definition session_of :: "int \<Rightarrow> schedule \<Rightarrow> class_session" where
  "session_of t sched = \<lparr>se_ScheduleID = sch_ID sched, se_Date = t, se_DateStr = fmt_date (day_part t),
     se_DayOfWeek = day_name t, se_StartTime = sch_StartTime sched, se_EndTime = sch_EndTime sched,
     se_TeacherID = sch_TeacherID sched, se_RoomID = sch_RoomID sched, se_Subject = sch_Subject sched,
     se_StudentIDs = sch_StudentIDs sched, se_Type = sch_Type sched\<rparr>"

function MaterializeSessions :: "int \<Rightarrow> schedule list \<Rightarrow> int \<Rightarrow> int \<Rightarrow> class_session list" where
  "MaterializeSessions z schedules d to =
     (if to < d then []
      else map (session_of d) (filter (sched_matches z d) schedules)
           @ MaterializeSessions z schedules (d + 86400) to)"
  by pat_completeness auto
termination
  by (relation "measure (\<lambda>(z, schedules, d, to). nat (to + 1 - d))") auto

declare MaterializeSessions.simps [simp del]

definition midnight :: "int \<Rightarrow> int" where
  "midnight t = 86400 * day_part t"

definition TodaySessions :: "int \<Rightarrow> schedule list \<Rightarrow> int \<Rightarrow> class_session list" where
  "TodaySessions z schedules now = MaterializeSessions z schedules (midnight now) (midnight now)"

definition WeekSessions :: "int \<Rightarrow> schedule list \<Rightarrow> int \<Rightarrow> class_session list" where
  "WeekSessions z schedules now =
     (let w = weekday (day_part now); w = (if w = 0 then 7 else w);
          monday = midnight (now - 86400 * (w - 1)); sunday = monday + 86400 * 6
      in MaterializeSessions z schedules monday sunday)"

section \<open>Conflicts\<close>

definition timesOverlap :: "string \<Rightarrow> string \<Rightarrow> string \<Rightarrow> string \<Rightarrow> bool" where
  "timesOverlap start1 end1 start2 end2 \<longleftrightarrow> start1 < end2 \<and> start2 < end1"

definition detail :: "string \<Rightarrow> string \<Rightarrow> class_session \<Rightarrow> class_session \<Rightarrow> string" where
  "detail what who s1 s2 = what @ '' '' @ who @ '' double-booked on '' @ se_DateStr s1 @ '': ''
     @ se_StartTime s1 @ ''-'' @ se_EndTime s1 @ '' ('' @ se_Subject s1 @ '') vs ''
     @ se_StartTime s2 @ ''-'' @ se_EndTime s2 @ '' ('' @ se_Subject s2 @ '')''"

definition mk_conflict :: "conflict_type \<Rightarrow> string \<Rightarrow> string \<Rightarrow> class_session \<Rightarrow> class_session \<Rightarrow> conflict" where
  "mk_conflict ty what who s1 s2 =
     \<lparr>cf_Type = ty, cf_Session1 = s1, cf_Session2 = s2, cf_Detail = detail what who s1 s2\<rparr>"

text \<open>The body of the pairwise loop.\<close>

definition pair_conflicts :: "class_session \<Rightarrow> class_session \<Rightarrow> conflict list" where
  "pair_conflicts s1 s2 =
     (if \<not> timesOverlap (se_StartTime s1) (se_EndTime s1) (se_StartTime s2) (se_EndTime s2) then []
      else (if se_RoomID s1 \<noteq> [] \<and> se_RoomID s1 = se_RoomID s2
            then [mk_conflict RoomConflict ''Room'' (se_RoomID s1) s1 s2] else [])
         @ (if se_TeacherID s1 \<noteq> [] \<and> se_TeacherID s1 = se_TeacherID s2 \<and> se_Type s1 = se_Type s2
            then [mk_conflict TeacherConflict ''Teacher'' (se_TeacherID s1) s1 s2] else [])
         @ concat (map (\<lambda>sid1. concat (map (\<lambda>sid2.
             if sid1 = sid2 then [mk_conflict StudentConflict ''Student'' sid1 s1 s2] else [])
             (se_StudentIDs s2))) (se_StudentIDs s1)))"

text \<open>The loops \<open>i := 0 ..\<close> and \<open>j := i + 1 ..\<close> over one day's sorted sessions.\<close>

fun day_conflicts :: "class_session list \<Rightarrow> conflict list" where
  "day_conflicts [] = []"
| "day_conflicts (s1 # rest) = concat (map (pair_conflicts s1) rest) @ day_conflicts rest"

definition DetectConflicts ::
  "string list \<Rightarrow> (class_session list \<Rightarrow> class_session list) \<Rightarrow> class_session list \<Rightarrow> conflict list" where
  "DetectConflicts dates sort_slice sessions =
     concat (map (\<lambda>k. day_conflicts (sort_slice (filter (\<lambda>s. se_DateStr s = k) sessions))) dates)"

section \<open>The schedule of a check-in\<close>

definition subtractMinutes :: "string \<Rightarrow> int \<Rightarrow> string" where
  "subtractMinutes timeStr minutes =
     (case parse_hm timeStr of None \<Rightarrow> timeStr | Some t \<Rightarrow> fmt_hm ((t - minutes) mod 1440))"

definition in_window :: "string \<Rightarrow> string \<Rightarrow> class_session \<Rightarrow> bool" where
  "in_window currentTime studentID s \<longleftrightarrow> studentID \<in> set (se_StudentIDs s)
     \<and> subtractMinutes (se_StartTime s) 30 \<le> currentTime \<and> currentTime \<le> se_EndTime s"

definition findCurrentSchedule :: "int \<Rightarrow> schedule list \<Rightarrow> int \<Rightarrow> string \<Rightarrow> string" where
  "findCurrentSchedule z schedules now studentID =
     (let sessions = MaterializeSessions z schedules (midnight now) (midnight now);
          currentTime = fmt_hm (minute_part now)
      in case List.find (in_window currentTime studentID) sessions of
           Some s \<Rightarrow> se_ScheduleID s | None \<Rightarrow> [])"

section \<open>What the engine guarantees\<close>

lemma MaterializeSessions_set:
  "s \<in> set (MaterializeSessions z schedules d to) \<longleftrightarrow>
     (\<exists>k. d + 86400 * int k \<le> to \<and>
        s \<in> session_of (d + 86400 * int k) ` {sched \<in> set schedules. sched_matches z (d + 86400 * int k) sched})"
proof (induction z schedules d to rule: MaterializeSessions.induct)
  case (1 z schedules d to)
  define P where "P = (\<lambda>t. t \<le> to \<and> s \<in> session_of t ` {sched \<in> set schedules. sched_matches z t sched})"
  show ?case
  proof (cases "to < d")
    case True
    then have "\<not> d + 86400 * int k \<le> to" for k by simp
    with True show ?thesis by (simp add: MaterializeSessions.simps [of z schedules d to])
  next
    case False
    have "(\<exists>k. P (d + 86400 * int k)) \<longleftrightarrow> P d \<or> (\<exists>k. P (d + 86400 + 86400 * int k))"
      by (subst ex_nat_split) (simp add: algebra_simps)
    moreover have "(\<exists>k. P (d + 86400 + 86400 * int k)) \<longleftrightarrow>
        s \<in> set (MaterializeSessions z schedules (d + 86400) to)"
      using "1.IH" [OF False] by (simp add: P_def)
    moreover have "P d \<longleftrightarrow> s \<in> set (map (session_of d) (filter (sched_matches z d) schedules))"
      using False by (simp add: P_def)
    ultimately have "(\<exists>k. P (d + 86400 * int k)) \<longleftrightarrow> s \<in> set (MaterializeSessions z schedules d to)"
      using False by (simp add: MaterializeSessions.simps [of z schedules d to])
    then show ?thesis by (simp add: P_def)
  qed
qed

lemma midnight_alt [simp]: "day_part (86400 * d) = d" "midnight (86400 * d) = 86400 * d"
  by (simp_all add: day_part_def midnight_def)

text \<open>
  The week view is exact: it holds a session for a schedule and a day precisely when the day
  lies in the Monday-to-Sunday ISO week of \<open>now\<close> and the schedule applies to that day.
\<close>

theorem week_sessions_exact:
  "s \<in> set (WeekSessions z schedules now) \<longleftrightarrow>
     (\<exists>d sched. iso_week d = iso_week (day_part now) \<and> sched \<in> set schedules
        \<and> sched_matches z (86400 * d) sched \<and> s = session_of (86400 * d) sched)"
proof -
  let ?n = "day_part now"
  let ?m = "7 * (?n div 7)"
  let ?w = "if weekday ?n = 0 then 7 else weekday ?n"
  have w: "?n - (?w - 1) = ?m"
    using iso_thursday [of ?n] weekday_bounds [of ?n] by (simp add: Let_def split: if_splits)
  have "midnight (now - 86400 * k) = 86400 * (?n - k)" for k
  proof -
    have "(now - 86400 * k) div 86400 = now div 86400 - k"
      using div_mult_self1 [of 86400 now "- k"] by (simp add: algebra_simps)
    then show ?thesis by (simp add: midnight_def day_part_def)
  qed
  from this [of "?w - 1"] have "midnight (now - 86400 * (?w - 1)) = 86400 * ?m" unfolding w .
  then have week: "WeekSessions z schedules now =
      MaterializeSessions z schedules (86400 * ?m) (86400 * (?m + 6))"
    unfolding WeekSessions_def Let_def by (simp only: distrib_left)
  have days: "iso_week d = iso_week ?n \<longleftrightarrow> (\<exists>k. d = ?m + int k \<and> int k \<le> 6)" for d
  proof
    assume "iso_week d = iso_week ?n"
    then have "d div 7 = ?n div 7" by (simp add: iso_week_eq_iff)
    then have "d = ?m + int (nat (d mod 7)) \<and> int (nat (d mod 7)) \<le> 6"
      using mult_div_mod_eq [of 7 d] pos_mod_bound [of 7 d] pos_mod_sign [of 7 d] by auto
    then show "\<exists>k. d = ?m + int k \<and> int k \<le> 6" ..
  next
    assume "\<exists>k. d = ?m + int k \<and> int k \<le> 6"
    then obtain k where "d = 7 * (?n div 7) + int k" "int k \<le> 6" by blast
    then have "d div 7 = ?n div 7" by (intro int_div_pos_eq) auto
    then show "iso_week d = iso_week ?n" by (simp add: iso_week_eq_iff)
  qed
  have bound: "86400 * (?m + int k) \<le> 86400 * (?m + 6) \<longleftrightarrow> int k \<le> 6" for k by simp
  show ?thesis
    unfolding week MaterializeSessions_set days distrib_left [symmetric] bound by blast
qed

text \<open>
  When both effective dates parse, a schedule of the right weekday has a session on day \<open>d\<close>
  exactly when \<open>d\<close> is between them, but the comparison of a local midnight with a UTC midnight
  loses a day: east of UTC the first effective day has no session, west of UTC the last has none.
\<close>

theorem effective_dates_in_zone:
  assumes "- 86400 < z" "z < 86400"
    and "parse_date (sch_EffectiveFrom sched) = Some ef"
    and "parse_date (sch_EffectiveUntil sched) = Some eu"
  shows "TodaySessions z [sched] (86400 * d) \<noteq> [] \<longleftrightarrow>
     equal_fold (sch_DayOfWeek sched) (weekday_name (weekday d))
       \<and> (if 0 < z then ef < d else ef \<le> d) \<and> (if z < 0 then d < eu else d \<le> eu)"
proof -
  have ne: "sch_EffectiveFrom sched \<noteq> []" "sch_EffectiveUntil sched \<noteq> []"
    using assms(3,4) by (auto simp: parse_date_def)
  have "TodaySessions z [sched] (86400 * d) \<noteq> [] \<longleftrightarrow> sched_matches z (86400 * d) sched"
    by (simp add: TodaySessions_def MaterializeSessions.simps [of z _ "86400 * d"]
        MaterializeSessions.simps [of z _ "86400 * d + 86400"])
  also have "\<dots> \<longleftrightarrow> equal_fold (sch_DayOfWeek sched) (weekday_name (weekday d))
      \<and> \<not> 86400 * d - z < 86400 * ef \<and> \<not> 86400 * eu < 86400 * d - z"
    using ne assms(3,4) by (simp add: sched_matches_def before_from_def after_until_def day_name_def)
  also have "\<not> 86400 * d - z < 86400 * ef \<longleftrightarrow> (if 0 < z then ef < d else ef \<le> d)"
    using assms(1,2) by auto
  also have "\<not> 86400 * eu < 86400 * d - z \<longleftrightarrow> (if z < 0 then d < eu else d \<le> eu)"
    using assms(1,2) by auto
  finally show ?thesis .
qed

subsection \<open>Conflicts against their specification\<close>

text \<open>
  The specification: two sessions overlap, and they share a room, a teacher within one schedule
  type, or a student. \<open>reports\<close> reads a list of conflicts as a relation on unordered pairs.
\<close>

definition overlapping :: "class_session \<Rightarrow> class_session \<Rightarrow> bool" where
  "overlapping a b \<longleftrightarrow> timesOverlap (se_StartTime a) (se_EndTime a) (se_StartTime b) (se_EndTime b)"

fun shares :: "conflict_type \<Rightarrow> class_session \<Rightarrow> class_session \<Rightarrow> bool" where
  "shares RoomConflict a b \<longleftrightarrow> se_RoomID a \<noteq> [] \<and> se_RoomID a = se_RoomID b"
| "shares TeacherConflict a b \<longleftrightarrow> se_TeacherID a \<noteq> [] \<and> se_TeacherID a = se_TeacherID b \<and> se_Type a = se_Type b"
| "shares StudentConflict a b \<longleftrightarrow> set (se_StudentIDs a) \<inter> set (se_StudentIDs b) \<noteq> {}"

definition reports :: "conflict list \<Rightarrow> conflict_type \<Rightarrow> class_session \<Rightarrow> class_session \<Rightarrow> bool" where
  "reports cs ty a b \<longleftrightarrow> (\<exists>c \<in> set cs. cf_Type c = ty \<and> {#cf_Session1 c, cf_Session2 c#} = {#a, b#})"

lemma reports_append [simp]: "reports (xs @ ys) ty a b \<longleftrightarrow> reports xs ty a b \<or> reports ys ty a b"
  and reports_concat [simp]: "reports (concat css) ty a b \<longleftrightarrow> (\<exists>cs \<in> set css. reports cs ty a b)"
  and reports_Nil [simp]: "\<not> reports [] ty a b"
  by (auto simp: reports_def)

lemma pair_conflicts_sessions:
  "c \<in> set (pair_conflicts x y) \<Longrightarrow> cf_Session1 c = x \<and> cf_Session2 c = y"
  by (auto simp: pair_conflicts_def mk_conflict_def split: if_splits)

lemma pair_conflicts_types:
  "ty \<in> cf_Type ` set (pair_conflicts x y) \<longleftrightarrow> overlapping x y \<and> shares ty x y"
  by (cases ty) (auto simp: pair_conflicts_def overlapping_def mk_conflict_def image_Un image_UN)

lemma reports_pair:
  "reports (pair_conflicts x y) ty a b \<longleftrightarrow> overlapping x y \<and> shares ty x y \<and> {#x, y#} = {#a, b#}"
  using pair_conflicts_types [of ty x y] pair_conflicts_sessions [of _ x y]
  unfolding reports_def by (metis (no_types, lifting) imageE imageI)

lemma overlapping_sym: "overlapping a b \<longleftrightarrow> overlapping b a"
  by (auto simp: overlapping_def timesOverlap_def)

lemma shares_sym: "shares ty a b \<longleftrightarrow> shares ty b a"
  by (cases ty) auto

lemma reports_day:
  "reports (day_conflicts l) ty a b \<longleftrightarrow> {#a, b#} \<subseteq># mset l \<and> overlapping a b \<and> shares ty a b"
proof (induction l)
  case (Cons x l)
  have hit: "{#x, y#} = {#a, b#} \<Longrightarrow> overlapping x y \<and> shares ty x y \<longleftrightarrow> overlapping a b \<and> shares ty a b" for y
    using overlapping_sym [of a b] shares_sym [of ty a b] by (auto simp: pair_mset_eq)
  have "reports (day_conflicts (x # l)) ty a b \<longleftrightarrow>
      (\<exists>y \<in> set l. overlapping x y \<and> shares ty x y \<and> {#x, y#} = {#a, b#})
      \<or> ({#a, b#} \<subseteq># mset l \<and> overlapping a b \<and> shares ty a b)"
    by (simp add: reports_pair Cons.IH)
  also have "\<dots> \<longleftrightarrow> ((\<exists>y \<in># mset l. {#x, y#} = {#a, b#}) \<or> {#a, b#} \<subseteq># mset l)
      \<and> overlapping a b \<and> shares ty a b"
    using hit by (metis set_mset_mset)
  finally show ?case unfolding mset.simps pair_subset_Cons by blast
qed simp

text \<open>
  C10. Whatever the iteration order of the date map and the algorithm of the sort, the conflicts
  reported are exactly those of the specification: for every unordered pair of positions of the
  input with one date, overlapping times and a shared resource, and for no other pair.
\<close>

theorem detect_conflicts_exact:
  assumes "\<And>xs. mset (sort_slice xs) = mset xs"
    and "set dates = se_DateStr ` set sessions"
  shows "(\<exists>c \<in> set (DetectConflicts dates sort_slice sessions).
            cf_Type c = ty \<and> {#cf_Session1 c, cf_Session2 c#} = {#a, b#})
     \<longleftrightarrow> {#a, b#} \<subseteq># mset sessions \<and> se_DateStr a = se_DateStr b
         \<and> overlapping a b \<and> shares ty a b"
proof -
  have "reports (DetectConflicts dates sort_slice sessions) ty a b \<longleftrightarrow>
      (\<exists>k \<in> set dates. {#a, b#} \<subseteq># filter_mset (\<lambda>s. se_DateStr s = k) (mset sessions)
         \<and> overlapping a b \<and> shares ty a b)"
    by (simp add: DetectConflicts_def reports_day assms(1))
  then show ?thesis
    unfolding reports_def pair_subset_filter using assms(2) by (auto dest: mset_subset_eqD)
qed

text \<open>
  A check-in is linked to the first schedule of the day that lists the student and whose window
  contains the minute of the check-in. The window opens half an hour before the start; for a
  start in the first half hour of the day the subtraction wraps to the evening before, and the
  window is empty unless the schedule ends that late.
\<close>

theorem current_schedule_window:
  assumes "\<And>s. s \<in> set schedules \<Longrightarrow> sch_StartTime s = fmt_hm (st s) \<and> 0 \<le> st s \<and> st s < 1440"
    and "\<And>s. s \<in> set schedules \<Longrightarrow> sch_EndTime s = fmt_hm (en s) \<and> 0 \<le> en s \<and> en s < 1440"
  shows "findCurrentSchedule z schedules now studentID =
    (case List.find (\<lambda>s. sched_matches z (midnight now) s \<and> studentID \<in> set (sch_StudentIDs s)
         \<and> (if 30 \<le> st s then st s - 30 else st s + 1410) \<le> minute_part now
         \<and> minute_part now \<le> en s) schedules of
       Some s \<Rightarrow> sch_ID s | None \<Rightarrow> [])"
proof -
  let ?m = "minute_part now"
  have window: "in_window (fmt_hm ?m) studentID (session_of (midnight now) s) \<longleftrightarrow>
      studentID \<in> set (sch_StudentIDs s)
      \<and> (if 30 \<le> st s then st s - 30 else st s + 1410) \<le> ?m \<and> ?m \<le> en s"
    if "s \<in> set schedules" for s
  proof -
    have st: "sch_StartTime s = fmt_hm (st s)" "0 \<le> st s" "st s < 1440"
      and en: "sch_EndTime s = fmt_hm (en s)" "0 \<le> en s" "en s < 1440"
      using assms(1) [OF that] assms(2) [OF that] by auto
    have "(st s - 30) mod 1440 = (if 30 \<le> st s then st s - 30 else st s + 1410)"
      using st(2,3) by (cases "30 \<le> st s") (auto intro: int_mod_pos_eq [where q = "- 1"])
    then show ?thesis
      using st en minute_part_bounds [of now]
      by (auto simp: in_window_def session_of_def subtractMinutes_def fmt_hm_le)
  qed
  have "MaterializeSessions z schedules (midnight now) (midnight now) =
      map (session_of (midnight now)) (filter (sched_matches z (midnight now)) schedules)"
    by (simp add: MaterializeSessions.simps [of z schedules "midnight now"]
        MaterializeSessions.simps [of z schedules "midnight now + 86400"])
  then have "findCurrentSchedule z schedules now studentID =
      (case List.find (\<lambda>s. sched_matches z (midnight now) s
          \<and> in_window (fmt_hm ?m) studentID (session_of (midnight now) s)) schedules of
         Some s \<Rightarrow> sch_ID s | None \<Rightarrow> [])"
    by (simp add: findCurrentSchedule_def find_map_filter session_of_def split: option.split)
  then show ?thesis by (simp add: window cong: find_cong_on)
qed

section \<open>Examples\<close>

text \<open>A Monday class in a room that a second class takes over half an hour early.\<close>

definition math_class :: schedule where
  "math_class = \<lparr>sch_ID = ''SCH001'', sch_DayOfWeek = ''Monday'', sch_StartTime = ''15:00'',
     sch_EndTime = ''16:30'', sch_TeacherID = ''T01'', sch_RoomID = ''R01'', sch_Subject = ''math'',
     sch_StudentIDs = [''S001'', ''S002''], sch_EffectiveFrom = ''2026-01-12'',
     sch_EffectiveUntil = ''2026-01-12'', sch_Type = ''class'', sch_Deleted = False,
     sch_DeletedAt = [], sch_DeletedBy = []\<rparr>"

definition english_class :: schedule where
  "english_class = math_class\<lparr>sch_ID := ''SCH002'', sch_StartTime := ''16:00'', sch_EndTime := ''17:30'',
     sch_TeacherID := ''T02'', sch_Subject := ''english''\<rparr>"

text \<open>12 January 2026, a Monday.\<close>

definition jan12 :: int where "jan12 = 739627"

lemma jan12_date: "fmt_date jan12 = ''2026-01-12''" "weekday jan12 = 1" "parse_date ''2026-01-12'' = Some jan12"
  by code_simp+

theorem effective_dates_in_zone_witness:
  "TodaySessions (- 18000) [math_class] (86400 * jan12) = []
   \<and> TodaySessions 0 [math_class] (86400 * jan12) \<noteq> []"
  using effective_dates_in_zone [of "- 18000" math_class jan12 jan12 jan12]
    effective_dates_in_zone [of 0 math_class jan12 jan12 jan12]
  by (simp add: math_class_def jan12_date weekday_name_def)

theorem detect_conflicts_exact_witness:
  "\<exists>c \<in> set (DetectConflicts [''2026-01-12''] (sort_key se_StartTime)
       [session_of (86400 * jan12) english_class, session_of (86400 * jan12) math_class]).
     cf_Type c = RoomConflict \<and> {#cf_Session1 c, cf_Session2 c#} =
       {#session_of (86400 * jan12) math_class, session_of (86400 * jan12) english_class#}"
  by (subst detect_conflicts_exact)
    (simp_all add: session_of_def jan12_date overlapping_def timesOverlap_def math_class_def
      english_class_def add_mset_commute)

theorem current_schedule_window_witness:
  "findCurrentSchedule 0 [math_class] (86400 * jan12 + 52200) ''S002'' = ''SCH001''"
proof -
  have t: "fmt_hm 900 = ''15:00''" "fmt_hm 990 = ''16:30''" by code_simp+
  have m: "midnight (86400 * jan12 + 52200) = 86400 * jan12" "minute_part (86400 * jan12 + 52200) = 870"
    by (simp_all add: midnight_def day_part_def minute_part_def jan12_def)
  have s: "sched_matches 0 (86400 * jan12) math_class"
    by (simp add: sched_matches_def before_from_def after_until_def day_name_def math_class_def
        jan12_date weekday_name_def)
  have c: "sch_StartTime math_class = ''15:00''" "sch_EndTime math_class = ''16:30''"
    "''S002'' \<in> set (sch_StudentIDs math_class)" "sch_ID math_class = ''SCH001''"
    by (simp_all add: math_class_def)
  show ?thesis
    by (subst current_schedule_window [where st = "\<lambda>_. 900" and en = "\<lambda>_. 990"])
      (simp_all add: m s t c)
qed

end
