(* ===== verification/App.thy ===== *)
theory App
  imports Tables Http Sessions RateLimiter Scheduling
begin

text \<open>
  The state of the server (\<open>App\<close> in \<open>internal/handlers/app.go\<close>), the environment a request runs
  in, the lookups of people by identifier and name, and the daily PINs.

  One request reads the clock once: \<open>ev_now\<close> is the civil second in the server's zone and
  \<open>ev_nanos\<close> the same instant in nanoseconds. A failed lookup query is its no-row outcome, which
  is all the code distinguishes; the statements whose errors it does report carry a fault.
\<close>

section \<open>State and environment\<close>

record administrator =
  adm_Username :: string
  adm_Role :: string

record memos_user =
  mu_Username :: string
  mu_Nickname :: string
  mu_Email :: string
  mu_PasswordHash :: string

record progress_stats =
  ps_StudentID :: string
  ps_StudentName :: string
  ps_TotalItems :: int
  ps_DoneCount :: int
  ps_NotDone :: int

record app =
  ap_DB :: classdb
  ap_PinMode :: string
  ap_dailyPIN :: string
  ap_pinDate :: string
  ap_requirePIN :: bool
  ap_CloudSyncEnabled :: bool
  ap_savedPinMode :: "string option"
  ap_Sessions :: sessions
  ap_RateLimiter :: "limiter option"
  ap_Administrators :: "administrator list"
  ap_ProcessUser :: string
  ap_Users :: "memos_user list"
  ap_progressCache :: "(string \<rightharpoonup> progress_stats) option"
  ap_progressStart :: string
  ap_progressEnd :: string

text \<open>The decoded criteria of a center item; \<open>None\<close> is an absent field or a text that does not decode.\<close>

record criteria =
  cr_GradeMin :: "int option"
  cr_GradeMax :: "int option"
  cr_Birthplace :: "string list"
  cr_FirstLanguage :: "string list"
  cr_School :: "string list"

record env =
  ev_now :: int
  ev_nanos :: int
  ev_zone :: int
  ev_faults :: faults
  ev_rand :: nat
  ev_token :: string
  ev_authenticate :: "string \<Rightarrow> string \<Rightarrow> bool"
  ev_bcrypt :: "string \<Rightarrow> string option"
  ev_bcrypt_ok :: "string \<Rightarrow> string \<Rightarrow> bool"
  ev_unmarshal :: "string \<Rightarrow> criteria option"

definition today :: "env \<Rightarrow> string" where
  "today e = fmt_date (day_part (ev_now e))"

definition fmt_ts :: "int \<Rightarrow> string" where
  "fmt_ts t = fmt_date (day_part t) @ '' '' @ fmt_hm (minute_part t) @ '':'' @ pad 2 (nat (t mod 60))"

definition map_db :: "(classdb \<Rightarrow> classdb) \<Rightarrow> app \<Rightarrow> app" where
  "map_db f a = a\<lparr>ap_DB := f (ap_DB a)\<rparr>"

lemma map_db_simps [simp]:
  "ap_DB (map_db f a) = f (ap_DB a)" "ap_PinMode (map_db f a) = ap_PinMode a"
  "ap_dailyPIN (map_db f a) = ap_dailyPIN a" "ap_pinDate (map_db f a) = ap_pinDate a"
  "ap_Sessions (map_db f a) = ap_Sessions a" "ap_RateLimiter (map_db f a) = ap_RateLimiter a"
  "ap_progressCache (map_db f a) = ap_progressCache a" "ap_Users (map_db f a) = ap_Users a"
  "ap_Administrators (map_db f a) = ap_Administrators a" "ap_ProcessUser (map_db f a) = ap_ProcessUser a"
  by (simp_all add: map_db_def)

section \<open>People\<close>

definition student_by_id :: "classdb \<Rightarrow> string \<Rightarrow> student_row option" where
  "student_by_id db sid = List.find (\<lambda>s. st_id s = sid) (db_students db)"

definition full_name :: "string \<Rightarrow> string \<Rightarrow> string" where
  "full_name firstName lastName = firstName @ '' '' @ lastName"

definition lookupEntity :: "classdb \<Rightarrow> string \<Rightarrow> string \<times> string" where
  "lookupEntity db entityID =
     (case student_by_id db entityID of
        Some s \<Rightarrow> (full_name (st_first_name s) (st_last_name s), coalesce (st_email s))
      | None \<Rightarrow>
         (case List.find (\<lambda>p. pa_id p = entityID) (db_parents db) of
            Some p \<Rightarrow> (full_name (pa_first_name p) (pa_last_name p), coalesce (pa_email p))
          | None \<Rightarrow>
             (case List.find (\<lambda>t. te_id t = entityID) (db_teachers db) of
                Some t \<Rightarrow> (full_name (te_first_name t) (te_last_name t), coalesce (te_email t))
              | None \<Rightarrow> ([], []))))"

definition detectUserType :: "classdb \<Rightarrow> string \<Rightarrow> string" where
  "detectUserType db entityID =
     (if student_by_id db entityID \<noteq> None then ''student''
      else if \<exists>p \<in> set (db_parents db). pa_id p = entityID then ''parent''
      else if \<exists>t \<in> set (db_teachers db). te_id t = entityID then ''teacher''
      else [])"

definition same_name :: "string \<Rightarrow> string \<Rightarrow> string \<Rightarrow> string \<Rightarrow> bool" where
  "same_name f l f' l' \<longleftrightarrow> to_lower f = to_lower f' \<and> to_lower l = to_lower l'"

definition findEntityByName :: "classdb \<Rightarrow> string \<Rightarrow> string \<Rightarrow> string" where
  "findEntityByName db firstName lastName =
     (case List.find (\<lambda>s. same_name (st_first_name s) (st_last_name s) firstName lastName \<and> st_deleted s = 0) (db_students db) of
        Some s \<Rightarrow> st_id s
      | None \<Rightarrow>
         (case List.find (\<lambda>p. same_name (pa_first_name p) (pa_last_name p) firstName lastName \<and> pa_deleted p = 0) (db_parents db) of
            Some p \<Rightarrow> pa_id p
          | None \<Rightarrow>
             (case List.find (\<lambda>t. same_name (te_first_name t) (te_last_name t) firstName lastName \<and> te_deleted t = 0) (db_teachers db) of
                Some t \<Rightarrow> te_id t
              | None \<Rightarrow> [])))"

definition lookupStudentName :: "classdb \<Rightarrow> string \<Rightarrow> string" where
  "lookupStudentName db studentID =
     (case List.find (\<lambda>s. st_id s = studentID \<and> st_active s = 1) (db_students db) of
        Some s \<Rightarrow> full_name (st_first_name s) (st_last_name s)
      | None \<Rightarrow> [])"

definition findStudentID :: "classdb \<Rightarrow> string \<Rightarrow> string" where
  "findStudentID db name =
     (let nameLower = to_lower (trim_space name) in
      case List.find (\<lambda>s. to_lower (full_name (st_first_name s) (st_last_name s)) = nameLower \<and> st_active s = 1) (db_students db) of
        Some s \<Rightarrow> st_id s
      | None \<Rightarrow>
         (case List.find (\<lambda>s. to_lower (st_first_name s) = nameLower \<and> st_active s = 1) (db_students db) of
            Some s \<Rightarrow> st_id s
          | None \<Rightarrow> []))"

section \<open>Student identifiers\<close>

text \<open>
  SQLite's \<open>CAST(.. AS INTEGER)\<close> and the \<open>%d\<close> of \<open>fmt.Sscanf\<close>: a signed run of digits after
  blanks; the first is 0 and the second fails when there is no digit. Numbers are unbounded here;
  the code's are below \<open>2 ^ 63\<close>.
\<close>

definition scan_int :: "string \<Rightarrow> int option" where
  "scan_int s =
     (let s = dropWhile is_space s;
          (neg, s) = (case s of [] \<Rightarrow> (False, s)
             | c # r \<Rightarrow> if c = CHR ''-'' then (True, r) else if c = CHR ''+'' then (False, r) else (False, s));
          ds = takeWhile is_digit s
      in if ds = [] then None else Some (if neg then - int (undec ds) else int (undec ds)))"

definition cast_int :: "string \<Rightarrow> int" where
  "cast_int s = (case scan_int s of None \<Rightarrow> 0 | Some n \<Rightarrow> n)"

definition fmt_03d :: "int \<Rightarrow> string" where
  "fmt_03d n = (if n < 0 then CHR ''-'' # pad 2 (nat (- n)) else pad 3 (nat n))"

definition s_like :: "string \<Rightarrow> bool" where
  "s_like i \<longleftrightarrow> (case i of [] \<Rightarrow> False | c # _ \<Rightarrow> lower_char c = CHR ''s'')"

text \<open>The query orders by the number alone; \<open>pick\<close> is the row it returns among the greatest.\<close>

definition max_student_id :: "(student_row list \<Rightarrow> student_row) \<Rightarrow> classdb \<Rightarrow> string" where
  "max_student_id pick db =
     (case greatest_by (\<lambda>s. cast_int (tl (st_id s))) (filter (\<lambda>s. s_like (st_id s)) (db_students db)) of
        [] \<Rightarrow> []
      | rows \<Rightarrow> st_id (pick rows))"

definition next_student_id :: "(student_row list \<Rightarrow> student_row) \<Rightarrow> classdb \<Rightarrow> string" where
  "next_student_id pick db =
     (let maxID = max_student_id pick db;
          nextNum = (if maxID = [] then 1
                     else (case scan_int (tl maxID) of None \<Rightarrow> 1 | Some n \<Rightarrow> n) + 1)
      in CHR ''S'' # fmt_03d nextNum)"

definition new_student :: "string \<Rightarrow> string \<Rightarrow> string \<Rightarrow> student_row" where
  "new_student sid firstName lastName =
     \<lparr>st_id = sid, st_first_name = firstName, st_last_name = lastName, st_grade = None, st_school = None,
      st_parent_id = None, st_email = None, st_phone = None, st_address = None, st_notes = None,
      st_dob = None, st_birthplace = None, st_years_in_us = None, st_first_language = None,
      st_previous_schools = None, st_courses_outside = None, st_english_name = None, st_package = None,
      st_major = None, st_enroll_term = None, st_graduation = None, st_profile_status = [],
      st_active = 1, st_deleted = 0, st_deleted_at = None, st_deleted_by = None, st_row_hash = None,
      st_pin_hash = None, st_require_pin = 0, st_personal_pin = None, st_pin_generated_date = None\<rparr>"

text \<open>The insert fails on a primary key that is taken, and on a fault.\<close>

definition createStudent ::
  "(student_row list \<Rightarrow> student_row) \<Rightarrow> env \<Rightarrow> string \<Rightarrow> string \<Rightarrow> classdb \<Rightarrow> string \<times> classdb" where
  "createStudent pick e firstName lastName db =
     (let newID = next_student_id pick db in
      if ev_faults e I_student \<or> (\<exists>s \<in> set (db_students db). st_id s = newID) then ([], db)
      else (newID, db\<lparr>db_students := db_students db @ [new_student newID firstName lastName]\<rparr>))"

lemma scan_int_pad: "scan_int (pad w n) = Some (int n)"
  and scan_int_minus_pad: "scan_int (CHR ''-'' # pad w n) = Some (- int n)"
proof -
  have d: "\<forall>c \<in> set (pad w n). is_digit c" by (rule pad_digits)
  have ne: "pad w n \<noteq> []" by (simp add: pad_def)
  have tw: "takeWhile is_digit (pad w n) = pad w n"
    using d by (simp add: takeWhile_eq_all_conv)
  obtain c r where p: "pad w n = c # r" using ne by (cases "pad w n") auto
  have c: "is_digit c" using d p by simp
  then have "\<not> is_space c" "c \<noteq> CHR ''-''" "c \<noteq> CHR ''+''"
    by (auto simp: is_digit_def is_space_def)
  then have "dropWhile is_space (pad w n) = pad w n"
    "(case pad w n of [] \<Rightarrow> (False, pad w n)
      | c # r \<Rightarrow> if c = CHR ''-'' then (True, r) else if c = CHR ''+'' then (False, r) else (False, pad w n)) = (False, pad w n)"
    using p by simp_all
  then show "scan_int (pad w n) = Some (int n)"
    by (simp add: scan_int_def Let_def tw ne)
  show "scan_int (CHR ''-'' # pad w n) = Some (- int n)"
    by (simp add: scan_int_def is_space_def tw ne)
qed

lemma scan_fmt_03d: "scan_int (fmt_03d n) = Some n"
  by (simp add: fmt_03d_def scan_int_pad scan_int_minus_pad)

text \<open>
  Numbered identifiers: the number after the greatest one in use is not in use. The prefix has \<open>k\<close>
  characters, and the identifiers of that kind are those the pattern \<open>like\<close> matches.
\<close>

lemma next_number_fresh:
  assumes pick: "\<And>rs. rs \<noteq> [] \<Longrightarrow> pick rs \<in> set rs" and s: "s \<in> set rows"
    and like: "\<And>x. like (pre @ x)" "\<not> like []" "length pre = k"
    and maxID: "maxID = (case greatest_by (\<lambda>r. cast_int (drop k (idf r))) (filter (\<lambda>r. like (idf r)) rows) of
        [] \<Rightarrow> [] | rs \<Rightarrow> idf (pick rs))"
    and n: "n = (if maxID = [] then 1 else (case scan_int (drop k maxID) of None \<Rightarrow> 1 | Some n \<Rightarrow> n) + 1)"
  shows "idf s \<noteq> pre @ fmt_03d n"
proof
  let ?key = "\<lambda>r. cast_int (drop k (idf r))"
  let ?rows = "filter (\<lambda>r. like (idf r)) rows"
  assume id: "idf s = pre @ fmt_03d n"
  then have mem: "s \<in> set ?rows" using s like(1) by simp
  have key: "?key s = n" using id like(3) by (simp add: cast_int_def scan_fmt_03d)
  have ne: "greatest_by ?key ?rows \<noteq> []"
    using greatest_by_nonempty mem by (metis in_set_conv_nth length_0_conv less_nat_zero_code)
  define m where "m = pick (greatest_by ?key ?rows)"
  have m: "m \<in> set (greatest_by ?key ?rows)" using pick ne by (simp add: m_def)
  have max: "maxID = idf m" using ne by (simp add: maxID m_def split: list.split)
  have "?key s \<le> ?key m" "like (idf m)" using m mem by (auto simp: greatest_by_def)
  then have "n \<le> cast_int (drop k (idf m))" "idf m \<noteq> []" using key like(2) by auto
  then show False using n max by (auto simp: cast_int_def split: option.splits)
qed

lemma next_student_id_fresh:
  assumes "\<And>rows. rows \<noteq> [] \<Longrightarrow> pick rows \<in> set rows"
    and "s \<in> set (db_students db)"
  shows "st_id s \<noteq> next_student_id pick db"
proof -
  have tl: "tl = drop 1" by (simp add: fun_eq_iff drop_Suc)
  have like: "s_like (''S'' @ x)" "\<not> s_like []" for x
  proof -
    have "lower_char (CHR ''S'') = CHR ''s''" by code_simp
    then show "s_like (''S'' @ x)" "\<not> s_like []" by (simp_all add: s_like_def)
  qed
  from next_number_fresh [OF assms(1,2) like _ _ refl, of 1 "max_student_id pick db" st_id]
  show ?thesis unfolding next_student_id_def max_student_id_def tl Let_def by simp
qed

section \<open>The center's PIN\<close>

definition EnsureDailyPIN :: "env \<Rightarrow> app \<Rightarrow> string \<times> app" where
  "EnsureDailyPIN e a =
     (if ap_pinDate a \<noteq> today e
      then let p = pad 4 (ev_rand e) in (p, a\<lparr>ap_pinDate := today e, ap_dailyPIN := p\<rparr>)
      else (ap_dailyPIN a, a))"

definition SetPIN :: "env \<Rightarrow> string \<Rightarrow> app \<Rightarrow> app" where
  "SetPIN e pin a = a\<lparr>ap_dailyPIN := pin, ap_pinDate := today e\<rparr>"

definition RequirePIN :: "app \<Rightarrow> bool" where
  "RequirePIN a = ap_requirePIN a"

definition SetRequirePIN :: "bool \<Rightarrow> app \<Rightarrow> app" where
  "SetRequirePIN v a = a\<lparr>ap_requirePIN := v\<rparr>"

text \<open>Only the PIN mode of the saved configuration is kept.\<close>

definition saveConfig :: "app \<Rightarrow> app" where
  "saveConfig a = a\<lparr>ap_savedPinMode := Some (ap_PinMode a)\<rparr>"

definition pin_mode :: "app \<Rightarrow> string" where
  "pin_mode a = (if ap_PinMode a = [] then ''off'' else ap_PinMode a)"

section \<open>The students' own PINs\<close>

definition update_student :: "string \<Rightarrow> (student_row \<Rightarrow> student_row) \<Rightarrow> classdb \<Rightarrow> classdb" where
  "update_student sid f db = db\<lparr>db_students := update_where (\<lambda>s. st_id s = sid) f (db_students db)\<rparr>"

definition StudentRequiresPIN :: "classdb \<Rightarrow> string \<Rightarrow> bool" where
  "StudentRequiresPIN db studentID =
     (case student_by_id db studentID of None \<Rightarrow> False | Some s \<Rightarrow> st_require_pin s = 1)"

definition SetStudentRequirePIN :: "env \<Rightarrow> string \<Rightarrow> bool \<Rightarrow> classdb \<Rightarrow> classdb option" where
  "SetStudentRequirePIN e studentID require db =
     (if ev_faults e U_student_pin then None
      else Some (update_student studentID (\<lambda>s. s\<lparr>st_require_pin := if require then 1 else 0\<rparr>) db))"

definition GenerateStudentPin :: "env \<Rightarrow> string \<Rightarrow> classdb \<Rightarrow> (string \<times> classdb) option" where
  "GenerateStudentPin e studentID db =
     (if ev_faults e U_student_pin then None
      else let pin = pad 4 (ev_rand e) in
           Some (pin, update_student studentID
                   (\<lambda>s. s\<lparr>st_personal_pin := Some pin, st_pin_generated_date := Some (today e)\<rparr>) db))"

definition EnsureDailyStudentPin :: "env \<Rightarrow> string \<Rightarrow> classdb \<Rightarrow> (string \<times> classdb) option" where
  "EnsureDailyStudentPin e studentID db =
     (case student_by_id db studentID of
        None \<Rightarrow> None
      | Some s \<Rightarrow>
          if coalesce (st_personal_pin s) = [] \<or> coalesce (st_pin_generated_date s) \<noteq> today e
          then GenerateStudentPin e studentID db
          else Some (coalesce (st_personal_pin s), db))"

definition GetStudentPin :: "string \<Rightarrow> classdb \<Rightarrow> (string \<times> string) option" where
  "GetStudentPin studentID db =
     map_option (\<lambda>s. (coalesce (st_personal_pin s), coalesce (st_pin_generated_date s))) (student_by_id db studentID)"

section \<open>Validating a PIN\<close>

definition pin_verdict :: "string \<Rightarrow> string \<Rightarrow> string" where
  "pin_verdict pin expected =
     (if pin = [] then ''PIN is required'' else if pin \<noteq> expected then ''Invalid PIN'' else [])"

text \<open>
  The error text, empty when the PIN is accepted; the first component of the Go result is always
  false. In center mode an empty PIN is refused before the daily PIN is looked at.
\<close>

definition ValidatePIN :: "env \<Rightarrow> string \<Rightarrow> string \<Rightarrow> app \<Rightarrow> string \<times> app" where
  "ValidatePIN e studentID pin a =
     (if studentID \<noteq> [] \<and> StudentRequiresPIN (ap_DB a) studentID then
        (case EnsureDailyStudentPin e studentID (ap_DB a) of
           None \<Rightarrow> (''PIN system error'', a)
         | Some (expected, db) \<Rightarrow>
             let a = a\<lparr>ap_DB := db\<rparr> in
             if expected = [] then (''PIN system error'', a) else (pin_verdict pin expected, a))
      else if pin_mode a = ''center'' then
        if pin = [] then (''PIN is required'', a)
        else let (expected, a) = EnsureDailyPIN e a in (pin_verdict pin expected, a)
      else ([], a))"

text \<open>The PIN a request of a student is compared with today, \<open>None\<close> when none is asked for.\<close>

definition pin_in_force :: "env \<Rightarrow> app \<Rightarrow> string \<Rightarrow> string option" where
  "pin_in_force e a studentID =
     (if studentID \<noteq> [] \<and> StudentRequiresPIN (ap_DB a) studentID
      then map_option fst (EnsureDailyStudentPin e studentID (ap_DB a))
      else if pin_mode a = ''center'' then Some (fst (EnsureDailyPIN e a)) else None)"

lemma student_by_id_update:
  assumes "\<And>s. st_id (f s) = st_id s"
  shows "student_by_id (update_student sid f db) i =
    map_option (\<lambda>s. if st_id s = sid then f s else s) (student_by_id db i)"
  unfolding student_by_id_def update_student_def by (simp add: find_update_where assms)

lemma student_by_id_Some: "student_by_id db i = Some s \<Longrightarrow> st_id s = i"
  by (auto simp: student_by_id_def dest: find_Some_iff_mem)

section \<open>Example states\<close>

text \<open>A server on 12 January 2026 with no data, and an environment with no faults.\<close>

definition demo_env :: "int \<Rightarrow> env" where
  "demo_env now = \<lparr>ev_now = now, ev_nanos = now * 1000000000, ev_zone = 0, ev_faults = no_faults, ev_rand = 42,
     ev_token = ''token'', ev_authenticate = (\<lambda>u p. u = ''root'' \<and> p = ''secret''),
     ev_bcrypt = (\<lambda>p. Some (''hash of '' @ p)), ev_bcrypt_ok = (\<lambda>h p. h = ''hash of '' @ p),
     ev_unmarshal = (\<lambda>_. None)\<rparr>"

definition demo_app :: app where
  "demo_app = \<lparr>ap_DB = empty_db, ap_PinMode = ''center'', ap_dailyPIN = ''0042'', ap_pinDate = ''2026-01-12'',
     ap_requirePIN = True, ap_CloudSyncEnabled = False, ap_savedPinMode = None, ap_Sessions = Map.empty,
     ap_RateLimiter = None, ap_Administrators = [], ap_ProcessUser = ''root'', ap_Users = [],
     ap_progressCache = None, ap_progressStart = [], ap_progressEnd = []\<rparr>"

definition post_request :: request where
  "post_request = \<lparr>rq_Method = ''POST'', rq_Path = ''/'', rq_Header = (\<lambda>_. []), rq_RemoteAddr = ''10.0.0.5:4711'',
     rq_Cookie = None, rq_Query = (\<lambda>_. [])\<rparr>"

definition noon :: int where "noon = 86400 * jan12 + 43200"

lemma day_part_noon: "day_part noon = jan12"
  by (simp add: noon_def day_part_def)

lemma demo_today: "today (demo_env noon) = ''2026-01-12''"
  by (simp add: today_def demo_env_def day_part_noon jan12_date)

end
