(* ===== verification/Tasks.thy ===== *)
theory Tasks
  imports App "HOL-Library.Option_ord"
begin

text \<open>
  The task items of \<open>internal/database/tracker.go\<close>: which items are due for a student on a day, how
  they are saved, completed and answered, and how they are assigned. A transaction that does not
  reach its commit leaves the database as it was.
\<close>

section \<open>Items\<close>

definition ScopeCenter :: int where "ScopeCenter = 1"
definition ScopeClass :: int where "ScopeClass = 2"
definition ScopePersonal :: int where "ScopePersonal = 3"

record task_item =
  tk_ID :: int
  tk_Scope :: int
  tk_ScheduleID :: string
  tk_StudentID :: string
  tk_Type :: string
  tk_Name :: string
  tk_Notes :: string
  tk_StartDate :: string
  tk_EndDate :: string
  tk_Priority :: string
  tk_Recurrence :: string
  tk_Category :: string
  tk_Criteria :: string
  tk_GroupID :: string
  tk_GroupOrder :: int
  tk_CreatedBy :: string
  tk_OwnerType :: string
  tk_Completed :: bool
  tk_CompletedAt :: string
  tk_CompletedBy :: string
  tk_Active :: bool
  tk_Deleted :: bool
  tk_DeletedAt :: string
  tk_DeletedBy :: string
  tk_CreatedAt :: string
  tk_UpdatedAt :: string

record due_item =
  di_Scope :: int
  di_ItemType :: string
  di_ItemID :: int
  di_Type :: string
  di_Name :: string
  di_Priority :: string
  di_Category :: string
  di_EndDate :: string
  di_Recurrence :: string
  di_RequiresSignoff :: bool
  di_GroupID :: string
  di_GroupOrder :: int

record tracker_response =
  rp_ItemType :: string
  rp_ItemID :: int
  rp_ItemName :: string
  rp_Status :: string
  rp_Notes :: string

definition opt_ts :: "int option \<Rightarrow> string" where
  "opt_ts t = (case t of None \<Rightarrow> [] | Some t \<Rightarrow> fmt_ts t)"

definition scanTaskItem :: "task_row \<Rightarrow> task_item" where
  "scanTaskItem r = \<lparr>tk_ID = ti_id r, tk_Scope = ti_scope r, tk_ScheduleID = coalesce (ti_schedule_id r),
     tk_StudentID = coalesce (ti_student_id r), tk_Type = ti_type r, tk_Name = ti_name r, tk_Notes = coalesce (ti_notes r),
     tk_StartDate = coalesce (ti_start_date r), tk_EndDate = coalesce (ti_end_date r), tk_Priority = ti_priority r,
     tk_Recurrence = ti_recurrence r, tk_Category = coalesce (ti_category r), tk_Criteria = coalesce (ti_criteria r),
     tk_GroupID = coalesce (ti_group_id r), tk_GroupOrder = (case ti_group_order r of None \<Rightarrow> 0 | Some n \<Rightarrow> n),
     tk_CreatedBy = ti_created_by r, tk_OwnerType = ti_owner_type r, tk_Completed = (ti_completed r \<noteq> 0),
     tk_CompletedAt = opt_ts (ti_completed_at r), tk_CompletedBy = coalesce (ti_completed_by r),
     tk_Active = (ti_active r \<noteq> 0), tk_Deleted = (ti_deleted r \<noteq> 0), tk_DeletedAt = opt_ts (ti_deleted_at r),
     tk_DeletedBy = coalesce (ti_deleted_by r), tk_CreatedAt = fmt_ts (ti_created_at r), tk_UpdatedAt = fmt_ts (ti_updated_at r)\<rparr>"

definition scopeToItemType :: "int \<Rightarrow> string" where
  "scopeToItemType scope =
     (if scope = ScopeCenter then ''global'' else if scope = ScopeClass then ''class'' else ''personal'')"

definition itemTypeToScope :: "string \<Rightarrow> int" where
  "itemTypeToScope itemType =
     (if itemType = ''global'' then ScopeCenter else if itemType = ''class'' then ScopeClass else ScopePersonal)"

definition task_by_id :: "classdb \<Rightarrow> int \<Rightarrow> task_row option" where
  "task_by_id db i = List.find (\<lambda>r. ti_id r = i) (tb_rows (db_tasks db))"

definition on_tasks :: "(task_row tab \<Rightarrow> task_row tab) \<Rightarrow> classdb \<Rightarrow> classdb" where
  "on_tasks f db = db\<lparr>db_tasks := f (db_tasks db)\<rparr>"

section \<open>Lists\<close>

definition priority_rank :: "string \<Rightarrow> nat" where
  "priority_rank p = (if p = ''high'' then 0 else if p = ''medium'' then 1 else 2)"

definition ListTaskItems :: "int \<Rightarrow> bool \<Rightarrow> classdb \<Rightarrow> task_item list" where
  "ListTaskItems scope includeDeleted db =
     map scanTaskItem (sort_key (\<lambda>r. priority_rank (ti_priority r))
       (filter (\<lambda>r. ti_scope r = scope \<and> (includeDeleted \<or> ti_deleted r = 0)) (tb_rows (db_tasks db))))"

definition ListTrackerItems :: "bool \<Rightarrow> classdb \<Rightarrow> task_item list" where
  "ListTrackerItems includeDeleted db = ListTaskItems ScopeCenter includeDeleted db"

definition ListStudentTrackerItems :: "string \<Rightarrow> classdb \<Rightarrow> task_item list" where
  "ListStudentTrackerItems studentID db =
     map scanTaskItem (sort_key (\<lambda>r. if ti_priority r = ''high'' then 0 else 1 :: nat) (sort_key ti_end_date
       (filter (\<lambda>r. ti_scope r = ScopePersonal \<and> ti_student_id r = Some studentID \<and> ti_deleted r = 0)
         (tb_rows (db_tasks db)))))"

definition ListStudentTrackerItemsByCreator :: "string \<Rightarrow> string \<Rightarrow> classdb \<Rightarrow> task_item list" where
  "ListStudentTrackerItemsByCreator createdBy ownerType db =
     map scanTaskItem (sort_key ti_student_id (sort_key ti_end_date
       (filter (\<lambda>r. ti_created_by r = createdBy \<and> ti_owner_type r = ownerType \<and> ti_deleted r = 0)
         (tb_rows (db_tasks db)))))"

definition GetCenterTaskItems :: "classdb \<Rightarrow> task_item list" where
  "GetCenterTaskItems db = map scanTaskItem
     (filter (\<lambda>r. ti_scope r = 1 \<and> ti_active r = 1 \<and> ti_deleted r = 0) (tb_rows (db_tasks db)))"

section \<open>Saving and deleting\<close>

definition b2i :: "bool \<Rightarrow> int" where "b2i b = (if b then 1 else 0)"

definition task_row_of :: "env \<Rightarrow> task_item \<Rightarrow> task_row" where
  "task_row_of e it = \<lparr>ti_id = 0, ti_scope = tk_Scope it, ti_schedule_id = nullStr (tk_ScheduleID it),
     ti_student_id = nullStr (tk_StudentID it), ti_type = tk_Type it, ti_name = tk_Name it, ti_notes = Some (tk_Notes it),
     ti_start_date = nullStr (tk_StartDate it), ti_end_date = nullStr (tk_EndDate it), ti_priority = tk_Priority it,
     ti_recurrence = tk_Recurrence it, ti_category = nullStr (tk_Category it), ti_criteria = nullStr (tk_Criteria it),
     ti_group_id = nullStr (tk_GroupID it), ti_group_order = nullInt (tk_GroupOrder it), ti_created_by = tk_CreatedBy it,
     ti_owner_type = tk_OwnerType it, ti_completed = 0, ti_completed_at = None, ti_completed_by = None,
     ti_active = b2i (tk_Active it), ti_deleted = 0, ti_deleted_at = None, ti_deleted_by = None,
     ti_created_at = ev_now e, ti_updated_at = ev_now e\<rparr>"

text \<open>The table refuses a scope other than 1, 2 and 3.\<close>

definition SaveTaskItem :: "env \<Rightarrow> task_item \<Rightarrow> classdb \<Rightarrow> (int \<times> classdb) option" where
  "SaveTaskItem e item db =
     (let item = (if tk_Type item = [] then item\<lparr>tk_Type := ''task''\<rparr> else item) in
      if 0 < tk_ID item then
        if ev_faults e U_task then None
        else Some (tk_ID item, on_tasks (update_tab (\<lambda>r. ti_id r = tk_ID item) (\<lambda>r. r\<lparr>ti_type := tk_Type item,
               ti_name := tk_Name item, ti_notes := Some (tk_Notes item), ti_start_date := nullStr (tk_StartDate item),
               ti_end_date := nullStr (tk_EndDate item), ti_priority := tk_Priority item,
               ti_recurrence := tk_Recurrence item, ti_category := nullStr (tk_Category item),
               ti_criteria := nullStr (tk_Criteria item), ti_group_id := nullStr (tk_GroupID item),
               ti_group_order := nullInt (tk_GroupOrder item), ti_active := b2i (tk_Active item),
               ti_updated_at := ev_now e\<rparr>)) db)
      else if ev_faults e I_task \<or> tk_Scope item \<notin> {1, 2, 3} then None
      else Some (tb_seq (db_tasks db) + 1, on_tasks (insert_row (mk_task (task_row_of e item))) db))"

definition SaveTrackerItem :: "env \<Rightarrow> task_item \<Rightarrow> classdb \<Rightarrow> (int \<times> classdb) option" where
  "SaveTrackerItem e item db = SaveTaskItem e (item\<lparr>tk_Scope := ScopeCenter\<rparr>) db"

definition SaveStudentTrackerItem :: "env \<Rightarrow> task_item \<Rightarrow> classdb \<Rightarrow> (int \<times> classdb) option" where
  "SaveStudentTrackerItem e item db = SaveTaskItem e (item\<lparr>tk_Scope := ScopePersonal\<rparr>) db"

definition DeleteTaskItem :: "env \<Rightarrow> int \<Rightarrow> string \<Rightarrow> classdb \<Rightarrow> classdb option" where
  "DeleteTaskItem e i deletedBy db =
     (if ev_faults e U_task then None
      else Some (on_tasks (update_tab (\<lambda>r. ti_id r = i)
             (\<lambda>r. r\<lparr>ti_deleted := 1, ti_deleted_at := Some (ev_now e), ti_deleted_by := Some deletedBy\<rparr>)) db))"

definition BulkCreateTaskItems :: "env \<Rightarrow> string list \<Rightarrow> task_item \<Rightarrow> classdb \<Rightarrow> classdb option" where
  "BulkCreateTaskItems e studentIDs item db =
     (if ev_faults e Begin_tx \<or> ev_faults e Prepare_stmt \<or> (studentIDs \<noteq> [] \<and> ev_faults e I_task) \<or> ev_faults e Commit_tx
      then None
      else let itemType = (if tk_Type item = [] then ''task'' else tk_Type item);
               row = (\<lambda>sid. (task_row_of e (item\<lparr>tk_Type := itemType, tk_Scope := ScopePersonal\<rparr>))
                        \<lparr>ti_student_id := Some sid, ti_schedule_id := None, ti_criteria := None,
                         ti_group_id := None, ti_group_order := None\<rparr>)
           in Some (on_tasks (\<lambda>t. fold (\<lambda>sid. insert_row (mk_task (row sid))) studentIDs t) db))"

section \<open>Responses\<close>

text \<open>The \<open>CHECK\<close> constraints of \<open>tracker_responses\<close> in a database the server created.\<close>

definition response_allowed :: "string \<Rightarrow> string \<Rightarrow> bool" where
  "response_allowed itemType status \<longleftrightarrow> itemType \<in> {''global'', ''personal''} \<and> status \<in> {''done'', ''not_done''}"

definition insert_response :: "env \<Rightarrow> response_row \<Rightarrow> classdb \<Rightarrow> classdb option" where
  "insert_response e r db =
     (if ev_faults e I_response \<or> \<not> response_allowed (tr_item_type r) (tr_status r) then None
      else Some (db\<lparr>db_responses := insert_row (mk_response r) (db_responses db)\<rparr>))"

definition student_full_name :: "classdb \<Rightarrow> string \<Rightarrow> string" where
  "student_full_name db sid =
     (case student_by_id db sid of None \<Rightarrow> [] | Some s \<Rightarrow> trim_space (full_name (st_first_name s) (st_last_name s)))"

definition new_response ::
  "env \<Rightarrow> string \<Rightarrow> string \<Rightarrow> string \<Rightarrow> int \<Rightarrow> string \<Rightarrow> string \<Rightarrow> string option \<Rightarrow> int option \<Rightarrow> response_row" where
  "new_response e sid name itemType itemID itemName status notes attendanceID =
     \<lparr>tr_id = 0, tr_student_id = sid, tr_student_name = name, tr_item_type = itemType, tr_item_id = itemID,
      tr_item_name = itemName, tr_status = status, tr_notes = notes, tr_response_date = today e,
      tr_attendance_id = attendanceID, tr_responded_at = ev_now e, tr_due_date = None, tr_is_late = 0\<rparr>"

text \<open>
  A missing item, and one without a student, makes the \<open>Scan\<close> of its student fail: the
  transaction is rolled back.
\<close>

definition CompleteTaskItem :: "env \<Rightarrow> int \<Rightarrow> string \<Rightarrow> classdb \<Rightarrow> classdb option" where
  "CompleteTaskItem e i completedBy db =
     (if ev_faults e Begin_tx \<or> ev_faults e U_task then None
      else let db = on_tasks (update_tab (\<lambda>r. ti_id r = i)
             (\<lambda>r. r\<lparr>ti_completed := 1, ti_completed_at := Some (ev_now e), ti_completed_by := Some completedBy\<rparr>)) db
        in case task_by_id db i of
          None \<Rightarrow> None
        | Some r \<Rightarrow>
           (case ti_student_id r of
              None \<Rightarrow> None
            | Some sid \<Rightarrow>
               (case insert_response e (new_response e sid (student_full_name db sid) (scopeToItemType (ti_scope r)) i
                       (ti_name r) ''done'' None (Some 0)) db of
                  None \<Rightarrow> None
                | Some db \<Rightarrow> if ev_faults e Commit_tx then None else Some db)))"

definition UncompleteTaskItem :: "env \<Rightarrow> int \<Rightarrow> classdb \<Rightarrow> classdb option" where
  "UncompleteTaskItem e i db =
     (if ev_faults e Begin_tx \<or> ev_faults e U_task \<or> ev_faults e D_response \<or> ev_faults e Commit_tx then None
      else Some ((on_tasks (update_tab (\<lambda>r. ti_id r = i)
             (\<lambda>r. r\<lparr>ti_completed := 0, ti_completed_at := None, ti_completed_by := None\<rparr>)) db)
             \<lparr>db_responses := delete_tab (\<lambda>r. tr_item_id r = i \<and> tr_status r = ''done'' \<and> tr_attendance_id r = Some 0)
                (db_responses db)\<rparr>))"

definition SaveLateSignoff :: "env \<Rightarrow> string \<Rightarrow> string \<Rightarrow> int \<Rightarrow> string \<Rightarrow> string \<Rightarrow> classdb \<Rightarrow> classdb option" where
  "SaveLateSignoff e studentID dueDate itemID status notes db =
     (let (itemName, scope) = (case task_by_id db itemID of None \<Rightarrow> ([], 0) | Some r \<Rightarrow> (ti_name r, ti_scope r))
      in insert_response e ((new_response e studentID (student_full_name db studentID) (scopeToItemType scope) itemID
           itemName status (Some notes) (Some 0))\<lparr>tr_due_date := Some dueDate, tr_is_late := 1\<rparr>) db)"

section \<open>Criteria\<close>

record student_attributes =
  sa_Grade :: int
  sa_Birthplace :: string
  sa_FirstLanguage :: string
  sa_School :: string

text \<open>Every ASCII digit counts, whatever stands between them.\<close>

definition parseGradeNum :: "string \<Rightarrow> int" where
  "parseGradeNum grade = foldl (\<lambda>n c. if is_digit c then n * 10 + int (dval c) else n) 0 grade"

definition loadStudentAttributes :: "classdb \<Rightarrow> string \<Rightarrow> student_attributes" where
  "loadStudentAttributes db studentID =
     (case student_by_id db studentID of
        None \<Rightarrow> \<lparr>sa_Grade = 0, sa_Birthplace = [], sa_FirstLanguage = [], sa_School = []\<rparr>
      | Some s \<Rightarrow> \<lparr>sa_Grade = parseGradeNum (coalesce (st_grade s)), sa_Birthplace = coalesce (st_birthplace s),
                  sa_FirstLanguage = coalesce (st_first_language s), sa_School = coalesce (st_school s)\<rparr>)"

definition containsIgnoreCase :: "string list \<Rightarrow> string \<Rightarrow> bool" where
  "containsIgnoreCase xs val \<longleftrightarrow> (\<exists>s \<in> set xs. to_lower s = to_lower val)"

definition list_allows :: "string list \<Rightarrow> string \<Rightarrow> bool" where
  "list_allows xs val \<longleftrightarrow> \<not> (xs \<noteq> [] \<and> val \<noteq> [] \<and> \<not> containsIgnoreCase xs val)"

definition matchesCriteria :: "env \<Rightarrow> string \<Rightarrow> student_attributes \<Rightarrow> bool" where
  "matchesCriteria e criteriaJSON student =
     (if criteriaJSON = [] then True
      else case ev_unmarshal e criteriaJSON of
        None \<Rightarrow> True
      | Some c \<Rightarrow>
          \<not> (case cr_GradeMin c of None \<Rightarrow> False | Some g \<Rightarrow> 0 < sa_Grade student \<and> sa_Grade student < g)
          \<and> \<not> (case cr_GradeMax c of None \<Rightarrow> False | Some g \<Rightarrow> 0 < sa_Grade student \<and> g < sa_Grade student)
          \<and> list_allows (cr_Birthplace c) (sa_Birthplace student)
          \<and> list_allows (cr_FirstLanguage c) (sa_FirstLanguage student)
          \<and> list_allows (cr_School c) (sa_School student))"

section \<open>Due items\<close>

text \<open>SQLite's \<open>LIKE\<close>: \<open>%\<close> any run, \<open>_\<close> any character, ASCII case ignored.\<close>

fun sql_like :: "string \<Rightarrow> string \<Rightarrow> bool" where
  "sql_like [] s \<longleftrightarrow> s = []"
| "sql_like (p # ps) s \<longleftrightarrow>
     (if p = CHR ''%'' then sql_like ps s \<or> (case s of [] \<Rightarrow> False | c # cs \<Rightarrow> sql_like (p # ps) cs)
      else case s of [] \<Rightarrow> False | c # cs \<Rightarrow> (p = CHR ''_'' \<or> lower_char p = lower_char c) \<and> sql_like ps cs)"

definition enrolled :: "string \<Rightarrow> schedule_row \<Rightarrow> bool" where
  "enrolled studentID s \<longleftrightarrow>
     (case sc_student_ids s of
        None \<Rightarrow> False
      | Some ids \<Rightarrow> sql_like (''%;'' @ studentID @ '';%'')
          ('';'' @ map (\<lambda>c. if c = CHR '','' then CHR '';'' else c) ids @ '';''))"

definition in_class :: "classdb \<Rightarrow> string \<Rightarrow> task_row \<Rightarrow> bool" where
  "in_class db studentID r \<longleftrightarrow>
     (\<exists>s \<in> set (db_schedules db). ti_schedule_id r = Some (sc_id s) \<and> sc_deleted s = 0 \<and> enrolled studentID s)"

definition due_visible :: "classdb \<Rightarrow> string \<Rightarrow> task_row \<Rightarrow> bool" where
  "due_visible db studentID r \<longleftrightarrow> ti_scope r = 1 \<or> (ti_scope r = 2 \<and> in_class db studentID r)
     \<or> (ti_scope r = 3 \<and> ti_student_id r = Some studentID \<and> ti_completed r = 0)"

definition due_window :: "string \<Rightarrow> task_row \<Rightarrow> bool" where
  "due_window date r \<longleftrightarrow> ti_active r = 1 \<and> ti_deleted r = 0
     \<and> (case ti_start_date r of None \<Rightarrow> True | Some s \<Rightarrow> s \<le> date)
     \<and> (case ti_end_date r of None \<Rightarrow> True | Some s \<Rightarrow> date \<le> s)"

definition response_day :: "response_row \<Rightarrow> string" where
  "response_day x = (case tr_due_date x of Some d \<Rightarrow> d | None \<Rightarrow> tr_response_date x)"

text \<open>\<open>strftime('%Y-%m', ..)\<close> of a date, \<open>NULL\<close> when the text is not one.\<close>

definition sql_month :: "string \<Rightarrow> string option" where
  "sql_month s = map_option fmt_month (parse_date s)"

text \<open>One response answers an item of recurrence \<open>rec\<close> for a day, its week and its month.\<close>

definition answers :: "string \<Rightarrow> string \<Rightarrow> string \<Rightarrow> string \<Rightarrow> response_row \<Rightarrow> bool" where
  "answers recurrence date weekStart month x \<longleftrightarrow>
     (if recurrence = ''daily'' then response_day x = date
      else if recurrence = ''weekly'' then weekStart \<le> response_day x
      else if recurrence = ''monthly'' then sql_month (response_day x) = Some month
      else tr_status x = ''done'')"

definition week_start :: "int \<Rightarrow> int" where
  "week_start d = (if weekday d = 0 then d - 6 else d - (weekday d - 1))"

definition unanswered :: "classdb \<Rightarrow> string \<Rightarrow> int \<Rightarrow> string \<Rightarrow> task_row \<Rightarrow> bool" where
  "unanswered db studentID d date r \<longleftrightarrow>
     ti_recurrence r \<in> {''daily'', ''weekly'', ''monthly'', ''none''}
     \<and> \<not> (\<exists>x \<in> set (tb_rows (db_responses db)). tr_student_id x = studentID \<and> tr_item_id x = ti_id r
            \<and> answers (ti_recurrence r) date (fmt_date (week_start d)) (fmt_month d) x)"

definition due_item_of :: "task_row \<Rightarrow> due_item" where
  "due_item_of r = \<lparr>di_Scope = ti_scope r, di_ItemType = scopeToItemType (ti_scope r), di_ItemID = ti_id r,
     di_Type = ti_type r, di_Name = ti_name r, di_Priority = ti_priority r, di_Category = coalesce (ti_category r),
     di_EndDate = coalesce (ti_end_date r), di_Recurrence = ti_recurrence r, di_RequiresSignoff = (ti_type r = ''todo''),
     di_GroupID = coalesce (ti_group_id r), di_GroupOrder = (case ti_group_order r of None \<Rightarrow> 0 | Some n \<Rightarrow> n)\<rparr>"

definition due_row :: "env \<Rightarrow> classdb \<Rightarrow> string \<Rightarrow> int \<Rightarrow> string \<Rightarrow> task_row \<Rightarrow> bool" where
  "due_row e db studentID d date r \<longleftrightarrow> due_window date r \<and> due_visible db studentID r \<and> unanswered db studentID d date r
     \<and> \<not> (ti_scope r = ScopeCenter \<and> \<not> matchesCriteria e (coalesce (ti_criteria r)) (loadStudentAttributes db studentID))"

definition GetDueItems :: "env \<Rightarrow> classdb \<Rightarrow> string \<Rightarrow> string \<Rightarrow> due_item list option" where
  "GetDueItems e db studentID date =
     (if ev_faults e Q_tasks then None
      else let (d, date) = (case parse_date date of Some d \<Rightarrow> (d, date) | None \<Rightarrow> (day_part (ev_now e), today e))
           in Some (map due_item_of (filter (due_row e db studentID d date) (tb_rows (db_tasks db)))))"

definition PendingSignoffItems :: "env \<Rightarrow> classdb \<Rightarrow> string \<Rightarrow> due_item list option" where
  "PendingSignoffItems e db studentID =
     map_option (filter (\<lambda>it. di_Type it = ''todo'')) (GetDueItems e db studentID (today e))"

definition GetAllTasksForStudent :: "classdb \<Rightarrow> string \<Rightarrow> due_item list" where
  "GetAllTasksForStudent db studentID = map due_item_of
     (filter (\<lambda>r. ti_active r = 1 \<and> ti_deleted r = 0
        \<and> (ti_scope r = 1 \<or> (ti_scope r = 2 \<and> in_class db studentID r) \<or> (ti_scope r = 3 \<and> ti_student_id r = Some studentID)))
       (tb_rows (db_tasks db)))"

section \<open>Whose students\<close>

definition splitIDs :: "string \<Rightarrow> string list" where
  "splitIDs s =
     (let s = trim_space s in
      if s = [] then []
      else let sep = (if CHR '';'' \<in> set s then CHR '';'' else CHR '','')
           in filter (\<lambda>i. i \<noteq> []) (map trim_space (split_on sep s)))"

text \<open>The iteration order of the set is \<open>order\<close>, which lists each identifier once.\<close>

definition GetTeacherStudentIDs :: "(string list \<Rightarrow> string list) \<Rightarrow> classdb \<Rightarrow> string \<Rightarrow> string list" where
  "GetTeacherStudentIDs order db teacherID =
     order (concat (map (\<lambda>s. case sc_student_ids s of None \<Rightarrow> [] | Some ids \<Rightarrow> splitIDs ids)
       (filter (\<lambda>s. sc_teacher_id s = Some teacherID \<and> sc_deleted s = 0) (db_schedules db))))"

definition GetParentStudentIDs :: "classdb \<Rightarrow> string \<Rightarrow> string list" where
  "GetParentStudentIDs db parentID =
     map st_id (filter (\<lambda>s. st_parent_id s = Some parentID \<and> st_active s = 1 \<and> st_deleted s = 0) (db_students db))"

definition GetAllActiveStudentIDs :: "classdb \<Rightarrow> string list" where
  "GetAllActiveStudentIDs db = sort (map st_id (filter (\<lambda>s. st_deleted s = 0) (db_students db)))"

definition GetStudentIDForItem :: "classdb \<Rightarrow> int \<Rightarrow> string option" where
  "GetStudentIDForItem db itemID = map_option (\<lambda>r. coalesce (ti_student_id r)) (task_by_id db itemID)"

end
