(* ===== verification/Attendance.thy ===== *)
theory Attendance
  imports Tasks
begin

text \<open>
  Check-in, status, check-out and check-out with task responses (\<open>internal/handlers/api.go\<close>,
  \<open>tracker.go\<close>), the audit of devices (\<open>internal/database/audit.go\<close>) and the link of an attendance
  row to a schedule. \<open>ORDER BY check_in_time DESC LIMIT 1\<close> returns a row of greatest time, the
  choice \<open>pick\<close> of the engine among equal ones.
\<close>

section \<open>The client's address\<close>

definition ClientIP :: "request \<Rightarrow> string" where
  "ClientIP r =
     (let fwd = rq_Header r ''X-Forwarded-For'' in
      if fwd \<noteq> [] then
        (case first_index (CHR '','') fwd of Some i \<Rightarrow> trim_space (take i fwd) | None \<Rightarrow> trim_space fwd)
      else if rq_Header r ''X-Real-IP'' \<noteq> [] then rq_Header r ''X-Real-IP''
      else (case last_index (CHR '':'') (rq_RemoteAddr r) of
              Some i \<Rightarrow> take i (rq_RemoteAddr r) | None \<Rightarrow> rq_RemoteAddr r))"

section \<open>Audit\<close>

definition InsertAudit :: "env \<Rightarrow> audit_row \<Rightarrow> classdb \<Rightarrow> int \<times> classdb" where
  "InsertAudit e a db =
     (if ev_faults e I_audit then (0, db)
      else (tb_seq (db_audit db) + 1, db\<lparr>db_audit := insert_row (mk_audit a) (db_audit db)\<rparr>))"

definition audit_entry :: "env \<Rightarrow> int \<Rightarrow> string \<Rightarrow> string \<Rightarrow> string \<Rightarrow> string \<Rightarrow> string \<Rightarrow> string \<Rightarrow> string \<Rightarrow> audit_row" where
  "audit_entry e attendanceID name sid device ip fp did action =
     \<lparr>au_id = 0, au_attendance_id = attendanceID, au_student_name = name, au_student_id = Some sid,
      au_device_type = device, au_client_ip = ip, au_fingerprint = Some fp, au_device_id = Some did,
      au_action = action, au_created_at = ev_now e, au_flagged = 0, au_flag_reason = None\<rparr>"

definition same_device :: "string \<Rightarrow> string \<Rightarrow> string \<Rightarrow> audit_row \<Rightarrow> bool" where
  "same_device ip fp did a \<longleftrightarrow> au_client_ip a = ip \<and> coalesce (au_fingerprint a) = fp
     \<and> coalesce (au_device_id a) = did \<and> au_action a = ''checkin''"

definition count_distinct_names :: "(audit_row \<Rightarrow> bool) \<Rightarrow> classdb \<Rightarrow> nat" where
  "count_distinct_names P db = length (remdups (map au_student_name (filter P (tb_rows (db_audit db)))))"

definition set_flag :: "int \<Rightarrow> string \<Rightarrow> classdb \<Rightarrow> classdb" where
  "set_flag i reason db = db\<lparr>db_audit := update_tab (\<lambda>a. au_id a = i)
     (\<lambda>a. a\<lparr>au_flagged := 1, au_flag_reason := Some reason\<rparr>) (db_audit db)\<rparr>"

definition reason_recent :: string where
  "reason_recent = ''Same device checked in multiple students within 5 minutes''"

definition reason_daily :: string where
  "reason_daily = ''Same device checked in 3+ different students today''"

definition FlagSuspiciousCheckins :: "env \<Rightarrow> int \<Rightarrow> string \<Rightarrow> string \<Rightarrow> string \<Rightarrow> string \<Rightarrow> classdb \<Rightarrow> classdb" where
  "FlagSuspiciousCheckins e auditID ip fp did name db =
     (let recentDiff = (if ev_faults e Q_audit then 0
            else count_distinct_names (\<lambda>a. same_device ip fp did a \<and> ev_now e - 300 \<le> au_created_at a
                   \<and> au_student_name a \<noteq> name) db)
      in if 1 \<le> recentDiff then (if ev_faults e U_audit then db else set_flag auditID reason_recent db)
         else let dailyDiff = (if ev_faults e Q_audit then 0
                else count_distinct_names (\<lambda>a. same_device ip fp did a
                       \<and> day_part (au_created_at a) = day_part (ev_now e)) db)
              in if 3 \<le> dailyDiff then (if ev_faults e U_audit then db else set_flag auditID reason_daily db) else db)"

text \<open>The range is ignored: its disjunct is weaker than the conjunct beside it.\<close>

definition GetFlaggedAudits :: "string \<Rightarrow> string \<Rightarrow> classdb \<Rightarrow> audit_row list" where
  "GetFlaggedAudits from to db =
     rev (sort_key au_created_at (filter (\<lambda>a. (au_flagged a = 1 \<or> (from \<le> fmt_date (day_part (au_created_at a))
        \<and> fmt_date (day_part (au_created_at a)) \<le> to)) \<and> au_flagged a = 1) (tb_rows (db_audit db))))"

definition DismissAuditFlag :: "env \<Rightarrow> int \<Rightarrow> classdb \<Rightarrow> classdb option" where
  "DismissAuditFlag e i db =
     (if ev_faults e U_audit then None
      else Some (db\<lparr>db_audit := update_tab (\<lambda>a. au_id a = i)
             (\<lambda>a. a\<lparr>au_flagged := 0, au_flag_reason := Some ''dismissed''\<rparr>) (db_audit db)\<rparr>))"

definition HandleAuditDismiss :: "env \<Rightarrow> request \<Rightarrow> int option \<Rightarrow> app \<Rightarrow> response \<times> app" where
  "HandleAuditDismiss e r req a =
     (if rq_Method r \<noteq> ''POST'' then (method_not_allowed, a)
      else case req of
        None \<Rightarrow> (writeJSON 400 [(''error'', JStr ''Invalid request'')], a)
      | Some i \<Rightarrow>
          (case DismissAuditFlag e i (ap_DB a) of
             None \<Rightarrow> (writeJSON 500 [(''error'', JStr ''Database error'')], a)
           | Some db \<Rightarrow> (writeJSON 200 [(''ok'', JBool True)], a\<lparr>ap_DB := db\<rparr>)))"

section \<open>The schedule of an attendance row\<close>

definition datastore_splitSemicolon :: "string \<Rightarrow> string list" where
  "datastore_splitSemicolon s =
     (if s = [] then [] else filter (\<lambda>p. p \<noteq> []) (map trim_space (split_on (CHR '';'') s)))"

definition schedule_of_row :: "schedule_row \<Rightarrow> schedule" where
  "schedule_of_row r = \<lparr>sch_ID = sc_id r, sch_DayOfWeek = sc_day_of_week r, sch_StartTime = sc_start_time r,
     sch_EndTime = sc_end_time r, sch_TeacherID = coalesce (sc_teacher_id r), sch_RoomID = coalesce (sc_room_id r),
     sch_Subject = coalesce (sc_subject r), sch_StudentIDs = datastore_splitSemicolon (coalesce (sc_student_ids r)),
     sch_EffectiveFrom = coalesce (sc_effective_from r), sch_EffectiveUntil = coalesce (sc_effective_until r),
     sch_Type = sc_type r, sch_Deleted = (sc_deleted r = 1),
     sch_DeletedAt = (case sc_deleted_at r of None \<Rightarrow> [] | Some t \<Rightarrow> fmt_ts t), sch_DeletedBy = coalesce (sc_deleted_by r)\<rparr>"

definition querySchedules :: "bool \<Rightarrow> classdb \<Rightarrow> schedule list" where
  "querySchedules includeDeleted db =
     map schedule_of_row (sort_key sc_id (filter (\<lambda>r. includeDeleted \<or> sc_deleted r = 0) (db_schedules db)))"

definition current_schedule :: "env \<Rightarrow> string \<Rightarrow> classdb \<Rightarrow> string" where
  "current_schedule e studentID db =
     (if ev_faults e Q_schedules then []
      else findCurrentSchedule (ev_zone e) (querySchedules False db) (ev_now e) studentID)"

definition linkAttendanceMetaByID :: "env \<Rightarrow> int \<Rightarrow> string \<Rightarrow> classdb \<Rightarrow> classdb" where
  "linkAttendanceMetaByID e attendanceID studentID db =
     (let scheduleID = current_schedule e studentID db in
      if ev_faults e I_meta then db
      else db\<lparr>db_meta := filter (\<lambda>m. am_attendance_id m \<noteq> attendanceID) (db_meta db)
             @ [\<lparr>am_attendance_id = attendanceID, am_student_id = Some studentID, am_schedule_id = Some scheduleID\<rparr>]\<rparr>)"

definition linkAttendanceMeta :: "env \<Rightarrow> int \<Rightarrow> string \<Rightarrow> classdb \<Rightarrow> classdb" where
  "linkAttendanceMeta e attendanceID studentName db =
     (let studentID = findStudentID db studentName in
      if studentID = [] then db else linkAttendanceMetaByID e attendanceID studentID db)"

section \<open>Attendance rows\<close>

definition on_day :: "env \<Rightarrow> string \<Rightarrow> attendance_row \<Rightarrow> bool" where
  "on_day e name r \<longleftrightarrow> at_student_name r = name \<and> day_part (at_check_in_time r) = day_part (ev_now e)"

definition open_today :: "env \<Rightarrow> string \<Rightarrow> attendance_row \<Rightarrow> bool" where
  "open_today e name r \<longleftrightarrow> on_day e name r \<and> at_check_out_time r = None"

definition latest_today ::
  "(attendance_row list \<Rightarrow> attendance_row) \<Rightarrow> env \<Rightarrow> string \<Rightarrow> classdb \<Rightarrow> attendance_row option" where
  "latest_today pick e name db =
     (case greatest_by at_check_in_time (filter (on_day e name) (tb_rows (db_attendance db))) of
        [] \<Rightarrow> None | rows \<Rightarrow> Some (pick rows))"

definition check_out_rows :: "env \<Rightarrow> string \<Rightarrow> classdb \<Rightarrow> nat \<times> classdb" where
  "check_out_rows e name db =
     (count_where (open_today e name) (tb_rows (db_attendance db)),
      db\<lparr>db_attendance := update_tab (open_today e name) (\<lambda>r. r\<lparr>at_check_out_time := Some (ev_now e)\<rparr>) (db_attendance db)\<rparr>)"

section \<open>Check-in\<close>

record checkin_request =
  ci_StudentName :: string
  ci_StudentID :: string
  ci_PIN :: string
  ci_DeviceType :: string
  ci_Fingerprint :: string
  ci_DeviceID :: string

definition pin_error_response :: "bool \<Rightarrow> string \<Rightarrow> string \<Rightarrow> response" where
  "pin_error_response with_id studentID pinErr =
     (if contains pinErr ''required''
      then writeJSON 200 ([(''ok'', JBool False), (''needs_pin'', JBool True)]
             @ (if with_id then [(''student_id'', JStr studentID)] else []) @ [(''error'', JStr pinErr)])
      else json_error 401 pinErr)"

definition device_type_of :: "string \<Rightarrow> string" where
  "device_type_of d = (if d \<noteq> ''mobile'' \<and> d \<noteq> ''kiosk'' then ''mobile'' else d)"

text \<open>The names and identifiers a request stands for: a missing one is looked up from the other.\<close>

definition resolve_student :: "classdb \<Rightarrow> string \<Rightarrow> string \<Rightarrow> string \<times> string" where
  "resolve_student db name sid =
     (let name = (if sid \<noteq> [] \<and> name = [] then lookupStudentName db sid else name);
          sid = (if name \<noteq> [] \<and> sid = [] then findStudentID db name else sid)
      in (name, sid))"

text \<open>The part of check-in after all its checks: row, schedule link, audit, flags, limiter.\<close>

definition record_checkin ::
  "env \<Rightarrow> string \<Rightarrow> string \<Rightarrow> string \<Rightarrow> string \<Rightarrow> string \<Rightarrow> string \<Rightarrow> app \<Rightarrow> app" where
  "record_checkin e ip name sid device fp did a =
     (let db = ap_DB a;
          i = tb_seq (db_attendance db) + 1;
          db = db\<lparr>db_attendance := insert_row (mk_attendance (sid, name, device, ev_now e)) (db_attendance db)\<rparr>;
          db = (if sid \<noteq> [] then linkAttendanceMetaByID e i sid db else linkAttendanceMeta e i name db);
          (auditID, db) = InsertAudit e (audit_entry e i name sid device ip fp did ''checkin'') db;
          db = FlagSuspiciousCheckins e auditID ip fp did name db
      in a\<lparr>ap_DB := db,
           ap_RateLimiter := map_option (Record (ev_nanos e) (DeviceKey ip fp did) name) (ap_RateLimiter a)\<rparr>)"

definition welcome_response :: "string \<Rightarrow> bool \<Rightarrow> response" where
  "welcome_response name requirePIN = writeJSON 200 [(''ok'', JBool True), (''message'', JStr (''Welcome, '' @ name @ ''!'')),
     (''require_pin'', JBool requirePIN)]"

text \<open>A check-in that has looked for an open row and found none; its insert is still to come.\<close>

record begun_checkin =
  bc_Name :: string
  bc_StudentID :: string
  bc_DeviceType :: string
  bc_ClientIP :: string
  bc_Fingerprint :: string
  bc_DeviceID :: string

text \<open>
  The handler in two parts, because its query for an open row and its insert are two statements of
  their own, with no transaction or lock around them: the checks, up to the answer of the query, and
  what follows it. The second part may see a later environment and another state.
\<close>

definition begin_checkin :: "env \<Rightarrow> request \<Rightarrow> checkin_request option \<Rightarrow> app \<Rightarrow> (response + begun_checkin) \<times> app" where
  "begin_checkin e r req a =
     (if rq_Method r \<noteq> ''POST'' then (Inl method_not_allowed, a)
      else case req of
        None \<Rightarrow> (Inl (json_error 400 ''Invalid request''), a)
      | Some q \<Rightarrow>
          let (name, sid) = resolve_student (ap_DB a) (ci_StudentName q) (ci_StudentID q) in
          if name = [] then (Inl (json_error 400 ''Name is required''), a)
          else if sid = [] then (Inl (json_error 400 ''Student not found. Please check the name and try again.''), a)
          else let (pinErr, a) = ValidatePIN e sid (ci_PIN q) a in
            if pinErr \<noteq> [] then (Inl (pin_error_response True sid pinErr), a)
            else let device = device_type_of (ci_DeviceType q); ip = ClientIP r;
                     msg = (case ap_RateLimiter a of None \<Rightarrow> []
                            | Some rl \<Rightarrow> Check (ev_nanos e) rl (DeviceKey ip (ci_Fingerprint q) (ci_DeviceID q)) name device)
                 in if msg \<noteq> [] then (Inl (json_error 429 msg), a)
                    else if \<not> ev_faults e Q_attendance \<and> (\<exists>x \<in> set (tb_rows (db_attendance (ap_DB a))). open_today e name x)
                    then (Inl (writeJSON 200 [(''ok'', JBool True), (''message'', JStr ''Already checked in today!'')]), a)
                    else (Inr \<lparr>bc_Name = name, bc_StudentID = sid, bc_DeviceType = device, bc_ClientIP = ip,
                                bc_Fingerprint = ci_Fingerprint q, bc_DeviceID = ci_DeviceID q\<rparr>, a))"

definition finish_checkin :: "env \<Rightarrow> begun_checkin \<Rightarrow> app \<Rightarrow> response \<times> app" where
  "finish_checkin e c a =
     (if ev_faults e I_attendance then (json_error 500 ''Failed to record attendance'', a)
      else let a = record_checkin e (bc_ClientIP c) (bc_Name c) (bc_StudentID c) (bc_DeviceType c)
                     (bc_Fingerprint c) (bc_DeviceID c) a
           in (welcome_response (bc_Name c) (bc_StudentID c \<noteq> [] \<and> StudentRequiresPIN (ap_DB a) (bc_StudentID c)), a))"

text \<open>A check-in that nothing interrupts.\<close>

definition HandleCheckIn :: "env \<Rightarrow> request \<Rightarrow> checkin_request option \<Rightarrow> app \<Rightarrow> response \<times> app" where
  "HandleCheckIn e r req a =
     (case begin_checkin e r req a of
        (Inl resp, a) \<Rightarrow> (resp, a)
      | (Inr c, a) \<Rightarrow> finish_checkin e c a)"

lemma HandleCheckIn_eq:
  "HandleCheckIn e r req a =
     (if rq_Method r \<noteq> ''POST'' then (method_not_allowed, a)
      else case req of
        None \<Rightarrow> (json_error 400 ''Invalid request'', a)
      | Some q \<Rightarrow>
          let (name, sid) = resolve_student (ap_DB a) (ci_StudentName q) (ci_StudentID q) in
          if name = [] then (json_error 400 ''Name is required'', a)
          else if sid = [] then (json_error 400 ''Student not found. Please check the name and try again.'', a)
          else let (pinErr, a) = ValidatePIN e sid (ci_PIN q) a in
            if pinErr \<noteq> [] then (pin_error_response True sid pinErr, a)
            else let device = device_type_of (ci_DeviceType q); ip = ClientIP r;
                     msg = (case ap_RateLimiter a of None \<Rightarrow> []
                            | Some rl \<Rightarrow> Check (ev_nanos e) rl (DeviceKey ip (ci_Fingerprint q) (ci_DeviceID q)) name device)
                 in if msg \<noteq> [] then (json_error 429 msg, a)
                    else if \<not> ev_faults e Q_attendance \<and> (\<exists>x \<in> set (tb_rows (db_attendance (ap_DB a))). open_today e name x)
                    then (writeJSON 200 [(''ok'', JBool True), (''message'', JStr ''Already checked in today!'')], a)
                    else if ev_faults e I_attendance then (json_error 500 ''Failed to record attendance'', a)
                    else let a = record_checkin e ip name sid device (ci_Fingerprint q) (ci_DeviceID q) a
                         in (welcome_response name (sid \<noteq> [] \<and> StudentRequiresPIN (ap_DB a) sid), a))"
  by (cases req)
    (simp_all add: HandleCheckIn_def begin_checkin_def finish_checkin_def Let_def split: prod.split option.split)

section \<open>Status\<close>

definition HandleStatus :: "(attendance_row list \<Rightarrow> attendance_row) \<Rightarrow> env \<Rightarrow> request \<Rightarrow> app \<Rightarrow> response" where
  "HandleStatus pick e r a =
     (let studentName = rq_Query r ''student_name'' in
      if studentName = [] then writeJSON 400 [(''checked_in'', JBool False), (''error'', JStr ''student_name required'')]
      else if ev_faults e Q_attendance then writeJSON 500 [(''checked_in'', JBool False), (''error'', JStr ''Database error'')]
      else case latest_today pick e studentName (ap_DB a) of
        None \<Rightarrow> writeJSON 200 [(''checked_in'', JBool False)]
      | Some row \<Rightarrow>
          let studentID = findStudentID (ap_DB a) studentName
          in writeJSON 200 [(''checked_in'', JBool True), (''checked_out'', JBool (at_check_out_time row \<noteq> None)),
               (''require_pin'', JBool (studentID \<noteq> [] \<and> StudentRequiresPIN (ap_DB a) studentID)),
               (''pin_mode'', JStr (pin_mode a))])"

section \<open>Check-out\<close>

record checkout_request =
  co_StudentName :: string
  co_StudentID :: string
  co_PIN :: string
  co_Fingerprint :: string
  co_DeviceID :: string

definition due_item_json :: "due_item \<Rightarrow> jval" where
  "due_item_json d = JObj ([(''scope'', JInt (di_Scope d)), (''item_type'', JStr (di_ItemType d)),
     (''item_id'', JInt (di_ItemID d)), (''type'', JStr (di_Type d)), (''name'', JStr (di_Name d)),
     (''priority'', JStr (di_Priority d)), (''category'', JStr (di_Category d)), (''end_date'', JStr (di_EndDate d)),
     (''recurrence'', JStr (di_Recurrence d)), (''requires_signoff'', JBool (di_RequiresSignoff d))]
     @ (if di_GroupID d \<noteq> [] then [(''group_id'', JStr (di_GroupID d))] else [])
     @ (if di_GroupOrder d \<noteq> 0 then [(''group_order'', JInt (di_GroupOrder d))] else []))"

definition InvalidateProgressCache :: "string \<Rightarrow> app \<Rightarrow> app" where
  "InvalidateProgressCache sid a = a\<lparr>ap_progressCache := map_option (\<lambda>m. m(sid := None)) (ap_progressCache a)\<rparr>"

definition goodbye_response :: "string \<Rightarrow> response" where
  "goodbye_response name = writeJSON 200 [(''ok'', JBool True), (''message'', JStr (''Goodbye, '' @ name @ ''!''))]"

definition pending_of :: "env \<Rightarrow> classdb \<Rightarrow> string \<Rightarrow> due_item list" where
  "pending_of e db sid = (case PendingSignoffItems e db sid of None \<Rightarrow> [] | Some items \<Rightarrow> items)"

definition record_checkout ::
  "(attendance_row list \<Rightarrow> attendance_row) \<Rightarrow> env \<Rightarrow> string \<Rightarrow> string \<Rightarrow> string \<Rightarrow> string \<Rightarrow> string \<Rightarrow> app \<Rightarrow> app" where
  "record_checkout pick e ip name sid fp did a =
     (let i = (case latest_today pick e name (ap_DB a) of Some row \<Rightarrow> if ev_faults e Q_attendance then 0 else at_id row | None \<Rightarrow> 0);
          (_, db) = InsertAudit e (audit_entry e i name sid ''mobile'' ip fp did ''checkout'') (ap_DB a);
          a = a\<lparr>ap_DB := db\<rparr>
      in if sid \<noteq> [] then InvalidateProgressCache sid a else a)"

definition HandleCheckOut ::
  "(attendance_row list \<Rightarrow> attendance_row) \<Rightarrow> env \<Rightarrow> request \<Rightarrow> checkout_request option \<Rightarrow> app \<Rightarrow> response \<times> app" where
  "HandleCheckOut pick e r req a =
     (if rq_Method r \<noteq> ''POST'' then (method_not_allowed, a)
      else case req of
        None \<Rightarrow> (json_error 400 ''Invalid request'', a)
      | Some q \<Rightarrow>
          let (name, sid) = resolve_student (ap_DB a) (co_StudentName q) (co_StudentID q) in
          if name = [] then (json_error 400 ''Name is required'', a)
          else let (pinErr, a) = ValidatePIN e sid (co_PIN q) a in
            if pinErr \<noteq> [] then (pin_error_response False sid pinErr, a)
            else if sid \<noteq> [] \<and> pending_of e (ap_DB a) sid \<noteq> [] then
              (writeJSON 200 [(''ok'', JBool False), (''pending_tasks'', JBool True),
                 (''items'', JArr (map due_item_json (pending_of e (ap_DB a) sid))),
                 (''error'', JStr ''Please complete required tasks before checking out'')], a)
            else if ev_faults e U_attendance then (json_error 500 ''Database error'', a)
            else let (rows, db) = check_out_rows e name (ap_DB a); a = a\<lparr>ap_DB := db\<rparr> in
              if rows = 0 then (json_error 200 ''No active check-in found'', a)
              else (goodbye_response name, record_checkout pick e (ClientIP r) name sid (co_Fingerprint q) (co_DeviceID q) a))"

section \<open>Check-out with responses\<close>

text \<open>The responses in order; the first that the table refuses undoes the transaction.\<close>

fun insert_responses ::
  "env \<Rightarrow> string \<Rightarrow> string \<Rightarrow> int \<Rightarrow> tracker_response list \<Rightarrow> classdb \<Rightarrow> classdb option" where
  "insert_responses e sid name attendanceID [] db = Some db"
| "insert_responses e sid name attendanceID (p # ps) db =
     (let itemType = (if rp_ItemType p \<noteq> [] then rp_ItemType p
                      else case task_by_id db (rp_ItemID p) of
                        Some t \<Rightarrow> scopeToItemType (ti_scope t) | None \<Rightarrow> ''personal'')
      in case insert_response e (new_response e sid name itemType (rp_ItemID p) (rp_ItemName p) (rp_Status p)
                (Some (rp_Notes p)) (Some attendanceID)) db of
           None \<Rightarrow> None
         | Some db \<Rightarrow> insert_responses e sid name attendanceID ps db)"

definition SaveTrackerResponses ::
  "(attendance_row list \<Rightarrow> attendance_row) \<Rightarrow> env \<Rightarrow> string \<Rightarrow> string \<Rightarrow> tracker_response list \<Rightarrow> classdb \<Rightarrow> (nat \<times> classdb) option" where
  "SaveTrackerResponses pick e sid name responses db =
     (if ev_faults e Begin_tx \<or> ev_faults e U_attendance then None
      else let (affected, db1) = check_out_rows e name db in
        if affected = 0 then Some (0, db)
        else case latest_today pick e name db1 of
          None \<Rightarrow> None
        | Some row \<Rightarrow>
            if ev_faults e Q_attendance \<or> ev_faults e Prepare_stmt then None
            else (case insert_responses e sid name (at_id row) responses db1 of
                    None \<Rightarrow> None
                  | Some db2 \<Rightarrow> if ev_faults e Commit_tx then None else Some (affected, db2)))"

record respond_request =
  rr_StudentName :: string
  rr_StudentID :: string
  rr_PIN :: string
  rr_Responses :: "tracker_response list"

text \<open>The first response that is not well formed is the error reported.\<close>

fun response_error :: "tracker_response list \<Rightarrow> string option" where
  "response_error [] = None"
| "response_error (p # ps) =
     (if rp_Status p \<noteq> ''done'' \<and> rp_Status p \<noteq> ''not_done'' then Some (''Invalid status: '' @ rp_Status p)
      else if rp_ItemType p \<noteq> ''global'' \<and> rp_ItemType p \<noteq> ''personal'' then Some ''Invalid item type''
      else response_error ps)"

definition HandleTrackerRespond ::
  "(attendance_row list \<Rightarrow> attendance_row) \<Rightarrow> env \<Rightarrow> request \<Rightarrow> respond_request option \<Rightarrow> app \<Rightarrow> response \<times> app" where
  "HandleTrackerRespond pick e r req a =
     (if rq_Method r \<noteq> ''POST'' then (method_not_allowed, a)
      else case req of
        None \<Rightarrow> (json_error 400 ''Invalid request'', a)
      | Some q \<Rightarrow>
          let (name, sid) = resolve_student (ap_DB a) (rr_StudentName q) (rr_StudentID q) in
          if name = [] then (json_error 400 ''Name is required'', a)
          else let (pinErr, a) = ValidatePIN e sid (rr_PIN q) a in
            if pinErr \<noteq> [] then (pin_error_response False sid pinErr, a)
            else case response_error (rr_Responses q) of
              Some msg \<Rightarrow> (json_error 400 msg, a)
            | None \<Rightarrow>
                (case SaveTrackerResponses pick e sid name (rr_Responses q) (ap_DB a) of
                   None \<Rightarrow> (json_error 500 ''Database error'', a)
                 | Some (rows, db) \<Rightarrow>
                     if rows = 0 then (json_error 200 ''No active check-in found'', a\<lparr>ap_DB := db\<rparr>)
                     else (goodbye_response name, InvalidateProgressCache sid (a\<lparr>ap_DB := db\<rparr>))))"

section \<open>Lists of attendees\<close>

definition TodayAttendees :: "env \<Rightarrow> classdb \<Rightarrow> attendance_row list" where
  "TodayAttendees e db = rev (sort_key at_check_in_time
     (filter (\<lambda>r. day_part (at_check_in_time r) = day_part (ev_now e)) (tb_rows (db_attendance db))))"

definition meta_of :: "classdb \<Rightarrow> attendance_row \<Rightarrow> attendance_meta_row option" where
  "meta_of db r = List.find (\<lambda>m. am_attendance_id m = at_id r) (db_meta db)"

definition attendee_matches :: "env \<Rightarrow> classdb \<Rightarrow> string \<Rightarrow> string \<Rightarrow> string \<Rightarrow> string \<Rightarrow> string \<Rightarrow> attendance_row \<Rightarrow> bool" where
  "attendee_matches e db from to studentID teacherID parentID r \<longleftrightarrow>
     (let am_sid = (case meta_of db r of None \<Rightarrow> None | Some m \<Rightarrow> am_student_id m);
          am_sched = (case meta_of db r of None \<Rightarrow> None | Some m \<Rightarrow> am_schedule_id m);
          day = fmt_date (day_part (at_check_in_time r))
      in (studentID \<noteq> [] \<longrightarrow> am_sid = Some studentID)
         \<and> (teacherID \<noteq> [] \<longrightarrow> (\<exists>s \<in> set (db_schedules db). am_sched = Some (sc_id s) \<and> sc_teacher_id s = Some teacherID))
         \<and> (parentID \<noteq> [] \<longrightarrow> (\<exists>s \<in> set (db_students db). am_sid = Some (st_id s) \<and> st_parent_id s = Some parentID))
         \<and> (if from \<noteq> [] \<and> to \<noteq> [] then from \<le> day \<and> day \<le> to
            else if from \<noteq> [] then from \<le> day
            else day_part (at_check_in_time r) = day_part (ev_now e)))"

definition AttendeesByDateRange ::
  "env \<Rightarrow> string \<Rightarrow> string \<Rightarrow> string \<Rightarrow> string \<Rightarrow> string \<Rightarrow> classdb \<Rightarrow> attendance_row list" where
  "AttendeesByDateRange e from to studentID teacherID parentID db = rev (sort_key at_check_in_time
     (filter (attendee_matches e db from to studentID teacherID parentID) (tb_rows (db_attendance db))))"

end
