(* ===== verification/Pins.thy ===== *)
theory Pins
  imports App
begin

text \<open>
  The handlers that read and change the PINs and the PIN mode (\<open>internal/handlers/app.go\<close>), and
  when the PIN that applies to a student is settled for a day.
\<close>

section \<open>Handlers\<close>

definition HandlePINToggle :: "request \<Rightarrow> bool option \<Rightarrow> app \<Rightarrow> response \<times> app" where
  "HandlePINToggle r req a =
     (if rq_Method r \<noteq> ''POST'' then (method_not_allowed, a)
      else case req of
        None \<Rightarrow> (json_error 400 ''Invalid request'', a)
      | Some b \<Rightarrow>
          (writeJSON 200 [(''ok'', JBool True), (''require_pin'', JBool b)],
           (SetRequirePIN b a)\<lparr>ap_PinMode := if b then ''center'' else ''off''\<rparr>))"

definition HandleSettings :: "app \<Rightarrow> response" where
  "HandleSettings a = writeJSON 200 [(''require_pin'', JBool (RequirePIN a)), (''pin_mode'', JStr (pin_mode a)),
     (''cloud_sync_enabled'', JBool (ap_CloudSyncEnabled a))]"

definition HandlePINCheck :: "request \<Rightarrow> app \<Rightarrow> response" where
  "HandlePINCheck r a =
     (let studentID = rq_Query r ''student_id''; studentName = rq_Query r ''student_name'';
          studentID = (if studentID = [] \<and> studentName \<noteq> [] then findStudentID (ap_DB a) studentName else studentID);
          needsPin = (pin_mode a = ''center'');
          needsPin = (if \<not> needsPin \<and> studentID \<noteq> [] then StudentRequiresPIN (ap_DB a) studentID else needsPin)
      in writeJSON 200 [(''needs_pin'', JBool needsPin), (''pin_mode'', JStr (pin_mode a))])"

definition HandleStudentPINSetup :: response where
  "HandleStudentPINSetup = json_error 403 ''PINs are managed by the admin. Please ask the admin for your PIN.''"

definition HandleStudentPINReset :: "env \<Rightarrow> request \<Rightarrow> string option \<Rightarrow> app \<Rightarrow> response \<times> app" where
  "HandleStudentPINReset e r req a =
     (if rq_Method r \<noteq> ''POST'' then (method_not_allowed, a)
      else case req of
        None \<Rightarrow> (json_error 400 ''Invalid request'', a)
      | Some studentID \<Rightarrow>
          (case GenerateStudentPin e studentID (ap_DB a) of
             None \<Rightarrow> (json_error 500 ''Failed to regenerate PIN'', a)
           | Some (pin, db) \<Rightarrow> (writeJSON 200 [(''ok'', JBool True), (''pin'', JStr pin)], a\<lparr>ap_DB := db\<rparr>)))"

definition HandlePINModeChange :: "request \<Rightarrow> string option \<Rightarrow> app \<Rightarrow> response \<times> app" where
  "HandlePINModeChange r req a =
     (if rq_Method r \<noteq> ''POST'' then (method_not_allowed, a)
      else case req of
        None \<Rightarrow> (json_error 400 ''Invalid request'', a)
      | Some mode \<Rightarrow>
          if mode = ''off'' \<or> mode = ''center'' then
            (writeJSON 200 [(''ok'', JBool True), (''pin_mode'', JStr mode)],
             saveConfig (SetRequirePIN (mode = ''center'') (a\<lparr>ap_PinMode := mode\<rparr>)))
          else if mode = ''per-student'' then
            (writeJSON 200 [(''ok'', JBool True), (''pin_mode'', JStr ''off'')],
             saveConfig (SetRequirePIN False (a\<lparr>ap_PinMode := ''off''\<rparr>)))
          else (json_error 400 ''Invalid pin_mode. Use: off, center'', a))"

definition HandleStudentRequirePIN :: "env \<Rightarrow> request \<Rightarrow> (string \<times> bool) option \<Rightarrow> app \<Rightarrow> response \<times> app" where
  "HandleStudentRequirePIN e r req a =
     (if rq_Method r \<noteq> ''POST'' then (method_not_allowed, a)
      else case req of
        None \<Rightarrow> (json_error 400 ''Invalid request'', a)
      | Some (studentID, require) \<Rightarrow>
          if studentID = [] then (json_error 400 ''Invalid request'', a)
          else case SetStudentRequirePIN e studentID require (ap_DB a) of
            None \<Rightarrow> (json_error 500 ''Database error'', a)
          | Some db \<Rightarrow>
              let a = a\<lparr>ap_DB := db\<rparr> in
              if \<not> require then (writeJSON 200 [(''ok'', JBool True)], a)
              else (case EnsureDailyStudentPin e studentID db of
                      None \<Rightarrow> (json_error 500 ''Failed to generate PIN'', a)
                    | Some (pin, db) \<Rightarrow>
                        (writeJSON 200 [(''ok'', JBool True), (''pin'', JStr pin)], a\<lparr>ap_DB := db\<rparr>)))"

definition HandlePINChange :: "env \<Rightarrow> request \<Rightarrow> string option \<Rightarrow> app \<Rightarrow> response \<times> app" where
  "HandlePINChange e r req a =
     (if rq_Method r \<noteq> ''POST'' then (method_not_allowed, a)
      else case req of
        None \<Rightarrow> (json_error 400 ''PIN must be 4 digits'', a)
      | Some pin \<Rightarrow>
          if length pin \<noteq> 4 then (json_error 400 ''PIN must be 4 digits'', a)
          else (writeJSON 200 [(''ok'', JBool True), (''pin'', JStr pin)], SetPIN e pin a))"

section \<open>A PIN holds for its day\<close>

text \<open>The PIN \<open>p\<close> is settled for a student on a day, before any request of that student.\<close>

definition settled :: "string \<Rightarrow> app \<Rightarrow> string \<Rightarrow> string \<Rightarrow> bool" where
  "settled day a studentID p \<longleftrightarrow>
     (if studentID \<noteq> [] \<and> StudentRequiresPIN (ap_DB a) studentID
      then \<exists>s. student_by_id (ap_DB a) studentID = Some s \<and> st_personal_pin s = Some p \<and> st_pin_generated_date s = Some day
      else pin_mode a = ''center'' \<and> ap_pinDate a = day \<and> ap_dailyPIN a = p)"

lemma GenerateStudentPin_rows:
  assumes "GenerateStudentPin e sid db = Some (p, db')"
  shows "student_by_id db' i = map_option (\<lambda>s. if st_id s = sid
      then s\<lparr>st_personal_pin := Some p, st_pin_generated_date := Some (today e)\<rparr> else s) (student_by_id db i)"
proof -
  have "db' = update_student sid (\<lambda>s. s\<lparr>st_personal_pin := Some p, st_pin_generated_date := Some (today e)\<rparr>) db"
    using assms by (auto simp: GenerateStudentPin_def Let_def split: if_splits)
  then show ?thesis by (simp add: student_by_id_update)
qed

lemma EnsureDailyStudentPin_rows:
  assumes "EnsureDailyStudentPin e sid db = Some (p, db')" "student_by_id db i = Some s"
  shows "\<exists>s'. student_by_id db' i = Some s' \<and> st_require_pin s' = st_require_pin s
     \<and> (s' \<noteq> s \<longrightarrow> i = sid \<and> st_personal_pin s' = Some p \<and> st_pin_generated_date s' = Some (today e)
         \<and> \<not> (st_personal_pin s \<noteq> None \<and> st_personal_pin s \<noteq> Some [] \<and> st_pin_generated_date s = Some (today e)))"
proof -
  obtain t where t: "student_by_id db sid = Some t"
    using assms(1) by (auto simp: EnsureDailyStudentPin_def split: option.splits)
  show ?thesis
  proof (cases "coalesce (st_personal_pin t) = [] \<or> coalesce (st_pin_generated_date t) \<noteq> today e")
    case True
    then have g: "GenerateStudentPin e sid db = Some (p, db')"
      using assms(1) t by (simp add: EnsureDailyStudentPin_def)
    define u where "u = s\<lparr>st_personal_pin := Some p, st_pin_generated_date := Some (today e)\<rparr>"
    have u: "st_require_pin u = st_require_pin s" "st_personal_pin u = Some p" "st_pin_generated_date u = Some (today e)"
      by (simp_all add: u_def)
    have i: "student_by_id db' i = Some (if i = sid then u else s)"
      using GenerateStudentPin_rows [OF g, of i] assms(2) student_by_id_Some [OF assms(2)] by (simp add: u_def)
    have old: "i = sid \<Longrightarrow> \<not> (st_personal_pin s \<noteq> None \<and> st_personal_pin s \<noteq> Some [] \<and> st_pin_generated_date s = Some (today e))"
      using True t assms(2) by (auto simp: coalesce_def split: option.splits)
    show ?thesis
      using i u old by (cases "i = sid") auto
  next
    case False
    then have "db' = db" using assms(1) t by (simp add: EnsureDailyStudentPin_def)
    then show ?thesis using assms(2) by simp
  qed
qed

lemma EnsureDailyStudentPin_None:
  "EnsureDailyStudentPin e sid db = Some (p, db') \<Longrightarrow> student_by_id db i = None \<Longrightarrow> student_by_id db' i = None"
  by (auto simp: EnsureDailyStudentPin_def GenerateStudentPin_def Let_def student_by_id_update
      split: option.splits if_splits)

lemma EnsureDailyStudentPin_requires:
  "EnsureDailyStudentPin e sid db = Some (p, db') \<Longrightarrow> StudentRequiresPIN db' i = StudentRequiresPIN db i"
  using EnsureDailyStudentPin_rows [of e sid db p db' i] EnsureDailyStudentPin_None [of e sid db p db' i]
  by (cases "student_by_id db i") (auto simp: StudentRequiresPIN_def)

lemma ValidatePIN_state:
  obtains (same) "snd (ValidatePIN e sid pin a) = a"
  | (student) p db where "EnsureDailyStudentPin e sid (ap_DB a) = Some (p, db)"
      "snd (ValidatePIN e sid pin a) = a\<lparr>ap_DB := db\<rparr>"
  | (daily) "snd (ValidatePIN e sid pin a) = snd (EnsureDailyPIN e a)"
proof (cases "sid \<noteq> [] \<and> StudentRequiresPIN (ap_DB a) sid")
  case True
  then show thesis
    using same student by (cases "EnsureDailyStudentPin e sid (ap_DB a)")
      (auto simp: ValidatePIN_def Let_def split: prod.splits)
next
  case False
  have "snd (ValidatePIN e sid pin a) = a \<or> snd (ValidatePIN e sid pin a) = snd (EnsureDailyPIN e a)"
    unfolding ValidatePIN_def if_not_P [OF False] by (simp add: Let_def split: prod.split)
  with same daily show thesis by blast
qed

lemma EnsureDailyPIN_keeps:
  "ap_DB (snd (EnsureDailyPIN e a)) = ap_DB a" "pin_mode (snd (EnsureDailyPIN e a)) = pin_mode a"
  "ap_pinDate a = today e \<Longrightarrow> snd (EnsureDailyPIN e a) = a"
  by (simp_all add: EnsureDailyPIN_def pin_mode_def Let_def)

lemma settled_ValidatePIN:
  assumes "settled (today e) a sid p" "p \<noteq> []"
  shows "settled (today e) (snd (ValidatePIN e sid' pin a)) sid p"
proof (cases rule: ValidatePIN_state [of e sid' pin a])
  case same
  then show ?thesis using assms by simp
next
  case (student q db)
  have r: "StudentRequiresPIN db sid = StudentRequiresPIN (ap_DB a) sid"
    using student(1) by (rule EnsureDailyStudentPin_requires)
  have "\<exists>s. student_by_id db sid = Some s \<and> st_personal_pin s = Some p \<and> st_pin_generated_date s = Some (today e)"
    if s: "student_by_id (ap_DB a) sid = Some s" "st_personal_pin s = Some p" "st_pin_generated_date s = Some (today e)" for s
    using EnsureDailyStudentPin_rows [OF student(1) s(1)] s assms(2) by force
  then show ?thesis
    using assms student(2) r by (auto simp: settled_def pin_mode_def)
next
  case daily
  then show ?thesis
    using assms unfolding settled_def by (cases "ap_pinDate a = today e") (auto simp: EnsureDailyPIN_keeps)
qed

lemma settled_accepts:
  assumes "settled (today e) a sid p" "p \<noteq> []"
  shows "fst (ValidatePIN e sid pin a) = [] \<longleftrightarrow> pin = p"
proof (cases "sid \<noteq> [] \<and> StudentRequiresPIN (ap_DB a) sid")
  case True
  then obtain s where "student_by_id (ap_DB a) sid = Some s" "st_personal_pin s = Some p"
    "st_pin_generated_date s = Some (today e)"
    using assms(1) unfolding settled_def by metis
  then have "EnsureDailyStudentPin e sid (ap_DB a) = Some (p, ap_DB a)"
    using assms(2) by (simp add: EnsureDailyStudentPin_def)
  with True assms(2) show ?thesis by (simp add: ValidatePIN_def pin_verdict_def)
next
  case False
  then have "pin_mode a = ''center''" "ap_pinDate a = today e" "ap_dailyPIN a = p"
    using assms(1) unfolding settled_def by (simp_all only: if_False)
  with False assms(2) show ?thesis by (auto simp: ValidatePIN_def EnsureDailyPIN_def pin_verdict_def)
qed

text \<open>Whether a PIN is settled for a student is read off that student's row and the center's PIN.\<close>

lemma settled_frame:
  assumes "settled day a sid p" "student_by_id (ap_DB b) sid = student_by_id (ap_DB a) sid"
    and "ap_PinMode b = ap_PinMode a" "ap_pinDate b = ap_pinDate a" "ap_dailyPIN b = ap_dailyPIN a"
  shows "settled day b sid p"
proof -
  have "StudentRequiresPIN (ap_DB b) sid = StudentRequiresPIN (ap_DB a) sid"
    using assms(2) by (simp add: StudentRequiresPIN_def)
  moreover have "pin_mode b = pin_mode a" using assms(3) by (simp add: pin_mode_def)
  ultimately show ?thesis using assms unfolding settled_def by simp
qed

text \<open>The student has a PIN of their own; otherwise the center's applies.\<close>

definition own_pin :: "app \<Rightarrow> string \<Rightarrow> bool" where
  "own_pin a sid \<longleftrightarrow> sid \<noteq> [] \<and> StudentRequiresPIN (ap_DB a) sid"

lemma settled_own:
  assumes "settled day a sid p" "own_pin a sid" "ap_DB b = ap_DB a"
  shows "settled day b sid p"
  using assms by (simp add: settled_def own_pin_def)

lemma settled_reset:
  assumes "settled day a sid p" "own_pin a sid \<Longrightarrow> req \<noteq> Some sid"
  shows "settled day (snd (HandleStudentPINReset e r req a)) sid p"
proof (cases "\<exists>i q db. rq_Method r = ''POST'' \<and> req = Some i \<and> GenerateStudentPin e i (ap_DB a) = Some (q, db)")
  case False
  then have "snd (HandleStudentPINReset e r req a) = a"
    by (auto simp: HandleStudentPINReset_def split: option.split)
  with assms(1) show ?thesis by simp
next
  case True
  then obtain i q db where g: "rq_Method r = ''POST''" "req = Some i" "GenerateStudentPin e i (ap_DB a) = Some (q, db)"
    by blast
  then have b: "snd (HandleStudentPINReset e r req a) = a\<lparr>ap_DB := db\<rparr>"
    by (simp add: HandleStudentPINReset_def)
  note rows = GenerateStudentPin_rows [OF g(3), of sid]
  show ?thesis
  proof (cases "own_pin a sid")
    case True
    then have "i \<noteq> sid" using assms(2) g(2) by simp
    then have "student_by_id db sid = student_by_id (ap_DB a) sid"
      using rows student_by_id_Some [of "ap_DB a" sid] by (cases "student_by_id (ap_DB a) sid") auto
    with settled_frame [OF assms(1)] show ?thesis by (simp add: b)
  next
    case False
    have "StudentRequiresPIN db sid = StudentRequiresPIN (ap_DB a) sid"
      using rows by (cases "student_by_id (ap_DB a) sid") (auto simp: StudentRequiresPIN_def)
    with False assms(1) show ?thesis by (auto simp: b settled_def own_pin_def pin_mode_def)
  qed
qed

lemma settled_require:
  assumes "settled day a sid p" "\<And>v. req \<noteq> Some (sid, v)"
  shows "settled day (snd (HandleStudentRequirePIN e r req a)) sid p"
proof -
  have set: "student_by_id db sid = student_by_id (ap_DB a) sid"
    if "SetStudentRequirePIN e i v (ap_DB a) = Some db" "i \<noteq> sid" for i v db
    using that student_by_id_Some [of "ap_DB a" sid]
    by (cases "student_by_id (ap_DB a) sid") (auto simp: SetStudentRequirePIN_def student_by_id_update split: if_splits)
  have ens: "student_by_id db' sid = student_by_id db sid"
    if "EnsureDailyStudentPin e i db = Some (q, db')" "i \<noteq> sid" for i q db db'
    using EnsureDailyStudentPin_rows [OF that(1), of sid] EnsureDailyStudentPin_None [OF that(1), of sid] that(2)
    by (cases "student_by_id db sid") auto
  let ?b = "snd (HandleStudentRequirePIN e r req a)"
  have "student_by_id (ap_DB ?b) sid = student_by_id (ap_DB a) sid \<and> ap_PinMode ?b = ap_PinMode a
      \<and> ap_pinDate ?b = ap_pinDate a \<and> ap_dailyPIN ?b = ap_dailyPIN a"
  proof (cases req)
    case (Some iv)
    then obtain i v where "req = Some (i, v)" "i \<noteq> sid" using assms(2) by (cases iv) auto
    then show ?thesis
      using set ens by (auto simp: HandleStudentRequirePIN_def Let_def split: option.split)
  qed (simp add: HandleStudentRequirePIN_def)
  with settled_frame [OF assms(1)] show ?thesis by blast
qed

section \<open>The PIN mode as a state machine\<close>

text \<open>A step is one answered request of any PIN handler, or a validation.\<close>

inductive pin_step :: "app \<Rightarrow> app \<Rightarrow> bool" where
  toggle: "pin_step a (snd (HandlePINToggle r b a))"
| mode: "pin_step a (snd (HandlePINModeChange r m a))"
| change: "pin_step a (snd (HandlePINChange e r p a))"
| reset: "pin_step a (snd (HandleStudentPINReset e r sid a))"
| require: "pin_step a (snd (HandleStudentRequirePIN e r q a))"
| validate: "pin_step a (snd (ValidatePIN e sid pin a))"
| daily: "pin_step a (snd (EnsureDailyPIN e a))"

inductive_cases pin_stepE: "pin_step a b"

definition mode_synced :: "app \<Rightarrow> bool" where
  "mode_synced a \<longleftrightarrow> ap_requirePIN a = (pin_mode a = ''center'')"

lemma mode_unchanged:
  "ap_PinMode (snd (HandlePINChange e r p a)) = ap_PinMode a \<and> ap_requirePIN (snd (HandlePINChange e r p a)) = ap_requirePIN a"
  "ap_PinMode (snd (HandleStudentPINReset e r sid a)) = ap_PinMode a \<and> ap_requirePIN (snd (HandleStudentPINReset e r sid a)) = ap_requirePIN a"
  "ap_PinMode (snd (HandleStudentRequirePIN e r q a)) = ap_PinMode a \<and> ap_requirePIN (snd (HandleStudentRequirePIN e r q a)) = ap_requirePIN a"
  "ap_PinMode (snd (ValidatePIN e sid' pin a)) = ap_PinMode a \<and> ap_requirePIN (snd (ValidatePIN e sid' pin a)) = ap_requirePIN a"
  "ap_PinMode (snd (EnsureDailyPIN e a)) = ap_PinMode a \<and> ap_requirePIN (snd (EnsureDailyPIN e a)) = ap_requirePIN a"
  by (auto simp: HandlePINChange_def HandleStudentPINReset_def HandleStudentRequirePIN_def ValidatePIN_def
      EnsureDailyPIN_def SetPIN_def Let_def split: option.split prod.split)

lemma mode_synced_cong: "ap_PinMode b = ap_PinMode a \<and> ap_requirePIN b = ap_requirePIN a \<Longrightarrow> mode_synced b = mode_synced a"
  by (simp add: mode_synced_def pin_mode_def)

lemma mode_synced_step: "pin_step a b \<Longrightarrow> mode_synced a \<Longrightarrow> mode_synced b"
  by (erule pin_stepE)
    (simp_all add: mode_synced_cong [OF mode_unchanged(1)] mode_synced_cong [OF mode_unchanged(2)]
      mode_synced_cong [OF mode_unchanged(3)] mode_synced_cong [OF mode_unchanged(4)]
      mode_synced_cong [OF mode_unchanged(5)],
     auto simp: mode_synced_def pin_mode_def HandlePINToggle_def HandlePINModeChange_def SetRequirePIN_def
       saveConfig_def split: option.split)

text \<open>
  Along every run of the PIN handlers the two switches agree: the flag shown to the admin says
  a PIN is required exactly when check-ins of unflagged students are asked for one.
\<close>

theorem pin_switches_agree:
  assumes "pin_step\<^sup>*\<^sup>* a b" "ap_requirePIN a = (pin_mode a = ''center'')"
    and "\<not> StudentRequiresPIN (ap_DB b) sid"
  shows "ap_requirePIN b \<longleftrightarrow> fst (ValidatePIN e sid [] b) \<noteq> []"
proof -
  have "mode_synced b"
    using assms(1,2) by (induction rule: rtranclp_induct) (auto simp: mode_synced_step mode_synced_def [of a])
  then show ?thesis
    using assms(3) by (simp add: mode_synced_def ValidatePIN_def)
qed

section \<open>Examples\<close>

theorem pin_switches_agree_witness:
  "ap_requirePIN (snd (HandlePINToggle post_request (Some False) demo_app)) \<longleftrightarrow>
     fst (ValidatePIN (demo_env noon) ''S001'' [] (snd (HandlePINToggle post_request (Some False) demo_app))) \<noteq> []"
proof (rule pin_switches_agree)
  show "pin_step\<^sup>*\<^sup>* demo_app (snd (HandlePINToggle post_request (Some False) demo_app))"
    by (rule r_into_rtranclp, rule pin_step.toggle)
qed (simp_all add: demo_app_def pin_mode_def StudentRequiresPIN_def student_by_id_def empty_db_def
    HandlePINToggle_def post_request_def SetRequirePIN_def)

end
