(* ===== verification/Due.thy ===== *)
theory Due
  imports Tasks
begin

text \<open>
  When an item is due, answered and due again; completing a personal item and taking it back.
\<close>

section \<open>Answers and periods\<close>

text \<open>Two days share the period of a recurrence: the day, the ISO week, the calendar month, or all time.\<close>

fun same_period :: "string \<Rightarrow> int \<Rightarrow> int \<Rightarrow> bool" where
  "same_period recurrence a b \<longleftrightarrow>
     (if recurrence = ''daily'' then a = b
      else if recurrence = ''weekly'' then iso_week a = iso_week b
      else if recurrence = ''monthly'' then year_of a = year_of b \<and> month_of a = month_of b
      else True)"

lemma week_start_alt: "week_start d = 7 * (d div 7)"
proof -
  define q m where "q = d div 7" and "m = d mod 7"
  have d: "d = 7 * q + m" "0 \<le> m" "m < 7" by (simp_all add: q_def m_def)
  then have "weekday d = (if m = 6 then 0 else m + 1)"
    unfolding weekday_def by (auto intro: int_mod_pos_eq [where q = "q + 1"] int_mod_pos_eq [where q = q])
  then show ?thesis using d unfolding week_start_def q_def [symmetric] by auto
qed

lemma week_answer:
  assumes "fmt_ok d" "fmt_ok r" "r \<le> d"
  shows "fmt_date (week_start d) \<le> fmt_date r \<longleftrightarrow> iso_week r = iso_week d"
proof -
  have "fmt_ok (week_start d)"
    using assms(1) minus_mod_eq_mult_div [of d 7] pos_mod_sign [of 7 d]
    by (auto simp: fmt_ok_def week_start_alt pos_imp_zdiv_nonneg_iff)
  then have "fmt_date (week_start d) \<le> fmt_date r \<longleftrightarrow> week_start d \<le> r"
    using assms(2) by (rule fmt_date_le)
  also have "\<dots> \<longleftrightarrow> d div 7 \<le> r div 7"
    unfolding week_start_alt by presburger
  also have "\<dots> \<longleftrightarrow> r div 7 = d div 7"
    using zdiv_mono1 [OF assms(3), of 7] by linarith
  finally show ?thesis by (simp add: iso_week_eq_iff)
qed

lemma answers_period:
  assumes "fmt_ok d" "fmt_ok r" "r \<le> d" "response_day x = fmt_date r" "tr_status x = ''done''"
  shows "answers rec (fmt_date d) (fmt_date (week_start d)) (fmt_month d) x \<longleftrightarrow> same_period rec r d"
  using assms week_answer [OF assms(1-3)]
  by (auto simp: answers_def fmt_date_inject sql_month_def fmt_month_eq_iff)

definition answered_by :: "response_row \<Rightarrow> classdb \<Rightarrow> classdb" where
  "answered_by x db = db\<lparr>db_responses := insert_row (mk_response x) (db_responses db)\<rparr>"

lemma answered_by_keeps [simp]:
  "db_tasks (answered_by x db) = db_tasks db" "in_class (answered_by x db) = in_class db"
  "db_students (answered_by x db) = db_students db"
  "loadStudentAttributes (answered_by x db) = loadStudentAttributes db"
  by (simp_all add: answered_by_def in_class_def loadStudentAttributes_def student_by_id_def fun_eq_iff)

lemma mk_response_fields [simp]:
  "tr_student_id (mk_response x i) = tr_student_id x" "tr_item_id (mk_response x i) = tr_item_id x"
  "answers rec d w m (mk_response x i) = answers rec d w m x" "tr_status (mk_response x i) = tr_status x"
  "tr_attendance_id (mk_response x i) = tr_attendance_id x"
  by (simp_all add: mk_response_def answers_def response_day_def split: option.split)

lemma unanswered_answered:
  "unanswered (answered_by x db) sid d date r \<longleftrightarrow> unanswered db sid d date r
     \<and> \<not> (tr_student_id x = sid \<and> tr_item_id x = ti_id r
          \<and> answers (ti_recurrence r) date (fmt_date (week_start d)) (fmt_month d) x)"
  unfolding unanswered_def answered_by_def by auto

lemma due_row_answered:
  "due_row e (answered_by x db) sid d date r \<longleftrightarrow> due_row e db sid d date r
     \<and> \<not> (tr_student_id x = sid \<and> tr_item_id x = ti_id r
          \<and> answers (ti_recurrence r) date (fmt_date (week_start d)) (fmt_month d) x)"
  unfolding due_row_def unanswered_answered due_visible_def answered_by_keeps by blast

text \<open>
  C4. Signing an item off on a day takes it off the student's list for the rest of the day, the ISO
  week or the month its recurrence names, for good when it does not recur, and for no longer: the
  list of any later day is the old list without that item, as long as the period is the same.
\<close>

theorem signoff_lasts_its_period:
  assumes "\<not> ev_faults e Q_tasks" "fmt_ok d" "fmt_ok r" "r \<le> d"
    and "response_day x = fmt_date r" "tr_status x = ''done''"
  shows "\<exists>due. GetDueItems e db (tr_student_id x) (fmt_date d) = Some due
     \<and> GetDueItems e (answered_by x db) (tr_student_id x) (fmt_date d) =
         Some (filter (\<lambda>it. \<not> (di_ItemID it = tr_item_id x \<and> same_period (di_Recurrence it) r d)) due)"
proof -
  let ?sid = "tr_student_id x"
  have "filter (due_row e (answered_by x db) ?sid d (fmt_date d)) rows =
      filter (\<lambda>t. \<not> (ti_id t = tr_item_id x \<and> same_period (ti_recurrence t) r d))
        (filter (due_row e db ?sid d (fmt_date d)) rows)" for rows
    by (induction rows) (auto simp: due_row_answered answers_period [OF assms(2-6)])
  then show ?thesis
    using assms(1,2) by (simp add: GetDueItems_def filter_map o_def due_item_of_def)
qed

section \<open>Completing and taking back\<close>

lemma task_by_id_update:
  assumes "\<And>r. ti_id (f r) = ti_id r"
  shows "task_by_id (on_tasks (update_tab (\<lambda>r. ti_id r = i) f) db) j =
    map_option (\<lambda>r. if ti_id r = i then f r else r) (task_by_id db j)"
  unfolding task_by_id_def on_tasks_def by (simp add: find_update_where assms)

lemma student_on_tasks [simp]: "student_by_id (on_tasks f db) i = student_by_id db i"
  by (simp add: student_by_id_def on_tasks_def)

lemma student_full_name_on_tasks [simp]: "student_full_name (on_tasks f db) = student_full_name db"
  by (simp add: student_full_name_def fun_eq_iff)

lemma on_tasks_simps [simp]:
  "db_tasks (on_tasks f db) = f (db_tasks db)" "db_responses (on_tasks f db) = db_responses db"
  by (simp_all add: on_tasks_def)

text \<open>The response a completed personal item leaves, and the row it becomes.\<close>

definition completion :: "env \<Rightarrow> classdb \<Rightarrow> task_row \<Rightarrow> string \<Rightarrow> response_row" where
  "completion e db r sid = new_response e sid (student_full_name db sid) ''personal'' (ti_id r) (ti_name r) ''done'' None (Some 0)"

definition completed_row :: "env \<Rightarrow> string \<Rightarrow> task_row \<Rightarrow> task_row" where
  "completed_row e by r = r\<lparr>ti_completed := 1, ti_completed_at := Some (ev_now e), ti_completed_by := Some by\<rparr>"

lemma insert_response_ok:
  "\<not> ev_faults e I_response \<Longrightarrow> response_allowed (tr_item_type x) (tr_status x) \<Longrightarrow> insert_response e x db = Some (answered_by x db)"
  by (simp add: insert_response_def answered_by_def)

lemma CompleteTaskItem_personal:
  assumes "ev_faults e = no_faults" "task_by_id db i = Some r" "ti_scope r = 3" "ti_student_id r = Some sid"
  shows "CompleteTaskItem e i by db = Some (answered_by (completion e db r sid)
     (on_tasks (update_tab (\<lambda>r. ti_id r = i) (completed_row e by)) db))"
proof -
  let ?db = "on_tasks (update_tab (\<lambda>r. ti_id r = i) (completed_row e by)) db"
  have i: "ti_id r = i" using assms(2) by (auto simp: task_by_id_def dest: find_Some_iff_mem)
  have f: "completed_row e by = (\<lambda>r. r\<lparr>ti_completed := 1, ti_completed_at := Some (ev_now e), ti_completed_by := Some by\<rparr>)"
    by (simp add: completed_row_def fun_eq_iff)
  have t: "task_by_id ?db i = Some (completed_row e by r)"
    using assms(2) i by (subst task_by_id_update) (simp_all add: completed_row_def)
  have c: "ti_scope (completed_row e by r) = 3" "ti_student_id (completed_row e by r) = Some sid"
    "ti_name (completed_row e by r) = ti_name r"
    using assms(3,4) by (simp_all add: completed_row_def)
  have x: "new_response e sid (student_full_name ?db sid) (scopeToItemType 3) i (ti_name r) ''done'' None (Some 0) = completion e db r sid"
    by (simp add: completion_def scopeToItemType_def ScopeCenter_def ScopeClass_def i)
  have ins: "insert_response e (completion e db r sid) ?db = Some (answered_by (completion e db r sid) ?db)"
    using assms(1) by (intro insert_response_ok) (simp_all add: completion_def new_response_def response_allowed_def)
  show ?thesis
    unfolding CompleteTaskItem_def Let_def f [symmetric] t option.case c x ins by (simp add: assms(1))
qed

text \<open>
  C6. Completing a personal item answers it for its student, whatever the day asked for, and taking
  the completion back restores the state exactly: the item's row and the responses, provided the
  item was open and had no dashboard response before.
\<close>

theorem complete_uncomplete_roundtrip:
  assumes "ev_faults e = no_faults" "task_by_id db i = Some r" "ti_scope r = 3" "ti_student_id r = Some sid"
    and "keys_ok ti_id (db_tasks db)" "ti_completed r = 0" "ti_completed_at r = None" "ti_completed_by r = None"
    and "\<forall>x \<in> set (tb_rows (db_responses db)). \<not> (tr_item_id x = i \<and> tr_status x = ''done'' \<and> tr_attendance_id x = Some 0)"
  shows "\<exists>db1 db2. CompleteTaskItem e i by db = Some db1 \<and> UncompleteTaskItem e i db1 = Some db2
     \<and> (\<forall>t \<in> set (tb_rows (db_tasks db1)). \<forall>d date. ti_id t = i \<longrightarrow> \<not> due_row e db1 sid d date t)
     \<and> tb_rows (db_tasks db2) = tb_rows (db_tasks db) \<and> tb_rows (db_responses db2) = tb_rows (db_responses db)"
proof -
  let ?db1 = "answered_by (completion e db r sid) (on_tasks (update_tab (\<lambda>r. ti_id r = i) (completed_row e by)) db)"
  have i: "ti_id r = i" "r \<in> set (tb_rows (db_tasks db))"
    using assms(2) by (auto simp: task_by_id_def dest: find_Some_iff_mem)
  have 1: "CompleteTaskItem e i by db = Some ?db1"
    by (rule CompleteTaskItem_personal [OF assms(1-4)])
  have x: "tr_item_id (completion e db r sid) = i" "tr_status (completion e db r sid) = ''done''"
    "tr_attendance_id (completion e db r sid) = Some 0"
    by (simp_all add: completion_def new_response_def i)
  have only: "t = r" if "t \<in> set (tb_rows (db_tasks db))" "ti_id t = i" for t
    using task_tab.same_key [OF assms(5) that(1) i(2)] that(2) i(1) by simp
  have "(completed_row e by r)\<lparr>ti_completed := 0, ti_completed_at := None, ti_completed_by := None\<rparr> = r"
    using assms(6-8) by (simp add: completed_row_def)
  then have re: "ti_id t = i \<Longrightarrow> t \<in> set (tb_rows (db_tasks db)) \<Longrightarrow>
      (completed_row e by t)\<lparr>ti_completed := 0, ti_completed_at := None, ti_completed_by := None\<rparr> = t" for t
    using only by metis
  have rows: "tb_rows (db_responses ?db1) = tb_rows (db_responses db) @ [mk_response (completion e db r sid) (tb_seq (db_responses db) + 1)]"
    by (simp add: answered_by_def)
  obtain db2 where 2: "UncompleteTaskItem e i ?db1 = Some db2"
    "tb_rows (db_tasks db2) = tb_rows (db_tasks db)" "tb_rows (db_responses db2) = tb_rows (db_responses db)"
  proof
    show "UncompleteTaskItem e i ?db1 = Some ((on_tasks (update_tab (\<lambda>r. ti_id r = i)
             (\<lambda>r. r\<lparr>ti_completed := 0, ti_completed_at := None, ti_completed_by := None\<rparr>)) ?db1)
             \<lparr>db_responses := delete_tab (\<lambda>r. tr_item_id r = i \<and> tr_status r = ''done'' \<and> tr_attendance_id r = Some 0)
                (db_responses ?db1)\<rparr>)"
      by (simp add: UncompleteTaskItem_def assms(1))
  next
    have c: "ti_id (completed_row e by t) = ti_id t" for t by (simp add: completed_row_def)
    show "tb_rows (db_tasks ((on_tasks (update_tab (\<lambda>r. ti_id r = i)
             (\<lambda>r. r\<lparr>ti_completed := 0, ti_completed_at := None, ti_completed_by := None\<rparr>)) ?db1)
             \<lparr>db_responses := delete_tab (\<lambda>r. tr_item_id r = i \<and> tr_status r = ''done'' \<and> tr_attendance_id r = Some 0)
                (db_responses ?db1)\<rparr>)) = tb_rows (db_tasks db)"
      using re by (auto simp: update_where_def c intro!: map_idI)
  next
    show "tb_rows (db_responses ((on_tasks (update_tab (\<lambda>r. ti_id r = i)
             (\<lambda>r. r\<lparr>ti_completed := 0, ti_completed_at := None, ti_completed_by := None\<rparr>)) ?db1)
             \<lparr>db_responses := delete_tab (\<lambda>r. tr_item_id r = i \<and> tr_status r = ''done'' \<and> tr_attendance_id r = Some 0)
                (db_responses ?db1)\<rparr>)) = tb_rows (db_responses db)"
      using assms(9) x by (simp add: rows)
  qed
  have closed: "\<not> due_row e ?db1 sid d date t" if member: "t \<in> set (tb_rows (db_tasks ?db1))" "ti_id t = i" for t d date
  proof -
    obtain u where u: "u \<in> set (tb_rows (db_tasks db))" "t = (if ti_id u = i then completed_row e by u else u)"
    proof -
      have "t \<in> (\<lambda>u. if ti_id u = i then completed_row e by u else u) ` set (tb_rows (db_tasks db))"
        using member(1) by (simp only: answered_by_keeps on_tasks_simps update_tab_simps set_update_where)
      then show thesis using that by blast
    qed
    have "ti_id u = i" using u(2) member(2) by (simp add: completed_row_def split: if_splits)
    then have "t = completed_row e by r" using u only by simp
    then have "\<not> due_visible ?db1 sid t" using assms(3) by (simp add: due_visible_def completed_row_def)
    then show ?thesis by (simp add: due_row_def)
  qed
  show ?thesis using 1 2 closed by blast
qed

section \<open>Examples\<close>

definition blank_item :: task_item where
  "blank_item = \<lparr>tk_ID = 0, tk_Scope = 3, tk_ScheduleID = [], tk_StudentID = ''S001'', tk_Type = ''todo'', tk_Name = ''reading'',
     tk_Notes = [], tk_StartDate = [], tk_EndDate = [], tk_Priority = ''medium'', tk_Recurrence = ''weekly'', tk_Category = [],
     tk_Criteria = [], tk_GroupID = [], tk_GroupOrder = 0, tk_CreatedBy = ''admin'', tk_OwnerType = ''admin'',
     tk_Completed = False, tk_CompletedAt = [], tk_CompletedBy = [], tk_Active = True, tk_Deleted = False,
     tk_DeletedAt = [], tk_DeletedBy = [], tk_CreatedAt = [], tk_UpdatedAt = []\<rparr>"

definition reading :: task_row where
  "reading = mk_task (task_row_of (demo_env noon) blank_item) 1"

definition reading_db :: classdb where
  "reading_db = empty_db\<lparr>db_tasks := \<lparr>tb_rows = [reading], tb_seq = 1\<rparr>\<rparr>"

definition reading_done :: response_row where
  "reading_done = (new_response (demo_env noon) ''S001'' ''Alice Wang'' ''personal'' 1 ''reading'' ''done'' None (Some 0))"

lemma fmt_ok_jan: "fmt_ok jan12" "fmt_ok (jan12 + 6)" "fmt_ok (jan12 + 7)"
  by (simp_all add: fmt_ok_def jan12_def)

theorem signoff_lasts_its_period_witness:
  "\<exists>due. GetDueItems (demo_env noon) reading_db ''S001'' (fmt_date (jan12 + 6)) = Some due
     \<and> GetDueItems (demo_env noon) (answered_by reading_done reading_db) ''S001'' (fmt_date (jan12 + 6)) =
         Some (filter (\<lambda>it. \<not> (di_ItemID it = 1 \<and> same_period (di_Recurrence it) jan12 (jan12 + 6))) due)"
proof -
  have x: "tr_student_id reading_done = ''S001''" "tr_item_id reading_done = 1" "tr_status reading_done = ''done''"
    "response_day reading_done = fmt_date jan12"
    by (simp_all add: reading_done_def new_response_def response_day_def demo_today jan12_date)
  show ?thesis
    using signoff_lasts_its_period [of "demo_env noon" "jan12 + 6" jan12 reading_done reading_db] x fmt_ok_jan
    by (simp add: demo_env_def)
qed

theorem complete_uncomplete_roundtrip_witness:
  "\<exists>db1 db2. CompleteTaskItem (demo_env noon) 1 ''S001'' reading_db = Some db1
     \<and> UncompleteTaskItem (demo_env noon) 1 db1 = Some db2 \<and> tb_rows (db_tasks db2) = [reading]"
proof -
  have r: "task_by_id reading_db 1 = Some reading" "ti_scope reading = 3" "ti_student_id reading = Some ''S001''"
    "keys_ok ti_id (db_tasks reading_db)" "ti_completed reading = 0" "ti_completed_at reading = None"
    "ti_completed_by reading = None" "tb_rows (db_responses reading_db) = []" "tb_rows (db_tasks reading_db) = [reading]"
    by (simp_all add: task_by_id_def reading_db_def reading_def mk_task_def task_row_of_def blank_item_def nullStr_def
        keys_ok_def empty_db_def empty_tab_def)
  have "ev_faults (demo_env noon) = no_faults" by (simp add: demo_env_def)
  from complete_uncomplete_roundtrip [OF this r(1-7), of "''S001''"] r(8,9) show ?thesis by auto
qed

end
