(* ===== verification/Accounts.thy ===== *)
theory Accounts
  imports App
begin

text \<open>
  Who a request is: the authentication middlewares, login, signup and account switching
  (\<open>internal/handlers/app.go\<close>, \<open>account.go\<close>) over the session store of \<open>Sessions\<close>. The operating
  system's password check, bcrypt and the random token come from the environment.
\<close>

section \<open>The session of a request\<close>

definition GetSessionToken :: "request \<Rightarrow> string" where
  "GetSessionToken r = (case rq_Cookie r of None \<Rightarrow> [] | Some c \<Rightarrow> c)"

definition on_sessions :: "(sessions \<Rightarrow> 'b \<times> sessions) \<Rightarrow> app \<Rightarrow> 'b \<times> app" where
  "on_sessions f a = (let (x, st) = f (ap_Sessions a) in (x, a\<lparr>ap_Sessions := st\<rparr>))"

definition Sessions_Get :: "env \<Rightarrow> string \<Rightarrow> app \<Rightarrow> session option \<times> app" where
  "Sessions_Get e token = on_sessions (Get (ev_nanos e) token)"

definition GetSession :: "env \<Rightarrow> request \<Rightarrow> app \<Rightarrow> session option \<times> app" where
  "GetSession e r a = (if GetSessionToken r = [] then (None, a) else Sessions_Get e (GetSessionToken r) a)"

section \<open>Middlewares\<close>

definition RequireAuth :: "env \<Rightarrow> request \<Rightarrow> app \<Rightarrow> gate \<times> app" where
  "RequireAuth e r a =
     (let token = GetSessionToken r in
      if token = [] then (Answers (http_Redirect ''/login''), a)
      else let (sess, a) = Sessions_Get e token a in
           (if sess = None then Answers (with_cookie ClearsCookie (http_Redirect ''/login'')) else Passes, a))"

definition RequireAdmin :: "env \<Rightarrow> request \<Rightarrow> app \<Rightarrow> gate \<times> app" where
  "RequireAdmin e r a =
     (let token = GetSessionToken r in
      if token = [] then (Answers (http_Redirect ''/admin/login''), a)
      else let (sess, a) = Sessions_Get e token a in
           (case sess of
              None \<Rightarrow> Answers (http_Redirect ''/admin/login'')
            | Some s \<Rightarrow> if ss_Role s \<noteq> ''admin'' then Answers (http_Redirect ''/admin/login'') else Passes, a))"

definition api_error :: "nat \<Rightarrow> string \<Rightarrow> response" where
  "api_error status msg = writeJSON status [(''error'', JStr msg)]"

definition RequireAdminAPI :: "env \<Rightarrow> request \<Rightarrow> app \<Rightarrow> gate \<times> app" where
  "RequireAdminAPI e r a =
     (let token = GetSessionToken r in
      if token = [] then (Answers (api_error 401 ''Authentication required''), a)
      else let (sess, a) = Sessions_Get e token a in
           (case sess of
              None \<Rightarrow> Answers (api_error 401 ''Session expired'')
            | Some s \<Rightarrow> if ss_Role s \<noteq> ''admin'' then Answers (api_error 403 ''Admin access required'') else Passes, a))"

definition RequireSuperAdminAPI :: "env \<Rightarrow> request \<Rightarrow> app \<Rightarrow> gate \<times> app" where
  "RequireSuperAdminAPI e r a =
     (let token = GetSessionToken r in
      if token = [] then (Answers (api_error 401 ''Authentication required''), a)
      else let (sess, a) = Sessions_Get e token a in
           (case sess of
              None \<Rightarrow> Answers (api_error 401 ''Session expired'')
            | Some s \<Rightarrow> if ss_Role s \<noteq> ''admin'' \<or> \<not> ss_IsSuperAdmin s
                        then Answers (api_error 403 ''Superadmin access required'') else Passes, a))"

definition getAdminRole :: "app \<Rightarrow> string \<Rightarrow> string" where
  "getAdminRole a username =
     (if username = ap_ProcessUser a then ''superadmin''
      else case List.find (\<lambda>m. adm_Username m = username) (ap_Administrators a) of
             Some m \<Rightarrow> if adm_Role m = ''superadmin'' \<or> adm_Role m = ''admin'' then adm_Role m else ''admin''
           | None \<Rightarrow> [])"

definition role_home :: "string \<Rightarrow> string" where
  "role_home role = (if role = ''admin'' then ''/admin'' else if role = ''guest'' then ''/kiosk'' else ''/home'')"

definition HandleLogin :: "env \<Rightarrow> request \<Rightarrow> app \<Rightarrow> response \<times> app" where
  "HandleLogin e r a =
     (if rq_Method r \<noteq> ''GET'' then (method_not_allowed, a)
      else if GetSessionToken r = [] then (http_Redirect ''/?mode=login'', a)
      else let (sess, a) = Sessions_Get e (GetSessionToken r) a in
           (case sess of Some s \<Rightarrow> http_Redirect (role_home (ss_Role s)) | None \<Rightarrow> http_Redirect ''/?mode=login'', a))"

definition HandleAdminLogin :: "env \<Rightarrow> request \<Rightarrow> app \<Rightarrow> response \<times> app" where
  "HandleAdminLogin e r a =
     (let (sess, a) = GetSession e r a in
      (case sess of
         Some s \<Rightarrow> if ss_Role s = ''admin'' then http_Redirect ''/admin''
                   else \<lparr>rs_status = 200, rs_cookies = [], rs_body = Page ''admin_login.html''\<rparr>
       | None \<Rightarrow> \<lparr>rs_status = 200, rs_cookies = [], rs_body = Page ''admin_login.html''\<rparr>, a))"

section \<open>Adding an identity to the browser's session\<close>

text \<open>
  The result is the token, whether a cookie was set, and the state. A live session takes the
  identity and makes it the active one; otherwise a new session is made for it.
\<close>

definition new_session :: "env \<Rightarrow> identity \<Rightarrow> sessions \<Rightarrow> sessions" where
  "new_session e idn st =
     (let st = CreateWithDisplayName (ev_nanos e) (ev_token e) (id_Username idn) (id_Role idn) (id_UserType idn)
                 (id_EntityID idn) (id_DisplayName idn) st
      in if id_IsSuperAdmin idn then SetSuperAdmin (ev_token e) st else st)"

definition addOrCreateSession :: "env \<Rightarrow> request \<Rightarrow> identity \<Rightarrow> sessions \<Rightarrow> (string \<times> bool) \<times> sessions" where
  "addOrCreateSession e r idn st =
     (let token = GetSessionToken r in
      if token = [] then ((ev_token e, True), new_session e idn st)
      else case Get (ev_nanos e) token st of
        (None, st) \<Rightarrow> ((ev_token e, True), new_session e idn st)
      | (Some _, st) \<Rightarrow>
          (case AddIdentity token idn st of
             (Inl _, st) \<Rightarrow> ((ev_token e, True), new_session e idn st)
           | (Inr idx, st) \<Rightarrow> ((token, False), snd (SwitchIdentity token (int idx) st))))"

definition login_response :: "string \<times> bool \<Rightarrow> response \<Rightarrow> response" where
  "login_response t resp = (if snd t then with_cookie (SetsCookie (fst t)) resp else resp)"

definition HandleLogout :: "request \<Rightarrow> app \<Rightarrow> response \<times> app" where
  "HandleLogout r a =
     (with_cookie ClearsCookie (http_Redirect ''/login''),
      if GetSessionToken r \<noteq> [] then a\<lparr>ap_Sessions := Delete (GetSessionToken r) (ap_Sessions a)\<rparr> else a)"

section \<open>Admin login\<close>

definition admin_identity :: "string \<Rightarrow> string \<Rightarrow> identity" where
  "admin_identity username adminRole =
     \<lparr>id_Username = username, id_Role = ''admin'', id_UserType = [], id_EntityID = [],
      id_IsSuperAdmin = (adminRole = ''superadmin''), id_DisplayName = username\<rparr>"

definition HandleAdminLoginAPI :: "env \<Rightarrow> request \<Rightarrow> (string \<times> string) option \<Rightarrow> app \<Rightarrow> response \<times> app" where
  "HandleAdminLoginAPI e r req a =
     (if rq_Method r \<noteq> ''POST'' then (method_not_allowed, a)
      else case req of
        None \<Rightarrow> (json_error 400 ''Invalid request'', a)
      | Some (username, password) \<Rightarrow>
          if username = [] \<or> password = [] then (json_error 400 ''Username and password required'', a)
          else if \<not> ev_authenticate e username password then (json_error 401 ''Invalid credentials'', a)
          else let adminRole = getAdminRole a username in
            if adminRole = [] then (json_error 403 ''Access denied. User not authorized as administrator.'', a)
            else let (t, st) = addOrCreateSession e r (admin_identity username adminRole) (ap_Sessions a);
                     st = (if adminRole = ''superadmin'' then SetSuperAdmin (fst t) st else st)
                 in (login_response t (writeJSON 200 [(''ok'', JBool True), (''role'', JStr ''admin''), (''redirect'', JStr ''/admin'')]),
                     a\<lparr>ap_Sessions := st\<rparr>))"

section \<open>User login, first password and signup\<close>

definition GetUser :: "app \<Rightarrow> string \<Rightarrow> memos_user option" where
  "GetUser a username = List.find (\<lambda>u. mu_Username u = username) (ap_Users a)"

text \<open>An account that exists is returned as it is; the password is only used for a new one.\<close>

definition EnsureUser :: "env \<Rightarrow> string \<Rightarrow> string \<Rightarrow> string \<Rightarrow> string \<Rightarrow> app \<Rightarrow> app option" where
  "EnsureUser e username nickname email password a =
     (case GetUser a username of
        Some u \<Rightarrow> Some a
      | None \<Rightarrow>
          (case ev_bcrypt e password of
             None \<Rightarrow> None
           | Some hash \<Rightarrow> Some (a\<lparr>ap_Users := ap_Users a @
               [\<lparr>mu_Username = username, mu_Nickname = nickname, mu_Email = email, mu_PasswordHash = hash\<rparr>]\<rparr>)))"

definition user_identity :: "string \<Rightarrow> string \<Rightarrow> string \<Rightarrow> string \<Rightarrow> identity" where
  "user_identity username userType entityID displayName =
     \<lparr>id_Username = username, id_Role = ''user'', id_UserType = userType, id_EntityID = entityID,
      id_IsSuperAdmin = False, id_DisplayName = displayName\<rparr>"

record login_request =
  lr_EntityID :: string
  lr_Password :: string
  lr_Action :: string
  lr_FirstName :: string
  lr_LastName :: string

definition finish_login :: "env \<Rightarrow> request \<Rightarrow> identity \<Rightarrow> string \<Rightarrow> app \<Rightarrow> response \<times> app" where
  "finish_login e r idn redirect a =
     (let (t, st) = addOrCreateSession e r idn (ap_Sessions a)
      in (login_response t (writeJSON 200 [(''ok'', JBool True), (''role'', JStr ''user''), (''redirect'', JStr redirect)]),
          a\<lparr>ap_Sessions := st\<rparr>))"

definition login_check :: "login_request \<Rightarrow> app \<Rightarrow> response" where
  "login_check q a =
     (if lr_EntityID q = [] then json_error 400 ''Entity ID required''
      else let user = GetUser a (to_lower (lr_EntityID q));
               hasPassword = (case user of None \<Rightarrow> False | Some u \<Rightarrow> mu_PasswordHash u \<noteq> [])
           in writeJSON 200 [(''ok'', JBool True), (''has_password'', JBool hasPassword)])"

definition login_setup :: "env \<Rightarrow> request \<Rightarrow> login_request \<Rightarrow> app \<Rightarrow> response \<times> app" where
  "login_setup e r q a =
     (if lr_EntityID q = [] \<or> lr_Password q = [] then (json_error 400 ''ID and password required'', a)
      else if length (lr_Password q) < 4 then (json_error 400 ''Password must be at least 4 characters'', a)
      else let (name, email) = lookupEntity (ap_DB a) (lr_EntityID q) in
        if name = [] then (json_error 200 ''User not found'', a)
        else let username = to_lower (lr_EntityID q) in
          case EnsureUser e username name email (lr_Password q) a of
            None \<Rightarrow> (json_error 500 ''Failed to create account'', a)
          | Some a \<Rightarrow>
              finish_login e r (user_identity username (detectUserType (ap_DB a) (lr_EntityID q)) (lr_EntityID q) name)
                ''/profile'' a)"

definition login_login :: "env \<Rightarrow> request \<Rightarrow> login_request \<Rightarrow> app \<Rightarrow> response \<times> app" where
  "login_login e r q a =
     (if lr_EntityID q = [] \<or> lr_Password q = [] then (json_error 400 ''ID and password required'', a)
      else let username = to_lower (lr_EntityID q) in
        case GetUser a username of
          None \<Rightarrow> (json_error 401 ''Invalid credentials'', a)
        | Some user \<Rightarrow>
            if \<not> ev_bcrypt_ok e (mu_PasswordHash user) (lr_Password q) then (json_error 401 ''Invalid credentials'', a)
            else let userType = detectUserType (ap_DB a) (lr_EntityID q);
                     displayName = (if mu_Nickname user = [] then fst (lookupEntity (ap_DB a) (lr_EntityID q)) else mu_Nickname user)
                 in finish_login e r (user_identity username userType (lr_EntityID q) displayName) ''/home'' a)"

text \<open>Signup: the student found by name or created, and the account for it.\<close>

definition signup_entity ::
  "(student_row list \<Rightarrow> student_row) \<Rightarrow> env \<Rightarrow> login_request \<Rightarrow> classdb \<Rightarrow> string \<times> classdb" where
  "signup_entity pick e q db =
     (let found = findEntityByName db (lr_FirstName q) (lr_LastName q)
      in if found = [] then createStudent pick e (lr_FirstName q) (lr_LastName q) db else (found, db))"

definition signup_account :: "env \<Rightarrow> request \<Rightarrow> login_request \<Rightarrow> string \<Rightarrow> app \<Rightarrow> response \<times> app" where
  "signup_account e r q entityID a =
     (let username = to_lower entityID in
      if (case GetUser a username of None \<Rightarrow> False | Some u \<Rightarrow> mu_PasswordHash u \<noteq> [])
      then (json_error 200 ''Account already exists. If you forgot your password, please check with your administrator.'', a)
      else let found = lookupEntity (ap_DB a) entityID;
               name = (if fst found \<noteq> [] then fst found else full_name (lr_FirstName q) (lr_LastName q));
               email = (if fst found \<noteq> [] then snd found else [])
           in case EnsureUser e username name email (lr_Password q) a of
                None \<Rightarrow> (json_error 500 ''Failed to create account'', a)
              | Some a \<Rightarrow>
                  finish_login e r (user_identity username (detectUserType (ap_DB a) entityID) entityID name) ''/profile'' a)"

definition login_signup ::
  "(student_row list \<Rightarrow> student_row) \<Rightarrow> env \<Rightarrow> request \<Rightarrow> login_request \<Rightarrow> app \<Rightarrow> response \<times> app" where
  "login_signup pick e r q a =
     (if lr_FirstName q = [] \<or> lr_LastName q = [] then (json_error 400 ''First name and last name are required'', a)
      else if length (lr_Password q) < 4 then (json_error 400 ''Password must be at least 4 characters'', a)
      else let (entityID, db) = signup_entity pick e q (ap_DB a); a = a\<lparr>ap_DB := db\<rparr>
           in if entityID = [] then (json_error 500 ''Failed to create student record'', a)
              else signup_account e r q entityID a)"

definition HandleLoginAPI ::
  "(student_row list \<Rightarrow> student_row) \<Rightarrow> env \<Rightarrow> request \<Rightarrow> login_request option \<Rightarrow> app \<Rightarrow> response \<times> app" where
  "HandleLoginAPI pick e r req a =
     (if rq_Method r \<noteq> ''POST'' then (method_not_allowed, a)
      else case req of
        None \<Rightarrow> (json_error 400 ''Invalid request'', a)
      | Some q \<Rightarrow>
          if lr_Action q = ''check'' then (login_check q a, a)
          else if lr_Action q = ''setup'' then login_setup e r q a
          else if lr_Action q = ''login'' \<or> lr_Action q = [] then login_login e r q a
          else if lr_Action q = ''signup'' then login_signup pick e r q a
          else (json_error 400 ''Unknown action'', a))"

section \<open>Account switching\<close>

definition identity_json :: "identity \<Rightarrow> jval" where
  "identity_json i = JObj ([(''username'', JStr (id_Username i)), (''role'', JStr (id_Role i)),
     (''user_type'', JStr (id_UserType i)), (''entity_id'', JStr (id_EntityID i))]
     @ (if id_IsSuperAdmin i then [(''is_super_admin'', JBool True)] else [])
     @ [(''display_name'', JStr (id_DisplayName i))])"

definition session_error_text :: "session_error \<Rightarrow> string" where
  "session_error_text err = (case err of
     SessionNotFound \<Rightarrow> ''session not found''
   | IndexOutOfRange i n \<Rightarrow> ''identity index '' @ itoa i @ '' out of range (have '' @ dec n @ '')'')"

definition HandleAccountList :: "env \<Rightarrow> request \<Rightarrow> app \<Rightarrow> response \<times> app" where
  "HandleAccountList e r a =
     (if GetSessionToken r = [] then (json_error 401 ''Not authenticated'', a)
      else let (sess, a) = Sessions_Get e (GetSessionToken r) a in
        (case sess of
           None \<Rightarrow> json_error 401 ''Session expired''
         | Some s \<Rightarrow> writeJSON 200 [(''ok'', JBool True), (''identities'', JArr (map identity_json (ss_Identities s))),
             (''active_index'', JInt (ss_ActiveIndex s))], a))"

definition HandleAccountSwitch :: "env \<Rightarrow> request \<Rightarrow> int option \<Rightarrow> app \<Rightarrow> response \<times> app" where
  "HandleAccountSwitch e r req a =
     (if rq_Method r \<noteq> ''POST'' then (method_not_allowed, a)
      else let token = GetSessionToken r in
        if token = [] then (json_error 401 ''Not authenticated'', a)
        else case req of
          None \<Rightarrow> (json_error 400 ''Invalid request'', a)
        | Some index \<Rightarrow>
            (case on_sessions (SwitchIdentity token index) a of
               (Inl err, a) \<Rightarrow> (json_error 400 (session_error_text err), a)
             | (Inr _, a) \<Rightarrow>
                 let (sess, a) = Sessions_Get e token a;
                     active = Active (case sess of None \<Rightarrow> no_session | Some s \<Rightarrow> s)
                 in (writeJSON 200 [(''ok'', JBool True), (''active'', identity_json active),
                       (''redirect'', JStr (role_home (id_Role active)))], a)))"

definition HandleAccountRemove :: "env \<Rightarrow> request \<Rightarrow> int option \<Rightarrow> app \<Rightarrow> response \<times> app" where
  "HandleAccountRemove e r req a =
     (if rq_Method r \<noteq> ''POST'' then (method_not_allowed, a)
      else let token = GetSessionToken r in
        if token = [] then (json_error 401 ''Not authenticated'', a)
        else case req of
          None \<Rightarrow> (json_error 400 ''Invalid request'', a)
        | Some index \<Rightarrow>
            (case on_sessions (RemoveIdentity token index) a of
               (Inl err, a) \<Rightarrow> (json_error 400 (session_error_text err), a)
             | (Inr hasMore, a) \<Rightarrow>
                 if \<not> hasMore
                 then (with_cookie ClearsCookie (writeJSON 200 [(''ok'', JBool True), (''redirect'', JStr ''/login'')]), a)
                 else let (sess, a) = Sessions_Get e token a;
                          s = (case sess of None \<Rightarrow> no_session | Some s \<Rightarrow> s)
                      in (writeJSON 200 [(''ok'', JBool True), (''identities'', JArr (map identity_json (ss_Identities s))),
                            (''active_index'', JInt (ss_ActiveIndex s))], a)))"

record account_request =
  ar_Type :: string
  ar_Username :: string
  ar_EntityID :: string
  ar_Password :: string

text \<open>The common end of the three cases: add the identity, switch to it, answer.\<close>

definition add_and_switch :: "string \<Rightarrow> identity \<Rightarrow> string \<Rightarrow> app \<Rightarrow> response \<times> app" where
  "add_and_switch token idn redirect a =
     (case on_sessions (AddIdentity token idn) a of
        (Inl err, a) \<Rightarrow> (json_error 500 (session_error_text err), a)
      | (Inr idx, a) \<Rightarrow>
          (writeJSON 200 [(''ok'', JBool True), (''index'', JInt (int idx)), (''redirect'', JStr redirect)],
           snd (on_sessions (SwitchIdentity token (int idx)) a)))"

definition HandleAccountAdd :: "env \<Rightarrow> request \<Rightarrow> account_request option \<Rightarrow> app \<Rightarrow> response \<times> app" where
  "HandleAccountAdd e r req a =
     (if rq_Method r \<noteq> ''POST'' then (method_not_allowed, a)
      else let token = GetSessionToken r in
        if token = [] then (json_error 401 ''Not authenticated'', a)
        else let (sess, a) = Sessions_Get e token a in
          if sess = None then (json_error 401 ''Session expired'', a)
          else case req of
            None \<Rightarrow> (json_error 400 ''Invalid request'', a)
          | Some q \<Rightarrow>
              if ar_Type q = ''guest'' then add_and_switch token GuestIdentity ''/kiosk'' a
              else if ar_Type q = ''admin'' then
                if ar_Username q = [] \<or> ar_Password q = [] then (json_error 400 ''Username and password required'', a)
                else if \<not> ev_authenticate e (ar_Username q) (ar_Password q) then (json_error 401 ''Invalid credentials'', a)
                else let adminRole = getAdminRole a (ar_Username q) in
                  if adminRole = [] then (json_error 403 ''Not authorized as administrator'', a)
                  else add_and_switch token (admin_identity (ar_Username q) adminRole) ''/admin'' a
              else if ar_Type q = ''user'' then
                if ar_EntityID q = [] \<or> ar_Password q = [] then (json_error 400 ''ID and password required'', a)
                else let username = to_lower (ar_EntityID q) in
                  (case GetUser a username of
                     None \<Rightarrow> (json_error 401 ''Invalid credentials'', a)
                   | Some user \<Rightarrow>
                       if \<not> ev_bcrypt_ok e (mu_PasswordHash user) (ar_Password q) then (json_error 401 ''Invalid credentials'', a)
                       else let userType = detectUserType (ap_DB a) (ar_EntityID q);
                                displayName = (if mu_Nickname user = [] then fst (lookupEntity (ap_DB a) (ar_EntityID q)) else mu_Nickname user)
                            in add_and_switch token (user_identity username userType (ar_EntityID q) displayName) ''/home'' a)
              else (json_error 400 (''Invalid type, must be 'admin', 'user', or 'guest'' @ [CHR 0x27]), a))"

end
