(* ===== verification/Access.thy ===== *)
theory Access
  imports Accounts
begin

text \<open>
  What the session store and the login handlers guarantee: the store as an interface (a locale, with
  the client lemmas every caller uses), the invariant of all runs, and who can pass the middlewares.
\<close>

section \<open>The store as an interface\<close>

text \<open>
  The callers of the store see, for each token, the identities of the session and the active one.
  Adding an identity replaces the one with its user name and role or appends it; switching selects
  a position; neither touches another session.
\<close>

locale identity_store =
  fixes inv :: "'s \<Rightarrow> bool"
    and view :: "'s \<Rightarrow> string \<Rightarrow> (identity list \<times> nat) option"
    and add :: "string \<Rightarrow> identity \<Rightarrow> 's \<Rightarrow> (session_error + nat) \<times> 's"
    and switch :: "string \<Rightarrow> int \<Rightarrow> 's \<Rightarrow> (session_error + unit) \<times> 's"
  assumes view_ok: "inv s \<Longrightarrow> view s t = Some (ids, i) \<Longrightarrow> i < length ids \<and> distinct (map id_key ids)"
    and add_inv: "inv s \<Longrightarrow> inv (snd (add t idn s))"
    and add_view: "inv s \<Longrightarrow> view s t = Some (ids, i) \<Longrightarrow>
      \<exists>k ids'. fst (add t idn s) = Inr k \<and> view (snd (add t idn s)) = (view s)(t \<mapsto> (ids', i))
        \<and> k < length ids' \<and> ids' ! k = idn \<and> (\<forall>j. j < length ids \<and> id_key (ids ! j) \<noteq> id_key idn \<longrightarrow> ids' ! j = ids ! j)"
    and switch_inv: "inv s \<Longrightarrow> inv (snd (switch t j s))"
    and switch_view: "inv s \<Longrightarrow> view s t = Some (ids, i) \<Longrightarrow> k < length ids \<Longrightarrow>
      fst (switch t (int k) s) = Inr () \<and> view (snd (switch t (int k) s)) = (view s)(t \<mapsto> (ids, k))"
begin

definition active :: "'s \<Rightarrow> string \<Rightarrow> identity option" where
  "active s t = map_option (\<lambda>(ids, i). ids ! i) (view s t)"

lemma add_switch_active:
  assumes "inv s" "view s t \<noteq> None" "fst (add t idn s) = Inr k"
  shows "active (snd (switch t (int k) (snd (add t idn s)))) t = Some idn"
    and "t' \<noteq> t \<Longrightarrow> view (snd (switch t (int k) (snd (add t idn s)))) t' = view s t'"
    and "inv (snd (switch t (int k) (snd (add t idn s))))"
proof -
  obtain ids i where v: "view s t = Some (ids, i)" using assms(2) by auto
  obtain ids' where a: "view (snd (add t idn s)) = (view s)(t \<mapsto> (ids', i))" "k < length ids'" "ids' ! k = idn"
    using add_view [OF assms(1) v, of idn] assms(3) by auto
  have sw: "view (snd (switch t (int k) (snd (add t idn s)))) = (view s)(t \<mapsto> (ids', k))"
    using switch_view [OF add_inv [OF assms(1), of t idn], of t ids' i k] a by simp
  show "active (snd (switch t (int k) (snd (add t idn s)))) t = Some idn"
    by (simp add: active_def sw a)
  show "t' \<noteq> t \<Longrightarrow> view (snd (switch t (int k) (snd (add t idn s)))) t' = view s t'"
    by (simp add: sw)
  show "inv (snd (switch t (int k) (snd (add t idn s))))"
    by (intro switch_inv add_inv assms(1))
qed

end

section \<open>The store implements it\<close>

definition session_view :: "sessions \<Rightarrow> string \<Rightarrow> (identity list \<times> nat) option" where
  "session_view st t = map_option (\<lambda>s. (ss_Identities s, nat (ss_ActiveIndex s))) (st t)"

lemma sessions_ok_Add: "sessions_ok st \<Longrightarrow> sessions_ok (snd (AddIdentity t idn st))"
  by (auto simp: AddIdentity_def intro!: sessions_ok_upd session_ok_add split: option.split)

lemma sessions_ok_Switch: "sessions_ok st \<Longrightarrow> sessions_ok (snd (SwitchIdentity t i st))"
  by (auto simp: SwitchIdentity_def session_ok_def intro!: sessions_ok_upd session_ok_sync split: option.split)

lemma sessions_ok_Remove: "sessions_ok st \<Longrightarrow> sessions_ok (snd (RemoveIdentity t i st))"
proof (cases "st t")
  case (Some s)
  assume st: "sessions_ok st"
  then have s: "session_ok s" using Some by blast
  show ?thesis
  proof (cases "in_range i (ss_Identities s) \<and> remove_nth (nat i) (ss_Identities s) \<noteq> []")
    case True
    with remove_nth_adjust(1) [OF s, of i] Some st show ?thesis
      by (simp add: RemoveIdentity_def Let_def sessions_ok_upd session_ok_sync)
  next
    case False
    with Some st show ?thesis by (auto simp: RemoveIdentity_def Let_def intro: sessions_ok_del)
  qed
qed (simp add: RemoveIdentity_def)

lemma sessions_ok_Get: "sessions_ok st \<Longrightarrow> sessions_ok (snd (Get now t st))"
  by (auto simp: Get_def Delete_def intro: sessions_ok_del split: option.split)

lemma sessions_ok_Create: "sessions_ok st \<Longrightarrow> sessions_ok (CreateWithDisplayName now t u r ut i d st)"
  by (auto simp: CreateWithDisplayName_def Let_def session_ok_def in_range_def intro!: sessions_ok_upd session_ok_sync)

lemma sessions_ok_SetSuperAdmin:
  assumes "sessions_ok st"
  shows "sessions_ok (SetSuperAdmin t st)"
proof (cases "st t")
  case (Some s)
  then have s: "session_ok s" using assms by blast
  let ?i = "nat (ss_ActiveIndex s)"
  have "map id_key ((ss_Identities s)[?i := (ss_Identities s ! ?i)\<lparr>id_IsSuperAdmin := True\<rparr>]) = map id_key (ss_Identities s)"
    using s by (intro map_key_update) (auto simp: session_ok_def in_range_def id_key_def)
  with s have "session_ok (s\<lparr>ss_Identities := (ss_Identities s)[?i := (ss_Identities s ! ?i)\<lparr>id_IsSuperAdmin := True\<rparr>],
      ss_IsSuperAdmin := True\<rparr>)"
    by (auto simp: session_ok_def in_range_def)
  with s Some assms show ?thesis
    by (auto simp: SetSuperAdmin_def Let_def session_ok_def in_range_def intro!: sessions_ok_upd)
qed (simp add: SetSuperAdmin_def assms)

lemmas sessions_ok_ops = sessions_ok_Add sessions_ok_Switch sessions_ok_Remove sessions_ok_Get
  sessions_ok_Create sessions_ok_SetSuperAdmin sessions_ok_del

interpretation store: identity_store sessions_ok session_view AddIdentity SwitchIdentity
proof
  fix st :: sessions and t ids i
  assume "sessions_ok st" "session_view st t = Some (ids, i)"
  then obtain s where "session_ok s" "ids = ss_Identities s" "i = nat (ss_ActiveIndex s)"
    by (auto simp: session_view_def)
  then show "i < length ids \<and> distinct (map id_key ids)"
    by (simp add: session_ok_def in_range_def nat_less_iff)
next
  fix st :: sessions and t idn ids i
  assume st: "sessions_ok st" "session_view st t = Some (ids, i)"
  then obtain s where s: "st t = Some s" "ids = ss_Identities s" "i = nat (ss_ActiveIndex s)"
    by (auto simp: session_view_def)
  show "\<exists>k ids'. fst (AddIdentity t idn st) = Inr k \<and> session_view (snd (AddIdentity t idn st)) = (session_view st)(t \<mapsto> (ids', i))
      \<and> k < length ids' \<and> ids' ! k = idn \<and> (\<forall>j. j < length ids \<and> id_key (ids ! j) \<noteq> id_key idn \<longrightarrow> ids' ! j = ids ! j)"
  proof (cases "find_identity idn (ss_Identities s)")
    case None
    with s show ?thesis
      by (intro exI [of _ "length ids"] exI [of _ "ids @ [idn]"])
        (auto simp: AddIdentity_def session_view_def fun_eq_iff nth_append)
  next
    case (Some k)
    with s find_identity_Some [OF Some] show ?thesis
      by (intro exI [of _ k] exI [of _ "ids[k := idn]"])
        (auto simp: AddIdentity_def session_view_def fun_eq_iff nth_list_update)
  qed
next
  fix st :: sessions and t ids i k
  assume st: "sessions_ok st" "session_view st t = Some (ids, i)" "k < length ids"
  then obtain s where s: "st t = Some s" "ids = ss_Identities s" "i = nat (ss_ActiveIndex s)"
    by (auto simp: session_view_def)
  with st(3) show "fst (SwitchIdentity t (int k) st) = Inr () \<and> session_view (snd (SwitchIdentity t (int k) st)) = (session_view st)(t \<mapsto> (ids, k))"
    by (auto simp: SwitchIdentity_def session_view_def in_range_def fun_eq_iff syncActive_def Let_def)
qed (auto intro: sessions_ok_ops)

lemma Get_active:
  assumes "sessions_ok st" "store.active st t = Some idn" "st t = Some s" "\<not> ss_ExpiresAt s < now"
  shows "Get now t st = (Some (syncActive s), st) \<and> Active (syncActive s) = idn"
proof -
  have s: "session_ok s" using assms(1,3) by blast
  moreover have "Active s = idn"
    using assms(2,3) by (simp add: store.active_def session_view_def Active_ok [OF s])
  ultimately show ?thesis using assms(3,4) by (simp add: Get_def syncActive_ok)
qed

lemma expiry_kept:
  "st t = Some s \<Longrightarrow> \<exists>s'. snd (AddIdentity t idn st) t = Some s' \<and> ss_ExpiresAt s' = ss_ExpiresAt s"
  "st t = Some s \<Longrightarrow> \<exists>s'. snd (SwitchIdentity t i st) t = Some s' \<and> ss_ExpiresAt s' = ss_ExpiresAt s"
  by (auto simp: AddIdentity_def SwitchIdentity_def split: option.split)

lemma view_None [simp]: "session_view st t = None \<longleftrightarrow> st t = None"
  by (simp add: session_view_def)

lemma new_session_at:
  "\<exists>s. new_session e idn st = st(ev_token e \<mapsto> s) \<and> ss_Identities s = [idn] \<and> ss_ActiveIndex s = 0
     \<and> ss_ExpiresAt s = ev_nanos e + SessionMaxAge"
  by (cases idn) (auto simp: new_session_def CreateWithDisplayName_def SetSuperAdmin_def Let_def
      syncActive_def no_session_def in_range_def)

lemma SessionMaxAge_pos: "0 < SessionMaxAge"
  by (simp add: SessionMaxAge_def)

lemma session_ok_single: "ss_Identities s = [idn] \<Longrightarrow> ss_ActiveIndex s = 0 \<Longrightarrow> session_ok s"
  by (simp add: session_ok_def in_range_def)

lemma addOrCreate_cases:
  assumes "sessions_ok st" "addOrCreateSession e r idn st = ((tk, new), st')"
  obtains
    (added) s where "\<not> new" "tk = GetSessionToken r" "st tk = Some s" "\<not> ss_ExpiresAt s < ev_nanos e"
      "\<exists>k. fst (AddIdentity tk idn st) = Inr k \<and> st' = snd (SwitchIdentity tk (int k) (snd (AddIdentity tk idn st)))"
  | (created) st0 where "new" "tk = ev_token e" "st' = new_session e idn st0"
      "st0 = st \<or> st0 = st(GetSessionToken r := None)"
proof -
  let ?t = "GetSessionToken r"
  show thesis
  proof (cases "\<exists>s. ?t \<noteq> [] \<and> st ?t = Some s \<and> \<not> ss_ExpiresAt s < ev_nanos e")
    case True
    then obtain s where s: "?t \<noteq> []" "st ?t = Some s" "\<not> ss_ExpiresAt s < ev_nanos e" by blast
    then have g: "Get (ev_nanos e) ?t st = (Some (syncActive s), st)" by (simp add: Get_def)
    obtain k st1 where k: "AddIdentity ?t idn st = (Inr k, st1)"
      using s(2) by (cases "find_identity idn (ss_Identities s)") (auto simp: AddIdentity_def)
    with g s assms(2) show thesis
      by (intro added [of s]) (auto simp: addOrCreateSession_def Let_def)
  next
    case False
    then have "addOrCreateSession e r idn st = ((ev_token e, True), new_session e idn st)
        \<or> addOrCreateSession e r idn st = ((ev_token e, True), new_session e idn (st(?t := None)))"
      by (auto simp: addOrCreateSession_def Let_def Get_def Delete_def split: option.split)
    with assms(2) show thesis by (auto intro: created)
  qed
qed

lemma addOrCreate_active:
  assumes "sessions_ok st" "addOrCreateSession e r idn st = ((tk, new), st')"
  shows "sessions_ok st' \<and> store.active st' tk = Some idn
      \<and> (\<exists>s. st' tk = Some s \<and> \<not> ss_ExpiresAt s < ev_nanos e)
      \<and> (\<forall>t. t \<noteq> tk \<longrightarrow> st' t = st t \<or> t = GetSessionToken r \<and> st' t = None)"
proof (cases rule: addOrCreate_cases [OF assms])
  case (1 s)
  then obtain k where k: "fst (AddIdentity tk idn st) = Inr k" "st' = snd (SwitchIdentity tk (int k) (snd (AddIdentity tk idn st)))"
    by blast
  have v: "session_view st tk \<noteq> None" using 1 by simp
  note sw = store.add_switch_active [OF assms(1) v k(1), folded k(2)]
  obtain s1 where "snd (AddIdentity tk idn st) tk = Some s1" "ss_ExpiresAt s1 = ss_ExpiresAt s"
    using expiry_kept(1) [where t = tk and st = st and idn = idn and s = s] 1(3) by blast
  then obtain s2 where s2: "st' tk = Some s2" "ss_ExpiresAt s2 = ss_ExpiresAt s"
    using expiry_kept(2) [where t = tk and i = "int k" and st = "snd (AddIdentity tk idn st)" and s = s1] k(2) by auto
  have "t \<noteq> tk \<Longrightarrow> st' t = st t" for t
    unfolding k(2) by (auto simp: AddIdentity_def SwitchIdentity_def split: option.split)
  then show ?thesis
    using sw(1,3) s2 1(4) by auto
next
  case (2 st0)
  obtain s where s: "st' = st0(ev_token e \<mapsto> s)" "ss_Identities s = [idn]" "ss_ActiveIndex s = 0"
    "ss_ExpiresAt s = ev_nanos e + SessionMaxAge"
    using new_session_at [of e idn st0] 2(3) by blast
  have "sessions_ok st0" using 2(4) assms(1) sessions_ok_del by blast
  then have "sessions_ok st'" using s session_ok_single [OF s(2,3)] by (simp add: sessions_ok_upd)
  with s 2 show ?thesis
    using SessionMaxAge_pos by (auto simp: store.active_def session_view_def split: if_splits)
qed

lemma addOrCreateSession_effect:
  assumes "sessions_ok st"
    and "addOrCreateSession e r idn st = ((token, is_new), st')"
  shows "\<exists>s. Get (ev_nanos e) token st' = (Some s, st') \<and> Active s = idn
     \<and> ss_Username s = id_Username idn \<and> ss_Role s = id_Role idn \<and> ss_UserType s = id_UserType idn
     \<and> ss_EntityID s = id_EntityID idn \<and> ss_IsSuperAdmin s = id_IsSuperAdmin idn"
    and "t \<noteq> token \<Longrightarrow> st' t = st t \<or> (t = GetSessionToken r \<and> st' t = None)"
proof -
  note ac = addOrCreate_active [OF assms]
  obtain s where s: "st' token = Some s" "\<not> ss_ExpiresAt s < ev_nanos e" using ac by blast
  have ok: "sessions_ok st'" "store.active st' token = Some idn" using ac by blast+
  then have "session_ok s" using s(1) by blast
  with Get_active [OF ok s] syncActive_ok [of s]
  show "\<exists>s. Get (ev_nanos e) token st' = (Some s, st') \<and> Active s = idn
     \<and> ss_Username s = id_Username idn \<and> ss_Role s = id_Role idn \<and> ss_UserType s = id_UserType idn
     \<and> ss_EntityID s = id_EntityID idn \<and> ss_IsSuperAdmin s = id_IsSuperAdmin idn"
    by (intro exI [of _ "syncActive s"]) auto
  show "t \<noteq> token \<Longrightarrow> st' t = st t \<or> (t = GetSessionToken r \<and> st' t = None)" using ac by blast
qed

text \<open>
  After a login, with or without a live session in the browser, the token the browser holds
  names a session whose active identity, and whose copied fields, are those of the login; no other
  session changes, except that the browser's own expired one is dropped.
\<close>

theorem login_makes_active:
  assumes "sessions_ok st"
    and "addOrCreateSession e r idn st = ((token, is_new), st')"
  shows "(\<exists>s. Get (ev_nanos e) token st' = (Some s, st') \<and> Active s = idn
       \<and> ss_Username s = id_Username idn \<and> ss_Role s = id_Role idn \<and> ss_UserType s = id_UserType idn
       \<and> ss_EntityID s = id_EntityID idn \<and> ss_IsSuperAdmin s = id_IsSuperAdmin idn)
     \<and> (\<forall>t. t \<noteq> token \<longrightarrow> st' t = st t \<or> (t = GetSessionToken r \<and> st' t = None))"
  using addOrCreateSession_effect [OF assms] by blast

text \<open>
  Removing an identity removes that one and no other. The person acting stays the same unless
  it was the active identity that was removed, and the session ends with its last identity.
\<close>

theorem remove_identity_exact:
  assumes "sessions_ok st" "st token = Some s" "0 \<le> index" "index < int (length (ss_Identities s))"
  shows "case RemoveIdentity token index st of (res, st') \<Rightarrow>
     (if length (ss_Identities s) = 1 then res = Inr False \<and> st' = st(token := None)
      else res = Inr True \<and> (\<exists>s'. st' = st(token \<mapsto> s') \<and> session_ok s'
        \<and> ss_Identities s' = take (nat index) (ss_Identities s) @ drop (Suc (nat index)) (ss_Identities s)
        \<and> (index \<noteq> ss_ActiveIndex s \<longrightarrow> Active s' = Active s)))"
proof -
  let ?ids = "remove_nth (nat index) (ss_Identities s)"
  have s: "session_ok s" and r: "in_range index (ss_Identities s)"
    using assms by (auto simp: in_range_def)
  have len: "length ?ids = length (ss_Identities s) - 1"
    using assms(3,4) by (simp add: nat_less_iff)
  show ?thesis
  proof (cases "length (ss_Identities s) = 1")
    case True
    then have "?ids = []" using len by simp
    with True r assms(2) show ?thesis by (simp add: RemoveIdentity_def)
  next
    case False
    have "0 < length (ss_Identities s)" using assms(3,4) by linarith
    with False len have "0 < length ?ids" by linarith
    then have ne: "?ids \<noteq> []" by blast
    define a' where "a' = (if int (length ?ids) \<le> ss_ActiveIndex s then int (length ?ids) - 1
        else if index < ss_ActiveIndex s then ss_ActiveIndex s - 1 else ss_ActiveIndex s)"
    define s1 where "s1 = s\<lparr>ss_Identities := ?ids, ss_ActiveIndex := a'\<rparr>"
    note adj = remove_nth_adjust [OF s r ne, folded a'_def]
    have s1: "session_ok s1" using adj(1) by (simp add: s1_def)
    have res: "RemoveIdentity token index st = (Inr True, st(token \<mapsto> syncActive s1))"
      using assms(2) r ne by (simp add: RemoveIdentity_def Let_def s1_def a'_def)
    have "index \<noteq> ss_ActiveIndex s \<Longrightarrow> Active s1 = Active s"
      using adj(2) Active_ok [OF s1] Active_ok [OF s] by (simp add: s1_def)
    with res False s1 show ?thesis
      by (auto simp: syncActive_ok [OF s1] s1_def [symmetric] intro!: exI [of _ "syncActive s1"])
        (simp add: s1_def remove_nth_def)
  qed
qed

section \<open>Who can be an administrator\<close>

text \<open>Every identity of every session of the store has the property \<open>P\<close>.\<close>

definition all_ids :: "(identity \<Rightarrow> bool) \<Rightarrow> sessions \<Rightarrow> bool" where
  "all_ids P st \<longleftrightarrow> (\<forall>t s. st t = Some s \<longrightarrow> (\<forall>i \<in> set (ss_Identities s). P i))"

lemma all_idsI_upd: "all_ids P st \<Longrightarrow> \<forall>i \<in> set (ss_Identities s). P i \<Longrightarrow> all_ids P (st(t \<mapsto> s))"
  by (auto simp: all_ids_def)

lemma all_ids_del: "all_ids P st \<Longrightarrow> all_ids P (st(t := None))"
  by (auto simp: all_ids_def)

lemma all_ids_Add: "all_ids P st \<Longrightarrow> P idn \<Longrightarrow> all_ids P (snd (AddIdentity t idn st))"
  by (auto simp: AddIdentity_def all_ids_def dest: set_update_subset_insert [THEN subsetD] split: option.split)

lemma all_ids_Switch: "all_ids P st \<Longrightarrow> all_ids P (snd (SwitchIdentity t i st))"
  by (auto simp: SwitchIdentity_def all_ids_def split: option.split)

lemma all_ids_Remove: "all_ids P st \<Longrightarrow> all_ids P (snd (RemoveIdentity t i st))"
  by (auto simp: RemoveIdentity_def Let_def all_ids_def dest: set_remove_nth_subset [THEN subsetD] split: option.split)

lemma all_ids_Get: "all_ids P st \<Longrightarrow> all_ids P (snd (Get now t st))"
  by (auto simp: Get_def Delete_def all_ids_def split: option.split)

lemma all_ids_new: "all_ids P st \<Longrightarrow> P idn \<Longrightarrow> all_ids P (new_session e idn st)"
  using new_session_at [of e idn st] by (auto simp: all_idsI_upd)

lemma all_ids_addOrCreate:
  assumes "all_ids P st" "P idn"
  shows "all_ids P (snd (addOrCreateSession e r idn st))"
proof -
  have "all_ids P (snd (Get (ev_nanos e) (GetSessionToken r) st))"
    using assms(1) by (rule all_ids_Get)
  then show ?thesis
    using assms all_ids_Add [of P _ idn "GetSessionToken r"] all_ids_Switch all_ids_new
    by (auto simp: addOrCreateSession_def Let_def split: option.split prod.splits sum.splits)
      (metis snd_conv)+
qed

text \<open>Marking the active identity changes nothing when it is marked already.\<close>

lemma SetSuperAdmin_marked:
  assumes "sessions_ok st" "store.active st t = Some idn" "id_IsSuperAdmin idn" "all_ids P st"
  shows "all_ids P (SetSuperAdmin t st)"
proof -
  obtain s where s: "st t = Some s" "ss_Identities s ! nat (ss_ActiveIndex s) = idn"
    using assms(2) by (auto simp: store.active_def session_view_def)
  have "idn\<lparr>id_IsSuperAdmin := True\<rparr> = idn" using assms(3) by simp
  with s have "(ss_Identities s)[nat (ss_ActiveIndex s) := (ss_Identities s ! nat (ss_ActiveIndex s))\<lparr>id_IsSuperAdmin := True\<rparr>]
      = ss_Identities s"
    by (metis list_update_id)
  with s assms(4) show ?thesis
    by (auto simp: SetSuperAdmin_def Let_def all_ids_def)
qed

text \<open>
  The identities an administrator's session may hold: the operating system accepted a password of
  that user, the configuration names the user, and the superadmin mark is the configuration's.
\<close>

definition vetted :: "(string \<Rightarrow> string \<Rightarrow> bool) \<Rightarrow> (string \<Rightarrow> string) \<Rightarrow> identity \<Rightarrow> bool" where
  "vetted authenticate role idn \<longleftrightarrow>
     (id_Role idn = ''admin'' \<longrightarrow> (\<exists>p. authenticate (id_Username idn) p) \<and> role (id_Username idn) \<noteq> []
        \<and> (id_IsSuperAdmin idn \<longrightarrow> role (id_Username idn) = ''superadmin''))
     \<and> (id_IsSuperAdmin idn \<longrightarrow> id_Role idn = ''admin'')"

text \<open>A step is one answered request of any handler that touches the sessions.\<close>

inductive account_step :: "(string \<Rightarrow> string \<Rightarrow> bool) \<Rightarrow> app \<Rightarrow> app \<Rightarrow> bool" for authenticate where
  admin_login: "ev_authenticate e = authenticate \<Longrightarrow> account_step authenticate a (snd (HandleAdminLoginAPI e r req a))"
| login: "ev_authenticate e = authenticate \<Longrightarrow> account_step authenticate a (snd (HandleLoginAPI pick e r lreq a))"
| logout: "account_step authenticate a (snd (HandleLogout r a))"
| switch: "account_step authenticate a (snd (HandleAccountSwitch e r i a))"
| remove: "account_step authenticate a (snd (HandleAccountRemove e r i a))"
| add: "ev_authenticate e = authenticate \<Longrightarrow> account_step authenticate a (snd (HandleAccountAdd e r areq a))"
| look: "account_step authenticate a (snd (Sessions_Get e t a))"

definition admins_vetted :: "(string \<Rightarrow> string \<Rightarrow> bool) \<Rightarrow> app \<Rightarrow> app \<Rightarrow> bool" where
  "admins_vetted authenticate a0 a \<longleftrightarrow> sessions_ok (ap_Sessions a)
     \<and> all_ids (vetted authenticate (getAdminRole a0)) (ap_Sessions a)
     \<and> ap_ProcessUser a = ap_ProcessUser a0 \<and> ap_Administrators a = ap_Administrators a0"

lemma getAdminRole_cong:
  "ap_ProcessUser a = ap_ProcessUser b \<Longrightarrow> ap_Administrators a = ap_Administrators b \<Longrightarrow> getAdminRole a = getAdminRole b"
  by (simp add: getAdminRole_def fun_eq_iff)

lemma admins_vetted_sessions:
  "admins_vetted au a0 a \<Longrightarrow> sessions_ok st \<Longrightarrow> all_ids (vetted au (getAdminRole a0)) st \<Longrightarrow>
   admins_vetted au a0 (a\<lparr>ap_Sessions := st\<rparr>)"
  by (simp add: admins_vetted_def)

lemma admins_vetted_data [simp]:
  "admins_vetted au a0 (a\<lparr>ap_DB := db\<rparr>) = admins_vetted au a0 a"
  "admins_vetted au a0 (a\<lparr>ap_Users := us\<rparr>) = admins_vetted au a0 a"
  by (simp_all add: admins_vetted_def)

lemma admins_vetted_on:
  assumes "admins_vetted au a0 a"
    and "\<And>st. sessions_ok st \<Longrightarrow> sessions_ok (snd (f st))"
    and "\<And>st. all_ids (vetted au (getAdminRole a0)) st \<Longrightarrow> all_ids (vetted au (getAdminRole a0)) (snd (f st))"
  shows "admins_vetted au a0 (snd (on_sessions f a))"
  using assms by (auto simp: on_sessions_def admins_vetted_def split: prod.split)
    (metis snd_conv)+

lemma admins_vetted_Get: "admins_vetted au a0 a \<Longrightarrow> admins_vetted au a0 (snd (Sessions_Get e t a))"
  unfolding Sessions_Get_def by (erule admins_vetted_on) (rule sessions_ok_Get all_ids_Get, assumption)+

lemma vetted_user: "vetted au role (user_identity u ut i d)" "vetted au role GuestIdentity"
  by (simp_all add: vetted_def user_identity_def GuestIdentity_def)

lemma vetted_admin: "au u p \<Longrightarrow> role u \<noteq> [] \<Longrightarrow> vetted au role (admin_identity u (role u))"
  by (auto simp: vetted_def admin_identity_def)

lemma admins_vetted_finish:
  assumes "admins_vetted au a0 a" "vetted au (getAdminRole a0) idn"
  shows "admins_vetted au a0 (snd (finish_login e r idn redirect a))"
proof -
  obtain t nw st where ac: "addOrCreateSession e r idn (ap_Sessions a) = ((t, nw), st)"
    by (metis surj_pair)
  have "sessions_ok (ap_Sessions a)" "all_ids (vetted au (getAdminRole a0)) (ap_Sessions a)"
    using assms(1) by (simp_all add: admins_vetted_def)
  with addOrCreate_active [OF _ ac] all_ids_addOrCreate [of _ "ap_Sessions a" idn e r] assms ac
  show ?thesis by (simp add: finish_login_def admins_vetted_sessions)
qed

lemma EnsureUser_vetted: "EnsureUser e u n m p a = Some b \<Longrightarrow> admins_vetted au a0 a \<Longrightarrow> admins_vetted au a0 b"
  by (auto simp: EnsureUser_def split: option.splits)

lemma admins_vetted_ensure:
  assumes "admins_vetted au a0 a"
  shows "admins_vetted au a0 (snd (case EnsureUser e u n m p a of None \<Rightarrow> (resp, a)
    | Some b \<Rightarrow> finish_login e r (user_identity u' (ut b) i d) redirect b))"
  using assms by (auto intro!: admins_vetted_finish vetted_user elim: EnsureUser_vetted split: option.split)

lemma admins_vetted_login:
  "admins_vetted au a0 a \<Longrightarrow> admins_vetted au a0 (snd (login_setup e r q a))"
  "admins_vetted au a0 a \<Longrightarrow> admins_vetted au a0 (snd (login_login e r q a))"
  unfolding login_setup_def login_login_def Let_def
  by (simp_all add: admins_vetted_ensure admins_vetted_finish vetted_user split: prod.split option.split)

lemma admins_vetted_signup:
  assumes "admins_vetted au a0 a"
  shows "admins_vetted au a0 (snd (login_signup pick e r q a))"
proof -
  have "admins_vetted au a0 (snd (signup_account e r q i b))" if "admins_vetted au a0 b" for b i
    using that unfolding signup_account_def Let_def by (simp add: admins_vetted_ensure)
  with assms show ?thesis by (simp add: login_signup_def Let_def split: prod.split)
qed

lemma admins_vetted_add_and_switch:
  assumes "admins_vetted au a0 a" "vetted au (getAdminRole a0) idn"
  shows "admins_vetted au a0 (snd (add_and_switch token idn redirect a))"
proof -
  obtain res b where ab: "on_sessions (AddIdentity token idn) a = (res, b)" by fastforce
  have "admins_vetted au a0 b"
    using admins_vetted_on [OF assms(1), of "AddIdentity token idn"] sessions_ok_Add
      all_ids_Add [where P = "vetted au (getAdminRole a0)" and idn = idn] assms(2) ab
    by (metis snd_conv)
  moreover have "admins_vetted au a0 (snd (on_sessions (SwitchIdentity token i) b))" if "admins_vetted au a0 b" for i
    using that by (rule admins_vetted_on) (auto intro: sessions_ok_Switch all_ids_Switch)
  ultimately show ?thesis using ab by (auto simp: add_and_switch_def split: sum.split)
qed

lemma admins_vetted_admin_login:
  assumes "admins_vetted au a0 a" "ev_authenticate e = au"
  shows "admins_vetted au a0 (snd (HandleAdminLoginAPI e r req a))"
proof -
  have role: "getAdminRole a = getAdminRole a0"
    using assms(1) by (intro getAdminRole_cong) (auto simp: admins_vetted_def)
  have "admins_vetted au a0 (snd (HandleAdminLoginAPI e r (Some (u, p)) a))"
    if u: "au u p" "getAdminRole a u \<noteq> []" and nonempty: "u \<noteq> []" "p \<noteq> []" and post: "rq_Method r = ''POST''" for u p
  proof -
    let ?id = "admin_identity u (getAdminRole a u)"
    obtain t nw st where ac: "addOrCreateSession e r ?id (ap_Sessions a) = ((t, nw), st)"
      by (metis surj_pair)
    have ok: "sessions_ok (ap_Sessions a)" "all_ids (vetted au (getAdminRole a0)) (ap_Sessions a)"
      using assms(1) by (simp_all add: admins_vetted_def)
    have v: "vetted au (getAdminRole a0) ?id"
      using u vetted_admin [of au u p "getAdminRole a0"] by (simp add: role)
    have st: "sessions_ok st" "all_ids (vetted au (getAdminRole a0)) st" "store.active st t = Some ?id"
      using addOrCreate_active [OF ok(1) ac] all_ids_addOrCreate [OF ok(2) v, of e r] ac by simp_all
    have "all_ids (vetted au (getAdminRole a0)) (SetSuperAdmin t st)" if "getAdminRole a u = ''superadmin''"
      using st that by (intro SetSuperAdmin_marked) (auto simp: admin_identity_def)
    with st u nonempty post ac assms show ?thesis
      by (auto simp: HandleAdminLoginAPI_def Let_def intro!: admins_vetted_sessions sessions_ok_SetSuperAdmin)
  qed
  then show ?thesis
    using assms by (cases "case req of None \<Rightarrow> False | Some (u, p) \<Rightarrow> au u p \<and> getAdminRole a u \<noteq> [] \<and> u \<noteq> [] \<and> p \<noteq> [] \<and> rq_Method r = ''POST''")
      (auto simp: HandleAdminLoginAPI_def Let_def split: option.splits prod.splits)
qed

lemma admins_vetted_switch: "admins_vetted au a0 a \<Longrightarrow> admins_vetted au a0 (snd (HandleAccountSwitch e r i a))"
proof -
  assume a: "admins_vetted au a0 a"
  have "admins_vetted au a0 (snd (on_sessions (SwitchIdentity (GetSessionToken r) j) a))" for j
    using a by (rule admins_vetted_on) (auto intro: sessions_ok_Switch all_ids_Switch)
  then show ?thesis
    using a admins_vetted_Get by (auto simp: HandleAccountSwitch_def Let_def split: option.split prod.split sum.split)
      (metis snd_conv)+
qed

lemma admins_vetted_remove: "admins_vetted au a0 a \<Longrightarrow> admins_vetted au a0 (snd (HandleAccountRemove e r i a))"
proof -
  assume a: "admins_vetted au a0 a"
  have "admins_vetted au a0 (snd (on_sessions (RemoveIdentity (GetSessionToken r) j) a))" for j
    using a by (rule admins_vetted_on) (auto intro: sessions_ok_Remove all_ids_Remove)
  then show ?thesis
    using a admins_vetted_Get by (auto simp: HandleAccountRemove_def Let_def split: option.split prod.split sum.split)
      (metis snd_conv)+
qed

lemma admins_vetted_add:
  assumes "admins_vetted au a0 a" "ev_authenticate e = au"
  shows "admins_vetted au a0 (snd (HandleAccountAdd e r q a))"
proof -
  obtain s b where g: "Sessions_Get e (GetSessionToken r) a = (s, b)" by fastforce
  have b: "admins_vetted au a0 b"
    using admins_vetted_Get [OF assms(1), of e "GetSessionToken r"] g by simp
  have role: "getAdminRole b = getAdminRole a0"
    using b by (intro getAdminRole_cong) (auto simp: admins_vetted_def)
  show ?thesis
    using assms g b by (auto simp: HandleAccountAdd_def Let_def vetted_user role vetted_admin
        intro!: admins_vetted_add_and_switch split: option.split)
qed

lemma admins_vetted_step:
  assumes "account_step au a b" "admins_vetted au a0 a"
  shows "admins_vetted au a0 b"
  using assms(1)
proof (cases rule: account_step.cases)
  case (login e pick r req)
  with assms(2) show ?thesis
    by (auto simp: HandleLoginAPI_def admins_vetted_login admins_vetted_signup split: option.split)
next
  case (logout r)
  with assms(2) show ?thesis
    by (auto simp: HandleLogout_def Delete_def intro!: admins_vetted_sessions sessions_ok_del all_ids_del)
      (auto simp: admins_vetted_def)
qed (use assms(2) in \<open>auto intro: admins_vetted_admin_login admins_vetted_switch admins_vetted_remove
      admins_vetted_add admins_vetted_Get\<close>)

lemma passes_admin:
  assumes "admins_vetted au a0 a" "fst (RequireAdminAPI e r a) = Passes"
  shows "\<exists>s. ap_Sessions a (GetSessionToken r) = Some s \<and> session_ok s \<and> \<not> ss_ExpiresAt s < ev_nanos e
     \<and> id_Role (Active s) = ''admin'' \<and> vetted au (getAdminRole a0) (Active s)"
proof -
  have "sessions_ok (ap_Sessions a)" "all_ids (vetted au (getAdminRole a0)) (ap_Sessions a)"
    using assms(1) by (simp_all add: admins_vetted_def)
  moreover obtain s where s: "ap_Sessions a (GetSessionToken r) = Some s" "\<not> ss_ExpiresAt s < ev_nanos e"
    "ss_Role (syncActive s) = ''admin''"
    using assms(2) by (auto simp: RequireAdminAPI_def Let_def Sessions_Get_def on_sessions_def Get_def
        split: if_splits option.splits)
  ultimately have "session_ok s" "\<forall>i \<in> set (ss_Identities s). vetted au (getAdminRole a0) i"
    by (auto simp: all_ids_def)
  then show ?thesis
    using s syncActive_ok [of s] by (intro exI [of _ s]) (auto simp: Active_ok session_ok_def in_range_def nat_less_iff)
qed

text \<open>
  C3. No run of the account handlers makes anybody an administrator by another way: from a server
  with no sessions, when the admin API lets a request pass, its session is live and the identity it
  acts for is a user whose password the system accepted and whom the configuration lists; when the
  superadmin API does, the configuration makes that user a superadmin.
\<close>

theorem only_configured_admins:
  assumes "(account_step authenticate)\<^sup>*\<^sup>* a0 a" "ap_Sessions a0 = Map.empty"
    and "fst (RequireAdminAPI e r a) = Passes"
  shows "\<exists>s u p. ap_Sessions a (GetSessionToken r) = Some s \<and> ev_nanos e \<le> ss_ExpiresAt s
     \<and> id_Role (Active s) = ''admin'' \<and> id_Username (Active s) = u \<and> authenticate u p
     \<and> getAdminRole a0 u \<noteq> []
     \<and> (fst (RequireSuperAdminAPI e r a) = Passes \<longrightarrow> getAdminRole a0 u = ''superadmin'')"
proof -
  have "admins_vetted authenticate a0 a0"
    using assms(2) by (simp add: admins_vetted_def sessions_ok_def all_ids_def)
  with assms(1) have v: "admins_vetted authenticate a0 a"
    by (induction rule: rtranclp_induct) (auto intro: admins_vetted_step)
  obtain s where s: "ap_Sessions a (GetSessionToken r) = Some s" "session_ok s" "\<not> ss_ExpiresAt s < ev_nanos e"
     "id_Role (Active s) = ''admin''" "vetted authenticate (getAdminRole a0) (Active s)"
    using passes_admin [OF v assms(3)] by blast
  have "id_IsSuperAdmin (Active s)" if "fst (RequireSuperAdminAPI e r a) = Passes"
    using that s syncActive_ok [OF s(2)]
    by (auto simp: RequireSuperAdminAPI_def Let_def Sessions_Get_def on_sessions_def Get_def split: if_splits)
  with s show ?thesis by (auto simp: vetted_def)
qed

section \<open>The password setup\<close>

lemma user_identity_fields [simp]:
  "id_Username (user_identity u ut i d) = u" "id_Role (user_identity u ut i d) = ''user''"
  "id_UserType (user_identity u ut i d) = ut" "id_EntityID (user_identity u ut i d) = i"
  by (simp_all add: user_identity_def)

text \<open>
  C23. The setup action, which any visitor can send, logs in as an account that already exists
  whatever password is given, as long as it has four characters: \<open>EnsureUser\<close> returns the account
  without looking at the password, and the session made acts for it.
\<close>

theorem setup_takes_over_account:
  assumes "rq_Method r = ''POST''" "lr_Action q = ''setup''" "4 \<le> length (lr_Password q)"
    and "lr_EntityID q \<noteq> []" "student_by_id (ap_DB a) (lr_EntityID q) = Some row"
    and "GetUser a (to_lower (lr_EntityID q)) = Some account" "sessions_ok (ap_Sessions a)"
  shows "case HandleLoginAPI pick e r (Some q) a of (resp, a') \<Rightarrow>
     answers_ok resp \<and> ap_Users a' = ap_Users a
     \<and> (\<exists>token s. Get (ev_nanos e) token (ap_Sessions a') = (Some s, ap_Sessions a')
          \<and> ss_Username s = to_lower (lr_EntityID q) \<and> ss_EntityID s = lr_EntityID q
          \<and> ss_Role s = ''user'' \<and> ss_UserType s = ''student'')"
proof -
  let ?name = "full_name (st_first_name row) (st_last_name row)"
  let ?id = "user_identity (to_lower (lr_EntityID q)) ''student'' (lr_EntityID q) ?name"
  have look: "lookupEntity (ap_DB a) (lr_EntityID q) = (?name, coalesce (st_email row))" "?name \<noteq> []"
    "detectUserType (ap_DB a) (lr_EntityID q) = ''student''"
    using assms(5) by (simp_all add: lookupEntity_def detectUserType_def full_name_def)
  have "EnsureUser e (to_lower (lr_EntityID q)) ?name (coalesce (st_email row)) (lr_Password q) a = Some a"
    using assms(6) by (simp add: EnsureUser_def)
  with look assms(1-4) have h: "HandleLoginAPI pick e r (Some q) a = finish_login e r ?id ''/profile'' a"
    by (auto simp: HandleLoginAPI_def login_setup_def Let_def)
  obtain t nw st where ac: "addOrCreateSession e r ?id (ap_Sessions a) = ((t, nw), st)"
    by (metis surj_pair)
  show ?thesis
    using login_makes_active(1) [OF assms(7) ac] unfolding h finish_login_def
    by (auto simp: ac login_response_def answers_ok_def)
qed

section \<open>Examples\<close>

definition alice :: student_row where
  "alice = (new_student ''S001'' ''Alice'' ''Wang'')\<lparr>st_email := Some ''alice@example.com''\<rparr>"

definition alice_app :: app where
  "alice_app = demo_app\<lparr>ap_DB := empty_db\<lparr>db_students := [alice]\<rparr>,
     ap_Users := [\<lparr>mu_Username = ''s001'', mu_Nickname = ''Alice'', mu_Email = [], mu_PasswordHash = ''hash of apple''\<rparr>]\<rparr>"

definition two_sessions :: sessions where
  "two_sessions = snd (AddIdentity ''cookie'' GuestIdentity
     (CreateWithDisplayName 0 ''cookie'' ''s001'' ''user'' ''student'' ''S001'' ''Alice'' Map.empty))"

lemma two_sessions_at: "two_sessions = Map.empty(''cookie'' \<mapsto>
    \<lparr>ss_Username = ''s001'', ss_Role = ''user'', ss_UserType = ''student'', ss_EntityID = ''S001'', ss_IsSuperAdmin = False,
     ss_Identities = [\<lparr>id_Username = ''s001'', id_Role = ''user'', id_UserType = ''student'', id_EntityID = ''S001'',
       id_IsSuperAdmin = False, id_DisplayName = ''Alice''\<rparr>, GuestIdentity], ss_ActiveIndex = 0, ss_ExpiresAt = SessionMaxAge\<rparr>)"
  by (simp add: two_sessions_def AddIdentity_def CreateWithDisplayName_def Let_def syncActive_def no_session_def
      in_range_def GuestIdentity_def)

lemma two_sessions_ok: "sessions_ok two_sessions"
  unfolding two_sessions_def by (intro sessions_ok_Add sessions_ok_Create) (simp add: sessions_ok_def)

theorem login_makes_active_witness:
  "\<exists>s. Get (ev_nanos (demo_env 0)) ''token'' (snd (addOrCreateSession (demo_env 0) post_request GuestIdentity two_sessions))
     = (Some s, snd (addOrCreateSession (demo_env 0) post_request GuestIdentity two_sessions)) \<and> Active s = GuestIdentity"
proof -
  have "addOrCreateSession (demo_env 0) post_request GuestIdentity two_sessions =
      ((''token'', True), snd (addOrCreateSession (demo_env 0) post_request GuestIdentity two_sessions))"
    by (simp add: addOrCreateSession_def GetSessionToken_def post_request_def demo_env_def)
  from login_makes_active [OF two_sessions_ok this] show ?thesis by blast
qed

theorem remove_identity_exact_witness:
  "\<exists>s'. RemoveIdentity ''cookie'' 1 two_sessions = (Inr True, two_sessions(''cookie'' \<mapsto> s')) \<and> length (ss_Identities s') = 1"
  using remove_identity_exact [OF two_sessions_ok, of "''cookie''" _ 1] by (auto simp: two_sessions_at)

theorem setup_takes_over_account_witness:
  "answers_ok (fst (HandleLoginAPI hd (demo_env 0) post_request
     (Some \<lparr>lr_EntityID = ''S001'', lr_Password = ''guess'', lr_Action = ''setup'', lr_FirstName = [], lr_LastName = []\<rparr>) alice_app))"
proof -
  let ?q = "\<lparr>lr_EntityID = ''S001'', lr_Password = ''guess'', lr_Action = ''setup'', lr_FirstName = [], lr_LastName = []\<rparr>"
  have l: "to_lower ''S001'' = ''s001''" by code_simp
  have "sessions_ok (ap_Sessions alice_app)" by (simp add: alice_app_def demo_app_def sessions_ok_def)
  then show ?thesis
    using setup_takes_over_account [where r = post_request and q = ?q and a = alice_app and row = alice and pick = hd and e = "demo_env 0"]
    by (simp add: post_request_def l GetUser_def alice_app_def student_by_id_def alice_def new_student_def split: prod.splits)
qed

theorem only_configured_admins_witness:
  "\<exists>s u p. ap_Sessions (snd (HandleAdminLoginAPI (demo_env 0) post_request (Some (''root'', ''secret'')) demo_app)) ''token'' = Some s
     \<and> id_Username (Active s) = u \<and> ev_authenticate (demo_env 0) u p \<and> getAdminRole demo_app u \<noteq> []"
proof -
  let ?a = "snd (HandleAdminLoginAPI (demo_env 0) post_request (Some (''root'', ''secret'')) demo_app)"
  let ?r = "post_request\<lparr>rq_Cookie := Some ''token''\<rparr>"
  have run: "(account_step (ev_authenticate (demo_env 0)))\<^sup>*\<^sup>* demo_app ?a"
    by (rule r_into_rtranclp, rule account_step.admin_login) simp
  have "fst (RequireAdminAPI (demo_env 0) ?r ?a) = Passes"
    by (simp add: RequireAdminAPI_def GetSessionToken_def Sessions_Get_def on_sessions_def HandleAdminLoginAPI_def
        post_request_def demo_env_def demo_app_def getAdminRole_def addOrCreateSession_def new_session_def
        CreateWithDisplayName_def SetSuperAdmin_def Let_def syncActive_def no_session_def admin_identity_def
        in_range_def Get_def SessionMaxAge_def)
  from only_configured_admins [OF run _ this] show ?thesis
    by (auto simp: GetSessionToken_def demo_app_def)
qed

end
