(* ===== verification/Checkins.thy ===== *)
theory Checkins
  imports Attendance Pins Due Access
begin

text \<open>
  What check-in and check-out guarantee: the invariant of the attendance table over all runs, the
  status a student sees, the sign-offs that hold a check-out back, and the flags of the audit.
\<close>

section \<open>What the operations touch\<close>

lemma GenerateStudentPin_keeps:
  "GenerateStudentPin e sid db = Some (p, db') \<Longrightarrow> db_attendance db' = db_attendance db \<and> db_audit db' = db_audit db
     \<and> db_tasks db' = db_tasks db \<and> db_responses db' = db_responses db \<and> db_schedules db' = db_schedules db"
  by (auto simp: GenerateStudentPin_def update_student_def Let_def split: if_splits)

lemma EnsureDailyStudentPin_keeps:
  "EnsureDailyStudentPin e sid db = Some (p, db') \<Longrightarrow> db_attendance db' = db_attendance db \<and> db_audit db' = db_audit db
     \<and> db_tasks db' = db_tasks db \<and> db_responses db' = db_responses db \<and> db_schedules db' = db_schedules db"
  by (auto simp: EnsureDailyStudentPin_def split: option.splits if_splits dest: GenerateStudentPin_keeps)

lemma ValidatePIN_keeps [simp]:
  "db_attendance (ap_DB (snd (ValidatePIN e sid pin a))) = db_attendance (ap_DB a)"
  "db_audit (ap_DB (snd (ValidatePIN e sid pin a))) = db_audit (ap_DB a)"
  "db_tasks (ap_DB (snd (ValidatePIN e sid pin a))) = db_tasks (ap_DB a)"
  "ap_RateLimiter (snd (ValidatePIN e sid pin a)) = ap_RateLimiter a"
  by (cases rule: ValidatePIN_state [of e sid pin a];
      auto simp: EnsureDailyPIN_def Let_def dest: EnsureDailyStudentPin_keeps)+

lemma meta_keeps [simp]:
  "db_attendance (linkAttendanceMetaByID e i sid db) = db_attendance db"
  "db_audit (linkAttendanceMetaByID e i sid db) = db_audit db"
  "db_attendance (linkAttendanceMeta e i name db) = db_attendance db"
  "db_audit (linkAttendanceMeta e i name db) = db_audit db"
  by (simp_all add: linkAttendanceMetaByID_def linkAttendanceMeta_def Let_def)

lemma audit_keeps [simp]:
  "db_attendance (snd (InsertAudit e x db)) = db_attendance db"
  "db_attendance (FlagSuspiciousCheckins e i ip fp did name db) = db_attendance db"
  by (simp_all add: InsertAudit_def FlagSuspiciousCheckins_def set_flag_def Let_def)

lemma record_checkin_attendance:
  "db_attendance (ap_DB (record_checkin e ip name sid device fp did a)) =
     insert_row (mk_attendance (sid, name, device, ev_now e)) (db_attendance (ap_DB a))"
  by (simp add: record_checkin_def Let_def case_prod_beta)

section \<open>The two outcomes of a check-in\<close>

definition admits :: "env \<Rightarrow> request \<Rightarrow> checkin_request \<Rightarrow> app \<Rightarrow> string \<Rightarrow> string \<Rightarrow> bool" where
  "admits e r q a name sid \<longleftrightarrow> rq_Method r = ''POST''
     \<and> resolve_student (ap_DB a) (ci_StudentName q) (ci_StudentID q) = (name, sid) \<and> name \<noteq> [] \<and> sid \<noteq> []
     \<and> fst (ValidatePIN e sid (ci_PIN q) a) = []
     \<and> (case ap_RateLimiter a of None \<Rightarrow> True
        | Some rl \<Rightarrow> Check (ev_nanos e) rl (DeviceKey (ClientIP r) (ci_Fingerprint q) (ci_DeviceID q)) name
                      (device_type_of (ci_DeviceType q)) = [])
     \<and> (ev_faults e Q_attendance \<or> (\<forall>x \<in> set (tb_rows (db_attendance (ap_DB a))). \<not> open_today e name x))
     \<and> \<not> ev_faults e I_attendance"

definition admitted :: "env \<Rightarrow> request \<Rightarrow> checkin_request \<Rightarrow> app \<Rightarrow> string \<Rightarrow> string \<Rightarrow> app" where
  "admitted e r q a name sid = record_checkin e (ClientIP r) name sid (device_type_of (ci_DeviceType q))
     (ci_Fingerprint q) (ci_DeviceID q) (snd (ValidatePIN e sid (ci_PIN q) a))"

definition says_welcome :: "response \<Rightarrow> string \<Rightarrow> bool" where
  "says_welcome resp name \<longleftrightarrow> json_field ''message'' resp = Some (JStr (''Welcome, '' @ name @ ''!''))"

lemma not_welcome [simp]:
  "\<not> says_welcome (json_error st msg) n" "\<not> says_welcome method_not_allowed n"
  "\<not> says_welcome (pin_error_response b sid msg) n"
  "\<not> says_welcome (writeJSON 200 [(''ok'', JBool True), (''message'', JStr ''Already checked in today!'')]) n"
  by (simp_all add: says_welcome_def json_error_def pin_error_response_def method_not_allowed_def http_Error_def
      json_field_def writeJSON_def)

lemma welcome_says [simp]: "says_welcome (welcome_response name b) n \<longleftrightarrow> n = name"
  by (auto simp: says_welcome_def welcome_response_def)

lemma HandleCheckIn_cases:
  obtains
    (admitted) q name sid b where "req = Some q" "admits e r q a name sid"
      "HandleCheckIn e r req a = (welcome_response name b, admitted e r q a name sid)"
  | (refused) "\<forall>n. \<not> says_welcome (fst (HandleCheckIn e r req a)) n"
      "db_attendance (ap_DB (snd (HandleCheckIn e r req a))) = db_attendance (ap_DB a)"
      "db_audit (ap_DB (snd (HandleCheckIn e r req a))) = db_audit (ap_DB a)"
proof (cases "\<exists>q name sid. req = Some q \<and> admits e r q a name sid")
  case True
  then obtain q name sid where q: "req = Some q" "admits e r q a name sid" by blast
  obtain err a1 where v: "ValidatePIN e sid (ci_PIN q) a = (err, a1)" by fastforce
  have "ap_RateLimiter a1 = ap_RateLimiter a" "db_attendance (ap_DB a1) = db_attendance (ap_DB a)"
    using ValidatePIN_keeps(1,4) [of e sid "ci_PIN q" a] v by simp_all
  with q v show thesis
    by (intro admitted [of q name sid "StudentRequiresPIN (ap_DB (admitted e r q a name sid)) sid"])
      (auto simp: HandleCheckIn_eq admits_def admitted_def Let_def split: option.splits)
next
  case False
  show thesis
  proof (cases "rq_Method r = ''POST'' \<and> req \<noteq> None")
    case True
    then obtain q where q: "req = Some q" "rq_Method r = ''POST''" by blast
    obtain name sid where ns: "resolve_student (ap_DB a) (ci_StudentName q) (ci_StudentID q) = (name, sid)" by fastforce
    obtain err a1 where v: "ValidatePIN e sid (ci_PIN q) a = (err, a1)" by fastforce
    have k: "ap_RateLimiter a1 = ap_RateLimiter a" "db_attendance (ap_DB a1) = db_attendance (ap_DB a)"
      "db_audit (ap_DB a1) = db_audit (ap_DB a)"
      using ValidatePIN_keeps(1,2,4) [of e sid "ci_PIN q" a] v by simp_all
    have no: "\<not> admits e r q a name sid" using False q by blast
    have "(\<forall>n. \<not> says_welcome (fst (HandleCheckIn e r req a)) n)
        \<and> db_attendance (ap_DB (snd (HandleCheckIn e r req a))) = db_attendance (ap_DB a)
        \<and> db_audit (ap_DB (snd (HandleCheckIn e r req a))) = db_audit (ap_DB a)"
      using no q k unfolding HandleCheckIn_eq admits_def
      by (cases "ap_RateLimiter a") (auto simp: ns v Let_def)
    then show thesis using refused by blast
  next
    case False
    then show thesis using refused by (auto simp: HandleCheckIn_eq)
  qed
qed

lemma admitted_attendance:
  "db_attendance (ap_DB (admitted e r q a name sid)) =
     insert_row (mk_attendance (sid, name, device_type_of (ci_DeviceType q), ev_now e)) (db_attendance (ap_DB a))"
  by (simp add: admitted_def record_checkin_attendance)

section \<open>At most one open row\<close>

definition open_rows :: "string \<Rightarrow> int \<Rightarrow> attendance_row list \<Rightarrow> nat" where
  "open_rows name day rows = count_where
     (\<lambda>r. at_student_name r = name \<and> day_part (at_check_in_time r) = day \<and> at_check_out_time r = None) rows"

lemma mk_attendance_fields [simp]:
  "at_student_name (mk_attendance (sid, name, dev, t) i) = name" "at_check_in_time (mk_attendance (sid, name, dev, t) i) = t"
  "at_check_out_time (mk_attendance (sid, name, dev, t) i) = None" "at_student_id (mk_attendance (sid, name, dev, t) i) = sid"
  by (simp_all add: mk_attendance_def)

lemma open_rows_append [simp]:
  "open_rows n d (rows @ [r]) = open_rows n d rows
     + (if at_student_name r = n \<and> day_part (at_check_in_time r) = d \<and> at_check_out_time r = None then 1 else 0)"
  by (simp add: open_rows_def count_where_def)

lemma record_checkout_attendance [simp]:
  "db_attendance (ap_DB (record_checkout pick e ip name sid fp did a)) = db_attendance (ap_DB a)"
  by (simp add: record_checkout_def Let_def case_prod_beta InvalidateProgressCache_def)

lemma insert_responses_attendance:
  "insert_responses e sid name i ps db = Some db' \<Longrightarrow> db_attendance db' = db_attendance db"
  by (induction ps arbitrary: db) (auto simp: Let_def insert_response_def split: option.splits if_splits)

lemma check_out_rows_fst: "fst (check_out_rows e name db) = count_where (open_today e name) (tb_rows (db_attendance db))"
  by (simp add: check_out_rows_def)

lemma SaveTrackerResponses_attendance:
  assumes "SaveTrackerResponses pick e sid name ps db = Some (n, db')"
  shows "db_attendance db' = db_attendance db \<or> db_attendance db' = db_attendance (snd (check_out_rows e name db))"
  using assms by (auto simp: SaveTrackerResponses_def case_prod_beta Let_def insert_responses_attendance
      split: if_splits option.splits)

lemma HandleCheckOut_attendance:
  "\<exists>name. db_attendance (ap_DB (snd (HandleCheckOut pick e r req a))) = db_attendance (ap_DB a)
    \<or> db_attendance (ap_DB (snd (HandleCheckOut pick e r req a))) = db_attendance (snd (check_out_rows e name (ap_DB a)))"
proof (cases req)
  case (Some q)
  obtain name sid where ns: "resolve_student (ap_DB a) (co_StudentName q) (co_StudentID q) = (name, sid)" by fastforce
  obtain err a1 where v: "ValidatePIN e sid (co_PIN q) a = (err, a1)" by fastforce
  have "db_attendance (ap_DB a1) = db_attendance (ap_DB a)"
    using ValidatePIN_keeps(1) [of e sid "co_PIN q" a] v by simp
  then show ?thesis
    by (intro exI [of _ name]) (auto simp: HandleCheckOut_def Some ns v Let_def check_out_rows_def)
qed (simp add: HandleCheckOut_def)

lemma HandleTrackerRespond_attendance:
  "\<exists>name. db_attendance (ap_DB (snd (HandleTrackerRespond pick e r req a))) = db_attendance (ap_DB a)
    \<or> db_attendance (ap_DB (snd (HandleTrackerRespond pick e r req a))) = db_attendance (snd (check_out_rows e name (ap_DB a)))"
proof (cases req)
  case (Some q)
  obtain name sid where ns: "resolve_student (ap_DB a) (rr_StudentName q) (rr_StudentID q) = (name, sid)" by fastforce
  obtain err a1 where v: "ValidatePIN e sid (rr_PIN q) a = (err, a1)" by fastforce
  have k: "db_attendance (ap_DB a1) = db_attendance (ap_DB a)"
    using ValidatePIN_keeps(1) [of e sid "rr_PIN q" a] v by simp
  then have "db_attendance (snd (check_out_rows e name (ap_DB a1))) = db_attendance (snd (check_out_rows e name (ap_DB a)))"
    by (simp add: check_out_rows_def)
  with k SaveTrackerResponses_attendance [of pick e sid name "rr_Responses q" "ap_DB a1"] show ?thesis
    by (intro exI [of _ name])
      (auto simp: HandleTrackerRespond_def Some ns v Let_def InvalidateProgressCache_def split: option.split prod.split)
qed (simp add: HandleTrackerRespond_def)

lemma begin_checkin_state:
  "db_attendance (ap_DB (snd (begin_checkin e r req a))) = db_attendance (ap_DB a)"
proof (cases req)
  case (Some q)
  obtain name sid where ns: "resolve_student (ap_DB a) (ci_StudentName q) (ci_StudentID q) = (name, sid)" by fastforce
  obtain err a1 where v: "ValidatePIN e sid (ci_PIN q) a = (err, a1)" by fastforce
  have "db_attendance (ap_DB a1) = db_attendance (ap_DB a)"
    using ValidatePIN_keeps(1) [of e sid "ci_PIN q" a] v by simp
  then show ?thesis by (auto simp: begin_checkin_def Some ns v Let_def)
qed (simp add: begin_checkin_def)

lemma begin_checkin_looked:
  assumes "begin_checkin e r req a = (Inr c, a1)" "\<not> ev_faults e Q_attendance"
  shows "\<forall>x \<in> set (tb_rows (db_attendance (ap_DB a))). \<not> open_today e (bc_Name c) x"
proof -
  obtain q where q: "req = Some q" using assms(1) by (cases req) (auto simp: begin_checkin_def split: if_splits)
  obtain name sid where ns: "resolve_student (ap_DB a) (ci_StudentName q) (ci_StudentID q) = (name, sid)" by fastforce
  obtain err a2 where v: "ValidatePIN e sid (ci_PIN q) a = (err, a2)" by fastforce
  have "db_attendance (ap_DB a2) = db_attendance (ap_DB a)"
    using ValidatePIN_keeps(1) [of e sid "ci_PIN q" a] v by simp
  with assms show ?thesis by (auto simp: begin_checkin_def q ns v Let_def split: if_splits)
qed

lemma finish_checkin_attendance:
  "db_attendance (ap_DB (snd (finish_checkin e c a))) =
     (if ev_faults e I_attendance then db_attendance (ap_DB a)
      else insert_row (mk_attendance (bc_StudentID c, bc_Name c, bc_DeviceType c, ev_now e)) (db_attendance (ap_DB a)))"
  by (simp add: finish_checkin_def Let_def record_checkin_attendance)

text \<open>
  The server at work: the state of the process, the latest date it has seen, the check-ins between
  their query and their insert, and, to say in what runs, the names of which a query for an open row
  has failed or two check-ins were under way at once.
\<close>

record checkin_run =
  cr_app :: app
  cr_day :: int
  cr_begun :: "begun_checkin list"
  cr_disturbed :: "string set"

text \<open>
  A step is a part of a handler that no other step interrupts: the checks of a check-in up to the
  query, the insert and what follows it, the update of a check-out, the handlers that check out as a
  whole, and any change that leaves the table of attendance alone. The local date does not run
  backwards.
\<close>

inductive attendance_step :: "checkin_run \<Rightarrow> checkin_run \<Rightarrow> bool" where
  looked: "begin_checkin e r req (cr_app s) = (Inr c, a) \<Longrightarrow> cr_day s \<le> day_part (ev_now e) \<Longrightarrow>
    attendance_step s (s\<lparr>cr_app := a, cr_day := day_part (ev_now e), cr_begun := c # cr_begun s,
      cr_disturbed := (if ev_faults e Q_attendance \<or> bc_Name c \<in> bc_Name ` set (cr_begun s)
                       then insert (bc_Name c) (cr_disturbed s) else cr_disturbed s)\<rparr>)"
| refused: "begin_checkin e r req (cr_app s) = (Inl resp, a) \<Longrightarrow> cr_day s \<le> day_part (ev_now e) \<Longrightarrow>
    attendance_step s (s\<lparr>cr_app := a, cr_day := day_part (ev_now e)\<rparr>)"
| wrote: "cr_begun s = xs @ c # ys \<Longrightarrow> cr_day s \<le> day_part (ev_now e) \<Longrightarrow>
    attendance_step s (s\<lparr>cr_app := snd (finish_checkin e c (cr_app s)), cr_day := day_part (ev_now e), cr_begun := xs @ ys\<rparr>)"
| checkout: "attendance_step s (s\<lparr>cr_app := snd (HandleCheckOut pick e r oreq (cr_app s))\<rparr>)"
| respond: "attendance_step s (s\<lparr>cr_app := snd (HandleTrackerRespond pick e r rreq (cr_app s))\<rparr>)"
| closing: "attendance_step s (s\<lparr>cr_app := (cr_app s)\<lparr>ap_DB := snd (check_out_rows e name (ap_DB (cr_app s)))\<rparr>\<rparr>)"
| other: "db_attendance (ap_DB b) = db_attendance (ap_DB (cr_app s)) \<Longrightarrow> attendance_step s (s\<lparr>cr_app := b\<rparr>)"

text \<open>
  The invariant of a name no one disturbs: at most one open row a day, none of a later date than
  the latest seen, at most one check-in under way, and while it is none open on that date or later
  than the one it looked at, which is the latest the table can hold.
\<close>

definition rows_of :: "checkin_run \<Rightarrow> attendance_row list" where
  "rows_of s = tb_rows (db_attendance (ap_DB (cr_app s)))"

definition undisturbed_ok :: "string \<Rightarrow> checkin_run \<Rightarrow> bool" where
  "undisturbed_ok name s \<longleftrightarrow> (\<forall>day. open_rows name day (rows_of s) \<le> 1)
     \<and> length (filter (\<lambda>c. bc_Name c = name) (cr_begun s)) \<le> 1
     \<and> (name \<in> bc_Name ` set (cr_begun s) \<longrightarrow> (\<forall>day. cr_day s \<le> day \<longrightarrow> open_rows name day (rows_of s) = 0))"

definition run_ok :: "checkin_run \<Rightarrow> bool" where
  "run_ok s \<longleftrightarrow> keys_ok at_id (db_attendance (ap_DB (cr_app s)))
     \<and> (\<forall>x \<in> set (rows_of s). day_part (at_check_in_time x) \<le> cr_day s)
     \<and> (\<forall>name. name \<notin> cr_disturbed s \<longrightarrow> undisturbed_ok name s)"

lemma open_rows_none: "open_rows n d rows = 0 \<longleftrightarrow>
    (\<forall>x \<in> set rows. \<not> (at_student_name x = n \<and> day_part (at_check_in_time x) = d \<and> at_check_out_time x = None))"
  by (auto simp: open_rows_def count_where_def filter_empty_conv)

lemma open_rows_later: "\<forall>x \<in> set rows. day_part (at_check_in_time x) \<le> day \<Longrightarrow> day < d \<Longrightarrow> open_rows n d rows = 0"
  by (fastforce simp: open_rows_none)

lemma run_ok_rows:
  assumes "run_ok s" "cr_begun t = cr_begun s" "cr_day s \<le> cr_day t" "cr_disturbed t = cr_disturbed s"
    and "keys_ok at_id (db_attendance (ap_DB (cr_app t)))"
    and "\<forall>x \<in> set (rows_of t). day_part (at_check_in_time x) \<le> cr_day s"
    and "\<And>n d. open_rows n d (rows_of t) \<le> open_rows n d (rows_of s)"
  shows "run_ok t"
proof -
  have "undisturbed_ok n t" if "n \<notin> cr_disturbed s" for n
  proof -
    have ok: "undisturbed_ok n s" using assms(1) that by (simp add: run_ok_def)
    have "open_rows n d (rows_of t) \<le> 1" for d
      using assms(7) [of n d] ok unfolding undisturbed_ok_def by (meson le_trans)
    moreover have "open_rows n d (rows_of t) = 0" if "n \<in> bc_Name ` set (cr_begun s)" "cr_day t \<le> d" for d
    proof -
      have "cr_day s \<le> d" using assms(3) that(2) by simp
      then have "open_rows n d (rows_of s) = 0" using ok that(1) by (auto simp: undisturbed_ok_def)
      then show ?thesis using assms(7) [of n d] by simp
    qed
    ultimately show ?thesis using ok assms(2) by (simp add: undisturbed_ok_def)
  qed
  with assms(3-6) show ?thesis by (fastforce simp: run_ok_def)
qed

lemma run_ok_same:
  assumes "run_ok s" "cr_begun t = cr_begun s" "cr_day s \<le> cr_day t" "cr_disturbed t = cr_disturbed s"
    and "db_attendance (ap_DB (cr_app t)) = db_attendance (ap_DB (cr_app s))"
  shows "run_ok t"
  by (rule run_ok_rows [OF assms(1-4)]) (use assms(1,5) in \<open>simp_all add: run_ok_def rows_of_def\<close>)

lemma run_ok_close:
  assumes "run_ok s"
    and "db_attendance (ap_DB b) = db_attendance (ap_DB (cr_app s))
      \<or> db_attendance (ap_DB b) = db_attendance (snd (check_out_rows e name (ap_DB (cr_app s))))"
  shows "run_ok (s\<lparr>cr_app := b\<rparr>)"
  using assms(2)
proof
  assume "db_attendance (ap_DB b) = db_attendance (ap_DB (cr_app s))"
  then show ?thesis by (intro run_ok_same [OF assms(1)]) simp_all
next
  let ?close = "update_where (open_today e name) (\<lambda>r. r\<lparr>at_check_out_time := Some (ev_now e)\<rparr>)"
  assume "db_attendance (ap_DB b) = db_attendance (snd (check_out_rows e name (ap_DB (cr_app s))))"
  then have b: "db_attendance (ap_DB b) = update_tab (open_today e name) (\<lambda>r. r\<lparr>at_check_out_time := Some (ev_now e)\<rparr>)
      (db_attendance (ap_DB (cr_app s)))"
    by (simp add: check_out_rows_def)
  have le: "open_rows n d (?close rows) \<le> open_rows n d rows" for n d rows
    by (induction rows) (auto simp: open_rows_def count_where_def update_where_def)
  have rows: "rows_of (s\<lparr>cr_app := b\<rparr>) = ?close (rows_of s)" by (simp add: rows_of_def b)
  show ?thesis
  proof (rule run_ok_rows [OF assms(1)])
    show "keys_ok at_id (db_attendance (ap_DB (cr_app (s\<lparr>cr_app := b\<rparr>))))"
      using assms(1) by (simp add: b run_ok_def attendance_tab.keys_update)
    show "\<forall>x \<in> set (rows_of (s\<lparr>cr_app := b\<rparr>)). day_part (at_check_in_time x) \<le> cr_day s"
      using assms(1) unfolding rows run_ok_def by (auto simp: set_update_where)
  qed (simp_all only: rows le, simp_all)
qed

lemma run_ok_looked:
  assumes "run_ok s" "begin_checkin e r req (cr_app s) = (Inr c, a)" "cr_day s \<le> day_part (ev_now e)"
  shows "run_ok (s\<lparr>cr_app := a, cr_day := day_part (ev_now e), cr_begun := c # cr_begun s,
      cr_disturbed := (if ev_faults e Q_attendance \<or> bc_Name c \<in> bc_Name ` set (cr_begun s)
                       then insert (bc_Name c) (cr_disturbed s) else cr_disturbed s)\<rparr>)" (is "run_ok ?t")
proof -
  have att: "db_attendance (ap_DB a) = db_attendance (ap_DB (cr_app s))"
    using begin_checkin_state [of e r req "cr_app s"] assms(2) by simp
  then have rows: "rows_of ?t = rows_of s" by (simp add: rows_of_def)
  have dates: "\<forall>x \<in> set (rows_of s). day_part (at_check_in_time x) \<le> day_part (ev_now e)"
    using assms(1,3) by (fastforce simp: run_ok_def)
  have "undisturbed_ok n ?t" if n: "n \<notin> cr_disturbed ?t" for n
  proof -
    have ok: "undisturbed_ok n s" using assms(1) n by (auto simp: run_ok_def split: if_splits)
    have alone: "filter (\<lambda>c. bc_Name c = n) (cr_begun s) = []" "\<not> ev_faults e Q_attendance" if "bc_Name c = n"
      using n that by (auto simp: filter_empty_conv image_iff split: if_splits)
    have "length (filter (\<lambda>c. bc_Name c = n) (cr_begun ?t)) \<le> 1"
      using ok alone by (cases "bc_Name c = n") (auto simp: undisturbed_ok_def)
    moreover have "open_rows n d (rows_of s) = 0" if inf: "n \<in> bc_Name ` set (cr_begun ?t)" and d: "day_part (ev_now e) \<le> d" for d
    proof (cases "bc_Name c = n")
      case True
      have looked: "\<forall>x \<in> set (rows_of s). \<not> open_today e n x"
        using begin_checkin_looked [OF assms(2) alone(2) [OF True]] True by (simp add: rows_of_def)
      show ?thesis
      proof (cases "d = day_part (ev_now e)")
        case True
        then show ?thesis using looked by (auto simp: open_rows_none open_today_def on_day_def)
      qed (use d dates open_rows_later in simp)
    next
      case False
      then have "n \<in> bc_Name ` set (cr_begun s)" using inf by auto
      with ok d assms(3) show ?thesis by (simp add: undisturbed_ok_def)
    qed
    ultimately show ?thesis using ok by (simp add: undisturbed_ok_def rows)
  qed
  then show ?thesis using assms(1) dates rows att unfolding run_ok_def by simp
qed

lemma run_ok_wrote:
  assumes "run_ok s" "cr_begun s = xs @ c # ys" "cr_day s \<le> day_part (ev_now e)"
  shows "run_ok (s\<lparr>cr_app := snd (finish_checkin e c (cr_app s)), cr_day := day_part (ev_now e), cr_begun := xs @ ys\<rparr>)"
    (is "run_ok ?t")
proof -
  let ?new = "mk_attendance (bc_StudentID c, bc_Name c, bc_DeviceType c, ev_now e) (tb_seq (db_attendance (ap_DB (cr_app s))) + 1)"
  have rows: "rows_of ?t = (if ev_faults e I_attendance then rows_of s else rows_of s @ [?new])"
    by (simp add: rows_of_def finish_checkin_attendance)
  have keys: "keys_ok at_id (db_attendance (ap_DB (cr_app ?t)))"
    using assms(1) by (simp add: finish_checkin_attendance run_ok_def attendance_tab.keys_insert)
  have dates: "\<forall>x \<in> set (rows_of ?t). day_part (at_check_in_time x) \<le> day_part (ev_now e)"
  proof -
    have "\<forall>x \<in> set (rows_of s). day_part (at_check_in_time x) \<le> day_part (ev_now e)"
      using assms(1,3) by (fastforce simp: run_ok_def)
    then show ?thesis by (auto simp: rows)
  qed
  have "undisturbed_ok n ?t" if n: "n \<notin> cr_disturbed s" for n
  proof -
    have ok: "undisturbed_ok n s" using assms(1) n by (simp add: run_ok_def)
    show ?thesis
    proof (cases "bc_Name c = n")
      case True
      then have gone: "filter (\<lambda>c. bc_Name c = n) (cr_begun ?t) = []" and "n \<in> bc_Name ` set (cr_begun s)"
        using ok assms(2) by (auto simp: undisturbed_ok_def)
      then have "open_rows n (day_part (ev_now e)) (rows_of s) = 0"
        using ok assms(3) by (auto simp: undisturbed_ok_def)
      then have "open_rows n d (rows_of ?t) \<le> 1" for d
        using ok True by (cases "d = day_part (ev_now e)") (auto simp: rows undisturbed_ok_def)
      with gone show ?thesis by (auto simp: undisturbed_ok_def filter_empty_conv)
    next
      case False
      then have "open_rows n d (rows_of ?t) = open_rows n d (rows_of s)" for d by (simp add: rows)
      with ok False assms(2,3) show ?thesis by (auto simp: undisturbed_ok_def)
    qed
  qed
  with keys dates show ?thesis by (simp add: run_ok_def)
qed

lemma run_ok_step: "attendance_step s t \<Longrightarrow> run_ok s \<Longrightarrow> run_ok t"
proof (induction rule: attendance_step.induct)
  case (looked e r req s c a)
  show ?case by (rule run_ok_looked [OF looked(3,1,2)])
next
  case (refused e r req s resp a)
  show ?case
    by (rule run_ok_same [OF refused(3)])
      (use refused(1,2) begin_checkin_state [of e r req "cr_app s"] in simp_all)
next
  case (wrote s xs c ys e)
  show ?case by (rule run_ok_wrote [OF wrote(3,1,2)])
next
  case (checkout s pick e r oreq)
  obtain name where "db_attendance (ap_DB (snd (HandleCheckOut pick e r oreq (cr_app s)))) = db_attendance (ap_DB (cr_app s))
      \<or> db_attendance (ap_DB (snd (HandleCheckOut pick e r oreq (cr_app s)))) = db_attendance (snd (check_out_rows e name (ap_DB (cr_app s))))"
    using HandleCheckOut_attendance by blast
  then show ?case by (rule run_ok_close [OF checkout])
next
  case (respond s pick e r rreq)
  obtain name where "db_attendance (ap_DB (snd (HandleTrackerRespond pick e r rreq (cr_app s)))) = db_attendance (ap_DB (cr_app s))
      \<or> db_attendance (ap_DB (snd (HandleTrackerRespond pick e r rreq (cr_app s)))) = db_attendance (snd (check_out_rows e name (ap_DB (cr_app s))))"
    using HandleTrackerRespond_attendance by blast
  then show ?case by (rule run_ok_close [OF respond])
next
  case (closing s e name)
  show ?case by (rule run_ok_close [OF closing, where e = e and name = name]) simp
next
  case (other b s)
  show ?case by (rule run_ok_same [OF other(2)]) (use other(1) in simp_all)
qed

text \<open>
  C1. Let check-ins, each with its query for an open row and its insert as separate steps, check-outs,
  check-outs with responses and whatever else leaves attendance alone interleave in any way, over
  any number of days, from an empty table. Then attendance identifiers are unique; and a name has at
  most one open attendance row on any day, unless at some moment its query for an open row failed or
  two check-ins of that name were between their query and their insert at once. The local date is
  taken not to run backwards. What two check-ins at once do is \<open>overlapping_checkins\<close> below.
\<close>

theorem one_open_row_per_day:
  assumes "attendance_step\<^sup>*\<^sup>* s t" "db_attendance (ap_DB (cr_app s)) = empty_tab" "cr_begun s = []"
  shows "(name \<notin> cr_disturbed t \<longrightarrow>
           length (filter (\<lambda>r. at_student_name r = name \<and> day_part (at_check_in_time r) = day \<and> at_check_out_time r = None)
             (tb_rows (db_attendance (ap_DB (cr_app t))))) \<le> 1)
     \<and> distinct (map at_id (tb_rows (db_attendance (ap_DB (cr_app t)))))"
proof -
  have "run_ok s"
    using assms(2,3) attendance_tab.keys_empty
    by (simp add: run_ok_def undisturbed_ok_def rows_of_def open_rows_def count_where_def empty_tab_def)
  with assms(1) have "run_ok t"
    by (induction rule: rtranclp_induct) (auto intro: run_ok_step)
  then show ?thesis
    by (auto simp: run_ok_def undisturbed_ok_def rows_of_def open_rows_def count_where_def keys_ok_def)
qed

text \<open>
  The window the query leaves: when two check-ins of a name have both looked before either inserts,
  both are recorded, and the table has two more open rows of that name and day.
\<close>

lemma overlapping_checkins:
  assumes "begin_checkin e r req a = (Inr c, a1)" "begin_checkin e' r' req' a1 = (Inr c', a2)" "bc_Name c' = bc_Name c"
    and "\<not> ev_faults e I_attendance" "\<not> ev_faults e' I_attendance" "day_part (ev_now e') = day_part (ev_now e)"
  shows "open_rows (bc_Name c) (day_part (ev_now e))
       (tb_rows (db_attendance (ap_DB (snd (finish_checkin e' c' (snd (finish_checkin e c a2)))))))
     = open_rows (bc_Name c) (day_part (ev_now e)) (tb_rows (db_attendance (ap_DB a))) + 2"
  using assms begin_checkin_state [of e r req a] begin_checkin_state [of e' r' req' a1]
  by (simp add: finish_checkin_attendance) (simp add: open_rows_def count_where_def)

section \<open>What the student sees\<close>

definition sees :: "response \<Rightarrow> bool \<Rightarrow> bool \<Rightarrow> bool" where
  "sees resp checked_in checked_out \<longleftrightarrow> json_field ''checked_in'' resp = Some (JBool checked_in)
     \<and> (checked_in \<longrightarrow> json_field ''checked_out'' resp = Some (JBool checked_out))"

lemma latest_today_Some:
  assumes "\<And>rows. rows \<noteq> [] \<Longrightarrow> pick rows \<in> set rows"
    and "x \<in> set (tb_rows (db_attendance db))" "on_day e name x"
  obtains row where "latest_today pick e name db = Some row" "row \<in> set (tb_rows (db_attendance db))" "on_day e name row"
    "\<forall>y \<in> set (tb_rows (db_attendance db)). on_day e name y \<longrightarrow> at_check_in_time y \<le> at_check_in_time row"
proof -
  let ?rows = "filter (on_day e name) (tb_rows (db_attendance db))"
  let ?best = "greatest_by at_check_in_time ?rows"
  have "x \<in> set ?rows" using assms(2,3) by simp
  then have "?rows \<noteq> []" by force
  then have ne: "?best \<noteq> []" by (rule greatest_by_nonempty)
  have in_best: "pick ?best \<in> set ?best" using assms(1) ne by blast
  have "latest_today pick e name db = Some (pick ?best)"
    using ne by (simp add: latest_today_def split: list.split)
  moreover have "pick ?best \<in> set ?rows" using in_best by (rule greatest_by_subset)
  moreover have "\<forall>y \<in> set ?rows. at_check_in_time y \<le> at_check_in_time (pick ?best)"
    using in_best by (simp add: greatest_by_def)
  ultimately show thesis by (intro that [of "pick ?best"]) auto
qed

lemma on_day_cong: "day_part (ev_now e') = day_part (ev_now e) \<Longrightarrow> on_day e' name x = on_day e name x"
  by (simp add: on_day_def)

lemma HandleStatus_after:
  assumes "\<And>rows. rows \<noteq> [] \<Longrightarrow> pick rows \<in> set rows" "name \<noteq> []"
    and "day_part (ev_now e') = day_part (ev_now e)" "\<not> ev_faults e' Q_attendance" "rq_Query sr ''student_name'' = name"
  shows "says_welcome (fst (HandleCheckIn e r req a)) name \<Longrightarrow>
      \<forall>x \<in> set (tb_rows (db_attendance (ap_DB a))). on_day e name x \<longrightarrow> at_check_in_time x < ev_now e \<Longrightarrow>
      sees (HandleStatus pick e' sr (snd (HandleCheckIn e r req a))) True False"
    and "fst (HandleCheckOut pick e r oreq a) = goodbye_response name \<Longrightarrow>
      sees (HandleStatus pick e' sr (snd (HandleCheckOut pick e r oreq a))) True True"
proof -
  assume greeted: "says_welcome (fst (HandleCheckIn e r req a)) name"
    and old: "\<forall>x \<in> set (tb_rows (db_attendance (ap_DB a))). on_day e name x \<longrightarrow> at_check_in_time x < ev_now e"
  obtain q sid b where adm: "HandleCheckIn e r req a = (welcome_response name b, admitted e r q a name sid)"
    using greeted by (cases rule: HandleCheckIn_cases [of req e r a]) auto
  let ?db = "ap_DB (admitted e r q a name sid)"
  let ?new = "mk_attendance (sid, name, device_type_of (ci_DeviceType q), ev_now e) (tb_seq (db_attendance (ap_DB a)) + 1)"
  have rows: "tb_rows (db_attendance ?db) = tb_rows (db_attendance (ap_DB a)) @ [?new]"
    by (simp add: admitted_attendance)
  have new: "?new \<in> set (tb_rows (db_attendance ?db))" "on_day e' name ?new"
    using assms(3) by (simp_all add: rows on_day_def)
  obtain row where row: "latest_today pick e' name ?db = Some row" "row \<in> set (tb_rows (db_attendance ?db))" "on_day e' name row"
    "at_check_in_time ?new \<le> at_check_in_time row"
    using latest_today_Some [OF assms(1) new] new by metis
  have "row = ?new"
    using row(2,3,4) old on_day_cong [OF assms(3)] by (fastforce simp: rows)
  with row(1) assms(2,4,5) show "sees (HandleStatus pick e' sr (snd (HandleCheckIn e r req a))) True False"
    by (simp add: adm HandleStatus_def sees_def Let_def)
next
  assume bye: "fst (HandleCheckOut pick e r oreq a) = goodbye_response name"
  have gb: "goodbye_response n = goodbye_response name \<longleftrightarrow> n = name" for n
    by (simp add: goodbye_response_def writeJSON_def)
  have ne: "json_error st msg \<noteq> goodbye_response name" "method_not_allowed \<noteq> goodbye_response name"
    "pin_error_response b i msg \<noteq> goodbye_response name"
    "writeJSON 200 [(''ok'', JBool False), p, p', p''] \<noteq> goodbye_response name" for st msg b i p p' p''
    by (simp_all add: goodbye_response_def json_error_def writeJSON_def method_not_allowed_def http_Error_def pin_error_response_def)
  obtain q where q: "oreq = Some q" "rq_Method r = ''POST''"
    using bye ne by (cases oreq) (auto simp: HandleCheckOut_def split: if_splits)
  obtain n sid where ns: "resolve_student (ap_DB a) (co_StudentName q) (co_StudentID q) = (n, sid)" by fastforce
  obtain err a1 where v: "ValidatePIN e sid (co_PIN q) a = (err, a1)" by fastforce
  have out: "n = name" "fst (check_out_rows e name (ap_DB a1)) \<noteq> 0"
    "db_attendance (ap_DB (snd (HandleCheckOut pick e r oreq a))) = db_attendance (snd (check_out_rows e name (ap_DB a1)))"
    using bye ne gb unfolding HandleCheckOut_def
    by (auto simp: q ns v Let_def case_prod_beta split: if_splits)
  let ?db = "ap_DB (snd (HandleCheckOut pick e r oreq a))"
  let ?f = "\<lambda>x. if open_today e name x then x\<lparr>at_check_out_time := Some (ev_now e)\<rparr> else x"
  have rows: "set (tb_rows (db_attendance ?db)) = ?f ` set (tb_rows (db_attendance (ap_DB a1)))"
    by (simp add: out(3) check_out_rows_def set_update_where)
  obtain x where x: "x \<in> set (tb_rows (db_attendance (ap_DB a1)))" "open_today e name x"
    using out(2) by (auto simp: check_out_rows_fst count_where_def filter_empty_conv)
  have closed: "y \<in> set (tb_rows (db_attendance ?db)) \<Longrightarrow> on_day e' name y \<Longrightarrow> at_check_out_time y \<noteq> None" for y
    unfolding rows using on_day_cong [OF assms(3)] by (auto simp: open_today_def split: if_splits)
  have fx: "?f x \<in> set (tb_rows (db_attendance ?db))" "on_day e' name (?f x)"
    using x assms(3) unfolding rows by (auto simp: open_today_def on_day_def)
  obtain row where row: "latest_today pick e' name ?db = Some row" "at_check_out_time row \<noteq> None"
    using latest_today_Some [OF assms(1) fx] closed by metis
  then show "sees (HandleStatus pick e' sr (snd (HandleCheckOut pick e r oreq a))) True True"
    using assms(2,4,5) by (auto simp: HandleStatus_def sees_def Let_def)
qed

text \<open>
  C5. A student who has been welcomed sees that they are checked in and not checked out, for the rest
  of the day, and once a check-out has said goodbye to that name the status of the day is checked out.
\<close>

theorem status_follows_checkin_and_checkout:
  assumes "\<And>rows. rows \<noteq> [] \<Longrightarrow> pick rows \<in> set rows" "name \<noteq> []"
    and "day_part (ev_now e') = day_part (ev_now e)" "\<not> ev_faults e' Q_attendance" "rq_Query sr ''student_name'' = name"
  shows "(says_welcome (fst (HandleCheckIn e r req a)) name
       \<and> (\<forall>x \<in> set (tb_rows (db_attendance (ap_DB a))). on_day e name x \<longrightarrow> at_check_in_time x < ev_now e)
         \<longrightarrow> sees (HandleStatus pick e' sr (snd (HandleCheckIn e r req a))) True False)
     \<and> (fst (HandleCheckOut pick e r oreq a) = goodbye_response name
         \<longrightarrow> sees (HandleStatus pick e' sr (snd (HandleCheckOut pick e r oreq a))) True True)"
  using HandleStatus_after [of pick name, OF assms] by blast

section \<open>Sign-offs hold a check-out back\<close>

lemma HandleCheckOut_effect:
  assumes "ev_faults e = no_faults" "rq_Method r = ''POST''"
    and "resolve_student (ap_DB a) (co_StudentName q) (co_StudentID q) = (name, sid)" "name \<noteq> []" "sid \<noteq> []"
  shows "answers_ok (fst (HandleCheckOut pick e r (Some q) a)) \<longleftrightarrow>
      fst (ValidatePIN e sid (co_PIN q) a) = []
      \<and> pending_of e (ap_DB (snd (ValidatePIN e sid (co_PIN q) a))) sid = []
      \<and> (\<exists>x \<in> set (tb_rows (db_attendance (ap_DB a))). open_today e name x)"
    and "\<not> answers_ok (fst (HandleCheckOut pick e r (Some q) a)) \<Longrightarrow>
      tb_rows (db_attendance (ap_DB (snd (HandleCheckOut pick e r (Some q) a)))) = tb_rows (db_attendance (ap_DB a))"
proof -
  obtain err a1 where v: "ValidatePIN e sid (co_PIN q) a = (err, a1)" by fastforce
  have k: "db_attendance (ap_DB a1) = db_attendance (ap_DB a)"
    using ValidatePIN_keeps(1) [of e sid "co_PIN q" a] v by simp
  have nok: "\<not> answers_ok (pin_error_response b i msg)" "answers_ok (goodbye_response n)"
    "\<not> answers_ok (writeJSON 200 [(''ok'', JBool False), p, p', p''])" for b i msg n p p' p''
    by (simp_all add: answers_ok_def pin_error_response_def goodbye_response_def json_error_def)
  have zero: "count_where (open_today e name) rows = 0 \<longleftrightarrow> \<not> (\<exists>x \<in> set rows. open_today e name x)" for rows
    by (auto simp: count_where_def filter_empty_conv)
  show "answers_ok (fst (HandleCheckOut pick e r (Some q) a)) \<longleftrightarrow>
      fst (ValidatePIN e sid (co_PIN q) a) = []
      \<and> pending_of e (ap_DB (snd (ValidatePIN e sid (co_PIN q) a))) sid = []
      \<and> (\<exists>x \<in> set (tb_rows (db_attendance (ap_DB a))). open_today e name x)"
    using assms k by (simp add: HandleCheckOut_def v Let_def nok check_out_rows_def zero)
  show "tb_rows (db_attendance (ap_DB (snd (HandleCheckOut pick e r (Some q) a)))) = tb_rows (db_attendance (ap_DB a))"
    if "\<not> answers_ok (fst (HandleCheckOut pick e r (Some q) a))"
  proof (cases "\<exists>x \<in> set (tb_rows (db_attendance (ap_DB a1))). open_today e name x")
    case True
    then show ?thesis
      using that assms k by (auto simp: HandleCheckOut_def v Let_def nok check_out_rows_def zero split: if_splits)
  next
    case False
    then have "update_where (open_today e name) f (tb_rows (db_attendance (ap_DB a1))) = tb_rows (db_attendance (ap_DB a1))" for f
      by (intro update_where_none) blast
    then show ?thesis
      using that assms k by (auto simp: HandleCheckOut_def v Let_def nok check_out_rows_def)
  qed
qed

text \<open>
  C2. A check-out succeeds precisely when the PIN is accepted, the student has no sign-off pending and
  the name has an open row today; an answer that is not a success leaves attendance as it was.
\<close>

theorem checkout_exact:
  assumes "ev_faults e = no_faults" "rq_Method r = ''POST''"
    and "resolve_student (ap_DB a) (co_StudentName q) (co_StudentID q) = (name, sid)" "name \<noteq> []" "sid \<noteq> []"
  shows "if fst (ValidatePIN e sid (co_PIN q) a) = []
       \<and> pending_of e (ap_DB (snd (ValidatePIN e sid (co_PIN q) a))) sid = []
       \<and> (\<exists>x \<in> set (tb_rows (db_attendance (ap_DB a))). open_today e name x)
     then answers_ok (fst (HandleCheckOut pick e r (Some q) a))
     else \<not> answers_ok (fst (HandleCheckOut pick e r (Some q) a))
       \<and> tb_rows (db_attendance (ap_DB (snd (HandleCheckOut pick e r (Some q) a)))) = tb_rows (db_attendance (ap_DB a))"
  using HandleCheckOut_effect [OF assms] by presburger

text \<open>
  The other way out does not look at them: a check-out with an empty list of responses succeeds
  as soon as the PIN is accepted and the name has an open row, whatever is pending.
\<close>

theorem empty_responses_skip_signoffs:
  assumes "ev_faults e = no_faults" "rq_Method r = ''POST''" "rr_Responses q = []"
    and "resolve_student (ap_DB a) (rr_StudentName q) (rr_StudentID q) = (name, sid)" "name \<noteq> []"
    and "\<And>rows. rows \<noteq> [] \<Longrightarrow> pick rows \<in> set rows"
  shows "answers_ok (fst (HandleTrackerRespond pick e r (Some q) a)) \<longleftrightarrow>
      fst (ValidatePIN e sid (rr_PIN q) a) = []
      \<and> (\<exists>x \<in> set (tb_rows (db_attendance (ap_DB a))). open_today e name x)"
proof -
  obtain err a1 where v: "ValidatePIN e sid (rr_PIN q) a = (err, a1)" by fastforce
  have k: "db_attendance (ap_DB a1) = db_attendance (ap_DB a)"
    using ValidatePIN_keeps(1) [of e sid "rr_PIN q" a] v by simp
  have nok: "\<not> answers_ok (pin_error_response b i msg)" "answers_ok (goodbye_response n)" for b i msg n
    by (simp_all add: answers_ok_def pin_error_response_def goodbye_response_def json_error_def)
  show ?thesis
  proof (cases "\<exists>x \<in> set (tb_rows (db_attendance (ap_DB a1))). open_today e name x")
    case True
    then obtain x where x: "x \<in> set (tb_rows (db_attendance (ap_DB a1)))" "open_today e name x" by blast
    let ?db = "snd (check_out_rows e name (ap_DB a1))"
    have "x\<lparr>at_check_out_time := Some (ev_now e)\<rparr> \<in> set (tb_rows (db_attendance ?db))"
      "on_day e name (x\<lparr>at_check_out_time := Some (ev_now e)\<rparr>)"
      using x by (force simp: check_out_rows_def set_update_where open_today_def on_day_def)+
    then obtain row where row: "latest_today pick e name ?db = Some row"
      using latest_today_Some [OF assms(6)] by metis
    have pos: "fst (check_out_rows e name (ap_DB a1)) \<noteq> 0"
      using x by (auto simp: check_out_rows_fst count_where_def filter_empty_conv)
    then have "SaveTrackerResponses pick e sid name [] (ap_DB a1) = Some (check_out_rows e name (ap_DB a1))"
      using assms(1) row by (simp add: SaveTrackerResponses_def case_prod_beta Let_def)
    with assms pos x k show ?thesis
      by (auto simp: HandleTrackerRespond_def v Let_def nok case_prod_beta)
  next
    case False
    then have "fst (check_out_rows e name (ap_DB a1)) = 0"
      by (auto simp: check_out_rows_fst count_where_def filter_empty_conv)
    then have "SaveTrackerResponses pick e sid name [] (ap_DB a1) = Some (0, ap_DB a1)"
      using assms(1) by (simp add: SaveTrackerResponses_def case_prod_beta Let_def)
    with assms False k show ?thesis
      by (auto simp: HandleTrackerRespond_def v Let_def nok)
  qed
qed

lemma class_item_refused:
  assumes "task_by_id (ap_DB a) i = Some t" "ti_scope t = 2" "ti_student_id t = None"
  shows "CompleteTaskItem e i by (ap_DB a) = None"
    and "SaveLateSignoff e sid due i status notes (ap_DB a) = None"
    and "p \<in> set (rr_Responses q) \<Longrightarrow> rp_ItemID p = i \<Longrightarrow> rp_ItemType p = scopeToItemType (ti_scope t) \<Longrightarrow>
      \<not> answers_ok (fst (HandleTrackerRespond pick e r (Some q) a))"
proof -
  have f: "task_by_id (on_tasks (update_tab (\<lambda>r. ti_id r = i) f) (ap_DB a)) i
      = map_option (\<lambda>r. if ti_id r = i then f r else r) (task_by_id (ap_DB a) i)"
    if "\<And>r. ti_id (f r) = ti_id r" for f
    using that by (rule task_by_id_update)
  show "CompleteTaskItem e i by (ap_DB a) = None"
    using assms by (simp add: CompleteTaskItem_def Let_def f)
  show "SaveLateSignoff e sid due i status notes (ap_DB a) = None"
    using assms by (simp add: SaveLateSignoff_def insert_response_def response_allowed_def new_response_def
        scopeToItemType_def ScopeCenter_def ScopeClass_def)
  assume p: "p \<in> set (rr_Responses q)" "rp_ItemType p = scopeToItemType (ti_scope t)"
  then have "rp_ItemType p = ''class''"
    using assms(2) by (simp add: scopeToItemType_def ScopeCenter_def ScopeClass_def)
  then have "p \<in> set ps \<Longrightarrow> response_error ps \<noteq> None" for ps
    by (induction ps) auto
  with p(1) obtain msg where msg: "response_error (rr_Responses q) = Some msg" by blast
  obtain name s where ns: "resolve_student (ap_DB a) (rr_StudentName q) (rr_StudentID q) = (name, s)" by fastforce
  obtain err a1 where v: "ValidatePIN e s (rr_PIN q) a = (err, a1)" by fastforce
  have "\<not> answers_ok (pin_error_response b j m)" for b j m
    by (simp add: answers_ok_def pin_error_response_def json_error_def)
  then show "\<not> answers_ok (fst (HandleTrackerRespond pick e r (Some q) a))"
    by (simp add: HandleTrackerRespond_def ns v msg Let_def)
qed

text \<open>
  An item of a class can be pending but not signed off: completing it, recording a late sign-off
  for it and submitting a response labelled with its own type are all refused, because the table of
  responses admits only global and personal items, and a class item has no student.
\<close>

theorem class_item_cannot_be_signed_off:
  assumes "task_by_id (ap_DB a) i = Some t" "ti_scope t = 2" "ti_student_id t = None"
  shows "CompleteTaskItem e i by (ap_DB a) = None
     \<and> SaveLateSignoff e sid due i status notes (ap_DB a) = None
     \<and> (\<forall>p \<in> set (rr_Responses q). rp_ItemID p = i \<and> rp_ItemType p = scopeToItemType (ti_scope t) \<longrightarrow>
          \<not> answers_ok (fst (HandleTrackerRespond pick e r (Some q) a)))"
  using class_item_refused [OF assms] by blast

section \<open>Flags\<close>

lemma count_distinct_card: "count_distinct_names P db = card (au_student_name ` {x \<in> set (tb_rows (db_audit db)). P x})"
  by (simp add: count_distinct_names_def length_remdups_card_conv)

lemma set_flag_last:
  assumes "tb_rows (db_audit db) = rows @ [x]" "\<forall>y \<in> set rows. au_id y \<noteq> au_id x"
  shows "tb_rows (db_audit (set_flag (au_id x) reason db)) = rows @ [x\<lparr>au_flagged := 1, au_flag_reason := Some reason\<rparr>]"
proof -
  have "update_where (\<lambda>a. au_id a = au_id x) f rows = rows" for f
    using assms(2) by (intro update_where_none) auto
  then show ?thesis by (simp add: set_flag_def assms(1)) (simp add: update_where_def)
qed

text \<open>
  A check-in that is recorded adds one audit entry, and that entry is flagged exactly when the same
  device checked another student in within the last five minutes, or when the names it checked in
  today, this one included, are at least three.
\<close>

theorem flags_exact:
  assumes "ev_faults e = no_faults" "keys_ok au_id (db_audit (ap_DB a))"
    and "says_welcome (fst (HandleCheckIn e r (Some q) a)) name"
  defines "dev \<equiv> same_device (ClientIP r) (ci_Fingerprint q) (ci_DeviceID q)"
  defines "log \<equiv> set (tb_rows (db_audit (ap_DB a)))"
  shows "\<exists>row. tb_rows (db_audit (ap_DB (snd (HandleCheckIn e r (Some q) a)))) = tb_rows (db_audit (ap_DB a)) @ [row]
     \<and> au_student_name row = name \<and> dev row
     \<and> (au_flagged row = 1 \<longleftrightarrow>
          (\<exists>x \<in> log. dev x \<and> au_student_name x \<noteq> name \<and> ev_now e - 300 \<le> au_created_at x)
          \<or> 3 \<le> card (insert name (au_student_name ` {x \<in> log. dev x \<and> day_part (au_created_at x) = day_part (ev_now e)})))"
proof -
  obtain sid b where adm: "HandleCheckIn e r (Some q) a = (welcome_response name b, admitted e r q a name sid)"
    using assms(3) by (cases rule: HandleCheckIn_cases [of "Some q" e r a]) auto
  let ?a1 = "snd (ValidatePIN e sid (ci_PIN q) a)"
  define i where "i = tb_seq (db_attendance (ap_DB ?a1)) + 1"
  define row where "row = mk_audit (audit_entry e i name sid (device_type_of (ci_DeviceType q)) (ClientIP r)
    (ci_Fingerprint q) (ci_DeviceID q) ''checkin'') (tb_seq (db_audit (ap_DB a)) + 1)"
  have row: "au_id row = tb_seq (db_audit (ap_DB a)) + 1" "au_student_name row = name" "dev row"
    "au_created_at row = ev_now e" "au_flagged row = 0"
    by (simp_all add: row_def mk_audit_def audit_entry_def dev_def same_device_def)
  obtain db where db: "tb_rows (db_audit db) = tb_rows (db_audit (ap_DB a)) @ [row]"
    "ap_DB (admitted e r q a name sid) = FlagSuspiciousCheckins e (au_id row) (ClientIP r) (ci_Fingerprint q) (ci_DeviceID q) name db"
  proof (rule that)
    let ?db0 = "(ap_DB ?a1)\<lparr>db_attendance := insert_row (mk_attendance (sid, name, device_type_of (ci_DeviceType q), ev_now e)) (db_attendance (ap_DB ?a1))\<rparr>"
    let ?db1 = "if sid \<noteq> [] then linkAttendanceMetaByID e i sid ?db0 else linkAttendanceMeta e i name ?db0"
    let ?db2 = "snd (InsertAudit e (audit_entry e i name sid (device_type_of (ci_DeviceType q)) (ClientIP r)
      (ci_Fingerprint q) (ci_DeviceID q) ''checkin'') ?db1)"
    have d1: "db_audit ?db1 = db_audit (ap_DB a)" by simp
    show "tb_rows (db_audit ?db2) = tb_rows (db_audit (ap_DB a)) @ [row]"
      using assms(1) d1 by (simp add: InsertAudit_def row_def)
    show "ap_DB (admitted e r q a name sid) = FlagSuspiciousCheckins e (au_id row) (ClientIP r) (ci_Fingerprint q) (ci_DeviceID q) name ?db2"
      using assms(1) d1 by (simp add: admitted_def record_checkin_def Let_def InsertAudit_def row(1) i_def case_prod_beta)
  qed
  have fresh: "\<forall>y \<in> set (tb_rows (db_audit (ap_DB a))). au_id y \<noteq> au_id row"
    using audit_tab.fresh [OF assms(2)] row(1) by simp
  note flag = set_flag_last [OF db(1) fresh]
  have recent: "1 \<le> count_distinct_names (\<lambda>x. dev x \<and> ev_now e - 300 \<le> au_created_at x \<and> au_student_name x \<noteq> name) db
      \<longleftrightarrow> (\<exists>x \<in> log. dev x \<and> au_student_name x \<noteq> name \<and> ev_now e - 300 \<le> au_created_at x)"
    unfolding count_distinct_card using row(2)
    by (auto simp: db(1) log_def Suc_le_eq card_gt_0_iff)
  have "au_student_name ` {x \<in> set (tb_rows (db_audit db)). dev x \<and> day_part (au_created_at x) = day_part (ev_now e)}
      = insert name (au_student_name ` {x \<in> log. dev x \<and> day_part (au_created_at x) = day_part (ev_now e)})"
    using row by (auto simp: db(1) log_def)
  then have daily: "count_distinct_names (\<lambda>x. dev x \<and> day_part (au_created_at x) = day_part (ev_now e)) db
      = card (insert name (au_student_name ` {x \<in> log. dev x \<and> day_part (au_created_at x) = day_part (ev_now e)}))"
    by (simp add: count_distinct_card)
  have kept: "au_student_name (row\<lparr>au_flagged := 1, au_flag_reason := Some z\<rparr>) = name"
    "dev (row\<lparr>au_flagged := 1, au_flag_reason := Some z\<rparr>)" "au_flagged (row\<lparr>au_flagged := 1, au_flag_reason := Some z\<rparr>) = 1" for z
    using row(2,3) by (simp_all add: dev_def same_device_def)
  show ?thesis
  proof (cases "\<exists>x \<in> log. dev x \<and> au_student_name x \<noteq> name \<and> ev_now e - 300 \<le> au_created_at x")
    case True
    then have "ap_DB (admitted e r q a name sid) = set_flag (au_id row) reason_recent db"
      using recent assms(1) unfolding db(2) dev_def by (simp add: FlagSuspiciousCheckins_def)
    with True flag [of reason_recent] kept [of reason_recent] show ?thesis by (auto simp: adm)
  next
    case no: False
    show ?thesis
    proof (cases "3 \<le> card (insert name (au_student_name ` {x \<in> log. dev x \<and> day_part (au_created_at x) = day_part (ev_now e)}))")
      case True
      then have "ap_DB (admitted e r q a name sid) = set_flag (au_id row) reason_daily db"
        using recent daily no assms(1) unfolding db(2) dev_def by (simp add: FlagSuspiciousCheckins_def Let_def)
      with True flag [of reason_daily] kept [of reason_daily] show ?thesis by (auto simp: adm)
    next
      case False
      then have "ap_DB (admitted e r q a name sid) = db"
        using recent daily no assms(1) unfolding db(2) dev_def by (simp add: FlagSuspiciousCheckins_def Let_def)
      with False no db(1) row show ?thesis by (auto simp: adm)
    qed
  qed
qed

section \<open>Examples\<close>

definition open_app :: app where
  "open_app = alice_app\<lparr>ap_PinMode := ''off''\<rparr>"

definition alice_in :: checkin_request where
  "alice_in = \<lparr>ci_StudentName = ''Alice Wang'', ci_StudentID = ''S001'', ci_PIN = [], ci_DeviceType = ''mobile'',
     ci_Fingerprint = [], ci_DeviceID = []\<rparr>"

definition alice_out :: checkout_request where
  "alice_out = \<lparr>co_StudentName = ''Alice Wang'', co_StudentID = ''S001'', co_PIN = [], co_Fingerprint = [], co_DeviceID = []\<rparr>"

lemma demo_day: "day_part (ev_now (demo_env noon)) = jan12"
  by (simp add: demo_env_def day_part_noon)

lemma open_app_fields:
  "db_attendance (ap_DB open_app) = empty_tab" "db_audit (ap_DB open_app) = empty_tab" "ap_RateLimiter open_app = None"
  "ev_faults (demo_env noon) = no_faults" "rq_Method post_request = ''POST''"
  by (simp_all add: open_app_def alice_app_def demo_app_def empty_db_def demo_env_def post_request_def)

lemma open_app_pin: "ValidatePIN (demo_env noon) ''S001'' pin open_app = ([], open_app)"
  by (simp add: ValidatePIN_def StudentRequiresPIN_def student_by_id_def open_app_def alice_app_def alice_def
      new_student_def pin_mode_def)

lemma resolve_both: "name \<noteq> [] \<Longrightarrow> sid \<noteq> [] \<Longrightarrow> resolve_student db name sid = (name, sid)"
  by (simp add: resolve_student_def)

lemma alice_admitted: "admits (demo_env noon) post_request alice_in open_app ''Alice Wang'' ''S001''"
  by (simp add: admits_def open_app_fields open_app_pin resolve_both alice_in_def empty_tab_def)

lemma alice_greeted: "says_welcome (fst (HandleCheckIn (demo_env noon) post_request (Some alice_in) open_app)) ''Alice Wang''"
  using alice_admitted by (simp add: admits_def HandleCheckIn_eq open_app_pin open_app_fields empty_tab_def Let_def)

lemma alice_begun:
  "begin_checkin (demo_env noon) post_request (Some alice_in) open_app =
     (Inr \<lparr>bc_Name = ''Alice Wang'', bc_StudentID = ''S001'', bc_DeviceType = ''mobile'',
        bc_ClientIP = ClientIP post_request, bc_Fingerprint = [], bc_DeviceID = []\<rparr>, open_app)"
  using alice_admitted by (simp add: admits_def begin_checkin_def open_app_pin open_app_fields empty_tab_def Let_def
      alice_in_def device_type_of_def)

text \<open>Alice taps twice: both requests look before either inserts, and she has two open rows.\<close>

lemma double_tap_leaves_two_rows:
  "alice_check = \<lparr>bc_Name = ''Alice Wang'', bc_StudentID = ''S001'', bc_DeviceType = ''mobile'',
        bc_ClientIP = ClientIP post_request, bc_Fingerprint = [], bc_DeviceID = []\<rparr> \<Longrightarrow>
     open_rows ''Alice Wang'' jan12 (tb_rows (db_attendance (ap_DB (snd (finish_checkin (demo_env noon) alice_check
       (snd (finish_checkin (demo_env noon) alice_check open_app))))))) = 2"
  using overlapping_checkins [OF alice_begun alice_begun]
  by (simp add: open_app_fields empty_tab_def demo_day)
    (simp add: open_rows_def count_where_def)

theorem one_open_row_per_day_witness:
  "length (filter (\<lambda>r. at_student_name r = ''Alice Wang'' \<and> day_part (at_check_in_time r) = jan12 \<and> at_check_out_time r = None)
     (tb_rows (db_attendance (ap_DB (snd (HandleCheckIn (demo_env noon) post_request (Some alice_in) open_app)))))) \<le> 1"
proof -
  define c where "c = \<lparr>bc_Name = ''Alice Wang'', bc_StudentID = ''S001'', bc_DeviceType = ''mobile'',
        bc_ClientIP = ClientIP post_request, bc_Fingerprint = [], bc_DeviceID = []\<rparr>"
  let ?s = "\<lparr>cr_app = open_app, cr_day = 0, cr_begun = [], cr_disturbed = {}\<rparr>"
  let ?d = "day_part (ev_now (demo_env noon))"
  let ?b = "snd (finish_checkin (demo_env noon) c open_app)"
  have d: "0 \<le> ?d" by (simp add: demo_day jan12_def)
  have "attendance_step ?s \<lparr>cr_app = open_app, cr_day = ?d, cr_begun = [c], cr_disturbed = {}\<rparr>"
    using attendance_step.looked [of "demo_env noon" post_request "Some alice_in" ?s c open_app] alice_begun d
    by (simp add: c_def open_app_fields)
  moreover have "attendance_step \<lparr>cr_app = open_app, cr_day = ?d, cr_begun = [c], cr_disturbed = {}\<rparr>
      \<lparr>cr_app = ?b, cr_day = ?d, cr_begun = [], cr_disturbed = {}\<rparr>"
    using attendance_step.wrote [of "\<lparr>cr_app = open_app, cr_day = ?d, cr_begun = [c], cr_disturbed = {}\<rparr>" "[]" c "[]" "demo_env noon"]
    by simp
  ultimately have run: "attendance_step\<^sup>*\<^sup>* ?s \<lparr>cr_app = ?b, cr_day = ?d, cr_begun = [], cr_disturbed = {}\<rparr>"
    by (meson converse_rtranclp_into_rtranclp rtranclp.rtrancl_refl)
  have "?b = snd (HandleCheckIn (demo_env noon) post_request (Some alice_in) open_app)"
    by (simp add: HandleCheckIn_def alice_begun c_def)
  with one_open_row_per_day [OF run] show ?thesis by (simp add: open_app_fields)
qed

theorem status_follows_checkin_and_checkout_witness:
  "sees (HandleStatus hd (demo_env noon) (post_request\<lparr>rq_Query := \<lambda>_. ''Alice Wang''\<rparr>)
     (snd (HandleCheckIn (demo_env noon) post_request (Some alice_in) open_app))) True False"
proof -
  have "\<And>rows :: attendance_row list. rows \<noteq> [] \<Longrightarrow> hd rows \<in> set rows" by simp
  from status_follows_checkin_and_checkout [where pick = hd and name = "''Alice Wang''" and e = "demo_env noon"
      and e' = "demo_env noon" and r = post_request and req = "Some alice_in" and a = open_app
      and sr = "post_request\<lparr>rq_Query := \<lambda>_. ''Alice Wang''\<rparr>", OF this]
  show ?thesis using alice_greeted by (simp add: open_app_fields empty_tab_def)
qed

theorem checkout_exact_witness:
  "\<not> answers_ok (fst (HandleCheckOut hd (demo_env noon) post_request (Some alice_out) open_app))"
  using checkout_exact [of "demo_env noon" post_request open_app alice_out "''Alice Wang''" "''S001''" hd]
  by (simp add: open_app_fields resolve_both alice_out_def empty_tab_def split: if_splits)

theorem empty_responses_skip_signoffs_witness:
  "\<not> answers_ok (fst (HandleTrackerRespond hd (demo_env noon) post_request
      (Some \<lparr>rr_StudentName = ''Alice Wang'', rr_StudentID = ''S001'', rr_PIN = [], rr_Responses = []\<rparr>) open_app))"
  by (subst empty_responses_skip_signoffs [where name = "''Alice Wang''" and sid = "''S001''"])
    (simp_all add: open_app_fields resolve_both empty_tab_def)

definition class_reading :: task_row where
  "class_reading = reading\<lparr>ti_scope := 2, ti_student_id := None, ti_schedule_id := Some ''SCH001''\<rparr>"

theorem class_item_cannot_be_signed_off_witness:
  "CompleteTaskItem (demo_env noon) 1 ''T01'' (empty_db\<lparr>db_tasks := \<lparr>tb_rows = [class_reading], tb_seq = 1\<rparr>\<rparr>) = None"
  using class_item_cannot_be_signed_off [of "open_app\<lparr>ap_DB := empty_db\<lparr>db_tasks := \<lparr>tb_rows = [class_reading], tb_seq = 1\<rparr>\<rparr>\<rparr>"
      1 class_reading "demo_env noon" "''T01''"]
  by (simp add: task_by_id_def class_reading_def reading_def mk_task_def task_row_of_def)

theorem flags_exact_witness:
  "\<exists>row. tb_rows (db_audit (ap_DB (snd (HandleCheckIn (demo_env noon) post_request (Some alice_in) open_app)))) = [row]
     \<and> au_student_name row = ''Alice Wang'' \<and> au_flagged row \<noteq> 1"
  using flags_exact [OF open_app_fields(4) _ alice_greeted] audit_tab.keys_empty
  by (simp add: open_app_fields) (auto simp: empty_tab_def)

end
