(* ===== verification/PinDay.thy ===== *)
theory PinDay
  imports Checkins
begin

text \<open>
  A PIN holds for its day: a run of requests that may come between the moment the PIN of a student
  is settled and a request of that student later on the same day, and the PIN that one needs.
\<close>

section \<open>What attendance does to PINs\<close>

lemma record_checkin_pins:
  "db_students (ap_DB (record_checkin e ip name sid device fp did a)) = db_students (ap_DB a)"
  "ap_PinMode (record_checkin e ip name sid device fp did a) = ap_PinMode a"
  "ap_pinDate (record_checkin e ip name sid device fp did a) = ap_pinDate a"
  "ap_dailyPIN (record_checkin e ip name sid device fp did a) = ap_dailyPIN a"
  by (simp_all add: record_checkin_def Let_def case_prod_beta linkAttendanceMetaByID_def linkAttendanceMeta_def
      InsertAudit_def FlagSuspiciousCheckins_def set_flag_def)

lemma record_checkout_pins:
  "db_students (ap_DB (record_checkout pick e ip name sid fp did a)) = db_students (ap_DB a)"
  "ap_PinMode (record_checkout pick e ip name sid fp did a) = ap_PinMode a"
  "ap_pinDate (record_checkout pick e ip name sid fp did a) = ap_pinDate a"
  "ap_dailyPIN (record_checkout pick e ip name sid fp did a) = ap_dailyPIN a"
  by (simp_all add: record_checkout_def Let_def case_prod_beta InsertAudit_def InvalidateProgressCache_def)

lemma insert_responses_students:
  "insert_responses e sid name i ps db = Some db' \<Longrightarrow> db_students db' = db_students db"
  by (induction ps arbitrary: db) (auto simp: Let_def insert_response_def split: option.splits if_splits)

lemma SaveTrackerResponses_students:
  "SaveTrackerResponses pick e sid name ps db = Some (n, db') \<Longrightarrow> db_students db' = db_students db"
  by (auto simp: SaveTrackerResponses_def check_out_rows_def case_prod_beta Let_def
      dest: insert_responses_students split: if_splits option.splits)

text \<open>The PINs of two states are the same.\<close>

definition same_pins :: "app \<Rightarrow> app \<Rightarrow> bool" where
  "same_pins a b \<longleftrightarrow> db_students (ap_DB b) = db_students (ap_DB a) \<and> ap_PinMode b = ap_PinMode a
     \<and> ap_pinDate b = ap_pinDate a \<and> ap_dailyPIN b = ap_dailyPIN a"

lemma settled_same_pins: "same_pins a b \<Longrightarrow> settled day a sid p \<Longrightarrow> settled day b sid p"
  by (erule settled_frame) (simp_all add: same_pins_def student_by_id_def)

lemma begin_checkin_pins: "\<exists>i q. same_pins a (snd (begin_checkin e r req a)) \<or> snd (begin_checkin e r req a) = snd (ValidatePIN e i q a)"
proof (cases req)
  case (Some q)
  obtain name sid where ns: "resolve_student (ap_DB a) (ci_StudentName q) (ci_StudentID q) = (name, sid)" by fastforce
  obtain err a1 where v: "ValidatePIN e sid (ci_PIN q) a = (err, a1)" by fastforce
  then have a1: "a1 = snd (ValidatePIN e sid (ci_PIN q) a)" by simp
  have "same_pins a (snd (begin_checkin e r req a)) \<or> snd (begin_checkin e r req a) = a1"
    by (auto simp: begin_checkin_def Some ns v Let_def same_pins_def)
  then show ?thesis unfolding a1 by blast
qed (simp add: begin_checkin_def same_pins_def)

lemma finish_checkin_pins: "same_pins a (snd (finish_checkin e c a))"
  by (simp add: finish_checkin_def same_pins_def Let_def record_checkin_pins)

lemma HandleCheckOut_pins:
  "\<exists>i q. same_pins a (snd (HandleCheckOut pick e r req a))
     \<or> same_pins (snd (ValidatePIN e i q a)) (snd (HandleCheckOut pick e r req a))"
proof (cases req)
  case (Some q)
  obtain name sid where ns: "resolve_student (ap_DB a) (co_StudentName q) (co_StudentID q) = (name, sid)" by fastforce
  obtain err a1 where v: "ValidatePIN e sid (co_PIN q) a = (err, a1)" by fastforce
  then have a1: "a1 = snd (ValidatePIN e sid (co_PIN q) a)" by simp
  have "same_pins a (snd (HandleCheckOut pick e r req a)) \<or> same_pins a1 (snd (HandleCheckOut pick e r req a))"
    by (auto simp: HandleCheckOut_def Some ns v Let_def same_pins_def check_out_rows_def record_checkout_pins)
  then show ?thesis unfolding a1 by blast
qed (simp add: HandleCheckOut_def same_pins_def)

lemma HandleTrackerRespond_pins:
  "\<exists>i q. same_pins a (snd (HandleTrackerRespond pick e r req a))
     \<or> same_pins (snd (ValidatePIN e i q a)) (snd (HandleTrackerRespond pick e r req a))"
proof (cases req)
  case (Some q)
  obtain name sid where ns: "resolve_student (ap_DB a) (rr_StudentName q) (rr_StudentID q) = (name, sid)" by fastforce
  obtain err a1 where v: "ValidatePIN e sid (rr_PIN q) a = (err, a1)" by fastforce
  then have a1: "a1 = snd (ValidatePIN e sid (rr_PIN q) a)" by simp
  have "same_pins a (snd (HandleTrackerRespond pick e r req a)) \<or> same_pins a1 (snd (HandleTrackerRespond pick e r req a))"
    by (auto simp: HandleTrackerRespond_def Some ns v Let_def same_pins_def InvalidateProgressCache_def
        dest: SaveTrackerResponses_students split: option.split)
  then show ?thesis unfolding a1 by blast
qed (simp add: HandleTrackerRespond_def same_pins_def)

section \<open>A day of requests\<close>

text \<open>
  The requests, answered one after another, that may come between: on that day, PIN checks, check-ins
  and check-outs of anyone; changes of the center's PIN and of the PIN mode if the student has a PIN
  of their own; a new PIN for a student, unless it is this one and has one of their own; switching
  the own PIN of another student on or off; and any other request, such as saving the row of
  another student, that leaves this student's row and the center's PIN alone.
\<close>

inductive pin_day_step :: "string \<Rightarrow> string \<Rightarrow> app \<Rightarrow> app \<Rightarrow> bool" for day sid where
  validate: "today e = day \<Longrightarrow> pin_day_step day sid a (snd (ValidatePIN e i q a))"
| daily: "today e = day \<Longrightarrow> pin_day_step day sid a (snd (EnsureDailyPIN e a))"
| checkin: "today e = day \<Longrightarrow> pin_day_step day sid a (snd (begin_checkin e r ireq a))"
| recorded: "pin_day_step day sid a (snd (finish_checkin e c a))"
| checkout: "today e = day \<Longrightarrow> pin_day_step day sid a (snd (HandleCheckOut pick e r oreq a))"
| respond: "today e = day \<Longrightarrow> pin_day_step day sid a (snd (HandleTrackerRespond pick e r rreq a))"
| center: "own_pin a sid \<Longrightarrow> pin_day_step day sid a (snd (HandlePINChange e r np a))"
| mode: "own_pin a sid \<Longrightarrow> pin_day_step day sid a (snd (HandlePINModeChange r m a))"
| toggle: "own_pin a sid \<Longrightarrow> pin_day_step day sid a (snd (HandlePINToggle r v a))"
| reset: "\<not> (own_pin a sid \<and> preq = Some sid) \<Longrightarrow> pin_day_step day sid a (snd (HandleStudentPINReset e r preq a))"
| require: "(\<And>v. qreq \<noteq> Some (sid, v)) \<Longrightarrow> pin_day_step day sid a (snd (HandleStudentRequirePIN e r qreq a))"
| elsewhere: "student_by_id (ap_DB b) sid = student_by_id (ap_DB a) sid \<Longrightarrow> ap_PinMode b = ap_PinMode a \<Longrightarrow>
    ap_pinDate b = ap_pinDate a \<Longrightarrow> ap_dailyPIN b = ap_dailyPIN a \<Longrightarrow> pin_day_step day sid a b"

lemma settled_step:
  assumes "pin_day_step day sid a b" "settled day a sid p" "p \<noteq> []"
  shows "settled day b sid p"
  using assms(1)
proof cases
  case (validate e i q)
  then show ?thesis using settled_ValidatePIN [of e a sid p i q] assms(2,3) by simp
next
  case (daily e)
  show ?thesis
  proof (cases "own_pin a sid")
    case True
    with assms(2) show ?thesis by (rule settled_own) (simp add: daily EnsureDailyPIN_keeps)
  next
    case False
    then have "ap_pinDate a = day" using assms(2) unfolding settled_def own_pin_def by (simp only: if_False)
    then show ?thesis using assms(2) daily by (simp add: EnsureDailyPIN_keeps)
  qed
next
  case (checkin e r ireq)
  then show ?thesis
    using begin_checkin_pins [of a e r ireq] settled_ValidatePIN [of e a sid p] settled_same_pins assms(2,3) by metis
next
  case (recorded e c)
  then show ?thesis using settled_same_pins [OF finish_checkin_pins assms(2)] by simp
next
  case (checkout e pick r oreq)
  then show ?thesis
    using HandleCheckOut_pins [of a pick e r oreq] settled_ValidatePIN [of e a sid p] settled_same_pins assms(2,3) by metis
next
  case (respond e pick r rreq)
  then show ?thesis
    using HandleTrackerRespond_pins [of a pick e r rreq] settled_ValidatePIN [of e a sid p] settled_same_pins assms(2,3)
    by metis
next
  case (center e r np)
  show ?thesis
    by (rule settled_own [OF assms(2) center(2)])
      (simp add: center(1) HandlePINChange_def SetPIN_def split: option.split)
next
  case (mode r m)
  show ?thesis
    by (rule settled_own [OF assms(2) mode(2)])
      (simp add: mode(1) HandlePINModeChange_def saveConfig_def SetRequirePIN_def split: option.split)
next
  case (toggle r v)
  show ?thesis
    by (rule settled_own [OF assms(2) toggle(2)])
      (simp add: toggle(1) HandlePINToggle_def SetRequirePIN_def split: option.split)
next
  case (reset preq e r)
  then show ?thesis using settled_reset [OF assms(2), of preq e r] by simp
next
  case (require qreq e r)
  then show ?thesis using settled_require [OF assms(2), of qreq e r] by simp
next
  case elsewhere
  then show ?thesis by (intro settled_frame [OF assms(2)])
qed



end
