(* ===== verification/CronNext.thy ===== *)
theory CronNext
  imports Calendar "HOL-Library.Word"
begin

unbundle bit_operations_syntax

text \<open>
  The activation times of a cron schedule: \<open>SpecSchedule.Next\<close> and \<open>dayMatches\<close> of
  \<open>memos/lib/cron/spec.go\<close>, and \<open>ConstantDelaySchedule\<close> of \<open>constantdelay.go\<close>.

  An instant is a whole number of seconds since 1 January of year 1, UTC, the epoch of Go's
  \<open>time.Time\<close>; where the code looks at nanoseconds the instant is given in nanoseconds. A zone is
  its offset from UTC in seconds as a function of the instant. The five loops of \<open>Next\<close> have one
  shape, \<open>field_loop\<close>; it and the jumps back to \<open>WRAP\<close> may not end in a zone that runs backwards,
  so their results are options, \<open>None\<close> for not returning.
\<close>

section \<open>Instants in a zone\<close>

type_synonym zone = "int \<Rightarrow> int"

definition wall :: "zone \<Rightarrow> int \<Rightarrow> int" where
  "wall z t = t + z t"

definition tm_year :: "zone \<Rightarrow> int \<Rightarrow> int" where "tm_year z t = year_of (wall z t div 86400)"
definition tm_month :: "zone \<Rightarrow> int \<Rightarrow> int" where "tm_month z t = month_of (wall z t div 86400)"
definition tm_day :: "zone \<Rightarrow> int \<Rightarrow> int" where "tm_day z t = dom_of (wall z t div 86400)"
definition tm_weekday :: "zone \<Rightarrow> int \<Rightarrow> int" where "tm_weekday z t = weekday (wall z t div 86400)"
definition tm_hour :: "zone \<Rightarrow> int \<Rightarrow> int" where "tm_hour z t = wall z t mod 86400 div 3600"
definition tm_minute :: "zone \<Rightarrow> int \<Rightarrow> int" where "tm_minute z t = wall z t mod 3600 div 60"
definition tm_second :: "zone \<Rightarrow> int \<Rightarrow> int" where "tm_second z t = wall z t mod 60"

text \<open>
  \<open>time.Date\<close>, with its normalisation of the month and the day: the offset is the one of the wall
  time read as UTC, looked up again at the instant that gives.
\<close>

definition time_Date :: "zone \<Rightarrow> int \<Rightarrow> int \<Rightarrow> int \<Rightarrow> int \<Rightarrow> int \<Rightarrow> int \<Rightarrow> int" where
  "time_Date z y mo d h mi s =
     (let y' = y + (mo - 1) div 12; m' = (mo - 1) mod 12 + 1;
          w = day_of y' m' d * 86400 + h * 3600 + mi * 60 + s
      in w - z (w - z w))"

definition AddDate :: "zone \<Rightarrow> int \<Rightarrow> int \<Rightarrow> int \<Rightarrow> int \<Rightarrow> int" where
  "AddDate z t years months days =
     time_Date z (tm_year z t + years) (tm_month z t + months) (tm_day z t + days)
       (tm_hour z t) (tm_minute z t) (tm_second z t)"

definition Truncate :: "int \<Rightarrow> int \<Rightarrow> int" where
  "Truncate d t = t - t mod d"

section \<open>Schedules\<close>

datatype location = LocalZone | InZone zone

record spec_schedule =
  sp_Second :: "64 word"
  sp_Minute :: "64 word"
  sp_Hour :: "64 word"
  sp_Dom :: "64 word"
  sp_Month :: "64 word"
  sp_Dow :: "64 word"
  sp_Location :: location

definition starBit :: "64 word" where
  "starBit = push_bit 63 1"

definition has_bit :: "64 word \<Rightarrow> int \<Rightarrow> bool" where
  "has_bit bits v \<longleftrightarrow> push_bit (nat v) 1 AND bits \<noteq> 0"

definition dayMatches :: "spec_schedule \<Rightarrow> zone \<Rightarrow> int \<Rightarrow> bool" where
  "dayMatches s z t =
     (let domMatch = has_bit (sp_Dom s) (tm_day z t); dowMatch = has_bit (sp_Dow s) (tm_weekday z t)
      in if sp_Dom s AND starBit \<noteq> 0 \<or> sp_Dow s AND starBit \<noteq> 0 then domMatch \<and> dowMatch
         else domMatch \<or> dowMatch)"

text \<open>
  A loop of \<open>Next\<close>: while the field does not match, bring the finer fields back to their start if
  nothing was added before, add one unit, and wrap when the field starts again. The result says
  whether it wrapped, the instant, and the \<open>added\<close> flag.
\<close>

partial_function (option) field_loop ::
  "(int \<Rightarrow> bool) \<Rightarrow> (int \<Rightarrow> int) \<Rightarrow> (int \<Rightarrow> int) \<Rightarrow> (int \<Rightarrow> bool) \<Rightarrow> int \<Rightarrow> bool \<Rightarrow> (bool \<times> int \<times> bool) option" where
  "field_loop matches reset add_one wrapped t added =
     (if matches t then Some (False, t, added)
      else let t' = add_one (if added then t else reset t) in
           if wrapped t' then Some (True, t', True) else field_loop matches reset add_one wrapped t' True)"

definition month_loop :: "spec_schedule \<Rightarrow> zone \<Rightarrow> int \<Rightarrow> bool \<Rightarrow> (bool \<times> int \<times> bool) option" where
  "month_loop s z = field_loop (\<lambda>t. has_bit (sp_Month s) (tm_month z t))
     (\<lambda>t. time_Date z (tm_year z t) (tm_month z t) 1 0 0 0)
     (\<lambda>t. AddDate z t 0 1 0) (\<lambda>t. tm_month z t = 1)"

text \<open>A midnight that does not exist leaves the hour at 23 or 1; the loop moves to it.\<close>

definition add_day :: "zone \<Rightarrow> int \<Rightarrow> int" where
  "add_day z t =
     (let t = AddDate z t 0 0 1 in
      if tm_hour z t \<noteq> 0 then
        if 12 < tm_hour z t then t + (24 - tm_hour z t) * 3600 else t + (- tm_hour z t) * 3600
      else t)"

definition day_loop :: "spec_schedule \<Rightarrow> zone \<Rightarrow> int \<Rightarrow> bool \<Rightarrow> (bool \<times> int \<times> bool) option" where
  "day_loop s z = field_loop (dayMatches s z)
     (\<lambda>t. time_Date z (tm_year z t) (tm_month z t) (tm_day z t) 0 0 0)
     (add_day z) (\<lambda>t. tm_day z t = 1)"

definition hour_loop :: "spec_schedule \<Rightarrow> zone \<Rightarrow> int \<Rightarrow> bool \<Rightarrow> (bool \<times> int \<times> bool) option" where
  "hour_loop s z = field_loop (\<lambda>t. has_bit (sp_Hour s) (tm_hour z t))
     (\<lambda>t. time_Date z (tm_year z t) (tm_month z t) (tm_day z t) (tm_hour z t) 0 0)
     (\<lambda>t. t + 3600) (\<lambda>t. tm_hour z t = 0)"

definition minute_loop :: "spec_schedule \<Rightarrow> zone \<Rightarrow> int \<Rightarrow> bool \<Rightarrow> (bool \<times> int \<times> bool) option" where
  "minute_loop s z = field_loop (\<lambda>t. has_bit (sp_Minute s) (tm_minute z t))
     (Truncate 60) (\<lambda>t. t + 60) (\<lambda>t. tm_minute z t = 0)"

definition second_loop :: "spec_schedule \<Rightarrow> zone \<Rightarrow> int \<Rightarrow> bool \<Rightarrow> (bool \<times> int \<times> bool) option" where
  "second_loop s z = field_loop (\<lambda>t. has_bit (sp_Second s) (tm_second z t))
     (Truncate 1) (\<lambda>t. t + 1) (\<lambda>t. tm_second z t = 0)"

text \<open>
  The code after \<open>WRAP\<close>: \<open>Some None\<close> is the zero time. A loop that wraps jumps back, one that
  does not falls through to the next field.
\<close>

partial_function (option) wrap_loop :: "spec_schedule \<Rightarrow> zone \<Rightarrow> int \<Rightarrow> int \<Rightarrow> bool \<Rightarrow> int option option" where
  "wrap_loop s z yearLimit t added =
     (if yearLimit < tm_year z t then Some None
      else Option.bind (month_loop s z t added) (\<lambda>(w, t, added).
        if w then wrap_loop s z yearLimit t added
        else Option.bind (day_loop s z t added) (\<lambda>(w, t, added).
          if w then wrap_loop s z yearLimit t added
          else Option.bind (hour_loop s z t added) (\<lambda>(w, t, added).
            if w then wrap_loop s z yearLimit t added
            else Option.bind (minute_loop s z t added) (\<lambda>(w, t, added).
              if w then wrap_loop s z yearLimit t added
              else Option.bind (second_loop s z t added) (\<lambda>(w, t, added).
                if w then wrap_loop s z yearLimit t added else Some (Some t)))))))"

text \<open>
  The time comes in with the zone it is expressed in. The result is in whole seconds; expressing it
  in the original zone again does not change the instant.
\<close>

definition effective_zone :: "spec_schedule \<Rightarrow> zone \<Rightarrow> zone" where
  "effective_zone s z = (case sp_Location s of LocalZone \<Rightarrow> z | InZone loc \<Rightarrow> loc)"

definition upcoming_second :: "int \<Rightarrow> int" where
  "upcoming_second ns = (ns + 1000000000 - ns mod 1000000000) div 1000000000"

definition SpecSchedule_Next :: "spec_schedule \<Rightarrow> zone \<Rightarrow> int \<Rightarrow> int option option" where
  "SpecSchedule_Next s z ns =
     (let loc = effective_zone s z; t = upcoming_second ns
      in wrap_loop s loc (tm_year loc t + 5) t False)"

section \<open>Constant delays, in nanoseconds\<close>

definition go_second :: int where "go_second = 1000000000"

text \<open>A constant delay is its \<open>Delay\<close>.\<close>

definition Every :: "int \<Rightarrow> int" where
  "Every duration =
     (let duration = (if duration < go_second then go_second else duration)
      in duration - duration mod go_second)"

definition ConstantDelay_Next :: "int \<Rightarrow> int \<Rightarrow> int" where
  "ConstantDelay_Next delay ns = ns + (delay - ns mod go_second)"

end
