(* ===== verification/CronExact.thy ===== *)
theory CronExact
  imports CronNext
begin

text \<open>
  \<open>SpecSchedule.Next\<close> returns, and returns the earliest matching second, in every zone of fixed
  offset. The five loops satisfy one interface, the locale \<open>cron_field\<close>: a field numbers consecutive
  units of time, each within a unit of the coarser field, and a loop walks over the units that do
  not match until it finds one that does or the coarser unit is over.
\<close>

section \<open>Units of time\<close>

definition starts :: "(int \<Rightarrow> int) \<Rightarrow> int \<Rightarrow> bool" where
  "starts U t \<longleftrightarrow> (\<forall>u. U u = U t \<longrightarrow> t \<le> u)"

lemma starts_finer: "starts P t \<Longrightarrow> (\<And>u. U u = U t \<Longrightarrow> P u = P t) \<Longrightarrow> starts U t"
  unfolding starts_def by blast

text \<open>The first instant at which a unit is no longer the one of \<open>t\<close> starts its own.\<close>

lemma starts_change:
  assumes "mono U" "\<And>u. t \<le> u \<Longrightarrow> u < t' \<Longrightarrow> U u = U t" "U t' \<noteq> U t" "t \<le> t'"
  shows "starts U t'"
  unfolding starts_def
proof (intro allI impI)
  fix u
  assume u: "U u = U t'"
  show "t' \<le> u"
  proof (rule ccontr)
    assume "\<not> t' \<le> u"
    then have "u < t" using assms(2) [of u] assms(3) u by linarith
    then have "U u \<le> U t" "U t \<le> U t'" using assms(1,4) by (simp_all add: monoD)
    then show False using u assms(3) by simp
  qed
qed

locale cron_field =
  fixes ok :: "int \<Rightarrow> bool" and reset add_one :: "int \<Rightarrow> int" and wrapped :: "int \<Rightarrow> bool"
    and unit parent :: "int \<Rightarrow> int" and rank :: "int \<Rightarrow> nat"
  assumes unit_mono: "mono unit" and parent_mono: "mono parent"
    and unit_parent: "unit t = unit u \<Longrightarrow> parent t = parent u"
    and ok_unit: "unit t = unit u \<Longrightarrow> ok t = ok u"
    and reset_starts: "starts unit (reset t)" and reset_unit: "unit (reset t) = unit t"
    and add_later: "starts unit t \<Longrightarrow> t < add_one t"
    and add_starts: "starts unit t \<Longrightarrow> starts unit (add_one t)"
    and add_skips: "starts unit t \<Longrightarrow> t \<le> u \<Longrightarrow> u < add_one t \<Longrightarrow> unit u = unit t"
    and wrapped_iff: "starts unit t \<Longrightarrow> wrapped (add_one t) \<longleftrightarrow> parent (add_one t) \<noteq> parent t"
    and rank_less: "starts unit t \<Longrightarrow> \<not> wrapped (add_one t) \<Longrightarrow> rank (add_one t) < rank t"
begin

lemma reset_le: "reset t \<le> t"
  using reset_starts [of t] reset_unit [of t] by (simp add: starts_def)

text \<open>What a loop does, as a relation between the instant it starts from and its result.\<close>

definition scanned :: "int \<Rightarrow> bool \<Rightarrow> bool \<times> int \<times> bool \<Rightarrow> bool" where
  "scanned t added res = (case res of (w, t', added') \<Rightarrow>
     t \<le> t' \<and> (\<forall>u. t \<le> u \<and> u < t' \<longrightarrow> \<not> ok u \<and> parent u = parent t)
     \<and> (if w then t < t' \<and> added' \<and> starts parent t'
        else ok t' \<and> parent t' = parent t \<and> (t' = t \<and> added' = added \<or> added' \<and> starts unit t')))"

lemma loop_from_start:
  assumes "starts unit t" "\<not> ok t"
  shows "\<exists>res. (let t' = add_one t in if wrapped t' then Some (True, t', True)
        else field_loop ok reset add_one wrapped t' True) = Some res
      \<and> (\<forall>t0 added. unit t0 = unit t \<longrightarrow> t \<le> t0 \<longrightarrow> scanned t0 added res)"
  using assms
proof (induction "rank t" arbitrary: t rule: less_induct)
  case less
  let ?n = "add_one t"
  have skip: "\<not> ok u \<and> parent u = parent t" if "t \<le> u" "u < ?n" for u
  proof -
    have "unit u = unit t" by (rule add_skips [OF less.prems(1) that])
    then show ?thesis using ok_unit [of u t] unit_parent [of u t] less.prems(2) by blast
  qed
  have before: "t0 < ?n" if "unit t0 = unit t" for t0
  proof (rule ccontr)
    assume "\<not> t0 < ?n"
    then have "unit ?n \<le> unit t0" by (intro monoD [OF unit_mono]) simp
    moreover have "unit t \<le> unit ?n"
      using add_later [OF less.prems(1)] by (intro monoD [OF unit_mono]) simp
    ultimately have "unit ?n = unit t" using that by simp
    then have "?n \<le> t" using add_starts [OF less.prems(1)] by (simp add: starts_def)
    then show False using add_later [OF less.prems(1)] by simp
  qed
  have gap: "\<not> ok u \<and> parent u = parent t0" if "unit t0 = unit t" "t \<le> t0" "t0 \<le> u" "u < ?n" for t0 u
  proof -
    have "t \<le> u" using that by linarith
    with skip [OF this that(4)] unit_parent [OF that(1)] show ?thesis by simp
  qed
  then have gaps: "\<forall>u. t0 \<le> u \<and> u < ?n \<longrightarrow> \<not> ok u \<and> parent u = parent t0" if "unit t0 = unit t" "t \<le> t0" for t0
    using that by blast
  have st: "starts unit ?n" by (rule add_starts [OF less.prems(1)])
  show ?case
  proof (cases "wrapped ?n")
    case True
    have "parent ?n \<noteq> parent t" using wrapped_iff [OF less.prems(1)] True by blast
    moreover have "t \<le> ?n" using add_later [OF less.prems(1)] by linarith
    ultimately have "starts parent ?n"
      using starts_change [of parent t ?n] parent_mono skip by blast
    then have "scanned t0 added (True, ?n, True)" if "unit t0 = unit t" "t \<le> t0" for t0 added
      unfolding scanned_def prod.case using before [OF that(1)] gaps [OF that] less_imp_le by metis
    with True show ?thesis by (simp add: Let_def)
  next
    case False
    have par: "parent ?n = parent t" using wrapped_iff [OF less.prems(1)] False by simp
    show ?thesis
    proof (cases "ok ?n")
      case True
      then have "scanned t0 added (False, ?n, True)" if "unit t0 = unit t" "t \<le> t0" for t0 added
        unfolding scanned_def prod.case
        using before [OF that(1)] gaps [OF that] st par unit_parent [OF that(1)] less_imp_le by metis
      with False True show ?thesis by (simp add: Let_def field_loop.simps)
    next
      case nok: False
      obtain w t' a' where res: "field_loop ok reset add_one wrapped ?n True = Some (w, t', a')"
          "scanned ?n True (w, t', a')"
        using less.hyps [OF rank_less [OF less.prems(1) False] st nok] nok
        by (auto simp: field_loop.simps [of _ _ _ _ "add_one t"])
      have r: "?n \<le> t'" "\<And>u. ?n \<le> u \<Longrightarrow> u < t' \<Longrightarrow> \<not> ok u \<and> parent u = parent ?n"
        and r': "if w then ?n < t' \<and> a' \<and> starts parent t'
          else ok t' \<and> parent t' = parent ?n \<and> (t' = ?n \<and> a' = True \<or> a' \<and> starts unit t')"
        using res(2) unfolding scanned_def prod.case by blast+
      have r'': "if w then a' \<and> starts parent t' else ok t' \<and> parent t' = parent t \<and> a' \<and> starts unit t'"
        using r' nok par by (cases w) auto
      have "scanned t0 added (w, t', a')" if t0: "unit t0 = unit t" "t \<le> t0" for t0 added
      proof -
        have "\<not> ok u \<and> parent u = parent t0" if "t0 \<le> u" "u < t'" for u
        proof (cases "u < ?n")
          case True
          then show ?thesis using gap [OF t0 that(1)] by blast
        next
          case False
          then show ?thesis
            using r(2) [of u] that par unit_parent [OF t0(1)] by simp
        qed
        moreover have "t0 < t'" using r(1) before [OF t0(1)] by linarith
        ultimately show ?thesis
          unfolding scanned_def prod.case using r'' unit_parent [OF t0(1)] less_imp_le by metis
      qed
      with False res(1) show ?thesis by (auto simp: Let_def)
    qed
  qed
qed

lemma loop:
  assumes "added \<Longrightarrow> \<not> ok t \<Longrightarrow> starts unit t"
  obtains w t' added' where "field_loop ok reset add_one wrapped t added = Some (w, t', added')"
    "scanned t added (w, t', added')"
proof (cases "ok t")
  case True
  then have "field_loop ok reset add_one wrapped t added = Some (False, t, added)" "scanned t added (False, t, added)"
    by (auto simp: field_loop.simps scanned_def)
  then show thesis by (rule that)
next
  case False
  let ?t = "if added then t else reset t"
  have t: "starts unit ?t" "unit t = unit ?t" "?t \<le> t"
    using assms False reset_starts reset_unit reset_le by auto
  then have "\<not> ok ?t" using ok_unit [OF t(2)] False by simp
  then obtain res where "field_loop ok reset add_one wrapped t added = Some res" "scanned t added res"
    using loop_from_start [OF t(1)] t(2,3) False by (auto simp: field_loop.simps [of _ _ _ _ t])
  then show thesis using that by (cases res) auto
qed

end

section \<open>The units in a zone of fixed offset\<close>

text \<open>
  The offset is a whole number of minutes: the minute loop truncates the instant, not the wall
  time, so that only then the seconds start at zero.
\<close>

definition fixed_zone :: "int \<Rightarrow> zone" where
  "fixed_zone m = (\<lambda>_. 60 * m)"

definition month_index :: "int \<Rightarrow> int" where
  "month_index d = 12 * year_of d + month_of d"

definition years :: "int \<Rightarrow> int \<Rightarrow> int" where "years m t = year_of ((t + 60 * m) div 86400)"
definition months :: "int \<Rightarrow> int \<Rightarrow> int" where "months m t = month_index ((t + 60 * m) div 86400)"
definition days :: "int \<Rightarrow> int \<Rightarrow> int" where "days m t = (t + 60 * m) div 86400"
definition hours :: "int \<Rightarrow> int \<Rightarrow> int" where "hours m t = (t + 60 * m) div 3600"
definition minutes :: "int \<Rightarrow> int \<Rightarrow> int" where "minutes m t = (t + 60 * m) div 60"
definition seconds :: "int \<Rightarrow> int \<Rightarrow> int" where "seconds m t = t + 60 * m"

lemmas units = years_def months_def days_def hours_def minutes_def seconds_def

lemma wall_fixed [simp]: "wall (fixed_zone m) t = t + 60 * m"
  by (simp add: wall_def fixed_zone_def)

lemma year_mono: "d \<le> e \<Longrightarrow> year_of d \<le> year_of e"
  using day_less_iff [of e d] by linarith

lemma month_index_mono: "d \<le> e \<Longrightarrow> month_index d \<le> month_index e"
  using day_less_iff [of d e] date_fields_bounds(1,2) [of d] date_fields_bounds(1,2) [of e]
  by (cases "d = e") (auto simp: month_index_def)

lemma month_index_eq: "month_index d = month_index e \<longleftrightarrow> year_of d = year_of e \<and> month_of d = month_of e"
  using date_fields_bounds(1,2) [of d] date_fields_bounds(1,2) [of e] unfolding month_index_def by presburger

lemma div_coarser: "(a::int) div 86400 = a div 3600 div 24" "a div 3600 = a div 60 div 60"
  using zdiv_zmult2_eq [of 24 a 3600] zdiv_zmult2_eq [of 60 a 60] by simp_all

lemma units_mono:
  "mono (years m)" "mono (months m)" "mono (days m)" "mono (hours m)" "mono (minutes m)" "mono (seconds m)"
  by (auto simp: units intro!: monoI year_mono month_index_mono zdiv_mono1)

lemma units_nested:
  "months m t = months m u \<Longrightarrow> years m t = years m u"
  "days m t = days m u \<Longrightarrow> months m t = months m u"
  "hours m t = hours m u \<Longrightarrow> days m t = days m u"
  "minutes m t = minutes m u \<Longrightarrow> hours m t = hours m u"
  "seconds m t = seconds m u \<Longrightarrow> minutes m t = minutes m u"
  by (simp_all add: units month_index_eq div_coarser(1) [of "t + 60 * m"] div_coarser(1) [of "u + 60 * m"]
      div_coarser(2) [of "t + 60 * m"] div_coarser(2) [of "u + 60 * m"])

lemma starts_div:
  assumes "0 < (c::int)"
  shows "starts (\<lambda>t. (t + k) div c) t \<longleftrightarrow> (t + k) mod c = 0"
proof
  assume "starts (\<lambda>t. (t + k) div c) t"
  moreover have "(t - (t + k) mod c + k) div c = (t + k) div c"
  proof -
    have "t - (t + k) mod c + k = c * ((t + k) div c)" by (simp add: minus_mod_eq_mult_div [symmetric])
    then show ?thesis using assms by simp
  qed
  ultimately have "t \<le> t - (t + k) mod c" by (simp add: starts_def)
  then show "(t + k) mod c = 0" using pos_mod_sign [OF assms, of "t + k"] by linarith
next
  assume z: "(t + k) mod c = 0"
  show "starts (\<lambda>t. (t + k) div c) t"
    unfolding starts_def
  proof (intro allI impI)
    fix u assume u: "(u + k) div c = (t + k) div c"
    have "c * ((u + k) div c) + (u + k) mod c = u + k" "c * ((t + k) div c) + (t + k) mod c = t + k"
      by (simp_all only: mult_div_mod_eq)
    with u z pos_mod_sign [OF assms, of "u + k"] show "t \<le> u" by simp
  qed
qed

lemma div_next:
  assumes "0 < (c::int)" "x mod c = 0"
  shows "(x + c) div c = x div c + 1" "(x + c) mod c = 0" "x \<le> y \<Longrightarrow> y < x + c \<Longrightarrow> y div c = x div c"
proof -
  obtain q where q: "x = c * q" using assms(2) by auto
  show "(x + c) div c = x div c + 1" "(x + c) mod c = 0" using assms(1) q by simp_all
  assume "x \<le> y" "y < x + c"
  then have "y div c = q" using q by (intro int_div_pos_eq [of _ _ _ "y - c * q"]) simp_all
  then show "y div c = x div c" using q assms(1) by simp
qed

text \<open>The three fields of the clock are digits of the wall time.\<close>

locale clock_field =
  fixes ok :: "int \<Rightarrow> bool" and reset add_one :: "int \<Rightarrow> int" and wrapped :: "int \<Rightarrow> bool"
    and unit parent :: "int \<Rightarrow> int" and c r k :: int
  assumes pos: "0 < c" "0 < r"
    and unit: "unit t = (t + k) div c" and parent: "parent t = unit t div r"
    and ok_digit: "unit t = unit u \<Longrightarrow> ok t = ok u"
    and reset: "reset t = t - (t + k) mod c" and add_one: "(t + k) mod c = 0 \<Longrightarrow> add_one t = t + c"
    and wrapped: "wrapped t \<longleftrightarrow> unit t mod r = 0"

lemma digit_wraps:
  assumes "0 < (r::int)"
  shows "(n + 1) div r \<noteq> n div r \<longleftrightarrow> (n + 1) mod r = 0"
proof -
  have "n mod r < r" "0 \<le> n mod r" using assms by simp_all
  have n: "n + 1 = r * (n div r) + (n mod r + 1)" by (simp add: algebra_simps)
  show ?thesis
  proof (cases "n mod r + 1 = r")
    case True
    then have "n + 1 = r * (n div r + 1)" using n by (simp add: algebra_simps)
    then show ?thesis using assms by simp
  next
    case False
    then have "n mod r + 1 < r" using \<open>n mod r < r\<close> by simp
    then have "(n + 1) div r = n div r" "(n + 1) mod r = n mod r + 1"
      using int_div_pos_eq [OF n] int_mod_pos_eq [OF n] \<open>0 \<le> n mod r\<close> by linarith+
    then show ?thesis using \<open>0 \<le> n mod r\<close> by simp
  qed
qed

context clock_field begin

lemma aligned: "starts unit t \<longleftrightarrow> (t + k) mod c = 0"
  using starts_div [OF pos(1), of k t] by (simp add: unit [abs_def])

lemma step:
  assumes "starts unit t"
  shows "add_one t = t + c" "unit (add_one t) = unit t + 1" "(add_one t + k) mod c = 0"
  using assms add_one div_next(1,2) [OF pos(1), of "t + k"] aligned
  by (simp_all add: unit algebra_simps)

end

sublocale clock_field \<subseteq> cron_field ok reset add_one wrapped unit parent "\<lambda>t. nat (r - unit t mod r)"
proof
  have m: "unit t \<le> unit u" if "t \<le> u" for t u using that pos by (simp add: unit zdiv_mono1)
  then show "mono unit" by (rule monoI)
  show "mono parent" using m pos by (auto intro!: monoI simp: parent zdiv_mono1)
  show "parent t = parent u" if "unit t = unit u" for t u using that by (simp add: parent)
  show "ok t = ok u" if "unit t = unit u" for t u using that by (rule ok_digit)
  have t: "t - (t + k) mod c + k = c * ((t + k) div c)" for t by (simp add: minus_mod_eq_mult_div [symmetric])
  show "starts unit (reset t)" for t using t [of t] by (simp add: aligned reset)
  show "unit (reset t) = unit t" for t using t [of t] pos by (simp add: unit reset)
  fix t assume t: "starts unit t"
  note s = step [OF t]
  show "t < add_one t" using s pos by simp
  show "starts unit (add_one t)" using s by (simp add: aligned)
  show "unit u = unit t" if "t \<le> u" "u < add_one t" for u
    using div_next(3) [OF pos(1), of "t + k" "u + k"] that s t aligned by (simp add: unit)
  have w: "wrapped (add_one t) \<longleftrightarrow> (unit t + 1) mod r = 0" using s by (simp add: wrapped)
  then show "wrapped (add_one t) \<longleftrightarrow> parent (add_one t) \<noteq> parent t"
    using digit_wraps [OF pos(2), of "unit t"] s by (simp add: parent)
  show "nat (r - unit (add_one t) mod r) < nat (r - unit t mod r)" if "\<not> wrapped (add_one t)"
  proof -
    have "(unit t + 1) div r = unit t div r" using that w digit_wraps [OF pos(2)] by blast
    then have "r * ((unit t + 1) div r) = r * (unit t div r)" by simp
    moreover have "r * (unit t div r) + unit t mod r = unit t"
      "r * ((unit t + 1) div r) + (unit t + 1) mod r = unit t + 1" by (simp_all only: mult_div_mod_eq)
    ultimately have "(unit t + 1) mod r = unit t mod r + 1" by linarith
    then show ?thesis using s pos by (simp add: nat_less_eq_zless)
  qed
qed

section \<open>The five loops\<close>

lemma tm_digits:
  "tm_second (fixed_zone m) t = seconds m t mod 60" "tm_minute (fixed_zone m) t = minutes m t mod 60"
  "tm_hour (fixed_zone m) t = hours m t mod 24"
proof -
  have d: "x mod 3600 div 60 = x div 60 mod 60" "x mod 86400 div 3600 = x div 3600 mod 24" for x :: int
  proof -
    show "x mod 3600 div 60 = x div 60 mod 60" using zmod_zmult2_eq [of 60 x 60] by simp
    have "x mod 86400 = 3600 * (x div 3600 mod 24) + x mod 3600" using zmod_zmult2_eq [of 24 x 3600] by simp
    then have "x mod 86400 div 3600 = x div 3600 mod 24 + x mod 3600 div 3600" by (simp only:) simp
    then show "x mod 86400 div 3600 = x div 3600 mod 24" by (simp add: div_pos_pos_trivial)
  qed
  show "tm_second (fixed_zone m) t = seconds m t mod 60" "tm_minute (fixed_zone m) t = minutes m t mod 60"
    "tm_hour (fixed_zone m) t = hours m t mod 24"
    by (simp_all add: tm_second_def tm_minute_def tm_hour_def units d)
qed

lemma tm_dates:
  "tm_year (fixed_zone m) t = year_of (days m t)" "tm_month (fixed_zone m) t = month_of (days m t)"
  "tm_day (fixed_zone m) t = dom_of (days m t)" "tm_weekday (fixed_zone m) t = weekday (days m t)"
  by (simp_all add: tm_year_def tm_month_def tm_day_def tm_weekday_def units)

lemma time_Date_fixed:
  "1 \<le> mo \<Longrightarrow> mo \<le> 12 \<Longrightarrow> time_Date (fixed_zone m) y mo d h mi s = day_of y mo d * 86400 + h * 3600 + mi * 60 + s - 60 * m"
  by (simp add: time_Date_def fixed_zone_def Let_def mod_pos_pos_trivial div_pos_pos_trivial)

lemma time_Date_today:
  "time_Date (fixed_zone m) (tm_year (fixed_zone m) t) (tm_month (fixed_zone m) t) (tm_day (fixed_zone m) t) h mi s
    = days m t * 86400 + h * 3600 + mi * 60 + s - 60 * m"
  using date_of_day [of "days m t"] by (simp add: time_Date_fixed tm_dates date_fields_bounds)

interpretation second_field: clock_field "\<lambda>t. has_bit (sp_Second s) (tm_second (fixed_zone m) t)"
  "Truncate 1" "\<lambda>t. t + 1" "\<lambda>t. tm_second (fixed_zone m) t = 0" "seconds m" "minutes m" 1 60 "60 * m" for s :: spec_schedule and m
  by unfold_locales (auto simp: tm_digits units Truncate_def)

interpretation minute_field: clock_field "\<lambda>t. has_bit (sp_Minute s) (tm_minute (fixed_zone m) t)"
  "Truncate 60" "\<lambda>t. t + 60" "\<lambda>t. tm_minute (fixed_zone m) t = 0" "minutes m" "hours m" 60 60 "60 * m" for s :: spec_schedule and m
  by unfold_locales (auto simp: tm_digits units Truncate_def div_coarser)

interpretation hour_field: clock_field "\<lambda>t. has_bit (sp_Hour s) (tm_hour (fixed_zone m) t)"
  "\<lambda>t. time_Date (fixed_zone m) (tm_year (fixed_zone m) t) (tm_month (fixed_zone m) t) (tm_day (fixed_zone m) t)
     (tm_hour (fixed_zone m) t) 0 0"
  "\<lambda>t. t + 3600" "\<lambda>t. tm_hour (fixed_zone m) t = 0" "hours m" "days m" 3600 24 "60 * m" for s :: spec_schedule and m
proof unfold_locales
  show "time_Date (fixed_zone m) (tm_year (fixed_zone m) t) (tm_month (fixed_zone m) t) (tm_day (fixed_zone m) t)
      (tm_hour (fixed_zone m) t) 0 0 = t - (t + 60 * m) mod 3600" for m t
  proof -
    have "x div 86400 * 86400 + x div 3600 mod 24 * 3600 = x - x mod 3600" for x :: int
      using zmod_zmult2_eq [of 24 x 3600] mult_div_mod_eq [of 86400 x] by simp
    from this [of "t + 60 * m"] show ?thesis by (simp add: time_Date_today tm_digits units)
  qed
qed (auto simp: tm_digits units div_coarser)

lemma starts_days: "starts (days m) t \<longleftrightarrow> (t + 60 * m) mod 86400 = 0"
  using starts_div [of 86400 "60 * m" t] by (simp add: days_def [abs_def])

lemma starts_days_eq: "starts (days m) t \<longleftrightarrow> t = days m t * 86400 - 60 * m"
proof -
  have "86400 * days m t + (t + 60 * m) mod 86400 = t + 60 * m" by (simp only: days_def mult_div_mod_eq)
  then show ?thesis unfolding starts_days by linarith
qed

lemma day_of_add: "day_of y mo (d + j) = day_of y mo d + j"
  by (simp add: day_of_def)

lemma valid_today: "valid_date (year_of d) (month_of d) (dom_of d)"
  using date_of_day by blast

lemma same_month:
  assumes "1 \<le> dom_of d + j" "dom_of d + j \<le> month_len (leap (year_of d)) (month_of d)"
  shows "year_of (d + j) = year_of d" "month_of (d + j) = month_of d" "dom_of (d + j) = dom_of d + j"
proof -
  have "valid_date (year_of d) (month_of d) (dom_of d + j)"
    using assms valid_today [of d] by (simp add: valid_date_def)
  from day_of_date [OF this] show "year_of (d + j) = year_of d" "month_of (d + j) = month_of d" "dom_of (d + j) = dom_of d + j"
    using date_of_day [of d] by (simp_all add: day_of_add)
qed

lemma dom_succ:
  "dom_of (d + 1) = 1 \<longleftrightarrow> month_index (d + 1) \<noteq> month_index d"
  "month_index (d + 1) = month_index d \<Longrightarrow> dom_of (d + 1) = dom_of d + 1"
proof -
  show same: "dom_of (d + 1) = dom_of d + 1" if "month_index (d + 1) = month_index d"
    using that by (simp add: month_index_eq dom_of_def yday_def)
  show "dom_of (d + 1) = 1 \<longleftrightarrow> month_index (d + 1) \<noteq> month_index d"
  proof
    assume "dom_of (d + 1) = 1"
    then show "month_index (d + 1) \<noteq> month_index d" using same date_fields_bounds(3) [of d] by force
  next
    assume new: "month_index (d + 1) \<noteq> month_index d"
    show "dom_of (d + 1) = 1"
    proof (rule ccontr)
      assume "dom_of (d + 1) \<noteq> 1"
      then have "1 \<le> dom_of (d + 1) + - 1" using date_fields_bounds(3) [of "d + 1"] by linarith
      moreover have "dom_of (d + 1) + - 1 \<le> month_len (leap (year_of (d + 1))) (month_of (d + 1))"
        using valid_today [of "d + 1"] by (simp add: valid_date_def)
      ultimately show False using new same_month(1,2) [of "d + 1" "- 1"] by (simp add: month_index_eq)
    qed
  qed
qed

lemma add_day_fixed:
  assumes "starts (days m) t"
  shows "add_day (fixed_zone m) t = t + 86400"
proof -
  have z: "seconds m t mod 60 = 0" "minutes m t mod 60 = 0" "hours m t mod 24 = 0"
  proof -
    obtain k where "t + 60 * m = 86400 * k" using assms by (auto simp: starts_days)
    then show "seconds m t mod 60 = 0" "minutes m t mod 60 = 0" "hours m t mod 24 = 0"
      unfolding units by simp_all
  qed
  have "AddDate (fixed_zone m) t 0 0 1 = t + 86400"
    using starts_days_eq [THEN iffD1, OF assms] date_of_day [of "days m t"]
    by (simp add: AddDate_def time_Date_fixed tm_dates date_fields_bounds tm_digits z day_of_add)
  moreover have "tm_hour (fixed_zone m) (t + 86400) = 0"
  proof -
    have "hours m (t + 86400) = hours m t + 24" using div_mult_self3 [of 3600 24 "t + 60 * m"] by (simp add: units algebra_simps)
    then show ?thesis using z by (simp add: tm_digits)
  qed
  ultimately show ?thesis by (simp add: add_day_def)
qed

lemma days_next:
  assumes "starts (days m) t"
  shows "days m (t + 86400) = days m t + 1" "starts (days m) (t + 86400)"
    "t \<le> u \<Longrightarrow> u < t + 86400 \<Longrightarrow> days m u = days m t"
  using div_next(1,2) [of 86400 "t + 60 * m"] div_next(3) [of 86400 "t + 60 * m" "u + 60 * m"] assms
  by (simp_all add: starts_days days_def algebra_simps)

interpretation day_field: cron_field "dayMatches s (fixed_zone m)"
  "\<lambda>t. time_Date (fixed_zone m) (tm_year (fixed_zone m) t) (tm_month (fixed_zone m) t) (tm_day (fixed_zone m) t) 0 0 0"
  "add_day (fixed_zone m)" "\<lambda>t. tm_day (fixed_zone m) t = 1" "days m" "months m" "\<lambda>t. nat (31 - tm_day (fixed_zone m) t)"
  for s :: spec_schedule and m
proof
  show "mono (days m)" "mono (months m)" by (rule units_mono)+
  show "months m t = months m u" if "days m t = days m u" for t u using that by (rule units_nested)
  show "dayMatches s (fixed_zone m) t = dayMatches s (fixed_zone m) u" if "days m t = days m u" for t u
    using that by (simp add: dayMatches_def tm_dates)
  let ?reset = "\<lambda>t. time_Date (fixed_zone m) (tm_year (fixed_zone m) t) (tm_month (fixed_zone m) t) (tm_day (fixed_zone m) t) 0 0 0"
  have r: "?reset t = days m t * 86400 - 60 * m" for t by (simp add: time_Date_today)
  then show "starts (days m) (?reset t)" "days m (?reset t) = days m t" for t
    by (simp_all only: starts_days days_def) simp_all
  fix t assume t: "starts (days m) t"
  note n = add_day_fixed [OF t] days_next(1,2) [OF t]
  show "t < add_day (fixed_zone m) t" "starts (days m) (add_day (fixed_zone m) t)" using n by simp_all
  show "days m u = days m t" if "t \<le> u" "u < add_day (fixed_zone m) t" for u
    using days_next(3) [OF t that(1)] that(2) n(1) by simp
  have idx: "months m u = month_index (days m u)" for u by (simp add: units)
  show w: "(tm_day (fixed_zone m) (add_day (fixed_zone m) t) = 1) = (months m (add_day (fixed_zone m) t) \<noteq> months m t)"
    by (simp add: n tm_dates idx dom_succ)
  show "nat (31 - tm_day (fixed_zone m) (add_day (fixed_zone m) t)) < nat (31 - tm_day (fixed_zone m) t)"
    if "\<not> tm_day (fixed_zone m) (add_day (fixed_zone m) t) = 1"
  proof -
    have "month_index (days m t + 1) = month_index (days m t)" using that w by (simp add: n idx)
    from dom_succ(2) [OF this] show ?thesis
      using date_fields_bounds(4) [of "days m t + 1"] by (simp add: n tm_dates)
  qed
qed

text \<open>The first day of the month of \<open>d\<close>, and the first day of the month after it.\<close>

definition month_first :: "int \<Rightarrow> int" where
  "month_first d = d + (1 - dom_of d)"

definition month_after :: "int \<Rightarrow> int" where
  "month_after d = month_first d + month_len (leap (year_of d)) (month_of d)"

lemma month_first_index: "month_index (month_first d) = month_index d" "dom_of (month_first d) = 1"
proof -
  have "1 \<le> dom_of d + (1 - dom_of d)" "dom_of d + (1 - dom_of d) \<le> month_len (leap (year_of d)) (month_of d)"
    using month_len_bounds [of "month_of d" "leap (year_of d)"] date_fields_bounds [of d] by auto
  from same_month [OF this] show "month_index (month_first d) = month_index d" "dom_of (month_first d) = 1"
    by (simp_all add: month_first_def month_index_eq)
qed

lemma month_first_least: "month_index e = month_index d \<Longrightarrow> month_first d \<le> e"
proof -
  assume "month_index e = month_index d"
  then have "month_first e = month_first d"
    by (simp add: month_first_def month_index_eq dom_of_def yday_def)
  then show ?thesis using date_fields_bounds(3) [of e] by (simp add: month_first_def)
qed

lemma within_month: "month_first d \<le> e \<Longrightarrow> e < month_after d \<Longrightarrow> month_index e = month_index d"
proof -
  assume e: "month_first d \<le> e" "e < month_after d"
  have "1 \<le> dom_of d + (e - d)" "dom_of d + (e - d) \<le> month_len (leap (year_of d)) (month_of d)"
    using e by (auto simp: month_first_def month_after_def)
  from same_month(1,2) [OF this] show ?thesis by (simp add: month_index_eq)
qed

lemma month_after_date:
  "month_after d = day_of (year_of d + month_of d div 12) (month_of d mod 12 + 1) 1"
proof -
  have m: "month_first d = day_of (year_of d) (month_of d) 1"
    using date_of_day [of d] day_of_add [of "year_of d" "month_of d" "dom_of d" "1 - dom_of d"]
    by (simp add: month_first_def)
  show ?thesis
  proof (cases "month_of d = 12")
    case True
    then show ?thesis
      using month_start_total [of "leap (year_of d)"] month_start_total(1) [of "leap (year_of d + 1)"]
      by (simp add: month_after_def m day_of_def month_len_def year_start_step year_len_def)
  next
    case False
    then have "month_of d < 12" using date_fields_bounds(2) [of d] by simp
    then have "month_of d div 12 = 0" "month_of d mod 12 = month_of d"
      using date_fields_bounds(1) [of d] by (simp_all add: div_pos_pos_trivial)
    then show ?thesis by (simp add: month_after_def m day_of_def month_len_def)
  qed
qed

lemma month_after_fields:
  "year_of (month_after d) = year_of d + month_of d div 12" "month_of (month_after d) = month_of d mod 12 + 1"
  "dom_of (month_after d) = 1"
proof -
  have "0 \<le> month_of d mod 12" "month_of d mod 12 < 12" by simp_all
  then have "28 \<le> month_len (leap (year_of d + month_of d div 12)) (month_of d mod 12 + 1)"
    by (intro conjunct1 [OF month_len_bounds]) linarith+
  then have "valid_date (year_of d + month_of d div 12) (month_of d mod 12 + 1) 1"
    using \<open>0 \<le> month_of d mod 12\<close> \<open>month_of d mod 12 < 12\<close> unfolding valid_date_def by linarith
  from day_of_date [OF this] show "year_of (month_after d) = year_of d + month_of d div 12"
    "month_of (month_after d) = month_of d mod 12 + 1" "dom_of (month_after d) = 1"
    by (simp_all add: month_after_date)
qed

lemma month_after_later: "month_first d < month_after d" "d < month_after d"
  using month_len_bounds [of "month_of d" "leap (year_of d)"] date_fields_bounds [of d] valid_today [of d]
  by (auto simp: month_after_def month_first_def valid_date_def)

lemma starts_months:
  "starts (months m) t \<longleftrightarrow> t = month_first (days m t) * 86400 - 60 * m"
proof
  let ?f = "month_first (days m t) * 86400 - 60 * m"
  have f: "days m ?f = month_first (days m t)" by (simp add: days_def)
  have idx: "months m u = month_index (days m u)" for u by (simp add: units)
  assume "starts (months m) t"
  then have "t \<le> ?f" using f month_first_index(1) by (simp add: starts_def idx)
  moreover have "?f \<le> t"
  proof -
    have "month_first (days m t) \<le> days m t" by (rule month_first_least) simp
    moreover have "days m t * 86400 \<le> t + 60 * m" by (simp add: days_def div_times_less_eq_dividend)
    ultimately show ?thesis by linarith
  qed
  ultimately show "t = ?f" by simp
next
  have idx: "months m u = month_index (days m u)" for u by (simp add: units)
  assume t: "t = month_first (days m t) * 86400 - 60 * m"
  show "starts (months m) t"
    unfolding starts_def
  proof (intro allI impI)
    fix u assume "months m u = months m t"
    then have "month_first (days m t) \<le> days m u" by (intro month_first_least) (simp add: idx)
    moreover have "days m u * 86400 \<le> u + 60 * m" by (simp add: days_def div_times_less_eq_dividend)
    ultimately show "t \<le> u" using t by linarith
  qed
qed

lemma AddDate_month:
  assumes "starts (months m) t"
  shows "AddDate (fixed_zone m) t 0 1 0 = month_after (days m t) * 86400 - 60 * m"
proof -
  have t: "t = month_first (days m t) * 86400 - 60 * m" using assms by (simp add: starts_months)
  then have d: "month_first (days m t) = days m t" by (simp add: days_def)
  then have dom: "dom_of (days m t) = 1" by (simp add: month_first_def)
  have z: "seconds m t mod 60 = 0" "minutes m t mod 60 = 0" "hours m t mod 24 = 0"
  proof -
    have "t + 60 * m = 86400 * days m t" using t d by simp
    then show "seconds m t mod 60 = 0" "minutes m t mod 60 = 0" "hours m t mod 24 = 0"
      by (simp_all add: seconds_def minutes_def hours_def)
  qed
  then show ?thesis
    by (simp add: AddDate_def time_Date_def fixed_zone_def [of m, symmetric] tm_dates tm_digits dom month_after_date)
      (simp add: fixed_zone_def)
qed

interpretation month_field: cron_field "\<lambda>t. has_bit (sp_Month s) (tm_month (fixed_zone m) t)"
  "\<lambda>t. time_Date (fixed_zone m) (tm_year (fixed_zone m) t) (tm_month (fixed_zone m) t) 1 0 0 0"
  "\<lambda>t. AddDate (fixed_zone m) t 0 1 0" "\<lambda>t. tm_month (fixed_zone m) t = 1" "months m" "years m"
  "\<lambda>t. nat (12 - tm_month (fixed_zone m) t)" for s :: spec_schedule and m
proof
  show "mono (months m)" "mono (years m)" by (rule units_mono)+
  show "years m t = years m u" if "months m t = months m u" for t u using that by (rule units_nested)
  show "has_bit (sp_Month s) (tm_month (fixed_zone m) t) = has_bit (sp_Month s) (tm_month (fixed_zone m) u)"
    if "months m t = months m u" for t u using that by (simp add: tm_dates units month_index_eq)
  have idx: "months m u = month_index (days m u)" "years m u = year_of (days m u)" for u by (simp_all add: units)
  have r: "time_Date (fixed_zone m) (tm_year (fixed_zone m) t) (tm_month (fixed_zone m) t) 1 0 0 0
      = month_first (days m t) * 86400 - 60 * m" for t
    using date_of_day [of "days m t"] day_of_add [of "year_of (days m t)" "month_of (days m t)" "dom_of (days m t)" "1 - dom_of (days m t)"]
    by (simp add: time_Date_fixed tm_dates date_fields_bounds month_first_def)
  have at: "days m (d * 86400 - 60 * m) = d" for d by (simp add: days_def)
  have first: "month_first (month_first d) = month_first d" "month_first (month_after d) = month_after d" for d
    by (simp_all add: month_first_def [of "month_first d"] month_first_def [of "month_after d"] month_first_index month_after_fields)
  show "starts (months m) (time_Date (fixed_zone m) (tm_year (fixed_zone m) t) (tm_month (fixed_zone m) t) 1 0 0 0)" for t
    by (simp add: r starts_months at first)
  show "months m (time_Date (fixed_zone m) (tm_year (fixed_zone m) t) (tm_month (fixed_zone m) t) 1 0 0 0) = months m t" for t
    by (simp add: r idx at month_first_index)
  fix t assume t: "starts (months m) t"
  let ?n = "month_after (days m t) * 86400 - 60 * m"
  note n = AddDate_month [OF t]
  have d: "t = month_first (days m t) * 86400 - 60 * m" using t by (simp add: starts_months)
  show "t < AddDate (fixed_zone m) t 0 1 0"
    using d n month_after_later(1) [of "days m t"] by linarith
  show "starts (months m) (AddDate (fixed_zone m) t 0 1 0)" by (simp add: n starts_months at first)
  show "months m u = months m t" if "t \<le> u" "u < AddDate (fixed_zone m) t 0 1 0" for u
  proof -
    have "86400 * days m u + (u + 60 * m) mod 86400 = u + 60 * m" by (simp only: days_def mult_div_mod_eq)
    then have "86400 * days m u \<le> u + 60 * m" "u + 60 * m < 86400 * days m u + 86400"
      using pos_mod_bound [of 86400 "u + 60 * m"] pos_mod_sign [of 86400 "u + 60 * m"] by simp_all
    then have "month_first (days m t) \<le> days m u" "days m u < month_after (days m t)"
      using that d n by linarith+
    then show ?thesis by (simp add: idx within_month)
  qed
  have b: "1 \<le> month_of (days m t)" "month_of (days m t) \<le> 12" by (rule date_fields_bounds)+
  have w: "month_of (days m t) mod 12 = 0 \<longleftrightarrow> month_of (days m t) = 12" "month_of (days m t) div 12 = 0 \<longleftrightarrow> month_of (days m t) \<noteq> 12"
    using b by presburger+
  show "(tm_month (fixed_zone m) (AddDate (fixed_zone m) t 0 1 0) = 1) = (years m (AddDate (fixed_zone m) t 0 1 0) \<noteq> years m t)"
    using w by (simp add: n tm_dates idx at month_after_fields)
  show "nat (12 - tm_month (fixed_zone m) (AddDate (fixed_zone m) t 0 1 0)) < nat (12 - tm_month (fixed_zone m) t)"
    if "\<not> tm_month (fixed_zone m) (AddDate (fixed_zone m) t 0 1 0) = 1"
  proof -
    have "month_of (days m t) \<noteq> 12" using that w(1) by (simp add: n tm_dates at month_after_fields)
    then have "month_of (days m t) mod 12 = month_of (days m t)" "month_of (days m t) < 12" using b by auto
    then show ?thesis by (simp add: n tm_dates at month_after_fields)
  qed
qed

section \<open>The whole search\<close>

definition all_match :: "spec_schedule \<Rightarrow> zone \<Rightarrow> int \<Rightarrow> bool" where
  "all_match s z t \<longleftrightarrow> has_bit (sp_Month s) (tm_month z t) \<and> dayMatches s z t \<and> has_bit (sp_Hour s) (tm_hour z t)
     \<and> has_bit (sp_Minute s) (tm_minute z t) \<and> has_bit (sp_Second s) (tm_second z t)"

text \<open>When something was added, every field that does not match is at the start of its unit.\<close>

definition wrap_inv :: "spec_schedule \<Rightarrow> int \<Rightarrow> int \<Rightarrow> bool" where
  "wrap_inv s m t \<longleftrightarrow>
     (\<not> has_bit (sp_Month s) (tm_month (fixed_zone m) t) \<longrightarrow> starts (months m) t)
     \<and> (\<not> dayMatches s (fixed_zone m) t \<longrightarrow> starts (days m) t)
     \<and> (\<not> has_bit (sp_Hour s) (tm_hour (fixed_zone m) t) \<longrightarrow> starts (hours m) t)
     \<and> (\<not> has_bit (sp_Minute s) (tm_minute (fixed_zone m) t) \<longrightarrow> starts (minutes m) t)
     \<and> (\<not> has_bit (sp_Second s) (tm_second (fixed_zone m) t) \<longrightarrow> starts (seconds m) t)"

lemma starts_nested:
  "starts (years m) t \<Longrightarrow> starts (months m) t" "starts (months m) t \<Longrightarrow> starts (days m) t"
  "starts (days m) t \<Longrightarrow> starts (hours m) t" "starts (hours m) t \<Longrightarrow> starts (minutes m) t"
  "starts (minutes m) t \<Longrightarrow> starts (seconds m) t"
  by (erule starts_finer, erule units_nested)+

text \<open>What the search promises from an instant on, up to the end of the year of the limit.\<close>

definition found :: "spec_schedule \<Rightarrow> int \<Rightarrow> int \<Rightarrow> int \<Rightarrow> int option \<Rightarrow> bool" where
  "found s m L t r = (case r of
       None \<Rightarrow> \<forall>u. t \<le> u \<and> years m u \<le> L \<longrightarrow> \<not> all_match s (fixed_zone m) u
     | Some t' \<Rightarrow> t \<le> t' \<and> years m t' \<le> L \<and> all_match s (fixed_zone m) t'
         \<and> (\<forall>u. t \<le> u \<and> u < t' \<longrightarrow> \<not> all_match s (fixed_zone m) u))"

lemma found_skip:
  assumes "t \<le> t'" "\<And>u. t \<le> u \<Longrightarrow> u < t' \<Longrightarrow> \<not> all_match s (fixed_zone m) u" "found s m L t' r"
  shows "found s m L t r"
proof (cases r)
  case None
  then show ?thesis using assms(2,3) by (auto simp: found_def) (meson linorder_not_less)
next
  case (Some x)
  then show ?thesis using assms by (auto simp: found_def) (meson linorder_not_less)
qed

lemma bind_level:
  assumes "loop = Some (w, t', a')" "t \<le> t'" "\<And>u. t \<le> u \<Longrightarrow> u < t' \<Longrightarrow> \<not> all_match s (fixed_zone m) u"
    and "w \<Longrightarrow> \<exists>r. again t' a' = Some r \<and> found s m L t' r"
    and "\<not> w \<Longrightarrow> \<exists>r. rest t' a' = Some r \<and> found s m L t' r"
  shows "\<exists>r. Option.bind loop (\<lambda>(w, t, a). if w then again t a else rest t a) = Some r \<and> found s m L t r"
  using assms found_skip [OF assms(2,3)] by (cases w) auto

text \<open>
  A loop that wraps ends at the start of its parent's unit; a coarser field that matched before and
  does not there has just started too.
\<close>

lemma coarser_start:
  assumes "\<And>u v. U u = U v \<Longrightarrow> ok u = ok v" "mono U" "ok t" "\<not> ok t'" "t < t'"
    and "\<And>u. t \<le> u \<Longrightarrow> u < t' \<Longrightarrow> U u = U t"
  shows "starts U t'"
proof -
  have "U t' \<noteq> U t" using assms(1) [of t' t] assms(3,4) by auto
  with assms(5) show ?thesis by (intro starts_change [OF assms(2,6)]) simp_all
qed

abbreviation month_ok :: "spec_schedule \<Rightarrow> int \<Rightarrow> int \<Rightarrow> bool" where
  "month_ok s m t \<equiv> has_bit (sp_Month s) (tm_month (fixed_zone m) t)"
abbreviation day_ok :: "spec_schedule \<Rightarrow> int \<Rightarrow> int \<Rightarrow> bool" where
  "day_ok s m t \<equiv> dayMatches s (fixed_zone m) t"
abbreviation hour_ok :: "spec_schedule \<Rightarrow> int \<Rightarrow> int \<Rightarrow> bool" where
  "hour_ok s m t \<equiv> has_bit (sp_Hour s) (tm_hour (fixed_zone m) t)"
abbreviation minute_ok :: "spec_schedule \<Rightarrow> int \<Rightarrow> int \<Rightarrow> bool" where
  "minute_ok s m t \<equiv> has_bit (sp_Minute s) (tm_minute (fixed_zone m) t)"
abbreviation second_ok :: "spec_schedule \<Rightarrow> int \<Rightarrow> int \<Rightarrow> bool" where
  "second_ok s m t \<equiv> has_bit (sp_Second s) (tm_second (fixed_zone m) t)"

lemma month_matches_unit: "months m u = months m v \<Longrightarrow>
    month_ok s m u = month_ok s m v"
  by (rule month_field.ok_unit)

lemma day_matches_unit: "days m u = days m v \<Longrightarrow> day_ok s m u = day_ok s m v"
  by (rule day_field.ok_unit)

lemma hour_matches_unit: "hours m u = hours m v \<Longrightarrow>
    hour_ok s m u = hour_ok s m v"
  by (rule hour_field.ok_unit)

lemma minute_matches_unit: "minutes m u = minutes m v \<Longrightarrow>
    minute_ok s m u = minute_ok s m v"
  by (rule minute_field.ok_unit)

lemma month_start:
  assumes "month_ok s m t" "\<not> month_ok s m t'" "t < t'" "\<And>u. t \<le> u \<Longrightarrow> u < t' \<Longrightarrow> months m u = months m t"
  shows "starts (months m) t'"
  by (rule coarser_start [of _ "month_ok s m", OF _ units_mono(2) assms]) (rule month_matches_unit)

lemma day_start:
  assumes "day_ok s m t" "\<not> day_ok s m t'" "t < t'" "\<And>u. t \<le> u \<Longrightarrow> u < t' \<Longrightarrow> days m u = days m t"
  shows "starts (days m) t'"
  by (rule coarser_start [of _ "day_ok s m", OF _ units_mono(3) assms]) (rule day_matches_unit)

lemma hour_start:
  assumes "hour_ok s m t" "\<not> hour_ok s m t'" "t < t'" "\<And>u. t \<le> u \<Longrightarrow> u < t' \<Longrightarrow> hours m u = hours m t"
  shows "starts (hours m) t'"
  by (rule coarser_start [of _ "hour_ok s m", OF _ units_mono(4) assms]) (rule hour_matches_unit)

lemma minute_start:
  assumes "minute_ok s m t" "\<not> minute_ok s m t'" "t < t'" "\<And>u. t \<le> u \<Longrightarrow> u < t' \<Longrightarrow> minutes m u = minutes m t"
  shows "starts (minutes m) t'"
  by (rule coarser_start [of _ "minute_ok s m", OF _ units_mono(5) assms]) (rule minute_matches_unit)

text \<open>The invariant where a loop wraps to: one lemma for each unit at whose start that is.\<close>

lemma wrap_inv_months: "starts (months m) t \<Longrightarrow> wrap_inv s m t"
  unfolding wrap_inv_def using starts_nested by blast

lemma wrap_inv_days:
  assumes "starts (days m) t'" "t < t'" "\<And>u. t \<le> u \<Longrightarrow> u < t' \<Longrightarrow> months m u = months m t" "month_ok s m t"
  shows "wrap_inv s m t'"
proof -
  have "starts (months m) t'" if "\<not> month_ok s m t'" by (rule month_start [OF assms(4) that assms(2,3)])
  then show ?thesis unfolding wrap_inv_def using starts_nested(3-5) assms(1) by blast
qed

lemma wrap_inv_hours:
  assumes "starts (hours m) t'" "t < t'" "\<And>u. t \<le> u \<Longrightarrow> u < t' \<Longrightarrow> days m u = days m t" "month_ok s m t" "day_ok s m t"
  shows "wrap_inv s m t'"
proof -
  have "starts (days m) t'" if "\<not> day_ok s m t'" by (rule day_start [OF assms(5) that assms(2,3)])
  moreover have "starts (months m) t'" if "\<not> month_ok s m t'"
    by (rule month_start [OF assms(4) that assms(2)]) (use assms(3) units_nested(2) in blast)
  ultimately show ?thesis unfolding wrap_inv_def using starts_nested(4,5) assms(1) by blast
qed

lemma wrap_inv_minutes:
  assumes "starts (minutes m) t'" "t < t'" "\<And>u. t \<le> u \<Longrightarrow> u < t' \<Longrightarrow> hours m u = hours m t"
    "month_ok s m t" "day_ok s m t" "hour_ok s m t"
  shows "wrap_inv s m t'"
proof -
  have "starts (hours m) t'" if "\<not> hour_ok s m t'" by (rule hour_start [OF assms(6) that assms(2,3)])
  moreover have "starts (days m) t'" if "\<not> day_ok s m t'"
    by (rule day_start [OF assms(5) that assms(2)]) (use assms(3) units_nested(3) in blast)
  moreover have "starts (months m) t'" if "\<not> month_ok s m t'"
    by (rule month_start [OF assms(4) that assms(2)]) (use assms(3) units_nested(2,3) in blast)
  ultimately show ?thesis unfolding wrap_inv_def using starts_nested(5) assms(1) by blast
qed

lemma wrap_inv_seconds:
  assumes "starts (seconds m) t'" "t < t'" "\<And>u. t \<le> u \<Longrightarrow> u < t' \<Longrightarrow> minutes m u = minutes m t"
    "month_ok s m t" "day_ok s m t" "hour_ok s m t" "minute_ok s m t"
  shows "wrap_inv s m t'"
proof -
  have "starts (minutes m) t'" if "\<not> minute_ok s m t'" by (rule minute_start [OF assms(7) that assms(2,3)])
  moreover have "starts (hours m) t'" if "\<not> hour_ok s m t'"
    by (rule hour_start [OF assms(6) that assms(2)]) (use assms(3) units_nested(4) in blast)
  moreover have "starts (days m) t'" if "\<not> day_ok s m t'"
    by (rule day_start [OF assms(5) that assms(2)]) (use assms(3) units_nested(3,4) in blast)
  moreover have "starts (months m) t'" if "\<not> month_ok s m t'"
    by (rule month_start [OF assms(4) that assms(2)]) (use assms(3) units_nested(2,3,4) in blast)
  ultimately show ?thesis unfolding wrap_inv_def using assms(1) by blast
qed

text \<open>The code of \<open>Next\<close> from each field on.\<close>

definition from_second :: "spec_schedule \<Rightarrow> zone \<Rightarrow> int \<Rightarrow> int \<Rightarrow> bool \<Rightarrow> int option option" where
  "from_second s z L t a = Option.bind (second_loop s z t a)
     (\<lambda>(w, t, a). if w then wrap_loop s z L t a else Some (Some t))"
definition from_minute :: "spec_schedule \<Rightarrow> zone \<Rightarrow> int \<Rightarrow> int \<Rightarrow> bool \<Rightarrow> int option option" where
  "from_minute s z L t a = Option.bind (minute_loop s z t a)
     (\<lambda>(w, t, a). if w then wrap_loop s z L t a else from_second s z L t a)"
definition from_hour :: "spec_schedule \<Rightarrow> zone \<Rightarrow> int \<Rightarrow> int \<Rightarrow> bool \<Rightarrow> int option option" where
  "from_hour s z L t a = Option.bind (hour_loop s z t a)
     (\<lambda>(w, t, a). if w then wrap_loop s z L t a else from_minute s z L t a)"
definition from_day :: "spec_schedule \<Rightarrow> zone \<Rightarrow> int \<Rightarrow> int \<Rightarrow> bool \<Rightarrow> int option option" where
  "from_day s z L t a = Option.bind (day_loop s z t a)
     (\<lambda>(w, t, a). if w then wrap_loop s z L t a else from_hour s z L t a)"

lemma wrap_loop_from:
  "wrap_loop s z L t a = (if L < tm_year z t then Some None else Option.bind (month_loop s z t a)
     (\<lambda>(w, t, a). if w then wrap_loop s z L t a else from_day s z L t a))"
  unfolding from_day_def from_hour_def from_minute_def from_second_def by (rule wrap_loop.simps)

text \<open>The claim for one entry into the loop, and for every later one.\<close>

definition returns :: "spec_schedule \<Rightarrow> int \<Rightarrow> int \<Rightarrow> int \<Rightarrow> int option option \<Rightarrow> bool" where
  "returns s m L t res \<longleftrightarrow> (\<exists>r. res = Some r \<and> found s m L t r)"

definition later_return :: "spec_schedule \<Rightarrow> int \<Rightarrow> int \<Rightarrow> int \<Rightarrow> bool" where
  "later_return s m L t \<longleftrightarrow> (\<forall>t'. t < t' \<longrightarrow> wrap_inv s m t' \<longrightarrow> returns s m L t' (wrap_loop s (fixed_zone m) L t' True))"

lemma returns_bind:
  assumes "loop = Some (w, t', a')" "t \<le> t'" "\<And>u. t \<le> u \<Longrightarrow> u < t' \<Longrightarrow> \<not> all_match s (fixed_zone m) u"
    and "w \<Longrightarrow> returns s m L t' (again t' a')" and "\<not> w \<Longrightarrow> returns s m L t' (rest t' a')"
  shows "returns s m L t (Option.bind loop (\<lambda>(w, t, a). if w then again t a else rest t a))"
  unfolding returns_def by (rule bind_level [OF assms(1-3)]) (use assms(4,5) in \<open>simp_all add: returns_def\<close>)

lemma later_return_mono: "later_return s m L t \<Longrightarrow> t \<le> t' \<Longrightarrow> later_return s m L t'"
  unfolding later_return_def by fastforce

text \<open>One loop of \<open>Next\<close>: what its result says, whatever the field.\<close>

context cron_field begin

lemma scannedD:
  assumes "scanned t added (w, t', a')"
  shows "t \<le> t'" "t \<le> u \<Longrightarrow> u < t' \<Longrightarrow> \<not> ok u" "t \<le> u \<Longrightarrow> u < t' \<Longrightarrow> parent u = parent t"
    "w \<Longrightarrow> t < t' \<and> a' \<and> starts parent t'"
    "\<not> w \<Longrightarrow> ok t' \<and> parent t' = parent t \<and> (t' = t \<and> a' = added \<or> a' \<and> starts unit t')"
  using assms unfolding scanned_def prod.case by presburger+

end

lemma second_returns:
  assumes later: "later_return s m L t" and "years m t \<le> L"
    and oks: "month_ok s m t" "day_ok s m t" "hour_ok s m t" "minute_ok s m t"
  shows "returns s m L t (from_second s (fixed_zone m) L t a)"
proof -
  have "starts (seconds m) t" by (simp add: starts_def units)
  then obtain w t' a' where l: "second_loop s (fixed_zone m) t a = Some (w, t', a')"
      and sc: "second_field.scanned s m t a (w, t', a')"
    using second_field.loop [of a s m t] unfolding second_loop_def by blast
  note sc = second_field.scannedD [OF sc]
  show ?thesis unfolding from_second_def
  proof (rule returns_bind [OF l sc(1)])
    show "\<not> all_match s (fixed_zone m) u" if "t \<le> u" "u < t'" for u using sc(2) [OF that] by (simp add: all_match_def)
    assume w: "w"
    then have "wrap_inv s m t'"
      using sc(4) starts_nested(5) by (intro wrap_inv_seconds [OF _ _ sc(3) oks]) blast+
    then show "returns s m L t' (wrap_loop s (fixed_zone m) L t' a')" using later sc(4) [OF w] by (simp add: later_return_def)
  next
    assume "\<not> w"
    then have *: "second_ok s m t'" "minutes m t' = minutes m t" using sc(5) by blast+
    then have "hours m t' = hours m t" using units_nested(4) by blast
    then have "days m t' = days m t" using units_nested(3) by blast
    then have "months m t' = months m t" using units_nested(2) by blast
    then have "years m t' = years m t" using units_nested(1) by blast
    then have "years m t' \<le> L" using assms(2) by simp
    moreover have "month_ok s m t'" "day_ok s m t'" "hour_ok s m t'" "minute_ok s m t'"
      using month_matches_unit [OF \<open>months m t' = months m t\<close>, of s] day_matches_unit [OF \<open>days m t' = days m t\<close>, of s]
        hour_matches_unit [OF \<open>hours m t' = hours m t\<close>, of s] minute_matches_unit [OF *(2), of s] oks by blast+
    ultimately have "found s m L t' (Some t')" using *(1) by (auto simp: found_def all_match_def)
    then show "returns s m L t' (Some (Some t'))" by (simp add: returns_def)
  qed
qed

lemma minute_returns:
  assumes later: "later_return s m L t" and "years m t \<le> L"
    and oks: "month_ok s m t" "day_ok s m t" "hour_ok s m t"
    and inv: "a \<Longrightarrow> wrap_inv s m t"
  shows "returns s m L t (from_minute s (fixed_zone m) L t a)"
proof -
  obtain w t' a' where l: "minute_loop s (fixed_zone m) t a = Some (w, t', a')"
      and sc: "minute_field.scanned s m t a (w, t', a')"
    using minute_field.loop [of a s m t] inv unfolding minute_loop_def wrap_inv_def by blast
  note sc = minute_field.scannedD [OF sc]
  show ?thesis unfolding from_minute_def
  proof (rule returns_bind [OF l sc(1)])
    show "\<not> all_match s (fixed_zone m) u" if "t \<le> u" "u < t'" for u using sc(2) [OF that] by (simp add: all_match_def)
    assume w: "w"
    then have "wrap_inv s m t'"
      using sc(4) starts_nested(4) by (intro wrap_inv_minutes [OF _ _ sc(3) oks]) blast+
    then show "returns s m L t' (wrap_loop s (fixed_zone m) L t' a')" using later sc(4) [OF w] by (simp add: later_return_def)
  next
    assume "\<not> w"
    then have *: "minute_ok s m t'" "hours m t' = hours m t" using sc(5) by blast+
    then have d: "days m t' = days m t" using units_nested(3) by blast
    then have mo: "months m t' = months m t" using units_nested(2) by blast
    then have "years m t' \<le> L" using units_nested(1) assms(2) by metis
    then show "returns s m L t' (from_second s (fixed_zone m) L t' a')"
      using later_return_mono [OF later sc(1)] * oks month_matches_unit [OF mo, of s] day_matches_unit [OF d, of s]
        hour_matches_unit [OF *(2), of s] by (intro second_returns) blast+
  qed
qed

text \<open>Falling through to the start of a unit, with the coarser fields matching.\<close>

lemma fall_inv_hours:
  assumes "starts (hours m) t" "month_ok s m t" "day_ok s m t"
  shows "wrap_inv s m t"
  unfolding wrap_inv_def using assms starts_nested(4,5) by blast

lemma fall_inv_days:
  assumes "starts (days m) t" "month_ok s m t"
  shows "wrap_inv s m t"
  unfolding wrap_inv_def using assms starts_nested(3-5) by blast

lemma hour_returns:
  assumes later: "later_return s m L t" and "years m t \<le> L"
    and oks: "month_ok s m t" "day_ok s m t"
    and inv: "a \<Longrightarrow> wrap_inv s m t"
  shows "returns s m L t (from_hour s (fixed_zone m) L t a)"
proof -
  obtain w t' a' where l: "hour_loop s (fixed_zone m) t a = Some (w, t', a')"
      and sc: "hour_field.scanned s m t a (w, t', a')"
    using hour_field.loop [of a s m t] inv unfolding hour_loop_def wrap_inv_def by blast
  note sc = hour_field.scannedD [OF sc]
  show ?thesis unfolding from_hour_def
  proof (rule returns_bind [OF l sc(1)])
    show "\<not> all_match s (fixed_zone m) u" if "t \<le> u" "u < t'" for u using sc(2) [OF that] by (simp add: all_match_def)
    assume w: "w"
    then have "wrap_inv s m t'"
      using sc(4) starts_nested(3) by (intro wrap_inv_hours [OF _ _ sc(3) oks]) blast+
    then show "returns s m L t' (wrap_loop s (fixed_zone m) L t' a')" using later sc(4) [OF w] by (simp add: later_return_def)
  next
    assume "\<not> w"
    then have *: "hour_ok s m t'" "days m t' = days m t" "t' = t \<and> a' = a \<or> a' \<and> starts (hours m) t'" using sc(5) by blast+
    then have mo: "months m t' = months m t" using units_nested(2) by blast
    then have "years m t' \<le> L" using units_nested(1) assms(2) by metis
    moreover have ok': "month_ok s m t'" "day_ok s m t'"
      using oks month_matches_unit [OF mo, of s] day_matches_unit [OF *(2), of s] by blast+
    moreover have "wrap_inv s m t'" if "a'" using *(3) inv fall_inv_hours [OF _ ok'] that by blast
    ultimately show "returns s m L t' (from_minute s (fixed_zone m) L t' a')"
      using later_return_mono [OF later sc(1)] *(1) by (intro minute_returns) blast+
  qed
qed

lemma day_returns:
  assumes later: "later_return s m L t" and "years m t \<le> L"
    and oks: "month_ok s m t"
    and inv: "a \<Longrightarrow> wrap_inv s m t"
  shows "returns s m L t (from_day s (fixed_zone m) L t a)"
proof -
  obtain w t' a' where l: "day_loop s (fixed_zone m) t a = Some (w, t', a')"
      and sc: "day_field.scanned s m t a (w, t', a')"
    using day_field.loop [of a s m t] inv unfolding day_loop_def wrap_inv_def by blast
  note sc = day_field.scannedD [OF sc]
  show ?thesis unfolding from_day_def
  proof (rule returns_bind [OF l sc(1)])
    show "\<not> all_match s (fixed_zone m) u" if "t \<le> u" "u < t'" for u using sc(2) [OF that] by (simp add: all_match_def)
    assume w: "w"
    then have "wrap_inv s m t'"
      using sc(4) starts_nested(2) by (intro wrap_inv_days [OF _ _ sc(3) oks]) blast+
    then show "returns s m L t' (wrap_loop s (fixed_zone m) L t' a')" using later sc(4) [OF w] by (simp add: later_return_def)
  next
    assume "\<not> w"
    then have *: "day_ok s m t'" "months m t' = months m t" "t' = t \<and> a' = a \<or> a' \<and> starts (days m) t'" using sc(5) by blast+
    then have "years m t' \<le> L" using units_nested(1) assms(2) by metis
    moreover have ok': "month_ok s m t'" using oks month_matches_unit [OF *(2), of s] by blast
    moreover have "wrap_inv s m t'" if "a'" using *(3) inv fall_inv_days [OF _ ok'] that by blast
    ultimately show "returns s m L t' (from_hour s (fixed_zone m) L t' a')"
      using later_return_mono [OF later sc(1)] *(1) by (intro hour_returns) blast+
  qed
qed

lemma wrap_returns:
  assumes later: "later_return s m L t" and inv: "a \<Longrightarrow> wrap_inv s m t"
  shows "returns s m L t (wrap_loop s (fixed_zone m) L t a)"
proof (cases "L < years m t")
  case True
  then have "found s m L t None"
    using monoD [OF units_mono(1), of t _ m] by (fastforce simp: found_def)
  with True show ?thesis by (simp add: wrap_loop.simps returns_def tm_dates units)
next
  case False
  obtain w t' a' where l: "month_loop s (fixed_zone m) t a = Some (w, t', a')"
      and sc: "month_field.scanned s m t a (w, t', a')"
    using month_field.loop [of a s m t] inv unfolding month_loop_def wrap_inv_def by blast
  note sc = month_field.scannedD [OF sc]
  have "returns s m L t (Option.bind (month_loop s (fixed_zone m) t a)
      (\<lambda>(w, t, a). if w then wrap_loop s (fixed_zone m) L t a else from_day s (fixed_zone m) L t a))"
  proof (rule returns_bind [OF l sc(1)])
    show "\<not> all_match s (fixed_zone m) u" if "t \<le> u" "u < t'" for u using sc(2) [OF that] by (simp add: all_match_def)
    assume w: "w"
    then have "wrap_inv s m t'" using sc(4) starts_nested(1) wrap_inv_months by blast
    then show "returns s m L t' (wrap_loop s (fixed_zone m) L t' a')" using later sc(4) [OF w] by (simp add: later_return_def)
  next
    assume "\<not> w"
    then have *: "month_ok s m t'" "years m t' = years m t" "t' = t \<and> a' = a \<or> a' \<and> starts (months m) t'" using sc(5) by blast+
    then have "wrap_inv s m t'" if "a'" using inv wrap_inv_months that by blast
    with * False show "returns s m L t' (from_day s (fixed_zone m) L t' a')"
      using later_return_mono [OF later sc(1)] by (intro day_returns) auto
  qed
  with False show ?thesis by (simp add: wrap_loop_from tm_dates units)
qed

text \<open>After the end of the last year the search gives up at once; before it, every wrap is later.\<close>

lemma later_return: "later_return s m L t"
proof (induction "nat (year_start (L + 1) * 86400 - 60 * m - t)" arbitrary: t rule: less_induct)
  case less
  have "returns s m L t' (wrap_loop s (fixed_zone m) L t' True)" if "t < t'" "wrap_inv s m t'" for t'
  proof (cases "t < year_start (L + 1) * 86400 - 60 * m")
    case True
    then show ?thesis using less.hyps [of t'] that by (intro wrap_returns) auto
  next
    case False
    then have "year_start (L + 1) * 86400 div 86400 \<le> (t' + 60 * m) div 86400"
      using \<open>t < t'\<close> by (intro zdiv_mono1) simp_all
    then have "year_start (L + 1) \<le> days m t'" by (simp add: days_def)
    then have "year_of (year_start (L + 1)) \<le> years m t'" by (simp add: units year_mono)
    moreover have "year_of (year_start (L + 1)) = L + 1"
      using year_len_bounds(1) [of "L + 1"] by (intro year_of_unique) auto
    ultimately have L: "L < years m t'" by simp
    then have "found s m L t' None"
      using monoD [OF units_mono(1), of t' _ m] by (fastforce simp: found_def)
    with L show ?thesis by (simp add: wrap_loop.simps returns_def tm_dates units)
  qed
  then show ?case by (simp add: later_return_def)
qed

lemma upcoming_second_le: "upcoming_second ns \<le> u \<longleftrightarrow> ns < u * 1000000000"
proof -
  have "a + 1000000000 - r = 1000000000 * (q + 1)" if "a - r = 1000000000 * q" for a r q :: int
    using that by (simp add: algebra_simps)
  from this [OF minus_mod_eq_mult_div] have "ns + 1000000000 - ns mod 1000000000 = 1000000000 * (ns div 1000000000 + 1)" .
  then have n: "upcoming_second ns = ns div 1000000000 + 1" unfolding upcoming_second_def by (simp only:) simp
  have "1000000000 * (ns div 1000000000) + ns mod 1000000000 = ns" "0 \<le> ns mod 1000000000" "ns mod 1000000000 < 1000000000"
    by simp_all
  moreover have "q + 1 \<le> u \<longleftrightarrow> x < u * 1000000000" if "1000000000 * q + r = x" "0 \<le> r" "r < 1000000000" for q r x :: int
    using that by auto
  ultimately show ?thesis unfolding n by blast
qed

lemma SpecSchedule_Next_returns:
  assumes "effective_zone s z = fixed_zone m"
  shows "\<exists>r. SpecSchedule_Next s z ns = Some r \<and> found s m (years m (upcoming_second ns) + 5) (upcoming_second ns) r"
proof -
  have y: "tm_year (fixed_zone m) = years m" by (simp add: fun_eq_iff tm_dates units)
  let ?t = "upcoming_second ns"
  have "returns s m (years m ?t + 5) ?t (wrap_loop s (fixed_zone m) (years m ?t + 5) ?t False)"
    by (rule wrap_returns [OF later_return]) simp
  then show ?thesis unfolding SpecSchedule_Next_def assms Let_def y returns_def .
qed

text \<open>
  C24. In a zone whose offset is a whole number of minutes, \<open>Next\<close> always returns, and its answer
  is exact: the earliest whole second after the given time at which every field matches, or the
  zero time when no second matches up to the end of the fifth year after.
\<close>

theorem cron_next_exact:
  assumes "effective_zone s z = fixed_zone m"
  shows "\<exists>r. SpecSchedule_Next s z ns = Some r \<and> (case r of
      None \<Rightarrow> \<forall>u. ns < u * 1000000000 \<and> tm_year (fixed_zone m) u \<le> tm_year (fixed_zone m) (upcoming_second ns) + 5
        \<longrightarrow> \<not> all_match s (fixed_zone m) u
    | Some t \<Rightarrow> ns < t * 1000000000 \<and> tm_year (fixed_zone m) t \<le> tm_year (fixed_zone m) (upcoming_second ns) + 5
        \<and> all_match s (fixed_zone m) t
        \<and> (\<forall>u. ns < u * 1000000000 \<and> u < t \<longrightarrow> \<not> all_match s (fixed_zone m) u))"
proof -
  have y: "tm_year (fixed_zone m) = years m" by (simp add: fun_eq_iff tm_dates units)
  show ?thesis
    using SpecSchedule_Next_returns [OF assms, of ns] unfolding found_def y upcoming_second_le .
qed

section \<open>Examples\<close>

lemma has_bit_iff: "has_bit b v \<longleftrightarrow> bit b (nat v)"
  using bit_iff_and_push_bit_not_eq_0 [of b "nat v"] by (simp add: has_bit_def and.commute)

lemma loop_done:
  "has_bit (sp_Month s) (tm_month z t) \<Longrightarrow> month_loop s z t a = Some (False, t, a)"
  "dayMatches s z t \<Longrightarrow> day_loop s z t a = Some (False, t, a)"
  "has_bit (sp_Hour s) (tm_hour z t) \<Longrightarrow> hour_loop s z t a = Some (False, t, a)"
  "has_bit (sp_Minute s) (tm_minute z t) \<Longrightarrow> minute_loop s z t a = Some (False, t, a)"
  "has_bit (sp_Second s) (tm_second z t) \<Longrightarrow> second_loop s z t a = Some (False, t, a)"
  by (simp_all add: month_loop_def day_loop_def hour_loop_def minute_loop_def second_loop_def field_loop.simps [of _ _ _ _ t])

lemma hour_loop_step:
  "\<not> has_bit (sp_Hour s) (tm_hour z t) \<Longrightarrow> tm_hour z (t + 3600) \<noteq> 0 \<Longrightarrow>
    hour_loop s z t True = hour_loop s z (t + 3600) True"
  by (simp add: hour_loop_def field_loop.simps [of _ _ _ _ t])

lemma hour_loop_first:
  assumes "\<not> has_bit (sp_Hour s) (tm_hour z t)" "tm_hour z (t + 3600) \<noteq> 0"
    "time_Date z (tm_year z t) (tm_month z t) (tm_day z t) (tm_hour z t) 0 0 = t"
  shows "hour_loop s z t False = hour_loop s z (t + 3600) True"
  using assms by (simp add: hour_loop_def field_loop.simps [of _ _ _ _ t])

text \<open>Every day at five, and on 3 November at five.\<close>

definition every_bit :: "64 word" where
  "every_bit = NOT 0"

definition daily_five :: spec_schedule where
  "daily_five = \<lparr>sp_Second = 1, sp_Minute = 1, sp_Hour = push_bit 5 1, sp_Dom = every_bit, sp_Month = every_bit,
     sp_Dow = every_bit, sp_Location = LocalZone\<rparr>"

definition november_third :: spec_schedule where
  "november_third = \<lparr>sp_Second = 1, sp_Minute = 1, sp_Hour = push_bit 5 1, sp_Dom = push_bit 3 1, sp_Month = push_bit 11 1,
     sp_Dow = every_bit, sp_Location = LocalZone\<rparr>"

text \<open>At midnight of 4 November 2018 the clocks went from 00:00 to 01:00.\<close>

definition nov4 :: int where
  "nov4 = 737001 * 86400"

lemma nov4_date: "nov4 = day_of 2018 11 4 * 86400"
  by code_simp

definition nov3_six :: int where
  "nov3_six = nov4 - 86400 + 6 * 3600 + 10800"

definition sao_paulo :: zone where
  "sao_paulo t = (if t < nov4 + 10800 then - 10800 else - 7200)"

lemma november_hour: "0 \<le> v \<Longrightarrow> has_bit (sp_Hour november_third) v \<longleftrightarrow> v = 5"
proof -
  assume "0 \<le> v"
  have "bit (push_bit k 1 :: 64 word) n \<longleftrightarrow> n = k \<and> k < 64" for k n
    by (auto simp: bit_simps)
  from this [of 5 "nat v"] show ?thesis using \<open>0 \<le> v\<close> unfolding has_bit_iff november_third_def by auto
qed

lemma sao_hour: "tm_hour sao_paulo t = (if t < nov4 + 10800 then t - 10800 else t - 7200) mod 86400 div 3600"
  by (simp add: tm_hour_def wall_def sao_paulo_def)

lemma sao_fields:
  "tm_year sao_paulo nov3_six = 2018" "tm_month sao_paulo nov3_six = 11"
  "tm_day sao_paulo nov3_six = 3" "tm_day sao_paulo (nov4 + 25200) = 4"
  "tm_hour sao_paulo nov3_six = 6"
  "time_Date sao_paulo 2018 11 3 6 0 0 = nov3_six"
  by code_simp+

lemma every_bit: "has_bit every_bit v \<longleftrightarrow> nat v < 64"
  by (simp add: has_bit_iff every_bit_def bit_simps)

lemma sao_hours: "hour_loop november_third sao_paulo nov3_six False = Some (False, nov4 + 25200, True)"
  by (subst hour_loop_first) (simp_all only: sao_fields, simp_all add: november_hour sao_hour nov4_def nov3_six_def hour_loop_step loop_done)

lemma november_days:
  "dayMatches november_third sao_paulo nov3_six" "\<not> dayMatches november_third sao_paulo (nov4 + 25200)"
  by code_simp+

text \<open>
  The loop over hours recognises the end of the day by the hour 0 alone. Where the clocks skip
  midnight it does not notice the new day: a schedule for 3 November at 05:00, asked at 06:00 of
  that day, answers 05:00 of 4 November, a day the schedule does not name.
\<close>

theorem skipped_midnight_breaks_day:
  "SpecSchedule_Next november_third sao_paulo (nov3_six * 1000000000 - 1) = Some (Some (nov4 + 25200))
   \<and> tm_month sao_paulo (nov4 + 25200) = 11 \<and> tm_day sao_paulo (nov4 + 25200) = 4
   \<and> \<not> dayMatches november_third sao_paulo (nov4 + 25200)"
proof -
  have up: "upcoming_second (nov3_six * 1000000000 - 1) = nov3_six"
    by (simp add: upcoming_second_def nov3_six_def nov4_def)
  have z: "effective_zone november_third sao_paulo = sao_paulo"
    by (simp add: effective_zone_def november_third_def)
  have bits: "has_bit (sp_Month november_third) 11" "has_bit (sp_Minute november_third) (tm_minute sao_paulo (nov4 + 25200))"
    "has_bit (sp_Second november_third) (tm_second sao_paulo (nov4 + 25200))"
    by code_simp+
  have "wrap_loop november_third sao_paulo 2023 nov3_six False = Some (Some (nov4 + 25200))"
    by (subst wrap_loop.simps) (simp add: loop_done bits november_days sao_hours sao_fields)
  then have "SpecSchedule_Next november_third sao_paulo (nov3_six * 1000000000 - 1) = Some (Some (nov4 + 25200))"
    unfolding SpecSchedule_Next_def Let_def z up sao_fields by simp
  moreover have "tm_month sao_paulo (nov4 + 25200) = 11" by code_simp
  ultimately show ?thesis using sao_fields(4) november_days(2) by blast
qed

lemma daily_five_bits:
  "0 \<le> v \<Longrightarrow> has_bit (sp_Hour daily_five) v \<longleftrightarrow> v = 5" "has_bit (sp_Month daily_five) v \<longleftrightarrow> nat v < 64"
  "has_bit (sp_Minute daily_five) 0" "has_bit (sp_Second daily_five) 0"
proof -
  have "bit (push_bit k 1 :: 64 word) n \<longleftrightarrow> n = k \<and> k < 64" for k n
    by (auto simp: bit_simps)
  from this [of 5 "nat v"] show "0 \<le> v \<Longrightarrow> has_bit (sp_Hour daily_five) v \<longleftrightarrow> v = 5"
    unfolding has_bit_iff daily_five_def by auto
  show "has_bit (sp_Month daily_five) v \<longleftrightarrow> nat v < 64" by (simp add: daily_five_def every_bit)
  show "has_bit (sp_Minute daily_five) 0" "has_bit (sp_Second daily_five) 0" by (simp_all add: daily_five_def has_bit_def)
qed

lemma daily_five_next: "SpecSchedule_Next daily_five (fixed_zone 0) (86400 * 1000000000 - 1) = Some (Some 104400)"
proof -
  have f: "tm_year (fixed_zone 0) 86400 = 1" "tm_month (fixed_zone 0) 86400 = 1" "tm_day (fixed_zone 0) 86400 = 2"
    "tm_hour (fixed_zone 0) 86400 = 0" "time_Date (fixed_zone 0) 1 1 2 0 0 0 = 86400" "dayMatches daily_five (fixed_zone 0) 86400"
    by code_simp+
  have h: "hour_loop daily_five (fixed_zone 0) 86400 False = Some (False, 104400, True)"
    by (subst hour_loop_first) (simp_all only: f, simp_all add: daily_five_bits tm_hour_def hour_loop_step loop_done)
  have "wrap_loop daily_five (fixed_zone 0) 6 86400 False = Some (Some 104400)"
    by (subst wrap_loop.simps) (simp add: f h loop_done daily_five_bits tm_minute_def tm_second_def)
  then show ?thesis
    by (simp add: SpecSchedule_Next_def Let_def effective_zone_def daily_five_def [THEN arg_cong [where f = sp_Location]] upcoming_second_def f)
qed

theorem cron_next_exact_witness:
  "SpecSchedule_Next daily_five (fixed_zone 0) (86400 * 1000000000 - 1) = Some (Some 104400)
   \<and> all_match daily_five (fixed_zone 0) 104400
   \<and> \<not> all_match daily_five (fixed_zone 0) 104399"
proof -
  have "effective_zone daily_five (fixed_zone 0) = fixed_zone 0" by (simp add: effective_zone_def daily_five_def)
  from cron_next_exact [OF this, of "86400 * 1000000000 - 1"] show ?thesis
    unfolding daily_five_next by auto
qed

end
