(* ===== verification/CronParser.thy ===== *)
theory CronParser
  imports Prelude CronNext
begin

unbundle bit_operations_syntax

text \<open>
  The language of cron schedules: \<open>memos/lib/cron/parser.go\<close> and the bounds of \<open>spec.go\<close>.

  Go's \<open>uint\<close> is a 64-bit word and a set of values a 64-bit word too. A slice or string indexed
  out of its range panics, and the loop of \<open>getBits\<close> might not end: the result of parsing is
  \<open>Panics\<close>, \<open>Diverges\<close>, or what the Go function returns. \<open>time.LoadLocation\<close>, which reads the
  zone database, and \<open>time.ParseDuration\<close>, which computes with floating-point numbers, are
  parameters.
\<close>

section \<open>Results\<close>

datatype cron_error =
    EmptySpec | BadLocation | DescriptorsNotEnabled | MultipleOptionals | WrongFieldCount nat nat
  | UnexpectedOptional | BadNumber | NegativeNumber | TooManyHyphens string | TooManySlashes string
  | BelowMinimum string | AboveMaximum string | BeginningAfterEnd string | ZeroStep string
  | BadDuration | UnrecognizedDescriptor string

datatype 'a outcome = Panics | Diverges | Fails cron_error | Gives 'a

fun andThen :: "'a outcome \<Rightarrow> ('a \<Rightarrow> 'b outcome) \<Rightarrow> 'b outcome" where
  "andThen (Gives x) k = k x"
| "andThen (Fails e) k = Fails e"
| "andThen Panics k = Panics"
| "andThen Diverges k = Diverges"

lemma andThen_cases:
  "andThen r k = Gives y \<longleftrightarrow> (\<exists>x. r = Gives x \<and> k x = Gives y)"
  "andThen r k = Panics \<longleftrightarrow> r = Panics \<or> (\<exists>x. r = Gives x \<and> k x = Panics)"
  "andThen r k = Diverges \<longleftrightarrow> r = Diverges \<or> (\<exists>x. r = Gives x \<and> k x = Diverges)"
  by (cases r; simp)+

section \<open>Numbers and names\<close>

text \<open>\<open>strconv.Atoi\<close>: an optional sign, decimal digits, and a value of 64 bits.\<close>

definition Atoi :: "string \<Rightarrow> int option" where
  "Atoi s =
     (let (neg, ds) = (case s of [] \<Rightarrow> (False, s)
         | c # r \<Rightarrow> if c = CHR ''-'' then (True, r) else if c = CHR ''+'' then (False, r) else (False, s));
          v = (if neg then - int (undec ds) else int (undec ds))
      in if ds \<noteq> [] \<and> list_all is_digit ds \<and> - (2 ^ 63) \<le> v \<and> v < 2 ^ 63 then Some v else None)"

definition mustParseInt :: "string \<Rightarrow> 64 word outcome" where
  "mustParseInt expr =
     (case Atoi expr of
        None \<Rightarrow> Fails BadNumber
      | Some num \<Rightarrow> if num < 0 then Fails NegativeNumber else Gives (word_of_int num))"

record bounds =
  bd_min :: "64 word"
  bd_max :: "64 word"
  bd_names :: "(string \<times> 64 word) list"

definition seconds_bounds :: bounds where "seconds_bounds = \<lparr>bd_min = 0, bd_max = 59, bd_names = []\<rparr>"
definition minutes_bounds :: bounds where "minutes_bounds = \<lparr>bd_min = 0, bd_max = 59, bd_names = []\<rparr>"
definition hours_bounds :: bounds where "hours_bounds = \<lparr>bd_min = 0, bd_max = 23, bd_names = []\<rparr>"
definition dom_bounds :: bounds where "dom_bounds = \<lparr>bd_min = 1, bd_max = 31, bd_names = []\<rparr>"
definition months_bounds :: bounds where
  "months_bounds = \<lparr>bd_min = 1, bd_max = 12, bd_names =
     [(''jan'', 1), (''feb'', 2), (''mar'', 3), (''apr'', 4), (''may'', 5), (''jun'', 6),
      (''jul'', 7), (''aug'', 8), (''sep'', 9), (''oct'', 10), (''nov'', 11), (''dec'', 12)]\<rparr>"
definition dow_bounds :: bounds where
  "dow_bounds = \<lparr>bd_min = 0, bd_max = 6, bd_names =
     [(''sun'', 0), (''mon'', 1), (''tue'', 2), (''wed'', 3), (''thu'', 4), (''fri'', 5), (''sat'', 6)]\<rparr>"

definition parseIntOrName :: "string \<Rightarrow> (string \<times> 64 word) list \<Rightarrow> 64 word outcome" where
  "parseIntOrName expr names =
     (case map_of names (to_lower expr) of Some namedInt \<Rightarrow> Gives namedInt | None \<Rightarrow> mustParseInt expr)"

section \<open>Bit sets\<close>

partial_function (option) bits_loop :: "64 word \<Rightarrow> 64 word \<Rightarrow> 64 word \<Rightarrow> 64 word \<Rightarrow> 64 word option" where
  "bits_loop i hi step bits =
     (if i \<le> hi then bits_loop (i + step) hi step (bits OR push_bit (unat i) 1) else Some bits)"

definition getBits :: "64 word \<Rightarrow> 64 word \<Rightarrow> 64 word \<Rightarrow> 64 word option" where
  "getBits lo hi step =
     (if step = 1 then Some (NOT (push_bit (unat (hi + 1)) (NOT 0)) AND push_bit (unat lo) (NOT 0))
      else bits_loop lo hi step 0)"

definition all_bits :: "bounds \<Rightarrow> 64 word outcome" where
  "all_bits r = (case getBits (bd_min r) (bd_max r) 1 of None \<Rightarrow> Diverges | Some b \<Rightarrow> Gives (b OR starBit))"

section \<open>Ranges and fields\<close>

definition range_ends :: "string \<Rightarrow> string list \<Rightarrow> bounds \<Rightarrow> (64 word \<times> 64 word \<times> 64 word) outcome" where
  "range_ends expr lowAndHigh r =
     (let low = hd lowAndHigh in
      if low = ''*'' \<or> low = ''?'' then Gives (bd_min r, bd_max r, starBit)
      else andThen (parseIntOrName low (bd_names r)) (\<lambda>start.
        case tl lowAndHigh of
          [] \<Rightarrow> Gives (start, start, 0)
        | [high] \<Rightarrow> andThen (parseIntOrName high (bd_names r)) (\<lambda>end. Gives (start, end, 0))
        | _ \<Rightarrow> Fails (TooManyHyphens expr)))"

definition range_step ::
  "string \<Rightarrow> string list \<Rightarrow> bool \<Rightarrow> bounds \<Rightarrow> 64 word \<times> 64 word \<times> 64 word \<Rightarrow> (64 word \<times> 64 word \<times> 64 word \<times> 64 word) outcome" where
  "range_step expr rangeAndStep singleDigit r ends =
     (let (start, end, extra) = ends in
      case tl rangeAndStep of
        [] \<Rightarrow> Gives (start, end, 1, extra)
      | [s] \<Rightarrow> andThen (mustParseInt s) (\<lambda>step.
          Gives (start, if singleDigit then bd_max r else end, step, if 1 < step then 0 else extra))
      | _ \<Rightarrow> Fails (TooManySlashes expr))"

definition getRange :: "string \<Rightarrow> bounds \<Rightarrow> 64 word outcome" where
  "getRange expr r =
     (let rangeAndStep = split_on (CHR ''/'') expr;
          lowAndHigh = split_on (CHR ''-'') (hd rangeAndStep);
          singleDigit = (length lowAndHigh = 1)
      in andThen (range_ends expr lowAndHigh r) (\<lambda>ends.
         andThen (range_step expr rangeAndStep singleDigit r ends) (\<lambda>(start, end, step, extra).
           if start < bd_min r then Fails (BelowMinimum expr)
           else if bd_max r < end then Fails (AboveMaximum expr)
           else if end < start then Fails (BeginningAfterEnd expr)
           else if step = 0 then Fails (ZeroStep expr)
           else case getBits start end step of None \<Rightarrow> Diverges | Some b \<Rightarrow> Gives (b OR extra))))"

fun get_ranges :: "bounds \<Rightarrow> 64 word \<Rightarrow> string list \<Rightarrow> 64 word outcome" where
  "get_ranges r bits [] = Gives bits"
| "get_ranges r bits (expr # ranges) = andThen (getRange expr r) (\<lambda>bit. get_ranges r (bits OR bit) ranges)"

definition getField :: "string \<Rightarrow> bounds \<Rightarrow> 64 word outcome" where
  "getField field r = get_ranges r 0 (fields_func (\<lambda>c. c = CHR '','') field)"

section \<open>Options and the list of fields\<close>

definition opt_Second :: int where "opt_Second = 1"
definition opt_SecondOptional :: int where "opt_SecondOptional = 2"
definition opt_Minute :: int where "opt_Minute = 4"
definition opt_Hour :: int where "opt_Hour = 8"
definition opt_Dom :: int where "opt_Dom = 16"
definition opt_Month :: int where "opt_Month = 32"
definition opt_Dow :: int where "opt_Dow = 64"
definition opt_DowOptional :: int where "opt_DowOptional = 128"
definition opt_Descriptor :: int where "opt_Descriptor = 256"

definition places :: "int list" where
  "places = [opt_Second, opt_Minute, opt_Hour, opt_Dom, opt_Month, opt_Dow]"

definition field_defaults :: "string list" where
  "field_defaults = [''0'', ''0'', ''0'', ''*'', ''*'', ''*'']"

definition has_opt :: "int \<Rightarrow> int \<Rightarrow> bool" where
  "has_opt options place \<longleftrightarrow> 0 < options AND place"

text \<open>\<open>NewParser\<close> panics when two optional fields are configured.\<close>

definition NewParser :: "int \<Rightarrow> int outcome" where
  "NewParser options =
     (if has_opt options opt_DowOptional \<and> has_opt options opt_SecondOptional then Panics else Gives options)"

text \<open>The fields of the options take their place among the defaults; \<open>fields[n]\<close> can panic.\<close>

fun expand_fields :: "int \<Rightarrow> int list \<Rightarrow> string list \<Rightarrow> string list \<Rightarrow> string list outcome" where
  "expand_fields options (place # ps) (d # ds) fs =
     (if has_opt options place
      then (case fs of [] \<Rightarrow> Panics
            | f # fs \<Rightarrow> andThen (expand_fields options ps ds fs) (\<lambda>rest. Gives (f # rest)))
      else andThen (expand_fields options ps ds fs) (\<lambda>rest. Gives (d # rest)))"
| "expand_fields options ps ds fs = Gives []"

definition normalizeFields :: "string list \<Rightarrow> int \<Rightarrow> string list outcome" where
  "normalizeFields fs options =
     (let secondOpt = has_opt options opt_SecondOptional;
          options = (if secondOpt then options OR opt_Second else options);
          dowOpt = has_opt options opt_DowOptional;
          options = (if dowOpt then options OR opt_Dow else options);
          optionals = (if secondOpt then 1 else 0) + (if dowOpt then 1 else (0 :: nat))
      in if 1 < optionals then Fails MultipleOptionals
         else let most = length (filter (has_opt options) places); least = most - optionals; count = length fs
         in if count < least \<or> most < count then Fails (WrongFieldCount least most)
            else andThen
              (if least < most \<and> count = least then
                 if dowOpt then Gives (fs @ [field_defaults ! 5])
                 else if secondOpt then Gives (field_defaults ! 0 # fs)
                 else Fails UnexpectedOptional
               else Gives fs)
              (expand_fields options places field_defaults))"

section \<open>Descriptors and schedules\<close>

datatype schedule_spec = SpecSched spec_schedule | ConstantDelay int

definition first_bit :: "bounds \<Rightarrow> 64 word" where
  "first_bit r = push_bit (unat (bd_min r)) 1"

definition mk_spec ::
  "64 word outcome \<Rightarrow> 64 word outcome \<Rightarrow> 64 word outcome \<Rightarrow> 64 word outcome \<Rightarrow> 64 word outcome \<Rightarrow> 64 word outcome \<Rightarrow> location
    \<Rightarrow> schedule_spec outcome" where
  "mk_spec sec mi h d mo w loc =
     andThen sec (\<lambda>sec. andThen mi (\<lambda>mi. andThen h (\<lambda>h. andThen d (\<lambda>d. andThen mo (\<lambda>mo. andThen w (\<lambda>w.
       Gives (SpecSched \<lparr>sp_Second = sec, sp_Minute = mi, sp_Hour = h, sp_Dom = d, sp_Month = mo, sp_Dow = w,
         sp_Location = loc\<rparr>)))))))"

definition parseDescriptor :: "(string \<Rightarrow> int option) \<Rightarrow> string \<Rightarrow> location \<Rightarrow> schedule_spec outcome" where
  "parseDescriptor ParseDuration descriptor loc =
     (let sec = Gives (first_bit seconds_bounds); mi = Gives (first_bit minutes_bounds); h = Gives (first_bit hours_bounds) in
      if descriptor = ''@yearly'' \<or> descriptor = ''@annually'' then
        mk_spec sec mi h (Gives (first_bit dom_bounds)) (Gives (first_bit months_bounds)) (all_bits dow_bounds) loc
      else if descriptor = ''@monthly'' then
        mk_spec sec mi h (Gives (first_bit dom_bounds)) (all_bits months_bounds) (all_bits dow_bounds) loc
      else if descriptor = ''@weekly'' then
        mk_spec sec mi h (all_bits dom_bounds) (all_bits months_bounds) (Gives (first_bit dow_bounds)) loc
      else if descriptor = ''@daily'' \<or> descriptor = ''@midnight'' then
        mk_spec sec mi h (all_bits dom_bounds) (all_bits months_bounds) (all_bits dow_bounds) loc
      else if descriptor = ''@hourly'' then
        mk_spec sec mi (all_bits hours_bounds) (all_bits dom_bounds) (all_bits months_bounds) (all_bits dow_bounds) loc
      else if prefix ''@every '' descriptor then
        (case ParseDuration (drop (length ''@every '') descriptor) of
           None \<Rightarrow> Fails BadDuration
         | Some duration \<Rightarrow> Gives (ConstantDelay (Every duration)))
      else Fails (UnrecognizedDescriptor descriptor))"

text \<open>The zone of the prefix: \<open>spec[eq+1 : i]\<close> panics when there is no blank, \<open>i\<close> being -1 then.\<close>

definition parse_zone :: "(string \<Rightarrow> zone option) \<Rightarrow> string \<Rightarrow> (location \<times> string) outcome" where
  "parse_zone LoadLocation spec =
     (if prefix ''TZ='' spec \<or> prefix ''CRON_TZ='' spec then
        (case first_index (CHR '' '') spec of
           None \<Rightarrow> Panics
         | Some i \<Rightarrow>
             let eq = (case first_index (CHR ''='') spec of None \<Rightarrow> 0 | Some eq \<Rightarrow> eq) in
             (case LoadLocation (drop (eq + 1) (take i spec)) of
                None \<Rightarrow> Fails BadLocation
              | Some z \<Rightarrow> Gives (InZone z, trim_space (drop i spec))))
      else Gives (LocalZone, spec))"

definition Parse :: "(string \<Rightarrow> zone option) \<Rightarrow> (string \<Rightarrow> int option) \<Rightarrow> int \<Rightarrow> string \<Rightarrow> schedule_spec outcome" where
  "Parse LoadLocation ParseDuration options spec =
     (if spec = [] then Fails EmptySpec
      else andThen (parse_zone LoadLocation spec) (\<lambda>(loc, spec).
        if prefix ''@'' spec then
          if \<not> has_opt options opt_Descriptor then Fails DescriptorsNotEnabled
          else parseDescriptor ParseDuration spec loc
        else andThen (normalizeFields (Prelude.fields spec) options) (\<lambda>fs.
          mk_spec (getField (fs ! 0) seconds_bounds) (getField (fs ! 1) minutes_bounds) (getField (fs ! 2) hours_bounds)
            (getField (fs ! 3) dom_bounds) (getField (fs ! 4) months_bounds) (getField (fs ! 5) dow_bounds) loc)))"

definition standardParser :: int where
  "standardParser = opt_Minute OR opt_Hour OR opt_Dom OR opt_Month OR opt_Dow OR opt_Descriptor"

definition ParseStandard :: "(string \<Rightarrow> zone option) \<Rightarrow> (string \<Rightarrow> int option) \<Rightarrow> string \<Rightarrow> schedule_spec outcome" where
  "ParseStandard LoadLocation ParseDuration = Parse LoadLocation ParseDuration standardParser"

end
