(* ===== verification/CronFields.thy ===== *)
theory CronFields
  imports CronParser
begin

text \<open>
  What the parser of cron schedules accepts: a field written from a list of ranges is read back as
  the set of values those ranges name, whatever text is given the sets stay within the bounds of
  their field, and the parser always returns, except for a zone prefix with nothing after it.
\<close>

section \<open>Bit sets\<close>

lemma bits_loop_exact:
  assumes "unat hi \<le> 62" "0 < unat step" "unat step < 2 ^ 63"
  shows "\<exists>b. bits_loop i hi step bits = Some b \<and> (\<forall>n. bit b n \<longleftrightarrow>
    bit bits n \<or> unat i \<le> n \<and> n \<le> unat hi \<and> (n - unat i) mod unat step = 0)"
proof (induction "unat hi + 1 - unat i" arbitrary: i bits rule: less_induct)
  case less
  show ?case
  proof (cases "i \<le> hi")
    case False
    then show ?thesis by (auto simp: bits_loop.simps word_le_nat_alt)
  next
    case True
    then have i: "unat i \<le> unat hi" by (simp add: word_le_nat_alt)
    then have next_i: "unat (i + step) = unat i + unat step"
      using assms by (intro unat_add_lem [THEN iffD1]) simp
    have "unat hi + 1 - unat (i + step) < unat hi + 1 - unat i" using i next_i assms(2) by linarith
    from less [OF this, of "bits OR push_bit (unat i) 1"]
    obtain b where b: "bits_loop (i + step) hi step (bits OR push_bit (unat i) 1) = Some b"
      "\<And>n. bit b n \<longleftrightarrow> bit (bits OR push_bit (unat i) 1) n
         \<or> unat (i + step) \<le> n \<and> n \<le> unat hi \<and> (n - unat (i + step)) mod unat step = 0"
      by blast
    have "bit (bits OR push_bit (unat i) 1) n \<longleftrightarrow> bit bits n \<or> n = unat i" for n
      using i assms(1) by (auto simp: bit_simps)
    moreover have "n = unat i \<or> unat i + unat step \<le> n \<and> n \<le> unat hi \<and> (n - (unat i + unat step)) mod unat step = 0
        \<longleftrightarrow> unat i \<le> n \<and> n \<le> unat hi \<and> (n - unat i) mod unat step = 0" for n
    proof (cases "unat i + unat step \<le> n")
      case True
      then have "(n - unat i) mod unat step = (n - (unat i + unat step)) mod unat step"
        by (simp add: le_mod_geq)
      with True assms(2) show ?thesis by auto
    next
      case False
      then have "n = unat i" if "unat i \<le> n" "unat step dvd n - unat i"
        using dvd_imp_le [OF that(2)] that(1) by (cases "n = unat i") auto
      with False i show ?thesis by (auto simp: mod_eq_0_iff_dvd)
    qed
    ultimately show ?thesis
      using b True next_i by (auto simp: bits_loop.simps [of i])
  qed
qed

lemma getBits_exact:
  assumes "unat hi \<le> 62" "0 < unat step" "unat step < 2 ^ 63"
  shows "\<exists>b. getBits lo hi step = Some b \<and> (\<forall>n. bit b n \<longleftrightarrow>
    unat lo \<le> n \<and> n \<le> unat hi \<and> (n - unat lo) mod unat step = 0)"
proof (cases "step = 1")
  case True
  have "unat (hi + 1) = unat hi + 1"
    using assms(1) by (subst unat_add_lem [THEN iffD1]) simp_all
  with True assms(1) show ?thesis by (auto simp: getBits_def bit_simps)
next
  case False
  then show ?thesis using bits_loop_exact [OF assms, of lo 0] by (simp add: getBits_def)
qed

section \<open>Whatever is accepted is within bounds\<close>

definition good_bounds :: "bounds \<Rightarrow> bool" where
  "good_bounds r \<longleftrightarrow> unat (bd_min r) \<le> unat (bd_max r) \<and> unat (bd_max r) \<le> 59
     \<and> (\<forall>(k, v) \<in> set (bd_names r). k \<noteq> [] \<and> (\<forall>c \<in> set k. lower_char c = c \<and> c \<notin> {CHR '','', CHR ''-'', CHR ''/'', CHR ''*'', CHR ''?''} \<and> \<not> is_digit c))"

lemma the_bounds:
  "good_bounds seconds_bounds" "good_bounds minutes_bounds" "good_bounds hours_bounds"
  "good_bounds dom_bounds" "good_bounds months_bounds" "good_bounds dow_bounds"
  by code_simp+

lemma mustParseInt_cases:
  "mustParseInt s \<noteq> Panics" "mustParseInt s \<noteq> Diverges" "mustParseInt s = Gives w \<Longrightarrow> unat w < 2 ^ 63"
proof -
  show "mustParseInt s \<noteq> Panics" "mustParseInt s \<noteq> Diverges"
    by (simp_all add: mustParseInt_def split: option.split)
  assume "mustParseInt s = Gives w"
  then obtain num where "Atoi s = Some num" "0 \<le> num" "w = word_of_int num"
    by (auto simp: mustParseInt_def split: option.splits if_splits)
  moreover from this have "num < 2 ^ 63" by (auto simp: Atoi_def Let_def split: prod.splits if_splits)
  ultimately show "unat w < 2 ^ 63" by (simp add: unat_eq_nat_uint uint_word_of_int nat_less_iff)
qed

lemma parseIntOrName_cases: "parseIntOrName s names \<noteq> Panics" "parseIntOrName s names \<noteq> Diverges"
  by (simp_all add: parseIntOrName_def mustParseInt_cases split: option.split)

lemma range_ends_cases: "range_ends expr ls r \<noteq> Panics" "range_ends expr ls r \<noteq> Diverges"
  by (auto simp: range_ends_def Let_def andThen_cases parseIntOrName_cases split: list.split)

lemma range_ends_extra: "range_ends expr ls r = Gives (lo, hi, extra) \<Longrightarrow> extra = 0 \<or> extra = starBit"
  by (cases "tl ls"; cases "tl (tl ls)"; auto simp: range_ends_def Let_def andThen_cases split: if_splits)

lemma range_step_cases:
  "range_step expr ss single r ends \<noteq> Panics" "range_step expr ss single r ends \<noteq> Diverges"
  by (auto simp: range_step_def Let_def andThen_cases mustParseInt_cases split: list.split prod.split)

lemma range_step_Gives:
  assumes "range_step expr ss single r (lo0, hi0, extra0) = Gives (lo, hi, step, extra)"
  shows "unat step < 2 ^ 63" "extra = 0 \<or> extra = extra0"
  using assms
  by (auto simp: range_step_def Let_def andThen_cases dest!: mustParseInt_cases(3) split: list.splits if_splits)

lemma bit_starBit: "bit starBit n \<longleftrightarrow> n = 63"
proof -
  have "bit (push_bit k 1 :: 64 word) n \<longleftrightarrow> n = k \<and> k < 64" for k n by (auto simp: bit_simps)
  from this [of 63 n] show ?thesis unfolding starBit_def by auto
qed

definition within :: "bounds \<Rightarrow> 64 word \<Rightarrow> bool" where
  "within r b \<longleftrightarrow> (\<forall>n. bit b n \<longrightarrow> n = 63 \<or> unat (bd_min r) \<le> n \<and> n \<le> unat (bd_max r))"

lemma getRange_good:
  assumes "good_bounds r"
  shows "(\<exists>e. getRange expr r = Fails e) \<or> (\<exists>b. getRange expr r = Gives b \<and> within r b)"
proof (cases "getRange expr r")
  case Panics
  then show ?thesis
    by (auto simp: getRange_def Let_def andThen_cases range_ends_cases range_step_cases split: prod.splits if_splits option.splits)
next
  case Diverges
  then obtain lo0 hi0 extra0 lo hi step extra where st:
      "range_step expr (split_on (CHR ''/'') expr) (length (split_on (CHR ''-'') (hd (split_on (CHR ''/'') expr))) = 1) r (lo0, hi0, extra0)
         = Gives (lo, hi, step, extra)"
      "getBits lo hi step = None" "step \<noteq> 0" "\<not> bd_max r < hi"
    by (auto simp: getRange_def Let_def andThen_cases range_ends_cases range_step_cases split: prod.splits if_splits option.splits)
  then have "unat hi \<le> 62" "0 < unat step" "unat step < 2 ^ 63"
    using assms range_step_Gives(1) [OF st(1)]
    by (auto simp: good_bounds_def word_less_nat_alt unat_gt_0)
  from getBits_exact [OF this, of lo] st(2) show ?thesis by simp
next
  case (Gives b)
  then obtain lo0 hi0 extra0 lo hi step extra b' where en:
      "range_ends expr (split_on (CHR ''-'') (hd (split_on (CHR ''/'') expr))) r = Gives (lo0, hi0, extra0)" and st:
      "range_step expr (split_on (CHR ''/'') expr) (length (split_on (CHR ''-'') (hd (split_on (CHR ''/'') expr))) = 1) r (lo0, hi0, extra0)
         = Gives (lo, hi, step, extra)"
      "getBits lo hi step = Some b'" "step \<noteq> 0" "\<not> bd_max r < hi" "\<not> lo < bd_min r" "b = b' OR extra"
    by (auto simp: getRange_def Let_def andThen_cases split: prod.splits if_splits option.splits)
  then have "unat hi \<le> 62" "0 < unat step" "unat step < 2 ^ 63"
    using assms range_step_Gives(1) [OF st(1)]
    by (auto simp: good_bounds_def word_less_nat_alt unat_gt_0)
  from getBits_exact [OF this, of lo] st(2) have "\<And>n. bit b' n \<Longrightarrow> unat lo \<le> n \<and> n \<le> unat hi" by auto
  moreover have "extra = 0 \<or> extra = starBit"
    using range_ends_extra [OF en] range_step_Gives(2) [OF st(1)] by blast
  moreover have "unat (bd_min r) \<le> unat lo" "unat hi \<le> unat (bd_max r)"
    using st(4,5) by (simp_all add: word_less_nat_alt)
  ultimately have "within r b"
    using st(6) by (fastforce simp: within_def bit_starBit bit_or_iff)
  with Gives show ?thesis by simp
qed simp

lemma get_ranges_good:
  assumes "good_bounds r"
  shows "within r bits \<Longrightarrow> (\<exists>e. get_ranges r bits es = Fails e) \<or> (\<exists>b. get_ranges r bits es = Gives b \<and> within r b)"
proof (induction es arbitrary: bits)
  case (Cons expr es)
  from getRange_good [OF assms, of expr] show ?case
  proof (elim disjE exE conjE)
    fix b assume b: "getRange expr r = Gives b" "within r b"
    then have "within r (bits OR b)" using Cons.prems by (auto simp: within_def bit_or_iff)
    from Cons.IH [OF this] b(1) show ?thesis by simp
  qed simp
qed simp

lemma getField_good:
  assumes "good_bounds r"
  shows "(\<exists>e. getField field r = Fails e) \<or> (\<exists>b. getField field r = Gives b \<and> within r b)"
proof -
  have "within r 0" by (simp add: within_def)
  from get_ranges_good [OF assms this] show ?thesis unfolding getField_def .
qed

text \<open>
  C25. Reading a field returns, for every text, and the values it accepts are those between the
  bounds of the field, besides the bit that records a star.
\<close>

theorem cron_field_within_bounds:
  assumes "good_bounds r"
  shows "case getField field r of
      Fails e \<Rightarrow> True
    | Gives b \<Rightarrow> \<forall>n. bit b n \<longrightarrow> n = 63 \<or> unat (bd_min r) \<le> n \<and> n \<le> unat (bd_max r)
    | Panics \<Rightarrow> False | Diverges \<Rightarrow> False"
  using getField_good [OF assms, of field] unfolding within_def by (elim disjE exE conjE) simp_all

section \<open>Writing a field and reading it back\<close>

datatype cron_end = Digits nat | Name string

datatype cron_range =
    Star | StarStep nat | One cron_end | OneStep cron_end nat | Span cron_end cron_end | SpanStep cron_end cron_end nat

fun end_text :: "cron_end \<Rightarrow> string" where
  "end_text (Digits n) = dec n"
| "end_text (Name s) = s"

fun end_value :: "bounds \<Rightarrow> cron_end \<Rightarrow> nat" where
  "end_value r (Digits n) = n"
| "end_value r (Name s) = (case map_of (bd_names r) (to_lower s) of None \<Rightarrow> 0 | Some w \<Rightarrow> unat w)"

fun end_ok :: "bounds \<Rightarrow> cron_end \<Rightarrow> bool" where
  "end_ok r (Digits n) \<longleftrightarrow> n < 2 ^ 63"
| "end_ok r (Name s) \<longleftrightarrow> map_of (bd_names r) (to_lower s) \<noteq> None"

fun range_text :: "cron_range \<Rightarrow> string" where
  "range_text Star = ''*''"
| "range_text (StarStep k) = ''*/'' @ dec k"
| "range_text (One a) = end_text a"
| "range_text (OneStep a k) = end_text a @ ''/'' @ dec k"
| "range_text (Span a b) = end_text a @ ''-'' @ end_text b"
| "range_text (SpanStep a b k) = end_text a @ ''-'' @ end_text b @ ''/'' @ dec k"

text \<open>The first value, the last bound and the step a range names; a single number with a step runs on.\<close>

fun range_span :: "bounds \<Rightarrow> cron_range \<Rightarrow> nat \<times> nat \<times> nat" where
  "range_span r Star = (unat (bd_min r), unat (bd_max r), 1)"
| "range_span r (StarStep k) = (unat (bd_min r), unat (bd_max r), k)"
| "range_span r (One a) = (end_value r a, end_value r a, 1)"
| "range_span r (OneStep a k) = (end_value r a, unat (bd_max r), k)"
| "range_span r (Span a b) = (end_value r a, end_value r b, 1)"
| "range_span r (SpanStep a b k) = (end_value r a, end_value r b, k)"

fun ends_ok :: "bounds \<Rightarrow> cron_range \<Rightarrow> bool" where
  "ends_ok r (One a) = end_ok r a"
| "ends_ok r (OneStep a k) = end_ok r a"
| "ends_ok r (Span a b) = (end_ok r a \<and> end_ok r b)"
| "ends_ok r (SpanStep a b k) = (end_ok r a \<and> end_ok r b)"
| "ends_ok r _ = True"

definition range_ok :: "bounds \<Rightarrow> cron_range \<Rightarrow> bool" where
  "range_ok r rg \<longleftrightarrow> ends_ok r rg \<and> (case range_span r rg of (lo, hi, step) \<Rightarrow>
     unat (bd_min r) \<le> lo \<and> lo \<le> hi \<and> hi \<le> unat (bd_max r) \<and> 0 < step \<and> step < 2 ^ 63)"

definition denotes :: "bounds \<Rightarrow> cron_range \<Rightarrow> nat \<Rightarrow> bool" where
  "denotes r rg n \<longleftrightarrow> (case range_span r rg of (lo, hi, step) \<Rightarrow> lo \<le> n \<and> n \<le> hi \<and> (n - lo) mod step = 0)"

definition starred :: "cron_range \<Rightarrow> bool" where
  "starred rg \<longleftrightarrow> rg = Star \<or> rg = StarStep 1"

fun field_text :: "cron_range list \<Rightarrow> string" where
  "field_text [] = []"
| "field_text [rg] = range_text rg"
| "field_text (rg # rgs) = range_text rg @ '','' @ field_text rgs"

lemma split_by_append_sep:
  "\<forall>x \<in> set a. \<not> f x \<Longrightarrow> f c \<Longrightarrow> split_by f (a @ c # b) = a # split_by f b"
  by (induction a) auto

lemma split_on_append_sep: "c \<notin> set a \<Longrightarrow> split_on c (a @ c # b) = a # split_on c b"
  unfolding split_on_def by (rule split_by_append_sep) auto

definition plain :: "string \<Rightarrow> bool" where
  "plain s \<longleftrightarrow> CHR '','' \<notin> set s \<and> CHR ''-'' \<notin> set s \<and> CHR ''/'' \<notin> set s \<and> s \<noteq> [] \<and> s \<noteq> ''*'' \<and> s \<noteq> ''?''"

lemma not_digits: "\<not> is_digit (CHR '','')" "\<not> is_digit (CHR ''-'')" "\<not> is_digit (CHR ''/'')" "\<not> is_digit (CHR ''+'')"
    "\<not> is_digit (CHR ''*'')" "\<not> is_digit (CHR ''?'')"
  by code_simp+

lemma plain_dec: "plain (dec n)"
proof -
  have "\<forall>c \<in> set (dec n). is_digit c" by (rule dec_digits)
  then show ?thesis using not_digits unfolding plain_def by (auto simp: dec_nonempty)
qed

lemma map_of_names:
  assumes "good_bounds r" "map_of (bd_names r) k = Some w"
  shows "k \<noteq> []" "\<forall>c \<in> set k. c \<notin> {CHR '','', CHR ''-'', CHR ''/'', CHR ''*'', CHR ''?''} \<and> \<not> is_digit c"
  using map_of_SomeD [OF assms(2)] assms(1) by (fastforce simp: good_bounds_def)+

lemma plain_end:
  assumes "good_bounds r" "end_ok r a"
  shows "plain (end_text a)"
proof (cases a)
  case (Name s)
  then obtain w where w: "map_of (bd_names r) (to_lower s) = Some w" using assms(2) by auto
  have lower: "lower_char c = c" if "c \<in> {CHR '','', CHR ''-'', CHR ''/'', CHR ''*'', CHR ''?''}" for c
  proof -
    have "list_all (\<lambda>c. lower_char c = c) [CHR '','', CHR ''-'', CHR ''/'', CHR ''*'', CHR ''?'']" by code_simp
    then show ?thesis using that by auto
  qed
  have "c \<in> set s \<Longrightarrow> c \<notin> {CHR '','', CHR ''-'', CHR ''/'', CHR ''*'', CHR ''?''}" for c
    using map_of_names(2) [OF assms(1) w] lower [of c] by (auto simp: to_lower_def)
  moreover have "s \<noteq> []" using map_of_names(1) [OF assms(1) w] by auto
  ultimately show ?thesis using Name by (fastforce simp: plain_def)
qed (simp add: plain_dec)

lemma Atoi_dec: "n < 2 ^ 63 \<Longrightarrow> Atoi (dec n) = Some (int n)"
proof -
  assume n: "n < 2 ^ 63"
  have d: "\<forall>c \<in> set (dec n). is_digit c" by (rule dec_digits)
  obtain c r where p: "dec n = c # r" using dec_nonempty [of n] by (cases "dec n") auto
  then have "c \<noteq> CHR ''-''" "c \<noteq> CHR ''+''" using d not_digits by auto
  moreover have "list_all is_digit (c # r)" using d p by (simp add: list_all_iff)
  ultimately show ?thesis
    using n p undec_dec [of n] by (auto simp: Atoi_def)
qed

lemma mustParseInt_dec: "n < 2 ^ 63 \<Longrightarrow> mustParseInt (dec n) = Gives (of_nat n)"
  by (simp add: mustParseInt_def Atoi_dec)

lemma unat_of_small: "n < 2 ^ 63 \<Longrightarrow> unat (of_nat n :: 64 word) = n"
  by (simp add: unat_of_nat)

lemma parse_end:
  assumes "good_bounds r" "end_ok r a"
  shows "\<exists>w. parseIntOrName (end_text a) (bd_names r) = Gives w \<and> unat w = end_value r a"
proof (cases a)
  case (Digits n)
  have low: "lower_char c = c" if "is_digit c" for c
    using that by (auto simp: lower_char_def is_digit_alt less_eq_char_def)
  have "to_lower (dec n) = dec n" using dec_digits [of n] low by (simp add: to_lower_def map_idI)
  moreover have "map_of (bd_names r) (dec n) = None"
    using map_of_names [OF assms(1), of "dec n"] dec_digits [of n] dec_nonempty [of n]
    by (cases "map_of (bd_names r) (dec n)"; cases "dec n") auto
  ultimately show ?thesis
    using Digits assms(2) by (simp add: parseIntOrName_def mustParseInt_dec unat_of_small)
next
  case (Name s)
  then show ?thesis using assms(2) by (auto simp: parseIntOrName_def)
qed

lemma split_plain:
  "plain s \<Longrightarrow> split_on (CHR ''/'') s = [s]" "plain s \<Longrightarrow> split_on (CHR ''-'') s = [s]"
  "plain s \<Longrightarrow> split_on (CHR ''/'') (s @ CHR ''/'' # t) = s # split_on (CHR ''/'') t"
  "plain s \<Longrightarrow> split_on (CHR ''-'') (s @ CHR ''-'' # t) = s # split_on (CHR ''-'') t"
  by (simp_all add: plain_def split_on_single split_on_append_sep)

lemma split_slash_range:
  assumes "plain a" "plain b"
  shows "split_on (CHR ''/'') (a @ CHR ''-'' # b) = [a @ CHR ''-'' # b]"
    "split_on (CHR ''/'') (a @ CHR ''-'' # b @ CHR ''/'' # t) = (a @ CHR ''-'' # b) # split_on (CHR ''/'') t"
  using assms split_on_append_sep [of "CHR ''/''" "a @ CHR ''-'' # b" t]
  by (auto simp: plain_def intro!: split_on_single)

text \<open>The parts of a range, once it is split at its slash and its hyphen.\<close>

lemma getRange_parts:
  assumes "getBits start end step = Some b" "\<not> start < bd_min r" "\<not> bd_max r < end" "\<not> end < start" "step \<noteq> 0"
    and "range_ends expr (split_on (CHR ''-'') (hd (split_on (CHR ''/'') expr))) r = Gives ends"
    and "range_step expr (split_on (CHR ''/'') expr)
      (length (split_on (CHR ''-'') (hd (split_on (CHR ''/'') expr))) = 1) r ends = Gives (start, end, step, extra)"
  shows "getRange expr r = Gives (b OR extra)"
  using assms by (simp add: getRange_def Let_def)

lemma getRange_span:
  assumes "good_bounds r" "range_ok r rg" "range_span r rg = (unat start, unat end, unat step)"
    and "range_ends expr (split_on (CHR ''-'') (hd (split_on (CHR ''/'') expr))) r = Gives ends"
    and "range_step expr (split_on (CHR ''/'') expr)
      (length (split_on (CHR ''-'') (hd (split_on (CHR ''/'') expr))) = 1) r ends
        = Gives (start, end, step, if starred rg then starBit else 0)"
  shows "\<exists>b. getRange expr r = Gives b \<and> (\<forall>n. bit b n \<longleftrightarrow> denotes r rg n \<or> n = 63 \<and> starred rg)"
proof -
  have ok: "unat (bd_min r) \<le> unat start" "unat start \<le> unat end" "unat end \<le> unat (bd_max r)"
      "0 < unat step" "unat step < 2 ^ 63"
    using assms(2,3) by (simp_all add: range_ok_def)
  moreover have "unat end \<le> 62" using ok assms(1) by (simp add: good_bounds_def)
  ultimately obtain b where b: "getBits start end step = Some b"
      "\<And>n. bit b n \<longleftrightarrow> unat start \<le> n \<and> n \<le> unat end \<and> (n - unat start) mod unat step = 0"
    using getBits_exact by blast
  have "getRange expr r = Gives (b OR (if starred rg then starBit else 0))"
    using ok by (intro getRange_parts [OF b(1) _ _ _ _ assms(4,5)]) (simp_all add: word_less_nat_alt unat_gt_0)
  then show ?thesis
    using b(2) assms(3) by (auto simp: denotes_def bit_or_iff bit_starBit)
qed

lemma small_words: "unat (1 :: 64 word) = 1" "k < 2 ^ 63 \<Longrightarrow> 1 < (of_nat k :: 64 word) \<longleftrightarrow> 1 < k"
  by (simp_all add: word_less_nat_alt unat_of_small)

lemma star_text: "split_on (CHR ''/'') ''*'' = [''*'']" "split_on (CHR ''-'') ''*'' = [''*'']"
    "split_on (CHR ''/'') (CHR ''*'' # CHR ''/'' # t) = ''*'' # split_on (CHR ''/'') t"
  using split_on_append_sep [of "CHR ''/''" "''*''" t] by (simp_all add: split_on_single)

lemma plain_not_star: "plain s \<Longrightarrow> s \<noteq> ''*'' \<and> s \<noteq> ''?''"
  by (simp add: plain_def)

lemma getRange_text:
  assumes r: "good_bounds r" and ok: "range_ok r rg"
  shows "\<exists>b. getRange (range_text rg) r = Gives b \<and> (\<forall>n. bit b n \<longleftrightarrow> denotes r rg n \<or> n = 63 \<and> starred rg)"
proof (cases rg)
  case Star
  then show ?thesis
    by (intro getRange_span [OF r ok, of "bd_min r" "bd_max r" 1 _ "(bd_min r, bd_max r, starBit)"])
      (simp_all add: star_text range_ends_def range_step_def starred_def small_words)
next
  case (StarStep k)
  then have k: "0 < k" "k < 2 ^ 63" using ok by (simp_all add: range_ok_def)
  from StarStep show ?thesis
    by (intro getRange_span [OF r ok, of "bd_min r" "bd_max r" "of_nat k" _ "(bd_min r, bd_max r, starBit)"])
      (use k in \<open>simp_all add: star_text split_plain plain_dec range_ends_def range_step_def starred_def small_words
        mustParseInt_dec unat_of_small\<close>)
next
  case (One a)
  then have e: "end_ok r a" using ok by (simp add: range_ok_def)
  note pl = plain_end [OF r e]
  obtain w where w: "parseIntOrName (end_text a) (bd_names r) = Gives w" "unat w = end_value r a"
    using parse_end [OF r e] by blast
  from One show ?thesis
    by (intro getRange_span [OF r ok, of w w 1 _ "(w, w, 0)"])
      (use pl w in \<open>simp_all add: split_plain range_ends_def range_step_def starred_def small_words plain_not_star\<close>)
next
  case (OneStep a k)
  then have e: "end_ok r a" "0 < k" "k < 2 ^ 63" using ok by (simp_all add: range_ok_def)
  note pl = plain_end [OF r e(1)]
  obtain w where w: "parseIntOrName (end_text a) (bd_names r) = Gives w" "unat w = end_value r a"
    using parse_end [OF r e(1)] by blast
  from OneStep show ?thesis
    by (intro getRange_span [OF r ok, of w "bd_max r" "of_nat k" _ "(w, w, 0)"])
      (use e pl w in \<open>simp_all add: split_plain plain_dec range_ends_def range_step_def starred_def small_words
        mustParseInt_dec unat_of_small plain_not_star\<close>)
next
  case (Span a b)
  then have e: "end_ok r a" "end_ok r b" using ok by (simp_all add: range_ok_def)
  note pl = plain_end [OF r e(1)] plain_end [OF r e(2)]
  obtain v w where w: "parseIntOrName (end_text a) (bd_names r) = Gives v" "unat v = end_value r a"
      "parseIntOrName (end_text b) (bd_names r) = Gives w" "unat w = end_value r b"
    using parse_end [OF r e(1)] parse_end [OF r e(2)] by blast
  from Span show ?thesis
    by (intro getRange_span [OF r ok, of v w 1 _ "(v, w, 0)"])
      (use pl w in \<open>simp_all add: split_plain split_slash_range range_ends_def range_step_def starred_def small_words plain_not_star\<close>)
next
  case (SpanStep a b k)
  then have e: "end_ok r a" "end_ok r b" "0 < k" "k < 2 ^ 63" using ok by (simp_all add: range_ok_def)
  note pl = plain_end [OF r e(1)] plain_end [OF r e(2)]
  obtain v w where w: "parseIntOrName (end_text a) (bd_names r) = Gives v" "unat v = end_value r a"
      "parseIntOrName (end_text b) (bd_names r) = Gives w" "unat w = end_value r b"
    using parse_end [OF r e(1)] parse_end [OF r e(2)] by blast
  from SpanStep show ?thesis
    by (intro getRange_span [OF r ok, of v w "of_nat k" _ "(v, w, 0)"])
      (use e pl w in \<open>simp_all add: split_plain split_slash_range plain_dec range_ends_def range_step_def starred_def
        small_words mustParseInt_dec unat_of_small plain_not_star\<close>)
qed

lemma range_text_plain:
  assumes "good_bounds r" "range_ok r rg"
  shows "CHR '','' \<notin> set (range_text rg)" "range_text rg \<noteq> []"
  using assms plain_end [OF assms(1)] plain_dec by (cases rg; auto simp: range_ok_def plain_def)+

lemma fields_func_field_text:
  assumes "good_bounds r" "\<forall>rg \<in> set rgs. range_ok r rg"
  shows "fields_func (\<lambda>c. c = CHR '','') (field_text rgs) = map range_text rgs"
  using assms(2)
proof (induction rgs rule: field_text.induct)
  case (2 rg)
  then have "split_by (\<lambda>c. c = CHR '','') (range_text rg) = [range_text rg]"
    using range_text_plain(1) [OF assms(1)] by (intro split_by_single) auto
  with 2 show ?case using range_text_plain(2) [OF assms(1)] by (simp add: fields_func_def)
next
  case (3 rg v va)
  then have "split_by (\<lambda>c. c = CHR '','') (range_text rg @ CHR '','' # field_text (v # va))
      = range_text rg # split_by (\<lambda>c. c = CHR '','') (field_text (v # va))"
    using range_text_plain(1) [OF assms(1)] by (intro split_by_append_sep) auto
  then show ?case using 3 range_text_plain(2) [OF assms(1)] by (simp add: fields_func_def)
qed (simp add: fields_func_def)

lemma get_ranges_texts:
  assumes "good_bounds r" "\<forall>rg \<in> set rgs. range_ok r rg"
  shows "\<exists>b. get_ranges r bits (map range_text rgs) = Gives b
    \<and> (\<forall>n. bit b n \<longleftrightarrow> bit bits n \<or> (\<exists>rg \<in> set rgs. denotes r rg n \<or> n = 63 \<and> starred rg))"
  using assms(2)
proof (induction rgs arbitrary: bits)
  case (Cons rg rgs)
  obtain b where b: "getRange (range_text rg) r = Gives b" "\<And>n. bit b n \<longleftrightarrow> denotes r rg n \<or> n = 63 \<and> starred rg"
    using getRange_text [OF assms(1), of rg] Cons.prems by auto
  obtain b' where "get_ranges r (bits OR b) (map range_text rgs) = Gives b'"
      "\<And>n. bit b' n \<longleftrightarrow> bit (bits OR b) n \<or> (\<exists>rg \<in> set rgs. denotes r rg n \<or> n = 63 \<and> starred rg)"
    using Cons.IH [of "bits OR b"] Cons.prems by auto
  with b show ?case by (auto simp: bit_or_iff)
qed simp

text \<open>
  Writing a list of ranges and reading it back gives the set of the values those ranges name,
  numbers, names, spans and steps alike, and the top bit when one of them is a star.
\<close>

theorem cron_field_roundtrip:
  assumes "good_bounds r" "\<forall>rg \<in> set rgs. range_ok r rg"
  shows "\<exists>b. getField (field_text rgs) r = Gives b
     \<and> (\<forall>n. bit b n \<longleftrightarrow> (\<exists>rg \<in> set rgs. denotes r rg n \<or> n = 63 \<and> starred rg))"
  using get_ranges_texts [OF assms, of 0] by (simp add: getField_def fields_func_field_text [OF assms])

section \<open>Parsing returns\<close>

lemma expand_fields_length:
  assumes "length (filter (has_opt options) ps) \<le> length fs" "length ps = length ds"
  shows "\<exists>xs. expand_fields options ps ds fs = Gives xs \<and> length xs = length ps"
  using assms
proof (induction options ps ds fs rule: expand_fields.induct)
  case (1 options place ps d ds fs)
  then show ?case by (cases fs) auto
qed auto

lemma fill_fields:
  assumes "\<And>fs'. most \<le> length fs' \<Longrightarrow> \<exists>xs. expand fs' = Gives xs"
    and "n = (if sec then 1 else 0) + (if dow then 1 else (0 :: nat))"
  shows "(\<exists>e. (if 1 < n then Fails E else if length fs < most - n \<or> most < length fs then Fails E'
        else andThen (if most - n < most \<and> length fs = most - n
          then if dow then Gives (fs @ [d]) else if sec then Gives (c # fs) else Fails U else Gives fs) expand) = Fails e)
    \<or> (\<exists>xs. (if 1 < n then Fails E else if length fs < most - n \<or> most < length fs then Fails E'
        else andThen (if most - n < most \<and> length fs = most - n
          then if dow then Gives (fs @ [d]) else if sec then Gives (c # fs) else Fails U else Gives fs) expand) = Gives xs)"
  using assms(1) [of fs] assms(1) [of "fs @ [d]"] assms(1) [of "c # fs"] assms(2)
  by (cases "most \<le> length fs"; cases sec; cases dow; cases "length fs = most - n"; auto)

lemma normalizeFields_cases:
  "(\<exists>e. normalizeFields fs options = Fails e) \<or> (\<exists>xs. normalizeFields fs options = Gives xs)"
  unfolding normalizeFields_def Let_def
proof (rule fill_fields)
  show "\<exists>xs. expand_fields o' places field_defaults fs' = Gives xs"
    if "length (filter (has_opt o') places) \<le> length fs'" for o' fs'
    using expand_fields_length [OF that, of field_defaults] by (auto simp: places_def field_defaults_def)
qed simp

lemma getField_cases: "good_bounds r \<Longrightarrow> getField f r \<noteq> Panics \<and> getField f r \<noteq> Diverges"
  using getField_good [of r f] by auto

lemma all_bits_Gives: "good_bounds r \<Longrightarrow> \<exists>b. all_bits r = Gives b"
  using getBits_exact [of "bd_max r" 1 "bd_min r"] by (auto simp: all_bits_def good_bounds_def)

lemma mk_spec_cases:
  assumes "\<forall>x \<in> {s, mi, h, d, mo, w}. x \<noteq> Panics \<and> x \<noteq> Diverges"
  shows "mk_spec s mi h d mo w loc \<noteq> Panics \<and> mk_spec s mi h d mo w loc \<noteq> Diverges"
  using assms by (simp add: mk_spec_def andThen_cases)

lemma parseDescriptor_cases:
  "parseDescriptor dur d loc \<noteq> Panics \<and> parseDescriptor dur d loc \<noteq> Diverges"
proof -
  obtain a b c e where "all_bits dow_bounds = Gives a" "all_bits months_bounds = Gives b"
    "all_bits dom_bounds = Gives c" "all_bits hours_bounds = Gives e"
    using all_bits_Gives the_bounds by meson
  then show ?thesis by (simp add: parseDescriptor_def Let_def mk_spec_def split: option.split)
qed

lemma first_index_None: "first_index c s = None \<longleftrightarrow> c \<notin> set s"
  by (induction s) auto

lemma parse_zone_cases:
  "parse_zone load spec \<noteq> Diverges"
  "parse_zone load spec = Panics \<longleftrightarrow> (prefix ''TZ='' spec \<or> prefix ''CRON_TZ='' spec) \<and> CHR '' '' \<notin> set spec"
  by (auto simp: parse_zone_def Let_def first_index_None [symmetric] split: option.split)

text \<open>
  Parsing always ends, and panics for just one kind of text: a zone prefix with no blank after
  it, whatever the options and the zone database.
\<close>

theorem cron_parse_panics_exactly:
  "Parse load dur options spec \<noteq> Diverges
   \<and> (Parse load dur options spec = Panics \<longleftrightarrow>
        (prefix ''TZ='' spec \<or> prefix ''CRON_TZ='' spec) \<and> CHR '' '' \<notin> set spec)"
proof (cases "spec = []")
  case False
  have "normalizeFields fs options \<noteq> Panics" "normalizeFields fs options \<noteq> Diverges" for fs
    using normalizeFields_cases [of fs options] by auto
  moreover have "mk_spec (getField (fs ! 0) seconds_bounds) (getField (fs ! 1) minutes_bounds) (getField (fs ! 2) hours_bounds)
      (getField (fs ! 3) dom_bounds) (getField (fs ! 4) months_bounds) (getField (fs ! 5) dow_bounds) loc \<noteq> Panics"
    "mk_spec (getField (fs ! 0) seconds_bounds) (getField (fs ! 1) minutes_bounds) (getField (fs ! 2) hours_bounds)
      (getField (fs ! 3) dom_bounds) (getField (fs ! 4) months_bounds) (getField (fs ! 5) dow_bounds) loc \<noteq> Diverges" for fs loc
    using getField_cases the_bounds by (simp_all add: mk_spec_cases)
  ultimately show ?thesis
    using False parse_zone_cases [of load spec] parseDescriptor_cases
    by (auto simp: Parse_def andThen_cases split: if_splits prod.splits)
qed (simp add: Parse_def)

section \<open>Examples\<close>

text \<open>Mondays to Fridays, and every quarter of an hour from 8 to 18.\<close>

theorem cron_field_roundtrip_witness:
  "\<exists>b. getField ''MON-Fri,0'' dow_bounds = Gives b \<and> bit b 3 \<and> bit b 0 \<and> \<not> bit b 6"
proof -
  let ?rgs = "[Span (Name ''MON'') (Name ''Fri''), One (Digits 0)]"
  have low: "to_lower ''MON'' = ''mon''" "to_lower ''Fri'' = ''fri''" and written: "field_text ?rgs = ''MON-Fri,0''"
    by code_simp+
  have "\<forall>rg \<in> set ?rgs. range_ok dow_bounds rg"
    by (simp add: range_ok_def dow_bounds_def low)
  from cron_field_roundtrip [OF the_bounds(6) this] show ?thesis
    unfolding written by (auto simp: denotes_def dow_bounds_def low starred_def)
qed

theorem cron_field_within_bounds_witness:
  "case getField ''8-18,*/5'' hours_bounds of Fails e \<Rightarrow> True | Gives b \<Rightarrow> \<not> bit b 24
     | Panics \<Rightarrow> False | Diverges \<Rightarrow> False"
proof -
  have "unat (bd_min hours_bounds) = 0" "unat (bd_max hours_bounds) = 23" by (simp_all add: hours_bounds_def)
  with cron_field_within_bounds [OF the_bounds(3), of "''8-18,*/5''"] show ?thesis
    by (cases "getField ''8-18,*/5'' hours_bounds") auto
qed

end
