(* ===== verification/CronRunner.thy ===== *)
theory CronRunner
  imports CronExact CronFields "HOL-Library.Multiset"
begin

text \<open>
  The cron runner: \<open>memos/lib/cron/cron.go\<close>, and the job wrappers of \<open>chain.go\<close>.

  The operations reach the goroutine of \<open>runScheduler\<close> through unbuffered channels, so that each is
  one atomic event of the runner; a run of the program is a sequence of events. Between events the
  runner sleeps with its entries sorted and its timer set, and computing takes no time. Instants are
  nanoseconds, \<open>None\<close> is the zero time. \<open>slices.SortFunc\<close> leaves the order of equal elements
  open: the sorting function is a parameter, known to return a sorted permutation.
\<close>

section \<open>Entries\<close>

text \<open>\<open>Next\<close> of a schedule: the activation after an instant, or the zero time.\<close>

type_synonym schedule_fn = "int \<Rightarrow> int option"

record 'j entry =
  en_ID :: int
  en_Schedule :: schedule_fn
  en_Next :: "int option"
  en_Prev :: "int option"
  en_Job :: 'j

record 'j cron =
  cn_entries :: "'j entry list"
  cn_running :: bool
  cn_nextID :: int
  cn_now :: int
  cn_timer :: int
  cn_started :: "(int \<times> int) list"

definition New :: "'j cron" where
  "New = \<lparr>cn_entries = [], cn_running = False, cn_nextID = 0, cn_now = 0, cn_timer = 0, cn_started = []\<rparr>"

text \<open>The comparison of \<open>slices.SortFunc\<close>, zero times last.\<close>

definition compare_next :: "'j entry \<Rightarrow> 'j entry \<Rightarrow> int" where
  "compare_next a b =
     (case (en_Next a, en_Next b) of
        (None, None) \<Rightarrow> 0
      | (None, Some _) \<Rightarrow> 1
      | (Some _, None) \<Rightarrow> - 1
      | (Some s, Some t) \<Rightarrow> if s < t then - 1 else if t < s then 1 else 0)"

definition sleep :: int where
  "sleep = 100000 * 3600 * 1000000000"

text \<open>The top of the loop: sort, and set the timer for the first entry.\<close>

definition arm :: "('j entry list \<Rightarrow> 'j entry list) \<Rightarrow> 'j cron \<Rightarrow> 'j cron" where
  "arm srt c =
     (let es = srt (cn_entries c) in
      c\<lparr>cn_entries := es,
        cn_timer := (case es of [] \<Rightarrow> cn_now c + sleep
          | e # _ \<Rightarrow> (case en_Next e of None \<Rightarrow> cn_now c + sleep | Some d \<Rightarrow> d))\<rparr>)"

section \<open>Operations\<close>

text \<open>The loop over the entries when the timer fires, up to the first that is not due.\<close>

fun run_due :: "int \<Rightarrow> 'j entry list \<Rightarrow> int list \<times> 'j entry list" where
  "run_due now [] = ([], [])"
| "run_due now (e # es) =
     (case en_Next e of
        None \<Rightarrow> ([], e # es)
      | Some d \<Rightarrow>
          if now < d then ([], e # es)
          else let (ids, es') = run_due now es
               in (en_ID e # ids, e\<lparr>en_Prev := en_Next e, en_Next := en_Schedule e now\<rparr> # es'))"

definition wake :: "('j entry list \<Rightarrow> 'j entry list) \<Rightarrow> int \<Rightarrow> 'j cron \<Rightarrow> 'j cron" where
  "wake srt now c =
     (let (ids, es) = run_due now (cn_entries c) in
      arm srt (c\<lparr>cn_now := now, cn_entries := es, cn_started := cn_started c @ map (\<lambda>i. (i, now)) ids\<rparr>))"

definition Schedule_job :: "('j entry list \<Rightarrow> 'j entry list) \<Rightarrow> int \<Rightarrow> schedule_fn \<Rightarrow> 'j \<Rightarrow> 'j cron \<Rightarrow> int \<times> 'j cron" where
  "Schedule_job srt now s job c =
     (let i = cn_nextID c + 1;
          e = \<lparr>en_ID = i, en_Schedule = s, en_Next = None, en_Prev = None, en_Job = job\<rparr>;
          c = c\<lparr>cn_nextID := i\<rparr>
      in (i, if \<not> cn_running c then c\<lparr>cn_entries := cn_entries c @ [e]\<rparr>
             else arm srt (c\<lparr>cn_now := now, cn_entries := cn_entries c @ [e\<lparr>en_Next := s now\<rparr>]\<rparr>)))"

text \<open>
  The schedules of a parsed text as functions of the instant, in the zone the runner works in; a search
  of \<open>Next\<close> that does not return has no activation either.
\<close>

definition schedule_next :: "zone \<Rightarrow> schedule_spec \<Rightarrow> schedule_fn" where
  "schedule_next z sp ns =
     (case sp of
        SpecSched s \<Rightarrow> (case SpecSchedule_Next s z ns of Some (Some t) \<Rightarrow> Some (t * 1000000000) | _ \<Rightarrow> None)
      | ConstantDelay d \<Rightarrow> Some (ConstantDelay_Next d ns))"

definition AddJob ::
  "(string \<Rightarrow> schedule_spec outcome) \<Rightarrow> zone \<Rightarrow> ('j entry list \<Rightarrow> 'j entry list) \<Rightarrow> int \<Rightarrow> string \<Rightarrow> 'j \<Rightarrow> 'j cron \<Rightarrow> (int \<times> 'j cron) outcome" where
  "AddJob parser z srt now spec job c =
     andThen (parser spec) (\<lambda>s. Gives (Schedule_job srt now (schedule_next z s) job c))"

definition removeEntry :: "int \<Rightarrow> 'j entry list \<Rightarrow> 'j entry list" where
  "removeEntry i es = filter (\<lambda>e. en_ID e \<noteq> i) es"

definition Remove :: "('j entry list \<Rightarrow> 'j entry list) \<Rightarrow> int \<Rightarrow> int \<Rightarrow> 'j cron \<Rightarrow> 'j cron" where
  "Remove srt now i c =
     (let c' = c\<lparr>cn_entries := removeEntry i (cn_entries c)\<rparr>
      in if cn_running c then arm srt (c'\<lparr>cn_now := now\<rparr>) else c')"

text \<open>\<open>Start\<close> and \<open>Run\<close> differ in who runs the loop.\<close>

definition Start :: "('j entry list \<Rightarrow> 'j entry list) \<Rightarrow> int \<Rightarrow> 'j cron \<Rightarrow> 'j cron" where
  "Start srt now c =
     (if cn_running c then c
      else arm srt (c\<lparr>cn_running := True, cn_now := now,
        cn_entries := map (\<lambda>e. e\<lparr>en_Next := en_Schedule e now\<rparr>) (cn_entries c)\<rparr>))"

definition Stop :: "'j cron \<Rightarrow> 'j cron" where
  "Stop c = (if cn_running c then c\<lparr>cn_running := False\<rparr> else c)"

definition Entry :: "int \<Rightarrow> 'j cron \<Rightarrow> 'j entry option" where
  "Entry i c = List.find (\<lambda>e. i = en_ID e) (cn_entries c)"

section \<open>Job wrappers\<close>

text \<open>\<open>Chain.Then\<close> walks over the wrappers by index, from the last to the first.\<close>

definition Then :: "('job \<Rightarrow> 'job) list \<Rightarrow> 'job \<Rightarrow> 'job" where
  "Then wrappers j = fold (\<lambda>i j. (wrappers ! (length wrappers - i - 1)) j) [0..<length wrappers] j"

text \<open>
  \<open>SkipIfStillRunning\<close>: a channel holding one token. A run takes it or is skipped; the deferred
  send gives it back, also when the job panics. The state counts the runs inside the job.
\<close>

record skip_state =
  sk_token :: bool
  sk_running :: nat
  sk_skipped :: nat

definition skip_init :: skip_state where
  "skip_init = \<lparr>sk_token = True, sk_running = 0, sk_skipped = 0\<rparr>"

definition skip_enter :: "skip_state \<Rightarrow> skip_state" where
  "skip_enter s = (if sk_token s then s\<lparr>sk_token := False, sk_running := sk_running s + 1\<rparr>
     else s\<lparr>sk_skipped := sk_skipped s + 1\<rparr>)"

definition skip_leave :: "skip_state \<Rightarrow> skip_state" where
  "skip_leave s = s\<lparr>sk_token := True, sk_running := sk_running s - 1\<rparr>"

section \<open>Runs of the program\<close>

datatype 'j cron_event = EStart int | EAdd int schedule_fn 'j | ERemove int int | EStop | EWake int

fun enabled :: "'j cron_event \<Rightarrow> 'j cron \<Rightarrow> bool" where
  "enabled (EStart now) c = (cn_now c \<le> now)"
| "enabled (EAdd now s j) c = (cn_now c \<le> now)"
| "enabled (ERemove now i) c = (cn_now c \<le> now)"
| "enabled EStop c = True"
| "enabled (EWake now) c = (cn_running c \<and> cn_now c \<le> now \<and> cn_timer c \<le> now)"

fun on_event :: "('j entry list \<Rightarrow> 'j entry list) \<Rightarrow> 'j cron_event \<Rightarrow> 'j cron \<Rightarrow> 'j cron" where
  "on_event srt (EStart now) c = Start srt now c"
| "on_event srt (EAdd now s j) c = snd (Schedule_job srt now s j c)"
| "on_event srt (ERemove now i) c = Remove srt now i c"
| "on_event srt EStop c = Stop c"
| "on_event srt (EWake now) c = wake srt now c"

inductive cron_run :: "('j entry list \<Rightarrow> 'j entry list) \<Rightarrow> 'j cron \<Rightarrow> 'j cron_event list \<Rightarrow> 'j cron \<Rightarrow> bool" for srt where
  nil: "cron_run srt c [] c"
| snoc: "cron_run srt c evs c' \<Longrightarrow> enabled ev c' \<Longrightarrow> cron_run srt c (evs @ [ev]) (on_event srt ev c')"

end
