(* ===== verification/CronJobs.thy ===== *)
theory CronJobs
  imports CronRunner
begin

text \<open>
  What the cron runner guarantees over every run: the entries a wake-up starts are exactly those that
  are due, nothing that is due is missed, and a removed entry never runs again. The sorting function
  and the schedules are interfaces, the locales \<open>sorting\<close> and \<open>activation\<close>.
\<close>

section \<open>Interfaces\<close>

definition lawful :: "schedule_fn \<Rightarrow> bool" where
  "lawful s \<longleftrightarrow> (\<forall>t d. s t = Some d \<longrightarrow> t < d)"

text \<open>The contract of \<open>Schedule.Next\<close>: an activation is later than the time given.\<close>

locale activation =
  fixes next_time :: schedule_fn
  assumes later: "next_time t = Some d \<Longrightarrow> t < d"
begin

lemma lawful: "lawful next_time"
  using later by (simp add: lawful_def)

end

lemma Every_ge: "go_second \<le> Every d"
proof -
  have "0 < go_second" by (simp add: go_second_def)
  then have "go_second \<le> x - x mod go_second" if "go_second \<le> x" for x
  proof -
    have "1 \<le> x div go_second" using that \<open>0 < go_second\<close> by (simp add: pos_imp_zdiv_pos_iff int_one_le_iff_zero_less)
    then have "go_second * 1 \<le> go_second * (x div go_second)" using \<open>0 < go_second\<close> by (intro mult_left_mono) simp_all
    then show ?thesis by (simp add: minus_mod_eq_mult_div)
  qed
  then show ?thesis by (simp add: Every_def)
qed

interpretation every: activation "schedule_next z (ConstantDelay (Every d))" for z d
proof
  fix t next_t
  assume "schedule_next z (ConstantDelay (Every d)) t = Some next_t"
  moreover have "t mod go_second < go_second" by (simp add: go_second_def)
  ultimately show "t < next_t" using Every_ge [of d] by (simp add: schedule_next_def ConstantDelay_Next_def)
qed

interpretation spec: activation "schedule_next z (SpecSched (s\<lparr>sp_Location := InZone (fixed_zone m)\<rparr>))" for z s m
proof
  fix t d
  assume n: "schedule_next z (SpecSched (s\<lparr>sp_Location := InZone (fixed_zone m)\<rparr>)) t = Some d"
  have "effective_zone (s\<lparr>sp_Location := InZone (fixed_zone m)\<rparr>) z = fixed_zone m" by (simp add: effective_zone_def)
  from SpecSchedule_Next_returns [OF this, of t] show "t < d"
    using n by (auto simp: schedule_next_def found_def upcoming_second_le split: option.splits)
qed

text \<open>The contract of \<open>slices.SortFunc\<close>.\<close>

definition before :: "'j entry \<Rightarrow> 'j entry \<Rightarrow> bool" where
  "before a b \<longleftrightarrow> compare_next a b \<le> 0"

lemma before_alt: "before a b \<longleftrightarrow> (case (en_Next a, en_Next b) of
    (None, None) \<Rightarrow> True | (None, Some _) \<Rightarrow> False | (Some _, None) \<Rightarrow> True | (Some s, Some t) \<Rightarrow> s \<le> t)"
  by (auto simp: before_def compare_next_def split: option.split)

definition due :: "int \<Rightarrow> 'j entry \<Rightarrow> bool" where
  "due now e \<longleftrightarrow> (case en_Next e of None \<Rightarrow> False | Some d \<Rightarrow> d \<le> now)"

definition fire :: "int \<Rightarrow> 'j entry \<Rightarrow> 'j entry" where
  "fire now e = (if due now e then e\<lparr>en_Prev := en_Next e, en_Next := en_Schedule e now\<rparr> else e)"

lemma fire_simps [simp]: "en_ID (fire now e) = en_ID e" "en_Schedule (fire now e) = en_Schedule e" "en_Job (fire now e) = en_Job e"
  by (simp_all add: fire_def)

lemma run_due_sorted:
  "sorted_wrt before es \<Longrightarrow> run_due now es = (map en_ID (filter (due now) es), map (fire now) es)"
proof (induction es)
  case (Cons e es)
  show ?case
  proof (cases "due now e")
    case True
    then show ?thesis using Cons by (auto simp: due_def fire_def split: option.splits)
  next
    case False
    then have "\<not> due now x" if "x \<in> set es" for x
      using Cons.prems that by (fastforce simp: before_alt due_def split: option.splits)
    then have "filter (due now) es = []" "map (fire now) es = es"
      by (auto simp: filter_empty_conv fire_def intro: map_idI)
    moreover have "run_due now (e # es) = ([], e # es)" using False by (auto simp: due_def split: option.split)
    ultimately show ?thesis using False by (simp add: fire_def [of now e])
  qed
qed simp

lemma fire_later:
  assumes "lawful (en_Schedule e)" "en_Next (fire now e) = Some d"
  shows "now < d"
  using assms by (auto simp: fire_def lawful_def due_def split: if_splits option.splits)

section \<open>The invariant\<close>

definition cron_ok :: "'j cron \<Rightarrow> bool" where
  "cron_ok c \<longleftrightarrow> distinct (map en_ID (cn_entries c)) \<and> 0 \<le> cn_nextID c
     \<and> (\<forall>e \<in> set (cn_entries c). 0 < en_ID e \<and> en_ID e \<le> cn_nextID c \<and> lawful (en_Schedule e))
     \<and> (cn_running c \<longrightarrow> sorted_wrt before (cn_entries c)
        \<and> (\<forall>e \<in> set (cn_entries c). \<forall>d. en_Next e = Some d \<longrightarrow> cn_timer c \<le> d))"

fun event_lawful :: "'j cron_event \<Rightarrow> bool" where
  "event_lawful (EAdd now s j) = lawful s"
| "event_lawful _ = True"

lemma cron_ok_New: "cron_ok New"
  by (simp add: cron_ok_def New_def)

text \<open>An entry that waits for \<open>d\<close> and has not been started.\<close>

definition waiting :: "'j cron \<Rightarrow> int \<Rightarrow> int \<Rightarrow> bool" where
  "waiting c i d \<longleftrightarrow> cn_running c \<and> (\<exists>e \<in> set (cn_entries c). en_ID e = i \<and> en_Next e = Some d)"

locale sorting =
  fixes srt :: "'j entry list \<Rightarrow> 'j entry list"
  assumes srt_mset: "mset (srt es) = mset es" and srt_sorted: "sorted_wrt before (srt es)"
begin

lemma srt_set [simp]: "set (srt es) = set es"
  using mset_eq_setD [OF srt_mset] .

lemma arm_fields [simp]:
  "cn_running (arm srt c) = cn_running c" "cn_nextID (arm srt c) = cn_nextID c" "cn_now (arm srt c) = cn_now c"
  "cn_started (arm srt c) = cn_started c" "cn_entries (arm srt c) = srt (cn_entries c)"
  by (simp_all add: arm_def Let_def)

lemma arm_timer:
  assumes "e \<in> set (cn_entries c)" "en_Next e = Some d"
  shows "cn_timer (arm srt c) \<le> d"
proof -
  obtain x xs where x: "srt (cn_entries c) = x # xs"
    using assms(1) srt_set [of "cn_entries c"] by (cases "srt (cn_entries c)") auto
  then have "e = x \<or> before x e"
    using assms(1) srt_set [of "cn_entries c"] srt_sorted [of "cn_entries c"] by auto
  then show ?thesis using x assms(2) by (auto simp: arm_def Let_def before_alt split: option.splits)
qed

lemma arm_ok:
  assumes "distinct (map en_ID (cn_entries c))" "0 \<le> cn_nextID c"
    and "\<And>e. e \<in> set (cn_entries c) \<Longrightarrow> 0 < en_ID e \<and> en_ID e \<le> cn_nextID c \<and> lawful (en_Schedule e)"
  shows "cron_ok (arm srt c)"
proof -
  have "mset (map en_ID (srt (cn_entries c))) = mset (map en_ID (cn_entries c))" by (simp add: srt_mset)
  then have "distinct (map en_ID (srt (cn_entries c)))" using assms(1) by (metis mset_eq_imp_distinct_iff)
  then show ?thesis
    using assms(2,3) arm_timer [of _ c] by (simp add: cron_ok_def srt_sorted)
qed

text \<open>A state the runner sleeps in, told by its entries alone.\<close>

lemma wake_alt:
  "cron_ok c \<Longrightarrow> cn_running c \<Longrightarrow> wake srt now c = arm srt (c\<lparr>cn_now := now, cn_entries := map (fire now) (cn_entries c),
     cn_started := cn_started c @ map (\<lambda>e. (en_ID e, now)) (filter (due now) (cn_entries c))\<rparr>)"
  by (simp add: wake_def cron_ok_def run_due_sorted o_def)

lemma on_event_ok:
  assumes ok: "cron_ok c" and en: "enabled ev c" "event_lawful ev"
  shows "cron_ok (on_event srt ev c)"
proof (cases ev)
  case (EStart now)
  show ?thesis
  proof (cases "cn_running c")
    case True
    then show ?thesis using ok EStart by (simp add: Start_def)
  next
    case False
    let ?c = "c\<lparr>cn_running := True, cn_now := now,
      cn_entries := map (\<lambda>e. e\<lparr>en_Next := en_Schedule e now\<rparr>) (cn_entries c)\<rparr>"
    have "cron_ok (arm srt ?c)"
    proof (rule arm_ok)
      have "map en_ID (cn_entries ?c) = map en_ID (cn_entries c)" by simp
      then show "distinct (map en_ID (cn_entries ?c))" using ok by (simp only: cron_ok_def)
    qed (use ok in \<open>auto simp: cron_ok_def lawful_def\<close>)
    with False EStart show ?thesis by (simp add: Start_def)
  qed
next
  case (EAdd now s j)
  have new: "\<forall>e \<in> set (cn_entries c). en_ID e \<noteq> cn_nextID c + 1" using ok by (fastforce simp: cron_ok_def)
  show ?thesis
  proof (cases "cn_running c")
    case False
    then show ?thesis using ok en new EAdd by (fastforce simp: Schedule_job_def Let_def cron_ok_def)
  next
    case True
    have l: "cn_now c \<le> now" "lawful s" using en EAdd by simp_all
    let ?e = "\<lparr>en_ID = cn_nextID c + 1, en_Schedule = s, en_Next = s now, en_Prev = None, en_Job = j\<rparr>"
    let ?c = "c\<lparr>cn_nextID := cn_nextID c + 1, cn_now := now, cn_entries := cn_entries c @ [?e]\<rparr>"
    have "cron_ok (arm srt ?c)"
    proof (rule arm_ok)
      show "distinct (map en_ID (cn_entries ?c))" using ok new by (auto simp: cron_ok_def)
    qed (use ok new l in \<open>fastforce simp: cron_ok_def\<close>)+
    with True EAdd show ?thesis by (simp add: Schedule_job_def Let_def)
  qed
next
  case (ERemove now i)
  have d: "distinct (map en_ID (removeEntry i (cn_entries c)))"
    using ok by (simp add: cron_ok_def removeEntry_def distinct_map_filter)
  show ?thesis
  proof (cases "cn_running c")
    case False
    then show ?thesis using ok d ERemove by (auto simp: Remove_def Let_def cron_ok_def removeEntry_def)
  next
    case True
    let ?c = "c\<lparr>cn_entries := removeEntry i (cn_entries c), cn_now := now\<rparr>"
    have "cron_ok (arm srt ?c)"
    proof (rule arm_ok)
      show "distinct (map en_ID (cn_entries ?c))" using d by simp
    qed (use ok in \<open>auto simp: cron_ok_def removeEntry_def\<close>)
    with True ERemove show ?thesis by (simp add: Remove_def Let_def)
  qed
next
  case EStop
  then show ?thesis using ok by (simp add: Stop_def cron_ok_def)
next
  case (EWake now)
  then have run: "cn_running c" using en by simp
  have d: "distinct (map en_ID (map (fire now) (cn_entries c)))"
    using ok by (simp add: cron_ok_def comp_def)
  show ?thesis
    unfolding EWake on_event.simps wake_alt [OF ok run]
    by (rule arm_ok) (use ok d in \<open>auto simp: cron_ok_def\<close>)
qed

lemma cron_run_ok: "cron_run srt c evs c' \<Longrightarrow> cron_ok c \<Longrightarrow> \<forall>ev \<in> set evs. event_lawful ev \<Longrightarrow> cron_ok c'"
  by (induction rule: cron_run.induct) (auto intro: on_event_ok)

section \<open>What a wake-up does\<close>

lemma wake_exact:
  assumes "cron_ok c" "cn_running c"
  shows "cn_started (wake srt now c) = cn_started c @ map (\<lambda>e. (en_ID e, now)) (filter (due now) (cn_entries c))"
    "mset (cn_entries (wake srt now c)) = image_mset (fire now) (mset (cn_entries c))"
    "e \<in> set (cn_entries (wake srt now c)) \<Longrightarrow> \<not> due now e"
proof -
  let ?c = "c\<lparr>cn_now := now, cn_entries := map (fire now) (cn_entries c),
     cn_started := cn_started c @ map (\<lambda>e. (en_ID e, now)) (filter (due now) (cn_entries c))\<rparr>"
  have w: "wake srt now c = arm srt ?c" by (rule wake_alt [OF assms])
  show "cn_started (wake srt now c) = cn_started c @ map (\<lambda>e. (en_ID e, now)) (filter (due now) (cn_entries c))"
    unfolding w by simp
  show "mset (cn_entries (wake srt now c)) = image_mset (fire now) (mset (cn_entries c))"
    unfolding w arm_fields srt_mset by simp
  assume "e \<in> set (cn_entries (wake srt now c))"
  then obtain x where x: "x \<in> set (cn_entries c)" "e = fire now x" unfolding w by auto
  then have l: "lawful (en_Schedule x)" using assms(1) by (simp add: cron_ok_def)
  have "now < d" if "en_Next e = Some d" for d using fire_later [OF l] that x(2) by blast
  then show "\<not> due now e" by (fastforce simp: due_def split: option.splits)
qed

section \<open>Removed entries\<close>

text \<open>Every event but a wake-up leaves the record of started jobs, and only adding brings identifiers in.\<close>

lemma started_by_event:
  assumes "cron_ok c" "enabled ev c" "x \<in> set (drop (length (cn_started c)) (cn_started (on_event srt ev c)))"
  shows "fst x \<in> en_ID ` set (cn_entries c)"
  using assms by (cases ev) (auto simp: Start_def Schedule_job_def Let_def Remove_def Stop_def wake_exact(1))

lemma started_grows: "cron_ok c \<Longrightarrow> enabled ev c \<Longrightarrow> \<exists>xs. cn_started (on_event srt ev c) = cn_started c @ xs"
  by (cases ev) (auto simp: Start_def Schedule_job_def Let_def Remove_def Stop_def wake_exact(1))

lemma ids_by_event:
  assumes "cron_ok c" "enabled ev c"
  shows "en_ID ` set (cn_entries (on_event srt ev c)) \<subseteq> en_ID ` set (cn_entries c) \<union> {i. cn_nextID c < i}"
    "cn_nextID c \<le> cn_nextID (on_event srt ev c)"
proof -
  have "en_ID ` set (cn_entries (on_event srt ev c)) \<subseteq> en_ID ` set (cn_entries c) \<union> {i. cn_nextID c < i}
      \<and> cn_nextID c \<le> cn_nextID (on_event srt ev c)"
  proof (cases ev)
    case (EWake now)
    then have run: "cn_running c" using assms(2) by simp
    show ?thesis unfolding EWake on_event.simps wake_alt [OF assms(1) run] by auto
  qed (auto simp: Start_def Schedule_job_def Let_def Remove_def removeEntry_def Stop_def)
  then show "en_ID ` set (cn_entries (on_event srt ev c)) \<subseteq> en_ID ` set (cn_entries c) \<union> {i. cn_nextID c < i}"
    "cn_nextID c \<le> cn_nextID (on_event srt ev c)" by blast+
qed

lemma removed_stays_away:
  assumes "cron_run srt c evs c'" "cron_ok c" "\<forall>ev \<in> set evs. event_lawful ev"
    and "i \<notin> en_ID ` set (cn_entries c)" "i \<le> cn_nextID c"
  shows "i \<notin> en_ID ` set (cn_entries c') \<and> i \<le> cn_nextID c'
    \<and> (\<exists>xs. cn_started c' = cn_started c @ xs \<and> i \<notin> fst ` set xs)"
  using assms
proof (induction rule: cron_run.induct)
  case (snoc c evs c' ev)
  then have ok: "cron_ok c'" and IH: "i \<notin> en_ID ` set (cn_entries c')" "i \<le> cn_nextID c'"
    "\<exists>xs. cn_started c' = cn_started c @ xs \<and> i \<notin> fst ` set xs"
    using cron_run_ok by auto
  obtain xs ys where xs: "cn_started c' = cn_started c @ xs" "i \<notin> fst ` set xs"
      and ys: "cn_started (on_event srt ev c') = cn_started c' @ ys"
    using IH(3) started_grows [OF ok snoc.hyps(2)] by blast
  have "i \<notin> fst ` set ys"
    using started_by_event [OF ok snoc.hyps(2)] IH(1) ys by auto
  then show ?case
    using ids_by_event [OF ok snoc.hyps(2)] IH(1,2) xs ys by auto
qed auto

section \<open>Nothing that is due is missed\<close>

lemma waiting_timer:
  assumes "cron_ok c" "waiting c i d" "d \<le> now" "cn_now c \<le> now"
  shows "enabled (EWake now) c" "(i, now) \<in> set (drop (length (cn_started c)) (cn_started (wake srt now c)))"
proof -
  obtain e where e: "e \<in> set (cn_entries c)" "en_ID e = i" "en_Next e = Some d" and run: "cn_running c"
    using assms(2) by (auto simp: waiting_def)
  then have "cn_timer c \<le> d" using assms(1) by (simp add: cron_ok_def)
  with run assms(3,4) show "enabled (EWake now) c" by simp
  have "due now e" using e(3) assms(3) by (simp add: due_def)
  with e show "(i, now) \<in> set (drop (length (cn_started c)) (cn_started (wake srt now c)))"
    by (auto simp: wake_exact(1) [OF assms(1) run])
qed

lemma waiting_event:
  assumes "cron_ok c" "waiting c i d" "enabled ev c" "ev \<noteq> EStop" "\<And>now. ev \<noteq> ERemove now i"
    and "\<And>now. ev = EWake now \<Longrightarrow> now < d"
  shows "waiting (on_event srt ev c) i d"
proof (cases ev)
  case (EWake now)
  then have "now < d" and run: "cn_running c" using assms by (auto simp: waiting_def)
  obtain e where e: "e \<in> set (cn_entries c)" "en_ID e = i" "en_Next e = Some d"
    using assms(2) by (auto simp: waiting_def)
  then have "fire now e = e" using \<open>now < d\<close> by (simp add: fire_def due_def)
  then have "e \<in> fire now ` set (cn_entries c)" using e(1) by (metis image_eqI)
  then show ?thesis
    unfolding EWake on_event.simps wake_alt [OF assms(1) run] waiting_def using e run by auto
qed (use assms in \<open>auto simp: waiting_def Start_def Schedule_job_def Let_def Remove_def removeEntry_def\<close>)

lemma not_missed:
  assumes "cron_run srt c evs c'" "cron_ok c" "\<forall>ev \<in> set evs. event_lawful ev"
    and "waiting c i d" "EStop \<notin> set evs" "\<And>now. ERemove now i \<notin> set evs"
  shows "(\<forall>now. EWake now \<in> set evs \<longrightarrow> now < d) \<and> waiting c' i d
    \<or> (\<exists>now \<ge> d. (i, now) \<in> set (drop (length (cn_started c)) (cn_started c')))"
  using assms
proof (induction rule: cron_run.induct)
  case (snoc c evs c' ev)
  then have ok: "cron_ok c'" using cron_run_ok by auto
  obtain xs where xs: "cn_started (on_event srt ev c') = cn_started c' @ xs"
    using started_grows [OF ok snoc.hyps(2)] by blast
  have len: "length (cn_started c) \<le> length (cn_started c')"
    using snoc.hyps(1) snoc.prems(1,2) by (induction rule: cron_run.induct) (auto dest!: started_grows [OF cron_run_ok])
  show ?case
  proof (cases "\<exists>now \<ge> d. (i, now) \<in> set (drop (length (cn_started c)) (cn_started c'))")
    case True
    then show ?thesis using xs len by auto
  next
    case False
    then have w: "\<forall>now. EWake now \<in> set evs \<longrightarrow> now < d" "waiting c' i d" using snoc by auto
    show ?thesis
    proof (cases "\<exists>now. ev = EWake now \<and> d \<le> now")
      case True
      then obtain now where now: "ev = EWake now" "d \<le> now" by blast
      then have "(i, now) \<in> set xs"
        using waiting_timer(2) [OF ok w(2) now(2)] snoc.hyps(2) xs by auto
      then show ?thesis using now(2) xs len by auto
    next
      case False
      then have "waiting (on_event srt ev c') i d"
        using snoc.prems(4,5) by (intro waiting_event [OF ok w(2) snoc.hyps(2)]) (auto simp: not_le)
      then show ?thesis using w(1) False by (auto simp: not_le)
    qed
  qed
qed auto

end

section \<open>A sorting function\<close>

text \<open>A stable sort of the entries, as an instance of what is asked of \<open>slices.SortFunc\<close>.\<close>

definition sorts :: "('j entry list \<Rightarrow> 'j entry list) \<Rightarrow> bool" where
  "sorts srt \<longleftrightarrow> (\<forall>es. mset (srt es) = mset es \<and> sorted_wrt before (srt es))"

definition stable_sort :: "'j entry list \<Rightarrow> 'j entry list" where
  "stable_sort es = sort_key (\<lambda>e. the (en_Next e)) (filter (\<lambda>e. en_Next e \<noteq> None) es) @ filter (\<lambda>e. en_Next e = None) es"

lemma stable_sort_sorted: "sorted_wrt before (stable_sort es)"
proof -
  let ?k = "\<lambda>e :: 'a entry. the (en_Next e)"
  let ?xs = "sort_key ?k (filter (\<lambda>e. en_Next e \<noteq> None) es)"
  have "sorted_wrt (\<lambda>a b. ?k a \<le> ?k b) ?xs"
    using sorted_sort_key [of ?k] by (simp only: sorted_map)
  then have "sorted_wrt before ?xs"
    by (rule sorted_wrt_mono_rel [rotated]) (auto simp: before_alt)
  moreover have "sorted_wrt before (filter (\<lambda>e. en_Next e = None) es)"
    by (rule sorted_wrt_mono_rel [where P = "\<lambda>_ _. True"]) (auto simp: before_alt)
  ultimately show ?thesis by (auto simp: stable_sort_def sorted_wrt_append before_alt)
qed

interpretation stable: sorting stable_sort
proof
  fix es :: "'j entry list"
  show "mset (stable_sort es) = mset es"
    using multiset_partition [of "mset es" "\<lambda>e. en_Next e \<noteq> None"] by (simp add: stable_sort_def)
qed (rule stable_sort_sorted)

lemma stable_sorts: "sorts stable_sort"
  by (simp add: sorts_def stable.srt_mset stable_sort_sorted)

lemma sorts_sorting: "sorts srt \<Longrightarrow> sorting srt"
  by unfold_locales (simp_all add: sorts_def)

lemma cron_run_Cons: "enabled ev c \<Longrightarrow> cron_run srt (on_event srt ev c) evs c' \<Longrightarrow> cron_run srt c (ev # evs) c'"
proof -
  have "cron_run srt d evs c' \<Longrightarrow> d = on_event srt ev c \<Longrightarrow> enabled ev c \<Longrightarrow> cron_run srt c (ev # evs) c'" for d
  proof (induction rule: cron_run.induct)
    case (nil d)
    then show ?case using cron_run.snoc [OF cron_run.nil, of ev c srt] by simp
  next
    case (snoc d evs c' ev')
    then have "cron_run srt c (ev # evs) c'" by simp
    from cron_run.snoc [OF this snoc.hyps(2)] show ?case by simp
  qed
  then show "enabled ev c \<Longrightarrow> cron_run srt (on_event srt ev c) evs c' \<Longrightarrow> cron_run srt c (ev # evs) c'" by blast
qed

section \<open>The properties\<close>

text \<open>
  C26. In every state the program can reach, a wake-up of the runner starts exactly the entries that are
  due, each once and in the order of their times, though its loop stops at the first entry that is not;
  those, and no others, are given their next activation, and no entry is due afterwards.
\<close>

theorem wake_starts_exactly_the_due:
  assumes "sorts srt" "cron_run srt New evs c" "\<forall>ev \<in> set evs. event_lawful ev" "enabled (EWake now) c"
  shows "cn_started (wake srt now c) = cn_started c @ map (\<lambda>e. (en_ID e, now)) (filter (due now) (cn_entries c))
    \<and> mset (cn_entries (wake srt now c)) = image_mset (fire now) (mset (cn_entries c))
    \<and> distinct (map en_ID (cn_entries c)) \<and> sorted_wrt before (cn_entries c)
    \<and> (\<forall>e \<in> set (cn_entries (wake srt now c)). \<not> due now e)"
proof -
  note srt = sorts_sorting [OF assms(1)]
  have ok: "cron_ok c" using sorting.cron_run_ok [OF srt assms(2) cron_ok_New assms(3)] .
  have run: "cn_running c" using assms(4) by simp
  show ?thesis
    using sorting.wake_exact(1,2) [OF srt ok run, of now] sorting.wake_exact(3) [OF srt ok run] ok run
    by (simp add: cron_ok_def)
qed

lemma wake_starts_exactly_the_due_witness:
  "\<exists>c :: unit cron. cron_run stable_sort New [EAdd 0 (\<lambda>t. Some (t + 5)) (), EAdd 1 (\<lambda>t. None) (), EStart 2] c
     \<and> map (\<lambda>e. en_Next e) (cn_entries c) = [Some 7, None]
     \<and> cn_started (wake stable_sort 8 c) = [(1, 8)]"
proof -
  let ?evs = "[EAdd 0 (\<lambda>t. Some (t + 5)) (), EAdd 1 (\<lambda>t. None) (), EStart 2]"
  have "cron_run stable_sort New ?evs (Start stable_sort 2 (snd (Schedule_job stable_sort 1 (\<lambda>t. None) ()
      (snd (Schedule_job stable_sort 0 (\<lambda>t. Some (t + 5)) () New)))))" (is "cron_run _ _ _ ?c")
    by (rule cron_run_Cons | simp add: New_def Schedule_job_def cron_run.nil)+
  moreover have e: "cn_entries ?c = [\<lparr>en_ID = 1, en_Schedule = \<lambda>t. Some (t + 5), en_Next = Some 7, en_Prev = None, en_Job = ()\<rparr>,
      \<lparr>en_ID = 2, en_Schedule = \<lambda>t. None, en_Next = None, en_Prev = None, en_Job = ()\<rparr>]"
      "cn_started ?c = []" "cn_timer ?c = 7" "cn_running ?c" "cn_now ?c = 2"
    by (simp_all add: New_def Schedule_job_def Start_def arm_def stable_sort_def)
  moreover have "cn_started (wake stable_sort 8 ?c) = [(1, 8)]"
    using wake_starts_exactly_the_due [OF stable_sorts calculation(1), of 8] e by (simp add: due_def lawful_def)
  ultimately show ?thesis by (intro exI [of _ ?c]) simp
qed

text \<open>
  C28. An entry that has been removed is not started again, by any later sequence of events: from the
  state after the removal on, the identifier is neither among the entries nor among the jobs started.
\<close>

theorem removed_never_starts:
  assumes "sorts srt" "cron_run srt New evs c" "\<forall>ev \<in> set (evs @ evs'). event_lawful ev"
    and "enabled (ERemove now i) c" "i \<in> en_ID ` set (cn_entries c)"
    and "cron_run srt (on_event srt (ERemove now i) c) evs' c'"
  shows "i \<notin> en_ID ` set (cn_entries c') \<and> (\<exists>xs. cn_started c' = cn_started c @ xs \<and> i \<notin> fst ` set xs)"
proof -
  note srt = sorts_sorting [OF assms(1)]
  have ok: "cron_ok c" using sorting.cron_run_ok [OF srt assms(2) cron_ok_New] assms(3) by simp
  have ok': "cron_ok (on_event srt (ERemove now i) c)"
    using sorting.on_event_ok [OF srt ok assms(4)] by simp
  have "i \<le> cn_nextID c" using assms(5) ok by (auto simp: cron_ok_def)
  moreover have "cn_started (on_event srt (ERemove now i) c) = cn_started c"
      "cn_nextID (on_event srt (ERemove now i) c) = cn_nextID c"
      "i \<notin> en_ID ` set (cn_entries (on_event srt (ERemove now i) c))"
    using sorting.srt_set [OF srt]
    by (auto simp: Remove_def Let_def removeEntry_def sorting.arm_fields [OF srt])
  ultimately show ?thesis
    using sorting.removed_stays_away [OF srt assms(6) ok'] assms(3) by simp
qed

lemma removed_never_starts_witness:
  "\<exists>c c' :: unit cron. cron_run stable_sort New [EAdd 0 (\<lambda>t. Some (t + 5)) (), EStart 2] c \<and> cn_timer c = 7
     \<and> cron_run stable_sort (on_event stable_sort (ERemove 3 1) c) [EAdd 4 (\<lambda>t. Some (t + 5)) (), EWake 10] c'
     \<and> 1 \<notin> fst ` set (cn_started c') \<and> cn_started c' = [(2, 10)]"
proof -
  let ?c = "Start stable_sort 2 (snd (Schedule_job stable_sort 0 (\<lambda>t. Some (t + 5)) () New))"
  let ?r = "on_event stable_sort (ERemove 3 1) ?c"
  let ?c' = "wake stable_sort 10 (snd (Schedule_job stable_sort 4 (\<lambda>t. Some (t + 5)) () ?r))"
  have run: "cron_run stable_sort New [EAdd 0 (\<lambda>t. Some (t + 5)) (), EStart 2] ?c"
    by (rule cron_run_Cons | simp add: New_def Schedule_job_def cron_run.nil)+
  have e: "cn_timer ?c = 7" "cn_now ?c = 2" "1 \<in> en_ID ` set (cn_entries ?c)"
    by (simp_all add: New_def Schedule_job_def Start_def arm_def stable_sort_def)
  have run': "cron_run stable_sort ?r [EAdd 4 (\<lambda>t. Some (t + 5)) (), EWake 10] ?c'"
    by (rule cron_run_Cons | simp add: New_def Schedule_job_def Start_def arm_def stable_sort_def Remove_def removeEntry_def cron_run.nil)+
  have s: "cn_started ?c' = [(2, 10)]"
    by (simp add: New_def Schedule_job_def Start_def arm_def stable_sort_def Remove_def removeEntry_def wake_def)
  have "1 \<notin> en_ID ` set (cn_entries ?c') \<and> (\<exists>xs. cn_started ?c' = cn_started ?c @ xs \<and> 1 \<notin> fst ` set xs)"
    using removed_never_starts [OF stable_sorts run _ _ e(3) run'] e(2) by (simp add: lawful_def)
  then show ?thesis using run e(1) run' s by (intro exI [of _ ?c] exI [of _ ?c']) auto
qed

text \<open>
  C27. Nothing that is due is missed. An entry waits for an activation; unless the runner is stopped or the
  entry removed, then after any further events either the entry has been started at or after that time, or it
  still waits for the same activation, no wake-up at or after that time having happened, and from that time on the wake-up is enabled
  and starts it.
\<close>

theorem due_entries_are_started:
  assumes "sorts srt" "cron_run srt New evs c" "cron_run srt c evs' c'" "\<forall>ev \<in> set (evs @ evs'). event_lawful ev"
    and "waiting c i d" "\<forall>ev \<in> set evs'. ev \<noteq> EStop \<and> (\<forall>t. ev \<noteq> ERemove t i)"
  shows "(\<exists>now \<ge> d. (i, now) \<in> set (drop (length (cn_started c)) (cn_started c')))
    \<or> waiting c' i d \<and> (\<forall>now. EWake now \<in> set evs' \<longrightarrow> now < d)
      \<and> (\<forall>now. d \<le> now \<and> cn_now c' \<le> now \<longrightarrow>
           enabled (EWake now) c' \<and> (i, now) \<in> set (drop (length (cn_started c')) (cn_started (on_event srt (EWake now) c'))))"
proof -
  note srt = sorts_sorting [OF assms(1)]
  have ok: "cron_ok c" using sorting.cron_run_ok [OF srt assms(2) cron_ok_New] assms(4) by simp
  then have ok': "cron_ok c'" using sorting.cron_run_ok [OF srt assms(3)] assms(4) by simp
  have "\<forall>ev \<in> set evs'. event_lawful ev" "EStop \<notin> set evs'" "\<And>now. ERemove now i \<notin> set evs'"
    using assms(4,6) by auto
  note m = sorting.not_missed [OF srt assms(3) ok this(1) assms(5) this(2,3)]
  then show ?thesis
    using sorting.waiting_timer [OF srt ok'] by (simp del: enabled.simps) blast
qed

lemma due_entries_are_started_witness:
  "\<exists>c c' :: unit cron. cron_run stable_sort New [EAdd 0 (\<lambda>t. Some (t + 5)) (), EStart 2] c
     \<and> cron_run stable_sort c [EAdd 4 (\<lambda>t. Some (t + 50)) ()] c' \<and> cn_started c' = [] \<and> enabled (EWake 9) c'
     \<and> (1, 9) \<in> set (cn_started (on_event stable_sort (EWake 9) c'))"
proof -
  let ?c = "Start stable_sort 2 (snd (Schedule_job stable_sort 0 (\<lambda>t. Some (t + 5)) () New))"
  let ?c' = "snd (Schedule_job stable_sort 4 (\<lambda>t. Some (t + 50)) () ?c)"
  have run: "cron_run stable_sort New [EAdd 0 (\<lambda>t. Some (t + 5)) (), EStart 2] ?c"
    by (rule cron_run_Cons | simp add: New_def Schedule_job_def cron_run.nil)+
  have run': "cron_run stable_sort ?c [EAdd 4 (\<lambda>t. Some (t + 50)) ()] ?c'"
    by (rule cron_run_Cons | simp add: New_def Schedule_job_def Start_def arm_def stable_sort_def cron_run.nil)+
  have e: "waiting ?c 1 7" "cn_started ?c' = []" "cn_now ?c' = 4"
    by (simp_all add: New_def Schedule_job_def Start_def arm_def stable_sort_def waiting_def)
  have "enabled (EWake 9) ?c' \<and> (1, 9) \<in> set (drop (length (cn_started ?c')) (cn_started (on_event stable_sort (EWake 9) ?c')))"
    using due_entries_are_started [OF stable_sorts run run' _ e(1)] e(2,3)
    by (simp add: lawful_def del: enabled.simps on_event.simps)
  then show ?thesis using run run' e(2) by (intro exI [of _ ?c] exI [of _ ?c']) (simp del: enabled.simps on_event.simps)
qed

section \<open>Job wrappers\<close>

lemma Then_foldr: "Then ws j = foldr (\<lambda>w. w) ws j"
proof -
  have "map (\<lambda>i. ws ! (length ws - i - 1)) [0..<length ws] = rev ws"
    by (rule nth_equalityI) (auto simp: rev_nth)
  moreover have "fold (\<lambda>i j. (ws ! (length ws - i - 1)) j) xs j
      = fold (\<lambda>w. w) (map (\<lambda>i. ws ! (length ws - i - 1)) xs) j" for xs
    by (induction xs arbitrary: j) simp_all
  ultimately show ?thesis by (simp add: Then_def foldr_conv_fold)
qed

text \<open>The calls of a wrapped job: \<open>True\<close> enters, \<open>False\<close> leaves, which takes a run inside.\<close>

fun skip_step :: "bool \<Rightarrow> skip_state \<Rightarrow> skip_state option" where
  "skip_step True s = Some (skip_enter s)"
| "skip_step False s = (if sk_running s = 0 then None else Some (skip_leave s))"

fun skip_steps :: "bool list \<Rightarrow> skip_state \<Rightarrow> skip_state option" where
  "skip_steps [] s = Some s"
| "skip_steps (e # es) s = Option.bind (skip_step e s) (skip_steps es)"

lemma skip_step_invariant:
  "skip_step e s = Some s' \<Longrightarrow> sk_running s = (if sk_token s then 0 else 1) \<Longrightarrow> sk_running s' = (if sk_token s' then 0 else 1)"
  by (cases e) (auto simp: skip_enter_def skip_leave_def split: if_splits)

lemma skip_invariant:
  "skip_steps es s = Some s' \<Longrightarrow> sk_running s = (if sk_token s then 0 else 1) \<Longrightarrow> sk_running s' = (if sk_token s' then 0 else 1)"
proof (induction es arbitrary: s)
  case (Cons e es)
  then obtain t where t: "skip_step e s = Some t" "skip_steps es t = Some s'" by (auto simp: bind_eq_Some_conv)
  show ?case using Cons.IH [OF t(2)] skip_step_invariant [OF t(1) Cons.prems(2)] by blast
qed simp

text \<open>
  A job wrapped by \<open>SkipIfStillRunning\<close> never runs twice at a time, and no run is skipped for
  nothing: whatever the order in which runs enter and leave, at most one is inside, and the next to enter is skipped just when
  one is.
\<close>

theorem skip_if_still_running:
  assumes "skip_steps es skip_init = Some s"
  shows "sk_running s \<le> 1 \<and> sk_skipped (skip_enter s) = sk_skipped s + sk_running s
    \<and> sk_running (skip_enter s) = 1"
proof -
  have "sk_running s = (if sk_token s then 0 else 1)" using skip_invariant [OF assms] by (simp add: skip_init_def)
  then show ?thesis by (simp add: skip_enter_def split: if_splits)
qed

lemma skip_if_still_running_witness:
  "sk_running \<lparr>sk_token = False, sk_running = 1, sk_skipped = 1\<rparr> \<le> 1"
proof -
  have "skip_steps [True, True, False, True] skip_init = Some \<lparr>sk_token = False, sk_running = 1, sk_skipped = 1\<rparr>"
    by (simp add: skip_init_def skip_enter_def skip_leave_def)
  from skip_if_still_running [OF this] show ?thesis by simp
qed

end
