(* ===== verification/TaskHandlers.thy ===== *)
theory TaskHandlers
  imports Attendance Accounts
begin

text \<open>
  The handlers of task items, \<open>internal/handlers/tracker.go\<close>: listing, saving, deleting, completing and
  assigning items, and late sign-offs. The notification of memos about a new item, a message sent from a
  goroutine of its own, changes no state of the server.
\<close>

section \<open>Answers\<close>

definition answer_json :: "nat \<Rightarrow> jval \<Rightarrow> response" where
  "answer_json status v = \<lparr>rs_status = status, rs_cookies = [], rs_body = Json v\<rparr>"

definition db_error :: response where
  "db_error = api_error 500 ''Database error''"

definition ok_answer :: response where
  "ok_answer = writeJSON 200 [(''ok'', JBool True)]"

text \<open>The end of a handler that writes: an error, or the new tables.\<close>

definition finish_db :: "app \<Rightarrow> classdb option \<Rightarrow> (app \<Rightarrow> app) \<Rightarrow> response \<times> app" where
  "finish_db a r after = (case r of None \<Rightarrow> (db_error, a) | Some db \<Rightarrow> (ok_answer, after (a\<lparr>ap_DB := db\<rparr>)))"

definition omit_empty :: "string \<Rightarrow> string \<Rightarrow> (string \<times> jval) list" where
  "omit_empty k s = (if s = [] then [] else [(k, JStr s)])"

definition task_item_json :: "task_item \<Rightarrow> jval" where
  "task_item_json t = JObj ([(''id'', JInt (tk_ID t)), (''scope'', JInt (tk_Scope t)), (''schedule_id'', JStr (tk_ScheduleID t)),
     (''student_id'', JStr (tk_StudentID t)), (''type'', JStr (tk_Type t)), (''name'', JStr (tk_Name t)),
     (''notes'', JStr (tk_Notes t)), (''start_date'', JStr (tk_StartDate t)), (''end_date'', JStr (tk_EndDate t)),
     (''priority'', JStr (tk_Priority t)), (''recurrence'', JStr (tk_Recurrence t)), (''category'', JStr (tk_Category t))]
     @ omit_empty ''criteria'' (tk_Criteria t) @ omit_empty ''group_id'' (tk_GroupID t)
     @ (if tk_GroupOrder t = 0 then [] else [(''group_order'', JInt (tk_GroupOrder t))])
     @ [(''created_by'', JStr (tk_CreatedBy t)), (''owner_type'', JStr (tk_OwnerType t)), (''completed'', JBool (tk_Completed t)),
     (''completed_at'', JStr (tk_CompletedAt t)), (''completed_by'', JStr (tk_CompletedBy t)), (''active'', JBool (tk_Active t)),
     (''deleted'', JBool (tk_Deleted t))] @ omit_empty ''deleted_at'' (tk_DeletedAt t) @ omit_empty ''deleted_by'' (tk_DeletedBy t)
     @ [(''created_at'', JStr (tk_CreatedAt t)), (''updated_at'', JStr (tk_UpdatedAt t))])"

text \<open>The due date and the late flag are not read by the query and stay empty.\<close>

definition response_json :: "response_row \<Rightarrow> jval" where
  "response_json r = JObj [(''id'', JInt (tr_id r)), (''student_id'', JStr (tr_student_id r)),
     (''student_name'', JStr (tr_student_name r)), (''item_type'', JStr (tr_item_type r)), (''item_id'', JInt (tr_item_id r)),
     (''item_name'', JStr (tr_item_name r)), (''status'', JStr (tr_status r)), (''notes'', JStr (coalesce (tr_notes r))),
     (''response_date'', JStr (tr_response_date r)),
     (''attendance_id'', JInt (case tr_attendance_id r of None \<Rightarrow> 0 | Some i \<Rightarrow> i)),
     (''responded_at'', JStr (fmt_ts (tr_responded_at r)))]"

section \<open>Whose items\<close>

definition teacher_ids :: "(string list \<Rightarrow> string list) \<Rightarrow> env \<Rightarrow> classdb \<Rightarrow> string \<Rightarrow> string list" where
  "teacher_ids order e db i = (if ev_faults e Q_schedules then [] else GetTeacherStudentIDs order db i)"

definition parent_ids :: "env \<Rightarrow> classdb \<Rightarrow> string \<Rightarrow> string list" where
  "parent_ids e db i = (if ev_faults e Q_people then [] else GetParentStudentIDs db i)"

definition canAccessStudent :: "(string list \<Rightarrow> string list) \<Rightarrow> env \<Rightarrow> classdb \<Rightarrow> session option \<Rightarrow> string \<Rightarrow> bool" where
  "canAccessStudent order e db sess studentID =
     (case sess of
        None \<Rightarrow> True
      | Some s \<Rightarrow>
          if ss_Role s = ''admin'' then True
          else if ss_UserType s = ''student'' then equal_fold (ss_EntityID s) studentID
          else if ss_UserType s = ''parent'' then (\<exists>i \<in> set (parent_ids e db (ss_EntityID s)). equal_fold i studentID)
          else if ss_UserType s = ''teacher'' then (\<exists>i \<in> set (teacher_ids order e db (ss_EntityID s)). equal_fold i studentID)
          else False)"

definition splitSemicolon :: "string \<Rightarrow> string list" where
  "splitSemicolon s =
     (let s = trim_space s in
      if s = [] then []
      else let sep = (if CHR '';'' \<in> set s then CHR '';'' else CHR '','')
           in filter (\<lambda>p. p \<noteq> []) (map trim_space (split_on sep s)))"

definition is_teacher_or_admin :: "session option \<Rightarrow> bool" where
  "is_teacher_or_admin sess =
     (case sess of None \<Rightarrow> False | Some s \<Rightarrow> ss_UserType s = ''teacher'' \<or> ss_UserType s = ''admin'' \<or> ss_Role s = ''admin'')"

text \<open>The name an action is recorded under, and the creator a query finds, empty when it finds none.\<close>

definition acting_name :: "session \<Rightarrow> string" where
  "acting_name s = (if ss_EntityID s = [] then ss_Username s else ss_EntityID s)"

definition creator_of :: "env \<Rightarrow> classdb \<Rightarrow> int \<Rightarrow> string option" where
  "creator_of e db i = (if ev_faults e Q_tasks then None else map_option ti_created_by (task_by_id db i))"

section \<open>Due items and late sign-offs\<close>

definition HandleTrackerDue :: "env \<Rightarrow> request \<Rightarrow> app \<Rightarrow> response" where
  "HandleTrackerDue e r a =
     (let studentID = rq_Query r ''student_id''; studentName = rq_Query r ''student_name'';
          signoffOnly = (rq_Query r ''signoff_only'' = ''true'');
          studentID = (if studentID = [] \<and> studentName \<noteq> [] then findStudentID (ap_DB a) studentName else studentID)
      in if studentID = [] then answer_json 200 (JArr [])
         else case (if signoffOnly then PendingSignoffItems e (ap_DB a) studentID
                    else GetDueItems e (ap_DB a) studentID (today e)) of
           None \<Rightarrow> db_error
         | Some items \<Rightarrow> answer_json 200 (JArr (map due_item_json items)))"

record late_request =
  lr_StudentID :: string
  lr_ItemID :: int
  lr_DueDate :: string
  lr_Status :: string
  lr_Notes :: string

definition HandleLateSignoff :: "env \<Rightarrow> request \<Rightarrow> late_request option \<Rightarrow> app \<Rightarrow> response \<times> app" where
  "HandleLateSignoff e r req a =
     (if rq_Method r \<noteq> ''POST'' then (method_not_allowed, a)
      else let (sess, a) = GetSession e r a in
        if \<not> is_teacher_or_admin sess then (api_error 403 ''Only teachers and admins can record late signoffs'', a)
        else case req of
          None \<Rightarrow> (api_error 400 ''Invalid request'', a)
        | Some q \<Rightarrow>
            if lr_StudentID q = [] \<or> lr_ItemID q = 0 \<or> lr_DueDate q = []
            then (api_error 400 ''student_id, item_id, and due_date are required'', a)
            else let status = (if lr_Status q = [] then ''done'' else lr_Status q) in
              finish_db a (SaveLateSignoff e (lr_StudentID q) (lr_DueDate q) (lr_ItemID q) status (lr_Notes q) (ap_DB a))
                (InvalidateProgressCache (lr_StudentID q)))"

section \<open>Items of the center\<close>

definition field_column :: "string \<Rightarrow> (student_row \<Rightarrow> string option) option" where
  "field_column field =
     (if field = ''grade'' then Some st_grade
      else if field = ''birthplace'' then Some st_birthplace
      else if field = ''school'' then Some st_school
      else if field = ''first_language'' then Some st_first_language
      else None)"

definition HandleStudentFieldValues :: "env \<Rightarrow> request \<Rightarrow> app \<Rightarrow> response" where
  "HandleStudentFieldValues e r a =
     (case field_column (rq_Query r ''field'') of
        None \<Rightarrow> api_error 400 ''Invalid field''
      | Some col \<Rightarrow>
          if ev_faults e Q_student then db_error
          else answer_json 200 (JArr (map JStr (sort (remdups (map (\<lambda>s. coalesce (col s))
            (filter (\<lambda>s. coalesce (col s) \<noteq> [] \<and> st_active s = 1 \<and> st_deleted s = 0) (db_students (ap_DB a)))))))))"

text \<open>The defaults of a decoded item: its type from the old flag, priority, recurrence and creator.\<close>

definition center_defaults :: "task_item \<Rightarrow> bool option \<Rightarrow> task_item" where
  "center_defaults item requiresSignoff =
     (let item = (if tk_Type item = []
                  then item\<lparr>tk_Type := (case requiresSignoff of Some False \<Rightarrow> ''task'' | _ \<Rightarrow> ''todo'')\<rparr> else item);
          item = (if tk_Priority item = [] then item\<lparr>tk_Priority := ''medium''\<rparr> else item);
          item = (if tk_Recurrence item = [] then item\<lparr>tk_Recurrence := ''daily''\<rparr> else item)
      in if tk_CreatedBy item = [] then item\<lparr>tk_CreatedBy := ''admin''\<rparr> else item)"

definition saved_answer :: "app \<Rightarrow> (int \<times> classdb) option \<Rightarrow> response \<times> app" where
  "saved_answer a r = (case r of None \<Rightarrow> (db_error, a)
     | Some (i, db) \<Rightarrow> (writeJSON 200 [(''ok'', JBool True), (''id'', JInt i)], a\<lparr>ap_DB := db\<rparr>))"

definition HandleTrackerItems :: "env \<Rightarrow> request \<Rightarrow> (task_item \<times> bool option) option \<Rightarrow> app \<Rightarrow> response \<times> app" where
  "HandleTrackerItems e r req a =
     (if rq_Method r = ''GET'' then
        (if ev_faults e Q_tasks then db_error
         else answer_json 200 (JArr (map task_item_json (ListTrackerItems (rq_Query r ''include_deleted'' = ''1'') (ap_DB a)))), a)
      else if rq_Method r = ''POST'' then
        (case req of
           None \<Rightarrow> (api_error 400 ''Invalid request'', a)
         | Some (item, requiresSignoff) \<Rightarrow>
             if tk_Name item = [] then (api_error 400 ''Name is required'', a)
             else saved_answer a (SaveTrackerItem e (center_defaults item requiresSignoff) (ap_DB a)))
      else (method_not_allowed, a))"

definition HandleTrackerItemDelete :: "env \<Rightarrow> request \<Rightarrow> int option \<Rightarrow> app \<Rightarrow> response \<times> app" where
  "HandleTrackerItemDelete e r req a =
     (if rq_Method r \<noteq> ''POST'' then (method_not_allowed, a)
      else let (sess, a) = GetSession e r a in
        case sess of
          None \<Rightarrow> (api_error 403 ''Superadmin access required'', a)
        | Some s \<Rightarrow>
            if \<not> ss_IsSuperAdmin s then (api_error 403 ''Superadmin access required'', a)
            else case req of
              None \<Rightarrow> (api_error 400 ''Invalid request'', a)
            | Some i \<Rightarrow> finish_db a (DeleteTaskItem e i (acting_name s) (ap_DB a)) (\<lambda>a. a))"

definition GetTrackerResponsesForDate :: "string \<Rightarrow> string \<Rightarrow> classdb \<Rightarrow> response_row list" where
  "GetTrackerResponsesForDate studentID date db =
     sort_key tr_id (filter (\<lambda>x. tr_student_id x = studentID \<and> tr_response_date x = date) (tb_rows (db_responses db)))"

definition HandleTrackerResponses :: "env \<Rightarrow> request \<Rightarrow> app \<Rightarrow> response" where
  "HandleTrackerResponses e r a =
     (let studentID = rq_Query r ''student_id''; date = rq_Query r ''date'' in
      if studentID = [] then api_error 400 ''student_id is required''
      else if ev_faults e Q_responses then db_error
      else answer_json 200 (JArr (map response_json
             (GetTrackerResponsesForDate studentID (if date = [] then today e else date) (ap_DB a)))))"

section \<open>Personal items\<close>

definition personal_defaults :: "task_item \<Rightarrow> bool option \<Rightarrow> task_item" where
  "personal_defaults item requiresSignoff =
     (let item = (if tk_Priority item = [] then item\<lparr>tk_Priority := ''medium''\<rparr> else item);
          item = (if tk_Recurrence item = [] then item\<lparr>tk_Recurrence := ''none''\<rparr> else item);
          item = (if tk_Type item = []
                  then item\<lparr>tk_Type := (case requiresSignoff of Some True \<Rightarrow> ''todo'' | _ \<Rightarrow> ''task'')\<rparr> else item)
      in if tk_ID item = 0 then item\<lparr>tk_Active := True\<rparr> else item)"

text \<open>What a session other than an admin's makes of the item; \<open>None\<close> when it may not edit it.\<close>

definition enforce_owner :: "env \<Rightarrow> classdb \<Rightarrow> session \<Rightarrow> task_item \<Rightarrow> task_item option" where
  "enforce_owner e db s item =
     (let item = (if ss_UserType s = ''student'' then item\<lparr>tk_StudentID := ss_EntityID s\<rparr> else item);
          item = (if ss_UserType s = ''student'' \<or> ss_UserType s = ''parent'' then item\<lparr>tk_Type := ''task''\<rparr> else item)
      in if 0 < tk_ID item
         then (if coalesce (creator_of e db (tk_ID item)) \<noteq> ss_EntityID s then None else Some item)
         else Some (item\<lparr>tk_CreatedBy := ss_EntityID s, tk_OwnerType := ss_UserType s\<rparr>))"

definition admin_owner :: "task_item \<Rightarrow> task_item" where
  "admin_owner item =
     (let item = (if tk_CreatedBy item = [] then item\<lparr>tk_CreatedBy := ''admin''\<rparr> else item)
      in if tk_OwnerType item = [] then item\<lparr>tk_OwnerType := ''admin''\<rparr> else item)"

text \<open>The checks on a session come only when there is one.\<close>

definition bound_by :: "session option \<Rightarrow> session option" where
  "bound_by sess = (case sess of None \<Rightarrow> None | Some s \<Rightarrow> if ss_Role s = ''admin'' then None else Some s)"

definition HandleStudentTrackerItems ::
  "(string list \<Rightarrow> string list) \<Rightarrow> env \<Rightarrow> request \<Rightarrow> (task_item \<times> bool option) option \<Rightarrow> app \<Rightarrow> response \<times> app" where
  "HandleStudentTrackerItems order e r req a =
     (if rq_Method r = ''GET'' then
        let studentID = rq_Query r ''student_id'' in
        if studentID = [] then (api_error 400 ''student_id is required'', a)
        else let (sess, a) = GetSession e r a in
          if bound_by sess \<noteq> None \<and> \<not> canAccessStudent order e (ap_DB a) sess studentID
          then (api_error 403 ''Access denied'', a)
          else (if ev_faults e Q_tasks then db_error
                else answer_json 200 (JArr (map task_item_json (ListStudentTrackerItems studentID (ap_DB a)))), a)
      else if rq_Method r = ''POST'' then
        (case req of
           None \<Rightarrow> (api_error 400 ''Invalid request'', a)
         | Some (item, requiresSignoff) \<Rightarrow>
             if tk_Name item = [] then (api_error 400 ''name is required'', a)
             else let item = personal_defaults item requiresSignoff; (sess, a) = GetSession e r a in
               case (case bound_by sess of None \<Rightarrow> Some item | Some s \<Rightarrow> enforce_owner e (ap_DB a) s item) of
                 None \<Rightarrow> (api_error 403 ''Only the owner can edit this item'', a)
               | Some item \<Rightarrow> saved_answer a (SaveStudentTrackerItem e (admin_owner item) (ap_DB a)))
      else (method_not_allowed, a))"

definition HandleStudentTrackerItemDelete :: "env \<Rightarrow> request \<Rightarrow> int option \<Rightarrow> app \<Rightarrow> response \<times> app" where
  "HandleStudentTrackerItemDelete e r req a =
     (if rq_Method r \<noteq> ''POST'' then (method_not_allowed, a)
      else case req of
        None \<Rightarrow> (api_error 400 ''Invalid request'', a)
      | Some i \<Rightarrow>
          let (sess, a) = GetSession e r a in
          if (case bound_by sess of None \<Rightarrow> False
              | Some s \<Rightarrow> (case creator_of e (ap_DB a) i of None \<Rightarrow> False | Some createdBy \<Rightarrow> createdBy \<noteq> ss_EntityID s))
          then (api_error 403 ''Only the owner can delete this item'', a)
          else finish_db a (DeleteTaskItem e i (case sess of None \<Rightarrow> ''admin'' | Some s \<Rightarrow> acting_name s) (ap_DB a)) (\<lambda>a. a))"

section \<open>Completing and assigning\<close>

definition student_of_item :: "env \<Rightarrow> classdb \<Rightarrow> int \<Rightarrow> string option" where
  "student_of_item e db i = (if ev_faults e Q_tasks then None else GetStudentIDForItem db i)"

definition invalidate_for :: "string option \<Rightarrow> app \<Rightarrow> app" where
  "invalidate_for sid a = (case sid of None \<Rightarrow> a | Some sid \<Rightarrow> InvalidateProgressCache sid a)"

definition HandleTrackerComplete ::
  "(string list \<Rightarrow> string list) \<Rightarrow> env \<Rightarrow> request \<Rightarrow> (int \<times> bool) option \<Rightarrow> app \<Rightarrow> response \<times> app" where
  "HandleTrackerComplete order e r req a =
     (if rq_Method r \<noteq> ''POST'' then (method_not_allowed, a)
      else case req of
        None \<Rightarrow> (api_error 400 ''Invalid request'', a)
      | Some (i, complete) \<Rightarrow>
          let (sess, a) = GetSession e r a in
          (case sess of
             None \<Rightarrow> (api_error 401 ''Not authenticated'', a)
           | Some s \<Rightarrow>
               if (case student_of_item e (ap_DB a) i of None \<Rightarrow> False
                   | Some sid \<Rightarrow> sid \<noteq> [] \<and> \<not> canAccessStudent order e (ap_DB a) sess sid)
               then (api_error 403 ''Access denied'', a)
               else finish_db a (if complete then CompleteTaskItem e i (ss_EntityID s) (ap_DB a) else UncompleteTaskItem e i (ap_DB a))
                      (\<lambda>a. invalidate_for (student_of_item e (ap_DB a) i) a)))"

record bulk_request =
  bk_StudentIDs :: "string list"
  bk_ScheduleID :: string
  bk_Name :: string
  bk_Notes :: string
  bk_StartDate :: string
  bk_EndDate :: string
  bk_Priority :: string
  bk_Recurrence :: string
  bk_Category :: string
  bk_RequiresSignoff :: "bool option"

definition zero_item :: task_item where
  "zero_item = \<lparr>tk_ID = 0, tk_Scope = 0, tk_ScheduleID = [], tk_StudentID = [], tk_Type = [], tk_Name = [], tk_Notes = [],
     tk_StartDate = [], tk_EndDate = [], tk_Priority = [], tk_Recurrence = [], tk_Category = [], tk_Criteria = [],
     tk_GroupID = [], tk_GroupOrder = 0, tk_CreatedBy = [], tk_OwnerType = [], tk_Completed = False, tk_CompletedAt = [],
     tk_CompletedBy = [], tk_Active = False, tk_Deleted = False, tk_DeletedAt = [], tk_DeletedBy = [], tk_CreatedAt = [],
     tk_UpdatedAt = []\<rparr>"

definition bulk_students :: "env \<Rightarrow> bulk_request \<Rightarrow> classdb \<Rightarrow> string list" where
  "bulk_students e q db =
     (if bk_ScheduleID q \<noteq> [] \<and> bk_StudentIDs q = [] \<and> \<not> ev_faults e Q_schedules
      then (case List.find (\<lambda>s. sc_id s = bk_ScheduleID q) (db_schedules db) of
              None \<Rightarrow> [] | Some s \<Rightarrow> splitSemicolon (coalesce (sc_student_ids s)))
      else bk_StudentIDs q)"

definition bulk_item :: "session \<Rightarrow> bulk_request \<Rightarrow> task_item" where
  "bulk_item s q = zero_item\<lparr>tk_Name := bk_Name q, tk_Notes := bk_Notes q, tk_StartDate := bk_StartDate q,
     tk_EndDate := bk_EndDate q, tk_Priority := (if bk_Priority q = [] then ''medium'' else bk_Priority q),
     tk_Recurrence := (if bk_Recurrence q = [] then ''none'' else bk_Recurrence q), tk_Category := bk_Category q,
     tk_CreatedBy := ss_EntityID s, tk_OwnerType := ss_UserType s,
     tk_Type := (if bk_RequiresSignoff q = Some False then ''task'' else ''todo''), tk_Active := True\<rparr>"

definition assigned_answer :: "string list \<Rightarrow> response" where
  "assigned_answer ids = writeJSON 200 [(''ok'', JBool True), (''count'', JInt (int (length ids)))]"

definition HandleTrackerBulkAssign :: "env \<Rightarrow> request \<Rightarrow> bulk_request option \<Rightarrow> app \<Rightarrow> response \<times> app" where
  "HandleTrackerBulkAssign e r req a =
     (if rq_Method r \<noteq> ''POST'' then (method_not_allowed, a)
      else case req of
        None \<Rightarrow> (api_error 400 ''Invalid request'', a)
      | Some q \<Rightarrow>
          if bk_Name q = [] then (api_error 400 ''Name is required'', a)
          else let (sess, a) = GetSession e r a in
            case sess of
              None \<Rightarrow> (api_error 403 ''Only teachers and admins can bulk-assign'', a)
            | Some s \<Rightarrow>
                if \<not> is_teacher_or_admin sess then (api_error 403 ''Only teachers and admins can bulk-assign'', a)
                else let studentIDs = bulk_students e q (ap_DB a) in
                  if studentIDs = [] then (api_error 400 ''No students specified'', a)
                  else case BulkCreateTaskItems e studentIDs (bulk_item s q) (ap_DB a) of
                    None \<Rightarrow> (db_error, a)
                  | Some db \<Rightarrow> (assigned_answer studentIDs, fold InvalidateProgressCache studentIDs (a\<lparr>ap_DB := db\<rparr>)))"

definition copied_item :: "task_item \<Rightarrow> task_item" where
  "copied_item src = zero_item\<lparr>tk_Name := tk_Name src, tk_Notes := tk_Notes src, tk_StartDate := tk_StartDate src,
     tk_EndDate := tk_EndDate src, tk_Priority := tk_Priority src, tk_Recurrence := tk_Recurrence src,
     tk_Category := tk_Category src, tk_CreatedBy := tk_CreatedBy src, tk_OwnerType := tk_OwnerType src,
     tk_Type := tk_Type src, tk_Active := True\<rparr>"

text \<open>A failure to remove the template is not reported.\<close>

definition HandleAssignLibraryItem :: "env \<Rightarrow> request \<Rightarrow> (int \<times> string list) option \<Rightarrow> app \<Rightarrow> response \<times> app" where
  "HandleAssignLibraryItem e r req a =
     (if rq_Method r \<noteq> ''POST'' then (method_not_allowed, a)
      else case req of
        None \<Rightarrow> (api_error 400 ''Invalid request'', a)
      | Some (i, studentIDs) \<Rightarrow>
          if i = 0 \<or> studentIDs = [] then (api_error 400 ''item_id and student_ids are required'', a)
          else case (if ev_faults e Q_tasks then None
                     else List.find (\<lambda>t. ti_id t = i \<and> ti_deleted t = 0) (tb_rows (db_tasks (ap_DB a)))) of
            None \<Rightarrow> (api_error 404 ''Item not found'', a)
          | Some row \<Rightarrow>
              let src = scanTaskItem row; (sess, a) = GetSession e r a in
              if (case bound_by sess of None \<Rightarrow> False | Some s \<Rightarrow> tk_CreatedBy src \<noteq> ss_EntityID s)
              then (api_error 403 ''Only the owner can assign this item'', a)
              else case BulkCreateTaskItems e studentIDs (copied_item src) (ap_DB a) of
                None \<Rightarrow> (db_error, a)
              | Some db \<Rightarrow>
                  let db = (if tk_StudentID src = []
                            then (case DeleteTaskItem e (tk_ID src) (case sess of None \<Rightarrow> ''system'' | Some s \<Rightarrow> acting_name s) db of
                                    None \<Rightarrow> db | Some db \<Rightarrow> db)
                            else db)
                  in (assigned_answer studentIDs, a\<lparr>ap_DB := db\<rparr>))"

end
