(* ===== verification/TaskRights.thy ===== *)
theory TaskRights
  imports TaskHandlers Due Access
begin

text \<open>
  What the handlers of task items guarantee: the tables stay well formed whatever is requested, and a
  session other than an admin's changes only the items it created; and what they do not: without a
  session no check is made at all.
\<close>

section \<open>Requests\<close>

datatype task_call =
    CRespond "respond_request option"
  | CLate "late_request option"
  | CCenter "(task_item \<times> bool option) option"
  | CCenterDelete "int option"
  | CPersonal "(task_item \<times> bool option) option"
  | CPersonalDelete "int option"
  | CComplete "(int \<times> bool) option"
  | CBulk "bulk_request option"
  | CAssign "(int \<times> string list) option"

fun serve_task ::
  "(attendance_row list \<Rightarrow> attendance_row) \<Rightarrow> (string list \<Rightarrow> string list) \<Rightarrow> env \<Rightarrow> request \<Rightarrow> task_call \<Rightarrow> app \<Rightarrow> response \<times> app" where
  "serve_task pick order e r (CRespond q) a = HandleTrackerRespond pick e r q a"
| "serve_task pick order e r (CLate q) a = HandleLateSignoff e r q a"
| "serve_task pick order e r (CCenter q) a = HandleTrackerItems e r q a"
| "serve_task pick order e r (CCenterDelete q) a = HandleTrackerItemDelete e r q a"
| "serve_task pick order e r (CPersonal q) a = HandleStudentTrackerItems order e r q a"
| "serve_task pick order e r (CPersonalDelete q) a = HandleStudentTrackerItemDelete e r q a"
| "serve_task pick order e r (CComplete q) a = HandleTrackerComplete order e r q a"
| "serve_task pick order e r (CBulk q) a = HandleTrackerBulkAssign e r q a"
| "serve_task pick order e r (CAssign q) a = HandleAssignLibraryItem e r q a"

section \<open>Handlers as database operations\<close>

text \<open>A property of the tables that every statement keeps is kept by every handler.\<close>

lemma GetSession_DB [simp]: "ap_DB (snd (GetSession e r a)) = ap_DB a"
  by (simp add: GetSession_def Sessions_Get_def on_sessions_def split_beta Let_def split_beta)

lemma Invalidate_DB [simp]: "ap_DB (InvalidateProgressCache sid a) = ap_DB a"
  by (simp add: InvalidateProgressCache_def)

lemma invalidate_for_DB [simp]: "ap_DB (invalidate_for sid a) = ap_DB a"
  by (simp add: invalidate_for_def split: option.split)

lemma fold_Invalidate_DB [simp]: "ap_DB (fold InvalidateProgressCache ids a) = ap_DB a"
  by (induction ids arbitrary: a) simp_all

lemma finish_db_DB:
  assumes "\<And>b. ap_DB (after b) = ap_DB b"
  shows "ap_DB (snd (finish_db a res after)) = (case res of None \<Rightarrow> ap_DB a | Some db \<Rightarrow> db)"
  by (simp add: finish_db_def assms split: option.split)

lemma saved_answer_DB: "ap_DB (snd (saved_answer a res)) = (case res of None \<Rightarrow> ap_DB a | Some (i, db) \<Rightarrow> db)"
  by (auto simp: saved_answer_def split: option.split)

locale kept =
  fixes P :: "classdb \<Rightarrow> bool"
  assumes save: "P db \<Longrightarrow> SaveTaskItem e item db = Some (i, db') \<Longrightarrow> P db'"
    and delete: "P db \<Longrightarrow> DeleteTaskItem e j who db = Some db' \<Longrightarrow> P db'"
    and bulk: "P db \<Longrightarrow> BulkCreateTaskItems e ids item db = Some db' \<Longrightarrow> P db'"
    and complete: "P db \<Longrightarrow> CompleteTaskItem e j who db = Some db' \<Longrightarrow> P db'"
    and uncomplete: "P db \<Longrightarrow> UncompleteTaskItem e j db = Some db' \<Longrightarrow> P db'"
    and late: "P db \<Longrightarrow> SaveLateSignoff e sid due j status notes db = Some db' \<Longrightarrow> P db'"
    and responses: "P db \<Longrightarrow> SaveTrackerResponses pick e name sid rs db = Some (n, db') \<Longrightarrow> P db'"
    and pins: "P db \<Longrightarrow> P (update_student sid f db)"
begin

lemma saved: "P (ap_DB a) \<Longrightarrow> P db \<Longrightarrow> P (ap_DB (snd (saved_answer a (SaveTaskItem e item db))))"
  using save by (auto simp: saved_answer_DB split: option.split)

lemma ensure_pin: "P db \<Longrightarrow> EnsureDailyStudentPin e sid db = Some (p, db') \<Longrightarrow> P db'"
  by (auto simp: EnsureDailyStudentPin_def GenerateStudentPin_def Let_def split_beta pins split: option.splits if_splits)

lemma validate: "P (ap_DB a) \<Longrightarrow> P (ap_DB (snd (ValidatePIN e sid pin a)))"
  by (auto simp: ValidatePIN_def EnsureDailyPIN_def Let_def split_beta dest: ensure_pin split: option.splits if_splits prod.splits)

lemma respond: "P (ap_DB a) \<Longrightarrow> P (ap_DB (snd (HandleTrackerRespond pick e r q a)))"
  by (auto simp: HandleTrackerRespond_def Let_def split_beta intro: responses [OF validate] validate split: option.split)

lemma late_signoff: "P (ap_DB a) \<Longrightarrow> P (ap_DB (snd (HandleLateSignoff e r q a)))"
  by (auto simp: HandleLateSignoff_def Let_def split_beta finish_db_DB dest: late split: option.split)

lemma center: "P (ap_DB a) \<Longrightarrow> P (ap_DB (snd (HandleTrackerItems e r q a)))"
  by (auto simp: HandleTrackerItems_def SaveTrackerItem_def saved split: option.split)

lemma center_delete: "P (ap_DB a) \<Longrightarrow> P (ap_DB (snd (HandleTrackerItemDelete e r q a)))"
  by (auto simp: HandleTrackerItemDelete_def Let_def split_beta finish_db_DB dest: delete split: option.split)

lemma personal: "P (ap_DB a) \<Longrightarrow> P (ap_DB (snd (HandleStudentTrackerItems order e r q a)))"
  by (auto simp: HandleStudentTrackerItems_def SaveStudentTrackerItem_def Let_def split_beta 
    intro: saved split: option.split)

lemma personal_delete: "P (ap_DB a) \<Longrightarrow> P (ap_DB (snd (HandleStudentTrackerItemDelete e r q a)))"
  by (auto simp: HandleStudentTrackerItemDelete_def Let_def split_beta finish_db_DB dest: delete split: option.split)

lemma completing: "P (ap_DB a) \<Longrightarrow> P (ap_DB (snd (HandleTrackerComplete order e r q a)))"
  by (auto simp: HandleTrackerComplete_def Let_def split_beta finish_db_DB dest: complete uncomplete split: option.split)

lemma bulk_assign: "P (ap_DB a) \<Longrightarrow> P (ap_DB (snd (HandleTrackerBulkAssign e r q a)))"
  by (auto simp: HandleTrackerBulkAssign_def Let_def split_beta dest: bulk split: option.split)

lemma assign: "P (ap_DB a) \<Longrightarrow> P (ap_DB (snd (HandleAssignLibraryItem e r q a)))"
  by (auto simp: HandleAssignLibraryItem_def Let_def split_beta dest: bulk intro: delete split: option.split)

lemma serve: "P (ap_DB a) \<Longrightarrow> P (ap_DB (snd (serve_task pick order e r c a)))"
  using respond late_signoff center center_delete personal personal_delete completing bulk_assign assign
  by (cases c) simp_all

end

section \<open>Well-formed tables\<close>

text \<open>The domains of the columns the code computes with, and the keys of the two tables.\<close>

definition flag :: "int \<Rightarrow> bool" where
  "flag n \<longleftrightarrow> n \<in> {0, 1}"

lemma flag_simps [simp]: "flag 0" "flag 1" "flag (b2i b)"
  by (simp_all add: flag_def b2i_def)

definition typed_task :: "task_row \<Rightarrow> bool" where
  "typed_task t \<longleftrightarrow> ti_scope t \<in> {1, 2, 3} \<and> flag (ti_active t) \<and> flag (ti_deleted t) \<and> flag (ti_completed t)
     \<and> (ti_completed t = 1 \<longleftrightarrow> ti_completed_at t \<noteq> None) \<and> (ti_deleted t = 1 \<longleftrightarrow> ti_deleted_at t \<noteq> None)
     \<and> ti_type t \<noteq> []"

definition typed_response :: "response_row \<Rightarrow> bool" where
  "typed_response x \<longleftrightarrow> response_allowed (tr_item_type x) (tr_status x) \<and> flag (tr_is_late x)
     \<and> (tr_is_late x = 1 \<longleftrightarrow> tr_due_date x \<noteq> None)"

definition tables_typed :: "classdb \<Rightarrow> bool" where
  "tables_typed db \<longleftrightarrow> keys_ok ti_id (db_tasks db) \<and> keys_ok tr_id (db_responses db)
     \<and> (\<forall>t \<in> set (tb_rows (db_tasks db)). typed_task t) \<and> (\<forall>x \<in> set (tb_rows (db_responses db)). typed_response x)"

lemma tables_typed_students [simp]: "tables_typed (db\<lparr>db_students := s\<rparr>) = tables_typed db"
  "tables_typed (db\<lparr>db_attendance := s'\<rparr>) = tables_typed db"
  by (simp_all add: tables_typed_def)

lemma typed_update:
  assumes "tables_typed db" "\<And>t. ti_id (f t) = ti_id t" "\<And>t. typed_task t \<Longrightarrow> typed_task (f t)"
  shows "tables_typed (on_tasks (update_tab Q f) db)"
  using assms task_tab.keys_update [of "db_tasks db" f Q]
  by (auto simp: tables_typed_def on_tasks_def set_update_where)

lemma typed_insert:
  assumes "tables_typed db" "typed_task (t\<lparr>ti_id := tb_seq (db_tasks db) + 1\<rparr>)"
  shows "tables_typed (on_tasks (insert_row (mk_task t)) db)"
  using assms task_tab.keys_insert [of "db_tasks db" t]
  by (auto simp: tables_typed_def on_tasks_def mk_task_def)

lemma typed_insert_response:
  assumes "tables_typed db" "insert_response e x db = Some db'" "flag (tr_is_late x)" "tr_is_late x = 1 \<longleftrightarrow> tr_due_date x \<noteq> None"
  shows "tables_typed db'"
  using assms response_tab.keys_insert [of "db_responses db" x]
  by (auto simp: tables_typed_def insert_response_def mk_response_def typed_response_def split: if_splits)

lemma typed_new [simp]: "flag (tr_is_late (new_response e sid n it i nm st nt att))" "tr_is_late (new_response e sid n it i nm st nt att) = 0"
  "tr_due_date (new_response e sid n it i nm st nt att) = None"
  by (simp_all add: new_response_def flag_def)


lemma typed_save:
  assumes "tables_typed db" "SaveTaskItem e item db = Some (i, db')"
  shows "tables_typed db'"
proof -
  let ?it = "if tk_Type item = [] then item\<lparr>tk_Type := ''task''\<rparr> else item"
  show ?thesis
  proof (cases "0 < tk_ID item")
    case True
    then show ?thesis
      using assms by (auto simp: SaveTaskItem_def Let_def typed_task_def split: if_splits intro!: typed_update)
  next
    case False
    then show ?thesis
      using assms by (auto simp: SaveTaskItem_def Let_def typed_task_def task_row_of_def flag_def b2i_def split: if_splits intro!: typed_insert)
  qed
qed

lemma typed_delete: "tables_typed db \<Longrightarrow> DeleteTaskItem e i who db = Some db' \<Longrightarrow> tables_typed db'"
  by (auto simp: DeleteTaskItem_def typed_task_def flag_def split: if_splits intro!: typed_update)

lemma typed_bulk_rows:
  "tables_typed db \<Longrightarrow> (\<And>sid i. typed_task ((row sid)\<lparr>ti_id := i\<rparr>)) \<Longrightarrow>
   tables_typed (on_tasks (\<lambda>t. fold (\<lambda>sid. insert_row (mk_task (row sid))) ids t) db)"
proof (induction ids arbitrary: db)
  case (Cons sid ids)
  have "tables_typed (on_tasks (insert_row (mk_task (row sid))) db)" using Cons.prems by (rule typed_insert)
  from Cons.IH [OF this Cons.prems(2)] show ?case by (simp add: on_tasks_def)
qed (simp add: on_tasks_def)

definition bulk_row :: "env \<Rightarrow> task_item \<Rightarrow> string \<Rightarrow> task_row" where
  "bulk_row e item sid = (task_row_of e (item\<lparr>tk_Type := (if tk_Type item = [] then ''task'' else tk_Type item),
     tk_Scope := ScopePersonal\<rparr>))\<lparr>ti_student_id := Some sid, ti_schedule_id := None, ti_criteria := None,
       ti_group_id := None, ti_group_order := None\<rparr>"

lemma BulkCreate_Some:
  "BulkCreateTaskItems e ids item db = Some db' \<Longrightarrow>
    db' = on_tasks (\<lambda>t. fold (\<lambda>sid. insert_row (mk_task (bulk_row e item sid))) ids t) db"
  by (simp add: BulkCreateTaskItems_def bulk_row_def Let_def split: if_splits)

lemma typed_bulk:
  assumes "tables_typed db" "BulkCreateTaskItems e ids item db = Some db'"
  shows "tables_typed db'"
  unfolding BulkCreate_Some [OF assms(2)] using assms(1)
  by (rule typed_bulk_rows) (simp add: typed_task_def bulk_row_def task_row_of_def flag_def b2i_def ScopePersonal_def)

lemma typed_new_response:
  "insert_response e (new_response e' sid n it i nm st nt att) db = Some db' \<Longrightarrow> tables_typed db \<Longrightarrow> tables_typed db'"
  using typed_insert_response [of db e "new_response e' sid n it i nm st nt att" db'] by simp

lemma typed_complete:
  assumes "tables_typed db" "CompleteTaskItem e i who db = Some db'"
  shows "tables_typed db'"
proof -
  let ?db = "on_tasks (update_tab (\<lambda>r. ti_id r = i)
     (\<lambda>r. r\<lparr>ti_completed := 1, ti_completed_at := Some (ev_now e), ti_completed_by := Some who\<rparr>)) db"
  have "tables_typed ?db" using assms(1) by (rule typed_update) (auto simp: typed_task_def flag_def)
  then show ?thesis
    using assms(2) by (auto simp: CompleteTaskItem_def Let_def split: if_splits option.splits elim: typed_new_response)
qed

lemma typed_uncomplete:
  assumes "tables_typed db" "UncompleteTaskItem e i db = Some db'"
  shows "tables_typed db'"
proof -
  let ?db = "on_tasks (update_tab (\<lambda>r. ti_id r = i)
     (\<lambda>r. r\<lparr>ti_completed := 0, ti_completed_at := None, ti_completed_by := None\<rparr>)) db"
  have "tables_typed ?db" using assms(1) by (rule typed_update) (auto simp: typed_task_def flag_def)
  then show ?thesis
    using assms(2) response_tab.keys_delete [of "db_responses db"]
    by (auto simp: UncompleteTaskItem_def tables_typed_def on_tasks_def split: if_splits)
qed

lemma typed_late: "tables_typed db \<Longrightarrow> SaveLateSignoff e sid due i status notes db = Some db' \<Longrightarrow> tables_typed db'"
  by (auto simp: SaveLateSignoff_def Let_def split_beta flag_def elim: typed_insert_response)

lemma typed_insert_responses:
  "insert_responses e sid name i ps db = Some db' \<Longrightarrow> tables_typed db \<Longrightarrow> tables_typed db'"
proof (induction ps arbitrary: db)
  case (Cons p ps)
  then obtain db1 it where "insert_response e (new_response e sid name it (rp_ItemID p) (rp_ItemName p) (rp_Status p)
      (Some (rp_Notes p)) (Some i)) db = Some db1" "insert_responses e sid name i ps db1 = Some db'"
    by (auto simp: Let_def split: option.splits)
  then show ?case using Cons.IH Cons.prems(2) typed_new_response by blast
qed simp

lemma typed_responses:
  "tables_typed db \<Longrightarrow> SaveTrackerResponses pick e name sid rs db = Some (n, db') \<Longrightarrow> tables_typed db'"
  by (auto simp: SaveTrackerResponses_def Let_def check_out_rows_def split: if_splits option.splits elim!: typed_insert_responses)

interpretation typed: kept tables_typed
  by unfold_locales (fact typed_save typed_delete typed_bulk typed_complete typed_uncomplete typed_late typed_responses
    | simp add: update_student_def)+

text \<open>A run of the server over task requests.\<close>

inductive task_run :: "app \<Rightarrow> app \<Rightarrow> bool" where
  start: "task_run a a"
| serve: "task_run a b \<Longrightarrow> task_run a (snd (serve_task pick order e r c b))"

text \<open>
  C29. Whatever is requested of the task handlers, in any order and with any failures, the tables stay well
  formed: identifiers are unique and below the sequence, scopes and flags stay in their domains, an item has
  a time of completion exactly when it is completed and of deletion when deleted, and a response has a type and
  status the table admits and a due date exactly when it is late.
\<close>

theorem task_tables_stay_typed:
  assumes "task_run a b" "tables_typed (ap_DB a)"
  shows "tables_typed (ap_DB b)"
  using assms by (induction rule: task_run.induct) (auto intro: typed.serve)

section \<open>Who may change an item\<close>

text \<open>Rows of other creators stay as they are, and what is new or changed is of the creator \<open>c\<close>.\<close>

definition keeps_others :: "string \<Rightarrow> classdb \<Rightarrow> classdb \<Rightarrow> bool" where
  "keeps_others c db db' \<longleftrightarrow>
     (\<forall>x \<in> set (tb_rows (db_tasks db)). ti_created_by x \<noteq> c \<longrightarrow> x \<in> set (tb_rows (db_tasks db')))
     \<and> (\<forall>y \<in> set (tb_rows (db_tasks db')). y \<in> set (tb_rows (db_tasks db)) \<or> ti_created_by y = c)"

lemma keeps_refl [simp]: "keeps_others c db db"
  by (simp add: keeps_others_def)

lemma keeps_trans: "keeps_others c db db' \<Longrightarrow> keeps_others c db' db'' \<Longrightarrow> keeps_others c db db''"
  by (auto simp: keeps_others_def)

lemma keeps_update:
  assumes "\<And>t. ti_created_by (f t) = ti_created_by t"
    and "\<And>t. t \<in> set (tb_rows (db_tasks db)) \<Longrightarrow> ti_id t = i \<Longrightarrow> ti_created_by t = c"
  shows "keeps_others c db (on_tasks (update_tab (\<lambda>t. ti_id t = i) f) db)"
  using assms by (auto simp: keeps_others_def set_update_where on_tasks_def)

lemma keeps_insert: "ti_created_by t = c \<Longrightarrow> keeps_others c db (on_tasks (insert_row (mk_task t)) db)"
  by (auto simp: keeps_others_def on_tasks_def mk_task_def)

lemma keeps_save:
  assumes "SaveTaskItem e item db = Some (j, db')" "tk_ID item \<le> 0 \<Longrightarrow> tk_CreatedBy item = c"
    and "\<And>t. t \<in> set (tb_rows (db_tasks db)) \<Longrightarrow> ti_id t = tk_ID item \<Longrightarrow> ti_created_by t = c"
  shows "keeps_others c db db'"
  using assms by (auto simp: SaveTaskItem_def Let_def task_row_of_def split: if_splits intro!: keeps_update keeps_insert)

lemma keeps_delete:
  assumes "DeleteTaskItem e i who db = Some db'"
    and "\<And>t. t \<in> set (tb_rows (db_tasks db)) \<Longrightarrow> ti_id t = i \<Longrightarrow> ti_created_by t = c"
  shows "keeps_others c db db'"
  using assms by (auto simp: DeleteTaskItem_def split: if_splits intro!: keeps_update)

lemma keeps_bulk_rows:
  "(\<And>sid. ti_created_by (row sid) = c) \<Longrightarrow>
   keeps_others c db (on_tasks (\<lambda>t. fold (\<lambda>sid. insert_row (mk_task (row sid))) ids t) db)"
proof (induction ids arbitrary: db)
  case (Cons sid ids)
  from keeps_trans [OF keeps_insert Cons.IH] Cons.prems show ?case by (simp add: on_tasks_def)
qed (simp add: on_tasks_def)

lemma keeps_bulk: "BulkCreateTaskItems e ids item db = Some db' \<Longrightarrow> keeps_others (tk_CreatedBy item) db db'"
  by (auto dest!: BulkCreate_Some intro!: keeps_bulk_rows simp: bulk_row_def task_row_of_def)

lemma bulk_old_ids:
  assumes "BulkCreateTaskItems e ids item db = Some db'" "keys_ok ti_id (db_tasks db)"
    and "y \<in> set (tb_rows (db_tasks db'))" "ti_id y \<le> tb_seq (db_tasks db)"
  shows "y \<in> set (tb_rows (db_tasks db))"
proof -
  have "y \<in> set (tb_rows (fold (\<lambda>sid. insert_row (mk_task (row sid))) ids t)) \<Longrightarrow> ti_id y \<le> tb_seq t \<Longrightarrow> y \<in> set (tb_rows t)" for row t
    by (induction ids arbitrary: t) (fastforce simp: mk_task_def)+
  then show ?thesis using BulkCreate_Some [OF assms(1)] assms(3,4) by (simp add: on_tasks_def)
qed

lemma creator_of_row:
  assumes "keys_ok ti_id (db_tasks db)" "creator_of e db i = Some c" "t \<in> set (tb_rows (db_tasks db))" "ti_id t = i"
  shows "ti_created_by t = c"
proof -
  obtain x where "x \<in> set (tb_rows (db_tasks db))" "ti_id x = i" "ti_created_by x = c"
    using assms(2) by (auto simp: creator_of_def task_by_id_def split: if_splits dest!: find_Some_iff_mem)
  then show ?thesis using task_tab.same_key [OF assms(1)] assms(3,4) by metis
qed

lemma creator_of_none:
  "creator_of e db i = None \<Longrightarrow> \<not> ev_faults e Q_tasks \<Longrightarrow> t \<in> set (tb_rows (db_tasks db)) \<Longrightarrow> ti_id t \<noteq> i"
  by (auto simp: creator_of_def task_by_id_def find_None_all)

lemma enforce_owner_cases:
  assumes "enforce_owner e db s item = Some item'"
  shows "tk_ID item' = tk_ID item" "0 < tk_ID item \<Longrightarrow> coalesce (creator_of e db (tk_ID item)) = ss_EntityID s"
    "tk_ID item \<le> 0 \<Longrightarrow> tk_CreatedBy item' = ss_EntityID s"
  using assms by (auto simp: enforce_owner_def Let_def split: if_splits)

lemma admin_owner_fields [simp]:
  "tk_ID (admin_owner item) = tk_ID item" "tk_CreatedBy item \<noteq> [] \<Longrightarrow> tk_CreatedBy (admin_owner item) = tk_CreatedBy item"
  by (simp_all add: admin_owner_def Let_def)

lemma bound_by_session: "ss_Role s \<noteq> ''admin'' \<Longrightarrow> bound_by (Some s) = Some s"
  by (simp add: bound_by_def)

lemma personal_keeps:
  assumes g: "GetSession e r a = (Some s, a')" and s: "ss_Role s \<noteq> ''admin''" "ss_EntityID s \<noteq> []"
    and k: "keys_ok ti_id (db_tasks (ap_DB a))"
  shows "keeps_others (ss_EntityID s) (ap_DB a) (ap_DB (snd (HandleStudentTrackerItems order e r q a)))"
proof -
  have DB: "ap_DB a' = ap_DB a" using GetSession_DB [of e r a] g by simp
  have "keeps_others (ss_EntityID s) (ap_DB a) (ap_DB (snd (saved_answer a' (SaveStudentTrackerItem e (admin_owner it') (ap_DB a')))))"
    if o: "enforce_owner e (ap_DB a') s it = Some it'" for it it'
  proof (cases "SaveStudentTrackerItem e (admin_owner it') (ap_DB a')")
    case (Some x)
    obtain j db' where x: "x = (j, db')" by (cases x)
    note c = enforce_owner_cases [OF o]
    have "keeps_others (ss_EntityID s) (ap_DB a) db'"
    proof (rule keeps_save)
      show "SaveTaskItem e ((admin_owner it')\<lparr>tk_Scope := ScopePersonal\<rparr>) (ap_DB a) = Some (j, db')"
        using Some x DB by (simp add: SaveStudentTrackerItem_def)
      show "tk_ID ((admin_owner it')\<lparr>tk_Scope := ScopePersonal\<rparr>) \<le> 0 \<Longrightarrow>
          tk_CreatedBy ((admin_owner it')\<lparr>tk_Scope := ScopePersonal\<rparr>) = ss_EntityID s"
        using c s(2) by simp
      fix t
      assume t: "t \<in> set (tb_rows (db_tasks (ap_DB a)))" "ti_id t = tk_ID ((admin_owner it')\<lparr>tk_Scope := ScopePersonal\<rparr>)"
      then have pos: "0 < tk_ID it" using k c(1) by (auto simp: keys_ok_def)
      then have "creator_of e (ap_DB a) (tk_ID it) = Some (ss_EntityID s)"
        using c(2) s(2) DB by (cases "creator_of e (ap_DB a) (tk_ID it)") auto
      from creator_of_row [OF k this t(1)] show "ti_created_by t = ss_EntityID s" using t(2) c(1) by simp
    qed
    then show ?thesis using Some x by (simp add: saved_answer_DB)
  qed (simp add: saved_answer_DB DB)
  then show ?thesis
    by (auto simp: HandleStudentTrackerItems_def g DB bound_by_session [OF s(1)] Let_def split: option.split)
qed

lemma personal_delete_keeps:
  assumes g: "GetSession e r a = (Some s, a')" and s: "ss_Role s \<noteq> ''admin''" and f: "\<not> ev_faults e Q_tasks"
    and k: "keys_ok ti_id (db_tasks (ap_DB a))"
  shows "keeps_others (ss_EntityID s) (ap_DB a) (ap_DB (snd (HandleStudentTrackerItemDelete e r q a)))"
proof -
  have DB: "ap_DB a' = ap_DB a" using GetSession_DB [of e r a] g by simp
  have "keeps_others (ss_EntityID s) (ap_DB a) db'"
    if "DeleteTaskItem e i who (ap_DB a) = Some db'" "creator_of e (ap_DB a) i \<in> {None, Some (ss_EntityID s)}" for i who db'
    using that(1)
  proof (rule keeps_delete)
    fix t
    assume "t \<in> set (tb_rows (db_tasks (ap_DB a)))" "ti_id t = i"
    then show "ti_created_by t = ss_EntityID s"
      using that(2) creator_of_none [OF _ f] creator_of_row [OF k] by auto
  qed
  then show ?thesis
    by (auto simp: HandleStudentTrackerItemDelete_def g DB bound_by_session [OF s] finish_db_DB split: option.split)
qed

lemma assign_keeps:
  assumes g: "GetSession e r a = (Some s, a')" and s: "ss_Role s \<noteq> ''admin''"
    and k: "keys_ok ti_id (db_tasks (ap_DB a))"
  shows "keeps_others (ss_EntityID s) (ap_DB a) (ap_DB (snd (HandleAssignLibraryItem e r q a)))"
proof -
  have DB: "ap_DB a' = ap_DB a" using GetSession_DB [of e r a] g by simp
  {
    fix row ids db
    assume row: "row \<in> set (tb_rows (db_tasks (ap_DB a)))" "ti_created_by row = ss_EntityID s"
      and b: "BulkCreateTaskItems e ids (copied_item (scanTaskItem row)) (ap_DB a) = Some db"
    have one: "keeps_others (ss_EntityID s) (ap_DB a) db"
      using keeps_bulk [OF b] row(2) by (simp add: copied_item_def scanTaskItem_def)
    have "keeps_others (ss_EntityID s) db db'" if "DeleteTaskItem e (ti_id row) who db = Some db'" for who db'
      using that
    proof (rule keeps_delete)
      fix t
      assume t: "t \<in> set (tb_rows (db_tasks db))" "ti_id t = ti_id row"
      then have "t \<in> set (tb_rows (db_tasks (ap_DB a)))"
        using bulk_old_ids [OF b k t(1)] row(1) k by (auto simp: keys_ok_def)
      then show "ti_created_by t = ss_EntityID s" using task_tab.same_key [OF k _ row(1) t(2)] row(2) by simp
    qed
    note one keeps_trans [OF one this]
  } note * = this
  have src: "tk_CreatedBy (scanTaskItem row) = ti_created_by row" "tk_ID (scanTaskItem row) = ti_id row" for row
    by (simp_all add: scanTaskItem_def)
  show ?thesis
    by (auto simp: HandleAssignLibraryItem_def g DB bound_by_session [OF s] src Let_def split: option.split
      dest!: find_Some_iff_mem intro: *)
qed

lemma bulk_assign_keeps:
  assumes g: "GetSession e r a = (Some s, a')"
  shows "keeps_others (ss_EntityID s) (ap_DB a) (ap_DB (snd (HandleTrackerBulkAssign e r q a)))"
proof -
  have DB: "ap_DB a' = ap_DB a" using GetSession_DB [of e r a] g by simp
  have "keeps_others (ss_EntityID s) (ap_DB a) db" if "BulkCreateTaskItems e ids (bulk_item s q') (ap_DB a) = Some db" for ids q' db
    using keeps_bulk [OF that] by (simp add: bulk_item_def)
  then show ?thesis
    by (auto simp: HandleTrackerBulkAssign_def g DB Let_def split: option.split)
qed

text \<open>Requests that leave the items alone.\<close>

lemma insert_response_tasks: "insert_response e x db = Some db' \<Longrightarrow> db_tasks db' = db_tasks db"
  by (auto simp: insert_response_def split: if_splits)

lemma insert_responses_tasks: "insert_responses e sid name i ps db = Some db' \<Longrightarrow> db_tasks db' = db_tasks db"
  by (induction ps arbitrary: db) (auto simp: Let_def dest: insert_response_tasks split: option.splits)

lemma SaveTrackerResponses_tasks: "SaveTrackerResponses pick e sid name ps db = Some (n, db') \<Longrightarrow> db_tasks db' = db_tasks db"
  by (auto simp: SaveTrackerResponses_def check_out_rows_def case_prod_beta Let_def
      dest: insert_responses_tasks split: if_splits option.splits)

lemma ValidatePIN_tasks: "db_tasks (ap_DB (snd (ValidatePIN e sid pin a))) = db_tasks (ap_DB a)"
  by (auto simp: ValidatePIN_def EnsureDailyPIN_def EnsureDailyStudentPin_def GenerateStudentPin_def update_student_def
      Let_def split_beta split: option.split prod.split)

lemma respond_tasks: "db_tasks (ap_DB (snd (HandleTrackerRespond pick e r q a))) = db_tasks (ap_DB a)"
proof (cases q)
  case (Some x)
  obtain name sid where ns: "resolve_student (ap_DB a) (rr_StudentName x) (rr_StudentID x) = (name, sid)" by fastforce
  obtain err a1 where v: "ValidatePIN e sid (rr_PIN x) a = (err, a1)" by fastforce
  have "db_tasks (ap_DB a1) = db_tasks (ap_DB a)" using ValidatePIN_tasks [of e sid "rr_PIN x" a] v by simp
  then show ?thesis
    by (auto simp: HandleTrackerRespond_def Some ns v Let_def dest: SaveTrackerResponses_tasks split: option.split)
qed (simp add: HandleTrackerRespond_def)

lemma late_tasks: "db_tasks (ap_DB (snd (HandleLateSignoff e r q a))) = db_tasks (ap_DB a)"
proof -
  have l: "SaveLateSignoff e sid due i status nts db = Some db' \<Longrightarrow> db_tasks db' = db_tasks db" for sid due i status nts db db'
    by (auto simp: SaveLateSignoff_def Let_def split_beta dest: insert_response_tasks)
  obtain s b where "GetSession e r a = (s, b)" by fastforce
  moreover from this have "ap_DB b = ap_DB a" using GetSession_DB [of e r a] by simp
  ultimately show ?thesis
    by (auto simp: HandleLateSignoff_def Let_def finish_db_DB dest: l split: option.split)
qed

text \<open>Completing marks an item, whoever created it, and leaves the rest of it.\<close>

definition unmarked :: "task_row \<Rightarrow> task_row" where
  "unmarked t = t\<lparr>ti_completed := 0, ti_completed_at := None, ti_completed_by := None\<rparr>"

lemma mark_only:
  assumes "\<And>t. unmarked (f t) = unmarked t"
  shows "map unmarked (tb_rows (db_tasks (on_tasks (update_tab P f) db))) = map unmarked (tb_rows (db_tasks db))"
  using assms by (simp add: on_tasks_def update_where_def)

lemma complete_unmarked:
  "CompleteTaskItem e i who db = Some db' \<Longrightarrow> map unmarked (tb_rows (db_tasks db')) = map unmarked (tb_rows (db_tasks db))"
proof -
  let ?db = "on_tasks (update_tab (\<lambda>r. ti_id r = i)
     (\<lambda>r. r\<lparr>ti_completed := 1, ti_completed_at := Some (ev_now e), ti_completed_by := Some who\<rparr>)) db"
  assume "CompleteTaskItem e i who db = Some db'"
  then have "db_tasks db' = db_tasks ?db"
    by (auto simp: CompleteTaskItem_def Let_def dest: insert_response_tasks split: if_splits option.splits)
  then show ?thesis by (simp only:) (rule mark_only, simp add: unmarked_def)
qed

lemma uncomplete_unmarked:
  "UncompleteTaskItem e i db = Some db' \<Longrightarrow> map unmarked (tb_rows (db_tasks db')) = map unmarked (tb_rows (db_tasks db))"
proof -
  let ?db = "on_tasks (update_tab (\<lambda>r. ti_id r = i)
     (\<lambda>r. r\<lparr>ti_completed := 0, ti_completed_at := None, ti_completed_by := None\<rparr>)) db"
  assume "UncompleteTaskItem e i db = Some db'"
  then have "db_tasks db' = db_tasks ?db" by (auto simp: UncompleteTaskItem_def split: if_splits)
  then show ?thesis by (simp only:) (rule mark_only, simp add: unmarked_def)
qed

lemma completing_marks:
  "map unmarked (tb_rows (db_tasks (ap_DB (snd (HandleTrackerComplete order e r q a))))) = map unmarked (tb_rows (db_tasks (ap_DB a)))"
proof (cases q)
  case (Some x)
  obtain i c where x: "x = (i, c)" by fastforce
  obtain s b where "GetSession e r a = (s, b)" by fastforce
  moreover from this have "ap_DB b = ap_DB a" using GetSession_DB [of e r a] by simp
  ultimately show ?thesis
    by (auto simp: HandleTrackerComplete_def Some x Let_def finish_db_DB dest: complete_unmarked uncomplete_unmarked
        simp del: map_map split: option.split)
qed (simp add: HandleTrackerComplete_def)

lemma keeps_same_tasks: "db_tasks db' = db_tasks db \<Longrightarrow> keeps_others c db db'"
  by (simp add: keeps_others_def)

text \<open>
  C30. What a session that is not an admin's, of a person with an identifier, changes through the item
  handlers outside the admin routes, when the query for an item's creator answers (only deleting depends on it):
  completing an item, whoever created it, and taking that back leave all but its three completion columns;
  every other request changes only the items the person created: each other item is still there
  unchanged, and each item that is new or changed carries the person as its creator.
\<close>

theorem only_creators_change_items:
  assumes "GetSession e r a = (Some s, a')" "ss_Role s \<noteq> ''admin''" "ss_EntityID s \<noteq> []"
    and "keys_ok ti_id (db_tasks (ap_DB a))" "\<forall>q i. c \<noteq> CCenter q \<and> c \<noteq> CCenterDelete i"
    and "\<forall>i. c = CPersonalDelete i \<longrightarrow> \<not> ev_faults e Q_tasks"
  shows "if \<exists>q. c = CComplete q
    then map unmarked (tb_rows (db_tasks (ap_DB (snd (serve_task pick order e r c a))))) = map unmarked (tb_rows (db_tasks (ap_DB a)))
    else keeps_others (ss_EntityID s) (ap_DB a) (ap_DB (snd (serve_task pick order e r c a)))"
proof (cases c)
  case (CRespond q)
  then show ?thesis using keeps_same_tasks [OF respond_tasks] by simp
next
  case (CLate q)
  then show ?thesis using keeps_same_tasks [OF late_tasks] by simp
next
  case (CPersonal q)
  then show ?thesis using personal_keeps [OF assms(1-4)] by simp
next
  case (CPersonalDelete q)
  then show ?thesis using personal_delete_keeps [OF assms(1,2) _ assms(4)] assms(6) by simp
next
  case (CComplete q)
  then show ?thesis using completing_marks by simp
next
  case (CBulk q)
  then show ?thesis using bulk_assign_keeps [OF assms(1)] by simp
next
  case (CAssign q)
  then show ?thesis using assign_keeps [OF assms(1,2,4)] by simp
qed (use assms(5) in auto)

lemma GetDueItems_rows:
  assumes "GetDueItems e db sid date = Some items" "it \<in> set items"
  obtains t where "t \<in> set (tb_rows (db_tasks db))" "ti_id t = di_ItemID it" "ti_deleted t = 0"
proof -
  obtain d ds where "items = map due_item_of (filter (due_row e db sid d ds) (tb_rows (db_tasks db)))"
    using assms(1) unfolding GetDueItems_def Let_def split_beta by (cases "ev_faults e Q_tasks") auto
  then obtain t where t: "t \<in> set (tb_rows (db_tasks db))" "due_row e db sid d ds t" "it = due_item_of t"
    using assms(2) by auto
  from t(2) have "ti_deleted t = 0" unfolding due_row_def due_window_def by blast
  with t show thesis by (intro that) (simp_all add: due_item_of_def)
qed

lemma delete_without_session:
  assumes "rq_Method r = ''POST''" "GetSession e r a = (None, a)" "DeleteTaskItem e i ''admin'' (ap_DB a) = Some db"
  shows "HandleStudentTrackerItemDelete e r (Some i) a = (ok_answer, a\<lparr>ap_DB := db\<rparr>)"
  unfolding HandleStudentTrackerItemDelete_def finish_db_def
  by (simp only: assms(1) Let_def option.case if_False simp_thms)
    (simp only: assms(2,3) prod.case option.case bound_by_def if_False)

text \<open>
  C39. Without a session nothing is checked: a visitor who is not logged in deletes any item, the center's
  required ones too, and it is never due again for anybody, so that it holds no check-out back.
\<close>

theorem anyone_deletes_items:
  assumes "rq_Method r = ''POST''" "GetSessionToken r = []" "\<not> ev_faults e U_task"
  shows "answers_ok (fst (HandleStudentTrackerItemDelete e r (Some i) a))
    \<and> (\<forall>e' studentID date items.
          GetDueItems e' (ap_DB (snd (HandleStudentTrackerItemDelete e r (Some i) a))) studentID date = Some items
          \<longrightarrow> i \<notin> di_ItemID ` set items)"
proof -
  let ?db = "on_tasks (update_tab (\<lambda>r. ti_id r = i)
     (\<lambda>r. r\<lparr>ti_deleted := 1, ti_deleted_at := Some (ev_now e), ti_deleted_by := Some ''admin''\<rparr>)) (ap_DB a)"
  have h: "HandleStudentTrackerItemDelete e r (Some i) a = (ok_answer, a\<lparr>ap_DB := ?db\<rparr>)"
  proof (rule delete_without_session [OF assms(1)])
    show "GetSession e r a = (None, a)" unfolding GetSession_def assms(2) by (rule if_P) (rule refl)
    show "DeleteTaskItem e i ''admin'' (ap_DB a) = Some ?db" unfolding DeleteTaskItem_def by (rule if_not_P) (rule assms(3))
  qed
  have del: "ti_deleted t = 1" if t: "t \<in> set (tb_rows (db_tasks ?db))" "ti_id t = i" for t
  proof -
    obtain x where "t = (if ti_id x = i then x\<lparr>ti_deleted := 1, ti_deleted_at := Some (ev_now e), ti_deleted_by := Some ''admin''\<rparr> else x)"
      using t(1) unfolding on_tasks_simps update_tab_simps set_update_where by (elim imageE) blast
    then show ?thesis using t(2) by (cases "ti_id x = i") simp_all
  qed
  have "i \<notin> di_ItemID ` set items" if g: "GetDueItems e' ?db studentID date = Some items" for e' studentID date items
  proof
    assume "i \<in> di_ItemID ` set items"
    then obtain it where it: "it \<in> set items" "di_ItemID it = i" by auto
    obtain t where "t \<in> set (tb_rows (db_tasks ?db))" "ti_id t = di_ItemID it" "ti_deleted t = 0"
      by (rule GetDueItems_rows [OF g it(1)])
    with it(2) show False using del [of t] by simp
  qed
  moreover have "answers_ok ok_answer" by (simp add: ok_answer_def answers_ok_def)
  moreover have "ap_DB (snd (ok_answer, a\<lparr>ap_DB := ?db\<rparr>)) = ?db" "fst (ok_answer, a\<lparr>ap_DB := ?db\<rparr>) = ok_answer" by simp_all
  ultimately show ?thesis unfolding h by (simp only: simp_thms) blast
qed

section \<open>Examples\<close>

definition visitor_app :: app where
  "visitor_app = demo_app\<lparr>ap_DB := reading_db, ap_Sessions := two_sessions\<rparr>"

definition cookie_request :: request where
  "cookie_request = post_request\<lparr>rq_Cookie := Some ''cookie''\<rparr>"

lemma reading_fields: "ti_id reading = 1" "ti_created_by reading = ''admin''" "ti_deleted reading = 0" "typed_task reading"
  by (simp_all add: reading_def mk_task_def task_row_of_def blank_item_def typed_task_def)

lemma reading_tables: "tables_typed reading_db" "tb_rows (db_tasks reading_db) = [reading]" "keys_ok ti_id (db_tasks reading_db)"
  by (simp_all add: tables_typed_def reading_db_def keys_ok_def empty_db_def empty_tab_def reading_fields)

lemma task_tables_stay_typed_witness:
  "tables_typed (ap_DB (snd (serve_task hd id (demo_env noon) cookie_request (CPersonal (Some (blank_item, None))) visitor_app)))"
  by (rule task_tables_stay_typed [OF task_run.serve [OF task_run.start]])
    (simp add: visitor_app_def reading_tables)

lemma visitor_session:
  "\<exists>s b. GetSession (demo_env 0) cookie_request visitor_app = (Some s, b) \<and> ss_Role s = ''user'' \<and> ss_EntityID s = ''S001''"
  by (simp add: GetSession_def GetSessionToken_def cookie_request_def post_request_def Sessions_Get_def on_sessions_def
      Get_def visitor_app_def two_sessions_at demo_env_def SessionMaxAge_def syncActive_def in_range_def Let_def)

lemma only_creators_change_items_witness:
  "reading \<in> set (tb_rows (db_tasks (ap_DB (snd (HandleStudentTrackerItemDelete (demo_env 0) cookie_request (Some 1) visitor_app)))))"
proof -
  obtain s b where s: "GetSession (demo_env 0) cookie_request visitor_app = (Some s, b)" "ss_Role s = ''user''" "ss_EntityID s = ''S001''"
    using visitor_session by blast
  have "ap_DB visitor_app = reading_db" by (simp add: visitor_app_def)
  then have "keeps_others ''S001'' reading_db (ap_DB (snd (serve_task hd id (demo_env 0) cookie_request (CPersonalDelete (Some 1)) visitor_app)))"
    using only_creators_change_items [OF s(1), of "CPersonalDelete (Some 1)" hd id] s(2,3) reading_tables(3)
    by (simp add: demo_env_def del: serve_task.simps)
  then show ?thesis by (simp add: keeps_others_def reading_tables(2) reading_fields)
qed

lemma anyone_deletes_items_witness:
  "answers_ok (fst (HandleStudentTrackerItemDelete (demo_env noon) post_request (Some 1) visitor_app))
   \<and> (\<exists>t. tb_rows (db_tasks (ap_DB (snd (HandleStudentTrackerItemDelete (demo_env noon) post_request (Some 1) visitor_app)))) = [t]
        \<and> ti_deleted t = 1)"
proof -
  have "answers_ok (fst (HandleStudentTrackerItemDelete (demo_env noon) post_request (Some 1) visitor_app))"
    using anyone_deletes_items [of post_request "demo_env noon" 1 visitor_app]
    by (simp add: post_request_def GetSessionToken_def demo_env_def)
  then show ?thesis
    by (simp add: HandleStudentTrackerItemDelete_def GetSession_def GetSessionToken_def post_request_def bound_by_def finish_db_def
        DeleteTaskItem_def demo_env_def visitor_app_def on_tasks_def reading_tables update_where_def reading_fields)
qed

end
