(* ===== verification/Progress.thy ===== *)
theory Progress
  imports TaskHandlers
begin

text \<open>
  The progress statistics: how many sign-offs are expected of a student in a range of days and how many
  were made (\<open>internal/database/tracker.go\<close>), and the handlers that show them, one with a cache per
  student (\<open>internal/handlers/tracker.go\<close>). The completion percentage, a float computed from the
  two counts for display, is left out. The name in a group of responses is one of the group's, the choice
  \<open>pick\<close> of the engine.
\<close>

section \<open>Expected sign-offs\<close>

record item_dates =
  dt_StartDate :: string
  dt_EndDate :: string
  dt_Recurrence :: string

definition isActiveOnDate :: "item_dates \<Rightarrow> int \<Rightarrow> bool" where
  "isActiveOnDate it d =
     (let ds = fmt_date d in
      if dt_StartDate it \<noteq> [] \<and> ds < dt_StartDate it then False
      else if dt_EndDate it \<noteq> [] \<and> dt_EndDate it < ds then False
      else True)"

text \<open>The loops over the days of the range: counting days, or periods not seen before, and finding one day.\<close>

function day_loop_count :: "(int \<Rightarrow> bool) \<Rightarrow> int \<Rightarrow> int \<Rightarrow> int \<Rightarrow> int" where
  "day_loop_count act d rangeEnd n =
     (if rangeEnd < d then n else day_loop_count act (d + 1) rangeEnd (if act d then n + 1 else n))"
  by pat_completeness auto
termination by (relation "measure (\<lambda>(act, d, e, c). nat (e + 1 - d))") auto

function seen_loop :: "(int \<Rightarrow> bool) \<Rightarrow> (int \<Rightarrow> string) \<Rightarrow> int \<Rightarrow> int \<Rightarrow> string list \<Rightarrow> int \<Rightarrow> int" where
  "seen_loop act key d rangeEnd seen n =
     (if rangeEnd < d then n
      else if key d \<notin> set seen \<and> act d then seen_loop act key (d + 1) rangeEnd (key d # seen) (n + 1)
      else seen_loop act key (d + 1) rangeEnd seen n)"
  by pat_completeness auto
termination by (relation "measure (\<lambda>(act, k, d, e, s, c). nat (e + 1 - d))") auto

function any_loop :: "(int \<Rightarrow> bool) \<Rightarrow> int \<Rightarrow> int \<Rightarrow> int" where
  "any_loop act d rangeEnd = (if rangeEnd < d then 0 else if act d then 1 else any_loop act (d + 1) rangeEnd)"
  by pat_completeness auto
termination by (relation "measure (\<lambda>(act, d, e). nat (e + 1 - d))") auto

declare day_loop_count.simps [simp del] seen_loop.simps [simp del] any_loop.simps [simp del]

definition week_key :: "int \<Rightarrow> string" where
  "week_key d = (let (yr, wk) = iso_week d in itoa yr @ ''-'' @ itoa wk)"

definition countExpectedForItem :: "item_dates \<Rightarrow> int \<Rightarrow> int \<Rightarrow> int" where
  "countExpectedForItem it rangeStart rangeEnd =
     (if dt_Recurrence it = ''daily'' then day_loop_count (isActiveOnDate it) rangeStart rangeEnd 0
      else if dt_Recurrence it = ''weekly'' then seen_loop (isActiveOnDate it) week_key rangeStart rangeEnd [] 0
      else if dt_Recurrence it = ''monthly'' then seen_loop (isActiveOnDate it) fmt_month rangeStart rangeEnd [] 0
      else if dt_Recurrence it = ''none'' then any_loop (isActiveOnDate it) rangeStart rangeEnd
      else 0)"

section \<open>Statistics\<close>

definition dates_of :: "task_row \<Rightarrow> item_dates" where
  "dates_of t = \<lparr>dt_StartDate = coalesce (ti_start_date t), dt_EndDate = coalesce (ti_end_date t), dt_Recurrence = ti_recurrence t\<rparr>"

definition counted_item :: "task_row \<Rightarrow> bool" where
  "counted_item t \<longleftrightarrow> ti_active t = 1 \<and> ti_deleted t = 0 \<and> ti_type t = ''todo''"

definition expected_sum :: "(task_row \<Rightarrow> bool) \<Rightarrow> int \<Rightarrow> int \<Rightarrow> classdb \<Rightarrow> int" where
  "expected_sum P rangeStart rangeEnd db =
     sum_list (map (\<lambda>t. countExpectedForItem (dates_of t) rangeStart rangeEnd) (filter (\<lambda>t. P t \<and> counted_item t) (tb_rows (db_tasks db))))"

text \<open>The responses of a student in the range to items that need a sign-off.\<close>

definition counted_responses :: "string \<Rightarrow> string \<Rightarrow> string \<Rightarrow> classdb \<Rightarrow> response_row list" where
  "counted_responses startDate endDate sid db =
     filter (\<lambda>x. tr_student_id x = sid \<and> startDate \<le> tr_response_date x \<and> tr_response_date x \<le> endDate
        \<and> (case task_by_id db (tr_item_id x) of None \<Rightarrow> ''task'' | Some t \<Rightarrow> ti_type t) = ''todo'') (tb_rows (db_responses db))"

definition done_count :: "response_row list \<Rightarrow> int" where
  "done_count xs = sum_list (map (\<lambda>x. if tr_status x = ''done'' then 1 else 0) xs)"

definition progress_name :: "(response_row list \<Rightarrow> response_row) \<Rightarrow> env \<Rightarrow> response_row list \<Rightarrow> string \<Rightarrow> classdb \<Rightarrow> string" where
  "progress_name pick e xs sid db =
     (let name = (if ev_faults e Q_student then [] else student_full_name db sid)
      in if name \<noteq> [] then name else if xs = [] then [] else tr_student_name (pick xs))"

definition student_stats ::
  "(response_row list \<Rightarrow> response_row) \<Rightarrow> env \<Rightarrow> string \<Rightarrow> string \<Rightarrow> int \<Rightarrow> int \<Rightarrow> classdb \<Rightarrow> string \<Rightarrow> progress_stats" where
  "student_stats pick e startDate endDate rangeStart rangeEnd db sid =
     (let total = expected_sum (\<lambda>t. ti_scope t = 1) rangeStart rangeEnd db
                + expected_sum (\<lambda>t. ti_scope t = 3 \<and> ti_student_id t = Some sid) rangeStart rangeEnd db;
          xs = counted_responses startDate endDate sid db;
          done = (if total < done_count xs then total else done_count xs)
      in \<lparr>ps_StudentID = sid, ps_StudentName = progress_name pick e xs sid db, ps_TotalItems = total,
          ps_DoneCount = done, ps_NotDone = total - done\<rparr>)"

text \<open>\<open>None\<close> is an error: a date that does not parse, or a failed query.\<close>

definition GetProgressStats ::
  "(response_row list \<Rightarrow> response_row) \<Rightarrow> env \<Rightarrow> classdb \<Rightarrow> string list \<Rightarrow> string \<Rightarrow> string \<Rightarrow> progress_stats list option" where
  "GetProgressStats pick e db studentIDs startDate endDate =
     (if studentIDs = [] then Some []
      else case parse_date startDate of
        None \<Rightarrow> None
      | Some rangeStart \<Rightarrow>
          (case parse_date endDate of
             None \<Rightarrow> None
           | Some rangeEnd \<Rightarrow>
               if ev_faults e Q_tasks \<or> ev_faults e Q_responses then None
               else Some (map (student_stats pick e startDate endDate rangeStart rangeEnd db) studentIDs)))"

section \<open>Handlers\<close>

definition stats_json :: "progress_stats \<Rightarrow> jval" where
  "stats_json s = JObj [(''student_id'', JStr (ps_StudentID s)), (''student_name'', JStr (ps_StudentName s)),
     (''total_items'', JInt (ps_TotalItems s)), (''done_count'', JInt (ps_DoneCount s)), (''not_done_count'', JInt (ps_NotDone s))]"

definition range_start :: "env \<Rightarrow> request \<Rightarrow> string" where
  "range_start e r = (let s = rq_Query r ''start_date'' in if s = [] then fmt_date (day_part (ev_now e) - 7) else s)"

definition range_end :: "env \<Rightarrow> request \<Rightarrow> string" where
  "range_end e r = (let s = rq_Query r ''end_date'' in if s = [] then today e else s)"

definition own_students :: "(string list \<Rightarrow> string list) \<Rightarrow> env \<Rightarrow> classdb \<Rightarrow> session option \<Rightarrow> string list" where
  "own_students order e db sess =
     (case sess of
        None \<Rightarrow> []
      | Some s \<Rightarrow>
          if ss_UserType s = ''teacher'' then teacher_ids order e db (ss_EntityID s)
          else if ss_UserType s = ''parent'' then parent_ids e db (ss_EntityID s)
          else if ss_UserType s = ''student'' then [ss_EntityID s] else [])"

text \<open>A student named in the query is taken as it is, whoever asks.\<close>

definition HandleTrackerProgress ::
  "(response_row list \<Rightarrow> response_row) \<Rightarrow> (string list \<Rightarrow> string list) \<Rightarrow> env \<Rightarrow> request \<Rightarrow> app \<Rightarrow> response \<times> app" where
  "HandleTrackerProgress pick order e r a =
     (let studentID = rq_Query r ''student_id'';
          (studentIDs, a) = (if studentID \<noteq> [] then ([studentID], a)
             else let (sess, a) = GetSession e r a in (own_students order e (ap_DB a) sess, a))
      in if studentIDs = [] then (answer_json 200 (JArr []), a)
         else case GetProgressStats pick e (ap_DB a) studentIDs (range_start e r) (range_end e r) of
           None \<Rightarrow> (db_error, a)
         | Some stats \<Rightarrow> (answer_json 200 (JArr (map stats_json stats)), a))"

text \<open>The sort by exchange: for every position, every later element that is smaller is swapped in.\<close>

definition exchange :: "nat \<Rightarrow> nat \<Rightarrow> progress_stats list \<Rightarrow> progress_stats list" where
  "exchange i j xs = (if ps_StudentName (xs ! j) < ps_StudentName (xs ! i) then xs[i := xs ! j, j := xs ! i] else xs)"

definition exchange_sort :: "progress_stats list \<Rightarrow> progress_stats list" where
  "exchange_sort xs = fold (\<lambda>i ys. fold (exchange i) [Suc i..<length xs] ys) [0..<length xs] xs"

text \<open>The first part of the summary: a new range, or the wish for it, empties the cache.\<close>

definition reset_cache :: "bool \<Rightarrow> string \<Rightarrow> string \<Rightarrow> app \<Rightarrow> app" where
  "reset_cache refresh startDate endDate a =
     (if refresh \<or> (ap_progressStart a \<noteq> startDate \<or> ap_progressEnd a \<noteq> endDate) \<or> ap_progressCache a = None
      then a\<lparr>ap_progressCache := None, ap_progressStart := startDate, ap_progressEnd := endDate\<rparr> else a)"

definition cache_map :: "app \<Rightarrow> (string \<rightharpoonup> progress_stats)" where
  "cache_map a = (case ap_progressCache a of None \<Rightarrow> Map.empty | Some m \<Rightarrow> m)"

definition zero_stats :: "string \<Rightarrow> progress_stats" where
  "zero_stats sid = \<lparr>ps_StudentID = sid, ps_StudentName = [], ps_TotalItems = 0, ps_DoneCount = 0, ps_NotDone = 0\<rparr>"

definition store_stats :: "progress_stats list \<Rightarrow> string list \<Rightarrow> app \<Rightarrow> app" where
  "store_stats stats missingIDs a =
     (let m = fold (\<lambda>s m. m(ps_StudentID s \<mapsto> s)) stats (cache_map a);
          computed = map ps_StudentID stats;
          m = fold (\<lambda>i m. if i \<notin> set computed then m(i \<mapsto> zero_stats i) else m) missingIDs m
      in a\<lparr>ap_progressCache := Some m\<rparr>)"

definition HandleAdminProgressSummary ::
  "(response_row list \<Rightarrow> response_row) \<Rightarrow> env \<Rightarrow> request \<Rightarrow> app \<Rightarrow> response \<times> app" where
  "HandleAdminProgressSummary pick e r a =
     (let startDate = range_start e r; endDate = range_end e r; refresh = (rq_Query r ''refresh'' = ''true'');
          a = reset_cache refresh startDate endDate a
      in if ev_faults e Q_people then (db_error, a)
         else let allIDs = GetAllActiveStudentIDs (ap_DB a);
                  missingIDs = filter (\<lambda>i. cache_map a i = None) allIDs
              in case (if missingIDs = [] then Some a
                       else map_option (\<lambda>stats. store_stats stats missingIDs a)
                              (GetProgressStats pick e (ap_DB a) missingIDs startDate endDate)) of
                   None \<Rightarrow> (db_error, a)
                 | Some a \<Rightarrow> (answer_json 200 (JArr (map stats_json (exchange_sort (List.map_filter (cache_map a) allIDs)))), a))"

end
