(* ===== verification/ProgressFacts.thy ===== *)
theory ProgressFacts
  imports Progress TaskRights
begin

text \<open>
  What the progress statistics say: the number of periods in which an item is expected, and when the cached
  summary shows what a fresh computation would.
\<close>

section \<open>Counting\<close>

lemma days_step:
  "s \<le> e \<Longrightarrow> {d. s \<le> d \<and> d \<le> e \<and> P d} = (if P s then insert s {d. s + 1 \<le> d \<and> d \<le> e \<and> P d} else {d. s + 1 \<le> d \<and> d \<le> e \<and> P d})"
  for s :: int
  by (auto simp: order.order_iff_strict)

lemma days_finite [simp]: "finite {d. s \<le> d \<and> d \<le> e \<and> P d}" for s :: int
  by (rule finite_subset [of _ "{s..e}"]) auto

lemma days_empty: "e < s \<Longrightarrow> {d. s \<le> d \<and> d \<le> e \<and> P d} = {}" for s :: int
  by auto

lemma day_loop_count_card: "day_loop_count act s e n = n + int (card {d. s \<le> d \<and> d \<le> e \<and> act d})"
proof (induction act s e n rule: day_loop_count.induct)
  case (1 act d e n)
  show ?case
  proof (cases "e < d")
    case False
    have "d \<notin> {x. d + 1 \<le> x \<and> x \<le> e \<and> act x}" by simp
    then show ?thesis
      using 1 [OF False] False days_step [of d e act] by (simp add: day_loop_count.simps [of act d e n])
  qed (simp add: day_loop_count.simps [of act d e n] days_empty)
qed

lemma seen_loop_card:
  "seen_loop act key s e seen n = n + int (card (key ` {d. s \<le> d \<and> d \<le> e \<and> act d} - set seen))"
proof (induction act key s e seen n rule: seen_loop.induct)
  case (1 act key d e seen n)
  show ?case
  proof (cases "e < d")
    case False
    let ?A = "{x. d + 1 \<le> x \<and> x \<le> e \<and> act x}"
    show ?thesis
    proof (cases "key d \<notin> set seen \<and> act d")
      case True
      then have "key ` {x. d \<le> x \<and> x \<le> e \<and> act x} - set seen = insert (key d) (key ` ?A - set (key d # seen))"
        using False days_step [of d e act] by auto
      then have "card (key ` {x. d \<le> x \<and> x \<le> e \<and> act x} - set seen) = Suc (card (key ` ?A - set (key d # seen)))"
        by simp
      then show ?thesis
        using 1(1) [OF False True] True False by (simp add: seen_loop.simps [of act key d e seen n])
    next
      case no: False
      then have "key ` {x. d \<le> x \<and> x \<le> e \<and> act x} - set seen = key ` ?A - set seen"
        using False days_step [of d e act] by auto
      then show ?thesis
        using 1(2) [OF False no] False by (simp only: seen_loop.simps [of act key d e seen n] no if_False)
    qed
  qed (simp add: seen_loop.simps [of act key d e seen n] days_empty)
qed

lemma any_loop_ex: "any_loop act s e = (if \<exists>d. s \<le> d \<and> d \<le> e \<and> act d then 1 else 0)"
proof (induction act s e rule: any_loop.induct)
  case (1 act d e)
  show ?case
  proof (cases "e < d \<or> act d")
    case False
    have "(\<exists>x. d \<le> x \<and> x \<le> e \<and> act x) \<longleftrightarrow> (\<exists>x. d + 1 \<le> x \<and> x \<le> e \<and> act x)"
      using False by (metis add1_zle_eq order.order_iff_strict)
    then show ?thesis using 1 False by (simp add: any_loop.simps [of act d e])
  qed (auto simp: any_loop.simps [of act d e])
qed

lemma itoa_no_hyphen: "0 \<le> n \<Longrightarrow> CHR ''-'' \<notin> set (itoa n)"
  using dec_digits [of "nat n"] by (auto simp: itoa_dec is_digit_def)

lemma itoa_inject: "itoa m = itoa n \<longleftrightarrow> m = n"
proof
  assume eq: "itoa m = itoa n"
  have neg: "itoa k = CHR ''-'' # itoa (- k)" if "k < 0" for k using that by (simp add: itoa.simps [of k])
  have pos: "hd (itoa k) \<noteq> CHR ''-''" if "0 \<le> k" for k
    using itoa_no_hyphen [OF that] hd_in_set [of "itoa k"] that by (metis dec_nonempty itoa_dec)
  have nat: "m = n" if "itoa m = itoa n" "0 \<le> m" "0 \<le> n" for m n using that by (simp add: itoa_dec)
  show "m = n"
  proof (cases "m < 0")
    case True
    then have "n < 0" using eq neg [OF True] pos [of n] by (metis list.sel(1) not_less)
    then show ?thesis using True eq neg nat [of "- m" "- n"] by simp
  next
    case False
    then have "\<not> n < 0" using eq neg [of n] pos [of m] by (metis list.sel(1) not_less)
    then show ?thesis using False eq nat by simp
  qed
qed simp

text \<open>Two days have the same week key exactly when they are in the same week from Monday to Sunday.\<close>

lemma week_key_eq_iff: "week_key a = week_key b \<longleftrightarrow> a div 7 = b div 7"
proof
  obtain y w y' w' where i: "iso_week a = (y, w)" "iso_week b = (y', w')" by fastforce
  have w: "0 \<le> w" "0 \<le> w'"
    using i yday_bounds(1) by (auto simp: iso_week_alt pos_imp_zdiv_nonneg_iff add_nonneg_nonneg)
  assume "week_key a = week_key b"
  then have "rev (itoa y @ CHR ''-'' # itoa w) = rev (itoa y' @ CHR ''-'' # itoa w')"
    by (simp add: week_key_def i)
  then have *: "rev (itoa w) @ CHR ''-'' # rev (itoa y) = rev (itoa w') @ CHR ''-'' # rev (itoa y')"
    by (simp only: rev_append rev.simps append_assoc append_Cons append_Nil)
  moreover have "takeWhile (\<lambda>c. c \<noteq> CHR ''-'') (rev (itoa k) @ CHR ''-'' # xs) = rev (itoa k)" if "0 \<le> k" for k xs
    using itoa_no_hyphen [OF that] by (subst takeWhile_append2) auto
  ultimately have "rev (itoa w) = rev (itoa w')" using w by metis
  with * have "itoa w = itoa w' \<and> itoa y = itoa y'" by simp
  then have "iso_week a = iso_week b" by (simp add: i itoa_inject)
  then show "a div 7 = b div 7" by (simp add: iso_week_eq_iff)
next
  assume "a div 7 = b div 7"
  then have "iso_week a = iso_week b" by (simp add: iso_week_eq_iff)
  then show "week_key a = week_key b" by (simp add: week_key_def)
qed

lemma card_image_keys:
  assumes "\<And>a b. f a = f b \<longleftrightarrow> g a = g b"
  shows "card (f ` A) = card (g ` A)"
proof -
  have f: "f (inv_into A f x) = x" "inv_into A f x \<in> A" if "x \<in> f ` A" for x
    using that by (simp_all add: f_inv_into_f inv_into_into)
  have "inj_on (\<lambda>x. g (inv_into A f x)) (f ` A)"
  proof (rule inj_onI)
    fix x y
    assume x: "x \<in> f ` A" "y \<in> f ` A" "g (inv_into A f x) = g (inv_into A f y)"
    then have "f (inv_into A f x) = f (inv_into A f y)" using assms by blast
    then show "x = y" using f(1) x(1,2) by simp
  qed
  moreover have "(\<lambda>x. g (inv_into A f x)) ` (f ` A) = g ` A"
  proof -
    have "g (inv_into A f (f a)) = g a" if "a \<in> A" for a
      using f(1) [of "f a"] that assms [of "inv_into A f (f a)" a] by simp
    then show ?thesis by (simp add: image_image)
  qed
  ultimately show ?thesis using card_image by fastforce
qed

text \<open>
  C38. What is expected of an item in a range of days is the number of its periods that have a day in
  the range on which the item is active: days, weeks from Monday to Sunday, months, or once; no other
  recurrence is expected at all. A period that is cut by the range or by the item's own dates counts once.
\<close>

theorem expected_counts_periods:
  "countExpectedForItem it s e =
    (let A = {d. s \<le> d \<and> d \<le> e \<and> isActiveOnDate it d} in
     if dt_Recurrence it = ''daily'' then int (card A)
     else if dt_Recurrence it = ''weekly'' then int (card ((\<lambda>d. d div 7) ` A))
     else if dt_Recurrence it = ''monthly'' then int (card (fmt_month ` A))
     else if dt_Recurrence it = ''none'' \<and> A \<noteq> {} then 1 else 0)"
proof -
  have "card (week_key ` A) = card ((\<lambda>d. d div 7) ` A)" for A
    by (rule card_image_keys) (rule week_key_eq_iff)
  then show ?thesis
    by (auto simp: countExpectedForItem_def day_loop_count_card seen_loop_card any_loop_ex Let_def)
qed

section \<open>The sort by exchange\<close>

lemma exchange_length [simp]: "length (exchange i j xs) = length xs"
  by (simp add: exchange_def)

lemma exchange_mset: "i < length xs \<Longrightarrow> j < length xs \<Longrightarrow> mset (exchange i j xs) = mset xs"
  by (simp add: exchange_def mset_swap)

lemma fold_exchange_length [simp]: "length (fold (exchange i) js xs) = length xs"
  by (induction js arbitrary: xs) simp_all

abbreviation nm :: "progress_stats list \<Rightarrow> nat \<Rightarrow> string" where
  "nm xs i \<equiv> ps_StudentName (xs ! i)"

lemma inner_loop:
  assumes "i < length xs" "m \<le> length xs" "Suc i \<le> m"
  defines "ys \<equiv> fold (exchange i) [Suc i..<m] xs"
  shows "mset ys = mset xs \<and> (\<forall>p < i. ys ! p = xs ! p) \<and> (\<forall>q. i < q \<and> q < m \<longrightarrow> nm ys i \<le> nm ys q)
    \<and> (\<forall>q. i \<le> q \<and> q < length xs \<longrightarrow> (\<exists>r. i \<le> r \<and> r < length xs \<and> ys ! q = xs ! r))"
  using assms(3,2) unfolding ys_def
proof (induction m rule: dec_induct)
  case base
  then show ?case by auto
next
  case (step m)
  let ?ys = "fold (exchange i) [Suc i..<m] xs"
  have IH: "mset ?ys = mset xs" "\<forall>p < i. ?ys ! p = xs ! p" "\<forall>q. i < q \<and> q < m \<longrightarrow> nm ?ys i \<le> nm ?ys q"
      "\<forall>q. i \<le> q \<and> q < length xs \<longrightarrow> (\<exists>r. i \<le> r \<and> r < length xs \<and> ?ys ! q = xs ! r)"
    using step.IH step.prems by auto
  have m: "i < m" "m < length xs" using step by auto
  have z: "fold (exchange i) [Suc i..<Suc m] xs = exchange i m ?ys" using m by simp
  have at: "exchange i m ?ys ! q = (if nm ?ys m < nm ?ys i then if q = i then ?ys ! m else if q = m then ?ys ! i else ?ys ! q else ?ys ! q)"
    if "q < length xs" for q
    using that m assms(1) by (auto simp: exchange_def nth_list_update)
  have "mset (exchange i m ?ys) = mset xs" using exchange_mset [of i ?ys m] IH(1) m by simp
  moreover have "\<forall>p < i. exchange i m ?ys ! p = xs ! p" using IH(2) at m by simp
  moreover have "nm (exchange i m ?ys) i \<le> nm (exchange i m ?ys) q" if q: "i < q" "q < Suc m" for q
  proof (cases "q = m")
    case True
    then show ?thesis using at m by auto
  next
    case False
    then have "nm ?ys i \<le> nm ?ys q" using IH(3) q by simp
    then show ?thesis using at [of i] at [of q] q m False by auto
  qed
  moreover have "\<exists>r. i \<le> r \<and> r < length xs \<and> exchange i m ?ys ! q = xs ! r" if q: "i \<le> q" "q < length xs" for q
    using at [OF q(2)] IH(4) q m assms(1) by (auto split: if_splits)
  ultimately show ?case unfolding z by blast
qed

lemma outer_loop:
  assumes "k \<le> length xs"
  defines "ys \<equiv> fold (\<lambda>i ys. fold (exchange i) [Suc i..<length xs] ys) [0..<k] xs"
  shows "mset ys = mset xs \<and> length ys = length xs \<and> (\<forall>p q. p < k \<and> p < q \<and> q < length xs \<longrightarrow> nm ys p \<le> nm ys q)"
  using assms(1) unfolding ys_def
proof (induction k)
  case (Suc k)
  let ?ys = "fold (\<lambda>i ys. fold (exchange i) [Suc i..<length xs] ys) [0..<k] xs"
  let ?zs = "fold (exchange k) [Suc k..<length xs] ?ys"
  have IH: "mset ?ys = mset xs" "length ?ys = length xs" "\<forall>p q. p < k \<and> p < q \<and> q < length xs \<longrightarrow> nm ?ys p \<le> nm ?ys q"
    using Suc by auto
  have I: "mset ?zs = mset ?ys" "\<forall>p < k. ?zs ! p = ?ys ! p" "\<forall>q. k < q \<and> q < length xs \<longrightarrow> nm ?zs k \<le> nm ?zs q"
      "\<forall>q. k \<le> q \<and> q < length xs \<longrightarrow> (\<exists>r. k \<le> r \<and> r < length xs \<and> ?zs ! q = ?ys ! r)"
    using inner_loop [of k ?ys "length xs"] Suc.prems IH(2) by auto
  have "nm ?zs p \<le> nm ?zs q" if pq: "p < Suc k" "p < q" "q < length xs" for p q
  proof (cases "p = k")
    case False
    then have p: "p < k" using pq by simp
    show ?thesis
    proof (cases "q < k")
      case True
      then show ?thesis using IH(3) I(2) p pq by simp
    next
      case False
      then have "k \<le> q" by simp
      with I(4) pq(3) obtain r where r: "k \<le> r" "r < length xs" "?zs ! q = ?ys ! r" by blast
      then have "p < r" using p by simp
      then have "nm ?ys p \<le> nm ?ys r" using IH(3) p r(2) by blast
      moreover have "?zs ! p = ?ys ! p" using I(2) p by blast
      ultimately show ?thesis using r(3) by simp
    qed
  qed (use I(3) pq in simp)
  then show ?case using I(1) IH(1,2) by simp
qed simp

lemma exchange_sort_sorts:
  "mset (exchange_sort xs) = mset xs" "sorted (map ps_StudentName (exchange_sort xs))"
proof -
  have o: "mset (exchange_sort xs) = mset xs" "length (exchange_sort xs) = length xs"
    "\<forall>p q. p < length xs \<and> p < q \<and> q < length xs \<longrightarrow> nm (exchange_sort xs) p \<le> nm (exchange_sort xs) q"
    using outer_loop [of "length xs" xs] by (simp_all add: exchange_sort_def)
  show "mset (exchange_sort xs) = mset xs" by (rule o(1))
  show "sorted (map ps_StudentName (exchange_sort xs))"
    unfolding sorted_iff_nth_mono_less using o(2,3) by simp
qed

section \<open>What the statistics depend on\<close>

definition plain :: "task_row \<Rightarrow> task_row" where
  "plain t = t\<lparr>ti_completed := 0, ti_completed_at := None, ti_completed_by := None\<rparr>"

definition progress_view :: "string \<Rightarrow> classdb \<Rightarrow> task_row list \<times> response_row list \<times> string" where
  "progress_view sid db = (map plain (tb_rows (db_tasks db)),
     filter (\<lambda>x. tr_student_id x = sid) (tb_rows (db_responses db)), student_full_name db sid)"

lemma plain_simps [simp]: "ti_id (plain t) = ti_id t" "ti_scope (plain t) = ti_scope t" "ti_student_id (plain t) = ti_student_id t"
  "ti_type (plain t) = ti_type t" "dates_of (plain t) = dates_of t" "counted_item (plain t) = counted_item t"
  by (simp_all add: plain_def dates_of_def counted_item_def)

lemma expected_sum_plain:
  assumes "\<And>t. P (plain t) = P t" "map plain (tb_rows (db_tasks db')) = map plain (tb_rows (db_tasks db))"
  shows "expected_sum P rs re db' = expected_sum P rs re db"
proof -
  have "expected_sum P rs re db = sum_list (map (\<lambda>t. countExpectedForItem (dates_of t) rs re)
      (filter (\<lambda>t. P t \<and> counted_item t) (map plain (tb_rows (db_tasks db)))))" for db
    by (simp add: expected_sum_def filter_map o_def assms(1))
  then show ?thesis using assms(2) by simp
qed

lemma type_plain:
  assumes "map plain (tb_rows (db_tasks db')) = map plain (tb_rows (db_tasks db))"
  shows "map_option ti_type (task_by_id db' i) = map_option ti_type (task_by_id db i)"
proof -
  have "map_option ti_type (task_by_id db i) = map_option ti_type (List.find (\<lambda>t. ti_id t = i) (map plain (tb_rows (db_tasks db))))" for db
    using find_map_filter [of "\<lambda>t. ti_id t = i" plain "\<lambda>_. True" "tb_rows (db_tasks db)"]
    by (simp add: task_by_id_def option.map_comp o_def)
  then show ?thesis using assms by simp
qed

lemma counted_same:
  assumes "progress_view sid db' = progress_view sid db"
  shows "counted_responses sd ed sid db' = counted_responses sd ed sid db"
proof -
  have t: "(case task_by_id db' i of None \<Rightarrow> ''task'' | Some t \<Rightarrow> ti_type t) = (case task_by_id db i of None \<Rightarrow> ''task'' | Some t \<Rightarrow> ti_type t)" for i
    using type_plain [of db' db i] assms
    by (cases "task_by_id db' i"; cases "task_by_id db i") (auto simp: progress_view_def)
  have *: "counted_responses sd ed sid db = filter (\<lambda>x. sd \<le> tr_response_date x \<and> tr_response_date x \<le> ed
      \<and> (case task_by_id db (tr_item_id x) of None \<Rightarrow> ''task'' | Some t \<Rightarrow> ti_type t) = ''todo'')
      (filter (\<lambda>x. tr_student_id x = sid) (tb_rows (db_responses db)))" for db
    by (auto simp: counted_responses_def intro: filter_cong)
  have f: "filter (\<lambda>x. tr_student_id x = sid) (tb_rows (db_responses db')) = filter (\<lambda>x. tr_student_id x = sid) (tb_rows (db_responses db))"
    using assms by (simp add: progress_view_def)
  show ?thesis unfolding * f t ..
qed

lemma stats_same:
  assumes "progress_view sid db' = progress_view sid db" "ev_faults e Q_student = ev_faults e' Q_student"
  shows "student_stats pick e sd ed rs re db' sid = student_stats pick e' sd ed rs re db sid"
proof -
  have "map plain (tb_rows (db_tasks db')) = map plain (tb_rows (db_tasks db))" "student_full_name db' sid = student_full_name db sid"
    using assms(1) by (simp_all add: progress_view_def)
  then show ?thesis
    using expected_sum_plain [of "\<lambda>t. ti_scope t = 1" db' db] expected_sum_plain [of "\<lambda>t. ti_scope t = 3 \<and> ti_student_id t = Some sid" db' db]
      counted_same [OF assms(1)] assms(2)
    by (simp add: student_stats_def progress_name_def)
qed

definition same_stats :: "string \<Rightarrow> classdb \<Rightarrow> classdb \<Rightarrow> bool" where
  "same_stats sid db db' \<longleftrightarrow>
     (\<forall>pick e sd ed rs re. student_stats pick e sd ed rs re db' sid = student_stats pick e sd ed rs re db sid)"

lemma same_stats_view: "progress_view sid db' = progress_view sid db \<Longrightarrow> same_stats sid db db'"
  unfolding same_stats_def using stats_same [OF _ refl] by blast

lemma same_stats_refl [simp]: "same_stats sid db db"
  by (simp add: same_stats_def)

lemma same_stats_trans: "same_stats sid db db1 \<Longrightarrow> same_stats sid db1 db2 \<Longrightarrow> same_stats sid db db2"
  by (simp add: same_stats_def)

text \<open>
  An item given to one student leaves the others' statistics alone, as long as no response names an item that
  is still to come: a response names what its sender wrote, existing or not.
\<close>

definition responses_named :: "classdb \<Rightarrow> bool" where
  "responses_named db \<longleftrightarrow> (\<forall>x \<in> set (tb_rows (db_responses db)). tr_item_id x \<le> tb_seq (db_tasks db))"

lemma same_stats_personal:
  assumes "responses_named db" "ti_scope row = 3" "ti_student_id row = Some s'" "s \<noteq> s'"
  shows "same_stats s db (on_tasks (insert_row (mk_task row)) db)"
proof -
  let ?db = "on_tasks (insert_row (mk_task row)) db"
  have rows: "tb_rows (db_tasks ?db) = tb_rows (db_tasks db) @ [row\<lparr>ti_id := tb_seq (db_tasks db) + 1\<rparr>]" "db_responses ?db = db_responses db"
    by (simp_all add: on_tasks_def mk_task_def)
  have sums: "expected_sum (\<lambda>t. ti_scope t = 1) rs re ?db = expected_sum (\<lambda>t. ti_scope t = 1) rs re db"
    "expected_sum (\<lambda>t. ti_scope t = 3 \<and> ti_student_id t = Some s) rs re ?db = expected_sum (\<lambda>t. ti_scope t = 3 \<and> ti_student_id t = Some s) rs re db"
    for rs re using assms(2-4) unfolding expected_sum_def rows by simp_all
  have "task_by_id ?db (tr_item_id x) = task_by_id db (tr_item_id x)" if "x \<in> set (tb_rows (db_responses db))" for x
    using assms(1) that by (force simp: task_by_id_def rows find_append responses_named_def split: option.split)
  then have counted: "counted_responses sd ed s ?db = counted_responses sd ed s db" for sd ed
    unfolding counted_responses_def rows by (intro filter_cong) simp_all
  have "student_full_name ?db s = student_full_name db s"
    by (simp add: student_full_name_def student_by_id_def on_tasks_def)
  then show ?thesis by (simp add: same_stats_def student_stats_def progress_name_def sums counted)
qed

lemma same_stats_bulk_rows:
  assumes "\<And>i. ti_scope (row i) = 3" "\<And>i. ti_student_id (row i) = Some i"
  shows "responses_named db \<Longrightarrow> s \<notin> set ids \<Longrightarrow>
    same_stats s db (on_tasks (\<lambda>t. fold (\<lambda>i. insert_row (mk_task (row i))) ids t) db)"
proof (induction ids arbitrary: db)
  case (Cons i ids)
  let ?db = "on_tasks (insert_row (mk_task (row i))) db"
  have "responses_named ?db" using Cons.prems(1) by (auto simp: responses_named_def on_tasks_def)
  from Cons.IH [OF this] Cons.prems(2) have "same_stats s ?db (on_tasks (\<lambda>t. fold (\<lambda>i. insert_row (mk_task (row i))) ids t) ?db)" by simp
  moreover have "same_stats s db ?db" using same_stats_personal [OF Cons.prems(1) assms] Cons.prems(2) by simp
  ultimately have "same_stats s db (on_tasks (\<lambda>t. fold (\<lambda>i. insert_row (mk_task (row i))) ids t) ?db)" by (rule same_stats_trans [rotated])
  then show ?case by (simp add: on_tasks_def)
qed (simp add: on_tasks_def)

lemma same_stats_bulk:
  assumes "BulkCreateTaskItems e ids item db = Some db'" "responses_named db" "s \<notin> set ids"
  shows "same_stats s db db'"
proof -
  have "ti_scope (bulk_row e item i) = 3" "ti_student_id (bulk_row e item i) = Some i" for i
    by (simp_all add: bulk_row_def task_row_of_def ScopePersonal_def)
  from same_stats_bulk_rows [OF this assms(2,3)] show ?thesis using BulkCreate_Some [OF assms(1)] by simp
qed

section \<open>The cache\<close>

text \<open>Every cached entry is what would be computed now for the range the cache is for.\<close>

definition fresh_stats ::
  "(response_row list \<Rightarrow> response_row) \<Rightarrow> app \<Rightarrow> int \<Rightarrow> int \<Rightarrow> string \<Rightarrow> progress_stats \<Rightarrow> bool" where
  "fresh_stats pick a rs re sid st \<longleftrightarrow> (\<forall>e. \<not> ev_faults e Q_student \<longrightarrow>
     st = student_stats pick e (ap_progressStart a) (ap_progressEnd a) rs re (ap_DB a) sid)"

definition coherent :: "(response_row list \<Rightarrow> response_row) \<Rightarrow> app \<Rightarrow> bool" where
  "coherent pick a \<longleftrightarrow> ap_progressCache a = None \<or>
     (\<exists>rs re. parse_date (ap_progressStart a) = Some rs \<and> parse_date (ap_progressEnd a) = Some re
        \<and> (\<forall>sid st. cache_map a sid = Some st \<longrightarrow> fresh_stats pick a rs re sid st))"

text \<open>A step keeps the range, and what it keeps in the cache has not changed.\<close>

definition cache_step :: "app \<Rightarrow> app \<Rightarrow> bool" where
  "cache_step a b \<longleftrightarrow> ap_progressStart b = ap_progressStart a \<and> ap_progressEnd b = ap_progressEnd a
     \<and> (ap_progressCache b = None \<longleftrightarrow> ap_progressCache a = None)
     \<and> (\<forall>sid st. cache_map b sid = Some st \<longrightarrow> cache_map a sid = Some st \<and> same_stats sid (ap_DB a) (ap_DB b))"

lemma cache_step_coherent: "cache_step a b \<Longrightarrow> coherent pick a \<Longrightarrow> coherent pick b"
proof -
  assume s: "cache_step a b" and c: "coherent pick a"
  have r: "ap_progressStart b = ap_progressStart a" "ap_progressEnd b = ap_progressEnd a"
    "ap_progressCache b = None \<longleftrightarrow> ap_progressCache a = None"
    and k: "\<And>sid st. cache_map b sid = Some st \<Longrightarrow> cache_map a sid = Some st"
      "\<And>sid st. cache_map b sid = Some st \<Longrightarrow> same_stats sid (ap_DB a) (ap_DB b)"
    using s unfolding cache_step_def by blast+
  show "coherent pick b"
  proof (cases "ap_progressCache a = None")
    case False
    then obtain rs re where p: "parse_date (ap_progressStart a) = Some rs" "parse_date (ap_progressEnd a) = Some re"
      and f: "\<And>sid st. cache_map a sid = Some st \<Longrightarrow> fresh_stats pick a rs re sid st"
      using c unfolding coherent_def by auto
    have "fresh_stats pick b rs re sid st" if "cache_map b sid = Some st" for sid st
      using f [OF k(1) [OF that]] k(2) [OF that] by (simp add: fresh_stats_def same_stats_def r)
    then show ?thesis using p unfolding coherent_def r by blast
  qed (use r(3) in \<open>simp add: coherent_def\<close>)
qed

lemma cache_step_refl [simp]: "cache_step a a"
  by (simp add: cache_step_def)

lemma cache_step_trans: "cache_step a b \<Longrightarrow> cache_step b c \<Longrightarrow> cache_step a c"
  unfolding cache_step_def using same_stats_trans by simp blast

definition same_cache :: "app \<Rightarrow> app \<Rightarrow> bool" where
  "same_cache a b \<longleftrightarrow> ap_progressStart b = ap_progressStart a \<and> ap_progressEnd b = ap_progressEnd a \<and> ap_progressCache b = ap_progressCache a"

lemma cache_step_invalidate:
  assumes "same_cache a b" "\<And>s. s \<noteq> sid \<Longrightarrow> progress_view s (ap_DB b) = progress_view s (ap_DB a)"
  shows "cache_step a (InvalidateProgressCache sid b)"
  using assms by (auto simp: cache_step_def same_cache_def InvalidateProgressCache_def cache_map_def
      intro: same_stats_view split: option.splits if_splits)

lemma fold_invalidate:
  "ap_DB (fold InvalidateProgressCache ids a) = ap_DB a \<and> ap_progressStart (fold InvalidateProgressCache ids a) = ap_progressStart a
   \<and> ap_progressEnd (fold InvalidateProgressCache ids a) = ap_progressEnd a
   \<and> (ap_progressCache (fold InvalidateProgressCache ids a) = None \<longleftrightarrow> ap_progressCache a = None)
   \<and> cache_map (fold InvalidateProgressCache ids a) s = (if s \<in> set ids then None else cache_map a s)"
proof (induction ids arbitrary: a)
  case (Cons i ids)
  have "ap_DB (InvalidateProgressCache i a) = ap_DB a" "ap_progressStart (InvalidateProgressCache i a) = ap_progressStart a"
    "ap_progressEnd (InvalidateProgressCache i a) = ap_progressEnd a"
    "ap_progressCache (InvalidateProgressCache i a) = None \<longleftrightarrow> ap_progressCache a = None"
    "cache_map (InvalidateProgressCache i a) s = (if s = i then None else cache_map a s)"
    by (simp_all add: InvalidateProgressCache_def cache_map_def split: option.split)
  then show ?case using Cons.IH [of "InvalidateProgressCache i a"] by auto
qed simp

lemma cache_step_invalidates:
  assumes "same_cache a b" "\<And>s. s \<notin> set ids \<Longrightarrow> same_stats s (ap_DB a) (ap_DB b)"
  shows "cache_step a (fold InvalidateProgressCache ids b)"
  using assms fold_invalidate [of ids b] by (auto simp: cache_step_def same_cache_def cache_map_def split: if_splits)

lemma cache_step_same:
  assumes "same_cache a b" "\<And>s. progress_view s (ap_DB b) = progress_view s (ap_DB a)"
  shows "cache_step a b"
  using assms by (auto simp: cache_step_def same_cache_def cache_map_def intro: same_stats_view)

lemma view_insert_response:
  "insert_response e x db = Some db' \<Longrightarrow> s \<noteq> tr_student_id x \<Longrightarrow> progress_view s db' = progress_view s db"
  by (auto simp: insert_response_def progress_view_def mk_response_def student_full_name_def student_by_id_def split: if_splits)

lemma view_update_student:
  assumes "\<And>r. st_id (f r) = st_id r" "\<And>r. st_first_name (f r) = st_first_name r" "\<And>r. st_last_name (f r) = st_last_name r"
  shows "progress_view s (update_student sid f db) = progress_view s db"
proof -
  have "student_full_name (update_student sid f db) s = student_full_name db s"
    using student_by_id_update [of f sid db s] assms by (auto simp: student_full_name_def split: option.splits)
  then show ?thesis by (simp add: progress_view_def update_student_def)
qed

lemma view_attendance [simp]: "progress_view s (db\<lparr>db_attendance := x\<rparr>) = progress_view s db"
  by (simp add: progress_view_def student_full_name_def student_by_id_def)

lemma view_complete:
  "progress_view s (on_tasks (update_tab P (\<lambda>r. r\<lparr>ti_completed := c, ti_completed_at := d, ti_completed_by := w\<rparr>)) db) = progress_view s db"
  by (auto simp: progress_view_def update_where_def plain_def)

lemma view_ensure_pin: "EnsureDailyStudentPin e sid db = Some (p, db') \<Longrightarrow> progress_view s db' = progress_view s db"
  by (auto simp: EnsureDailyStudentPin_def GenerateStudentPin_def Let_def intro!: view_update_student split: option.splits if_splits)

lemma ValidatePIN_step:
  assumes "ValidatePIN e sid pin a = (err, b)"
  shows "same_cache a b" "progress_view s (ap_DB b) = progress_view s (ap_DB a)"
proof -
  show "same_cache a b"
    using assms by (auto simp: ValidatePIN_def EnsureDailyPIN_def Let_def same_cache_def split: if_splits option.splits prod.splits)
  show "progress_view s (ap_DB b) = progress_view s (ap_DB a)"
    using assms by (auto simp: ValidatePIN_def EnsureDailyPIN_def Let_def view_ensure_pin split: if_splits option.splits prod.splits)
qed

lemma GetSession_step: "GetSession e r a = (sess, b) \<Longrightarrow> same_cache a b \<and> ap_DB b = ap_DB a"
  by (auto simp: GetSession_def Sessions_Get_def on_sessions_def same_cache_def split: if_splits prod.splits)

lemma same_cache_DB [simp]: "same_cache a (b\<lparr>ap_DB := db\<rparr>) = same_cache a b"
  by (simp add: same_cache_def)

lemma view_insert_responses:
  "insert_responses e sid name i ps db = Some db' \<Longrightarrow> s \<noteq> sid \<Longrightarrow> progress_view s db' = progress_view s db"
proof (induction ps arbitrary: db)
  case (Cons p ps)
  then obtain it db1 where 1: "insert_response e (new_response e sid name it (rp_ItemID p) (rp_ItemName p) (rp_Status p)
      (Some (rp_Notes p)) (Some i)) db = Some db1" "insert_responses e sid name i ps db1 = Some db'"
    by (auto simp: Let_def split: option.splits)
  have "progress_view s db1 = progress_view s db"
    by (rule view_insert_response [OF 1(1)]) (simp add: new_response_def Cons.prems(2))
  then show ?case using Cons.IH [OF 1(2) Cons.prems(2)] by simp
qed simp

lemma view_save_responses:
  assumes "SaveTrackerResponses pk e sid name rs db = Some (n, db')" "s \<noteq> sid"
  shows "progress_view s db' = progress_view s db"
  using assms by (auto simp: SaveTrackerResponses_def Let_def check_out_rows_def dest!: view_insert_responses split: if_splits option.splits)

lemma view_save_responses_0: "SaveTrackerResponses pk e sid name rs db = Some (0, db') \<Longrightarrow> db' = db"
  by (auto simp: SaveTrackerResponses_def Let_def check_out_rows_def split: if_splits option.splits)

lemma respond_step: "cache_step a (snd (HandleTrackerRespond pk e r q a))"
proof (cases q)
  case (Some x)
  obtain name sid where n: "resolve_student (ap_DB a) (rr_StudentName x) (rr_StudentID x) = (name, sid)" by fastforce
  obtain err b where v: "ValidatePIN e sid (rr_PIN x) a = (err, b)" by fastforce
  note vs = ValidatePIN_step [OF v]
  have ab: "cache_step a b" using vs by (rule cache_step_same)
  have save: "cache_step a (snd (case SaveTrackerResponses pk e sid name (rr_Responses x) (ap_DB b) of
      None \<Rightarrow> (json_error 500 ''Database error'', b)
    | Some (rows, db) \<Rightarrow> if rows = 0 then (json_error 200 ''No active check-in found'', b\<lparr>ap_DB := db\<rparr>)
        else (goodbye_response name, InvalidateProgressCache sid (b\<lparr>ap_DB := db\<rparr>))))"
  proof (cases "SaveTrackerResponses pk e sid name (rr_Responses x) (ap_DB b)")
    case (Some y)
    obtain n db where y: "y = (n, db)" by (cases y)
    show ?thesis
    proof (cases "n = 0")
      case True
      then have "db = ap_DB b" using Some y view_save_responses_0 by blast
      then show ?thesis using Some y True ab by simp
    next
      case False
      have "cache_step b (InvalidateProgressCache sid (b\<lparr>ap_DB := db\<rparr>))"
        using view_save_responses Some y by (intro cache_step_invalidate) (auto simp: same_cache_def)
      then show ?thesis using Some y False cache_step_trans [OF ab] by simp
    qed
  qed (simp add: ab)
  show ?thesis
    using ab save by (auto simp: HandleTrackerRespond_def Some n v split: option.split)
qed (simp add: HandleTrackerRespond_def)

lemma late_step: "cache_step a (snd (HandleLateSignoff e r q a))"
proof -
  obtain sess b where g: "GetSession e r a = (sess, b)" by fastforce
  note gs = GetSession_step [OF g]
  then have ab: "cache_step a b" by (intro cache_step_same) auto
  have "cache_step a (InvalidateProgressCache sid (b\<lparr>ap_DB := db\<rparr>))"
    if "SaveLateSignoff e sid due i status nts (ap_DB b) = Some db" for sid due i status nts db
  proof -
    have "progress_view s db = progress_view s (ap_DB b)" if "s \<noteq> sid" for s
      using \<open>SaveLateSignoff e sid due i status nts (ap_DB b) = Some db\<close> view_insert_response that
      unfolding SaveLateSignoff_def Let_def split_beta by (auto simp: new_response_def)
    then show ?thesis using gs by (intro cache_step_invalidate) auto
  qed
  then show ?thesis
    using ab by (auto simp: HandleLateSignoff_def g finish_db_def Let_def split: option.split)
qed

lemma complete_view:
  assumes "CompleteTaskItem e i who db = Some db'"
  shows "\<exists>t sid. task_by_id db' i = Some t \<and> ti_student_id t = Some sid \<and> (\<forall>s. s \<noteq> sid \<longrightarrow> progress_view s db' = progress_view s db)"
proof -
  let ?db = "on_tasks (update_tab (\<lambda>r. ti_id r = i)
     (\<lambda>r. r\<lparr>ti_completed := 1, ti_completed_at := Some (ev_now e), ti_completed_by := Some who\<rparr>)) db"
  have "\<exists>t sid nm it. task_by_id ?db i = Some t \<and> ti_student_id t = Some sid
      \<and> insert_response e (new_response e sid nm it i (ti_name t) ''done'' None (Some 0)) ?db = Some db'"
    using assms by (auto simp: CompleteTaskItem_def Let_def split: if_splits option.splits)
  then obtain t sid nm it where t: "task_by_id ?db i = Some t" "ti_student_id t = Some sid"
      "insert_response e (new_response e sid nm it i (ti_name t) ''done'' None (Some 0)) ?db = Some db'" by blast
  have "db_tasks db' = db_tasks ?db" using t(3) by (auto simp: insert_response_def split: if_splits)
  then have "task_by_id db' i = Some t" using t(1) by (simp add: task_by_id_def)
  moreover have "progress_view s db' = progress_view s db" if "s \<noteq> sid" for s
    using view_insert_response [OF t(3), of s] that view_complete by (simp add: new_response_def)
  ultimately show ?thesis using t(2) by blast
qed

lemma complete_step:
  assumes "\<not> ev_faults e Q_tasks"
  shows "cache_step a (snd (HandleTrackerComplete order e r (Some (i, True)) a))"
proof -
  obtain sess b where g: "GetSession e r a = (sess, b)" by fastforce
  note gs = GetSession_step [OF g]
  then have ab: "cache_step a b" by (intro cache_step_same) auto
  have "cache_step a (invalidate_for (student_of_item e db i) (b\<lparr>ap_DB := db\<rparr>))"
    if c: "CompleteTaskItem e i who (ap_DB b) = Some db" for who db
  proof -
    obtain t sid where t: "task_by_id db i = Some t" "ti_student_id t = Some sid"
      and v: "\<And>s. s \<noteq> sid \<Longrightarrow> progress_view s db = progress_view s (ap_DB b)"
      using complete_view [OF c] by auto
    have "student_of_item e db i = Some sid" using t assms by (simp add: student_of_item_def GetStudentIDForItem_def)
    then show ?thesis using gs v by (auto simp: invalidate_for_def intro: cache_step_invalidate)
  qed
  then show ?thesis
    using ab by (auto simp: HandleTrackerComplete_def g finish_db_def split: option.split)
qed

lemma view_cong:
  assumes "db_tasks db' = db_tasks db" "db_responses db' = db_responses db" "db_students db' = db_students db"
  shows "progress_view s db' = progress_view s db"
  using assms by (simp add: progress_view_def student_full_name_def student_by_id_def)

text \<open>Check-in, in its two parts, and check-out without responses.\<close>

lemma begin_checkin_step: "cache_step a (snd (begin_checkin e r req a))"
proof (cases req)
  case (Some q)
  obtain name sid where n: "resolve_student (ap_DB a) (ci_StudentName q) (ci_StudentID q) = (name, sid)" by fastforce
  obtain err b where v: "ValidatePIN e sid (ci_PIN q) a = (err, b)" by fastforce
  have "cache_step a b" by (rule cache_step_same [OF ValidatePIN_step [OF v]])
  then show ?thesis by (auto simp: begin_checkin_def Some n v Let_def)
qed (simp add: begin_checkin_def)

text \<open>The tables the statistics are read from.\<close>

definition same_sources :: "classdb \<Rightarrow> classdb \<Rightarrow> bool" where
  "same_sources db db' \<longleftrightarrow> db_tasks db' = db_tasks db \<and> db_responses db' = db_responses db \<and> db_students db' = db_students db"

lemma same_sources_audit: "same_sources db (snd (InsertAudit e x db))"
  by (simp add: same_sources_def InsertAudit_def)

lemma same_sources_flags: "same_sources db (FlagSuspiciousCheckins e i ip fp did name db)"
  by (simp add: same_sources_def FlagSuspiciousCheckins_def set_flag_def Let_def)

lemma same_sources_meta: "same_sources db (linkAttendanceMetaByID e i sid db)" "same_sources db (linkAttendanceMeta e i name db)"
  by (simp_all add: same_sources_def linkAttendanceMetaByID_def linkAttendanceMeta_def Let_def)

lemma same_sources_trans: "same_sources db db1 \<Longrightarrow> same_sources db1 db2 \<Longrightarrow> same_sources db db2"
  by (simp add: same_sources_def)

lemma record_checkin_frame:
  "same_sources (ap_DB a) (ap_DB (record_checkin e ip name sid device fp did a)) \<and> same_cache a (record_checkin e ip name sid device fp did a)"
proof -
  let ?db = "(ap_DB a)\<lparr>db_attendance := insert_row (mk_attendance (sid, name, device, ev_now e)) (db_attendance (ap_DB a))\<rparr>"
  let ?i = "tb_seq (db_attendance (ap_DB a)) + 1"
  define db1 where "db1 = (if sid \<noteq> [] then linkAttendanceMetaByID e ?i sid ?db else linkAttendanceMeta e ?i name ?db)"
  obtain k db2 where 2: "InsertAudit e (audit_entry e ?i name sid device ip fp did ''checkin'') db1 = (k, db2)" by fastforce
  have "same_sources (ap_DB a) ?db" by (simp add: same_sources_def)
  also have "same_sources ?db db1" using same_sources_meta by (simp add: db1_def)
  finally (same_sources_trans) have "same_sources (ap_DB a) db1" .
  moreover have "same_sources db1 db2" using same_sources_audit [of db1] 2 by (metis snd_conv)
  moreover note same_sources_flags [of db2 e k ip fp did name]
  ultimately have "same_sources (ap_DB a) (FlagSuspiciousCheckins e k ip fp did name db2)" by (blast intro: same_sources_trans)
  moreover have "record_checkin e ip name sid device fp did a = a\<lparr>ap_DB := FlagSuspiciousCheckins e k ip fp did name db2,
      ap_RateLimiter := map_option (Record (ev_nanos e) (DeviceKey ip fp did) name) (ap_RateLimiter a)\<rparr>"
    by (simp only: record_checkin_def Let_def db1_def [symmetric] 2 prod.case)
  ultimately show ?thesis by (simp add: same_cache_def)
qed

lemma record_checkin_step: "cache_step a (record_checkin e ip name sid device fp did a)"
  using record_checkin_frame by (intro cache_step_same view_cong) (auto simp only: same_sources_def)

lemma finish_checkin_step: "cache_step a (snd (finish_checkin e c a))"
  unfolding finish_checkin_def Let_def
  by (cases "ev_faults e I_attendance") (simp_all only: if_True if_False snd_conv record_checkin_step cache_step_refl)

lemma record_checkout_step: "cache_step a (record_checkout pk e ip name sid fp did a)"
proof -
  define i where "i = (case latest_today pk e name (ap_DB a) of Some row \<Rightarrow> if ev_faults e Q_attendance then 0 else at_id row | None \<Rightarrow> 0)"
  define b where "b = a\<lparr>ap_DB := snd (InsertAudit e (audit_entry e i name sid ''mobile'' ip fp did ''checkout'') (ap_DB a))\<rparr>"
  have b: "record_checkout pk e ip name sid fp did a = (if sid \<noteq> [] then InvalidateProgressCache sid b else b)"
    by (simp add: record_checkout_def Let_def case_prod_beta b_def i_def)
  have f: "db_tasks (ap_DB b) = db_tasks (ap_DB a)" "db_responses (ap_DB b) = db_responses (ap_DB a)"
      "db_students (ap_DB b) = db_students (ap_DB a)" "same_cache a b"
    by (simp_all add: b_def InsertAudit_def same_cache_def)
  note v = view_cong [OF f(1-3)]
  show ?thesis unfolding b using cache_step_invalidate [OF f(4) v] cache_step_same [OF f(4) v] by simp
qed

lemma checkout_step: "cache_step a (snd (HandleCheckOut pk e r req a))"
proof (cases req)
  case (Some q)
  obtain name sid where n: "resolve_student (ap_DB a) (co_StudentName q) (co_StudentID q) = (name, sid)" by fastforce
  obtain err b where v: "ValidatePIN e sid (co_PIN q) a = (err, b)" by fastforce
  obtain rows db where c: "check_out_rows e name (ap_DB b) = (rows, db)" by fastforce
  have ab: "cache_step a b" by (rule cache_step_same [OF ValidatePIN_step [OF v]])
  have "cache_step b (b\<lparr>ap_DB := db\<rparr>)"
    using c by (intro cache_step_same) (auto simp: check_out_rows_def same_cache_def)
  then have out: "cache_step a (b\<lparr>ap_DB := db\<rparr>)" by (rule cache_step_trans [OF ab])
  then have "cache_step a (record_checkout pk e ip name sid fp did (b\<lparr>ap_DB := db\<rparr>))" for ip fp did
    by (rule cache_step_trans [OF _ record_checkout_step])
  with ab out show ?thesis by (auto simp: HandleCheckOut_def Some n v c Let_def)
qed (simp add: HandleCheckOut_def)

text \<open>Completing undone, and items given to several students at once.\<close>

definition own_responses :: "classdb \<Rightarrow> int \<Rightarrow> bool" where
  "own_responses db i \<longleftrightarrow> (case task_by_id db i of
     None \<Rightarrow> \<forall>x \<in> set (tb_rows (db_responses db)). tr_item_id x \<noteq> i
   | Some t \<Rightarrow> \<forall>x \<in> set (tb_rows (db_responses db)). tr_item_id x = i \<longrightarrow> tr_student_id x = coalesce (ti_student_id t))"

lemma uncomplete_view:
  assumes "UncompleteTaskItem e i db = Some db'" "own_responses db i"
  shows "\<exists>sid. (map_option (\<lambda>t. coalesce (ti_student_id t)) (task_by_id db' i) = sid)
    \<and> (\<forall>s. Some s \<noteq> sid \<longrightarrow> progress_view s db' = progress_view s db)"
proof -
  let ?m = "\<lambda>r. r\<lparr>ti_completed := 0, ti_completed_at := None, ti_completed_by := None\<rparr>"
  let ?db = "on_tasks (update_tab (\<lambda>r. ti_id r = i) ?m) db"
  have db': "db' = ?db\<lparr>db_responses := delete_tab (\<lambda>r. tr_item_id r = i \<and> tr_status r = ''done'' \<and> tr_attendance_id r = Some 0) (db_responses db)\<rparr>"
    using assms(1) by (simp add: UncompleteTaskItem_def split: if_splits)
  have t: "map_option (\<lambda>t. coalesce (ti_student_id t)) (task_by_id db' i) = map_option (\<lambda>t. coalesce (ti_student_id t)) (task_by_id db i)"
    unfolding db' by (cases "task_by_id db i") (simp_all add: task_by_id_def on_tasks_def find_update_where)
  have "progress_view s db' = progress_view s db" if "Some s \<noteq> map_option (\<lambda>t. coalesce (ti_student_id t)) (task_by_id db' i)" for s
  proof -
    have "tr_item_id x \<noteq> i" if "x \<in> set (tb_rows (db_responses db))" "tr_student_id x = s" for x
      using assms(2) \<open>Some s \<noteq> _\<close> that by (auto simp: own_responses_def t split: option.splits)
    then have "filter (\<lambda>x. tr_student_id x = s) (tb_rows (db_responses db')) = filter (\<lambda>x. tr_student_id x = s) (tb_rows (db_responses db))"
      by (auto simp: db' intro!: filter_cong)
    moreover have "map plain (tb_rows (db_tasks db')) = map plain (tb_rows (db_tasks db))"
      by (simp add: db' on_tasks_def update_where_def plain_def)
    moreover have "student_full_name db' s = student_full_name db s"
      by (simp add: db' student_full_name_def student_by_id_def on_tasks_def)
    ultimately show ?thesis by (simp add: progress_view_def)
  qed
  then show ?thesis by blast
qed

lemma uncomplete_step:
  assumes "\<not> ev_faults e Q_tasks" "own_responses (ap_DB a) i"
  shows "cache_step a (snd (HandleTrackerComplete order e r (Some (i, False)) a))"
proof -
  obtain sess b where g: "GetSession e r a = (sess, b)" by fastforce
  note gs = GetSession_step [OF g]
  then have ab: "cache_step a b" by (intro cache_step_same) auto
  have "cache_step a (invalidate_for (student_of_item e db i) (b\<lparr>ap_DB := db\<rparr>))"
    if c: "UncompleteTaskItem e i (ap_DB b) = Some db" for db
  proof -
    have own: "own_responses (ap_DB b) i" using assms(2) gs by simp
    have "student_of_item e db i = map_option (\<lambda>t. coalesce (ti_student_id t)) (task_by_id db i)"
      using assms(1) by (simp add: student_of_item_def GetStudentIDForItem_def)
    with uncomplete_view [OF c own] have v: "Some s \<noteq> student_of_item e db i \<Longrightarrow> progress_view s db = progress_view s (ap_DB b)" for s
      by simp
    show ?thesis
    proof (cases "student_of_item e db i")
      case None
      then show ?thesis using gs v by (auto simp: invalidate_for_def intro: cache_step_same)
    next
      case (Some sid)
      then show ?thesis using gs v by (auto simp: invalidate_for_def intro: cache_step_invalidate)
    qed
  qed
  then show ?thesis
    using ab by (auto simp: HandleTrackerComplete_def g finish_db_def split: option.split)
qed

lemma bulk_step:
  assumes "responses_named (ap_DB a)"
  shows "cache_step a (snd (HandleTrackerBulkAssign e r q a))"
proof -
  obtain sess b where g: "GetSession e r a = (sess, b)" by fastforce
  note gs = GetSession_step [OF g]
  then have ab: "cache_step a b" by (intro cache_step_same) auto
  have "cache_step a (fold InvalidateProgressCache ids (b\<lparr>ap_DB := db\<rparr>))"
    if "BulkCreateTaskItems e ids item (ap_DB b) = Some db" for ids item db
    using same_stats_bulk [OF that] assms gs by (intro cache_step_invalidates) auto
  then show ?thesis
    using ab by (auto simp: HandleTrackerBulkAssign_def g Let_def split: option.split)
qed

section \<open>The summary\<close>

lemma stats_id [simp]: "ps_StudentID (student_stats pick e sd ed rs re db sid) = sid"
  by (simp add: student_stats_def Let_def)

lemma expected_nonneg: "0 \<le> countExpectedForItem it s e"
  by (simp add: countExpectedForItem_def day_loop_count_card seen_loop_card any_loop_ex)

lemma stats_bounds:
  "let s = student_stats pick e sd ed rs re db sid in
     0 \<le> ps_DoneCount s \<and> ps_DoneCount s \<le> ps_TotalItems s \<and> ps_NotDone s = ps_TotalItems s - ps_DoneCount s"
proof -
  have "0 \<le> expected_sum P rs re db" for P
    unfolding expected_sum_def by (rule sum_list_nonneg) (auto simp: expected_nonneg)
  moreover have "0 \<le> done_count xs" for xs
    unfolding done_count_def by (rule sum_list_nonneg) auto
  ultimately show ?thesis by (simp add: student_stats_def Let_def)
qed

lemma fold_store:
  assumes "\<And>i. ps_StudentID (f i) = i"
  shows "fold (\<lambda>s m. m(ps_StudentID s \<mapsto> s)) (map f xs) m i = (if i \<in> set xs then Some (f i) else m i)"
  using assms by (induction xs arbitrary: m) auto

lemma store_stats_map:
  "cache_map (store_stats (map (student_stats pick e sd ed rs re db) xs) xs a) i =
     (if i \<in> set xs then Some (student_stats pick e sd ed rs re db i) else cache_map a i)"
proof -
  have "fold (\<lambda>i m. if i \<notin> set xs then m(i \<mapsto> zero_stats i) else m) ys m = m" if "set ys \<subseteq> set xs" for ys m
    using that by (induction ys arbitrary: m) auto
  moreover have "map ps_StudentID (map (student_stats pick e sd ed rs re db) xs) = xs" by (simp add: o_def)
  ultimately have "cache_map (store_stats (map (student_stats pick e sd ed rs re db) xs) xs a)
      = fold (\<lambda>s m. m(ps_StudentID s \<mapsto> s)) (map (student_stats pick e sd ed rs re db) xs) (cache_map a)"
    by (simp add: store_stats_def cache_map_def [of "a\<lparr>ap_progressCache := Some x\<rparr>" for x] Let_def)
  then show ?thesis by (simp only: fold_store [OF stats_id])
qed

lemma store_stats_fields [simp]: "ap_DB (store_stats st xs a) = ap_DB a" "ap_progressStart (store_stats st xs a) = ap_progressStart a"
  "ap_progressEnd (store_stats st xs a) = ap_progressEnd a" "ap_progressCache (store_stats st xs a) \<noteq> None"
  by (simp_all add: store_stats_def Let_def)

lemma reset_cache_fields [simp]: "ap_DB (reset_cache f sd ed a) = ap_DB a" "ap_progressStart (reset_cache f sd ed a) = sd"
  "ap_progressEnd (reset_cache f sd ed a) = ed"
  by (auto simp: reset_cache_def)

lemma reset_cache_coherent: "coherent pick a \<Longrightarrow> coherent pick (reset_cache f sd ed a)"
  unfolding reset_cache_def by (cases "ap_progressCache a = None") (auto simp: coherent_def)

lemma coherent_entry:
  assumes "coherent pick a" "cache_map a sid = Some st" "parse_date (ap_progressStart a) = Some rs"
    "parse_date (ap_progressEnd a) = Some re" "\<not> ev_faults e Q_student"
  shows "st = student_stats pick e (ap_progressStart a) (ap_progressEnd a) rs re (ap_DB a) sid"
  using assms by (auto simp: coherent_def fresh_stats_def cache_map_def)

lemma coherent_store:
  assumes "coherent pick a" "parse_date (ap_progressStart a) = Some rs" "parse_date (ap_progressEnd a) = Some re"
    and "\<not> ev_faults e Q_student"
  shows "coherent pick (store_stats (map (student_stats pick e (ap_progressStart a) (ap_progressEnd a) rs re (ap_DB a)) xs) xs a)"
proof -
  have f: "fresh_stats pick a rs re i (student_stats pick e (ap_progressStart a) (ap_progressEnd a) rs re (ap_DB a) i)" for i
    unfolding fresh_stats_def using stats_same [OF refl] assms(4) by blast
  have "fresh_stats pick a rs re sid st" if "cache_map a sid = Some st" for sid st
    unfolding fresh_stats_def using coherent_entry [OF assms(1) that assms(2,3)] by blast
  with f have "fresh_stats pick a rs re sid st"
    if "cache_map (store_stats (map (student_stats pick e (ap_progressStart a) (ap_progressEnd a) rs re (ap_DB a)) xs) xs a) sid = Some st" for sid st
    using that by (auto simp: store_stats_map split: if_splits)
  then show ?thesis using assms(2,3) by (simp add: coherent_def fresh_stats_def)
qed

lemma GetProgressStats_Some:
  assumes "GetProgressStats pick e db ids sd ed = Some stats" "ids \<noteq> []"
  obtains rs re where "parse_date sd = Some rs" "parse_date ed = Some re" "stats = map (student_stats pick e sd ed rs re db) ids"
  using assms by (auto simp: GetProgressStats_def split: option.splits if_splits)

lemma summary_coherent:
  assumes "coherent pick a" "\<not> ev_faults e Q_student"
  shows "coherent pick (snd (HandleAdminProgressSummary pick e r a))"
proof -
  let ?a = "reset_cache (rq_Query r ''refresh'' = ''true'') (range_start e r) (range_end e r) a"
  let ?m = "filter (\<lambda>i. cache_map ?a i = None) (GetAllActiveStudentIDs (ap_DB ?a))"
  have c: "coherent pick ?a" using assms(1) by (rule reset_cache_coherent)
  have "coherent pick (store_stats stats ?m ?a)"
    if g: "GetProgressStats pick e (ap_DB ?a) ?m (range_start e r) (range_end e r) = Some stats" and "?m \<noteq> []" for stats
    by (rule GetProgressStats_Some [OF g that(2)])
      (use coherent_store [OF c _ _ assms(2)] in simp)
  with c show ?thesis
    unfolding HandleAdminProgressSummary_def Let_def
    by (cases "GetProgressStats pick e (ap_DB ?a) ?m (range_start e r) (range_end e r)") auto
qed

lemma map_filter_total: "(\<And>x. x \<in> set xs \<Longrightarrow> f x = Some (g x)) \<Longrightarrow> List.map_filter f xs = map g xs"
  by (induction xs) (simp_all add: List.map_filter_simps)

lemma summary_fresh:
  assumes c: "coherent pick a" and f: "\<And>q. \<not> ev_faults e q"
    and p: "parse_date (range_start e r) = Some rs" "parse_date (range_end e r) = Some re"
  shows "fst (HandleAdminProgressSummary pick e r a) = answer_json 200 (JArr (map stats_json (exchange_sort
    (map (student_stats pick e (range_start e r) (range_end e r) rs re (ap_DB a)) (GetAllActiveStudentIDs (ap_DB a))))))"
proof -
  let ?sd = "range_start e r" and ?ed = "range_end e r"
  let ?a = "reset_cache (rq_Query r ''refresh'' = ''true'') ?sd ?ed a"
  let ?ids = "GetAllActiveStudentIDs (ap_DB a)" and ?st = "student_stats pick e ?sd ?ed rs re (ap_DB a)"
  let ?m = "filter (\<lambda>i. cache_map ?a i = None) ?ids"
  have c': "coherent pick ?a" using c by (rule reset_cache_coherent)
  have entry: "cache_map ?a i = Some (?st i)" if "cache_map ?a i \<noteq> None" for i
    using coherent_entry [OF c', of i _ rs re e] that p f by auto
  have g: "GetProgressStats pick e (ap_DB a) ?m ?sd ?ed = Some (map ?st ?m)"
    using p f by (cases "?m = []") (simp_all add: GetProgressStats_def)
  have full: "List.map_filter (cache_map b) ?ids = map ?st ?ids"
    if "b = (if ?m = [] then ?a else store_stats (map ?st ?m) ?m ?a)" for b
  proof (rule map_filter_total)
    fix i
    assume i: "i \<in> set ?ids"
    show "cache_map b i = Some (?st i)"
    proof (cases "cache_map ?a i = None")
      case True
      then have "i \<in> set ?m" using i by simp
      then have "?m \<noteq> []" by (metis list.set_cases list.distinct(1))
      then show ?thesis using that \<open>i \<in> set ?m\<close> by (simp only: if_False store_stats_map if_True)
    next
      case False
      then have "i \<notin> set ?m" by simp
      then show ?thesis using that entry [OF False] by (cases "?m = []") (simp_all only: if_False if_True store_stats_map simp_thms)
    qed
  qed
  show ?thesis
    unfolding HandleAdminProgressSummary_def Let_def reset_cache_fields g
    using f full by (cases "?m = []") simp_all
qed

text \<open>
  Requests one after another, from one state to another: check-in in its two parts, check-out with responses
  and without, late sign-offs, completing and its undoing, items given to several students at once, the
  summary itself, and any request that leaves items, responses, students' names and the cache alone. Not
  among them are the requests that save or delete items (an item of the center, saved, leaves the summary
  stale, as shown below), that copy an item of the library, or that change or delete students: they do not tell the cache.
  Three steps have conditions: completing asks whose item it was and ignores a failure of that query; undoing
  it removes the responses of all students to the item but tells the cache of one, so the responses have to
  be the item's student's; and no response may name an item that an assignment is yet to create.
\<close>

inductive progress_run :: "(response_row list \<Rightarrow> response_row) \<Rightarrow> app \<Rightarrow> app \<Rightarrow> bool" for pick where
  start: "progress_run pick a a"
| checkin_looks: "progress_run pick a b \<Longrightarrow> progress_run pick a (snd (begin_checkin e r ci b))"
| checkin_writes: "progress_run pick a b \<Longrightarrow> progress_run pick a (snd (finish_checkin e bc b))"
| checkout: "progress_run pick a b \<Longrightarrow> progress_run pick a (snd (HandleCheckOut pk e r co b))"
| respond: "progress_run pick a b \<Longrightarrow> progress_run pick a (snd (HandleTrackerRespond pk e r q b))"
| late: "progress_run pick a b \<Longrightarrow> progress_run pick a (snd (HandleLateSignoff e r l b))"
| complete: "progress_run pick a b \<Longrightarrow> \<not> ev_faults e Q_tasks \<Longrightarrow>
    progress_run pick a (snd (HandleTrackerComplete order e r (Some (i, True)) b))"
| uncomplete: "progress_run pick a b \<Longrightarrow> \<not> ev_faults e Q_tasks \<Longrightarrow> own_responses (ap_DB b) i \<Longrightarrow>
    progress_run pick a (snd (HandleTrackerComplete order e r (Some (i, False)) b))"
| bulk: "progress_run pick a b \<Longrightarrow> responses_named (ap_DB b) \<Longrightarrow>
    progress_run pick a (snd (HandleTrackerBulkAssign e r bk b))"
| summary: "progress_run pick a b \<Longrightarrow> \<not> ev_faults e Q_student \<Longrightarrow>
    progress_run pick a (snd (HandleAdminProgressSummary pick e r b))"
| other: "progress_run pick a b \<Longrightarrow> same_cache b c \<Longrightarrow> (\<And>s. progress_view s (ap_DB c) = progress_view s (ap_DB b)) \<Longrightarrow>
    progress_run pick a c"

lemma progress_run_coherent: "progress_run pick a b \<Longrightarrow> coherent pick a \<Longrightarrow> coherent pick b"
  by (induction rule: progress_run.induct)
    (blast intro: cache_step_coherent begin_checkin_step finish_checkin_step checkout_step respond_step late_step
      complete_step uncomplete_step bulk_step summary_coherent cache_step_same)+


section \<open>What is not brought up to date\<close>

lemma center_defaults_fields:
  "tk_ID (center_defaults it f) = tk_ID it" "tk_Type it \<noteq> [] \<Longrightarrow> tk_Type (center_defaults it f) = tk_Type it"
  "tk_Active (center_defaults it f) = tk_Active it" "tk_StartDate (center_defaults it f) = tk_StartDate it"
  "tk_EndDate (center_defaults it f) = tk_EndDate it"
  "tk_Recurrence it \<noteq> [] \<Longrightarrow> tk_Recurrence (center_defaults it f) = tk_Recurrence it"
  by (simp_all add: center_defaults_def Let_def)

lemma new_center_item:
  assumes "rq_Method r = ''POST''" "tk_Name it \<noteq> []" "tk_ID it \<le> 0" "\<not> ev_faults e I_task"
    and "tk_Type it = ''todo''" "tk_Active it" "tk_Recurrence it \<noteq> []"
  obtains row where "snd (HandleTrackerItems e r (Some (it, f)) a) = a\<lparr>ap_DB := on_tasks (insert_row (mk_task row)) (ap_DB a)\<rparr>"
    "ti_scope row = 1" "counted_item row" "dates_of row = \<lparr>dt_StartDate = tk_StartDate it, dt_EndDate = tk_EndDate it, dt_Recurrence = tk_Recurrence it\<rparr>"
proof
  let ?it = "(center_defaults it f)\<lparr>tk_Scope := ScopeCenter\<rparr>"
  let ?row = "task_row_of e ?it"
  show "snd (HandleTrackerItems e r (Some (it, f)) a) = a\<lparr>ap_DB := on_tasks (insert_row (mk_task ?row)) (ap_DB a)\<rparr>"
    using assms by (simp add: HandleTrackerItems_def SaveTrackerItem_def SaveTaskItem_def saved_answer_def center_defaults_fields ScopeCenter_def)
  show "ti_scope ?row = 1" "counted_item ?row"
    "dates_of ?row = \<lparr>dt_StartDate = tk_StartDate it, dt_EndDate = tk_EndDate it, dt_Recurrence = tk_Recurrence it\<rparr>"
    using assms by (simp_all add: task_row_of_def ScopeCenter_def counted_item_def dates_of_def center_defaults_fields b2i_def)
qed

lemma summary_from_cache:
  assumes "\<forall>i \<in> set (GetAllActiveStudentIDs (ap_DB a)). cache_map a i \<noteq> None" "ap_progressCache a \<noteq> None"
    and "range_start e r = ap_progressStart a" "range_end e r = ap_progressEnd a" "rq_Query r ''refresh'' \<noteq> ''true''" "\<not> ev_faults e Q_people"
  shows "fst (HandleAdminProgressSummary pick e r a) = answer_json 200 (JArr (map stats_json
    (exchange_sort (List.map_filter (cache_map a) (GetAllActiveStudentIDs (ap_DB a))))))"
proof -
  have "reset_cache False (ap_progressStart a) (ap_progressEnd a) a = a" using assms(2) by (simp add: reset_cache_def)
  moreover have "filter (\<lambda>i. cache_map a i = None) (GetAllActiveStudentIDs (ap_DB a)) = []" using assms(1) by (simp add: filter_empty_conv)
  ultimately show ?thesis using assms(3-6) by (simp add: HandleAdminProgressSummary_def)
qed

text \<open>
  A new item of the center does not reach the summary: it is expected of every student at once, yet the
  handler that saves it leaves the cache alone, so that the summary for the cached range answers what it
  answered before.
\<close>

theorem new_center_items_leave_summary_stale:
  assumes "rq_Method r' = ''POST''" "tk_Name it \<noteq> []" "tk_ID it \<le> 0" "\<not> ev_faults e' I_task"
    and "tk_Type it = ''todo''" "tk_Active it" "tk_Recurrence it \<noteq> []"
    and "\<forall>i \<in> set (GetAllActiveStudentIDs (ap_DB a)). cache_map a i \<noteq> None" "ap_progressCache a \<noteq> None"
    and "range_start e r = ap_progressStart a" "range_end e r = ap_progressEnd a" "rq_Query r ''refresh'' \<noteq> ''true''" "\<not> ev_faults e Q_people"
  shows "fst (HandleAdminProgressSummary pick e r (snd (HandleTrackerItems e' r' (Some (it, f)) a)))
      = fst (HandleAdminProgressSummary pick e r a)
    \<and> (\<forall>sd ed rs re sid. ps_TotalItems (student_stats pick e sd ed rs re (ap_DB (snd (HandleTrackerItems e' r' (Some (it, f)) a))) sid)
        = ps_TotalItems (student_stats pick e sd ed rs re (ap_DB a) sid)
          + countExpectedForItem \<lparr>dt_StartDate = tk_StartDate it, dt_EndDate = tk_EndDate it, dt_Recurrence = tk_Recurrence it\<rparr> rs re)"
proof -
  obtain row where row: "snd (HandleTrackerItems e' r' (Some (it, f)) a) = a\<lparr>ap_DB := on_tasks (insert_row (mk_task row)) (ap_DB a)\<rparr>"
    "ti_scope row = 1" "counted_item row" "dates_of row = \<lparr>dt_StartDate = tk_StartDate it, dt_EndDate = tk_EndDate it, dt_Recurrence = tk_Recurrence it\<rparr>"
    by (rule new_center_item [OF assms(1-7)])
  let ?b = "a\<lparr>ap_DB := on_tasks (insert_row (mk_task row)) (ap_DB a)\<rparr>"
  have ids: "GetAllActiveStudentIDs (ap_DB ?b) = GetAllActiveStudentIDs (ap_DB a)" "cache_map ?b = cache_map a"
    by (simp_all add: GetAllActiveStudentIDs_def on_tasks_def cache_map_def)
  have "fst (HandleAdminProgressSummary pick e r ?b) = fst (HandleAdminProgressSummary pick e r a)"
    using summary_from_cache [OF assms(8-13)] summary_from_cache [of ?b e r pick] assms(8-13) ids by simp
  moreover have "ps_TotalItems (student_stats pick e sd ed rs re (ap_DB ?b) sid)
      = ps_TotalItems (student_stats pick e sd ed rs re (ap_DB a) sid) + countExpectedForItem (dates_of row) rs re" for sd ed rs re sid
    using row(2,3) by (simp add: student_stats_def Let_def expected_sum_def mk_task_def counted_item_def dates_of_def)
  ultimately show ?thesis unfolding row(1) row(4) by blast
qed

section \<open>Examples\<close>

definition progress_app :: app where
  "progress_app = demo_app\<lparr>ap_DB := reading_db\<lparr>db_students := [alice]\<rparr>\<rparr>"

lemma summary_DB: "ap_DB (snd (HandleAdminProgressSummary pick e r a)) = ap_DB a"
  by (auto simp: HandleAdminProgressSummary_def Let_def split: option.split)

lemma demo_range:
  "parse_date (range_start (demo_env noon) post_request) = Some (jan12 - 7)" "parse_date (range_end (demo_env noon) post_request) = Some jan12"
proof -
  have "fmt_ok (jan12 - 7)" by (simp add: fmt_ok_def jan12_def)
  moreover have "ev_now (demo_env noon) = noon" by (simp add: demo_env_def)
  ultimately show "parse_date (range_start (demo_env noon) post_request) = Some (jan12 - 7)"
    "parse_date (range_end (demo_env noon) post_request) = Some jan12"
    using fmt_ok_jan(1) by (simp_all add: range_start_def range_end_def post_request_def today_def day_part_noon)
qed

lemma progress_ids: "GetAllActiveStudentIDs (ap_DB progress_app) = [''S001'']"
  by (simp add: GetAllActiveStudentIDs_def progress_app_def alice_def new_student_def)


definition cached_app :: app where
  "cached_app = progress_app\<lparr>ap_progressCache := Some [''S001'' \<mapsto> zero_stats ''S001''],
     ap_progressStart := range_start (demo_env noon) post_request, ap_progressEnd := range_end (demo_env noon) post_request\<rparr>"

lemma new_center_items_leave_summary_stale_witness:
  "fst (HandleAdminProgressSummary hd (demo_env noon) post_request (snd (HandleTrackerItems (demo_env noon) post_request (Some (blank_item, None)) cached_app)))
     = fst (HandleAdminProgressSummary hd (demo_env noon) post_request cached_app)
   \<and> ps_TotalItems (student_stats hd (demo_env noon) [] [] jan12 jan12
        (ap_DB (snd (HandleTrackerItems (demo_env noon) post_request (Some (blank_item, None)) cached_app))) ''S001'')
     = ps_TotalItems (student_stats hd (demo_env noon) [] [] jan12 jan12 (ap_DB cached_app) ''S001'') + 1"
proof -
  have f: "\<not> ev_faults (demo_env noon) q" for q by (simp add: demo_env_def)
  have r: "rq_Method post_request = ''POST''" "rq_Query post_request ''refresh'' \<noteq> ''true''" by (simp_all add: post_request_def)
  have it: "tk_Name blank_item \<noteq> []" "tk_ID blank_item \<le> 0" "tk_Type blank_item = ''todo''" "tk_Active blank_item"
    "tk_Recurrence blank_item \<noteq> []" "tk_StartDate blank_item = []" "tk_EndDate blank_item = []" "tk_Recurrence blank_item = ''weekly''"
    by (simp_all add: blank_item_def)
  have c: "\<forall>i \<in> set (GetAllActiveStudentIDs (ap_DB cached_app)). cache_map cached_app i \<noteq> None" "ap_progressCache cached_app \<noteq> None"
    "range_start (demo_env noon) post_request = ap_progressStart cached_app" "range_end (demo_env noon) post_request = ap_progressEnd cached_app"
    using progress_ids by (simp_all add: cached_app_def cache_map_def)
  have one: "countExpectedForItem \<lparr>dt_StartDate = [], dt_EndDate = [], dt_Recurrence = ''weekly''\<rparr> jan12 jan12 = 1"
    by (simp add: countExpectedForItem_def seen_loop.simps [of _ _ jan12 jan12] seen_loop.simps [of _ _ "jan12 + 1" jan12] isActiveOnDate_def)
  show ?thesis
    using new_center_items_leave_summary_stale [OF r(1) it(1,2) f it(3-5) c r(2) f, of hd None] one it(6-8) by simp
qed

end
