(* ===== verification/Dashboard.thy ===== *)
theory Dashboard
  imports TaskHandlers
begin

text \<open>
  The dashboard of students, parents and teachers, \<open>internal/handlers/dashboard.go\<close>: classes, enrolment,
  a teacher's schedules, and the lists shown. The page itself is rendering.
\<close>

section \<open>Access\<close>

datatype access_error = OtherStudent | NotYourChild | Unauthorized

text \<open>The comparison here is exact; a teacher may act for every student.\<close>

definition verifyStudentAccess :: "env \<Rightarrow> classdb \<Rightarrow> session \<Rightarrow> string \<Rightarrow> access_error option" where
  "verifyStudentAccess e db s studentID =
     (if ss_UserType s = ''student'' then if ss_EntityID s \<noteq> studentID then Some OtherStudent else None
      else if ss_UserType s = ''parent'' then if studentID \<in> set (parent_ids e db (ss_EntityID s)) then None else Some NotYourChild
      else if ss_UserType s = ''teacher'' then None
      else Some Unauthorized)"

definition access_text :: "access_error \<Rightarrow> string" where
  "access_text x = (case x of OtherStudent \<Rightarrow> ''Cannot act on behalf of another student''
     | NotYourChild \<Rightarrow> ''Not your child'' | Unauthorized \<Rightarrow> ''Unauthorized'')"

section \<open>Enrolment\<close>

fun join_with :: "string \<Rightarrow> string list \<Rightarrow> string" where
  "join_with sep [] = []"
| "join_with sep [x] = x"
| "join_with sep (x # y # xs) = x @ sep @ join_with sep (y # xs)"

definition schedule_by_id :: "classdb \<Rightarrow> string \<Rightarrow> schedule_row option" where
  "schedule_by_id db i = List.find (\<lambda>s. sc_id s = i) (db_schedules db)"

definition set_student_ids :: "string \<Rightarrow> string list \<Rightarrow> classdb \<Rightarrow> classdb" where
  "set_student_ids i ids db = db\<lparr>db_schedules := update_where (\<lambda>s. sc_id s = i)
     (\<lambda>s. s\<lparr>sc_student_ids := Some (join_with '';'' ids)\<rparr>) (db_schedules db)\<rparr>"

text \<open>The capacity of the room, when it is found and has one.\<close>

definition room_capacity :: "env \<Rightarrow> classdb \<Rightarrow> string \<Rightarrow> int option" where
  "room_capacity e db roomID =
     (if roomID = [] \<or> ev_faults e Q_rooms then None
      else case List.find (\<lambda>r. ro_id r = roomID) (db_rooms db) of
        None \<Rightarrow> None
      | Some r \<Rightarrow> let cap = (case ro_capacity r of None \<Rightarrow> 0 | Some c \<Rightarrow> c) in if 0 < cap then Some cap else None)"

definition post_required :: response where
  "post_required = api_error 405 ''POST required''"

definition not_authenticated :: response where
  "not_authenticated = api_error 401 ''Not authenticated''"

text \<open>A decoded request is a schedule and a student.\<close>

definition HandleDashboardEnroll :: "env \<Rightarrow> request \<Rightarrow> (string \<times> string) option \<Rightarrow> app \<Rightarrow> response \<times> app" where
  "HandleDashboardEnroll e r req a =
     (if rq_Method r \<noteq> ''POST'' then (post_required, a)
      else let (sess, a) = GetSession e r a in
        case sess of
          None \<Rightarrow> (not_authenticated, a)
        | Some s \<Rightarrow>
           (case req of
              None \<Rightarrow> (api_error 400 ''schedule_id and student_id required'', a)
            | Some (scheduleID, studentID) \<Rightarrow>
                if scheduleID = [] \<or> studentID = [] then (api_error 400 ''schedule_id and student_id required'', a)
                else case verifyStudentAccess e (ap_DB a) s studentID of
                  Some x \<Rightarrow> (api_error 403 (access_text x), a)
                | None \<Rightarrow>
                   (case (if ev_faults e Q_schedules then None else schedule_by_id (ap_DB a) scheduleID) of
                      None \<Rightarrow> (api_error 404 ''Schedule not found'', a)
                    | Some row \<Rightarrow>
                        if sc_deleted row \<noteq> 0 then (api_error 400 ''Schedule is deleted'', a)
                        else let ids = splitSemicolon (coalesce (sc_student_ids row)) in
                          if studentID \<in> set ids then (api_error 409 ''Already enrolled'', a)
                          else if (case room_capacity e (ap_DB a) (coalesce (sc_room_id row)) of None \<Rightarrow> False
                                   | Some cap \<Rightarrow> cap \<le> int (length ids))
                          then (api_error 409 ''Class is full'', a)
                          else if ev_faults e U_schedule then (api_error 500 ''Failed to enroll'', a)
                          else (ok_answer, a\<lparr>ap_DB := set_student_ids scheduleID (ids @ [studentID]) (ap_DB a)\<rparr>))))"

definition HandleDashboardUnenroll :: "env \<Rightarrow> request \<Rightarrow> (string \<times> string) option \<Rightarrow> app \<Rightarrow> response \<times> app" where
  "HandleDashboardUnenroll e r req a =
     (if rq_Method r \<noteq> ''POST'' then (post_required, a)
      else let (sess, a) = GetSession e r a in
        case sess of
          None \<Rightarrow> (not_authenticated, a)
        | Some s \<Rightarrow>
           (case req of
              None \<Rightarrow> (api_error 400 ''schedule_id and student_id required'', a)
            | Some (scheduleID, studentID) \<Rightarrow>
                if scheduleID = [] \<or> studentID = [] then (api_error 400 ''schedule_id and student_id required'', a)
                else case verifyStudentAccess e (ap_DB a) s studentID of
                  Some x \<Rightarrow> (api_error 403 (access_text x), a)
                | None \<Rightarrow>
                   (case (if ev_faults e Q_schedules then None
                          else List.find (\<lambda>x. sc_id x = scheduleID \<and> sc_deleted x = 0) (db_schedules (ap_DB a))) of
                      None \<Rightarrow> (api_error 404 ''Schedule not found'', a)
                    | Some row \<Rightarrow>
                        let ids = splitSemicolon (coalesce (sc_student_ids row)) in
                        if studentID \<notin> set ids then (api_error 400 ''Not enrolled'', a)
                        else if ev_faults e U_schedule then (api_error 500 ''Failed to unenroll'', a)
                        else (ok_answer, a\<lparr>ap_DB := set_student_ids scheduleID (filter (\<lambda>i. i \<noteq> studentID) ids) (ap_DB a)\<rparr>))))"

section \<open>A teacher's schedules\<close>

definition sch_like :: "string \<Rightarrow> bool" where
  "sch_like i \<longleftrightarrow> sql_like ''SCH%'' i"

definition max_schedule_id :: "(schedule_row list \<Rightarrow> schedule_row) \<Rightarrow> env \<Rightarrow> classdb \<Rightarrow> string" where
  "max_schedule_id pick e db =
     (if ev_faults e Q_schedules then []
      else case greatest_by (\<lambda>s. cast_int (drop 3 (sc_id s))) (filter (\<lambda>s. sch_like (sc_id s)) (db_schedules db)) of
        [] \<Rightarrow> [] | rows \<Rightarrow> sc_id (pick rows))"

definition next_schedule_id :: "(schedule_row list \<Rightarrow> schedule_row) \<Rightarrow> env \<Rightarrow> classdb \<Rightarrow> string" where
  "next_schedule_id pick e db =
     (let maxID = max_schedule_id pick e db;
          nextNum = (if maxID = [] then 1 else (case scan_int (drop 3 maxID) of None \<Rightarrow> 1 | Some n \<Rightarrow> n) + 1)
      in ''SCH'' @ fmt_03d nextNum)"

record schedule_request =
  sq_ID :: string
  sq_DayOfWeek :: string
  sq_StartTime :: string
  sq_EndTime :: string
  sq_RoomID :: string
  sq_Subject :: string
  sq_StudentIDs :: string
  sq_EffectiveFrom :: string
  sq_EffectiveUntil :: string
  sq_Type :: string

definition schedule_of_request :: "string \<Rightarrow> string \<Rightarrow> schedule_request \<Rightarrow> schedule_row" where
  "schedule_of_request i teacherID q =
     \<lparr>sc_id = i, sc_day_of_week = sq_DayOfWeek q, sc_start_time = sq_StartTime q, sc_end_time = sq_EndTime q,
      sc_teacher_id = Some teacherID, sc_room_id = Some (sq_RoomID q), sc_subject = Some (sq_Subject q),
      sc_student_ids = Some (sq_StudentIDs q), sc_effective_from = Some (sq_EffectiveFrom q),
      sc_effective_until = Some (sq_EffectiveUntil q), sc_type = (if sq_Type q = [] then ''class'' else sq_Type q),
      sc_deleted = 0, sc_deleted_at = None, sc_deleted_by = None, sc_row_hash = None\<rparr>"

text \<open>\<open>INSERT OR REPLACE\<close>: a row of the same key goes, the new one comes last.\<close>

definition replace_schedule :: "schedule_row \<Rightarrow> classdb \<Rightarrow> classdb" where
  "replace_schedule row db = db\<lparr>db_schedules := filter (\<lambda>s. sc_id s \<noteq> sc_id row) (db_schedules db) @ [row]\<rparr>"

definition live_owner :: "env \<Rightarrow> classdb \<Rightarrow> string \<Rightarrow> string option" where
  "live_owner e db i =
     (if ev_faults e Q_schedules then None
      else map_option (\<lambda>s. coalesce (sc_teacher_id s)) (List.find (\<lambda>s. sc_id s = i \<and> sc_deleted s = 0) (db_schedules db)))"

definition save_schedule :: "env \<Rightarrow> string \<Rightarrow> string \<Rightarrow> schedule_request \<Rightarrow> app \<Rightarrow> response \<times> app" where
  "save_schedule e i teacherID q a =
     (if ev_faults e I_schedule then (api_error 500 ''Failed to save'', a)
      else (writeJSON 200 [(''ok'', JBool True), (''id'', JStr i)],
            a\<lparr>ap_DB := replace_schedule (schedule_of_request i teacherID q) (ap_DB a)\<rparr>))"

definition HandleDashboardScheduleSave ::
  "(schedule_row list \<Rightarrow> schedule_row) \<Rightarrow> env \<Rightarrow> request \<Rightarrow> schedule_request option \<Rightarrow> app \<Rightarrow> response \<times> app" where
  "HandleDashboardScheduleSave pick e r req a =
     (if rq_Method r \<noteq> ''POST'' then (post_required, a)
      else let (sess, a) = GetSession e r a in
        case sess of
          None \<Rightarrow> (not_authenticated, a)
        | Some s \<Rightarrow>
            if ss_UserType s \<noteq> ''teacher'' then (api_error 403 ''Teachers only'', a)
            else case req of
              None \<Rightarrow> (api_error 400 ''Invalid request'', a)
            | Some q \<Rightarrow>
                if sq_DayOfWeek q = [] \<or> sq_StartTime q = [] \<or> sq_EndTime q = []
                then (api_error 400 ''day_of_week, start_time, and end_time are required'', a)
                else if sq_ID q = [] then save_schedule e (next_schedule_id pick e (ap_DB a)) (ss_EntityID s) q a
                else case live_owner e (ap_DB a) (sq_ID q) of
                  None \<Rightarrow> (api_error 404 ''Schedule not found'', a)
                | Some ownerID \<Rightarrow>
                    if ownerID \<noteq> ss_EntityID s then (api_error 403 ''Not your schedule'', a)
                    else save_schedule e (sq_ID q) (ss_EntityID s) q a)"

definition HandleDashboardScheduleDelete :: "env \<Rightarrow> request \<Rightarrow> string option \<Rightarrow> app \<Rightarrow> response \<times> app" where
  "HandleDashboardScheduleDelete e r req a =
     (if rq_Method r \<noteq> ''POST'' then (post_required, a)
      else let (sess, a) = GetSession e r a in
        case sess of
          None \<Rightarrow> (not_authenticated, a)
        | Some s \<Rightarrow>
            if ss_UserType s \<noteq> ''teacher'' then (api_error 403 ''Teachers only'', a)
            else case req of
              None \<Rightarrow> (api_error 400 ''id required'', a)
            | Some i \<Rightarrow>
                if i = [] then (api_error 400 ''id required'', a)
                else case live_owner e (ap_DB a) i of
                  None \<Rightarrow> (api_error 404 ''Schedule not found'', a)
                | Some ownerID \<Rightarrow>
                    if ownerID \<noteq> ss_EntityID s then (api_error 403 ''Not your schedule'', a)
                    else if ev_faults e U_schedule then (api_error 500 ''Failed to delete'', a)
                    else (ok_answer, a\<lparr>ap_DB := (ap_DB a)\<lparr>db_schedules := update_where (\<lambda>x. sc_id x = i)
                       (\<lambda>x. x\<lparr>sc_deleted := 1, sc_deleted_at := Some (ev_now e), sc_deleted_by := Some (ss_EntityID s)\<rparr>)
                       (db_schedules (ap_DB a))\<rparr>\<rparr>))"

section \<open>Lists\<close>

text \<open>Days that are not a weekday's name come first, their rank being \<open>NULL\<close>.\<close>

definition day_rank :: "string \<Rightarrow> int" where
  "day_rank d =
     (if d = ''Monday'' then 1 else if d = ''Tuesday'' then 2 else if d = ''Wednesday'' then 3 else if d = ''Thursday'' then 4
      else if d = ''Friday'' then 5 else if d = ''Saturday'' then 6 else if d = ''Sunday'' then 7 else 0)"

definition by_day :: "schedule_row list \<Rightarrow> schedule_row list" where
  "by_day rows = sort_key (\<lambda>s. day_rank (sc_day_of_week s)) (sort_key sc_start_time rows)"

definition named_students :: "env \<Rightarrow> classdb \<Rightarrow> string list \<Rightarrow> jval list" where
  "named_students e db ids = List.map_filter (\<lambda>sid. if ev_faults e Q_student then None
     else map_option (\<lambda>x. JObj [(''id'', JStr sid), (''name'', JStr (full_name (st_first_name x) (st_last_name x)))]) (student_by_id db sid)) ids"

definition room_by_id :: "env \<Rightarrow> classdb \<Rightarrow> string \<Rightarrow> room_row option" where
  "room_by_id e db i = (if i = [] \<or> ev_faults e Q_rooms then None else List.find (\<lambda>r. ro_id r = i) (db_rooms db))"

definition room_name :: "env \<Rightarrow> classdb \<Rightarrow> string \<Rightarrow> string" where
  "room_name e db i = (case room_by_id e db i of None \<Rightarrow> [] | Some r \<Rightarrow> ro_name r)"

definition str_list :: "string list \<Rightarrow> jval" where
  "str_list xs = (if xs = [] then JNull else JArr (map JStr xs))"

text \<open>A nil slice is \<open>null\<close>: the identifiers here, and the names in the teacher's list.\<close>

definition my_class_json :: "env \<Rightarrow> classdb \<Rightarrow> schedule_row \<Rightarrow> jval" where
  "my_class_json e db c =
     (let ids = splitSemicolon (coalesce (sc_student_ids c)); roomID = coalesce (sc_room_id c); names = named_students e db ids
      in JObj [(''id'', JStr (sc_id c)), (''day_of_week'', JStr (sc_day_of_week c)), (''start_time'', JStr (sc_start_time c)),
         (''end_time'', JStr (sc_end_time c)), (''room_id'', JStr roomID), (''room_name'', JStr (room_name e db roomID)),
         (''subject'', JStr (coalesce (sc_subject c))), (''student_ids'', str_list ids),
         (''students'', if names = [] then JNull else JArr names),
         (''effective_from'', JStr (coalesce (sc_effective_from c))), (''effective_until'', JStr (coalesce (sc_effective_until c)))])"

definition HandleDashboardMyClasses :: "env \<Rightarrow> request \<Rightarrow> app \<Rightarrow> response \<times> app" where
  "HandleDashboardMyClasses e r a =
     (let (sess, a) = GetSession e r a in
      (case sess of
         None \<Rightarrow> not_authenticated
       | Some s \<Rightarrow>
           if ss_UserType s \<noteq> ''teacher'' then api_error 403 ''Teachers only''
           else if ev_faults e Q_schedules then db_error
           else answer_json 200 (JArr (map (my_class_json e (ap_DB a)) (by_day
             (filter (\<lambda>x. sc_teacher_id x = Some (ss_EntityID s) \<and> sc_deleted x = 0) (db_schedules (ap_DB a)))))), a))"

definition parent_json :: "env \<Rightarrow> classdb \<Rightarrow> string \<Rightarrow> jval" where
  "parent_json e db i =
     (if i = [] \<or> ev_faults e Q_people then JNull
      else case List.find (\<lambda>p. pa_id p = i) (db_parents db) of
        None \<Rightarrow> JNull
      | Some p \<Rightarrow> JObj [(''id'', JStr i), (''name'', JStr (full_name (pa_first_name p) (pa_last_name p))),
          (''email'', JStr (coalesce (pa_email p))), (''phone'', JStr (coalesce (pa_phone p)))])"

definition student_json :: "env \<Rightarrow> classdb \<Rightarrow> student_row \<Rightarrow> jval" where
  "student_json e db x = JObj [(''id'', JStr (st_id x)), (''first_name'', JStr (st_first_name x)), (''last_name'', JStr (st_last_name x)),
     (''grade'', JStr (coalesce (st_grade x))), (''school'', JStr (coalesce (st_school x))), (''email'', JStr (coalesce (st_email x))),
     (''phone'', JStr (coalesce (st_phone x))), (''parent_id'', JStr (coalesce (st_parent_id x))),
     (''parent'', parent_json e db (coalesce (st_parent_id x)))]"

definition active_student :: "env \<Rightarrow> classdb \<Rightarrow> string \<Rightarrow> student_row option" where
  "active_student e db sid = (if ev_faults e Q_student then None
     else List.find (\<lambda>x. st_id x = sid \<and> st_active x = 1) (db_students db))"

definition HandleDashboardMyStudents :: "(string list \<Rightarrow> string list) \<Rightarrow> env \<Rightarrow> request \<Rightarrow> app \<Rightarrow> response \<times> app" where
  "HandleDashboardMyStudents order e r a =
     (let (sess, a) = GetSession e r a in
      (case sess of
         None \<Rightarrow> not_authenticated
       | Some s \<Rightarrow>
           let ids = (if ss_UserType s = ''teacher'' then teacher_ids order e (ap_DB a) (ss_EntityID s)
                      else if ss_UserType s = ''parent'' then parent_ids e (ap_DB a) (ss_EntityID s)
                      else if ss_UserType s = ''student'' then [ss_EntityID s] else [])
           in answer_json 200 (JArr (map (student_json e (ap_DB a)) (List.map_filter (active_student e (ap_DB a)) ids))), a))"

text \<open>A student named in the query is taken as it is, whoever asks.\<close>

definition all_tasks_student :: "env \<Rightarrow> request \<Rightarrow> classdb \<Rightarrow> session \<Rightarrow> string" where
  "all_tasks_student e r db s =
     (if rq_Query r ''student_id'' \<noteq> [] then rq_Query r ''student_id''
      else if ss_UserType s = ''student'' then ss_EntityID s
      else if ss_UserType s = ''parent'' then (case parent_ids e db (ss_EntityID s) of [] \<Rightarrow> [] | i # _ \<Rightarrow> i)
      else [])"

definition HandleDashboardAllTasks :: "env \<Rightarrow> request \<Rightarrow> app \<Rightarrow> response \<times> app" where
  "HandleDashboardAllTasks e r a =
     (let (sess, a) = GetSession e r a in
      (case sess of
         None \<Rightarrow> not_authenticated
       | Some s \<Rightarrow>
           let studentID = all_tasks_student e r (ap_DB a) s in
           if studentID = [] then answer_json 200 (JArr [])
           else if ev_faults e Q_tasks then db_error
           else writeJSON 200 [(''due_items'', JArr (map due_item_json (GetAllTasksForStudent (ap_DB a) studentID))),
                  (''student_items'', JArr (map task_item_json (ListStudentTrackerItems studentID (ap_DB a)))),
                  (''global_items'', JArr (map task_item_json (ListTrackerItems False (ap_DB a))))], a))"

definition with_student_name :: "classdb \<Rightarrow> task_item \<Rightarrow> jval" where
  "with_student_name db t = (case task_item_json t of
     JObj kvs \<Rightarrow> JObj (kvs @ [(''student_name'', JStr (lookupStudentName db (tk_StudentID t)))]) | v \<Rightarrow> v)"

definition HandleDashboardTeacherItems :: "env \<Rightarrow> request \<Rightarrow> app \<Rightarrow> response \<times> app" where
  "HandleDashboardTeacherItems e r a =
     (let (sess, a) = GetSession e r a in
      (case sess of
         None \<Rightarrow> not_authenticated
       | Some s \<Rightarrow>
           if ev_faults e Q_tasks then db_error
           else answer_json 200 (JArr (map (with_student_name (ap_DB a))
             (ListStudentTrackerItemsByCreator (ss_EntityID s) (ss_UserType s) (ap_DB a)))), a))"

definition teacher_name :: "env \<Rightarrow> classdb \<Rightarrow> string \<Rightarrow> string" where
  "teacher_name e db i =
     (if i = [] \<or> ev_faults e Q_people then []
      else case List.find (\<lambda>t. te_id t = i) (db_teachers db) of
        None \<Rightarrow> [] | Some t \<Rightarrow> full_name (te_first_name t) (te_last_name t))"

definition class_json :: "env \<Rightarrow> classdb \<Rightarrow> string \<Rightarrow> schedule_row \<Rightarrow> jval" where
  "class_json e db checkStudentID c =
     (let ids = splitSemicolon (coalesce (sc_student_ids c)); roomID = coalesce (sc_room_id c); teacherID = coalesce (sc_teacher_id c)
      in JObj [(''id'', JStr (sc_id c)), (''day_of_week'', JStr (sc_day_of_week c)), (''start_time'', JStr (sc_start_time c)),
         (''end_time'', JStr (sc_end_time c)), (''teacher_id'', JStr teacherID), (''teacher_name'', JStr (teacher_name e db teacherID)),
         (''room_id'', JStr roomID), (''room_name'', JStr (room_name e db roomID)), (''subject'', JStr (coalesce (sc_subject c))),
         (''student_ids'', str_list ids), (''students'', JArr (named_students e db ids)),
         (''effective_from'', JStr (coalesce (sc_effective_from c))), (''effective_until'', JStr (coalesce (sc_effective_until c))),
         (''capacity'', JInt (case room_by_id e db roomID of None \<Rightarrow> 0 | Some r \<Rightarrow> (case ro_capacity r of None \<Rightarrow> 0 | Some n \<Rightarrow> n))),
         (''enrolled_count'', JInt (int (length ids))), (''is_enrolled'', JBool (checkStudentID \<noteq> [] \<and> checkStudentID \<in> set ids))])"

definition HandleDashboardClasses :: "env \<Rightarrow> request \<Rightarrow> app \<Rightarrow> response \<times> app" where
  "HandleDashboardClasses e r a =
     (let (sess, a) = GetSession e r a in
      (case sess of
         None \<Rightarrow> not_authenticated
       | Some s \<Rightarrow>
           let checkStudentID = (if ss_UserType s = ''student'' then ss_EntityID s
                 else if ss_UserType s = ''parent'' then rq_Query r ''student_id'' else [])
           in if ss_UserType s = ''parent'' \<and> checkStudentID \<noteq> [] \<and> checkStudentID \<notin> set (parent_ids e (ap_DB a) (ss_EntityID s))
              then api_error 403 ''Not your child''
              else if ev_faults e Q_schedules then db_error
              else answer_json 200 (JArr (map (class_json e (ap_DB a) checkStudentID) (by_day
                (filter (\<lambda>x. (ss_UserType s = ''teacher'' \<longrightarrow> sc_teacher_id x = Some (ss_EntityID s)) \<and> sc_deleted x = 0)
                  (db_schedules (ap_DB a)))))), a))"

definition HandleDashboardRooms :: "env \<Rightarrow> request \<Rightarrow> app \<Rightarrow> response \<times> app" where
  "HandleDashboardRooms e r a =
     (let (sess, a) = GetSession e r a in
      (case sess of
         None \<Rightarrow> not_authenticated
       | Some s \<Rightarrow>
           if ev_faults e Q_rooms then db_error
           else answer_json 200 (JArr (map (\<lambda>x. JObj [(''id'', JStr (ro_id x)), (''name'', JStr (ro_name x)),
               (''capacity'', JInt (case ro_capacity x of None \<Rightarrow> 0 | Some n \<Rightarrow> n))])
             (sort_key ro_name (filter (\<lambda>x. ro_deleted x = 0) (db_rooms (ap_DB a)))))), a))"

end
