(* ===== verification/DashboardFacts.thy ===== *)
theory DashboardFacts
  imports Dashboard TaskRights
begin

text \<open>
  Enrolment keeps every class within the capacity of its room, over any run of enrolments, withdrawals and
  requests that leave the classes alone; and a teacher changes no schedule but their own.
\<close>

section \<open>Lists of identifiers\<close>

text \<open>An identifier that a list separated by semicolons or commas gives back as it is.\<close>

definition clean_id :: "string \<Rightarrow> bool" where
  "clean_id i \<longleftrightarrow> i \<noteq> [] \<and> CHR '';'' \<notin> set i \<and> CHR '','' \<notin> set i \<and> \<not> is_space (hd i) \<and> \<not> is_space (last i)"

lemma trim_space_id: "s = [] \<or> \<not> is_space (hd s) \<and> \<not> is_space (last s) \<Longrightarrow> trim_space s = s"
proof -
  assume "s = [] \<or> \<not> is_space (hd s) \<and> \<not> is_space (last s)"
  then have "dropWhile is_space s = s" "dropWhile is_space (rev s) = rev s"
    by (auto simp: dropWhile_eq_self_iff hd_rev)
  then show ?thesis by (simp add: trim_space_def)
qed

lemma trim_clean [simp]: "clean_id i \<Longrightarrow> trim_space i = i"
  by (rule trim_space_id) (simp add: clean_id_def)

lemma split_on_append: "c \<notin> set x \<Longrightarrow> split_on c (x @ c # s) = x # split_on c s"
  by (induction x) (auto simp: split_on_def split: list.splits)

lemma hd_join: "x \<noteq> [] \<Longrightarrow> hd (join_with sep (x # xs)) = hd x"
  by (cases xs) simp_all

lemma join_nonempty: "x \<noteq> [] \<Longrightarrow> join_with sep (x # xs) \<noteq> []"
  by (cases xs) simp_all

lemma last_join: "list_all (\<lambda>i. i \<noteq> []) xs \<Longrightarrow> xs \<noteq> [] \<Longrightarrow> last (join_with sep xs) = last (last xs)"
proof (induction sep xs rule: join_with.induct)
  case (3 sep x y xs)
  then show ?case using join_nonempty [of y sep xs] by simp
qed simp_all

lemma split_join:
  "list_all clean_id (x # xs) \<Longrightarrow> split_on (CHR '';'') (join_with '';'' (x # xs)) = x # xs"
proof (induction xs arbitrary: x)
  case Nil
  then show ?case by (simp add: clean_id_def split_on_single)
next
  case (Cons y ys)
  have "split_on (CHR '';'') (x @ CHR '';'' # join_with '';'' (y # ys)) = x # split_on (CHR '';'') (join_with '';'' (y # ys))"
    using Cons.prems by (intro split_on_append) (simp add: clean_id_def)
  then show ?case using Cons by simp
qed

lemma semicolon_join: "CHR '';'' \<in> set (join_with '';'' (x # y # xs))"
  by simp

text \<open>Reading a list that was written gives the list.\<close>

lemma splitSemicolon_join: "list_all clean_id ids \<Longrightarrow> splitSemicolon (join_with '';'' ids) = ids"
proof (cases ids)
  case (Cons x xs)
  assume c: "list_all clean_id ids"
  have ne: "list_all (\<lambda>i. i \<noteq> []) ids" using c by (simp add: list_all_iff clean_id_def)
  have "last ids \<in> set ids" using Cons by simp
  with c have l: "\<not> is_space (last (last ids))" by (simp add: list_all_iff clean_id_def)
  have "clean_id x" using c Cons by simp
  then have t: "trim_space (join_with '';'' ids) = join_with '';'' ids"
    using l Cons ne by (intro trim_space_id) (simp add: hd_join last_join clean_id_def)
  have n: "join_with '';'' ids \<noteq> []" using \<open>clean_id x\<close> Cons by (simp add: join_nonempty clean_id_def)
  have m: "map trim_space ids = ids" "filter (\<lambda>p. p \<noteq> []) ids = ids"
    using c by (auto simp: list_all_iff clean_id_def intro!: map_idI trim_space_id)
  show ?thesis
  proof (cases xs)
    case Nil
    then show ?thesis using \<open>clean_id x\<close> Cons by (simp add: splitSemicolon_def clean_id_def split_on_single)
  next
    case (Cons y ys)
    then have "CHR '';'' \<in> set (join_with '';'' ids)" using \<open>ids = x # xs\<close> by simp
    moreover have "split_on (CHR '';'') (join_with '';'' ids) = ids"
      using split_join [of x xs] c \<open>ids = x # xs\<close> by simp
    ultimately show ?thesis using t n m by (simp add: splitSemicolon_def Let_def)
  qed
qed (simp add: splitSemicolon_def trim_space_def)

section \<open>Capacity\<close>

definition enrolled_in :: "schedule_row \<Rightarrow> string list" where
  "enrolled_in s = splitSemicolon (coalesce (sc_student_ids s))"

text \<open>The capacity a room is given, none when there is no such room or no positive number.\<close>

definition room_limit :: "classdb \<Rightarrow> string \<Rightarrow> int option" where
  "room_limit db roomID =
     (case (if roomID = [] then None else List.find (\<lambda>r. ro_id r = roomID) (db_rooms db)) of
        None \<Rightarrow> None
      | Some r \<Rightarrow> (case ro_capacity r of None \<Rightarrow> None | Some c \<Rightarrow> if 0 < c then Some c else None))"

lemma room_capacity_limit: "\<not> ev_faults e Q_rooms \<Longrightarrow> room_capacity e db i = room_limit db i"
  by (auto simp: room_capacity_def room_limit_def Let_def split: option.splits)

definition class_fits :: "classdb \<Rightarrow> schedule_row \<Rightarrow> bool" where
  "class_fits db s \<longleftrightarrow> list_all clean_id (enrolled_in s) \<and> distinct (enrolled_in s)
     \<and> (case room_limit db (coalesce (sc_room_id s)) of None \<Rightarrow> True | Some cap \<Rightarrow> int (length (enrolled_in s)) \<le> cap)"

definition classes_fit :: "classdb \<Rightarrow> bool" where
  "classes_fit db \<longleftrightarrow> distinct (map sc_id (db_schedules db)) \<and> list_all (class_fits db) (db_schedules db)"

datatype enrol_call = CEnroll string string | CUnenroll string string

definition serve_enrol :: "env \<Rightarrow> request \<Rightarrow> enrol_call \<Rightarrow> app \<Rightarrow> response \<times> app" where
  "serve_enrol e r c a = (case c of CEnroll i sid \<Rightarrow> HandleDashboardEnroll e r (Some (i, sid)) a
     | CUnenroll i sid \<Rightarrow> HandleDashboardUnenroll e r (Some (i, sid)) a)"

primrec call_student :: "enrol_call \<Rightarrow> string" where
  "call_student (CEnroll i sid) = sid"
| "call_student (CUnenroll i sid) = sid"

primrec call_schedule :: "enrol_call \<Rightarrow> string" where
  "call_schedule (CEnroll i sid) = i"
| "call_schedule (CUnenroll i sid) = i"

text \<open>
  What a call does to the classes: nothing, or the list of the schedule named becomes another one, which for
  an enrolment fits the room.
\<close>

lemma enroll_effect:
  assumes "\<not> ev_faults e Q_rooms"
  obtains (none) "ap_DB (snd (HandleDashboardEnroll e r (Some (i, sid)) a)) = ap_DB a"
  | (enrolled) row where "schedule_by_id (ap_DB a) i = Some row" "sid \<notin> set (enrolled_in row)"
      "(case room_limit (ap_DB a) (coalesce (sc_room_id row)) of None \<Rightarrow> True | Some cap \<Rightarrow> int (length (enrolled_in row)) < cap)"
      "ap_DB (snd (HandleDashboardEnroll e r (Some (i, sid)) a)) = set_student_ids i (enrolled_in row @ [sid]) (ap_DB a)"
proof -
  let ?h = "HandleDashboardEnroll e r (Some (i, sid)) a"
  have "ap_DB (snd ?h) = ap_DB a \<or> (\<exists>row. schedule_by_id (ap_DB a) i = Some row \<and> sid \<notin> set (enrolled_in row)
     \<and> (case room_limit (ap_DB a) (coalesce (sc_room_id row)) of None \<Rightarrow> True | Some cap \<Rightarrow> int (length (enrolled_in row)) < cap)
     \<and> ap_DB (snd ?h) = set_student_ids i (enrolled_in row @ [sid]) (ap_DB a))"
    using room_capacity_limit [OF assms]
    by (auto simp: HandleDashboardEnroll_def split_beta Let_def enrolled_in_def split: option.splits if_splits)
  then show thesis using that by blast
qed

lemma unenroll_effect:
  obtains (none) "ap_DB (snd (HandleDashboardUnenroll e r (Some (i, sid)) a)) = ap_DB a"
  | (left) row where "List.find (\<lambda>x. sc_id x = i \<and> sc_deleted x = 0) (db_schedules (ap_DB a)) = Some row" "sid \<in> set (enrolled_in row)"
      "ap_DB (snd (HandleDashboardUnenroll e r (Some (i, sid)) a)) = set_student_ids i (filter (\<lambda>x. x \<noteq> sid) (enrolled_in row)) (ap_DB a)"
proof -
  let ?h = "HandleDashboardUnenroll e r (Some (i, sid)) a"
  have "ap_DB (snd ?h) = ap_DB a \<or> (\<exists>row. List.find (\<lambda>x. sc_id x = i \<and> sc_deleted x = 0) (db_schedules (ap_DB a)) = Some row
     \<and> sid \<in> set (enrolled_in row)
     \<and> ap_DB (snd ?h) = set_student_ids i (filter (\<lambda>x. x \<noteq> sid) (enrolled_in row)) (ap_DB a))"
    by (auto simp: HandleDashboardUnenroll_def split_beta Let_def enrolled_in_def split: option.splits if_splits)
  then show thesis using that by blast
qed

text \<open>Writing a list that fits keeps the classes fitting.\<close>

lemma set_student_ids_fit:
  assumes "classes_fit db" "row \<in> set (db_schedules db)" "sc_id row = i" "list_all clean_id ids" "distinct ids"
    and "case room_limit db (coalesce (sc_room_id row)) of None \<Rightarrow> True | Some cap \<Rightarrow> int (length ids) \<le> cap"
  shows "classes_fit (set_student_ids i ids db)"
proof -
  let ?db = "set_student_ids i ids db"
  let ?f = "\<lambda>s. s\<lparr>sc_student_ids := Some (join_with '';'' ids)\<rparr>"
  have rooms: "room_limit ?db = room_limit db" by (simp add: fun_eq_iff room_limit_def set_student_ids_def)
  have keys: "map sc_id (db_schedules ?db) = map sc_id (db_schedules db)"
    by (simp add: set_student_ids_def update_where_def)
  have "class_fits ?db s" if s: "s \<in> set (db_schedules ?db)" for s
  proof -
    obtain x where x: "x \<in> set (db_schedules db)" "s = (if sc_id x = i then ?f x else x)"
      using s by (auto simp: set_student_ids_def set_update_where)
    show ?thesis
    proof (cases "sc_id x = i")
      case True
      then have "x = row" using assms(1-3) x(1) by (metis classes_fit_def distinct_map inj_onD)
      moreover have "enrolled_in (?f row) = ids" using assms(4) by (simp add: enrolled_in_def splitSemicolon_join)
      ultimately show ?thesis using assms(4-6) x(2) True rooms by (auto simp: class_fits_def split: option.splits)
    next
      case False
      then show ?thesis using x assms(1) rooms by (simp add: class_fits_def classes_fit_def list_all_iff)
    qed
  qed
  with keys assms(1) show ?thesis by (simp add: classes_fit_def list_all_iff)
qed

lemma fits_of: "classes_fit db \<Longrightarrow> row \<in> set (db_schedules db) \<Longrightarrow> class_fits db row"
  by (simp add: classes_fit_def list_all_iff)

lemma enroll_fits:
  assumes "classes_fit (ap_DB a)" "\<not> ev_faults e Q_rooms" "clean_id sid"
  shows "classes_fit (ap_DB (snd (HandleDashboardEnroll e r (Some (i, sid)) a)))"
proof (rule enroll_effect [OF assms(2), of r i sid a])
  fix row
  assume h: "schedule_by_id (ap_DB a) i = Some row" "sid \<notin> set (enrolled_in row)"
    "case room_limit (ap_DB a) (coalesce (sc_room_id row)) of None \<Rightarrow> True | Some cap \<Rightarrow> int (length (enrolled_in row)) < cap"
    and d: "ap_DB (snd (HandleDashboardEnroll e r (Some (i, sid)) a)) = set_student_ids i (enrolled_in row @ [sid]) (ap_DB a)"
  have row: "row \<in> set (db_schedules (ap_DB a))" "sc_id row = i"
    using find_Some_iff_mem h(1) by (auto simp: schedule_by_id_def dest: find_Some_iff_mem)
  have c: "class_fits (ap_DB a) row" by (rule fits_of [OF assms(1) row(1)])
  show ?thesis unfolding d
    by (rule set_student_ids_fit [OF assms(1) row]) (use c h assms(3) in \<open>auto simp: class_fits_def split: option.splits\<close>)
qed (use assms(1) in simp)

lemma unenroll_fits:
  assumes "classes_fit (ap_DB a)"
  shows "classes_fit (ap_DB (snd (HandleDashboardUnenroll e r (Some (i, sid)) a)))"
proof (rule unenroll_effect [of e r i sid a])
  fix row
  assume h: "List.find (\<lambda>x. sc_id x = i \<and> sc_deleted x = 0) (db_schedules (ap_DB a)) = Some row"
    and d: "ap_DB (snd (HandleDashboardUnenroll e r (Some (i, sid)) a)) = set_student_ids i (filter (\<lambda>x. x \<noteq> sid) (enrolled_in row)) (ap_DB a)"
  have row: "row \<in> set (db_schedules (ap_DB a))" "sc_id row = i" using h by (auto dest: find_Some_iff_mem)
  have c: "class_fits (ap_DB a) row" by (rule fits_of [OF assms row(1)])
  have "int (length (filter (\<lambda>x. x \<noteq> sid) (enrolled_in row))) \<le> cap" if "int (length (enrolled_in row)) \<le> cap" for cap
    by (rule order_trans [OF _ that]) simp
  with c show ?thesis unfolding d
    by (intro set_student_ids_fit [OF assms row]) (auto simp: class_fits_def list_all_iff split: option.splits)
qed (use assms in simp)

text \<open>
  A run: enrolments and withdrawals, by anybody, one after another, and whatever leaves classes and rooms alone. The query for
  the room is answered, and the student's identifier has no separator in it and no blank at its ends: the handler checks neither.
\<close>

inductive enrol_run :: "app \<Rightarrow> app \<Rightarrow> bool" where
  start: "enrol_run a a"
| call: "enrol_run a b \<Longrightarrow> \<not> ev_faults e Q_rooms \<Longrightarrow> clean_id (call_student c) \<Longrightarrow> enrol_run a (snd (serve_enrol e r c b))"
| other: "enrol_run a b \<Longrightarrow> db_schedules (ap_DB b') = db_schedules (ap_DB b) \<Longrightarrow> db_rooms (ap_DB b') = db_rooms (ap_DB b)
    \<Longrightarrow> enrol_run a b'"

lemma classes_fit_cong:
  "db_schedules db' = db_schedules db \<Longrightarrow> db_rooms db' = db_rooms db \<Longrightarrow> classes_fit db' = classes_fit db"
  by (simp add: classes_fit_def class_fits_def [abs_def] room_limit_def)


section \<open>Whose schedules\<close>

text \<open>Other teachers' schedules stay, what is new or changed is of teacher \<open>t\<close>, and keys stay unique.\<close>

definition keeps_classes :: "string \<Rightarrow> schedule_row list \<Rightarrow> schedule_row list \<Rightarrow> bool" where
  "keeps_classes t rows rows' \<longleftrightarrow>
     (\<forall>x \<in> set rows. coalesce (sc_teacher_id x) \<noteq> t \<longrightarrow> x \<in> set rows')
     \<and> (\<forall>y \<in> set rows'. y \<in> set rows \<or> coalesce (sc_teacher_id y) = t)
     \<and> distinct (map sc_id rows')"

lemma keeps_same: "distinct (map sc_id rows) \<Longrightarrow> keeps_classes t rows rows"
  by (simp add: keeps_classes_def)

lemma keeps_replace:
  assumes "distinct (map sc_id rows)" "coalesce (sc_teacher_id row) = t"
    and "\<And>x. x \<in> set rows \<Longrightarrow> sc_id x = sc_id row \<Longrightarrow> coalesce (sc_teacher_id x) = t"
  shows "keeps_classes t rows (filter (\<lambda>s. sc_id s \<noteq> sc_id row) rows @ [row])"
proof -
  have "distinct (map sc_id (filter (\<lambda>s. sc_id s \<noteq> sc_id row) rows @ [row]))"
    using assms(1) by (auto simp: distinct_map_filter image_iff)
  moreover have "x \<in> set (filter (\<lambda>s. sc_id s \<noteq> sc_id row) rows @ [row])"
    if "x \<in> set rows" "coalesce (sc_teacher_id x) \<noteq> t" for x
    using assms(3) [of x] that by (cases "sc_id x = sc_id row") simp_all
  ultimately show ?thesis using assms(2) unfolding keeps_classes_def by (auto simp del: distinct_map)
qed

lemma keeps_update_classes:
  assumes "distinct (map sc_id rows)" "\<And>x. sc_id (f x) = sc_id x" "\<And>x. sc_teacher_id (f x) = sc_teacher_id x"
    and "\<And>x. x \<in> set rows \<Longrightarrow> P x \<Longrightarrow> coalesce (sc_teacher_id x) = t"
  shows "keeps_classes t rows (update_where P f rows)"
proof -
  have "map sc_id (update_where P f rows) = map sc_id rows" by (simp add: update_where_def assms(2))
  moreover have "x \<in> set (update_where P f rows)" if "x \<in> set rows" "\<not> P x" for x
    using that unfolding set_update_where by (intro image_eqI [of _ _ x]) simp_all
  moreover have "y \<in> set rows \<or> coalesce (sc_teacher_id y) = t" if "y \<in> set (update_where P f rows)" for y
  proof -
    have "y \<in> (\<lambda>r. if P r then f r else r) ` set rows" using that by (simp only: set_update_where)
    then show ?thesis
    proof (rule imageE)
      fix x
      assume "y = (if P x then f x else x)" "x \<in> set rows"
      then show ?thesis using assms(3,4) by (cases "P x") simp_all
    qed
  qed
  ultimately show ?thesis using assms(1,4) unfolding keeps_classes_def by metis
qed

lemma live_owner_of:
  assumes "live_owner e db i = Some t" "distinct (map sc_id (db_schedules db))"
    and "x \<in> set (db_schedules db)" "sc_id x = i"
  shows "coalesce (sc_teacher_id x) = t"
proof -
  obtain y where y: "List.find (\<lambda>s. sc_id s = i \<and> sc_deleted s = 0) (db_schedules db) = Some y" "coalesce (sc_teacher_id y) = t"
    using assms(1) by (auto simp: live_owner_def split: if_splits)
  then have "y \<in> set (db_schedules db)" "sc_id y = i" by (auto dest: find_Some_iff_mem)
  then have "x = y" using assms(2-4) by (metis distinct_map inj_onD)
  with y(2) show ?thesis by simp
qed

lemma next_schedule_id_fresh:
  assumes "\<And>rs. rs \<noteq> [] \<Longrightarrow> pick rs \<in> set rs" "s \<in> set (db_schedules db)" "\<not> ev_faults e Q_schedules"
  shows "sc_id s \<noteq> next_schedule_id pick e db"
proof -
  have "sql_like ''%'' x" for x by (induction x) simp_all
  then have like: "sch_like (''SCH'' @ x)" "\<not> sch_like []" for x
    by (simp_all add: sch_like_def)
  from next_number_fresh [OF assms(1,2) like _ _ refl, of 3 "max_schedule_id pick e db" sc_id] assms(3)
  show ?thesis unfolding next_schedule_id_def max_schedule_id_def Let_def by simp
qed

lemma save_schedule_rows:
  "db_schedules (ap_DB (snd (save_schedule e i t q a))) =
    (if ev_faults e I_schedule then db_schedules (ap_DB a)
     else filter (\<lambda>s. sc_id s \<noteq> i) (db_schedules (ap_DB a)) @ [schedule_of_request i t q])"
  by (simp add: save_schedule_def replace_schedule_def schedule_of_request_def)

lemma save_keeps:
  assumes "distinct (map sc_id (db_schedules (ap_DB a)))"
    and "\<And>x. x \<in> set (db_schedules (ap_DB a)) \<Longrightarrow> sc_id x = i \<Longrightarrow> coalesce (sc_teacher_id x) = t"
  shows "keeps_classes t (db_schedules (ap_DB a)) (db_schedules (ap_DB (snd (save_schedule e i t q a))))"
  using keeps_replace [of "db_schedules (ap_DB a)" "schedule_of_request i t q" t] assms
  by (simp add: save_schedule_rows keeps_same schedule_of_request_def)

lemma schedule_save_keeps:
  assumes "GetSession e r a = (Some s, a')" "\<not> ev_faults e Q_schedules"
    and "\<And>rs. rs \<noteq> [] \<Longrightarrow> pick rs \<in> set rs" "distinct (map sc_id (db_schedules (ap_DB a)))"
  shows "keeps_classes (ss_EntityID s) (db_schedules (ap_DB a)) (db_schedules (ap_DB (snd (HandleDashboardScheduleSave pick e r q a))))"
proof -
  have a': "ap_DB a' = ap_DB a" using GetSession_DB [of e r a] assms(1) by simp
  let ?t = "ss_EntityID s"
  have new: "keeps_classes ?t (db_schedules (ap_DB a)) (db_schedules (ap_DB (snd (save_schedule e (next_schedule_id pick e (ap_DB a)) ?t q' a'))))" for q'
    using save_keeps [of a' "next_schedule_id pick e (ap_DB a)" ?t e q'] next_schedule_id_fresh [OF assms(3) _ assms(2)] assms(4) a' by auto
  have old: "keeps_classes ?t (db_schedules (ap_DB a)) (db_schedules (ap_DB (snd (save_schedule e i ?t q' a'))))"
    if "live_owner e (ap_DB a) i = Some ?t" for i q'
    using save_keeps [of a' i ?t e q'] live_owner_of [OF that assms(4)] assms(4) a' by auto
  show ?thesis
    using new old by (auto simp: HandleDashboardScheduleSave_def assms(1) a' Let_def keeps_same [OF assms(4)] split: option.splits)
qed

lemma schedule_delete_keeps:
  assumes "GetSession e r a = (Some s, a')" "distinct (map sc_id (db_schedules (ap_DB a)))"
  shows "keeps_classes (ss_EntityID s) (db_schedules (ap_DB a)) (db_schedules (ap_DB (snd (HandleDashboardScheduleDelete e r i a))))"
proof -
  have a': "ap_DB a' = ap_DB a" using GetSession_DB [of e r a] assms(1) by simp
  have "keeps_classes (ss_EntityID s) (db_schedules (ap_DB a)) (update_where (\<lambda>x. sc_id x = j)
      (\<lambda>x. x\<lparr>sc_deleted := 1, sc_deleted_at := Some n, sc_deleted_by := Some w\<rparr>) (db_schedules (ap_DB a)))"
    if "live_owner e (ap_DB a) j = Some (ss_EntityID s)" for j n w
    using live_owner_of [OF that assms(2)] assms(2) by (intro keeps_update_classes) auto
  then show ?thesis
    by (auto simp: HandleDashboardScheduleDelete_def assms(1) a' Let_def keeps_same [OF assms(2)] split: option.splits)
qed

text \<open>
  C31. A teacher changes only their own classes: whatever a session saves or deletes, and however the
  request names the class, every schedule of another teacher is still there unchanged, and every one that is
  new or changed is the session's teacher's. The database answering, a new class never takes a name in use.
\<close>

theorem teachers_keep_to_their_classes:
  assumes "GetSession e r a = (Some s, a')" "\<not> ev_faults e Q_schedules"
    and "\<And>rs. rs \<noteq> [] \<Longrightarrow> pick rs \<in> set rs" "distinct (map sc_id (db_schedules (ap_DB a)))"
    and "b = snd (HandleDashboardScheduleSave pick e r q a) \<or> b = snd (HandleDashboardScheduleDelete e r i a)"
  shows "keeps_classes (ss_EntityID s) (db_schedules (ap_DB a)) (db_schedules (ap_DB b))"
  using assms(5) schedule_save_keeps [OF assms(1-4)] schedule_delete_keeps [OF assms(1,4)] by blast

section \<open>Examples\<close>

definition sch001 :: schedule_row where
  "sch001 = schedule_of_request ''SCH001'' ''T01'' \<lparr>sq_ID = [], sq_DayOfWeek = ''Monday'', sq_StartTime = ''16:00'',
     sq_EndTime = ''17:00'', sq_RoomID = ''R1'', sq_Subject = ''Math'', sq_StudentIDs = ''S002'', sq_EffectiveFrom = [],
     sq_EffectiveUntil = [], sq_Type = []\<rparr>"

definition room1 :: room_row where
  "room1 = \<lparr>ro_id = ''R1'', ro_name = ''Room 1'', ro_capacity = Some 2, ro_notes = None, ro_deleted = 0,
     ro_deleted_at = None, ro_deleted_by = None, ro_row_hash = None\<rparr>"

definition class_app :: app where
  "class_app = visitor_app\<lparr>ap_DB := reading_db\<lparr>db_schedules := [sch001], db_rooms := [room1]\<rparr>\<rparr>"

lemma class_app_fits: "classes_fit (ap_DB class_app)"
  by (simp add: classes_fit_def class_fits_def class_app_def sch001_def room1_def schedule_of_request_def enrolled_in_def
      splitSemicolon_def split_on_def room_limit_def clean_id_def is_space_def trim_space_def)


definition teacher_app :: app where
  "teacher_app = class_app\<lparr>ap_Sessions := CreateWithDisplayName 0 ''cookie'' ''t02'' ''user'' ''teacher'' ''T02'' ''Bob'' Map.empty\<rparr>"

lemma teachers_keep_to_their_classes_witness:
  "sch001 \<in> set (db_schedules (ap_DB (snd (HandleDashboardScheduleDelete (demo_env 0) cookie_request (Some ''SCH001'') teacher_app))))"
proof -
  obtain s b where s: "GetSession (demo_env 0) cookie_request teacher_app = (Some s, b)" "ss_EntityID s = ''T02''"
    by (simp add: GetSession_def GetSessionToken_def cookie_request_def post_request_def Sessions_Get_def on_sessions_def
      Get_def teacher_app_def CreateWithDisplayName_def no_session_def demo_env_def SessionMaxAge_def syncActive_def in_range_def Let_def)
  have rows: "db_schedules (ap_DB teacher_app) = [sch001]" by (simp add: teacher_app_def class_app_def)
  have "\<not> ev_faults (demo_env 0) q" for q by (simp add: demo_env_def)
  moreover have "rs \<noteq> [] \<Longrightarrow> hd rs \<in> set rs" for rs :: "schedule_row list" by simp
  moreover have "distinct (map sc_id (db_schedules (ap_DB teacher_app)))" by (simp add: rows)
  ultimately have "keeps_classes ''T02'' [sch001]
      (db_schedules (ap_DB (snd (HandleDashboardScheduleDelete (demo_env 0) cookie_request (Some ''SCH001'') teacher_app))))"
    using teachers_keep_to_their_classes [OF s(1), of hd] s(2) rows by metis
  moreover have "coalesce (sc_teacher_id sch001) \<noteq> ''T02''" by (simp add: sch001_def schedule_of_request_def)
  ultimately show ?thesis unfolding keeps_classes_def by simp
qed

text \<open>The teacher Bob enrols a student called a;b;c into a room for two with one place left: four students are in the class.\<close>

lemma separator_overfills:
  "map enrolled_in (db_schedules (ap_DB (snd (HandleDashboardEnroll (demo_env 0) cookie_request (Some (''SCH001'', ''a;b;c'')) teacher_app))))
     = [[''S002'', ''a'', ''b'', ''c'']]"
  "room_limit (ap_DB teacher_app) ''R1'' = Some 2"
proof -
  obtain s b where s: "GetSession (demo_env 0) cookie_request teacher_app = (Some s, b)" "ss_UserType s = ''teacher''"
    by (simp add: GetSession_def GetSessionToken_def cookie_request_def post_request_def Sessions_Get_def on_sessions_def
      Get_def teacher_app_def CreateWithDisplayName_def no_session_def demo_env_def SessionMaxAge_def syncActive_def in_range_def Let_def)
  have b: "ap_DB b = ap_DB class_app" 
  proof -
    have "ap_DB b = ap_DB teacher_app" using GetSession_DB [of "demo_env 0" cookie_request teacher_app] s(1) by simp
    then show ?thesis by (simp add: teacher_app_def)
  qed
  have nf: "\<not> ev_faults (demo_env 0) q" for q by (simp add: demo_env_def)
  have m: "rq_Method cookie_request = ''POST''" by (simp add: cookie_request_def post_request_def)
  have db: "schedule_by_id (ap_DB class_app) ''SCH001'' = Some sch001" "db_schedules (ap_DB class_app) = [sch001]"
    by (simp_all add: schedule_by_id_def class_app_def sch001_def schedule_of_request_def)
  have row: "splitSemicolon (coalesce (sc_student_ids sch001)) = [''S002'']" "sc_deleted sch001 = 0" "coalesce (sc_room_id sch001) = ''R1''"
    "sc_id sch001 = ''SCH001''"
    by (simp_all add: sch001_def schedule_of_request_def splitSemicolon_def split_on_def trim_space_def is_space_def)
  have cap: "room_capacity (demo_env 0) (ap_DB class_app) ''R1'' = Some 2"
    using nf by (simp add: room_capacity_def class_app_def room1_def)
  have "splitSemicolon ''S002;a;b;c'' = [''S002'', ''a'', ''b'', ''c'']" by code_simp
  then show "map enrolled_in (db_schedules (ap_DB (snd (HandleDashboardEnroll (demo_env 0) cookie_request (Some (''SCH001'', ''a;b;c'')) teacher_app))))
     = [[''S002'', ''a'', ''b'', ''c'']]"
    by (simp add: HandleDashboardEnroll_def m s b db row cap nf verifyStudentAccess_def Let_def set_student_ids_def update_where_def enrolled_in_def)
  show "room_limit (ap_DB teacher_app) ''R1'' = Some 2" by (simp add: room_limit_def teacher_app_def class_app_def room1_def)
qed

end
