(* ===== verification/Cache.thy ===== *)
theory Cache
  imports Prelude
begin

text \<open>
  The expiring cache of the note server, \<open>memos/store/cache/cache.go\<close>. The operations are taken one at a
  time, with one reading of the clock each. The concurrent map of Go's \<open>sync\<close> package is a list of entries
  with distinct keys; the order in which \<open>Range\<close> visits them is the parameter \<open>order\<close>, a permutation. The map
  holds items only, so the branches for a value of another type are left out. The calls of \<open>OnEviction\<close>
  are recorded.
\<close>

section \<open>The cache\<close>

datatype 'v any_value = VString string | VBytes "8 word list" | VMap "(string \<times> 'v) list" | VOther 'v

definition estimateSize :: "'v any_value \<Rightarrow> nat" where
  "estimateSize v = (case v of VString s \<Rightarrow> length s + 24 | VBytes b \<Rightarrow> length b + 24 | VMap m \<Rightarrow> length m * 64 | VOther x \<Rightarrow> 64)"

record 'v item =
  it_value :: "'v any_value"
  it_expiration :: int
  it_size :: nat

record config =
  cf_DefaultTTL :: int
  cf_CleanupInterval :: int
  cf_MaxItems :: int
  cf_OnEviction :: bool

definition DefaultConfig :: config where
  "DefaultConfig = \<lparr>cf_DefaultTTL = 600 * 1000000000, cf_CleanupInterval = 300 * 1000000000, cf_MaxItems = 1000, cf_OnEviction = False\<rparr>"

type_synonym 'v entries = "(string \<times> 'v item) list"

record 'v cache =
  ca_itemCount :: int
  ca_data :: "'v entries"
  ca_config :: config
  ca_stopped :: bool
  ca_evicted :: "(string \<times> 'v any_value) list"

definition NewCache :: "config \<Rightarrow> 'v cache" where
  "NewCache cfg = \<lparr>ca_itemCount = 0, ca_data = [], ca_config = cfg, ca_stopped = False, ca_evicted = []\<rparr>"

text \<open>\<open>Load\<close>, \<open>Delete\<close> and \<open>Store\<close> of the map.\<close>

definition map_Load :: "string \<Rightarrow> 'v entries \<Rightarrow> 'v item option" where
  "map_Load k m = map_of m k"

definition map_Delete :: "string \<Rightarrow> 'v entries \<Rightarrow> 'v entries" where
  "map_Delete k m = filter (\<lambda>x. fst x \<noteq> k) m"

definition map_Store :: "string \<Rightarrow> 'v item \<Rightarrow> 'v entries \<Rightarrow> 'v entries" where
  "map_Store k i m = (k, i) # map_Delete k m"

definition on_eviction :: "string \<times> 'v any_value \<Rightarrow> 'v cache \<Rightarrow> 'v cache" where
  "on_eviction x c = (if cf_OnEviction (ca_config c) then c\<lparr>ca_evicted := ca_evicted c @ [x]\<rparr> else c)"

section \<open>Evicting the oldest\<close>

definition newest_index :: "'v entries \<Rightarrow> nat" where
  "newest_index cands = fold (\<lambda>i newest. if it_expiration (snd (cands ! newest)) < it_expiration (snd (cands ! i)) then i else newest)
     [1..<length cands] 0"

definition consider_oldest :: "nat \<Rightarrow> string \<times> 'v item \<Rightarrow> 'v entries \<Rightarrow> 'v entries" where
  "consider_oldest threshold x cands =
     (if length cands < threshold then cands @ [x]
      else let newest = newest_index cands in
        if it_expiration (snd x) < it_expiration (snd (cands ! newest)) then cands[newest := x] else cands)"

definition oldest :: "nat \<Rightarrow> 'v entries \<Rightarrow> 'v entries" where
  "oldest threshold xs = fold (consider_oldest threshold) xs []"

definition drop_entry :: "string \<times> 'v item \<Rightarrow> 'v cache \<Rightarrow> 'v cache" where
  "drop_entry x c = on_eviction (fst x, it_value (snd x)) (c\<lparr>ca_data := map_Delete (fst x) (ca_data c)\<rparr>)"

definition cleanupOldest :: "('v entries \<Rightarrow> 'v entries) \<Rightarrow> 'v cache \<Rightarrow> 'v cache" where
  "cleanupOldest order c =
     (let threshold = nat (max (cf_MaxItems (ca_config c) div 5) 1) in
      if ca_itemCount c \<le> cf_MaxItems (ca_config c) then c
      else let cands = oldest threshold (order (ca_data c)); c = fold drop_entry cands c
           in if 0 < length cands then c\<lparr>ca_itemCount := ca_itemCount c - int (length cands)\<rparr> else c)"

section \<open>Operations\<close>

definition Cache_SetWithTTL :: "('v entries \<Rightarrow> 'v entries) \<Rightarrow> int \<Rightarrow> string \<Rightarrow> 'v any_value \<Rightarrow> int \<Rightarrow> 'v cache \<Rightarrow> 'v cache" where
  "Cache_SetWithTTL order now key v ttl c =
     (let size = estimateSize v;
          c = (case map_Load key (ca_data c) of
                 Some _ \<Rightarrow> c\<lparr>ca_data := map_Delete key (ca_data c)\<rparr>
               | None \<Rightarrow> c\<lparr>ca_itemCount := ca_itemCount c + 1\<rparr>);
          c = c\<lparr>ca_data := map_Store key \<lparr>it_value = v, it_expiration = now + ttl, it_size = size\<rparr> (ca_data c)\<rparr>
      in if 0 < cf_MaxItems (ca_config c) \<and> cf_MaxItems (ca_config c) < ca_itemCount c then cleanupOldest order c else c)"

definition Cache_Set :: "('v entries \<Rightarrow> 'v entries) \<Rightarrow> int \<Rightarrow> string \<Rightarrow> 'v any_value \<Rightarrow> 'v cache \<Rightarrow> 'v cache" where
  "Cache_Set order now key v c = Cache_SetWithTTL order now key v (cf_DefaultTTL (ca_config c)) c"

definition Cache_Get :: "int \<Rightarrow> string \<Rightarrow> 'v cache \<Rightarrow> 'v any_value option \<times> 'v cache" where
  "Cache_Get now key c =
     (case map_Load key (ca_data c) of
        None \<Rightarrow> (None, c)
      | Some itm \<Rightarrow>
          if it_expiration itm < now
          then (None, on_eviction (key, it_value itm)
                  (c\<lparr>ca_data := map_Delete key (ca_data c), ca_itemCount := ca_itemCount c - 1\<rparr>))
          else (Some (it_value itm), c))"

definition Cache_Delete :: "string \<Rightarrow> 'v cache \<Rightarrow> 'v cache" where
  "Cache_Delete key c =
     (case map_Load key (ca_data c) of
        None \<Rightarrow> c
      | Some itm \<Rightarrow> on_eviction (key, it_value itm)
          (c\<lparr>ca_data := map_Delete key (ca_data c), ca_itemCount := ca_itemCount c - 1\<rparr>))"

definition Cache_Clear :: "('v entries \<Rightarrow> 'v entries) \<Rightarrow> 'v cache \<Rightarrow> 'v cache" where
  "Cache_Clear order c =
     (fold (\<lambda>x c. let c = on_eviction (fst x, it_value (snd x)) c in c\<lparr>ca_data := map_Delete (fst x) (ca_data c)\<rparr>)
        (order (ca_data c)) c)\<lparr>ca_itemCount := 0\<rparr>"

definition Cache_Size :: "'v cache \<Rightarrow> int" where
  "Cache_Size c = ca_itemCount c"

definition Cache_Close :: "'v cache \<Rightarrow> 'v cache" where
  "Cache_Close c = c\<lparr>ca_stopped := True\<rparr>"

text \<open>The order of the calls after a clean-up is that of another map: \<open>calls\<close>.\<close>

definition Cache_cleanup ::
  "('v entries \<Rightarrow> 'v entries) \<Rightarrow> ('v entries \<Rightarrow> 'v entries) \<Rightarrow> int \<Rightarrow> 'v cache \<Rightarrow> 'v cache" where
  "Cache_cleanup order calls now c =
     (let gone = filter (\<lambda>x. it_expiration (snd x) < now) (order (ca_data c));
          c = fold (\<lambda>x c. c\<lparr>ca_data := map_Delete (fst x) (ca_data c)\<rparr>) gone c
      in if gone \<noteq> []
         then fold (\<lambda>x. on_eviction (fst x, it_value (snd x))) (calls gone)
                (c\<lparr>ca_itemCount := ca_itemCount c - int (length gone)\<rparr>)
         else c)"

text \<open>A tick of the clean-up loop, which ends with \<open>Close\<close>.\<close>

definition cleanupLoop_tick ::
  "('v entries \<Rightarrow> 'v entries) \<Rightarrow> ('v entries \<Rightarrow> 'v entries) \<Rightarrow> int \<Rightarrow> 'v cache \<Rightarrow> 'v cache" where
  "cleanupLoop_tick order calls now c = (if ca_stopped c then c else Cache_cleanup order calls now c)"

end
