(* ===== verification/CacheFacts.thy ===== *)
theory CacheFacts
  imports Cache
begin

text \<open>
  What the cache promises: it counts its entries, keeps within its limit, evicts what expires first, and
  shows what a map without limit and without eviction would show, or nothing. The promise its clients rely
  on is the locale \<open>caching\<close>, interpreted on the cache at the end.
\<close>

section \<open>Entries\<close>

abbreviation expires :: "string \<times> 'v item \<Rightarrow> int" where
  "expires x \<equiv> it_expiration (snd x)"

lemma map_of_filter_keys: "map_of (filter (\<lambda>x. P (fst x)) m) k = (if P k then map_of m k else None)"
  by (induction m) auto

lemma Load_Delete [simp]: "map_Load k' (map_Delete k m) = (if k' = k then None else map_Load k' m)"
  by (simp add: map_Load_def map_Delete_def map_of_filter_keys [of "\<lambda>x. x \<noteq> k"])

lemma Load_Store [simp]: "map_Load k' (map_Store k i m) = (if k' = k then Some i else map_Load k' m)"
  by (simp add: map_Load_def map_Store_def map_Delete_def map_of_filter_keys [of "\<lambda>x. x \<noteq> k"])

lemma keys_Delete: "distinct (map fst m) \<Longrightarrow> distinct (map fst (map_Delete k m))"
  by (simp add: map_Delete_def distinct_map_filter)

lemma keys_Store: "distinct (map fst m) \<Longrightarrow> distinct (map fst (map_Store k i m))"
  by (auto simp: map_Store_def map_Delete_def distinct_map_filter)

lemma Delete_Delete [simp]: "map_Delete k (map_Delete k m) = map_Delete k m"
  by (simp add: map_Delete_def)

lemma length_Delete: "distinct (map fst m) \<Longrightarrow> map_Load k m = Some i \<Longrightarrow> length m = Suc (length (map_Delete k m))"
proof (induction m)
  case (Cons x m)
  show ?case
  proof (cases "fst x = k")
    case True
    then have "map_Delete k m = m"
      using Cons.prems(1) unfolding map_Delete_def by (auto simp: filter_id_conv image_iff)
    with True show ?thesis by (simp add: map_Delete_def)
  next
    case False
    with Cons show ?thesis by (simp add: map_Load_def map_Delete_def)
  qed
qed (simp add: map_Load_def)

lemma Delete_absent: "map_Load k m = None \<Longrightarrow> map_Delete k m = m"
  by (induction m) (auto simp: map_Load_def map_Delete_def split: if_splits)

lemma fold_Delete: "fold (\<lambda>x. map_Delete (fst x)) xs m = filter (\<lambda>y. fst y \<notin> fst ` set xs) m"
  by (induction xs arbitrary: m) (auto simp: map_Delete_def intro!: filter_cong)

lemma data_fold:
  assumes "\<And>x c. ca_data (f x c) = map_Delete (fst x) (ca_data c)"
  shows "ca_data (fold f xs c) = filter (\<lambda>y. fst y \<notin> fst ` set xs) (ca_data c)"
proof -
  have "ca_data (fold f xs c) = fold (\<lambda>x. map_Delete (fst x)) xs (ca_data c)"
    by (induction xs arbitrary: c) (simp_all add: assms)
  then show ?thesis by (simp add: fold_Delete)
qed

lemma same_fold:
  assumes "\<And>x c. g (f x c) = g c"
  shows "g (fold f xs c) = g c"
  by (induction xs arbitrary: c) (simp_all add: assms)

text \<open>Dropping some of the entries: what is left and how many.\<close>

lemma filter_dropped:
  assumes "distinct (map fst m)" "mset xs \<subseteq># mset m"
  shows "mset (filter (\<lambda>y. fst y \<notin> fst ` set xs) m) = mset m - mset xs"
    and "length (filter (\<lambda>y. fst y \<notin> fst ` set xs) m) + length xs = length m"
proof -
  have sub: "set xs \<subseteq> set m" using set_mset_mono [OF assms(2)] by simp
  have dm: "distinct m" using assms(1) by (simp add: distinct_map)
  have "distinct xs" unfolding distinct_count_atmost_1
  proof
    fix x
    have "count (mset xs) x \<le> count (mset m) x" using assms(2) by (rule mset_subset_eq_count)
    also have "count (mset m) x = (if x \<in> set m then 1 else 0)" using dm unfolding distinct_count_atmost_1 by blast
    also have "\<dots> \<le> 1" by simp
    finally have le: "count (mset xs) x \<le> 1" .
    show "count (mset xs) x = (if x \<in> set xs then 1 else 0)"
    proof (cases "x \<in> set xs")
      case True
      then have "0 < count (mset xs) x" by simp
      with le have "count (mset xs) x = 1" by linarith
      with True show ?thesis by simp
    qed simp
  qed
  have key: "fst y \<in> fst ` set xs \<longleftrightarrow> y \<in> set xs" if "y \<in> set m" for y
    using assms(1) sub that by (intro inj_on_image_mem_iff) (auto simp: distinct_map)
  have f: "filter (\<lambda>y. fst y \<notin> fst ` set xs) m = filter (\<lambda>y. y \<notin> set xs) m"
    by (rule filter_cong [OF refl]) (simp add: key)
  have "filter_mset (\<lambda>y. y \<in> set xs) (mset m) = mset xs"
  proof (rule multiset_eqI)
    fix y
    have "count (mset m) y = (if y \<in> set m then 1 else 0)" "count (mset xs) y = (if y \<in> set xs then 1 else 0)"
      using dm \<open>distinct xs\<close> unfolding distinct_count_atmost_1 by blast+
    then show "count (filter_mset (\<lambda>y. y \<in> set xs) (mset m)) y = count (mset xs) y"
      using subsetD [OF sub, of y] by simp
  qed
  moreover have "mset m = filter_mset (\<lambda>y. y \<in> set xs) (mset m) + filter_mset (\<lambda>y. y \<notin> set xs) (mset m)"
    by (rule multiset_partition)
  ultimately have p: "mset m = mset xs + mset (filter (\<lambda>y. y \<notin> set xs) m)" by simp
  then show "mset (filter (\<lambda>y. fst y \<notin> fst ` set xs) m) = mset m - mset xs"
    unfolding f by (metis add_diff_cancel_left')
  have "size (mset m) = size (mset xs) + size (mset (filter (\<lambda>y. y \<notin> set xs) m))"
    by (subst p) (rule size_union)
  then show "length (filter (\<lambda>y. fst y \<notin> fst ` set xs) m) + length xs = length m"
    unfolding f size_mset by (simp only: add.commute)
qed

section \<open>The oldest\<close>

lemma newest_fold:
  fixes cands :: "'v entries"
  assumes "b < n" "\<And>i. i \<in> set js \<Longrightarrow> i < n"
  defines "r \<equiv> fold (\<lambda>i newest. if expires (cands ! newest) < expires (cands ! i) then i else newest) js b"
  shows "r < n" "expires (cands ! b) \<le> expires (cands ! r)" "\<And>i. i \<in> set js \<Longrightarrow> expires (cands ! i) \<le> expires (cands ! r)"
proof -
  have "r < n \<and> expires (cands ! b) \<le> expires (cands ! r) \<and> (\<forall>i \<in> set js. expires (cands ! i) \<le> expires (cands ! r))"
    unfolding r_def using assms(1,2)
  proof (induction js arbitrary: b)
    case (Cons j js)
    show ?case
      using Cons.IH [of b] Cons.IH [of j] Cons.prems by (auto split: if_splits)
  qed simp
  then show "r < n" "expires (cands ! b) \<le> expires (cands ! r)" "\<And>i. i \<in> set js \<Longrightarrow> expires (cands ! i) \<le> expires (cands ! r)"
    by auto
qed

lemma newest_index:
  assumes "cands \<noteq> []"
  shows "newest_index cands < length cands" "\<And>x. x \<in> set cands \<Longrightarrow> expires x \<le> expires (cands ! newest_index cands)"
proof -
  have z: "0 < length cands" and l: "\<And>i. i \<in> set [1..<length cands] \<Longrightarrow> i < length cands" using assms by auto
  show "newest_index cands < length cands" unfolding newest_index_def by (rule newest_fold(1) [OF z l])
  fix x
  assume "x \<in> set cands"
  then obtain i where i: "i < length cands" "x = cands ! i" by (auto simp: in_set_conv_nth)
  show "expires x \<le> expires (cands ! newest_index cands)"
  proof (cases i)
    case 0
    show ?thesis unfolding newest_index_def i(2) 0 by (rule newest_fold(2) [OF z l])
  next
    case (Suc j)
    then have j: "i \<in> set [1..<length cands]" using i(1) by simp
    show ?thesis unfolding newest_index_def i(2) by (rule newest_fold(3) [OF z l j])
  qed
qed

text \<open>Among the entries seen, the candidates are as many as asked for and none is newer than one passed over.\<close>

definition oldest_of :: "nat \<Rightarrow> 'v entries \<Rightarrow> 'v entries \<Rightarrow> bool" where
  "oldest_of n xs cands \<longleftrightarrow> mset cands \<subseteq># mset xs \<and> length cands = min n (length xs)
     \<and> (\<forall>y \<in># mset xs - mset cands. \<forall>x \<in> set cands. expires x \<le> expires y)"

lemma consider_oldest:
  assumes "oldest_of n xs cands" "0 < n"
  shows "oldest_of n (xs @ [x]) (consider_oldest n x cands)"
proof (cases "length cands < n")
  case True
  then have all: "length cands = length xs" using assms(1) by (auto simp: oldest_of_def)
  then have "mset cands = mset xs"
    using assms(1) by (metis mset_subset_size nat_neq_iff oldest_of_def size_mset subset_mset.le_imp_less_or_eq)
  then show ?thesis using True all by (simp add: consider_oldest_def oldest_of_def)
next
  case False
  then have len: "length cands = n" using assms(1) by (simp add: oldest_of_def)
  then have ne: "cands \<noteq> []" using assms(2) by auto
  let ?k = "newest_index cands"
  let ?w = "cands ! ?k"
  note k = newest_index [OF ne]
  have sub: "mset cands \<subseteq># mset xs" and old: "\<And>y z. y \<in># mset xs - mset cands \<Longrightarrow> z \<in> set cands \<Longrightarrow> expires z \<le> expires y"
    using assms(1) by (auto simp: oldest_of_def)
  have lenx: "n \<le> length xs" using assms(1) len unfolding oldest_of_def by (metis min.cobounded2)
  show ?thesis
  proof (cases "expires x < expires ?w")
    case True
    let ?c = "cands[?k := x]"
    have m: "mset ?c = add_mset x (mset cands) - {#?w#}" using k(1) by (simp add: mset_update)
    have w: "?w \<in># mset cands" using k(1) by simp
    have c: "mset ?c \<subseteq># mset (xs @ [x])"
    proof -
      have "add_mset x (mset cands) \<subseteq># add_mset x (mset xs)" using sub by simp
      then show ?thesis unfolding m by (metis diff_subset_eq_self mset.simps(2) mset_append union_mset_add_mset_right subset_mset.order_trans add.right_neutral mset.simps(1))
    qed
    have rest: "mset (xs @ [x]) - mset ?c \<subseteq># add_mset ?w (mset xs - mset cands)"
    proof -
      have "mset ?c = add_mset x (mset cands - {#?w#})" using w unfolding m by (simp add: add_mset_commute diff_union_swap2)
      then have "mset (xs @ [x]) - mset ?c = mset xs - (mset cands - {#?w#})" by simp
      also have "\<dots> \<subseteq># add_mset ?w (mset xs - mset cands)"
      proof (rule mset_subset_eqI)
        fix y
        show "count (mset xs - (mset cands - {#?w#})) y \<le> count (add_mset ?w (mset xs - mset cands)) y"
          by (cases "y = ?w") auto
      qed
      finally show ?thesis .
    qed
    have "expires z \<le> expires y" if y: "y \<in># mset (xs @ [x]) - mset ?c" and z: "z \<in> set ?c" for y z
    proof -
      have zs: "z = x \<or> z \<in> set cands" using z by (auto dest: subsetD [OF set_update_subset_insert])
      have ys: "y = ?w \<or> y \<in># mset xs - mset cands" using mset_subset_eqD [OF rest y] by auto
      have z': "expires z \<le> expires ?w" using zs True k(2) [of z] by auto
      show ?thesis
      proof (cases "y = ?w")
        case True
        then show ?thesis using z' by simp
      next
        case False
        then have "expires ?w \<le> expires y" using ys old [of y ?w] w by simp
        then show ?thesis using z' by simp
      qed
    qed
    with c show ?thesis using False True len lenx by (simp add: consider_oldest_def Let_def oldest_of_def)
  next
    case no: False
    have "mset cands \<subseteq># mset (xs @ [x])"
      by (rule subset_mset.order_trans [OF sub]) simp
    moreover have "y \<in># mset (xs @ [x]) - mset cands \<Longrightarrow> y = x \<or> y \<in># mset xs - mset cands" for y
      by (auto simp: in_diff_count split: if_splits)
    ultimately show ?thesis
      using False len lenx no old k(2) by (fastforce simp: consider_oldest_def Let_def oldest_of_def)
  qed
qed

lemma oldest_correct: "0 < n \<Longrightarrow> oldest_of n xs (oldest n xs)"
proof (induction xs rule: rev_induct)
  case (snoc x xs)
  then show ?case using consider_oldest [of n xs "oldest n xs" x] by (simp add: oldest_def)
qed (simp add: oldest_def oldest_of_def)

section \<open>What an operation leaves\<close>

definition permuting :: "('a list \<Rightarrow> 'a list) \<Rightarrow> bool" where
  "permuting order \<longleftrightarrow> (\<forall>xs. mset (order xs) = mset xs)"

definition cache_ok :: "'v cache \<Rightarrow> bool" where
  "cache_ok c \<longleftrightarrow> distinct (map fst (ca_data c)) \<and> ca_itemCount c = int (length (ca_data c))
     \<and> (0 < cf_MaxItems (ca_config c) \<longrightarrow> ca_itemCount c \<le> cf_MaxItems (ca_config c))"

lemma on_eviction_simps [simp]:
  "ca_data (on_eviction x c) = ca_data c" "ca_itemCount (on_eviction x c) = ca_itemCount c"
  "ca_config (on_eviction x c) = ca_config c" "ca_stopped (on_eviction x c) = ca_stopped c"
  by (simp_all add: on_eviction_def)

lemma drop_entry_simps [simp]:
  "ca_data (drop_entry x c) = map_Delete (fst x) (ca_data c)" "ca_itemCount (drop_entry x c) = ca_itemCount c"
  "ca_config (drop_entry x c) = ca_config c" "ca_stopped (drop_entry x c) = ca_stopped c"
  by (simp_all add: drop_entry_def)

lemma fold_drop [simp]:
  "ca_itemCount (fold drop_entry xs c) = ca_itemCount c" "ca_config (fold drop_entry xs c) = ca_config c"
  "ca_stopped (fold drop_entry xs c) = ca_stopped c"
  by (rule same_fold, simp)+

lemma Load_filter_keys: "map_Load k (filter (\<lambda>y. fst y \<notin> K) m) = (if k \<in> K then None else map_Load k m)"
  using map_of_filter_keys [of "\<lambda>x. x \<notin> K" m k] by (simp add: map_Load_def)

lemma Load_in: "distinct (map fst m) \<Longrightarrow> map_Load k m = Some i \<longleftrightarrow> (k, i) \<in> set m"
  by (simp add: map_Load_def)

text \<open>
  The clean-up of a cache that is full drops as many entries as it is to, and none that expires later than
  one it keeps.
\<close>

lemma evicts_oldest:
  assumes "distinct (map fst (ca_data c))" "permuting order" "ca_itemCount c = int (length (ca_data c))"
    and "cf_MaxItems (ca_config c) < ca_itemCount c" "0 < cf_MaxItems (ca_config c)"
  shows "\<exists>gone. mset (ca_data c) = mset (ca_data (cleanupOldest order c)) + mset gone
      \<and> int (length gone) = max (cf_MaxItems (ca_config c) div 5) 1
      \<and> ca_data (cleanupOldest order c) = filter (\<lambda>y. fst y \<notin> fst ` set gone) (ca_data c)
      \<and> (\<forall>x \<in> set gone. \<forall>y \<in> set (ca_data (cleanupOldest order c)). expires x \<le> expires y)
      \<and> ca_itemCount (cleanupOldest order c) = int (length (ca_data (cleanupOldest order c)))"
proof -
  define n where "n = nat (max (cf_MaxItems (ca_config c) div 5) 1)"
  have n: "0 < n" "int n = max (cf_MaxItems (ca_config c) div 5) 1" by (auto simp: n_def)
  define gone where "gone = oldest n (order (ca_data c))"
  have old: "oldest_of n (order (ca_data c)) gone" unfolding gone_def by (rule oldest_correct [OF n(1)])
  have m: "mset (order (ca_data c)) = mset (ca_data c)" using assms(2) by (simp add: permuting_def)
  then have lo: "length (order (ca_data c)) = length (ca_data c)" by (metis size_mset)
  have sub: "mset gone \<subseteq># mset (ca_data c)" using old m by (simp add: oldest_of_def)
  have le: "int n \<le> int (length (ca_data c))" using n(2) assms(3-5) by (simp add: max_def) linarith
  then have len: "length gone = n" using old lo by (simp add: oldest_of_def)
  then have ne: "gone \<noteq> []" using n(1) by auto
  have data: "ca_data (cleanupOldest order c) = filter (\<lambda>y. fst y \<notin> fst ` set gone) (ca_data c)"
    using assms(4) ne data_fold [of drop_entry gone c]
    by (simp add: cleanupOldest_def Let_def n_def [symmetric] gone_def [symmetric])
  note d = filter_dropped [OF assms(1) sub]
  have cnt: "ca_itemCount (cleanupOldest order c) = ca_itemCount c - int n"
    using assms(4) len ne
    by (simp add: cleanupOldest_def Let_def n_def [symmetric] gone_def [symmetric])
  have "expires x \<le> expires y" if "x \<in> set gone" "y \<in> set (ca_data (cleanupOldest order c))" for x y
  proof -
    have "y \<in># mset (ca_data c) - mset gone" using that(2) unfolding data d(1) [symmetric] by simp
    then show ?thesis using old m that(1) by (simp add: oldest_of_def)
  qed
  moreover have "mset (ca_data c) = mset (ca_data (cleanupOldest order c)) + mset gone"
    unfolding data d(1) using sub by simp
  moreover have "ca_itemCount (cleanupOldest order c) = int (length (ca_data (cleanupOldest order c)))"
    using cnt assms(3) d(2) len unfolding data by linarith
  ultimately show ?thesis using data len n(2) by (intro exI [of _ gone]) simp
qed

lemma evicts_keys:
  assumes "distinct (map fst (ca_data c))" "permuting order" "ca_itemCount c = int (length (ca_data c))"
    and "cf_MaxItems (ca_config c) < ca_itemCount c" "0 < cf_MaxItems (ca_config c)"
  shows "\<exists>K. ca_data (cleanupOldest order c) = filter (\<lambda>y. fst y \<notin> K) (ca_data c)"
  using evicts_oldest [OF assms] by (elim exE conjE) (rule exI)

lemma cleanupOldest_config [simp]:
  "ca_config (cleanupOldest order c) = ca_config c" "ca_stopped (cleanupOldest order c) = ca_stopped c"
  by (simp_all add: cleanupOldest_def Let_def)

definition keys_in :: "'v cache \<Rightarrow> string set" where
  "keys_in c = {k. map_Load k (ca_data c) \<noteq> None}"

lemma length_keys: "distinct (map fst m) \<Longrightarrow> length m = card {k. map_Load k m \<noteq> None}"
proof -
  assume d: "distinct (map fst m)"
  have "{k. map_Load k m \<noteq> None} = set (map fst m)" by (force simp: map_Load_def map_of_eq_None_iff)
  then show ?thesis using distinct_card [OF d] by simp
qed

lemma Set_keeps:
  assumes "cache_ok c" "permuting order"
  shows "cache_ok (Cache_SetWithTTL order now key v ttl c)"
    and "map_Load k (ca_data (Cache_SetWithTTL order now key v ttl c)) = Some i \<Longrightarrow>
      (if k = key then i = \<lparr>it_value = v, it_expiration = now + ttl, it_size = estimateSize v\<rparr> else map_Load k (ca_data c) = Some i)"
    and "cf_MaxItems (ca_config c) \<le> 0 \<or> int (card (insert key (keys_in c))) \<le> cf_MaxItems (ca_config c)
      \<Longrightarrow> map_Load k (ca_data (Cache_SetWithTTL order now key v ttl c)) =
      (if k = key then Some \<lparr>it_value = v, it_expiration = now + ttl, it_size = estimateSize v\<rparr> else map_Load k (ca_data c))"
    and "ca_config (Cache_SetWithTTL order now key v ttl c) = ca_config c"
proof -
  let ?i = "\<lparr>it_value = v, it_expiration = now + ttl, it_size = estimateSize v\<rparr>"
  define c1 where "c1 = (case map_Load key (ca_data c) of
       Some _ \<Rightarrow> c\<lparr>ca_data := map_Delete key (ca_data c)\<rparr> | None \<Rightarrow> c\<lparr>ca_itemCount := ca_itemCount c + 1\<rparr>)"
  define c2 where "c2 = c1\<lparr>ca_data := map_Store key ?i (ca_data c1)\<rparr>"
  have set: "Cache_SetWithTTL order now key v ttl c =
      (if 0 < cf_MaxItems (ca_config c2) \<and> cf_MaxItems (ca_config c2) < ca_itemCount c2 then cleanupOldest order c2 else c2)"
    by (simp add: Cache_SetWithTTL_def Let_def c1_def c2_def)
  have data: "ca_data c2 = map_Store key ?i (ca_data c)"
    by (simp add: c2_def c1_def map_Store_def split: option.split)
  have cfg: "ca_config c2 = ca_config c" by (simp add: c2_def c1_def split: option.split)
  have dis: "distinct (map fst (ca_data c2))" unfolding data using assms(1) by (intro keys_Store) (simp add: cache_ok_def)
  have cnt: "ca_itemCount c2 = int (length (ca_data c2))"
    using assms(1) length_Delete [of "ca_data c" key] Delete_absent [of key "ca_data c"] unfolding data
    by (simp add: c2_def c1_def map_Store_def cache_ok_def split: option.split)
  have load: "map_Load k (ca_data c2) = (if k = key then Some ?i else map_Load k (ca_data c))" for k
    by (simp add: data)
  show "ca_config (Cache_SetWithTTL order now key v ttl c) = ca_config c" by (simp add: set cfg)
  have "{k. map_Load k (ca_data c2) \<noteq> None} = insert key (keys_in c)" by (auto simp: load keys_in_def)
  then have "ca_itemCount c2 = int (card (insert key (keys_in c)))" using cnt length_keys [OF dis] by simp
  then show "cf_MaxItems (ca_config c) \<le> 0 \<or> int (card (insert key (keys_in c))) \<le> cf_MaxItems (ca_config c)
      \<Longrightarrow> map_Load k (ca_data (Cache_SetWithTTL order now key v ttl c)) = (if k = key then Some ?i else map_Load k (ca_data c))"
    using load by (auto simp: set cfg)
  have grow: "ca_itemCount c2 \<le> ca_itemCount c + 1" by (simp add: c2_def c1_def split: option.split)
  show "cache_ok (Cache_SetWithTTL order now key v ttl c)"
  proof (cases "0 < cf_MaxItems (ca_config c2) \<and> cf_MaxItems (ca_config c2) < ca_itemCount c2")
    case True
    from evicts_oldest [OF dis assms(2) cnt] True obtain gone where g:
      "mset (ca_data c2) = mset (ca_data (cleanupOldest order c2)) + mset gone"
      "int (length gone) = max (cf_MaxItems (ca_config c2) div 5) 1"
      "ca_data (cleanupOldest order c2) = filter (\<lambda>y. fst y \<notin> fst ` set gone) (ca_data c2)"
      "ca_itemCount (cleanupOldest order c2) = int (length (ca_data (cleanupOldest order c2)))" by blast
    have "distinct (map fst (ca_data (cleanupOldest order c2)))" unfolding g(3) using dis by (rule distinct_map_filter)
    moreover have "int (length (ca_data c2)) = int (length (ca_data (cleanupOldest order c2))) + int (length gone)"
      using arg_cong [OF g(1), of size] by simp
    then have "ca_itemCount (cleanupOldest order c2) \<le> cf_MaxItems (ca_config c2)"
      using g(2,4) cnt grow assms(1) True max.cobounded2 [of 1 "cf_MaxItems (ca_config c) div 5"] unfolding cache_ok_def cfg by linarith
    ultimately show ?thesis using g(4) True by (simp add: set cache_ok_def)
  next
    case False
    then show ?thesis unfolding set using dis cnt by (auto simp: cache_ok_def)
  qed
  assume l: "map_Load k (ca_data (Cache_SetWithTTL order now key v ttl c)) = Some i"
  have "map_Load k (ca_data c2) = Some i"
  proof (cases "0 < cf_MaxItems (ca_config c2) \<and> cf_MaxItems (ca_config c2) < ca_itemCount c2")
    case True
    obtain K where "ca_data (cleanupOldest order c2) = filter (\<lambda>y. fst y \<notin> K) (ca_data c2)"
      using evicts_keys [OF dis assms(2) cnt conjunct2 [OF True] conjunct1 [OF True]] ..
    then show ?thesis using l True by (simp add: set Load_filter_keys split: if_splits)
  next
    case False
    then show ?thesis using l unfolding set by (simp split: if_splits)
  qed
  then show "if k = key then i = ?i else map_Load k (ca_data c) = Some i" by (simp add: load split: if_splits)
qed

lemma Get_keeps:
  assumes "cache_ok c"
  shows "cache_ok (snd (Cache_Get now key c))" "ca_config (snd (Cache_Get now key c)) = ca_config c"
    and "map_Load k (ca_data (snd (Cache_Get now key c))) =
      (case map_Load k (ca_data c) of Some i \<Rightarrow> if k = key \<and> it_expiration i < now then None else Some i | None \<Rightarrow> None)"
    and "fst (Cache_Get now key c) =
      (case map_Load key (ca_data c) of Some i \<Rightarrow> if it_expiration i < now then None else Some (it_value i) | None \<Rightarrow> None)"
  using assms length_Delete [of "ca_data c" key]
  by (auto simp: Cache_Get_def cache_ok_def keys_Delete split: option.split)

lemma Delete_keeps:
  assumes "cache_ok c"
  shows "cache_ok (Cache_Delete key c)" "ca_config (Cache_Delete key c) = ca_config c"
    and "map_Load k (ca_data (Cache_Delete key c)) = (if k = key then None else map_Load k (ca_data c))"
  using assms length_Delete [of "ca_data c" key]
  by (auto simp: Cache_Delete_def cache_ok_def keys_Delete split: option.split)

lemma Clear_keeps:
  fixes c :: "'v cache"
  assumes "permuting order"
  shows "ca_data (Cache_Clear order c) = []" "ca_config (Cache_Clear order c) = ca_config c" "ca_itemCount (Cache_Clear order c) = 0"
proof -
  let ?f = "\<lambda>(x :: string \<times> 'v item) (c :: 'v cache). (on_eviction (fst x, it_value (snd x)) c)\<lparr>ca_data := map_Delete (fst x) (ca_data c)\<rparr>"
  have "set (order (ca_data c)) = set (ca_data c)" using assms unfolding permuting_def by (metis set_mset_mset)
  moreover have "ca_data (fold ?f xs c) = filter (\<lambda>y. fst y \<notin> fst ` set xs) (ca_data c)" for xs
    by (rule data_fold) (simp add: Let_def)
  ultimately show "ca_data (Cache_Clear order c) = []" by (simp add: Cache_Clear_def filter_empty_conv)
  have "ca_config (fold ?f xs c) = ca_config c" for xs by (rule same_fold) (simp add: Let_def)
  then show "ca_config (Cache_Clear order c) = ca_config c" by (simp add: Cache_Clear_def)
  show "ca_itemCount (Cache_Clear order c) = 0" by (simp add: Cache_Clear_def)
qed

lemma fold_evictions [simp]:
  "ca_data (fold (\<lambda>x. on_eviction (f x)) xs c) = ca_data c" "ca_itemCount (fold (\<lambda>x. on_eviction (f x)) xs c) = ca_itemCount c"
  "ca_config (fold (\<lambda>x. on_eviction (f x)) xs c) = ca_config c"
  by (rule same_fold, simp)+

lemma cleanup_keeps:
  assumes "cache_ok c" "permuting order"
  shows "cache_ok (Cache_cleanup order calls now c)" "ca_config (Cache_cleanup order calls now c) = ca_config c"
    and "map_Load k (ca_data (Cache_cleanup order calls now c)) =
      (case map_Load k (ca_data c) of Some i \<Rightarrow> if it_expiration i < now then None else Some i | None \<Rightarrow> None)"
proof -
  define gone where "gone = filter (\<lambda>x. expires x < now) (order (ca_data c))"
  let ?del = "\<lambda>x c. c\<lparr>ca_data := map_Delete (fst x) (ca_data c)\<rparr>"
  have dis: "distinct (map fst (ca_data c))" using assms(1) by (simp add: cache_ok_def)
  have m: "mset (order (ca_data c)) = mset (ca_data c)" using assms(2) by (simp add: permuting_def)
  then have sub: "mset gone \<subseteq># mset (ca_data c)" unfolding gone_def mset_filter by simp
  have f: "ca_data (fold ?del xs c) = filter (\<lambda>y. fst y \<notin> fst ` set xs) (ca_data c)" for xs by (rule data_fold) simp
  have g: "ca_itemCount (fold ?del xs c) = ca_itemCount c" "ca_config (fold ?del xs c) = ca_config c" for xs
    by (rule same_fold, simp)+
  have data: "ca_data (Cache_cleanup order calls now c) = filter (\<lambda>y. fst y \<notin> fst ` set gone) (ca_data c)"
    by (simp add: Cache_cleanup_def Let_def gone_def [symmetric] f)
  have cnt: "ca_itemCount (Cache_cleanup order calls now c) = ca_itemCount c - int (length gone)"
    by (simp add: Cache_cleanup_def Let_def gone_def [symmetric] g)
  show cfg: "ca_config (Cache_cleanup order calls now c) = ca_config c"
    by (simp add: Cache_cleanup_def Let_def gone_def [symmetric] g)
  have "distinct (map fst (ca_data (Cache_cleanup order calls now c)))" unfolding data using dis by (rule distinct_map_filter)
  then show "cache_ok (Cache_cleanup order calls now c)"
    using assms(1) filter_dropped(2) [OF dis sub] cnt data unfolding cache_ok_def cfg by auto
  have "set (order (ca_data c)) = set (ca_data c)" using m by (metis set_mset_mset)
  then have "k \<in> fst ` set gone \<longleftrightarrow> (\<exists>i. map_Load k (ca_data c) = Some i \<and> it_expiration i < now)"
    unfolding Load_in [OF dis] gone_def by force
  then show "map_Load k (ca_data (Cache_cleanup order calls now c)) =
      (case map_Load k (ca_data c) of Some i \<Rightarrow> if it_expiration i < now then None else Some i | None \<Rightarrow> None)"
    unfolding data Load_filter_keys by (auto split: option.split)
qed

section \<open>What the cache shows\<close>

datatype 'v cache_op = CSet string "'v any_value" int | CSetDefault string "'v any_value" | CGet string | CDelete string | CClear | CTick | CClose

primrec serve_cache ::
  "('v entries \<Rightarrow> 'v entries) \<Rightarrow> ('v entries \<Rightarrow> 'v entries) \<Rightarrow> int \<Rightarrow> 'v cache_op \<Rightarrow> 'v cache \<Rightarrow> 'v cache" where
  "serve_cache order calls now (CSet k v ttl) c = Cache_SetWithTTL order now k v ttl c"
| "serve_cache order calls now (CSetDefault k v) c = Cache_Set order now k v c"
| "serve_cache order calls now (CGet k) c = snd (Cache_Get now k c)"
| "serve_cache order calls now (CDelete k) c = Cache_Delete k c"
| "serve_cache order calls now CClear c = Cache_Clear order c"
| "serve_cache order calls now CTick c = cleanupLoop_tick order calls now c"
| "serve_cache order calls now CClose c = Cache_Close c"

text \<open>The specification: a map without limit whose entries have an instant after which they are not shown.\<close>

type_synonym 'v ideal = "string \<rightharpoonup> 'v any_value \<times> int"

primrec ideal_step :: "config \<Rightarrow> int \<Rightarrow> 'v cache_op \<Rightarrow> 'v ideal \<Rightarrow> 'v ideal" where
  "ideal_step cfg now (CSet k v ttl) m = m(k \<mapsto> (v, now + ttl))"
| "ideal_step cfg now (CSetDefault k v) m = m(k \<mapsto> (v, now + cf_DefaultTTL cfg))"
| "ideal_step cfg now (CGet k) m = m"
| "ideal_step cfg now (CDelete k) m = m(k := None)"
| "ideal_step cfg now CClear m = Map.empty"
| "ideal_step cfg now CTick m = m"
| "ideal_step cfg now CClose m = m"

definition ideal_get :: "int \<Rightarrow> string \<Rightarrow> 'v ideal \<Rightarrow> 'v any_value option" where
  "ideal_get now k m = (case m k of None \<Rightarrow> None | Some (v, x) \<Rightarrow> if now \<le> x then Some v else None)"

text \<open>
  A run of operations beside the specification; a \<open>roomy\<close> run never has more keys than the cache takes.
\<close>

definition has_room :: "config \<Rightarrow> 'v ideal \<Rightarrow> bool" where
  "has_room cfg m \<longleftrightarrow> cf_MaxItems cfg \<le> 0 \<or> int (card (dom m)) \<le> cf_MaxItems cfg"

inductive cache_run :: "config \<Rightarrow> bool \<Rightarrow> 'v cache \<Rightarrow> 'v ideal \<Rightarrow> int \<Rightarrow> bool" where
  new: "cache_run cfg roomy (NewCache cfg) Map.empty t"
| step: "cache_run cfg roomy c m t \<Longrightarrow> t \<le> now \<Longrightarrow> permuting order \<Longrightarrow> (roomy \<longrightarrow> has_room cfg (ideal_step cfg now op m))
    \<Longrightarrow> cache_run cfg roomy (serve_cache order calls now op c) (ideal_step cfg now op m) now"

definition shows_ideal :: "bool \<Rightarrow> 'v cache \<Rightarrow> 'v ideal \<Rightarrow> int \<Rightarrow> bool" where
  "shows_ideal roomy c m t \<longleftrightarrow> cache_ok c \<and> finite (dom m)
     \<and> (\<forall>k i. map_Load k (ca_data c) = Some i \<longrightarrow> m k = Some (it_value i, it_expiration i))
     \<and> (roomy \<longrightarrow> (\<forall>k v x. m k = Some (v, x) \<longrightarrow> t \<le> x \<longrightarrow> map_Load k (ca_data c) \<noteq> None))"

lemma shows_later: "shows_ideal roomy c m t \<Longrightarrow> t \<le> now \<Longrightarrow> shows_ideal roomy c m now"
  unfolding shows_ideal_def by (meson order_trans)

lemma shows_set:
  assumes "shows_ideal roomy c m t" "permuting order" "t \<le> now"
    and "roomy \<longrightarrow> has_room (ca_config c) (m(k \<mapsto> (v, now + ttl)))"
  shows "shows_ideal roomy (Cache_SetWithTTL order now k v ttl c) (m(k \<mapsto> (v, now + ttl))) now"
proof -
  have "shows_ideal roomy c m now" using assms(1,3) by (rule shows_later)
  then have ok: "cache_ok c" and fin: "finite (dom m)"
    and sound: "\<And>k i. map_Load k (ca_data c) = Some i \<Longrightarrow> m k = Some (it_value i, it_expiration i)"
    and full: "roomy \<Longrightarrow> m k = Some (v, x) \<Longrightarrow> now \<le> x \<Longrightarrow> map_Load k (ca_data c) \<noteq> None" for k v x
    by (auto simp: shows_ideal_def)
  note set = Set_keeps [OF ok assms(2), where now = now and key = k and v = v and ttl = ttl]
  have "insert k (keys_in c) \<subseteq> dom (m(k \<mapsto> (v, now + ttl)))" using sound by (auto simp: keys_in_def)
  then have "card (insert k (keys_in c)) \<le> card (dom (m(k \<mapsto> (v, now + ttl))))" using fin by (intro card_mono) simp_all
  then have room: "cf_MaxItems (ca_config c) \<le> 0 \<or> int (card (insert k (keys_in c))) \<le> cf_MaxItems (ca_config c)" if roomy
    using assms(4) that unfolding has_room_def by linarith
  have "(m(k \<mapsto> (v, now + ttl))) k' = Some (it_value i, it_expiration i)"
    if "map_Load k' (ca_data (Cache_SetWithTTL order now k v ttl c)) = Some i" for k' i
    using set(2) [OF that] sound [of k' i] by (simp split: if_splits)
  moreover have "map_Load k' (ca_data (Cache_SetWithTTL order now k v ttl c)) \<noteq> None"
    if roomy "(m(k \<mapsto> (v, now + ttl))) k' = Some (w, x)" "now \<le> x" for k' w x
    using set(3) [OF room [OF that(1)], of k'] full [OF that(1), of k' w x] that(2,3) by (simp split: if_splits)
  ultimately show ?thesis using set(1) fin unfolding shows_ideal_def by auto
qed

text \<open>Losing an entry that has expired, or that the specification loses too, keeps what is shown.\<close>

lemma shows_less:
  assumes "shows_ideal roomy c m t" "t \<le> now" "cache_ok c'"
    and "\<And>k. map_Load k (ca_data c') = map_Load k (ca_data c) \<and> m' k = m k
       \<or> map_Load k (ca_data c') = None \<and> (m' k = None \<or> m' k = m k \<and> (\<exists>i. map_Load k (ca_data c) = Some i \<and> it_expiration i < now))"
  shows "shows_ideal roomy c' m' now"
proof -
  have s: "m k = Some (it_value i, it_expiration i)" if "map_Load k (ca_data c) = Some i" for k i
    using assms(1) that by (simp add: shows_ideal_def)
  have f: "map_Load k (ca_data c) \<noteq> None" if "roomy" "m k = Some (v, x)" "now \<le> x" for k v x
    using assms(1,2) that unfolding shows_ideal_def by (meson order_trans)
  have "m' k = Some (it_value i, it_expiration i)" if "map_Load k (ca_data c') = Some i" for k i
    using assms(4) [of k] s [of k i] that by auto
  moreover have "map_Load k (ca_data c') \<noteq> None" if "roomy" "m' k = Some (v, x)" "now \<le> x" for k v x
    using assms(4) [of k] f [of k v x] s [of k] that by auto
  moreover have "m' k = None \<or> m' k = m k" for k using assms(4) [of k] by blast
  then have "dom m' \<subseteq> dom m" unfolding dom_def by (metis (mono_tags, lifting) Collect_mono)
  then have "finite (dom m')" using assms(1) unfolding shows_ideal_def by (meson finite_subset)
  ultimately show ?thesis using assms(3) unfolding shows_ideal_def by auto
qed

lemma serve_shows:
  assumes "shows_ideal roomy c m t" "t \<le> now" "permuting order" "ca_config c = cfg"
    and "roomy \<longrightarrow> has_room cfg (ideal_step cfg now op m)"
  shows "shows_ideal roomy (serve_cache order calls now op c) (ideal_step cfg now op m) now \<and> ca_config (serve_cache order calls now op c) = cfg"
proof -
  have ok: "cache_ok c" using assms(1) by (simp add: shows_ideal_def)
  show ?thesis
  proof (cases op)
    case (CSet k v ttl)
    then show ?thesis using shows_set [OF assms(1,3,2)] Set_keeps(4) [OF ok assms(3)] assms(4,5) by simp
  next
    case (CSetDefault k v)
    then show ?thesis using shows_set [OF assms(1,3,2)] Set_keeps(4) [OF ok assms(3)] assms(4,5) by (simp add: Cache_Set_def)
  next
    case (CGet k)
    have "shows_ideal roomy (snd (Cache_Get now k c)) m now"
      by (rule shows_less [OF assms(1,2) Get_keeps(1) [OF ok]]) (auto simp: Get_keeps(3) [OF ok] split: option.split)
    then show ?thesis using CGet Get_keeps(2) [OF ok] assms(4) by simp
  next
    case (CDelete k)
    have "shows_ideal roomy (Cache_Delete k c) (m(k := None)) now"
      by (rule shows_less [OF assms(1,2) Delete_keeps(1) [OF ok]]) (simp add: Delete_keeps(3) [OF ok])
    then show ?thesis using CDelete Delete_keeps(2) [OF ok] assms(4) by simp
  next
    case CClear
    note cl = Clear_keeps [OF assms(3), of c]
    have "cache_ok (Cache_Clear order c)" using cl ok by (simp add: cache_ok_def)
    then have "shows_ideal roomy (Cache_Clear order c) Map.empty now"
      by (rule shows_less [OF assms(1,2)]) (simp add: cl(1) map_Load_def)
    then show ?thesis using CClear cl(2) assms(4) by simp
  next
    case CTick
    have "shows_ideal roomy (Cache_cleanup order calls now c) m now"
      by (rule shows_less [OF assms(1,2) cleanup_keeps(1) [OF ok assms(3)]]) (auto simp: cleanup_keeps(3) [OF ok assms(3)] split: option.split)
    then show ?thesis
      using CTick cleanup_keeps(2) [OF ok assms(3)] assms(4) shows_later [OF assms(1,2)] by (simp add: cleanupLoop_tick_def)
  next
    case CClose
    have "shows_ideal roomy (Cache_Close c) m now"
      by (rule shows_less [OF assms(1,2)]) (use ok in \<open>auto simp: Cache_Close_def cache_ok_def\<close>)
    then show ?thesis using CClose assms(4) by (simp add: Cache_Close_def)
  qed
qed

lemma run_shows: "cache_run cfg roomy c m t \<Longrightarrow> shows_ideal roomy c m t \<and> ca_config c = cfg"
proof (induction rule: cache_run.induct)
  case (new cfg roomy t)
  then show ?case by (simp add: shows_ideal_def cache_ok_def NewCache_def map_Load_def)
next
  case (step cfg roomy c m t now order op calls)
  then show ?case using serve_shows by blast
qed

text \<open>
  C33. The cache is an expiring map that may forget: after any sequence of operations and ticks of the clean-up
  loop, at any later time, it has counted its entries, holds no more than its limit, and a key gets what
  was last stored under it, when that has not expired, or nothing; and it forgets nothing that is due
  as long as there are no more keys than the limit.
\<close>

theorem cache_refines_expiring_map:
  assumes "cache_run cfg roomy c m t" "t \<le> now"
  shows "Cache_Size c = int (card (keys_in c)) \<and> (0 < cf_MaxItems cfg \<longrightarrow> Cache_Size c \<le> cf_MaxItems cfg)
    \<and> fst (Cache_Get now k c) \<in> {None, ideal_get now k m}
    \<and> (roomy \<longrightarrow> fst (Cache_Get now k c) = ideal_get now k m)"
proof -
  have cfg: "ca_config c = cfg" and "shows_ideal roomy c m t" using run_shows [OF assms(1)] by auto
  from shows_later [OF this(2) assms(2)] have ok: "cache_ok c"
    and sound: "map_Load k (ca_data c) = Some i \<Longrightarrow> m k = Some (it_value i, it_expiration i)"
    and full: "roomy \<Longrightarrow> m k = Some (v, x) \<Longrightarrow> now \<le> x \<Longrightarrow> map_Load k (ca_data c) \<noteq> None" for i v x
    by (auto simp: shows_ideal_def)
  have size: "Cache_Size c = int (card (keys_in c))"
    using ok length_keys [of "ca_data c"] by (simp add: cache_ok_def keys_in_def Cache_Size_def)
  have lim: "0 < cf_MaxItems cfg \<longrightarrow> Cache_Size c \<le> cf_MaxItems cfg"
    using ok cfg by (auto simp: cache_ok_def Cache_Size_def)
  have g: "fst (Cache_Get now k c) \<in> {None, ideal_get now k m}"
    using sound unfolding Get_keeps(4) [OF ok] ideal_get_def by (auto split: option.splits)
  have "fst (Cache_Get now k c) = ideal_get now k m" if roomy
    using sound full [OF that] unfolding Get_keeps(4) [OF ok] ideal_get_def by (fastforce split: option.splits)
  then show ?thesis using size lim g by blast
qed

section \<open>What clients rely on\<close>

text \<open>
  A cache \<open>c\<close> in good condition \<open>holds\<close> values under keys; in a world \<open>w\<close> (a clock, an order of visits) a
  client puts, looks up and forgets. Beside a table \<open>db\<close> the cache agrees when what it holds is in the table.
\<close>

locale caching =
  fixes good :: "'c \<Rightarrow> bool" and holds :: "'c \<Rightarrow> string \<Rightarrow> 'v \<Rightarrow> bool" and usable :: "'w \<Rightarrow> bool"
    and put :: "'w \<Rightarrow> string \<Rightarrow> 'v \<Rightarrow> 'c \<Rightarrow> 'c" and look :: "'w \<Rightarrow> string \<Rightarrow> 'c \<Rightarrow> 'v option \<times> 'c" and forget :: "string \<Rightarrow> 'c \<Rightarrow> 'c"
  assumes put_good: "good c \<Longrightarrow> usable w \<Longrightarrow> good (put w k v c)"
    and put_holds: "good c \<Longrightarrow> usable w \<Longrightarrow> holds (put w k v c) k' v' \<Longrightarrow> if k' = k then v' = v else holds c k' v'"
    and look_good: "good c \<Longrightarrow> usable w \<Longrightarrow> good (snd (look w k c))"
    and look_holds: "good c \<Longrightarrow> usable w \<Longrightarrow> holds (snd (look w k c)) k' v' \<Longrightarrow> holds c k' v'"
    and look_found: "good c \<Longrightarrow> usable w \<Longrightarrow> fst (look w k c) = Some v \<Longrightarrow> holds c k v"
    and forget_good: "good c \<Longrightarrow> good (forget k c)"
    and forget_holds: "good c \<Longrightarrow> holds (forget k c) k' v' \<Longrightarrow> k' \<noteq> k \<and> holds c k' v'"
begin

definition agrees :: "(string \<rightharpoonup> 'v) \<Rightarrow> 'c \<Rightarrow> bool" where
  "agrees db c \<longleftrightarrow> good c \<and> (\<forall>k v. holds c k v \<longrightarrow> db k = Some v)"

lemma agrees_put:
  assumes "agrees db c" "usable w"
  shows "agrees (db(k \<mapsto> v)) (put w k v c)"
proof -
  have c: "good c" "\<And>k v. holds c k v \<Longrightarrow> db k = Some v" using assms(1) by (auto simp: agrees_def)
  have "(db(k \<mapsto> v)) k' = Some v'" if "holds (put w k v c) k' v'" for k' v'
    using put_holds [OF c(1) assms(2) that] c(2) [of k' v'] by (simp split: if_splits)
  then show ?thesis using put_good [OF c(1) assms(2)] unfolding agrees_def by simp
qed

lemma agrees_put_same: "agrees db c \<Longrightarrow> usable w \<Longrightarrow> db k = Some v \<Longrightarrow> agrees db (put w k v c)"
  using agrees_put [of db c w k v] by (simp add: map_upd_triv)

lemma agrees_look: "agrees db c \<Longrightarrow> usable w \<Longrightarrow> agrees db (snd (look w k c))"
  unfolding agrees_def using look_good look_holds by blast

lemma look_agrees: "agrees db c \<Longrightarrow> usable w \<Longrightarrow> fst (look w k c) = Some v \<Longrightarrow> db k = Some v"
  unfolding agrees_def using look_found by blast

lemma agrees_forget:
  assumes "agrees db c"
  shows "agrees (db(k := None)) (forget k c)"
proof -
  have c: "good c" "\<And>k v. holds c k v \<Longrightarrow> db k = Some v" using assms by (auto simp: agrees_def)
  have "(db(k := None)) k' = Some v'" if "holds (forget k c) k' v'" for k' v'
    using forget_holds [OF c(1) that] c(2) [of k' v'] by simp
  then show ?thesis using forget_good [OF c(1)] unfolding agrees_def by simp
qed

end

definition cache_holds :: "'v cache \<Rightarrow> string \<Rightarrow> 'v any_value \<Rightarrow> bool" where
  "cache_holds c k v \<longleftrightarrow> (\<exists>i. map_Load k (ca_data c) = Some i \<and> it_value i = v)"

text \<open>A world: the order of visits and the instant.\<close>

type_synonym 'v world = "('v entries \<Rightarrow> 'v entries) \<times> int"

interpretation store_cache: caching cache_ok cache_holds "\<lambda>w. permuting (fst w)"
  "\<lambda>w. Cache_Set (fst w) (snd w)" "\<lambda>w. Cache_Get (snd w)" Cache_Delete
proof unfold_locales
  fix c :: "'v cache" and w :: "'v world" and k k' v v'
  assume c: "cache_ok c" and w: "permuting (fst w)"
  show "cache_ok (Cache_Set (fst w) (snd w) k v c)" unfolding Cache_Set_def by (rule Set_keeps(1) [OF c w])
  show "if k' = k then v' = v else cache_holds c k' v'" if "cache_holds (Cache_Set (fst w) (snd w) k v c) k' v'"
    using that Set_keeps(2) [OF c w, of k' "snd w" k v "cf_DefaultTTL (ca_config c)"]
    unfolding cache_holds_def Cache_Set_def by (auto split: if_splits)
next
  fix c :: "'v cache" and w :: "'v world" and k k' v v'
  assume c: "cache_ok c"
  show "cache_ok (snd (Cache_Get (snd w) k c))" by (rule Get_keeps(1) [OF c])
  show "cache_holds c k' v'" if "cache_holds (snd (Cache_Get (snd w) k c)) k' v'"
    using that unfolding cache_holds_def Get_keeps(3) [OF c] by (auto split: option.splits if_splits)
  show "cache_holds c k v" if "fst (Cache_Get (snd w) k c) = Some v"
    using that unfolding cache_holds_def Get_keeps(4) [OF c] by (auto split: option.splits if_splits)
  show "cache_ok (Cache_Delete k c)" by (rule Delete_keeps(1) [OF c])
  show "k' \<noteq> k \<and> cache_holds c k' v'" if "cache_holds (Cache_Delete k c) k' v'"
    using that unfolding cache_holds_def Delete_keeps(3) [OF c] by (auto split: if_splits)
qed

section \<open>Examples\<close>

definition small_config :: config where
  "small_config = DefaultConfig\<lparr>cf_MaxItems := 2\<rparr>"

lemma cache_refines_expiring_map_witness:
  "fst (Cache_Get 5 ''a'' (Cache_SetWithTTL id 3 ''a'' (VString ''x'') 10 (NewCache small_config))) = Some (VString ''x'' :: nat any_value)"
proof -
  let ?op = "CSet ''a'' (VString ''x'') 10 :: nat cache_op"
  have "cache_run small_config True (serve_cache id id 3 ?op (NewCache small_config)) (ideal_step small_config 3 ?op Map.empty) 3"
    by (rule cache_run.step [OF cache_run.new [of _ _ 0]]) (simp_all add: permuting_def has_room_def small_config_def)
  from cache_refines_expiring_map [OF this, of 5 "''a''"] show ?thesis by (simp add: ideal_get_def)
qed

end
