(* ===== verification/UserStore.thy ===== *)
theory UserStore
  imports CacheFacts Tasks
begin

text \<open>
  The users of the note server: the store with its cache, \<open>memos/store/user.go\<close>, over the SQLite driver,
  \<open>memos/store/db/sqlite/user.go\<close>. An operation takes its environment: the world of the cache, whether the
  statement of the driver fails, the time in seconds, and the order \<open>scan\<close> in which the engine produces rows before it
  sorts them.
\<close>

section \<open>Users\<close>

record store_user =
  su_ID :: int
  su_RowStatus :: string
  su_CreatedTs :: int
  su_UpdatedTs :: int
  su_Username :: string
  su_Role :: string
  su_Email :: string
  su_Nickname :: string
  su_PasswordHash :: string
  su_AvatarURL :: string
  su_Description :: string

record update_user =
  uu_ID :: int
  uu_UpdatedTs :: "int option"
  uu_RowStatus :: "string option"
  uu_Username :: "string option"
  uu_Role :: "string option"
  uu_Email :: "string option"
  uu_Nickname :: "string option"
  uu_AvatarURL :: "string option"
  uu_PasswordHash :: "string option"
  uu_Description :: "string option"

record find_user =
  fu_ID :: "int option"
  fu_IDList :: "int list"
  fu_UsernameList :: "string list"
  fu_RowStatus :: "string option"
  fu_Username :: "string option"
  fu_Role :: "string option"
  fu_Email :: "string option"
  fu_Nickname :: "string option"
  fu_Search :: "string option"
  fu_Filters :: "string list"
  fu_Limit :: "int option"

record user_store =
  us_cache :: "store_user cache"
  us_rows :: "store_user list"
  us_seq :: int

record store_env =
  se_world :: "store_user world"
  se_fails :: bool
  se_now :: int
  se_scan :: "store_user list \<Rightarrow> store_user list"

section \<open>The driver\<close>

definition row_status_allowed :: "string \<Rightarrow> bool" where
  "row_status_allowed s \<longleftrightarrow> s = ''NORMAL'' \<or> s = ''ARCHIVED''"

text \<open>\<open>INSERT .. RETURNING\<close>: a user name in use violates its key.\<close>

definition driver_CreateUser :: "store_env \<Rightarrow> store_user \<Rightarrow> user_store \<Rightarrow> (store_user \<times> user_store) option" where
  "driver_CreateUser e create s =
     (if se_fails e \<or> su_Username create \<in> set (map su_Username (us_rows s)) then None
      else let u = create\<lparr>su_ID := us_seq s + 1, su_Description := [], su_CreatedTs := se_now e, su_UpdatedTs := se_now e,
                 su_RowStatus := ''NORMAL''\<rparr>
           in Some (u, s\<lparr>us_rows := us_rows s @ [u], us_seq := us_seq s + 1\<rparr>))"

definition set_opt :: "'b option \<Rightarrow> 'b \<Rightarrow> 'b" where
  "set_opt v old = (case v of None \<Rightarrow> old | Some new \<Rightarrow> new)"

definition updated_user :: "update_user \<Rightarrow> store_user \<Rightarrow> store_user" where
  "updated_user q u =
     u\<lparr>su_UpdatedTs := set_opt (uu_UpdatedTs q) (su_UpdatedTs u), su_RowStatus := set_opt (uu_RowStatus q) (su_RowStatus u),
       su_Username := set_opt (uu_Username q) (su_Username u), su_Email := set_opt (uu_Email q) (su_Email u),
       su_Nickname := set_opt (uu_Nickname q) (su_Nickname u), su_AvatarURL := set_opt (uu_AvatarURL q) (su_AvatarURL u),
       su_PasswordHash := set_opt (uu_PasswordHash q) (su_PasswordHash u), su_Description := set_opt (uu_Description q) (su_Description u),
       su_Role := set_opt (uu_Role q) (su_Role u)\<rparr>"

text \<open>With nothing to set the statement has an empty \<open>SET\<close> and does not parse.\<close>

definition sets_nothing :: "update_user \<Rightarrow> bool" where
  "sets_nothing q \<longleftrightarrow> uu_UpdatedTs q = None \<and> uu_RowStatus q = None \<and> uu_Username q = None \<and> uu_Email q = None \<and> uu_Nickname q = None
     \<and> uu_AvatarURL q = None \<and> uu_PasswordHash q = None \<and> uu_Description q = None \<and> uu_Role q = None"

definition driver_UpdateUser :: "store_env \<Rightarrow> update_user \<Rightarrow> user_store \<Rightarrow> (store_user \<times> user_store) option" where
  "driver_UpdateUser e q s =
     (if se_fails e \<or> sets_nothing q then None
      else case List.find (\<lambda>u. su_ID u = uu_ID q) (us_rows s) of
        None \<Rightarrow> None
      | Some u \<Rightarrow>
          let u' = updated_user q u in
          if \<not> row_status_allowed (su_RowStatus u')
             \<or> su_Username u' \<in> set (map su_Username (filter (\<lambda>x. su_ID x \<noteq> uu_ID q) (us_rows s))) then None
          else Some (u', s\<lparr>us_rows := map (\<lambda>x. if su_ID x = uu_ID q then u' else x) (us_rows s)\<rparr>))"

definition search_text :: "find_user \<Rightarrow> string option" where
  "search_text f = (case fu_Search f of None \<Rightarrow> None
     | Some v \<Rightarrow> if trim_space v = [] then None else Some (to_lower (trim_space v)))"

definition opt_matches :: "'b option \<Rightarrow> 'b \<Rightarrow> bool" where
  "opt_matches v x = (case v of None \<Rightarrow> True | Some y \<Rightarrow> x = y)"

definition user_found :: "find_user \<Rightarrow> store_user \<Rightarrow> bool" where
  "user_found f u \<longleftrightarrow> opt_matches (fu_ID f) (su_ID u)
     \<and> (fu_IDList f = [] \<or> su_ID u \<in> set (fu_IDList f)) \<and> (fu_UsernameList f = [] \<or> su_Username u \<in> set (fu_UsernameList f))
     \<and> opt_matches (fu_RowStatus f) (su_RowStatus u) \<and> opt_matches (fu_Username f) (su_Username u) \<and> opt_matches (fu_Role f) (su_Role u)
     \<and> opt_matches (fu_Email f) (su_Email u) \<and> opt_matches (fu_Nickname f) (su_Nickname u)
     \<and> (case search_text f of None \<Rightarrow> True
        | Some q \<Rightarrow> sql_like (''%'' @ q @ ''%'') (to_lower (su_Username u)) \<or> sql_like (''%'' @ q @ ''%'') (to_lower (su_Nickname u)))"

text \<open>\<open>ORDER BY .. DESC\<close> that keeps the order of equal rows.\<close>

definition desc_by :: "('b \<Rightarrow> 'k :: linorder) \<Rightarrow> 'b list \<Rightarrow> 'b list" where
  "desc_by f xs = rev (sort_key f (rev xs))"

definition search_rank :: "string \<Rightarrow> store_user \<Rightarrow> int" where
  "search_rank q u =
     (if to_lower (su_Username u) = q then 0
      else if sql_like (q @ ''%'') (to_lower (su_Username u)) then 1
      else if sql_like (q @ ''%'') (to_lower (su_Nickname u)) then 2 else 3)"

definition ordered_users :: "find_user \<Rightarrow> store_user list \<Rightarrow> store_user list" where
  "ordered_users f xs =
     (let xs = desc_by su_CreatedTs (desc_by su_RowStatus xs)
      in case search_text f of None \<Rightarrow> xs | Some q \<Rightarrow> sort_key (search_rank q) (sort_key (\<lambda>u. length (su_Username u)) xs))"

definition limited :: "int option \<Rightarrow> 'b list \<Rightarrow> 'b list" where
  "limited l xs = (case l of None \<Rightarrow> xs | Some n \<Rightarrow> if n < 0 then xs else take (nat n) xs)"

definition driver_ListUsers :: "store_env \<Rightarrow> find_user \<Rightarrow> user_store \<Rightarrow> store_user list option" where
  "driver_ListUsers e f s =
     (if fu_Filters f \<noteq> [] \<or> se_fails e then None
      else Some (limited (fu_Limit f) (ordered_users f (filter (user_found f) (se_scan e (us_rows s))))))"

definition driver_DeleteUser :: "store_env \<Rightarrow> int \<Rightarrow> user_store \<Rightarrow> user_store option" where
  "driver_DeleteUser e i s = (if se_fails e then None else Some (s\<lparr>us_rows := filter (\<lambda>u. su_ID u \<noteq> i) (us_rows s)\<rparr>))"

section \<open>The store\<close>

text \<open>
  The key of a user in the cache is \<open>string(user.ID)\<close>, which Go reads as a conversion of a code point: the bytes of its
  UTF-8 encoding, those of the replacement character when the number is no code point.
\<close>

definition rune_string :: "int \<Rightarrow> string" where
  "rune_string n =
     (let b = (\<lambda>k::int. char_of (nat k) :: char) in
      if n < 0 \<or> 0x10FFFF < n \<or> (0xD800 \<le> n \<and> n \<le> 0xDFFF) then [b 0xEF, b 0xBF, b 0xBD]
      else if n < 0x80 then [b n]
      else if n < 0x800 then [b (0xC0 + n div 64), b (0x80 + n mod 64)]
      else if n < 0x10000 then [b (0xE0 + n div 4096), b (0x80 + n div 64 mod 64), b (0x80 + n mod 64)]
      else [b (0xF0 + n div 262144), b (0x80 + n div 4096 mod 64), b (0x80 + n div 64 mod 64), b (0x80 + n mod 64)])"

definition cache_user :: "store_env \<Rightarrow> store_user \<Rightarrow> user_store \<Rightarrow> user_store" where
  "cache_user e u s = s\<lparr>us_cache := Cache_Set (fst (se_world e)) (snd (se_world e)) (rune_string (su_ID u)) (VOther u) (us_cache s)\<rparr>"

text \<open>The result \<open>None\<close> is an error.\<close>

definition CreateUser :: "store_env \<Rightarrow> store_user \<Rightarrow> user_store \<Rightarrow> store_user option \<times> user_store" where
  "CreateUser e create s = (case driver_CreateUser e create s of None \<Rightarrow> (None, s) | Some (u, s) \<Rightarrow> (Some u, cache_user e u s))"

definition UpdateUser :: "store_env \<Rightarrow> update_user \<Rightarrow> user_store \<Rightarrow> store_user option \<times> user_store" where
  "UpdateUser e q s = (case driver_UpdateUser e q s of None \<Rightarrow> (None, s) | Some (u, s) \<Rightarrow> (Some u, cache_user e u s))"

definition ListUsers :: "store_env \<Rightarrow> find_user \<Rightarrow> user_store \<Rightarrow> store_user list option \<times> user_store" where
  "ListUsers e f s = (case driver_ListUsers e f s of None \<Rightarrow> (None, s) | Some us \<Rightarrow> (Some us, fold (cache_user e) us s))"

text \<open>A find that has an identifier looks into the cache first; \<open>Some None\<close> is no such user.\<close>

definition cached_user :: "store_env \<Rightarrow> find_user \<Rightarrow> user_store \<Rightarrow> store_user option \<times> user_store" where
  "cached_user e f s =
     (case fu_ID f of
        None \<Rightarrow> (None, s)
      | Some i \<Rightarrow>
          let (v, c) = Cache_Get (snd (se_world e)) (rune_string i) (us_cache s)
          in (case v of Some (VOther u) \<Rightarrow> Some u | _ \<Rightarrow> None, s\<lparr>us_cache := c\<rparr>))"

definition GetUser_by :: "store_env \<Rightarrow> find_user \<Rightarrow> user_store \<Rightarrow> store_user option option \<times> user_store" where
  "GetUser_by e f s =
     (let (hit, s) = cached_user e f s in
      case hit of
        Some u \<Rightarrow> (Some (Some u), s)
      | None \<Rightarrow>
          (case ListUsers e f s of
             (None, s) \<Rightarrow> (None, s)
           | (Some [], s) \<Rightarrow> (Some None, s)
           | (Some (u # _), s) \<Rightarrow> (Some (Some u), cache_user e u s)))"

definition DeleteUser :: "store_env \<Rightarrow> int \<Rightarrow> user_store \<Rightarrow> bool \<times> user_store" where
  "DeleteUser e i s =
     (case driver_DeleteUser e i s of None \<Rightarrow> (False, s)
      | Some s \<Rightarrow> (True, s\<lparr>us_cache := Cache_Delete (rune_string i) (us_cache s)\<rparr>))"

end
