(* ===== verification/UserStoreFacts.thy ===== *)
theory UserStoreFacts
  imports UserStore
begin

text \<open>
  What is read through the cache is what the table holds, as long as the identifiers are code points the cache's
  keys tell apart: up to 55295. Beyond, every user has one key, and one is taken for another.
\<close>

section \<open>The keys\<close>

definition code_point :: "int \<Rightarrow> bool" where
  "code_point n \<longleftrightarrow> 0 \<le> n \<and> n \<le> 0x10FFFF \<and> \<not> (0xD800 \<le> n \<and> n \<le> 0xDFFF) \<and> n \<noteq> 0xFFFD"

lemma byte_eq: "0 \<le> a \<Longrightarrow> a < 256 \<Longrightarrow> 0 \<le> b \<Longrightarrow> b < 256 \<Longrightarrow> (char_of (nat a) :: char) = char_of (nat b) \<longleftrightarrow> a = b"
proof -
  assume h: "0 \<le> a" "a < 256" "0 \<le> b" "b < 256"
  then have "nat a < 256" "nat b < 256" by auto
  then show ?thesis using h by (simp add: char_of_eq_iff take_bit_eq_mod) (metis of_char_of eq_nat_nat_iff mod_less)
qed

text \<open>A number is the number of its 64ths and the rest.\<close>

lemma div_mod_64: "n = n div 64 * 64 + n mod (64::int)" "n div 64 = n div 4096 * 64 + n div 64 mod (64::int)"
  "n div 4096 = n div 262144 * 64 + n div 4096 mod (64::int)"
proof -
  show "n = n div 64 * 64 + n mod (64::int)" by simp
  have "n div 64 div 64 = n div 4096" by (simp add: zdiv_zmult2_eq [symmetric])
  then show "n div 64 = n div 4096 * 64 + n div 64 mod (64::int)" using div_mult_mod_eq [of "n div 64" 64] by simp
  have "n div 4096 div 64 = n div 262144" by (simp add: zdiv_zmult2_eq [symmetric])
  then show "n div 4096 = n div 262144 * 64 + n div 4096 mod (64::int)" using div_mult_mod_eq [of "n div 4096" 64] by simp
qed

definition rune_bytes :: "int \<Rightarrow> int list" where
  "rune_bytes n =
     (if n < 0 \<or> 0x10FFFF < n \<or> (0xD800 \<le> n \<and> n \<le> 0xDFFF) then [0xEF, 0xBF, 0xBD]
      else if n < 0x80 then [n]
      else if n < 0x800 then [0xC0 + n div 64, 0x80 + n mod 64]
      else if n < 0x10000 then [0xE0 + n div 4096, 0x80 + n div 64 mod 64, 0x80 + n mod 64]
      else [0xF0 + n div 262144, 0x80 + n div 4096 mod 64, 0x80 + n div 64 mod 64, 0x80 + n mod 64])"

lemma rune_string_bytes: "rune_string n = map (\<lambda>k. char_of (nat k)) (rune_bytes n)"
  by (simp add: rune_string_def rune_bytes_def Let_def)

lemma rune_bytes_range: "k \<in> set (rune_bytes n) \<Longrightarrow> 0 \<le> k \<and> k < 256"
proof -
  have m: "0 \<le> a mod 64" "a mod 64 < 64" for a :: int by simp_all
  have d: "0 \<le> n \<Longrightarrow> 0 \<le> n div 64 \<and> (n < 2048 \<longrightarrow> n div 64 < 32)" "0 \<le> n \<Longrightarrow> 0 \<le> n div 4096 \<and> (n < 65536 \<longrightarrow> n div 4096 < 16)"
    "0 \<le> n \<Longrightarrow> 0 \<le> n div 262144 \<and> (n \<le> 1114111 \<longrightarrow> n div 262144 < 8)"
    using zdiv_mono1 [of n 2047 64] zdiv_mono1 [of n 65535 4096] zdiv_mono1 [of n 1114111 262144]
    by (auto simp: pos_imp_zdiv_nonneg_iff)
  assume "k \<in> set (rune_bytes n)"
  then show ?thesis
    using m [of n] m [of "n div 64"] m [of "n div 4096"] d
    by (auto simp: rune_bytes_def split: if_splits)
qed

lemma rune_bytes_valid:
  "code_point n \<Longrightarrow> rune_bytes n =
     (if n < 0x80 then [n]
      else if n < 0x800 then [0xC0 + n div 64, 0x80 + n mod 64]
      else if n < 0x10000 then [0xE0 + n div 4096, 0x80 + n div 64 mod 64, 0x80 + n mod 64]
      else [0xF0 + n div 262144, 0x80 + n div 4096 mod 64, 0x80 + n div 64 mod 64, 0x80 + n mod 64])"
  unfolding rune_bytes_def code_point_def by (rule if_not_P) auto

lemma rune_bytes_inject:
  assumes "code_point m" "code_point n" "rune_bytes m = rune_bytes n"
  shows "m = n"
proof -
  have len: "length (rune_bytes m) = length (rune_bytes n)" using assms(3) by simp
  note eqs = div_mod_64 [of m] div_mod_64 [of n]
  consider "m < 0x80" "n < 0x80" | "0x80 \<le> m" "m < 0x800" "0x80 \<le> n" "n < 0x800"
    | "0x800 \<le> m" "m < 0x10000" "0x800 \<le> n" "n < 0x10000" | "0x10000 \<le> m" "0x10000 \<le> n"
    using len assms(1,2) by (fastforce simp: rune_bytes_valid split: if_splits)
  then show ?thesis
  proof cases
    case 1
    then show ?thesis using assms by (simp add: rune_bytes_valid)
  next
    case 2
    then have "m div 64 = n div 64" "m mod 64 = n mod 64" using assms by (simp_all add: rune_bytes_valid)
    then show ?thesis using eqs by linarith
  next
    case 3
    then have "m div 4096 = n div 4096" "m div 64 mod 64 = n div 64 mod 64" "m mod 64 = n mod 64"
      using assms by (simp_all add: rune_bytes_valid)
    then show ?thesis using eqs by linarith
  next
    case 4
    then have "m div 262144 = n div 262144" "m div 4096 mod 64 = n div 4096 mod 64" "m div 64 mod 64 = n div 64 mod 64" "m mod 64 = n mod 64"
      using assms by (simp_all add: rune_bytes_valid)
    then show ?thesis using eqs by linarith
  qed
qed

lemma rune_string_inject: "code_point m \<Longrightarrow> code_point n \<Longrightarrow> rune_string m = rune_string n \<longleftrightarrow> m = n"
proof
  assume cp: "code_point m" "code_point n" and eq: "rune_string m = rune_string n"
  have "inj_on (\<lambda>k. char_of (nat k) :: char) {k. 0 \<le> k \<and> k < 256}"
    by (rule inj_onI) (rule iffD1 [OF byte_eq], simp_all)
  then have "inj_on (\<lambda>k. char_of (nat k) :: char) (set (rune_bytes m) \<union> set (rune_bytes n))"
    by (rule inj_on_subset) (use rune_bytes_range in blast)
  then have "rune_bytes m = rune_bytes n" using eq unfolding rune_string_bytes by (rule map_inj_on [rotated])
  with cp show "m = n" by (rule rune_bytes_inject)
qed simp

text \<open>Numbers that are no code points have one key.\<close>

lemma rune_string_invalid:
  "n < 0 \<or> 0x10FFFF < n \<or> 0xD800 \<le> n \<and> n \<le> 0xDFFF \<Longrightarrow> rune_string n = [CHR 0xEF, CHR 0xBF, CHR 0xBD]"
  proof -
  have "char_of (239 :: nat) = CHR 0xEF" "char_of (191 :: nat) = CHR 0xBF" "char_of (189 :: nat) = CHR 0xBD"
    by code_simp+
  then show "n < 0 \<or> 0x10FFFF < n \<or> 0xD800 \<le> n \<and> n \<le> 0xDFFF \<Longrightarrow> rune_string n = [CHR 0xEF, CHR 0xBF, CHR 0xBD]"
    unfolding rune_string_def Let_def by (intro trans [OF if_P]) simp_all
qed

lemma small_code_point: "0 \<le> n \<Longrightarrow> n \<le> 55295 \<Longrightarrow> code_point n"
  by (simp add: code_point_def)

section \<open>The cache agrees with the table\<close>

definition user_map :: "store_user list \<Rightarrow> string \<rightharpoonup> store_user any_value" where
  "user_map rows k = map_option VOther (List.find (\<lambda>u. rune_string (su_ID u) = k) rows)"

definition keys_tell :: "store_user list \<Rightarrow> bool" where
  "keys_tell rows \<longleftrightarrow> distinct (map su_ID rows) \<and> (\<forall>u \<in> set rows. 0 \<le> su_ID u \<and> su_ID u \<le> 55295)"

text \<open>Numbers that are no code points have the key of the replacement character, which no small number has.\<close>

lemma small_not_replaced:
  assumes "0 \<le> m" "m \<le> 55295"
  shows "rune_string m \<noteq> [CHR 0xEF, CHR 0xBF, CHR 0xBD]"
proof -
  have ef: "CHR 0xEF = (char_of (nat 239) :: char)" by code_simp
  have lead: "char_of (nat k) \<noteq> CHR 0xEF" if "0 \<le> k" "k < 239" for k
    unfolding ef using byte_eq [of k 239] that by auto
  show ?thesis
  proof (cases "m < 0x80")
    case True
    then show ?thesis using assms by (simp add: rune_string_def)
  next
    case False
    then show ?thesis using assms lead [of "224 + m div 4096"] lead [of "192 + m div 64"] by (auto simp: rune_string_def Let_def)
  qed
qed

lemma replaced_key: "\<not> code_point i \<Longrightarrow> rune_string i = [CHR 0xEF, CHR 0xBF, CHR 0xBD]"
proof (cases "i = 0xFFFD")
  case True
  moreover have "rune_string 0xFFFD = [CHR 0xEF, CHR 0xBF, CHR 0xBD]" by code_simp
  ultimately show ?thesis by simp
qed (auto simp: code_point_def intro!: rune_string_invalid)

lemma key_eq: "keys_tell rows \<Longrightarrow> u \<in> set rows \<Longrightarrow> rune_string (su_ID u) = rune_string i \<longleftrightarrow> su_ID u = i"
proof -
  assume "keys_tell rows" "u \<in> set rows"
  then have u: "0 \<le> su_ID u" "su_ID u \<le> 55295" by (auto simp: keys_tell_def)
  show ?thesis
  proof (cases "code_point i")
    case False
    then show ?thesis using replaced_key small_not_replaced [OF u] small_code_point [OF u] by auto
  qed (rule rune_string_inject [OF small_code_point [OF u]])
qed

lemma user_map_at:
  assumes "keys_tell rows"
  shows "user_map rows (rune_string i) = map_option VOther (List.find (\<lambda>u. su_ID u = i) rows)"
  unfolding user_map_def by (rule arg_cong [OF find_cong_on]) (rule key_eq [OF assms])

lemma find_row: "distinct (map su_ID rows) \<Longrightarrow> u \<in> set rows \<Longrightarrow> List.find (\<lambda>x. su_ID x = su_ID u) rows = Some u"
  by (induction rows) auto

lemma user_map_row: "keys_tell rows \<Longrightarrow> u \<in> set rows \<Longrightarrow> user_map rows (rune_string (su_ID u)) = Some (VOther u)"
  using find_row [of rows u] by (subst user_map_at) (auto simp: keys_tell_def)

lemma user_map_insert:
  assumes "keys_tell (rows @ [u])"
  shows "user_map (rows @ [u]) = (user_map rows)(rune_string (su_ID u) \<mapsto> VOther u)"
proof
  fix k
  have "List.find (\<lambda>x. rune_string (su_ID x) = rune_string (su_ID u)) rows = None"
    unfolding find_None_all
  proof
    fix x
    assume x: "x \<in> set rows"
    have "rune_string (su_ID x) = rune_string (su_ID u) \<longleftrightarrow> su_ID x = su_ID u"
      by (rule key_eq [OF assms]) (use x assms in \<open>auto simp: keys_tell_def\<close>)
    moreover have "su_ID x \<noteq> su_ID u" using x assms by (auto simp: keys_tell_def image_iff)
    ultimately show "rune_string (su_ID x) \<noteq> rune_string (su_ID u)" by simp
  qed
  then show "user_map (rows @ [u]) k = ((user_map rows)(rune_string (su_ID u) \<mapsto> VOther u)) k"
    by (auto simp: user_map_def find_append split: option.split)
qed

lemma user_map_update:
  assumes "keys_tell rows" "u \<in> set rows" "su_ID u' = su_ID u"
  shows "user_map (map (\<lambda>x. if su_ID x = su_ID u then u' else x) rows) = (user_map rows)(rune_string (su_ID u) \<mapsto> VOther u')"
proof
  fix k
  let ?f = "\<lambda>x. if su_ID x = su_ID u then u' else x"
  have f: "List.find (\<lambda>x. rune_string (su_ID x) = k) (map ?f xs) = map_option ?f (List.find (\<lambda>x. rune_string (su_ID x) = k) xs)" for xs
    by (induction xs) (auto simp: assms(3))
  have u: "List.find (\<lambda>x. rune_string (su_ID x) = rune_string (su_ID u)) rows = Some u"
    using user_map_row [OF assms(1,2)] by (auto simp: user_map_def)
  have key: "rune_string (su_ID x) = k \<Longrightarrow> x \<in> set rows \<Longrightarrow> su_ID x = su_ID u \<longleftrightarrow> k = rune_string (su_ID u)" for x
    using key_eq [OF assms(1)] by auto
  show "user_map (map ?f rows) k = ((user_map rows)(rune_string (su_ID u) \<mapsto> VOther u')) k"
  proof (cases "List.find (\<lambda>x. rune_string (su_ID x) = k) rows")
    case (Some x)
    then have "rune_string (su_ID x) = k" "x \<in> set rows" by (auto dest: find_Some_iff_mem)
    then have "su_ID x = su_ID u \<longleftrightarrow> k = rune_string (su_ID u)" by (rule key)
    with Some f show ?thesis by (simp add: user_map_def)
  next
    case None
    then have "k \<noteq> rune_string (su_ID u)" using u by auto
    with None f show ?thesis by (simp add: user_map_def)
  qed
qed

lemma user_map_delete:
  assumes "keys_tell rows"
  shows "user_map (filter (\<lambda>u. su_ID u \<noteq> i) rows) = (user_map rows)(rune_string i := None)"
proof
  fix k
  have "List.find (\<lambda>x. rune_string (su_ID x) = k) (filter (\<lambda>u. su_ID u \<noteq> i) rows)
      = List.find (\<lambda>x. su_ID x \<noteq> i \<and> rune_string (su_ID x) = k) rows"
    by (induction rows) auto
  also have "\<dots> = (if k = rune_string i then None else List.find (\<lambda>x. rune_string (su_ID x) = k) rows)"
  proof (cases "k = rune_string i")
    case True
    then show ?thesis using key_eq [OF assms] by (auto simp: find_None_all)
  next
    case False
    then show ?thesis by (auto intro!: find_cong_on)
  qed
  finally show "user_map (filter (\<lambda>u. su_ID u \<noteq> i) rows) k = ((user_map rows)(rune_string i := None)) k"
    by (simp add: user_map_def)
qed

text \<open>The table on its own, whatever the cache does.\<close>

definition rows_ok :: "user_store \<Rightarrow> bool" where
  "rows_ok s \<longleftrightarrow> 0 \<le> us_seq s \<and> distinct (map su_ID (us_rows s)) \<and> (\<forall>u \<in> set (us_rows s). 0 < su_ID u \<and> su_ID u \<le> us_seq s)"

definition current :: "user_store \<Rightarrow> bool" where
  "current s \<longleftrightarrow> rows_ok s \<and> (us_seq s \<le> 55295 \<longrightarrow> store_cache.agrees (user_map (us_rows s)) (us_cache s))"

definition usable_env :: "store_env \<Rightarrow> bool" where
  "usable_env e \<longleftrightarrow> permuting (fst (se_world e)) \<and> permuting (se_scan e)"

lemma rows_keys: "rows_ok s \<Longrightarrow> us_seq s \<le> 55295 \<Longrightarrow> keys_tell (us_rows s)"
  by (force simp: rows_ok_def keys_tell_def)

lemma cache_user_simps [simp]: "us_rows (cache_user e u s) = us_rows s" "us_seq (cache_user e u s) = us_seq s"
  by (simp_all add: cache_user_def)

lemma cache_user_current:
  assumes "current s" "usable_env e" "u \<in> set (us_rows s)"
  shows "current (cache_user e u s)"
proof -
  have "store_cache.agrees (user_map (us_rows s)) (us_cache (cache_user e u s))" if "us_seq s \<le> 55295"
    using store_cache.agrees_put_same [of "user_map (us_rows s)" "us_cache s" "se_world e" "rune_string (su_ID u)" "VOther u"]
      user_map_row [OF rows_keys] assms that
    by (simp add: current_def usable_env_def cache_user_def)
  then show ?thesis using assms(1) by (simp add: current_def rows_ok_def)
qed

lemma cache_users_current: "current s \<Longrightarrow> usable_env e \<Longrightarrow> set us \<subseteq> set (us_rows s) \<Longrightarrow> current (fold (cache_user e) us s)"
proof (induction us arbitrary: s)
  case (Cons u us)
  then show ?case using cache_user_current by simp
qed simp

lemma fold_cache_simps [simp]: "us_rows (fold (cache_user e) us s) = us_rows s" "us_seq (fold (cache_user e) us s) = us_seq s"
  by (induction us arbitrary: s) simp_all

lemma create_current:
  assumes "current s" "usable_env e"
  shows "current (snd (CreateUser e create s))" "us_seq s \<le> us_seq (snd (CreateUser e create s))"
proof -
  show "current (snd (CreateUser e create s))"
  proof (cases "driver_CreateUser e create s")
    case (Some x)
    then obtain u where x: "x = (u, s\<lparr>us_rows := us_rows s @ [u], us_seq := us_seq s + 1\<rparr>)" "su_ID u = us_seq s + 1"
      by (auto simp: driver_CreateUser_def Let_def split: if_splits)
    let ?s = "s\<lparr>us_rows := us_rows s @ [u], us_seq := us_seq s + 1\<rparr>"
    have ok: "rows_ok s" using assms(1) by (simp add: current_def)
    then have rows: "rows_ok ?s" using x(2) by (force simp: rows_ok_def)
    have "store_cache.agrees (user_map (us_rows ?s)) (us_cache (cache_user e u ?s))" if "us_seq s + 1 \<le> 55295"
      using store_cache.agrees_put [of "user_map (us_rows s)" "us_cache s" "se_world e" "rune_string (su_ID u)" "VOther u"]
        user_map_insert [of "us_rows s" u] rows_keys [OF rows] assms that
      by (simp add: current_def usable_env_def cache_user_def)
    then have "current (cache_user e u ?s)" using rows by (simp add: current_def rows_ok_def)
    then show ?thesis using Some x(1) by (simp add: CreateUser_def)
  qed (use assms(1) in \<open>simp add: CreateUser_def\<close>)
  show "us_seq s \<le> us_seq (snd (CreateUser e create s))"
    by (auto simp: CreateUser_def driver_CreateUser_def Let_def split: option.split)
qed

lemma update_current:
  assumes "current s" "usable_env e"
  shows "current (snd (UpdateUser e q s))" "us_seq (snd (UpdateUser e q s)) = us_seq s"
proof -
  show "current (snd (UpdateUser e q s))"
  proof (cases "driver_UpdateUser e q s")
    case (Some x)
    then obtain u where u: "u \<in> set (us_rows s)" "su_ID u = uu_ID q"
      and x: "x = (updated_user q u, s\<lparr>us_rows := map (\<lambda>y. if su_ID y = uu_ID q then updated_user q u else y) (us_rows s)\<rparr>)"
      by (auto simp: driver_UpdateUser_def Let_def split: if_splits option.splits dest: find_Some_iff_mem)
    let ?u = "updated_user q u"
    let ?s = "s\<lparr>us_rows := map (\<lambda>y. if su_ID y = su_ID u then ?u else y) (us_rows s)\<rparr>"
    have i: "su_ID ?u = su_ID u" by (simp add: updated_user_def)
    have ok: "rows_ok s" using assms(1) by (simp add: current_def)
    have "map su_ID (us_rows ?s) = map su_ID (us_rows s)" using i by simp
    then have "distinct (map su_ID (us_rows ?s))" using ok unfolding rows_ok_def by (simp only:)
    then have rows: "rows_ok ?s" using ok u(1) i unfolding rows_ok_def by (auto simp del: map_map)
    have "store_cache.agrees (user_map (us_rows ?s)) (us_cache (cache_user e ?u ?s))" if "us_seq s \<le> 55295"
      using store_cache.agrees_put [of "user_map (us_rows s)" "us_cache s" "se_world e" "rune_string (su_ID u)" "VOther ?u"]
        user_map_update [OF rows_keys [OF ok that] u(1) i] assms that i
      by (simp add: current_def usable_env_def cache_user_def)
    then have "current (cache_user e ?u ?s)" using rows by (simp add: current_def rows_ok_def)
    then show ?thesis using Some x u(2) by (simp add: UpdateUser_def)
  qed (use assms(1) in \<open>simp add: UpdateUser_def\<close>)
  show "us_seq (snd (UpdateUser e q s)) = us_seq s"
    by (auto simp: UpdateUser_def driver_UpdateUser_def Let_def split: option.split)
qed

lemma delete_current:
  assumes "current s" "usable_env e"
  shows "current (snd (DeleteUser e i s))" "us_seq (snd (DeleteUser e i s)) = us_seq s"
proof -
  let ?s = "s\<lparr>us_rows := filter (\<lambda>u. su_ID u \<noteq> i) (us_rows s)\<rparr>"
  have ok: "rows_ok s" using assms(1) by (simp add: current_def)
  then have rows: "rows_ok ?s" by (auto simp: rows_ok_def distinct_map_filter)
  have "store_cache.agrees (user_map (us_rows ?s)) (Cache_Delete (rune_string i) (us_cache s))" if "us_seq s \<le> 55295"
    using store_cache.agrees_forget [of "user_map (us_rows s)" "us_cache s" "rune_string i"]
      user_map_delete [OF rows_keys [OF ok that]] assms that
    by (simp add: current_def)
  then have "current (?s\<lparr>us_cache := Cache_Delete (rune_string i) (us_cache s)\<rparr>)" using rows by (simp add: current_def rows_ok_def)
  then show "current (snd (DeleteUser e i s))" using assms(1) by (simp add: DeleteUser_def driver_DeleteUser_def)
  show "us_seq (snd (DeleteUser e i s)) = us_seq s" by (simp add: DeleteUser_def driver_DeleteUser_def)
qed

section \<open>Reading\<close>

lemma set_desc_by [simp]: "set (desc_by f xs) = set xs"
  by (simp add: desc_by_def)

lemma set_ordered [simp]: "set (ordered_users f xs) = set xs"
  by (simp add: ordered_users_def Let_def split: option.split)

lemma listed_rows:
  assumes "driver_ListUsers e f s = Some us" "usable_env e"
  shows "set us \<subseteq> set (us_rows s)"
proof -
  have "set (se_scan e (us_rows s)) = set (us_rows s)" using assms(2) unfolding usable_env_def permuting_def by (metis set_mset_mset)
  then have "set us \<subseteq> set (us_rows s)"
    using assms(1) set_take_subset by (fastforce simp: driver_ListUsers_def limited_def split: if_splits option.splits)
  then show ?thesis .
qed

lemma list_current:
  assumes "current s" "usable_env e"
  shows "current (snd (ListUsers e f s))" "us_seq (snd (ListUsers e f s)) = us_seq s" "us_rows (snd (ListUsers e f s)) = us_rows s"
  using cache_users_current [OF assms listed_rows [OF _ assms(2)]] assms(1)
  by (auto simp: ListUsers_def split: option.split)

lemma cached_current:
  assumes "current s" "usable_env e"
  shows "current (snd (cached_user e f s))" "us_seq (snd (cached_user e f s)) = us_seq s" "us_rows (snd (cached_user e f s)) = us_rows s"
proof -
  have "store_cache.agrees (user_map (us_rows s)) (snd (Cache_Get (snd (se_world e)) k (us_cache s)))" if "us_seq s \<le> 55295" for k
    using store_cache.agrees_look [of "user_map (us_rows s)" "us_cache s" "se_world e" k] assms that
    by (simp add: current_def usable_env_def)
  then show "current (snd (cached_user e f s))" using assms(1)
    by (auto simp: current_def rows_ok_def cached_user_def split_beta Let_def split: option.split)
qed (simp_all add: cached_user_def split_beta Let_def split: option.split)

lemma get_current:
  assumes "current s" "usable_env e"
  shows "current (snd (GetUser_by e f s))" "us_seq (snd (GetUser_by e f s)) = us_seq s"
proof -
  let ?s = "snd (cached_user e f s)"
  note c = cached_current [OF assms, of f]
  note l = list_current [OF c(1) assms(2), of f]
  have "u \<in> set (us_rows ?s)" if "fst (ListUsers e f ?s) = Some (u # us)" for u us
    using listed_rows [of e f ?s "u # us"] assms(2) that by (auto simp: ListUsers_def split: option.splits)
  then have h: "current (cache_user e u (snd (ListUsers e f ?s)))" if "fst (ListUsers e f ?s) = Some (u # us)" for u us
    using cache_user_current [OF l(1) assms(2), of u] that l(3) by simp
  show "current (snd (GetUser_by e f s))"
    using c(1) l(1) h unfolding GetUser_by_def Let_def split_beta by (auto split: option.split list.split)
  show "us_seq (snd (GetUser_by e f s)) = us_seq s"
    using c(2) l(2) unfolding GetUser_by_def Let_def split_beta by (auto split: option.split list.split)
qed

inductive user_run :: "user_store \<Rightarrow> user_store \<Rightarrow> bool" where
  start: "user_run s s"
| create: "user_run s t \<Longrightarrow> usable_env e \<Longrightarrow> user_run s (snd (CreateUser e c t))"
| update: "user_run s t \<Longrightarrow> usable_env e \<Longrightarrow> user_run s (snd (UpdateUser e q t))"
| list: "user_run s t \<Longrightarrow> usable_env e \<Longrightarrow> user_run s (snd (ListUsers e f t))"
| get: "user_run s t \<Longrightarrow> usable_env e \<Longrightarrow> user_run s (snd (GetUser_by e f t))"
| delete: "user_run s t \<Longrightarrow> usable_env e \<Longrightarrow> user_run s (snd (DeleteUser e i t))"
| clean: "user_run s t \<Longrightarrow> permuting order \<Longrightarrow> user_run s (t\<lparr>us_cache := cleanupLoop_tick order calls now (us_cache t)\<rparr>)"

lemma tick_current:
  assumes "current s" "permuting order"
  shows "current (s\<lparr>us_cache := cleanupLoop_tick order calls now (us_cache s)\<rparr>)"
proof -
  have "store_cache.agrees db (cleanupLoop_tick order calls now c)" if "store_cache.agrees db c" for db c
  proof -
    have ok: "cache_ok c" using that by (simp add: store_cache.agrees_def)
    show ?thesis
      using that cleanup_keeps(1,3) [OF ok assms(2)]
      by (auto simp: store_cache.agrees_def cleanupLoop_tick_def cache_holds_def split: option.splits if_splits)
  qed
  then show ?thesis using assms(1) by (simp add: current_def rows_ok_def)
qed

lemma run_current: "user_run s t \<Longrightarrow> current s \<Longrightarrow> current t"
  by (induction rule: user_run.induct) (auto intro: create_current update_current list_current get_current delete_current tick_current)

definition find_id :: "int \<Rightarrow> find_user" where
  "find_id i = \<lparr>fu_ID = Some i, fu_IDList = [], fu_UsernameList = [], fu_RowStatus = None, fu_Username = None, fu_Role = None,
     fu_Email = None, fu_Nickname = None, fu_Search = None, fu_Filters = [], fu_Limit = None\<rparr>"

lemma found_by_id: "user_found (find_id i) u \<longleftrightarrow> su_ID u = i"
  by (simp add: user_found_def find_id_def opt_matches_def search_text_def)

lemma listed_by_id:
  assumes "distinct (map su_ID (us_rows s))" "usable_env e" "\<not> se_fails e"
  shows "driver_ListUsers e (find_id i) s = Some (case List.find (\<lambda>u. su_ID u = i) (us_rows s) of None \<Rightarrow> [] | Some u \<Rightarrow> [u])"
proof -
  have "filter (\<lambda>u. su_ID u = i) xs = (case List.find (\<lambda>u. su_ID u = i) xs of None \<Rightarrow> [] | Some u \<Rightarrow> [u])" if "distinct (map su_ID xs)" for xs
    using that
  proof (induction xs)
    case (Cons x xs)
    show ?case
    proof (cases "su_ID x = i")
      case True
      then have "filter (\<lambda>u. su_ID u = i) xs = []" using Cons.prems by (auto simp: filter_empty_conv image_iff)
      with True show ?thesis by simp
    next
      case False
      with Cons show ?thesis by simp
    qed
  qed simp
  note one = this [OF assms(1)]
  have m: "mset (se_scan e (us_rows s)) = mset (us_rows s)" using assms(2) by (simp add: usable_env_def permuting_def)
  have "mset (filter (\<lambda>u. su_ID u = i) (se_scan e (us_rows s))) = mset (filter (\<lambda>u. su_ID u = i) (us_rows s))"
    by (simp only: mset_filter m)
  also note one
  finally have "mset (filter (\<lambda>u. su_ID u = i) (se_scan e (us_rows s))) =
      mset (case List.find (\<lambda>u. su_ID u = i) (us_rows s) of None \<Rightarrow> [] | Some u \<Rightarrow> [u])" .
  then have "filter (\<lambda>u. su_ID u = i) (se_scan e (us_rows s)) =
      (case List.find (\<lambda>u. su_ID u = i) (us_rows s) of None \<Rightarrow> [] | Some u \<Rightarrow> [u])"
    by (simp split: option.splits del: mset_filter)
  moreover have "user_found (find_id i) = (\<lambda>u. su_ID u = i)" by (simp add: fun_eq_iff found_by_id)
  moreover have "fu_Filters (find_id i) = []" "fu_Limit (find_id i) = None" "search_text (find_id i) = None"
    by (simp_all add: find_id_def search_text_def)
  ultimately show ?thesis using assms(3)
    by (simp add: driver_ListUsers_def limited_def ordered_users_def desc_by_def split: option.split)
qed

text \<open>What the cache answers is the row of the table.\<close>

lemma cached_hit:
  assumes "current t" "us_seq t \<le> 55295" "usable_env e" "fst (cached_user e (find_id i) t) = Some u"
  shows "List.find (\<lambda>u. su_ID u = i) (us_rows t) = Some u"
proof -
  have rows: "rows_ok t" and ag: "store_cache.agrees (user_map (us_rows t)) (us_cache t)"
    using assms(1,2) by (simp_all add: current_def)
  have "fst (Cache_Get (snd (se_world e)) (rune_string i) (us_cache t)) = Some (VOther u)"
    using assms(4) by (auto simp: cached_user_def find_id_def split_beta Let_def split: option.splits any_value.splits)
  then have "user_map (us_rows t) (rune_string i) = Some (VOther u)"
    using store_cache.look_agrees [OF ag] assms(3) unfolding usable_env_def by blast
  then show ?thesis using user_map_at [OF rows_keys [OF rows assms(2)]] by auto
qed

text \<open>
  C34. Reading a user by identifier through the cache gives the user as the table has it now, or that there is
  none: after any sequence of operations and ticks of the clean-up loop, from a store whose cache agrees
  with its table, as long as no more than 55295 users were ever created.
\<close>

theorem users_read_are_current:
  assumes "user_run s t" "current s" "us_seq t \<le> 55295" "usable_env e" "\<not> se_fails e"
  shows "fst (GetUser_by e (find_id i) t) = Some (List.find (\<lambda>u. su_ID u = i) (us_rows t))"
proof -
  have cur: "current t" using assms(1,2) by (rule run_current)
  have d: "distinct (map su_ID (us_rows (snd (cached_user e (find_id i) t))))"
    using cur cached_current(3) [OF cur assms(4)] by (simp add: current_def rows_ok_def)
  show ?thesis
    using cached_hit [OF cur assms(3,4)] listed_by_id [OF d assms(4,5), of i] cached_current(3) [OF cur assms(4)]
    by (auto simp: GetUser_by_def Let_def split_beta ListUsers_def split: option.splits)
qed

section \<open>Identifiers beyond the code points\<close>

text \<open>
  C40. From identifier 55296 to 57343 one user is taken for another: right after such a user was created,
  every other identifier of that kind reads that user, whoever the table has under it, until the entry expires.
\<close>

theorem surrogate_users_are_confused:
  assumes "CreateUser e create s = (Some u, s')" "us_seq s + 1 \<in> {55296..57343}" "j \<in> {55296..57343}"
    and "cache_ok (us_cache s)" "permuting (fst (se_world e))" "ca_config (us_cache s) = DefaultConfig" "Cache_Size (us_cache s) < 1000"
    and "snd (se_world e') \<le> snd (se_world e) + 600 * 1000000000"
  shows "su_ID u = us_seq s + 1 \<and> fst (GetUser_by e' (find_id j) s') = Some (Some u)"
proof -
  let ?c = "Cache_Set (fst (se_world e)) (snd (se_world e)) (rune_string (su_ID u)) (VOther u) (us_cache s)"
  obtain x where "driver_CreateUser e create s = Some (u, x)" "s' = cache_user e u x"
    using assms(1) by (auto simp: CreateUser_def split: option.splits)
  then have i: "su_ID u = us_seq s + 1" and c: "us_cache s' = ?c"
    by (auto simp: driver_CreateUser_def cache_user_def Let_def split: if_splits)
  have k: "rune_string (su_ID u) = rune_string j" using assms(2,3) i by (simp add: rune_string_invalid)
  have "Cache_Size (us_cache s) = int (card (keys_in (us_cache s)))"
    using assms(4) length_keys [of "ca_data (us_cache s)"] by (simp add: cache_ok_def keys_in_def Cache_Size_def)
  moreover have "card (insert (rune_string (su_ID u)) (keys_in (us_cache s))) \<le> Suc (card (keys_in (us_cache s)))"
    by (rule card_insert_le_m1) simp_all
  ultimately have room: "cf_MaxItems (ca_config (us_cache s)) \<le> 0
      \<or> int (card (insert (rune_string (su_ID u)) (keys_in (us_cache s)))) \<le> cf_MaxItems (ca_config (us_cache s))"
    using assms(6,7) by (simp add: DefaultConfig_def)
  have "map_Load (rune_string j) (ca_data ?c) =
      Some \<lparr>it_value = VOther u, it_expiration = snd (se_world e) + cf_DefaultTTL DefaultConfig, it_size = estimateSize (VOther u)\<rparr>"
    using Set_keeps(3) [OF assms(4,5) room, where k = "rune_string j" and now = "snd (se_world e)" and v = "VOther u"] k assms(6)
    by (simp add: Cache_Set_def)
  then have "fst (Cache_Get (snd (se_world e')) (rune_string j) ?c) = Some (VOther u)"
    using assms(8) by (simp add: Cache_Get_def DefaultConfig_def)
  then show ?thesis using c i by (simp add: GetUser_by_def cached_user_def find_id_def split_beta Let_def)
qed

section \<open>Examples\<close>

definition nobody :: store_user where
  "nobody = \<lparr>su_ID = 0, su_RowStatus = [], su_CreatedTs = 0, su_UpdatedTs = 0, su_Username = [], su_Role = ''USER'', su_Email = [],
     su_Nickname = [], su_PasswordHash = [], su_AvatarURL = [], su_Description = []\<rparr>"

definition demo_store_env :: store_env where
  "demo_store_env = \<lparr>se_world = (id, 0), se_fails = False, se_now = 0, se_scan = id\<rparr>"

definition users_from :: "int \<Rightarrow> user_store" where
  "users_from n = \<lparr>us_cache = NewCache DefaultConfig, us_rows = [], us_seq = n\<rparr>"

lemma users_from_current: "0 \<le> n \<Longrightarrow> current (users_from n)"
  by (simp add: current_def rows_ok_def users_from_def store_cache.agrees_def cache_ok_def NewCache_def cache_holds_def map_Load_def)

lemma demo_usable: "usable_env demo_store_env"
  by (simp add: usable_env_def permuting_def demo_store_env_def)

lemma users_read_are_current_witness:
  "\<exists>u. fst (GetUser_by demo_store_env (find_id 1) (snd (CreateUser demo_store_env (nobody\<lparr>su_Username := ''ann''\<rparr>) (users_from 0)))) = Some (Some u)
     \<and> su_Username u = ''ann''"
proof -
  let ?t = "snd (CreateUser demo_store_env (nobody\<lparr>su_Username := ''ann''\<rparr>) (users_from 0))"
  have run: "user_run (users_from 0) ?t" by (rule user_run.create [OF user_run.start demo_usable])
  have rows: "us_rows ?t = [nobody\<lparr>su_Username := ''ann'', su_ID := 1, su_RowStatus := ''NORMAL''\<rparr>]" "us_seq ?t = 1"
    by (simp_all add: CreateUser_def driver_CreateUser_def demo_store_env_def users_from_def Let_def nobody_def cache_user_def)
  have "fst (GetUser_by demo_store_env (find_id 1) ?t) = Some (List.find (\<lambda>u. su_ID u = 1) (us_rows ?t))"
    by (rule users_read_are_current [OF run users_from_current _ demo_usable]) (simp_all add: rows(2) demo_store_env_def [THEN arg_cong [of _ _ se_fails]])
  then show ?thesis unfolding rows(1) by simp
qed

lemma surrogate_users_are_confused_witness:
  "\<exists>u. fst (GetUser_by demo_store_env (find_id 55296) (snd (CreateUser demo_store_env (nobody\<lparr>su_Username := ''eve''\<rparr>) (users_from 55296))))
      = Some (Some u) \<and> su_ID u = 55297 \<and> su_Username u = ''eve''"
proof -
  let ?e = demo_store_env and ?q = "nobody\<lparr>su_Username := ''eve''\<rparr>"
  obtain u s' where c: "CreateUser ?e ?q (users_from 55296) = (Some u, s')" "su_Username u = ''eve''"
    by (simp add: CreateUser_def driver_CreateUser_def demo_store_env_def users_from_def Let_def)
  have "su_ID u = us_seq (users_from 55296) + 1 \<and> fst (GetUser_by ?e (find_id 55296) s') = Some (Some u)"
    by (rule surrogate_users_are_confused [OF c(1)])
      (simp_all add: users_from_def cache_ok_def NewCache_def DefaultConfig_def Cache_Size_def demo_store_env_def permuting_def)
  with c show ?thesis by (simp add: users_from_def)
qed

end
