(* ===== verification/FilterSchema.thy ===== *)
theory FilterSchema
  imports Prelude
begin

text \<open>
  The filter language of the note server, \<open>memos/lib/filter\<close>: the schema of the fields a filter may name
  (\<open>schema.go\<close>) and the dialect-agnostic conditions a filter is compiled to (\<open>ir.go\<close>). The options of the
  CEL environment are those of the expression parser, which is not part of the repository.
\<close>

section \<open>Dialects and fields\<close>

datatype dialect = SQLite | MySQL | Postgres | OtherDialect string

datatype field_type = TString | TInt | TBool | TTimestamp

datatype field_kind = KScalar | KBoolColumn | KJSONBool | KJSONList | KVirtualAlias

record column =
  co_Table :: string
  co_Name :: string

datatype cmp_op = CompareEq | CompareNeq | CompareLt | CompareLte | CompareGt | CompareGte

record schema_field =
  fd_Name :: string
  fd_Kind :: field_kind
  fd_Type :: field_type
  fd_Column :: column
  fd_JSONPath :: "string list"
  fd_AliasFor :: string
  fd_SupportsContains :: bool
  fd_Expressions :: "(dialect \<times> string) list"
  fd_AllowedComparisonOps :: "cmp_op list option"

record filter_schema =
  sm_Name :: string
  sm_Fields :: "(string \<times> schema_field) list"

definition schema_Field :: "filter_schema \<Rightarrow> string \<Rightarrow> schema_field option" where
  "schema_Field s name = map_of (sm_Fields s) name"

definition ResolveAlias :: "filter_schema \<Rightarrow> string \<Rightarrow> schema_field option" where
  "ResolveAlias s name =
     (case schema_Field s name of
        None \<Rightarrow> None
      | Some field \<Rightarrow> if fd_Kind field = KVirtualAlias then schema_Field s (fd_AliasFor field) else Some field)"

section \<open>The two schemas\<close>

definition plain_field :: "string \<Rightarrow> field_kind \<Rightarrow> field_type \<Rightarrow> string \<Rightarrow> string \<Rightarrow> schema_field" where
  "plain_field name kind typ table col = \<lparr>fd_Name = name, fd_Kind = kind, fd_Type = typ,
     fd_Column = \<lparr>co_Table = table, co_Name = col\<rparr>, fd_JSONPath = [], fd_AliasFor = [], fd_SupportsContains = False,
     fd_Expressions = [], fd_AllowedComparisonOps = None\<rparr>"

definition eq_ops :: "cmp_op list option" where
  "eq_ops = Some [CompareEq, CompareNeq]"

definition epoch_expressions :: "(dialect \<times> string) list" where
  "epoch_expressions = [(MySQL, ''UNIX_TIMESTAMP(%s)''), (Postgres, ''%s''), (SQLite, ''%s'')]"

definition payload_flag :: "string \<Rightarrow> string \<Rightarrow> string \<times> schema_field" where
  "payload_flag name prop = (name, (plain_field name KJSONBool TBool ''memo'' ''payload'')
     \<lparr>fd_JSONPath := [''property'', prop], fd_AllowedComparisonOps := eq_ops\<rparr>)"

definition NewSchema :: filter_schema where
  "NewSchema = \<lparr>sm_Name = ''memo'', sm_Fields =
    [(''content'', (plain_field ''content'' KScalar TString ''memo'' ''content'')\<lparr>fd_SupportsContains := True\<rparr>),
     (''creator'', (plain_field ''creator'' KScalar TString ''memo_creator'' ''username'')
        \<lparr>fd_Expressions := [(SQLite, ''('users/' || %s)''), (MySQL, ''CONCAT('users/', %s)''), (Postgres, ''('users/' || %s)'')],
         fd_AllowedComparisonOps := eq_ops\<rparr>),
     (''creator_id'', (plain_field ''creator_id'' KScalar TInt ''memo'' ''creator_id'')\<lparr>fd_AllowedComparisonOps := eq_ops\<rparr>),
     (''created_ts'', (plain_field ''created_ts'' KScalar TTimestamp ''memo'' ''created_ts'')\<lparr>fd_Expressions := epoch_expressions\<rparr>),
     (''updated_ts'', (plain_field ''updated_ts'' KScalar TTimestamp ''memo'' ''updated_ts'')\<lparr>fd_Expressions := epoch_expressions\<rparr>),
     (''pinned'', (plain_field ''pinned'' KBoolColumn TBool ''memo'' ''pinned'')\<lparr>fd_AllowedComparisonOps := eq_ops\<rparr>),
     (''visibility'', (plain_field ''visibility'' KScalar TString ''memo'' ''visibility'')\<lparr>fd_AllowedComparisonOps := eq_ops\<rparr>),
     (''tags'', (plain_field ''tags'' KJSONList TString ''memo'' ''payload'')\<lparr>fd_JSONPath := [''tags'']\<rparr>),
     (''tag'', (plain_field ''tag'' KVirtualAlias TString [] [])\<lparr>fd_AliasFor := ''tags''\<rparr>),
     payload_flag ''has_task_list'' ''hasTaskList'', payload_flag ''has_link'' ''hasLink'', payload_flag ''has_code'' ''hasCode'',
     payload_flag ''has_incomplete_tasks'' ''hasIncompleteTasks'']\<rparr>"

definition NewAttachmentSchema :: filter_schema where
  "NewAttachmentSchema = \<lparr>sm_Name = ''attachment'', sm_Fields =
    [(''filename'', (plain_field ''filename'' KScalar TString ''attachment'' ''filename'')\<lparr>fd_SupportsContains := True\<rparr>),
     (''mime_type'', plain_field ''mime_type'' KScalar TString ''attachment'' ''type''),
     (''create_time'', (plain_field ''create_time'' KScalar TTimestamp ''attachment'' ''created_ts'')\<lparr>fd_Expressions := epoch_expressions\<rparr>),
     (''memo_id'', (plain_field ''memo_id'' KScalar TInt ''attachment'' ''memo_id'')\<lparr>fd_AllowedComparisonOps := eq_ops\<rparr>)]\<rparr>"

section \<open>The texts of a field\<close>

text \<open>\<open>fmt.Sprintf\<close> of a format with one \<open>%s\<close>.\<close>

fun sprintf_s :: "string \<Rightarrow> string \<Rightarrow> string" where
  "sprintf_s (c # d # rest) x = (if c = CHR ''%'' \<and> d = CHR ''s'' then x @ rest else c # sprintf_s (d # rest) x)"
| "sprintf_s [c] x = [c]"
| "sprintf_s [] x = []"

definition qualifyColumn :: "dialect \<Rightarrow> column \<Rightarrow> string" where
  "qualifyColumn d col =
     (if d = Postgres then co_Table col @ ''.'' @ co_Name col
      else [CHR 0x60] @ co_Table col @ [CHR 0x60] @ ''.'' @ [CHR 0x60] @ co_Name col @ [CHR 0x60])"

definition columnExpr :: "schema_field \<Rightarrow> dialect \<Rightarrow> string" where
  "columnExpr f d =
     (let base = qualifyColumn d (fd_Column f)
      in case map_of (fd_Expressions f) d of Some expr \<Rightarrow> if expr \<noteq> [] then sprintf_s expr base else base | None \<Rightarrow> base)"

section \<open>Conditions\<close>

text \<open>
  A literal of a filter: text, a 64-bit number, a double as its bits, a truth value or null.
\<close>

datatype literal = LStr string | LInt "64 word" | LFloat "64 word" | LBool bool | LNull

datatype value_expr = FieldRef string | LiteralValue literal | FunctionValue string "value_expr list"

datatype predicate_expr = StartsWithPredicate string | EndsWithPredicate string | ContainsPredicate string | EqualsPredicate string

datatype logical_op = LogicalAnd | LogicalOr

datatype comprehension_kind = ComprehensionExists

datatype condition =
    LogicalCondition logical_op condition condition
  | NotCondition condition
  | FieldPredicateCondition string
  | ComparisonCondition value_expr cmp_op value_expr
  | InCondition value_expr "value_expr list"
  | ElementInCondition value_expr string
  | ContainsCondition string string
  | ConstantCondition bool
  | ListComprehensionCondition comprehension_kind string string predicate_expr

text \<open>
  The errors of the compiler and of the renderer, by the place that raises them.
\<close>

datatype filter_error =
    NotBoolean | UnknownIdentifier string | NotBooleanIdentifier string | UnsupportedExpression | ArgumentCount string
  | UnsupportedCall string | InvalidAlias string | OperatorNotAllowed cmp_op string | InvalidIn | NoContainsTarget | NotAnIdentifier
  | NoContainsSupport string | NotALiteral | UnsupportedConstant | NotAString | UnsupportedValue | UnsupportedOperator string
  | BadComprehension | NoListField string | BadPredicate | UnsupportedPredicate string
  | UnknownField string | NotAPredicate string | NoComparison string | BadComparison | UnsupportedFunction string
  | NeedsLiteral | NeedsBool | NeedsNumber | NeedsString string | NullComparison cmp_op | UnsupportedType string
  | UnsupportedDialect dialect | UnsupportedBoolOperator cmp_op | NoIn string | NoTagField | EmptyFilter | CelError

end
