(* ===== verification/FilterParser.thy ===== *)
theory FilterParser
  imports FilterSchema
begin

text \<open>
  From the expression tree of a filter to a condition, \<open>memos/lib/filter/parser.go\<close>. The tree is the one the CEL
  parser gives, which is not part of the repository: the constructors are those the source looks at. Numbers are
  64-bit words and wrap as Go's do.
\<close>

section \<open>Expressions\<close>

datatype const_kind = CStr string | CInt "64 word" | CUint "64 word" | CDouble "64 word" | CBool bool | CNull | COther

datatype expr =
    EConst const_kind
  | EIdent string
  | ECall "expr option" string "expr list"
  | EList "expr list"
  | EComprehension (comp_range: expr) (comp_var: string) (comp_init: expr) (comp_step: expr)
  | EOther

definition getIdentName :: "expr \<Rightarrow> string option" where
  "getIdentName e = (case e of EIdent name \<Rightarrow> Some name | _ \<Rightarrow> None)"

definition getConstValue :: "expr \<Rightarrow> filter_error + literal" where
  "getConstValue e =
     (case e of
        EConst c \<Rightarrow>
          (case c of CStr s \<Rightarrow> Inr (LStr s) | CInt n \<Rightarrow> Inr (LInt n) | CUint n \<Rightarrow> Inr (LInt n) | CDouble b \<Rightarrow> Inr (LFloat b)
           | CBool b \<Rightarrow> Inr (LBool b) | CNull \<Rightarrow> Inr LNull | COther \<Rightarrow> Inl UnsupportedConstant)
      | _ \<Rightarrow> Inl NotALiteral)"

text \<open>
  Go's conversion of a double to an \<open>int64\<close>: the fraction is dropped. What does not fit gives the smallest
  number, as on amd64; Go leaves it to the implementation.
\<close>

definition float_to_int64 :: "64 word \<Rightarrow> 64 word" where
  "float_to_int64 b =
     (let n = uint b; e = n div 2 ^ 52 mod 2 ^ 11; m = n mod 2 ^ 52 + 2 ^ 52;
          x = (if e < 1023 then 0 else if 1075 \<le> e then m * 2 ^ nat (e - 1075) else m div 2 ^ nat (1075 - e));
          v = (if 2 ^ 63 \<le> n then - x else x)
      in if 1086 \<le> e then word_of_int (- (2 ^ 63)) else word_of_int v)"

text \<open>The result \<open>None\<close> is a number that could not be found.\<close>

fun evaluateNumeric :: "64 word \<Rightarrow> expr \<Rightarrow> filter_error + 64 word option" where
  "evaluateNumeric now (ECall t f args) =
     (if f = ''now'' then Inr (Some now)
      else if f = ''_+_'' \<or> f = ''_-_'' \<or> f = ''_*_'' then
        (case args of
           [x, y] \<Rightarrow>
             (case evaluateNumeric now x of
                Inl er \<Rightarrow> Inl er
              | Inr None \<Rightarrow> Inr None
              | Inr (Some left) \<Rightarrow>
                  (case evaluateNumeric now y of
                     Inl er \<Rightarrow> Inl er
                   | Inr None \<Rightarrow> Inr None
                   | Inr (Some right) \<Rightarrow>
                       Inr (Some (if f = ''_+_'' then left + right else if f = ''_-_'' then left - right else left * right))))
         | _ \<Rightarrow> Inl (ArgumentCount ''arithmetic''))
      else Inr None)"
| "evaluateNumeric now e =
     (case getConstValue e of
        Inr (LInt n) \<Rightarrow> Inr (Some n)
      | Inr (LFloat b) \<Rightarrow> Inr (Some (float_to_int64 b))
      | _ \<Rightarrow> Inr None)"

fun evaluateBoolExpr :: "expr \<Rightarrow> filter_error + bool option" where
  "evaluateBoolExpr (ECall t f args) =
     (if f = ''!_'' then
        (case args of
           [x] \<Rightarrow> (case evaluateBoolExpr x of Inl er \<Rightarrow> Inl er | Inr None \<Rightarrow> Inr None | Inr (Some v) \<Rightarrow> Inr (Some (\<not> v)))
         | _ \<Rightarrow> Inl (ArgumentCount ''!_''))
      else Inr None)"
| "evaluateBoolExpr e = (case getConstValue e of Inr (LBool b) \<Rightarrow> Inr (Some b) | _ \<Rightarrow> Inr None)"

definition toComparisonOperator :: "string \<Rightarrow> filter_error + cmp_op" where
  "toComparisonOperator f =
     (if f = ''_==_'' then Inr CompareEq else if f = ''_!=_'' then Inr CompareNeq else if f = ''_<_'' then Inr CompareLt
      else if f = ''_>_'' then Inr CompareGt else if f = ''_<=_'' then Inr CompareLte else if f = ''_>=_'' then Inr CompareGte
      else Inl (UnsupportedOperator f))"

section \<open>Values\<close>

text \<open>A call that is no number, no truth value and no \<open>size\<close> is refused.\<close>

fun buildValueExpr :: "64 word \<Rightarrow> filter_schema \<Rightarrow> expr \<Rightarrow> filter_error + value_expr" where
  "buildValueExpr now sm (EIdent name) = (case schema_Field sm name of None \<Rightarrow> Inl (UnknownIdentifier name) | Some _ \<Rightarrow> Inr (FieldRef name))"
| "buildValueExpr now sm (ECall t f args) =
     (case evaluateNumeric now (ECall t f args) of
        Inl er \<Rightarrow> Inl er
      | Inr (Some n) \<Rightarrow> Inr (LiteralValue (LInt n))
      | Inr None \<Rightarrow>
          (case evaluateBoolExpr (ECall t f args) of
             Inl er \<Rightarrow> Inl er
           | Inr (Some b) \<Rightarrow> Inr (LiteralValue (LBool b))
           | Inr None \<Rightarrow>
               if f = ''size'' then
                 (case args of
                    [x] \<Rightarrow> (case buildValueExpr now sm x of Inl er \<Rightarrow> Inl er | Inr v \<Rightarrow> Inr (FunctionValue ''size'' [v]))
                  | _ \<Rightarrow> Inl (ArgumentCount ''size''))
               else Inl UnsupportedValue))"
| "buildValueExpr now sm e = (case getConstValue e of Inr l \<Rightarrow> Inr (LiteralValue l) | Inl _ \<Rightarrow> Inl UnsupportedValue)"

fun build_values :: "64 word \<Rightarrow> filter_schema \<Rightarrow> expr list \<Rightarrow> filter_error + value_expr list" where
  "build_values now sm [] = Inr []"
| "build_values now sm (e # es) =
     (case buildValueExpr now sm e of
        Inl er \<Rightarrow> Inl er
      | Inr v \<Rightarrow> (case build_values now sm es of Inl er \<Rightarrow> Inl er | Inr vs \<Rightarrow> Inr (v # vs)))"

section \<open>Comparisons and membership\<close>

text \<open>The operators a field admits, when it is on the left.\<close>

definition check_operator :: "filter_schema \<Rightarrow> value_expr \<Rightarrow> cmp_op \<Rightarrow> filter_error option" where
  "check_operator sm left op =
     (case left of
        FieldRef name \<Rightarrow>
          (case schema_Field sm name of
             None \<Rightarrow> Some (UnknownIdentifier name)
           | Some def0 \<Rightarrow>
               (case (if fd_Kind def0 = KVirtualAlias then ResolveAlias sm name else Some def0) of
                  None \<Rightarrow> Some (InvalidAlias name)
                | Some fd \<Rightarrow>
                    (case fd_AllowedComparisonOps fd of
                       None \<Rightarrow> None
                     | Some ops \<Rightarrow> if op \<in> set ops then None else Some (OperatorNotAllowed op name))))
      | _ \<Rightarrow> None)"

definition buildComparisonCondition :: "64 word \<Rightarrow> filter_schema \<Rightarrow> string \<Rightarrow> expr list \<Rightarrow> filter_error + condition" where
  "buildComparisonCondition now sm f args =
     (case args of
        [x, y] \<Rightarrow>
          (case toComparisonOperator f of
             Inl er \<Rightarrow> Inl er
           | Inr op \<Rightarrow>
               (case buildValueExpr now sm x of
                  Inl er \<Rightarrow> Inl er
                | Inr left \<Rightarrow>
                    (case buildValueExpr now sm y of
                       Inl er \<Rightarrow> Inl er
                     | Inr right \<Rightarrow>
                         (case check_operator sm left op of
                            Some er \<Rightarrow> Inl er
                          | None \<Rightarrow> Inr (ComparisonCondition left op right)))))
      | _ \<Rightarrow> Inl (ArgumentCount ''comparison''))"

definition alias_error :: "filter_schema \<Rightarrow> string \<Rightarrow> filter_error option" where
  "alias_error sm name =
     (case schema_Field sm name of
        None \<Rightarrow> Some (UnknownIdentifier name)
      | Some fd \<Rightarrow> if fd_Kind fd = KVirtualAlias \<and> ResolveAlias sm name = None then Some (InvalidAlias name) else None)"

definition build_element_in :: "64 word \<Rightarrow> filter_schema \<Rightarrow> expr \<Rightarrow> expr \<Rightarrow> filter_error + condition" where
  "build_element_in now sm x y =
     (case getIdentName y of
        None \<Rightarrow> Inl InvalidIn
      | Some name \<Rightarrow>
          if schema_Field sm name = None then Inl (UnknownIdentifier name)
          else case buildValueExpr now sm x of Inl er \<Rightarrow> Inl er | Inr element \<Rightarrow> Inr (ElementInCondition element name))"

definition buildInCondition :: "64 word \<Rightarrow> filter_schema \<Rightarrow> expr list \<Rightarrow> filter_error + condition" where
  "buildInCondition now sm args =
     (case args of
        [x, y] \<Rightarrow>
          (case getIdentName x of
             None \<Rightarrow> build_element_in now sm x y
           | Some name \<Rightarrow>
               (case alias_error sm name of
                  Some er \<Rightarrow> Inl er
                | None \<Rightarrow>
                    (case y of
                       EList elements \<Rightarrow>
                         (case build_values now sm elements of Inl er \<Rightarrow> Inl er | Inr vs \<Rightarrow> Inr (InCondition (FieldRef name) vs))
                     | _ \<Rightarrow> build_element_in now sm x y)))
      | _ \<Rightarrow> Inl (ArgumentCount ''in''))"

text \<open>A literal text as the only argument of a call.\<close>

definition text_argument :: "string \<Rightarrow> expr list \<Rightarrow> filter_error + string" where
  "text_argument f args =
     (case args of
        [x] \<Rightarrow> (case getConstValue x of Inl _ \<Rightarrow> Inl NotALiteral | Inr (LStr s) \<Rightarrow> Inr s | Inr _ \<Rightarrow> Inl NotAString)
      | _ \<Rightarrow> Inl (ArgumentCount f))"

definition buildContainsCondition :: "filter_schema \<Rightarrow> expr option \<Rightarrow> expr list \<Rightarrow> filter_error + condition" where
  "buildContainsCondition sm target args =
     (case target of
        None \<Rightarrow> Inl NoContainsTarget
      | Some t \<Rightarrow>
          (case getIdentName t of
             None \<Rightarrow> Inl NotAnIdentifier
           | Some name \<Rightarrow>
               (case schema_Field sm name of
                  None \<Rightarrow> Inl (UnknownIdentifier name)
                | Some fd \<Rightarrow>
                    if \<not> fd_SupportsContains fd then Inl (NoContainsSupport name)
                    else case text_argument ''contains'' args of Inl er \<Rightarrow> Inl er | Inr s \<Rightarrow> Inr (ContainsCondition name s))))"

section \<open>Comprehensions\<close>

definition detectComprehensionKind :: "expr \<Rightarrow> expr \<Rightarrow> filter_error + comprehension_kind" where
  "detectComprehensionKind init step =
     (case init of
        EConst c \<Rightarrow>
          (case step of
             ECall t f args \<Rightarrow> if c \<noteq> CBool True \<and> f = ''_||_'' then Inr ComprehensionExists else Inl BadComprehension
           | _ \<Rightarrow> Inl BadComprehension)
      | _ \<Rightarrow> Inl BadComprehension)"

definition isIterVarExpr :: "expr \<Rightarrow> string \<Rightarrow> bool" where
  "isIterVarExpr e var \<longleftrightarrow> getIdentName e = Some var"

definition buildEqualsPredicate :: "expr list \<Rightarrow> string \<Rightarrow> filter_error + predicate_expr" where
  "buildEqualsPredicate args var =
     (case args of
        [x, y] \<Rightarrow>
          (case (if isIterVarExpr x var then Some y else if isIterVarExpr y var then Some x else None) of
             None \<Rightarrow> Inl BadPredicate
           | Some e \<Rightarrow> (case getConstValue e of Inl _ \<Rightarrow> Inl NotALiteral | Inr (LStr s) \<Rightarrow> Inr (EqualsPredicate s) | Inr _ \<Rightarrow> Inl NotAString))
      | _ \<Rightarrow> Inl (ArgumentCount ''==''))"

text \<open>\<open>startsWith\<close>, \<open>endsWith\<close> and \<open>contains\<close> on the iteration variable.\<close>

definition build_text_predicate ::
  "(string \<Rightarrow> predicate_expr) \<Rightarrow> string \<Rightarrow> expr option \<Rightarrow> expr list \<Rightarrow> string \<Rightarrow> filter_error + predicate_expr" where
  "build_text_predicate mk f target args var =
     (case target of
        Some t \<Rightarrow>
          if isIterVarExpr t var then (case text_argument f args of Inl er \<Rightarrow> Inl er | Inr s \<Rightarrow> Inr (mk s)) else Inl BadPredicate
      | None \<Rightarrow> Inl BadPredicate)"

definition extractPredicate :: "expr \<Rightarrow> string \<Rightarrow> filter_error + predicate_expr" where
  "extractPredicate step var =
     (case step of
        ECall t f [acc, ECall target g args] \<Rightarrow>
          if g = ''_==_'' then buildEqualsPredicate args var
          else if g = ''startsWith'' then build_text_predicate StartsWithPredicate g target args var
          else if g = ''endsWith'' then build_text_predicate EndsWithPredicate g target args var
          else if g = ''contains'' then build_text_predicate ContainsPredicate g target args var
          else Inl (UnsupportedPredicate g)
      | _ \<Rightarrow> Inl BadComprehension)"

definition buildComprehensionCondition :: "filter_schema \<Rightarrow> expr \<Rightarrow> string \<Rightarrow> expr \<Rightarrow> expr \<Rightarrow> filter_error + condition" where
  "buildComprehensionCondition sm rng var init step =
     (case detectComprehensionKind init step of
        Inl er \<Rightarrow> Inl er
      | Inr kind \<Rightarrow>
          (case getIdentName rng of
             None \<Rightarrow> Inl BadComprehension
           | Some name \<Rightarrow>
               (case schema_Field sm name of
                  None \<Rightarrow> Inl (UnknownIdentifier name)
                | Some fd \<Rightarrow>
                    if fd_Kind fd \<noteq> KJSONList then Inl (NoListField name)
                    else case extractPredicate step var of
                      Inl er \<Rightarrow> Inl er
                    | Inr p \<Rightarrow> Inr (ListComprehensionCondition kind name var p))))"

section \<open>Conditions\<close>

fun buildCondition :: "64 word \<Rightarrow> filter_schema \<Rightarrow> expr \<Rightarrow> filter_error + condition" where
  "buildCondition now sm (ECall target f args) =
     (if f = ''_&&_'' \<or> f = ''_||_'' then
        (case args of
           [x, y] \<Rightarrow>
             (case buildCondition now sm x of
                Inl er \<Rightarrow> Inl er
              | Inr left \<Rightarrow>
                  (case buildCondition now sm y of
                     Inl er \<Rightarrow> Inl er
                   | Inr right \<Rightarrow> Inr (LogicalCondition (if f = ''_&&_'' then LogicalAnd else LogicalOr) left right)))
         | _ \<Rightarrow> Inl (ArgumentCount f))
      else if f = ''!_'' then
        (case args of
           [x] \<Rightarrow> (case buildCondition now sm x of Inl er \<Rightarrow> Inl er | Inr c \<Rightarrow> Inr (NotCondition c))
         | _ \<Rightarrow> Inl (ArgumentCount f))
      else if f \<in> {''_==_'', ''_!=_'', ''_<_'', ''_>_'', ''_<=_'', ''_>=_''} then buildComparisonCondition now sm f args
      else if f = ''@in'' then buildInCondition now sm args
      else if f = ''contains'' then buildContainsCondition sm target args
      else case evaluateBoolExpr (ECall None f args) of
             Inl er \<Rightarrow> Inl er
           | Inr (Some v) \<Rightarrow> Inr (ConstantCondition v)
           | Inr None \<Rightarrow> Inl (UnsupportedCall f))"
| "buildCondition now sm (EConst c) =
     (case getConstValue (EConst c) of Inl er \<Rightarrow> Inl er | Inr (LBool b) \<Rightarrow> Inr (ConstantCondition b) | Inr _ \<Rightarrow> Inl NotBoolean)"
| "buildCondition now sm (EIdent name) =
     (case schema_Field sm name of
        None \<Rightarrow> Inl (UnknownIdentifier name)
      | Some fd \<Rightarrow> if fd_Type fd \<noteq> TBool then Inl (NotBooleanIdentifier name) else Inr (FieldPredicateCondition name))"
| "buildCondition now sm (EComprehension rng var init step) = buildComprehensionCondition sm rng var init step"
| "buildCondition now sm (EList es) = Inl UnsupportedExpression"
| "buildCondition now sm EOther = Inl UnsupportedExpression"

end
