(* ===== verification/FilterRender.thy ===== *)
theory FilterRender
  imports FilterParser
begin

text \<open>
  From a condition to SQL with arguments, \<open>memos/lib/filter/render.go\<close>, and the calls the stores make,
  \<open>engine.go\<close> and \<open>helpers.go\<close>. The renderer is threaded through every function that adds an argument; the
  parser of expressions is a parameter.
\<close>

section \<open>The renderer\<close>

datatype sql_arg = AStr string | AInt "64 word" | ABool bool

record renderer =
  rd_schema :: filter_schema
  rd_dialect :: dialect
  rd_placeholderOffset :: nat
  rd_placeholderCounter :: nat
  rd_args :: "sql_arg list"

record render_result =
  rr_sql :: string
  rr_trivial :: bool
  rr_unsatisfiable :: bool

definition plain_result :: "string \<Rightarrow> render_result" where
  "plain_result s = \<lparr>rr_sql = s, rr_trivial = False, rr_unsatisfiable = False\<rparr>"

definition trivial_result :: render_result where
  "trivial_result = \<lparr>rr_sql = [], rr_trivial = True, rr_unsatisfiable = False\<rparr>"

definition unsatisfiable_result :: render_result where
  "unsatisfiable_result = \<lparr>rr_sql = ''1 = 0'', rr_trivial = False, rr_unsatisfiable = True\<rparr>"

record render_options =
  ro_Dialect :: dialect
  ro_PlaceholderOffset :: nat

record statement =
  st_SQL :: string
  st_Args :: "sql_arg list"

definition newRenderer :: "filter_schema \<Rightarrow> render_options \<Rightarrow> renderer" where
  "newRenderer sm opts = \<lparr>rd_schema = sm, rd_dialect = ro_Dialect opts, rd_placeholderOffset = ro_PlaceholderOffset opts,
     rd_placeholderCounter = 0, rd_args = []\<rparr>"

type_synonym rendered = "filter_error + render_result \<times> renderer"

definition addArg :: "sql_arg \<Rightarrow> renderer \<Rightarrow> string \<times> renderer" where
  "addArg v r =
     (let r = r\<lparr>rd_placeholderCounter := rd_placeholderCounter r + 1, rd_args := rd_args r @ [v]\<rparr>
      in (if rd_dialect r = Postgres then CHR ''$'' # dec (rd_placeholderOffset r + rd_placeholderCounter r) else ''?'', r))"

definition addBoolArg :: "bool \<Rightarrow> renderer \<Rightarrow> string \<times> renderer" where
  "addBoolArg b r = addArg (if rd_dialect r = SQLite then AInt (if b then 1 else 0) else ABool b) r"

section \<open>Literals\<close>

definition expectLiteral :: "value_expr \<Rightarrow> filter_error + literal" where
  "expectLiteral e = (case e of LiteralValue l \<Rightarrow> Inr l | _ \<Rightarrow> Inl NeedsLiteral)"

definition expectBool :: "value_expr \<Rightarrow> filter_error + bool" where
  "expectBool e = (case expectLiteral e of Inl er \<Rightarrow> Inl er | Inr (LBool b) \<Rightarrow> Inr b | Inr _ \<Rightarrow> Inl NeedsBool)"

definition toInt64 :: "literal \<Rightarrow> filter_error + 64 word" where
  "toInt64 l = (case l of LInt n \<Rightarrow> Inr n | LFloat b \<Rightarrow> Inr (float_to_int64 b) | _ \<Rightarrow> Inl NeedsNumber)"

definition expectNumericLiteral :: "value_expr \<Rightarrow> filter_error + 64 word" where
  "expectNumericLiteral e = (case expectLiteral e of Inl er \<Rightarrow> Inl er | Inr l \<Rightarrow> toInt64 l)"

section \<open>Texts of SQL\<close>

definition sqlOperator :: "cmp_op \<Rightarrow> string" where
  "sqlOperator op =
     (case op of CompareEq \<Rightarrow> ''='' | CompareNeq \<Rightarrow> ''!='' | CompareLt \<Rightarrow> ''<'' | CompareLte \<Rightarrow> ''<=''
      | CompareGt \<Rightarrow> ''>'' | CompareGte \<Rightarrow> ''>='')"

fun sql_join :: "string \<Rightarrow> string list \<Rightarrow> string" where
  "sql_join sep [] = []"
| "sql_join sep [x] = x"
| "sql_join sep (x # y # xs) = x @ sep @ sql_join sep (y # xs)"

definition apostrophe :: string where
  "apostrophe = [CHR 0x27]"

definition quote :: string where
  "quote = [CHR 0x22]"

definition jsonPath :: "schema_field \<Rightarrow> string" where
  "jsonPath f = ''$.'' @ sql_join ''.'' (fd_JSONPath f)"

fun buildPostgresJSONAccessor :: "string \<Rightarrow> string list \<Rightarrow> bool \<Rightarrow> string" where
  "buildPostgresJSONAccessor base [] terminalText = base"
| "buildPostgresJSONAccessor base (part # path) terminalText =
     buildPostgresJSONAccessor
       (base @ (if path = [] \<and> terminalText then ''->>'' else ''->'') @ apostrophe @ part @ apostrophe) path terminalText"

definition json_extract :: "dialect \<Rightarrow> schema_field \<Rightarrow> bool \<Rightarrow> string" where
  "json_extract d f terminalText =
     (let col = qualifyColumn d (fd_Column f)
      in if d = SQLite \<or> d = MySQL then ''JSON_EXTRACT('' @ col @ '', '' @ apostrophe @ jsonPath f @ apostrophe @ '')''
         else if d = Postgres then buildPostgresJSONAccessor col (fd_JSONPath f) terminalText
         else [])"

definition jsonExtractExpr :: "dialect \<Rightarrow> schema_field \<Rightarrow> string" where
  "jsonExtractExpr d f = json_extract d f True"

definition jsonArrayExpr :: "dialect \<Rightarrow> schema_field \<Rightarrow> string" where
  "jsonArrayExpr d f = json_extract d f False"

definition jsonArrayLengthExpr :: "dialect \<Rightarrow> schema_field \<Rightarrow> string" where
  "jsonArrayLengthExpr d f =
     (let a = jsonArrayExpr d f
      in case d of
           SQLite \<Rightarrow> ''JSON_ARRAY_LENGTH(COALESCE('' @ a @ '', JSON_ARRAY()))''
         | MySQL \<Rightarrow> ''JSON_LENGTH(COALESCE('' @ a @ '', JSON_ARRAY()))''
         | Postgres \<Rightarrow> ''jsonb_array_length(COALESCE('' @ a @ '', '' @ apostrophe @ ''[]'' @ apostrophe @ ''::jsonb))''
         | _ \<Rightarrow> [])"

definition jsonBoolPredicate :: "dialect \<Rightarrow> schema_field \<Rightarrow> filter_error + string" where
  "jsonBoolPredicate d f =
     (let e = jsonExtractExpr d f;
          cast = (\<lambda>b. ''CAST('' @ apostrophe @ b @ apostrophe @ '' AS JSON)'')
      in case d of
           SQLite \<Rightarrow> Inr (e @ '' IS TRUE'')
         | MySQL \<Rightarrow> Inr (''COALESCE('' @ e @ '', '' @ cast ''false'' @ '') = '' @ cast ''true'')
         | Postgres \<Rightarrow> Inr (''('' @ e @ '')::boolean IS TRUE'')
         | _ \<Rightarrow> Inl (UnsupportedDialect d))"

definition wrapWithNullCheck :: "dialect \<Rightarrow> string \<Rightarrow> string \<Rightarrow> string" where
  "wrapWithNullCheck d a cond =
     (let wrap = (\<lambda>check. ''('' @ cond @ '' AND '' @ a @ '' IS NOT NULL AND '' @ check @ '')'')
      in case d of
           SQLite \<Rightarrow> wrap (a @ '' != '' @ apostrophe @ ''[]'' @ apostrophe)
         | MySQL \<Rightarrow> wrap (''JSON_LENGTH('' @ a @ '') > 0'')
         | Postgres \<Rightarrow> wrap (''jsonb_array_length('' @ a @ '') > 0'')
         | _ \<Rightarrow> cond)"

section \<open>Combining results\<close>

definition combineAnd :: "render_result \<Rightarrow> render_result \<Rightarrow> render_result" where
  "combineAnd left right =
     (if rr_unsatisfiable left \<or> rr_unsatisfiable right then unsatisfiable_result
      else if rr_trivial left then right
      else if rr_trivial right then left
      else plain_result (''('' @ rr_sql left @ '' AND '' @ rr_sql right @ '')''))"

definition combineOr :: "render_result \<Rightarrow> render_result \<Rightarrow> render_result" where
  "combineOr left right =
     (if rr_trivial left \<or> rr_trivial right then trivial_result
      else if rr_unsatisfiable left then right
      else if rr_unsatisfiable right then left
      else plain_result (''('' @ rr_sql left @ '' OR '' @ rr_sql right @ '')''))"

definition negate_result :: "render_result \<Rightarrow> render_result" where
  "negate_result child =
     (if rr_trivial child then unsatisfiable_result
      else if rr_unsatisfiable child then trivial_result
      else plain_result (''NOT ('' @ rr_sql child @ '')''))"

section \<open>Comparisons\<close>

text \<open>A text, an argument's placeholder and a text behind it.\<close>

definition with_arg :: "string \<Rightarrow> sql_arg \<Rightarrow> string \<Rightarrow> renderer \<Rightarrow> rendered" where
  "with_arg before v after r = (let (p, r') = addArg v r in Inr (plain_result (before @ p @ after), r'))"

definition no_arg :: "string \<Rightarrow> renderer \<Rightarrow> rendered" where
  "no_arg s r = Inr (plain_result s, r)"

definition renderFieldPredicate :: "string \<Rightarrow> renderer \<Rightarrow> rendered" where
  "renderFieldPredicate name r =
     (case schema_Field (rd_schema r) name of
        None \<Rightarrow> Inl (UnknownField name)
      | Some f \<Rightarrow>
          if fd_Kind f = KBoolColumn then no_arg (qualifyColumn (rd_dialect r) (fd_Column f) @ '' IS TRUE'') r
          else if fd_Kind f = KJSONBool then
            (case jsonBoolPredicate (rd_dialect r) f of Inl er \<Rightarrow> Inl er | Inr s \<Rightarrow> no_arg s r)
          else Inl (NotAPredicate name))"

definition renderFunctionComparison :: "string \<Rightarrow> value_expr list \<Rightarrow> cmp_op \<Rightarrow> value_expr \<Rightarrow> renderer \<Rightarrow> rendered" where
  "renderFunctionComparison fn args op right r =
     (if fn \<noteq> ''size'' then Inl (UnsupportedFunction fn)
      else case args of
        [arg] \<Rightarrow>
          (case arg of
             FieldRef name \<Rightarrow>
               (case schema_Field (rd_schema r) name of
                  None \<Rightarrow> Inl (UnknownField name)
                | Some f \<Rightarrow>
                    if fd_Kind f \<noteq> KJSONList then Inl (NoListField (fd_Name f))
                    else case expectNumericLiteral right of
                      Inl er \<Rightarrow> Inl er
                    | Inr n \<Rightarrow> with_arg (jsonArrayLengthExpr (rd_dialect r) f @ '' '' @ sqlOperator op @ '' '') (AInt n) [] r)
           | _ \<Rightarrow> Inl NotAnIdentifier)
      | _ \<Rightarrow> Inl (ArgumentCount ''size''))"

definition renderScalarComparison :: "schema_field \<Rightarrow> cmp_op \<Rightarrow> value_expr \<Rightarrow> renderer \<Rightarrow> rendered" where
  "renderScalarComparison f op right r =
     (case expectLiteral right of
        Inl er \<Rightarrow> Inl er
      | Inr lit \<Rightarrow>
          (let col = columnExpr f (rd_dialect r); before = col @ '' '' @ sqlOperator op @ '' ''
           in if lit = LNull then
                (case op of
                   CompareEq \<Rightarrow> no_arg (col @ '' IS NULL'') r
                 | CompareNeq \<Rightarrow> no_arg (col @ '' IS NOT NULL'') r
                 | _ \<Rightarrow> Inl (NullComparison op))
              else case fd_Type f of
                TString \<Rightarrow> (case lit of LStr s \<Rightarrow> with_arg before (AStr s) [] r | _ \<Rightarrow> Inl (NeedsString (fd_Name f)))
              | TBool \<Rightarrow> Inl (UnsupportedType (fd_Name f))
              | _ \<Rightarrow> (case toInt64 lit of Inl er \<Rightarrow> Inl er | Inr n \<Rightarrow> with_arg before (AInt n) [] r)))"

definition renderBoolColumnComparison :: "schema_field \<Rightarrow> cmp_op \<Rightarrow> value_expr \<Rightarrow> renderer \<Rightarrow> rendered" where
  "renderBoolColumnComparison f op right r =
     (case expectBool right of
        Inl er \<Rightarrow> Inl er
      | Inr b \<Rightarrow>
          (let (p, r') = addBoolArg b r
           in Inr (plain_result (qualifyColumn (rd_dialect r) (fd_Column f) @ '' '' @ sqlOperator op @ '' '' @ p), r')))"

text \<open>On SQLite \<open>has_task_list\<close> is compared with 0 or 1, the other flags by \<open>IS TRUE\<close>.\<close>

definition sqlite_flag :: "schema_field \<Rightarrow> string \<Rightarrow> bool \<Rightarrow> bool \<Rightarrow> string" where
  "sqlite_flag f e equal value =
     (if fd_Name f = ''has_task_list'' then e @ (if equal then '' = '' else '' != '') @ (if value then ''1'' else ''0'')
      else if equal = value then e @ '' IS TRUE''
      else ''NOT('' @ e @ '' IS TRUE)'')"

definition renderJSONBoolComparison :: "schema_field \<Rightarrow> cmp_op \<Rightarrow> value_expr \<Rightarrow> renderer \<Rightarrow> rendered" where
  "renderJSONBoolComparison f op right r =
     (case expectBool right of
        Inl er \<Rightarrow> Inl er
      | Inr b \<Rightarrow>
          (let e = jsonExtractExpr (rd_dialect r) f
           in case rd_dialect r of
                SQLite \<Rightarrow>
                  (case op of
                     CompareEq \<Rightarrow> no_arg (sqlite_flag f e True b) r
                   | CompareNeq \<Rightarrow> no_arg (sqlite_flag f e False b) r
                   | _ \<Rightarrow> Inl (UnsupportedBoolOperator op))
              | MySQL \<Rightarrow>
                  no_arg (e @ '' '' @ sqlOperator op @ '' CAST('' @ apostrophe @ (if b then ''true'' else ''false'') @ apostrophe
                    @ '' AS JSON)'') r
              | Postgres \<Rightarrow> with_arg (''('' @ e @ '')::boolean '' @ sqlOperator op @ '' '') (ABool b) [] r
              | _ \<Rightarrow> Inl (UnsupportedDialect (rd_dialect r))))"

definition renderComparison :: "value_expr \<Rightarrow> cmp_op \<Rightarrow> value_expr \<Rightarrow> renderer \<Rightarrow> rendered" where
  "renderComparison left op right r =
     (case left of
        FieldRef name \<Rightarrow>
          (case schema_Field (rd_schema r) name of
             None \<Rightarrow> Inl (UnknownField name)
           | Some f \<Rightarrow>
               (case fd_Kind f of
                  KBoolColumn \<Rightarrow> renderBoolColumnComparison f op right r
                | KJSONBool \<Rightarrow> renderJSONBoolComparison f op right r
                | KScalar \<Rightarrow> renderScalarComparison f op right r
                | _ \<Rightarrow> Inl (NoComparison (fd_Name f))))
      | FunctionValue fn args \<Rightarrow> renderFunctionComparison fn args op right r
      | LiteralValue l \<Rightarrow> Inl BadComparison)"

section \<open>Lists and tags\<close>

text \<open>The exact match of a tag by dialect, its text before the placeholder, the pattern and the text behind.\<close>

definition exact_before :: "dialect \<Rightarrow> string \<Rightarrow> string" where
  "exact_before d a = (if d = SQLite then a @ '' LIKE '' else if d = MySQL then ''JSON_CONTAINS('' @ a @ '', '' else a @ '' @> jsonb_build_array('')"

definition exact_pattern :: "dialect \<Rightarrow> string \<Rightarrow> string" where
  "exact_pattern d s = (if d = SQLite then ''%'' @ quote @ s @ quote @ ''%'' else quote @ s @ quote)"

definition exact_after :: "dialect \<Rightarrow> string" where
  "exact_after d = (if d = SQLite then [] else if d = MySQL then '')'' else ''::json)'')"

definition like_before :: "dialect \<Rightarrow> string \<Rightarrow> string" where
  "like_before d a = (if d = Postgres then ''('' @ a @ '')::text LIKE '' else a @ '' LIKE '')"

text \<open>Two placeholders, one after the other, as a disjunction.\<close>

definition two_args :: "string \<Rightarrow> sql_arg \<Rightarrow> string \<Rightarrow> string \<Rightarrow> sql_arg \<Rightarrow> renderer \<Rightarrow> string \<times> renderer" where
  "two_args b1 v1 a1 b2 v2 r =
     (let (p, r1) = addArg v1 r; (q, r2) = addArg v2 r1
      in (''('' @ (b1 @ p @ a1) @ '' OR '' @ (b2 @ q) @ '')'', r2))"

fun tag_conditions :: "schema_field \<Rightarrow> value_expr list \<Rightarrow> renderer \<Rightarrow> filter_error + string list \<times> renderer" where
  "tag_conditions f [] r = Inr ([], r)"
| "tag_conditions f (v # vs) r =
     (case expectLiteral v of
        Inl er \<Rightarrow> Inl er
      | Inr (LStr s) \<Rightarrow>
          (let d = rd_dialect r; a = jsonArrayExpr d f
           in if d \<noteq> SQLite \<and> d \<noteq> MySQL \<and> d \<noteq> Postgres then Inl (UnsupportedDialect d)
              else (let (c, r1) = two_args (exact_before d a) (AStr (exact_pattern d s)) (exact_after d)
                                    (like_before d a) (AStr (''%'' @ quote @ s @ ''/%'')) r
                    in case tag_conditions f vs r1 of Inl er \<Rightarrow> Inl er | Inr (cs, r2) \<Rightarrow> Inr (c # cs, r2)))
      | Inr _ \<Rightarrow> Inl (NeedsString ''tag''))"

definition renderTagInList :: "value_expr list \<Rightarrow> renderer \<Rightarrow> rendered" where
  "renderTagInList values r =
     (case ResolveAlias (rd_schema r) ''tag'' of
        None \<Rightarrow> Inl NoTagField
      | Some f \<Rightarrow>
          (case tag_conditions f values r of
             Inl er \<Rightarrow> Inl er
           | Inr (conditions, r') \<Rightarrow>
               Inr (plain_result (case conditions of [c] \<Rightarrow> c | _ \<Rightarrow> ''('' @ sql_join '' OR '' conditions @ '')''), r')))"

fun in_placeholders :: "schema_field \<Rightarrow> value_expr list \<Rightarrow> renderer \<Rightarrow> filter_error + string list \<times> renderer" where
  "in_placeholders f [] r = Inr ([], r)"
| "in_placeholders f (v # vs) r =
     (case expectLiteral v of
        Inl er \<Rightarrow> Inl er
      | Inr lit \<Rightarrow>
          (case (case fd_Type f of
                   TString \<Rightarrow> (case lit of LStr s \<Rightarrow> Inr (AStr s) | _ \<Rightarrow> Inl (NeedsString (fd_Name f)))
                 | TInt \<Rightarrow> (case toInt64 lit of Inl er \<Rightarrow> Inl er | Inr n \<Rightarrow> Inr (AInt n))
                 | _ \<Rightarrow> Inl (NoIn (fd_Name f))) of
             Inl er \<Rightarrow> Inl er
           | Inr arg \<Rightarrow>
               (let (p, r1) = addArg arg r
                in case in_placeholders f vs r1 of Inl er \<Rightarrow> Inl er | Inr (ps, r2) \<Rightarrow> Inr (p # ps, r2))))"

definition renderScalarInCondition :: "schema_field \<Rightarrow> value_expr list \<Rightarrow> renderer \<Rightarrow> rendered" where
  "renderScalarInCondition f values r =
     (case in_placeholders f values r of
        Inl er \<Rightarrow> Inl er
      | Inr (ps, r') \<Rightarrow> Inr (plain_result (columnExpr f (rd_dialect r) @ '' IN ('' @ sql_join '','' ps @ '')''), r'))"

definition renderInCondition :: "value_expr \<Rightarrow> value_expr list \<Rightarrow> renderer \<Rightarrow> rendered" where
  "renderInCondition left values r =
     (case left of
        FieldRef name \<Rightarrow>
          if name = ''tag'' then renderTagInList values r
          else (case schema_Field (rd_schema r) name of
                  None \<Rightarrow> Inl (UnknownField name)
                | Some f \<Rightarrow> if fd_Kind f \<noteq> KScalar then Inl (NoIn name) else renderScalarInCondition f values r)
      | _ \<Rightarrow> Inl InvalidIn)"

definition renderElementInCondition :: "value_expr \<Rightarrow> string \<Rightarrow> renderer \<Rightarrow> rendered" where
  "renderElementInCondition element name r =
     (case schema_Field (rd_schema r) name of
        None \<Rightarrow> Inl (UnknownField name)
      | Some f \<Rightarrow>
          if fd_Kind f \<noteq> KJSONList then Inl (NoListField name)
          else case expectLiteral element of
            Inl er \<Rightarrow> Inl er
          | Inr (LStr s) \<Rightarrow>
              (let d = rd_dialect r; a = jsonArrayExpr d f
               in if d \<noteq> SQLite \<and> d \<noteq> MySQL \<and> d \<noteq> Postgres then Inl (UnsupportedDialect d)
                  else with_arg (exact_before d a) (AStr (exact_pattern d s)) (exact_after d) r)
          | Inr _ \<Rightarrow> Inl (NeedsString name))"

definition renderContainsCondition :: "string \<Rightarrow> string \<Rightarrow> renderer \<Rightarrow> rendered" where
  "renderContainsCondition name value r =
     (case schema_Field (rd_schema r) name of
        None \<Rightarrow> Inl (UnknownField name)
      | Some f \<Rightarrow>
          (let col = columnExpr f (rd_dialect r); arg = AStr (''%'' @ value @ ''%'')
           in if rd_dialect r = SQLite then with_arg (''memos_unicode_lower('' @ col @ '') LIKE memos_unicode_lower('') arg '')'' r
              else if rd_dialect r = Postgres then with_arg (col @ '' ILIKE '') arg [] r
              else with_arg (col @ '' LIKE '') arg [] r))"

text \<open>On an unknown dialect no text is built and no argument added.\<close>

definition buildJSONArrayLike :: "string \<Rightarrow> string \<Rightarrow> renderer \<Rightarrow> string \<times> renderer" where
  "buildJSONArrayLike a pattern r =
     (let d = rd_dialect r
      in if d = SQLite \<or> d = MySQL \<or> d = Postgres then (let (p, r') = addArg (AStr pattern) r in (like_before d a @ p, r'))
         else ([], r))"

definition renderTagEquals :: "schema_field \<Rightarrow> string \<Rightarrow> renderer \<Rightarrow> rendered" where
  "renderTagEquals f value r =
     (let d = rd_dialect r; a = jsonArrayExpr d f
      in if d = SQLite \<or> d = MySQL then
           (let (s, r') = buildJSONArrayLike a (''%'' @ quote @ value @ quote @ ''%'') r in no_arg (wrapWithNullCheck d a s) r')
         else if d = Postgres then
           (let (p, r') = addArg (AStr (quote @ value @ quote)) r
            in no_arg (wrapWithNullCheck d a (a @ '' @> jsonb_build_array('' @ p @ ''::json)'')) r')
         else Inl (UnsupportedDialect d))"

definition renderTagStartsWith :: "schema_field \<Rightarrow> string \<Rightarrow> renderer \<Rightarrow> rendered" where
  "renderTagStartsWith f pre r =
     (let d = rd_dialect r; a = jsonArrayExpr d f
      in if d = SQLite \<or> d = MySQL then
           (let (s1, r1) = buildJSONArrayLike a (''%'' @ quote @ pre @ quote @ ''%'') r;
                (s2, r2) = buildJSONArrayLike a (''%'' @ quote @ pre @ ''%'') r1
            in no_arg (wrapWithNullCheck d a (''('' @ s1 @ '' OR '' @ s2 @ '')'')) r2)
         else if d = Postgres then
           (let (p, r1) = addArg (AStr (quote @ pre @ quote)) r;
                (q, r2) = addArg (AStr (''%'' @ quote @ pre @ ''%'')) r1
            in no_arg (wrapWithNullCheck d a
                 (''('' @ (a @ '' @> jsonb_build_array('' @ p @ ''::json)'') @ '' OR '' @ (''('' @ a @ '')::text LIKE '' @ q) @ '')'')) r2)
         else Inl (UnsupportedDialect d))"

definition renderTagLike :: "schema_field \<Rightarrow> string \<Rightarrow> renderer \<Rightarrow> rendered" where
  "renderTagLike f pattern r =
     (let d = rd_dialect r; a = jsonArrayExpr d f; (s, r') = buildJSONArrayLike a pattern r
      in no_arg (wrapWithNullCheck d a s) r')"

definition renderTagEndsWith :: "schema_field \<Rightarrow> string \<Rightarrow> renderer \<Rightarrow> rendered" where
  "renderTagEndsWith f suf r = renderTagLike f (''%'' @ suf @ quote @ ''%'') r"

definition renderTagContains :: "schema_field \<Rightarrow> string \<Rightarrow> renderer \<Rightarrow> rendered" where
  "renderTagContains f substring r = renderTagLike f (''%'' @ substring @ ''%'') r"

definition renderListComprehension :: "string \<Rightarrow> predicate_expr \<Rightarrow> renderer \<Rightarrow> rendered" where
  "renderListComprehension name p r =
     (case schema_Field (rd_schema r) name of
        None \<Rightarrow> Inl (UnknownField name)
      | Some f \<Rightarrow>
          if fd_Kind f \<noteq> KJSONList then Inl (NoListField name)
          else case p of
            EqualsPredicate s \<Rightarrow> renderTagEquals f s r
          | StartsWithPredicate s \<Rightarrow> renderTagStartsWith f s r
          | EndsWithPredicate s \<Rightarrow> renderTagEndsWith f s r
          | ContainsPredicate s \<Rightarrow> renderTagContains f s r)"

section \<open>Conditions\<close>

fun renderCondition :: "condition \<Rightarrow> renderer \<Rightarrow> rendered" where
  "renderCondition (LogicalCondition op left right) r =
     (case renderCondition left r of
        Inl er \<Rightarrow> Inl er
      | Inr (x, r1) \<Rightarrow>
          (case renderCondition right r1 of
             Inl er \<Rightarrow> Inl er
           | Inr (y, r2) \<Rightarrow> Inr (case op of LogicalAnd \<Rightarrow> combineAnd x y | LogicalOr \<Rightarrow> combineOr x y, r2)))"
| "renderCondition (NotCondition c) r =
     (case renderCondition c r of Inl er \<Rightarrow> Inl er | Inr (x, r1) \<Rightarrow> Inr (negate_result x, r1))"
| "renderCondition (FieldPredicateCondition name) r = renderFieldPredicate name r"
| "renderCondition (ComparisonCondition left op right) r = renderComparison left op right r"
| "renderCondition (InCondition left values) r = renderInCondition left values r"
| "renderCondition (ElementInCondition element name) r = renderElementInCondition element name r"
| "renderCondition (ContainsCondition name value) r = renderContainsCondition name value r"
| "renderCondition (ConstantCondition b) r = Inr (if b then trivial_result else unsatisfiable_result, r)"
| "renderCondition (ListComprehensionCondition kind name var p) r = renderListComprehension name p r"

definition renderer_Render :: "condition \<Rightarrow> renderer \<Rightarrow> filter_error + statement" where
  "renderer_Render c r =
     (case renderCondition c r of
        Inl er \<Rightarrow> Inl er
      | Inr (x, r') \<Rightarrow>
          Inr \<lparr>st_SQL = (if rr_unsatisfiable x then ''1 = 0'' else if rr_trivial x then [] else rr_sql x), st_Args = rd_args r'\<rparr>)"

section \<open>The engine\<close>

record program =
  pg_schema :: filter_schema
  pg_condition :: condition

definition program_Render :: "program \<Rightarrow> render_options \<Rightarrow> filter_error + statement" where
  "program_Render p opts = renderer_Render (pg_condition p) (newRenderer (pg_schema p) opts)"

text \<open>The parser of expressions, \<open>None\<close> when it refuses the text.\<close>

type_synonym cel_parser = "filter_schema \<Rightarrow> string \<Rightarrow> expr option"

definition Compile :: "cel_parser \<Rightarrow> 64 word \<Rightarrow> filter_schema \<Rightarrow> string \<Rightarrow> filter_error + program" where
  "Compile cel now sm source =
     (if trim_space source = [] then Inl EmptyFilter
      else case cel sm source of
        None \<Rightarrow> Inl CelError
      | Some e \<Rightarrow> (case buildCondition now sm e of Inl er \<Rightarrow> Inl er | Inr c \<Rightarrow> Inr \<lparr>pg_schema = sm, pg_condition = c\<rparr>))"

definition CompileToStatement ::
  "cel_parser \<Rightarrow> 64 word \<Rightarrow> filter_schema \<Rightarrow> string \<Rightarrow> render_options \<Rightarrow> filter_error + statement" where
  "CompileToStatement cel now sm source opts =
     (case Compile cel now sm source of Inl er \<Rightarrow> Inl er | Inr p \<Rightarrow> program_Render p opts)"

text \<open>The SQL fragments and arguments of a query, with the filters' appended.\<close>

fun AppendConditions ::
  "cel_parser \<Rightarrow> 64 word \<Rightarrow> filter_schema \<Rightarrow> dialect \<Rightarrow> string list \<Rightarrow> string list \<times> sql_arg list \<Rightarrow>
   filter_error + string list \<times> sql_arg list" where
  "AppendConditions cel now sm d [] wa = Inr wa"
| "AppendConditions cel now sm d (f # fs) (wh, args) =
     (case CompileToStatement cel now sm f \<lparr>ro_Dialect = d, ro_PlaceholderOffset = length args\<rparr> of
        Inl er \<Rightarrow> Inl er
      | Inr st \<Rightarrow>
          if st_SQL st = [] then AppendConditions cel now sm d fs (wh, args)
          else AppendConditions cel now sm d fs (wh @ [''('' @ st_SQL st @ '')''], args @ st_Args st))"

end
