(* ===== verification/FilterFacts.thy ===== *)
theory FilterFacts
  imports FilterRender
begin

text \<open>
  What the SQL of a filter owes to the filter: no text or number a user writes becomes part of the SQL, the
  placeholders stand in the order of the arguments, also over several filters of one query, and the exception,
  an operand that constants make superfluous.
\<close>

section \<open>Texts, placeholders and arguments\<close>

definition placeholder :: "renderer \<Rightarrow> string" where
  "placeholder r =
     (if rd_dialect r = Postgres then CHR ''$'' # dec (rd_placeholderOffset r + (rd_placeholderCounter r + 1)) else ''?'')"

definition bump :: "renderer \<Rightarrow> renderer" where
  "bump r = r\<lparr>rd_placeholderCounter := rd_placeholderCounter r + 1\<rparr>"

lemma bump_simps [simp]:
  "rd_dialect (bump r) = rd_dialect r" "rd_schema (bump r) = rd_schema r" "rd_placeholderOffset (bump r) = rd_placeholderOffset r"
  "rd_placeholderCounter (bump r) = rd_placeholderCounter r + 1" "rd_args (bump r) = rd_args r"
  by (simp_all add: bump_def)

lemma addArg_eq: "addArg v r = (placeholder r, (bump r)\<lparr>rd_args := rd_args r @ [v]\<rparr>)"
  by (simp add: addArg_def placeholder_def bump_def Let_def)

lemma placeholder_args [simp]: "placeholder (r\<lparr>rd_args := vs\<rparr>) = placeholder r"
  by (simp add: placeholder_def)

lemma bump_args [simp]: "bump (r\<lparr>rd_args := vs\<rparr>) = (bump r)\<lparr>rd_args := vs\<rparr>"
  by (simp add: bump_def)

section \<open>Literals do not reach the SQL\<close>

fun erase_literal :: "literal \<Rightarrow> literal" where
  "erase_literal (LStr s) = LStr []"
| "erase_literal (LInt n) = LInt 0"
| "erase_literal (LFloat b) = LFloat 0"
| "erase_literal l = l"

fun erase_value :: "value_expr \<Rightarrow> value_expr" where
  "erase_value (LiteralValue l) = LiteralValue (erase_literal l)"
| "erase_value v = v"

fun erase_predicate :: "predicate_expr \<Rightarrow> predicate_expr" where
  "erase_predicate (StartsWithPredicate s) = StartsWithPredicate []"
| "erase_predicate (EndsWithPredicate s) = EndsWithPredicate []"
| "erase_predicate (ContainsPredicate s) = ContainsPredicate []"
| "erase_predicate (EqualsPredicate s) = EqualsPredicate []"

fun erase :: "condition \<Rightarrow> condition" where
  "erase (LogicalCondition op c1 c2) = LogicalCondition op (erase c1) (erase c2)"
| "erase (NotCondition c) = NotCondition (erase c)"
| "erase (ComparisonCondition left op right) = ComparisonCondition left op (erase_value right)"
| "erase (InCondition left ws) = InCondition left (map erase_value ws)"
| "erase (ElementInCondition element name) = ElementInCondition (erase_value element) name"
| "erase (ContainsCondition name s) = ContainsCondition name []"
| "erase (ListComprehensionCondition kind name var p) = ListComprehensionCondition kind name var (erase_predicate p)"
| "erase c = c"

text \<open>An outcome without the arguments collected.\<close>

definition bare :: "filter_error + 'a \<times> renderer \<Rightarrow> filter_error + 'a \<times> renderer" where
  "bare res = (case res of Inl er \<Rightarrow> Inl er | Inr (x, r) \<Rightarrow> Inr (x, r\<lparr>rd_args := []\<rparr>))"

lemma bare_simps [simp]: "bare (Inl er) = Inl er" "bare (Inr (x, r)) = Inr (x, r\<lparr>rd_args := []\<rparr>)"
  by (simp_all add: bare_def)

lemma bare_eq_Inl [simp]: "bare res = Inl er \<longleftrightarrow> res = Inl er"
  by (auto simp: bare_def split: sum.splits prod.splits)

lemma args_cases: "r\<lparr>rd_args := []\<rparr> = q\<lparr>rd_args := []\<rparr> \<Longrightarrow> \<exists>us vs p. r = p\<lparr>rd_args := us\<rparr> \<and> q = p\<lparr>rd_args := vs\<rparr>"
proof -
  assume a: "r\<lparr>rd_args := []\<rparr> = q\<lparr>rd_args := []\<rparr>"
  have "q = (q\<lparr>rd_args := []\<rparr>)\<lparr>rd_args := rd_args q\<rparr>" by simp
  also have "\<dots> = (r\<lparr>rd_args := []\<rparr>)\<lparr>rd_args := rd_args q\<rparr>" by (simp only: a)
  finally have "q = r\<lparr>rd_args := rd_args q\<rparr>" by simp
  moreover have "r = r\<lparr>rd_args := rd_args r\<rparr>" by simp
  ultimately show ?thesis by blast
qed

lemma expectLiteral_erase:
  "expectLiteral (erase_value v) = (case expectLiteral v of Inl er \<Rightarrow> Inl er | Inr l \<Rightarrow> Inr (erase_literal l))"
  by (cases v) (simp_all add: expectLiteral_def)

lemma expectBool_erase: "expectBool (erase_value v) = expectBool v"
  by (cases v; simp add: expectBool_def expectLiteral_def; rename_tac l; case_tac l; simp)

lemma erase_literal_null [simp]: "erase_literal l = LNull \<longleftrightarrow> l = LNull"
  by (cases l) simp_all

lemmas text_defs = with_arg_def no_arg_def addArg_eq addBoolArg_def two_args_def buildJSONArrayLike_def Let_def

lemma bare_with_arg: "bare (with_arg s v t (r\<lparr>rd_args := us\<rparr>)) = bare (with_arg s w t (r\<lparr>rd_args := vs\<rparr>))"
  by (simp add: text_defs)

lemma bare_scalar:
  "bare (renderScalarComparison f op v (r\<lparr>rd_args := us\<rparr>)) = bare (renderScalarComparison f op (erase_value v) (r\<lparr>rd_args := vs\<rparr>))"
proof (cases v)
  case (LiteralValue l)
  then show ?thesis
    by (cases l; cases op; cases "fd_Type f") (simp_all add: renderScalarComparison_def expectLiteral_def toInt64_def text_defs)
qed (simp_all add: renderScalarComparison_def expectLiteral_def)

lemma bare_function:
  "bare (renderFunctionComparison fn args op v (r\<lparr>rd_args := us\<rparr>)) =
   bare (renderFunctionComparison fn args op (erase_value v) (r\<lparr>rd_args := vs\<rparr>))"
proof (cases v)
  case (LiteralValue l)
  then show ?thesis
    by (cases l) (auto simp: renderFunctionComparison_def expectNumericLiteral_def expectLiteral_def toInt64_def text_defs
        split: list.splits value_expr.splits option.splits)
qed (auto simp: renderFunctionComparison_def expectNumericLiteral_def expectLiteral_def text_defs
        split: list.splits value_expr.splits option.splits)

lemma bare_comparison:
  "bare (renderComparison left op v (r\<lparr>rd_args := us\<rparr>)) = bare (renderComparison left op (erase_value v) (r\<lparr>rd_args := vs\<rparr>))"
proof (cases left)
  case (FieldRef name)
  show ?thesis
  proof (cases "schema_Field (rd_schema r) name")
    case (Some f)
    then show ?thesis
      by (cases "fd_Kind f"; simp add: FieldRef renderComparison_def bare_scalar [where us = us and vs = vs])
         (auto simp: renderBoolColumnComparison_def renderJSONBoolComparison_def expectBool_erase text_defs
          split: sum.splits dialect.splits cmp_op.splits)
  qed (simp add: FieldRef renderComparison_def)
qed (simp_all add: renderComparison_def bare_function [where us = us and vs = vs])

lemma bare_tag_conditions:
  "bare (tag_conditions f ws (r\<lparr>rd_args := us\<rparr>)) = bare (tag_conditions f (map erase_value ws) (r\<lparr>rd_args := vs\<rparr>))"
proof (induction ws arbitrary: r us vs)
  case (Cons v ws)
  show ?case
  proof (cases v)
    case (LiteralValue l)
    show ?thesis
    proof (cases l)
      case (LStr s)
      let ?a = "exact_pattern (rd_dialect r) s" and ?b = "''%'' @ quote @ s @ ''/%''"
      let ?a' = "exact_pattern (rd_dialect r) []" and ?b' = "''%'' @ quote @ ''/%''"
      have "bare (tag_conditions f ws ((bump (bump r))\<lparr>rd_args := us @ [AStr ?a, AStr ?b]\<rparr>)) =
            bare (tag_conditions f (map erase_value ws) ((bump (bump r))\<lparr>rd_args := vs @ [AStr ?a', AStr ?b']\<rparr>))"
        by (rule Cons.IH)
      then show ?thesis
        by (auto simp: LiteralValue LStr expectLiteral_def text_defs bare_def split: sum.splits)
    qed (simp_all add: LiteralValue expectLiteral_def)
  qed (simp_all add: expectLiteral_def)
qed simp

lemma bare_in_placeholders:
  "bare (in_placeholders f ws (r\<lparr>rd_args := us\<rparr>)) = bare (in_placeholders f (map erase_value ws) (r\<lparr>rd_args := vs\<rparr>))"
proof (induction ws arbitrary: r us vs)
  case (Cons v ws)
  have ih: "bare (in_placeholders f ws ((bump r)\<lparr>rd_args := us @ [x]\<rparr>)) =
            bare (in_placeholders f (map erase_value ws) ((bump r)\<lparr>rd_args := vs @ [y]\<rparr>))" for x y
    by (rule Cons.IH)
  show ?case
  proof (cases v)
    case (LiteralValue l)
    have step: "bare (case in_placeholders f ws ((bump r)\<lparr>rd_args := us @ [x]\<rparr>) of Inl er \<Rightarrow> Inl er | Inr (ps, r2) \<Rightarrow> Inr (p # ps, r2)) =
      bare (case in_placeholders f (map erase_value ws) ((bump r)\<lparr>rd_args := vs @ [y]\<rparr>) of Inl er \<Rightarrow> Inl er
            | Inr (ps, r2) \<Rightarrow> Inr (p # ps, r2))" for x y p
      using ih [of x y] by (auto simp: bare_def split: sum.splits)
    show ?thesis
      by (cases l; cases "fd_Type f") (simp_all add: LiteralValue expectLiteral_def toInt64_def addArg_eq step)
  qed (simp_all add: expectLiteral_def)
qed simp

lemma bare_in:
  "bare (renderInCondition left ws (r\<lparr>rd_args := us\<rparr>)) =
   bare (renderInCondition left (map erase_value ws) (r\<lparr>rd_args := vs\<rparr>))"
proof -
  have t: "bare (renderTagInList ws (r\<lparr>rd_args := us\<rparr>)) = bare (renderTagInList (map erase_value ws) (r\<lparr>rd_args := vs\<rparr>))"
  proof (cases "ResolveAlias (rd_schema r) ''tag''")
    case (Some f)
    then show ?thesis using bare_tag_conditions [where f = f and ws = ws and r = r and us = us and vs = vs]
      by (auto simp: renderTagInList_def bare_def split: sum.splits list.splits)
  qed (simp add: renderTagInList_def)
  have s: "bare (renderScalarInCondition f ws (r\<lparr>rd_args := us\<rparr>)) =
    bare (renderScalarInCondition f (map erase_value ws) (r\<lparr>rd_args := vs\<rparr>))" for f
    using bare_in_placeholders [where f = f and ws = ws and r = r and us = us and vs = vs]
    by (auto simp: renderScalarInCondition_def bare_def split: sum.splits)
  show ?thesis
    by (auto simp: renderInCondition_def t s split: value_expr.splits option.splits)
qed

lemma bare_element:
  "bare (renderElementInCondition v name (r\<lparr>rd_args := us\<rparr>)) =
   bare (renderElementInCondition (erase_value v) name (r\<lparr>rd_args := vs\<rparr>))"
proof (cases v)
  case (LiteralValue l)
  then show ?thesis
    by (cases l) (auto simp: renderElementInCondition_def expectLiteral_def text_defs split: option.splits)
qed (auto simp: renderElementInCondition_def expectLiteral_def split: option.splits)

lemma bare_contains:
  "bare (renderContainsCondition name s (r\<lparr>rd_args := us\<rparr>)) = bare (renderContainsCondition name [] (r\<lparr>rd_args := vs\<rparr>))"
  by (auto simp: renderContainsCondition_def text_defs split: option.splits)

lemma bare_comprehension:
  "bare (renderListComprehension name p (r\<lparr>rd_args := us\<rparr>)) =
   bare (renderListComprehension name (erase_predicate p) (r\<lparr>rd_args := vs\<rparr>))"
  by (cases p; cases "rd_dialect r")
     (auto simp: renderListComprehension_def renderTagEquals_def renderTagStartsWith_def renderTagEndsWith_def
       renderTagContains_def renderTagLike_def text_defs split: option.splits)

lemma bare_condition:
  "bare (renderCondition c (r\<lparr>rd_args := us\<rparr>)) = bare (renderCondition (erase c) (r\<lparr>rd_args := vs\<rparr>))"
proof (induction c arbitrary: r us vs)
  case (LogicalCondition op c1 c2)
  show ?case
  proof (cases "renderCondition c1 (r\<lparr>rd_args := us\<rparr>)")
    case (Inl er)
    then have "renderCondition (erase c1) (r\<lparr>rd_args := vs\<rparr>) = Inl er"
      using LogicalCondition.IH(1) [where r = r and us = us and vs = vs] by (metis bare_simps(1) bare_eq_Inl)
    then show ?thesis by (simp add: Inl)
  next
    case (Inr xr)
    obtain x r1 where xr: "xr = (x, r1)" by (cases xr)
    obtain r1' where r': "renderCondition (erase c1) (r\<lparr>rd_args := vs\<rparr>) = Inr (x, r1')" "r1\<lparr>rd_args := []\<rparr> = r1'\<lparr>rd_args := []\<rparr>"
      using LogicalCondition.IH(1) [where r = r and us = us and vs = vs] by (auto simp: Inr xr bare_def split: sum.splits)
    obtain us1 vs1 q where q: "r1 = q\<lparr>rd_args := us1\<rparr>" "r1' = q\<lparr>rd_args := vs1\<rparr>" using args_cases [OF r'(2)] by blast
    show ?thesis using LogicalCondition.IH(2) [where r = q and us = us1 and vs = vs1]
      by (auto simp: Inr xr r'(1) q bare_def split: sum.splits)
  qed
next
  case (NotCondition c)
  show ?case using NotCondition.IH [where r = r and us = us and vs = vs] by (auto simp: bare_def split: sum.splits)
next
  case (FieldPredicateCondition name)
  show ?case by (auto simp: renderFieldPredicate_def no_arg_def split: option.splits sum.splits)
next
  case (ComparisonCondition left op v)
  show ?case by (simp add: bare_comparison [where us = us and vs = vs])
next
  case (InCondition left ws)
  show ?case by (simp add: bare_in [where us = us and vs = vs])
next
  case (ElementInCondition v name)
  show ?case by (simp add: bare_element [where us = us and vs = vs])
next
  case (ContainsCondition name s)
  show ?case by (simp add: bare_contains [where us = us and vs = vs])
next
  case (ListComprehensionCondition kind name var p)
  show ?case by (simp add: bare_comprehension [where us = us and vs = vs])
qed simp

definition statement_text :: "filter_error + statement \<Rightarrow> filter_error + string" where
  "statement_text st = (case st of Inl er \<Rightarrow> Inl er | Inr s \<Rightarrow> Inr (st_SQL s))"

text \<open>
  C35. The SQL of a filter, or the error of rendering it, is the same whatever texts and numbers the filter
  compares with: they only ever become arguments.
\<close>
theorem filter_sql_ignores_literals:
  "statement_text (program_Render p opts) = statement_text (program_Render (p\<lparr>pg_condition := erase (pg_condition p)\<rparr>) opts)"
proof -
  let ?r = "newRenderer (pg_schema p) opts"
  have "?r\<lparr>rd_args := []\<rparr> = ?r" by (simp add: newRenderer_def)
  then have "bare (renderCondition (pg_condition p) ?r) = bare (renderCondition (erase (pg_condition p)) ?r)"
    using bare_condition [where c = "pg_condition p" and r = ?r and us = "[]" and vs = "[]"] by simp
  then show ?thesis
    by (auto simp: program_Render_def renderer_Render_def statement_text_def bare_def split: sum.splits)
qed

section \<open>Placeholders stand where their arguments do\<close>

text \<open>
  What a condition asks for, as a text with its values in it: the pieces of the SQL in their order, a value
  standing where the code writes a placeholder. The placeholders of a text are its question marks; for
  Postgres they are numbers, counting on from those already given.
\<close>

definition mark :: char where
  "mark = CHR ''?''"

fun marks :: "string \<Rightarrow> nat" where
  "marks [] = 0"
| "marks (c # s) = (if c = mark then Suc (marks s) else marks s)"

datatype piece = Txt string | Val sql_arg

fun values_of :: "piece list \<Rightarrow> sql_arg list" where
  "values_of [] = []"
| "values_of (Txt s # ps) = values_of ps"
| "values_of (Val v # ps) = v # values_of ps"

fun laid :: "dialect \<Rightarrow> nat \<Rightarrow> piece list \<Rightarrow> string" where
  "laid d k [] = []"
| "laid d k (Txt s # ps) = s @ laid d k ps"
| "laid d k (Val v # ps) = (if d = Postgres then CHR ''$'' # dec (k + 1) else ''?'') @ laid d (Suc k) ps"

fun unmarked_piece :: "piece \<Rightarrow> bool" where
  "unmarked_piece (Txt s) \<longleftrightarrow> marks s = 0"
| "unmarked_piece (Val v) \<longleftrightarrow> True"

abbreviation unmarked_texts :: "piece list \<Rightarrow> bool" where
  "unmarked_texts ps \<equiv> list_all unmarked_piece ps"

fun join_pieces :: "string \<Rightarrow> piece list list \<Rightarrow> piece list" where
  "join_pieces sep [] = []"
| "join_pieces sep [ps] = ps"
| "join_pieces sep (ps # qs # pss) = ps @ Txt sep # join_pieces sep (qs # pss)"

subsection \<open>What each condition asks for\<close>

fun literal_of :: "value_expr \<Rightarrow> literal" where
  "literal_of (LiteralValue l) = l"
| "literal_of v = LNull"

fun text_of :: "value_expr \<Rightarrow> string" where
  "text_of (LiteralValue (LStr s)) = s"
| "text_of v = []"

fun truth_of :: "value_expr \<Rightarrow> bool" where
  "truth_of (LiteralValue (LBool b)) = b"
| "truth_of v = False"

fun value_of :: "value_expr \<Rightarrow> sql_arg" where
  "value_of (LiteralValue (LStr s)) = AStr s"
| "value_of (LiteralValue (LInt n)) = AInt n"
| "value_of (LiteralValue (LFloat b)) = AInt (float_to_int64 b)"
| "value_of v = AInt 0"

definition scalar_pieces :: "dialect \<Rightarrow> schema_field \<Rightarrow> cmp_op \<Rightarrow> value_expr \<Rightarrow> piece list" where
  "scalar_pieces d f op right =
     (if literal_of right = LNull then [Txt (columnExpr f d @ (if op = CompareEq then '' IS NULL'' else '' IS NOT NULL''))]
      else [Txt (columnExpr f d @ '' '' @ sqlOperator op @ '' ''), Val (value_of right)])"

definition truth_pieces :: "dialect \<Rightarrow> schema_field \<Rightarrow> cmp_op \<Rightarrow> value_expr \<Rightarrow> piece list" where
  "truth_pieces d f op right = [Txt (qualifyColumn d (fd_Column f) @ '' '' @ sqlOperator op @ '' ''),
     Val (if d = SQLite then AInt (if truth_of right then 1 else 0) else ABool (truth_of right))]"

definition flag_pieces :: "dialect \<Rightarrow> schema_field \<Rightarrow> cmp_op \<Rightarrow> value_expr \<Rightarrow> piece list" where
  "flag_pieces d f op right =
     (if d = SQLite then [Txt (sqlite_flag f (jsonExtractExpr d f) (op = CompareEq) (truth_of right))]
      else if d = MySQL then [Txt (jsonExtractExpr d f @ '' '' @ sqlOperator op @ '' CAST('' @ apostrophe
        @ (if truth_of right then ''true'' else ''false'') @ apostrophe @ '' AS JSON)'')]
      else [Txt (''('' @ jsonExtractExpr d f @ '')::boolean '' @ sqlOperator op @ '' ''), Val (ABool (truth_of right))])"

definition comparison_pieces :: "filter_schema \<Rightarrow> dialect \<Rightarrow> value_expr \<Rightarrow> cmp_op \<Rightarrow> value_expr \<Rightarrow> piece list" where
  "comparison_pieces sm d left op right =
     (case left of
        FieldRef name \<Rightarrow>
          (case schema_Field sm name of
             None \<Rightarrow> []
           | Some f \<Rightarrow>
               (case fd_Kind f of
                  KBoolColumn \<Rightarrow> truth_pieces d f op right
                | KJSONBool \<Rightarrow> flag_pieces d f op right
                | _ \<Rightarrow> scalar_pieces d f op right))
      | FunctionValue fn [FieldRef name] \<Rightarrow>
          (case schema_Field sm name of
             None \<Rightarrow> []
           | Some f \<Rightarrow> [Txt (jsonArrayLengthExpr d f @ '' '' @ sqlOperator op @ '' ''), Val (value_of right)])
      | _ \<Rightarrow> [])"

definition tag_pieces :: "dialect \<Rightarrow> string \<Rightarrow> string \<Rightarrow> piece list" where
  "tag_pieces d a s =
     [Txt ''('', Txt (exact_before d a), Val (AStr (exact_pattern d s)), Txt (exact_after d), Txt '' OR '',
      Txt (like_before d a), Val (AStr (''%'' @ quote @ s @ ''/%'')), Txt '')'']"

definition in_pieces :: "filter_schema \<Rightarrow> dialect \<Rightarrow> value_expr \<Rightarrow> value_expr list \<Rightarrow> piece list" where
  "in_pieces sm d left ws =
     (case left of
        FieldRef name \<Rightarrow>
          if name = ''tag'' then
            (case ResolveAlias sm ''tag'' of
               None \<Rightarrow> []
             | Some f \<Rightarrow>
                 let pss = map (\<lambda>w. tag_pieces d (jsonArrayExpr d f) (text_of w)) ws
                 in if length pss = 1 then hd pss else Txt ''('' # join_pieces '' OR '' pss @ [Txt '')''])
          else
            (case schema_Field sm name of
               None \<Rightarrow> []
             | Some f \<Rightarrow> Txt (columnExpr f d) # Txt '' IN ('' # join_pieces '','' (map (\<lambda>w. [Val (value_of w)]) ws) @ [Txt '')''])
      | _ \<Rightarrow> [])"

definition contains_pieces :: "dialect \<Rightarrow> schema_field \<Rightarrow> string \<Rightarrow> piece list" where
  "contains_pieces d f s =
     (let v = Val (AStr (''%'' @ s @ ''%'')); col = columnExpr f d
      in if d = SQLite then [Txt (''memos_unicode_lower('' @ col @ '') LIKE memos_unicode_lower(''), v, Txt '')'']
         else if d = Postgres then [Txt (col @ '' ILIKE ''), v]
         else [Txt (col @ '' LIKE ''), v])"

definition like_pieces :: "dialect \<Rightarrow> string \<Rightarrow> string \<Rightarrow> piece list" where
  "like_pieces d a pattern =
     (if d = SQLite \<or> d = MySQL \<or> d = Postgres then [Txt (like_before d a), Val (AStr pattern)] else [])"

definition guarded_pieces :: "dialect \<Rightarrow> string \<Rightarrow> piece list \<Rightarrow> piece list" where
  "guarded_pieces d a ps =
     (let checked = (\<lambda>check. Txt ''('' # ps @ [Txt ('' AND '' @ a @ '' IS NOT NULL AND '' @ check @ '')'')])
      in case d of
           SQLite \<Rightarrow> checked (a @ '' != '' @ apostrophe @ ''[]'' @ apostrophe)
         | MySQL \<Rightarrow> checked (''JSON_LENGTH('' @ a @ '') > 0'')
         | Postgres \<Rightarrow> checked (''jsonb_array_length('' @ a @ '') > 0'')
         | _ \<Rightarrow> ps)"

definition element_pieces :: "dialect \<Rightarrow> string \<Rightarrow> string \<Rightarrow> piece list" where
  "element_pieces d a s = [Txt (a @ '' @> jsonb_build_array(''), Val (AStr (quote @ s @ quote)), Txt ''::json)'']"

fun tag_test_pieces :: "dialect \<Rightarrow> string \<Rightarrow> predicate_expr \<Rightarrow> piece list" where
  "tag_test_pieces d a (EqualsPredicate s) =
     (if d = Postgres then element_pieces d a s else like_pieces d a (''%'' @ quote @ s @ quote @ ''%''))"
| "tag_test_pieces d a (StartsWithPredicate s) =
     Txt ''('' # (if d = Postgres then element_pieces d a s else like_pieces d a (''%'' @ quote @ s @ quote @ ''%''))
     @ Txt '' OR '' # like_pieces d a (''%'' @ quote @ s @ ''%'') @ [Txt '')'']"
| "tag_test_pieces d a (EndsWithPredicate s) = like_pieces d a (''%'' @ s @ quote @ ''%'')"
| "tag_test_pieces d a (ContainsPredicate s) = like_pieces d a (''%'' @ s @ ''%'')"

definition predicate_text :: "dialect \<Rightarrow> schema_field \<Rightarrow> string" where
  "predicate_text d f =
     (if fd_Kind f = KBoolColumn then qualifyColumn d (fd_Column f) @ '' IS TRUE''
      else case jsonBoolPredicate d f of Inl er \<Rightarrow> [] | Inr s \<Rightarrow> s)"

text \<open>Without a constant in it a condition is its operands, one behind the other.\<close>

fun condition_pieces :: "filter_schema \<Rightarrow> dialect \<Rightarrow> condition \<Rightarrow> piece list" where
  "condition_pieces sm d (LogicalCondition op c1 c2) =
     Txt ''('' # condition_pieces sm d c1 @ Txt (case op of LogicalAnd \<Rightarrow> '' AND '' | LogicalOr \<Rightarrow> '' OR '')
     # condition_pieces sm d c2 @ [Txt '')'']"
| "condition_pieces sm d (NotCondition c) = Txt ''NOT ('' # condition_pieces sm d c @ [Txt '')'']"
| "condition_pieces sm d (FieldPredicateCondition name) =
     (case schema_Field sm name of None \<Rightarrow> [] | Some f \<Rightarrow> [Txt (predicate_text d f)])"
| "condition_pieces sm d (ComparisonCondition left op right) = comparison_pieces sm d left op right"
| "condition_pieces sm d (InCondition left ws) = in_pieces sm d left ws"
| "condition_pieces sm d (ElementInCondition v name) =
     (case schema_Field sm name of
        None \<Rightarrow> []
      | Some f \<Rightarrow> [Txt (exact_before d (jsonArrayExpr d f)), Val (AStr (exact_pattern d (text_of v))), Txt (exact_after d)])"
| "condition_pieces sm d (ContainsCondition name s) =
     (case schema_Field sm name of None \<Rightarrow> [] | Some f \<Rightarrow> contains_pieces d f s)"
| "condition_pieces sm d (ConstantCondition b) = []"
| "condition_pieces sm d (ListComprehensionCondition kind name var p) =
     (case schema_Field sm name of
        None \<Rightarrow> [] | Some f \<Rightarrow> guarded_pieces d (jsonArrayExpr d f) (tag_test_pieces d (jsonArrayExpr d f) p))"

subsection \<open>Laying out\<close>

lemma marks_append [simp]: "marks (s @ t) = marks s + marks t"
  by (induction s) auto

lemma values_of_append [simp]: "values_of (ps @ qs) = values_of ps @ values_of qs"
  by (induction ps rule: values_of.induct) auto

lemma laid_append: "laid d k (ps @ qs) = laid d k ps @ laid d (k + length (values_of ps)) qs"
  by (induction d k ps rule: laid.induct) auto

lemma laid_marks: "unmarked_texts ps \<Longrightarrow> d \<noteq> Postgres \<Longrightarrow> marks (laid d k ps) = length (values_of ps)"
  by (induction d k ps rule: laid.induct) (auto simp: mark_def)

lemma laid_empty: "laid d k ps = [] \<longleftrightarrow> list_all (\<lambda>p. p = Txt []) ps"
  by (induction d k ps rule: laid.induct) auto

lemma blank_values: "list_all (\<lambda>p. p = Txt []) ps \<Longrightarrow> values_of ps = []"
  by (induction ps rule: values_of.induct) auto

text \<open>A text and the renderer behind it: the text is the pieces, their values are the arguments added.\<close>

definition lays_out :: "renderer \<Rightarrow> piece list \<Rightarrow> string \<Rightarrow> renderer \<Rightarrow> bool" where
  "lays_out r ps s r' \<longleftrightarrow> unmarked_texts ps
     \<and> s = laid (rd_dialect r) (rd_placeholderOffset r + rd_placeholderCounter r) ps
     \<and> r' = r\<lparr>rd_args := rd_args r @ values_of ps, rd_placeholderCounter := rd_placeholderCounter r + length (values_of ps)\<rparr>"

lemma places_nil [simp]: "lays_out r [] [] r"
  by (simp add: lays_out_def)

lemma places_text: "marks s = 0 \<Longrightarrow> lays_out r [Txt s] s r"
  by (simp add: lays_out_def)

lemma places_append: "lays_out r ps s r1 \<Longrightarrow> lays_out r1 qs s' r2 \<Longrightarrow> lays_out r (ps @ qs) (s @ s') r2"
  by (simp add: lays_out_def laid_append add.assoc)

lemma places_before: "marks s = 0 \<Longrightarrow> lays_out r ps s' r' \<Longrightarrow> lays_out r (Txt s # ps) (s @ s') r'"
  using places_append [OF places_text, of s r ps s' r'] by simp

lemma places_after: "lays_out r ps s r' \<Longrightarrow> marks s' = 0 \<Longrightarrow> lays_out r (ps @ [Txt s']) (s @ s') r'"
  by (rule places_append [OF _ places_text])

lemma places_arg: "addArg v r = (p, r') \<Longrightarrow> lays_out r [Val v] p r'"
  by (auto simp: lays_out_def addArg_def Let_def split: if_splits)

lemma places_dialect: "lays_out r ps s r' \<Longrightarrow> rd_dialect r' = rd_dialect r \<and> rd_schema r' = rd_schema r"
  by (auto simp: lays_out_def)

lemma marks_dec [simp]: "marks (dec n) = 0"
proof -
  have "\<forall>c \<in> set s. is_digit c \<Longrightarrow> marks s = 0" for s
    by (induction s) (auto simp: mark_def is_digit_alt)
  then show ?thesis using dec_digits by blast
qed

text \<open>A rendered condition: none of its operands was constant, and it is what it asks for.\<close>

definition placed_result :: "renderer \<Rightarrow> piece list \<Rightarrow> rendered \<Rightarrow> bool" where
  "placed_result r ps res \<longleftrightarrow>
     (case res of Inl er \<Rightarrow> True | Inr (x, r') \<Rightarrow> \<not> rr_trivial x \<and> \<not> rr_unsatisfiable x \<and> lays_out r ps (rr_sql x) r')"

lemma placed_result_simps [simp]:
  "placed_result r ps (Inl er)"
  "placed_result r ps (Inr (plain_result s, r')) \<longleftrightarrow> lays_out r ps s r'"
  by (simp_all add: placed_result_def plain_result_def)

lemma placed_with_arg: "marks s = 0 \<Longrightarrow> marks t = 0 \<Longrightarrow> placed_result r [Txt s, Val v, Txt t] (with_arg s v t r)"
  by (auto simp: with_arg_def lays_out_def addArg_def Let_def)

lemma placed_last_arg: "marks s = 0 \<Longrightarrow> placed_result r [Txt s, Val v] (with_arg s v [] r)"
  by (auto simp: with_arg_def lays_out_def addArg_def Let_def)

lemma placed_no_arg: "marks s = 0 \<Longrightarrow> placed_result r [Txt s] (no_arg s r)"
  by (simp add: no_arg_def places_text)

subsection \<open>The texts of the schema\<close>

definition clean_field :: "schema_field \<Rightarrow> bool" where
  "clean_field f \<longleftrightarrow> marks (co_Table (fd_Column f)) = 0 \<and> marks (co_Name (fd_Column f)) = 0 \<and>
     list_all (\<lambda>p. marks p = 0) (fd_JSONPath f) \<and> list_all (\<lambda>(d, e). marks e = 0) (fd_Expressions f)"

definition clean_schema :: "filter_schema \<Rightarrow> bool" where
  "clean_schema sm \<longleftrightarrow> list_all (\<lambda>(n, f). clean_field f) (sm_Fields sm)"

lemma clean_schemas: "clean_schema NewSchema" "clean_schema NewAttachmentSchema"
  by code_simp+

lemma clean_lookup: "clean_schema sm \<Longrightarrow> schema_Field sm name = Some f \<Longrightarrow> clean_field f"
  unfolding clean_schema_def schema_Field_def list_all_iff by (drule map_of_SomeD) auto

lemma clean_alias: "clean_schema sm \<Longrightarrow> ResolveAlias sm name = Some f \<Longrightarrow> clean_field f"
  by (auto simp: ResolveAlias_def dest: clean_lookup split: option.splits if_splits)

lemma marks_sprintf: "marks e = 0 \<Longrightarrow> marks x = 0 \<Longrightarrow> marks (sprintf_s e x) = 0"
  by (induction e x rule: sprintf_s.induct) (auto split: if_splits)

lemma marks_column: "clean_field f \<Longrightarrow> marks (qualifyColumn d (fd_Column f)) = 0"
  by (simp add: clean_field_def qualifyColumn_def mark_def)

lemma marks_columnExpr: "clean_field f \<Longrightarrow> marks (columnExpr f d) = 0"
  unfolding columnExpr_def Let_def
  by (auto simp: marks_column clean_field_def list_all_iff dest!: map_of_SomeD intro!: marks_sprintf split: option.splits)

lemma marks_join: "marks sep = 0 \<Longrightarrow> list_all (\<lambda>p. marks p = 0) ps \<Longrightarrow> marks (sql_join sep ps) = 0"
  by (induction sep ps rule: sql_join.induct) auto

lemma marks_accessor: "marks base = 0 \<Longrightarrow> list_all (\<lambda>p. marks p = 0) ps \<Longrightarrow> marks (buildPostgresJSONAccessor base ps b) = 0"
  by (induction base ps b rule: buildPostgresJSONAccessor.induct) (auto simp: apostrophe_def mark_def)

lemma marks_json: "clean_field f \<Longrightarrow> marks (json_extract d f b) = 0"
  by (auto simp: json_extract_def Let_def marks_column jsonPath_def apostrophe_def mark_def clean_field_def
        intro!: marks_join marks_accessor)

lemma marks_texts:
  "marks (sqlOperator op) = 0" "marks apostrophe = 0"
  by (cases op; simp add: sqlOperator_def apostrophe_def mark_def)+

subsection \<open>Every condition\<close>

lemmas result_defs = expectLiteral_def expectBool_def expectNumericLiteral_def toInt64_def
lemmas text_marks = marks_texts marks_json marks_columnExpr marks_column mark_def

lemma Inr_literal [simp]: "expectLiteral v = Inr l \<longleftrightarrow> v = LiteralValue l"
  by (cases v) (auto simp: expectLiteral_def)

lemma Inr_bool: "expectBool v = Inr b \<Longrightarrow> truth_of v = b"
  by (auto simp: expectBool_def split: sum.splits literal.splits)

lemma Inr_number: "toInt64 l = Inr n \<Longrightarrow> value_of (LiteralValue l) = AInt n"
  by (auto simp: toInt64_def split: literal.splits)

lemma text_no_number [simp]: "toInt64 (LStr s) \<noteq> Inr n"
  by (simp add: toInt64_def)

lemma Inr_numeric: "expectNumericLiteral v = Inr n \<Longrightarrow> value_of v = AInt n"
  by (auto simp: expectNumericLiteral_def Inr_number split: sum.splits)

lemma marks_predicate: "clean_field f \<Longrightarrow> jsonBoolPredicate d f = Inr s \<Longrightarrow> marks s = 0"
  by (auto simp: jsonBoolPredicate_def jsonExtractExpr_def Let_def text_marks split: dialect.splits)

lemma placed_field_predicate:
  "clean_schema (rd_schema r) \<Longrightarrow>
   placed_result r (condition_pieces (rd_schema r) (rd_dialect r) (FieldPredicateCondition name)) (renderFieldPredicate name r)"
  by (auto simp: renderFieldPredicate_def predicate_text_def text_marks marks_predicate dest!: clean_lookup
      intro!: placed_no_arg split: option.splits sum.splits)

lemma placed_scalar: "clean_field f \<Longrightarrow> placed_result r (scalar_pieces (rd_dialect r) f op v) (renderScalarComparison f op v r)"
  by (auto simp: renderScalarComparison_def scalar_pieces_def Let_def text_marks Inr_number intro!: placed_no_arg placed_last_arg
      split: sum.splits cmp_op.splits field_type.splits literal.splits)

lemma placed_bool_column:
  assumes "clean_field f"
  shows "placed_result r (truth_pieces (rd_dialect r) f op v) (renderBoolColumnComparison f op v r)"
proof (cases "expectBool v")
  case (Inr b)
  have "renderBoolColumnComparison f op v r = with_arg (qualifyColumn (rd_dialect r) (fd_Column f) @ '' '' @ sqlOperator op @ '' '')
      (if rd_dialect r = SQLite then AInt (if b then 1 else 0) else ABool b) [] r"
    by (simp add: renderBoolColumnComparison_def Inr addBoolArg_def with_arg_def)
  then show ?thesis using assms by (simp add: truth_pieces_def Inr_bool [OF Inr] placed_last_arg text_marks)
qed (simp add: renderBoolColumnComparison_def)

lemma placed_json_bool: "clean_field f \<Longrightarrow> placed_result r (flag_pieces (rd_dialect r) f op v) (renderJSONBoolComparison f op v r)"
  by (auto simp: renderJSONBoolComparison_def flag_pieces_def sqlite_flag_def jsonExtractExpr_def Let_def text_marks Inr_bool
      intro!: placed_no_arg placed_last_arg split: sum.splits cmp_op.splits dialect.splits)

lemma placed_comparison:
  assumes "clean_schema (rd_schema r)"
  shows "placed_result r (comparison_pieces (rd_schema r) (rd_dialect r) left op v) (renderComparison left op v r)"
proof (cases left)
  case (FieldRef name)
  show ?thesis
  proof (cases "schema_Field (rd_schema r) name")
    case (Some f)
    have "clean_field f" by (rule clean_lookup [OF assms Some])
    then show ?thesis
      by (cases "fd_Kind f") (simp_all add: renderComparison_def comparison_pieces_def FieldRef Some placed_bool_column placed_json_bool placed_scalar)
  qed (simp add: renderComparison_def FieldRef)
next
  case (FunctionValue fn args)
  then show ?thesis
    using assms by (auto simp: renderComparison_def comparison_pieces_def renderFunctionComparison_def jsonArrayLengthExpr_def
      jsonArrayExpr_def Let_def text_marks Inr_numeric dest!: clean_lookup
      intro!: placed_last_arg split: sum.splits option.splits list.splits value_expr.splits dialect.splits)
qed (simp add: renderComparison_def)

lemma marks_exact: "marks a = 0 \<Longrightarrow> marks (exact_before d a) = 0" "marks (exact_after d) = 0" "marks a = 0 \<Longrightarrow> marks (like_before d a) = 0"
  by (simp_all add: exact_before_def exact_after_def like_before_def mark_def)

lemma marks_array: "clean_field f \<Longrightarrow> marks (jsonArrayExpr d f) = 0"
  by (simp add: jsonArrayExpr_def marks_json)

lemma places_tag:
  assumes "two_args (exact_before (rd_dialect r) a) (AStr (exact_pattern (rd_dialect r) s)) (exact_after (rd_dialect r))
      (like_before (rd_dialect r) a) (AStr (''%'' @ quote @ s @ ''/%'')) r = (t, r')" "marks a = 0"
  shows "lays_out r (tag_pieces (rd_dialect r) a s) t r'"
  using assms by (auto simp: two_args_def tag_pieces_def lays_out_def addArg_def Let_def marks_exact) (simp_all add: mark_def)

text \<open>A list of texts, each with its own placeholders, joined by a separator that has none.\<close>

fun places_list :: "renderer \<Rightarrow> piece list list \<Rightarrow> string list \<Rightarrow> renderer \<Rightarrow> bool" where
  "places_list r [] [] r' \<longleftrightarrow> r' = r"
| "places_list r (ps # pss) (s # ss) r' \<longleftrightarrow> (\<exists>r1. lays_out r ps s r1 \<and> places_list r1 pss ss r')"
| "places_list r pss ss r' \<longleftrightarrow> False"

lemma places_length: "places_list r pss ss r' \<Longrightarrow> length pss = length ss"
  by (induction r pss ss r' rule: places_list.induct) auto

lemma places_join: "places_list r pss ss r' \<Longrightarrow> marks sep = 0 \<Longrightarrow> lays_out r (join_pieces sep pss) (sql_join sep ss) r'"
proof (induction pss arbitrary: r ss)
  case Nil
  then show ?case by (cases ss) simp_all
next
  case (Cons ps pss)
  obtain s ss' where ss: "ss = s # ss'" using Cons.prems(1) by (cases ss) auto
  obtain r1 where r1: "lays_out r ps s r1" "places_list r1 pss ss' r'" using Cons.prems(1) by (auto simp: ss)
  have len: "length pss = length ss'" by (rule places_length [OF r1(2)])
  show ?case
  proof (cases pss)
    case Nil
    then show ?thesis using r1 len by (simp add: ss)
  next
    case (Cons qs qss)
    then obtain s' ss'' where s': "ss' = s' # ss''" using len by (cases ss') auto
    have "lays_out r1 (Txt sep # join_pieces sep pss) (sep @ sql_join sep ss') r'"
      by (rule places_before [OF Cons.prems(2) Cons.IH [OF r1(2) Cons.prems(2)]])
    then show ?thesis using places_append [OF r1(1)] by (simp add: ss s' Cons)
  qed
qed

lemma places_tags:
  "tag_conditions f ws r = Inr (ss, r') \<Longrightarrow> clean_field f \<Longrightarrow>
   places_list r (map (\<lambda>w. tag_pieces (rd_dialect r) (jsonArrayExpr (rd_dialect r) f) (text_of w)) ws) ss r'"
proof (induction ws arbitrary: r ss)
  case (Cons w ws)
  then obtain s where s: "expectLiteral w = Inr (LStr s)" by (auto split: sum.splits literal.splits)
  let ?d = "rd_dialect r" and ?a = "jsonArrayExpr (rd_dialect r) f"
  obtain c r1 where c: "two_args (exact_before ?d ?a) (AStr (exact_pattern ?d s)) (exact_after ?d) (like_before ?d ?a)
      (AStr (''%'' @ quote @ s @ ''/%'')) r = (c, r1)" by fastforce
  obtain cs where cs: "tag_conditions f ws r1 = Inr (cs, r')" "ss = c # cs"
    using Cons.prems(1) c by (auto simp: s [simplified] expectLiteral_def Let_def split: if_splits sum.splits prod.splits)
  note l = places_tag [OF c marks_array [OF Cons.prems(2)]]
  have "rd_dialect r1 = ?d" using places_dialect [OF l] by simp
  then show ?case using Cons.IH [OF cs(1) Cons.prems(2)] cs(2) l s by auto
qed simp

lemma places_ins: "in_placeholders f ws r = Inr (ps, r') \<Longrightarrow> places_list r (map (\<lambda>w. [Val (value_of w)]) ws) ps r'"
proof (induction ws arbitrary: r ps)
  case (Cons w ws)
  then obtain p r1 ps' where p: "addArg (value_of w) r = (p, r1)" "in_placeholders f ws r1 = Inr (ps', r')" "ps = p # ps'"
    by (auto simp: Let_def Inr_number split: sum.splits prod.splits field_type.splits literal.splits)
  show ?case using places_arg [OF p(1)] Cons.IH [OF p(2)] p(3) by auto
qed simp

lemma placed_in:
  assumes clean: "clean_schema (rd_schema r)"
  shows "placed_result r (in_pieces (rd_schema r) (rd_dialect r) left ws) (renderInCondition left ws r)"
proof (cases left)
  case (FieldRef name)
  let ?d = "rd_dialect r"
  have t: "placed_result r (in_pieces (rd_schema r) ?d left ws) (renderTagInList ws r)" if n: "name = ''tag''"
  proof (cases "ResolveAlias (rd_schema r) ''tag''")
    case (Some f)
    show ?thesis
    proof (cases "tag_conditions f ws r")
      case (Inr x)
      obtain cs r' where x: "x = (cs, r')" by (cases x)
      let ?pss = "map (\<lambda>w. tag_pieces ?d (jsonArrayExpr ?d f) (text_of w)) ws"
      have l: "places_list r ?pss cs r'" using places_tags Inr x clean_alias [OF clean Some] by blast
      have j: "lays_out r (Txt ''('' # join_pieces '' OR '' ?pss @ [Txt '')'']) (''('' @ sql_join '' OR '' cs @ '')'') r'"
        using l by (intro places_before places_after places_join) (simp_all add: mark_def)
      have i: "in_pieces (rd_schema r) ?d left ws = (if length ?pss = 1 then hd ?pss else Txt ''('' # join_pieces '' OR '' ?pss @ [Txt '')''])"
        by (simp add: in_pieces_def FieldRef n Some Let_def)
      have res: "renderTagInList ws r = Inr (plain_result (case cs of [c] \<Rightarrow> c | _ \<Rightarrow> ''('' @ sql_join '' OR '' cs @ '')''), r')"
        by (simp add: renderTagInList_def Some Inr x)
      show ?thesis
      proof (cases "\<exists>c. cs = [c]")
        case True
        then obtain c where c: "cs = [c]" by blast
        then obtain ps where ps: "?pss = [ps]" using places_length [OF l] by (cases ?pss) auto
        show ?thesis using l unfolding i res ps c by auto
      next
        case False
        then have "length ?pss \<noteq> 1" using places_length [OF l] by (cases cs) auto
        moreover have "(case cs of [c] \<Rightarrow> c | _ \<Rightarrow> ''('' @ sql_join '' OR '' cs @ '')'') = ''('' @ sql_join '' OR '' cs @ '')''"
          using False by (auto split: list.splits)
        ultimately show ?thesis using j unfolding i res by (simp only: if_False placed_result_simps)
      qed
    qed (simp add: renderTagInList_def Some)
  qed (simp add: renderTagInList_def)
  have s: "placed_result r (in_pieces (rd_schema r) ?d left ws) (renderScalarInCondition f ws r)"
    if "name \<noteq> ''tag''" "schema_Field (rd_schema r) name = Some f" for f
  proof (cases "in_placeholders f ws r")
    case (Inr x)
    obtain ps r' where x: "x = (ps, r')" by (cases x)
    have "lays_out r (Txt (columnExpr f ?d) # Txt '' IN ('' # join_pieces '','' (map (\<lambda>w. [Val (value_of w)]) ws) @ [Txt '')''])
        (columnExpr f ?d @ '' IN ('' @ sql_join '','' ps @ '')'') r'"
      using places_ins Inr x marks_columnExpr [OF clean_lookup [OF clean that(2)]]
      by (intro places_before places_after places_join) (simp_all add: mark_def)
    then show ?thesis using that by (simp add: renderScalarInCondition_def Inr x in_pieces_def FieldRef)
  qed (simp add: renderScalarInCondition_def)
  show ?thesis
    using t s by (auto simp: renderInCondition_def FieldRef split: option.splits)
qed (simp_all add: renderInCondition_def)

lemma placed_element:
  "clean_schema (rd_schema r) \<Longrightarrow>
   placed_result r (condition_pieces (rd_schema r) (rd_dialect r) (ElementInCondition v name)) (renderElementInCondition v name r)"
  by (auto simp: renderElementInCondition_def Let_def marks_exact marks_array dest!: clean_lookup
      intro!: placed_with_arg split: option.splits sum.splits literal.splits)

lemma placed_contains:
  "clean_schema (rd_schema r) \<Longrightarrow>
   placed_result r (condition_pieces (rd_schema r) (rd_dialect r) (ContainsCondition name s)) (renderContainsCondition name s r)"
  by (auto simp: renderContainsCondition_def contains_pieces_def Let_def text_marks dest!: clean_lookup
      intro!: placed_with_arg placed_last_arg split: option.splits)

lemma places_guard: "lays_out r ps s r' \<Longrightarrow> marks a = 0 \<Longrightarrow> lays_out r (guarded_pieces d a ps) (wrapWithNullCheck d a s) r'"
  unfolding wrapWithNullCheck_def guarded_pieces_def Let_def
  by (cases d; simp only: dialect.case) (intro places_before places_after; simp add: mark_def apostrophe_def)+

lemma places_like: "buildJSONArrayLike a pat r = (s, r') \<Longrightarrow> marks a = 0 \<Longrightarrow> lays_out r (like_pieces (rd_dialect r) a pat) s r'"
  unfolding buildJSONArrayLike_def Let_def like_pieces_def
  by (auto split: if_splits prod.splits intro!: places_before elim: places_arg simp: marks_exact)

lemma placed_tag_like:
  assumes "marks (jsonArrayExpr (rd_dialect r) f) = 0"
  shows "placed_result r (guarded_pieces (rd_dialect r) (jsonArrayExpr (rd_dialect r) f) (like_pieces (rd_dialect r) (jsonArrayExpr (rd_dialect r) f) pat))
    (renderTagLike f pat r)"
proof -
  let ?a = "jsonArrayExpr (rd_dialect r) f"
  obtain s r' where s: "buildJSONArrayLike ?a pat r = (s, r')" by fastforce
  show ?thesis using places_guard [OF places_like [OF s assms] assms] by (simp add: renderTagLike_def Let_def s no_arg_def)
qed

lemma places_element:
  "addArg (AStr (quote @ v @ quote)) r = (p, r') \<Longrightarrow> marks a = 0 \<Longrightarrow>
   lays_out r (element_pieces d a v) (a @ '' @> jsonb_build_array('' @ p @ ''::json)'') r'"
  by (auto simp: lays_out_def element_pieces_def addArg_def Let_def mark_def split: if_splits)

lemma placed_tag_equals:
  assumes a: "marks (jsonArrayExpr (rd_dialect r) f) = 0"
  shows "placed_result r (guarded_pieces (rd_dialect r) (jsonArrayExpr (rd_dialect r) f)
     (tag_test_pieces (rd_dialect r) (jsonArrayExpr (rd_dialect r) f) (EqualsPredicate v))) (renderTagEquals f v r)"
proof -
  let ?d = "rd_dialect r" and ?a = "jsonArrayExpr (rd_dialect r) f"
  obtain s r1 where s: "buildJSONArrayLike ?a (''%'' @ quote @ v @ quote @ ''%'') r = (s, r1)" by fastforce
  obtain p r2 where p: "addArg (AStr (quote @ v @ quote)) r = (p, r2)" by fastforce
  note 1 = places_guard [OF places_like [OF s a] a, of ?d] and 2 = places_guard [OF places_element [OF p a, of ?d] a, of ?d]
  show ?thesis using 1 2 by (auto simp: renderTagEquals_def Let_def s [simplified] p no_arg_def)
qed

lemma placed_tag_starts:
  assumes a: "marks (jsonArrayExpr (rd_dialect r) f) = 0"
  shows "placed_result r (guarded_pieces (rd_dialect r) (jsonArrayExpr (rd_dialect r) f)
     (tag_test_pieces (rd_dialect r) (jsonArrayExpr (rd_dialect r) f) (StartsWithPredicate v))) (renderTagStartsWith f v r)"
proof -
  let ?d = "rd_dialect r" and ?a = "jsonArrayExpr (rd_dialect r) f"
  let ?exact = "''%'' @ quote @ v @ quote @ ''%''" and ?more = "''%'' @ quote @ v @ ''%''"
  obtain s1 r1 where s1: "buildJSONArrayLike ?a ?exact r = (s1, r1)" by fastforce
  obtain s2 r2 where s2: "buildJSONArrayLike ?a ?more r1 = (s2, r2)" by fastforce
  obtain p q1 where p: "addArg (AStr (quote @ v @ quote)) r = (p, q1)" by fastforce
  obtain q q2 where q: "addArg (AStr ?more) q1 = (q, q2)" by fastforce
  note l1 = places_like [OF s1 a] and e = places_element [OF p a, of ?d]
  have d: "rd_dialect r1 = ?d" "rd_dialect q1 = ?d" using places_dialect [OF l1] places_dialect [OF e] by simp_all
  have l2: "lays_out r1 (like_pieces ?d ?a ?more) s2 r2" using places_like [OF s2 a] d by simp
  have 1: "lays_out r (guarded_pieces ?d ?a (Txt ''('' # like_pieces ?d ?a ?exact @ Txt '' OR '' # like_pieces ?d ?a ?more @ [Txt '')'']))
      (wrapWithNullCheck ?d ?a (''('' @ s1 @ '' OR '' @ s2 @ '')'')) r2"
    by (intro places_guard places_before places_append [OF l1] places_after l2 a) (simp_all add: mark_def)
  have l3: "lays_out q1 (like_pieces ?d ?a ?more) (like_before ?d ?a @ q) q2" if "?d = Postgres"
    using places_before [OF marks_exact(3) [OF a] places_arg [OF q], of ?d] that by (simp add: like_pieces_def)
  have 2: "lays_out r (guarded_pieces ?d ?a (Txt ''('' # element_pieces ?d ?a v @ Txt '' OR '' # like_pieces ?d ?a ?more @ [Txt '')'']))
      (wrapWithNullCheck ?d ?a (''('' @ (?a @ '' @> jsonb_build_array('' @ p @ ''::json)'') @ '' OR '' @ (like_before ?d ?a @ q) @ '')'')) q2"
    if "?d = Postgres"
    by (intro places_guard places_before places_append [OF e] places_after l3 a that) (simp_all add: mark_def)
  show ?thesis using 1 2 by (auto simp: renderTagStartsWith_def Let_def s1 [simplified] s2 [simplified] p q [simplified] no_arg_def like_before_def)
qed

lemma placed_comprehension:
  assumes "clean_schema (rd_schema r)"
  shows "placed_result r (condition_pieces (rd_schema r) (rd_dialect r) (ListComprehensionCondition kind name var p)) (renderListComprehension name p r)"
proof (cases "schema_Field (rd_schema r) name")
  case (Some f)
  then have "marks (jsonArrayExpr (rd_dialect r) f) = 0" using marks_array clean_lookup assms by blast
  then show ?thesis
    by (cases p; simp only: condition_pieces.simps Some option.case renderListComprehension_def predicate_expr.case
          renderTagEndsWith_def renderTagContains_def tag_test_pieces.simps(3,4) if_split placed_result_simps)
       (blast intro: placed_tag_like placed_tag_equals placed_tag_starts)+
qed (simp add: renderListComprehension_def)

text \<open>A condition in which no constant stands.\<close>

fun no_constants :: "condition \<Rightarrow> bool" where
  "no_constants (LogicalCondition op c1 c2) \<longleftrightarrow> no_constants c1 \<and> no_constants c2"
| "no_constants (NotCondition c) \<longleftrightarrow> no_constants c"
| "no_constants (ConstantCondition b) \<longleftrightarrow> False"
| "no_constants c \<longleftrightarrow> True"

lemma placed_condition:
  "no_constants c \<Longrightarrow> clean_schema (rd_schema r) \<Longrightarrow>
   placed_result r (condition_pieces (rd_schema r) (rd_dialect r) c) (renderCondition c r)"
proof (induction c arbitrary: r)
  case (LogicalCondition op c1 c2)
  let ?ps = "condition_pieces (rd_schema r) (rd_dialect r)"
  show ?case
  proof (cases "renderCondition c1 r")
    case (Inr xr)
    obtain x r1 where x: "xr = (x, r1)" by (cases xr)
    have 1: "\<not> rr_trivial x" "\<not> rr_unsatisfiable x" "lays_out r (?ps c1) (rr_sql x) r1"
      using LogicalCondition.IH(1) [of r] LogicalCondition.prems by (auto simp: Inr x placed_result_def)
    show ?thesis
    proof (cases "renderCondition c2 r1")
      case (Inr yr)
      obtain y r2 where y: "yr = (y, r2)" by (cases yr)
      have 2: "\<not> rr_trivial y" "\<not> rr_unsatisfiable y" "lays_out r1 (?ps c2) (rr_sql y) r2"
        using LogicalCondition.IH(2) [of r1] LogicalCondition.prems places_dialect [OF 1(3)] by (auto simp: Inr y placed_result_def)
      have "lays_out r (Txt ''('' # ?ps c1 @ Txt sep # ?ps c2 @ [Txt '')'']) (''('' @ rr_sql x @ sep @ rr_sql y @ '')'') r2" if "marks sep = 0" for sep
        using that by (intro places_before places_append [OF 1(3)] places_after 2(3)) (simp_all add: mark_def)
      from this [of "'' AND ''"] this [of "'' OR ''"] show ?thesis
        by (cases op) (simp_all add: \<open>renderCondition c1 r = Inr xr\<close> x Inr y combineAnd_def combineOr_def 1 2 mark_def)
    qed (simp add: Inr x)
  qed simp
next
  case (NotCondition c)
  let ?ps = "condition_pieces (rd_schema r) (rd_dialect r)"
  show ?case
  proof (cases "renderCondition c r")
    case (Inr xr)
    obtain x r1 where x: "xr = (x, r1)" by (cases xr)
    have 1: "\<not> rr_trivial x" "\<not> rr_unsatisfiable x" "lays_out r (?ps c) (rr_sql x) r1"
      using NotCondition.IH [of r] NotCondition.prems by (auto simp: Inr x placed_result_def)
    have "lays_out r (Txt ''NOT ('' # ?ps c @ [Txt '')'']) (''NOT ('' @ rr_sql x @ '')'') r1"
      by (intro places_before places_after 1(3)) (simp_all add: mark_def)
    then show ?thesis by (simp add: Inr x negate_result_def 1)
  qed simp
qed (simp_all add: placed_field_predicate [simplified] placed_comparison placed_in placed_element [simplified]
  placed_contains [simplified] placed_comprehension [simplified])

section \<open>Several filters of one query\<close>

text \<open>A filter that is refused, or compiled to a condition without constants.\<close>

definition constant_free :: "cel_parser \<Rightarrow> 64 word \<Rightarrow> filter_schema \<Rightarrow> string \<Rightarrow> bool" where
  "constant_free cel now sm source = (case Compile cel now sm source of Inl er \<Rightarrow> True | Inr p \<Rightarrow> no_constants (pg_condition p))"

text \<open>What the filters ask for, each in brackets; one that asks for nothing is left out.\<close>

definition in_brackets :: "piece list \<Rightarrow> piece list" where
  "in_brackets ps = (if list_all (\<lambda>p. p = Txt []) ps then [] else Txt ''('' # ps @ [Txt '')''])"

definition filter_pieces :: "cel_parser \<Rightarrow> 64 word \<Rightarrow> filter_schema \<Rightarrow> dialect \<Rightarrow> string \<Rightarrow> piece list" where
  "filter_pieces cel now sm d source =
     (case Compile cel now sm source of Inl er \<Rightarrow> [] | Inr p \<Rightarrow> in_brackets (condition_pieces sm d (pg_condition p)))"

definition filters_pieces :: "cel_parser \<Rightarrow> 64 word \<Rightarrow> filter_schema \<Rightarrow> dialect \<Rightarrow> string list \<Rightarrow> piece list" where
  "filters_pieces cel now sm d fs = concat (map (filter_pieces cel now sm d) fs)"

lemma compile_schema: "Compile cel now sm source = Inr p \<Longrightarrow> pg_schema p = sm"
  by (auto simp: Compile_def split: if_splits option.splits sum.splits)

lemma statement_placed:
  assumes "CompileToStatement cel now sm source \<lparr>ro_Dialect = d, ro_PlaceholderOffset = k\<rparr> = Inr st"
    "constant_free cel now sm source" "clean_schema sm"
  obtains ps where "filter_pieces cel now sm d source = in_brackets ps" "unmarked_texts ps" "st_SQL st = laid d k ps" "st_Args st = values_of ps"
proof -
  obtain p where p: "Compile cel now sm source = Inr p" and st: "renderer_Render (pg_condition p) (newRenderer sm \<lparr>ro_Dialect = d, ro_PlaceholderOffset = k\<rparr>) = Inr st"
    using assms(1) by (auto simp: CompileToStatement_def program_Render_def dest: compile_schema split: sum.splits)
  let ?r = "newRenderer sm \<lparr>ro_Dialect = d, ro_PlaceholderOffset = k\<rparr>" and ?ps = "condition_pieces sm d (pg_condition p)"
  have r: "rd_schema ?r = sm" "rd_dialect ?r = d" "rd_placeholderOffset ?r = k" "rd_placeholderCounter ?r = 0" "rd_args ?r = []"
    by (simp_all add: newRenderer_def)
  have "placed_result ?r (condition_pieces (rd_schema ?r) (rd_dialect ?r) (pg_condition p)) (renderCondition (pg_condition p) ?r)"
    using assms(2,3) p by (intro placed_condition) (simp_all add: constant_free_def r)
  then have "unmarked_texts ?ps \<and> st_SQL st = laid d k ?ps \<and> st_Args st = values_of ?ps"
    using st by (auto simp: renderer_Render_def placed_result_def lays_out_def r split: sum.splits)
  then show thesis using that p by (simp add: filter_pieces_def)
qed

lemma appended_placed:
  assumes "clean_schema sm" "list_all (constant_free cel now sm) fs"
    "AppendConditions cel now sm d fs (wh, args) = Inr (wh', args')"
  shows "concat wh' = concat wh @ laid d (length args) (filters_pieces cel now sm d fs)
    \<and> args' = args @ values_of (filters_pieces cel now sm d fs) \<and> unmarked_texts (filters_pieces cel now sm d fs)"
  using assms(2,3)
proof (induction fs arbitrary: wh args)
  case Nil
  then show ?case by (simp add: filters_pieces_def)
next
  case (Cons f fs)
  obtain st where st: "CompileToStatement cel now sm f \<lparr>ro_Dialect = d, ro_PlaceholderOffset = length args\<rparr> = Inr st"
    using Cons.prems(2) by (auto split: sum.splits)
  obtain ps where ps: "filter_pieces cel now sm d f = in_brackets ps" "unmarked_texts ps" "st_SQL st = laid d (length args) ps" "st_Args st = values_of ps"
    using statement_placed [OF st _ assms(1)] Cons.prems(1) by auto
  have fs: "filters_pieces cel now sm d (f # fs) = in_brackets ps @ filters_pieces cel now sm d fs"
    by (simp add: filters_pieces_def ps(1))
  show ?case
  proof (cases "st_SQL st = []")
    case True
    then have "in_brackets ps = []" by (simp add: in_brackets_def ps(3) laid_empty)
    then show ?thesis using Cons.IH [of wh args] Cons.prems True by (simp add: st fs)
  next
    case False
    then have b: "in_brackets ps = Txt ''('' # ps @ [Txt '')'']" by (simp add: in_brackets_def ps(3) laid_empty)
    have "AppendConditions cel now sm d fs (wh @ [''('' @ st_SQL st @ '')''], args @ st_Args st) = Inr (wh', args')"
      using Cons.prems(2) False by (simp add: st)
    from Cons.IH [OF _ this] Cons.prems(1) show ?thesis by (simp add: fs b ps laid_append mark_def)
  qed
qed

lemma appended_marks:
  assumes "clean_schema sm" "list_all (constant_free cel now sm) fs"
    "AppendConditions cel now sm SQLite fs (wh, args) = Inr (wh', args')"
  obtains s vs where "concat wh' = concat wh @ s" "marks s = length vs" "args' = args @ vs"
  using appended_placed [OF assms] laid_marks [of "filters_pieces cel now sm SQLite fs" SQLite "length args"] by auto

text \<open>
  C36. Filters without constants, appended to a query one after the other: what is appended is exactly what
  the filters ask for, in its order, with a placeholder where a value stands, and the arguments added are
  those values, in the same order, so that the n-th placeholder is bound to the n-th value, also on Postgres,
  where the numbers count on from the arguments the query has already, over all its filters. No text between
  the values has a question mark, so that there are no other placeholders.
\<close>
theorem filters_place_their_arguments:
  assumes "sm = NewSchema \<or> sm = NewAttachmentSchema" "list_all (constant_free cel now sm) fs"
    "AppendConditions cel now sm d fs (wh, args) = Inr (wh', args')"
  shows "concat wh' = concat wh @ laid d (length args) (filters_pieces cel now sm d fs)
    \<and> args' = args @ values_of (filters_pieces cel now sm d fs) \<and> unmarked_texts (filters_pieces cel now sm d fs)"
  using appended_placed assms clean_schemas by metis

definition sample_parser :: cel_parser where
  "sample_parser sm source =
     (if source = ''a'' then Some (ECall None ''@in'' [EIdent ''tag'', EList [EConst (CStr ''x''), EConst (CStr ''y'')]])
      else if source = ''b'' then Some (ECall (Some (EIdent ''content'')) ''contains'' [EConst (CStr ''z'')])
      else None)"

lemma filters_place_their_arguments_witness:
  "\<exists>wh' args'. AppendConditions sample_parser 0 NewSchema Postgres [''a'', ''b''] ([''id = $1''], [AInt 7]) = Inr (wh', args') \<and>
     args' = [AInt 7, AStr (quote @ ''x'' @ quote), AStr (''%'' @ quote @ ''x/%''), AStr (quote @ ''y'' @ quote),
       AStr (''%'' @ quote @ ''y/%''), AStr ''%z%''] \<and>
     concat wh' = ''id = $1'' @ laid Postgres 1 (filters_pieces sample_parser 0 NewSchema Postgres [''a'', ''b''])"
proof -
  let ?res = "AppendConditions sample_parser 0 NewSchema Postgres [''a'', ''b''] ([''id = $1''], [AInt 7])"
  let ?ps = "filters_pieces sample_parser 0 NewSchema Postgres [''a'', ''b'']"
  have n: "case ?res of Inl er \<Rightarrow> False | Inr (wh, args) \<Rightarrow> True" by code_simp
  then obtain wh' args' where r: "?res = Inr (wh', args')" by (cases ?res) auto
  have c: "list_all (constant_free sample_parser 0 NewSchema) [''a'', ''b'']" by code_simp
  have v: "values_of ?ps = [AStr (quote @ ''x'' @ quote), AStr (''%'' @ quote @ ''x/%''), AStr (quote @ ''y'' @ quote),
       AStr (''%'' @ quote @ ''y/%''), AStr ''%z%'']" by code_simp
  show ?thesis using filters_place_their_arguments [OF _ c r] r unfolding v by auto
qed

section \<open>An operand that constants make superfluous\<close>

definition text_test :: "string \<Rightarrow> expr" where
  "text_test x = ECall (Some (EIdent ''content'')) ''contains'' [EConst (CStr x)]"

definition half_constant :: "string \<Rightarrow> string \<Rightarrow> expr" where
  "half_constant a b = ECall None ''_||_'' [ECall None ''_&&_'' [text_test a, EConst (CBool False)], text_test b]"

lemma half_constant_condition:
  "buildCondition now NewSchema (half_constant a b) =
   Inr (LogicalCondition LogicalOr (LogicalCondition LogicalAnd (ContainsCondition ''content'' a) (ConstantCondition False))
          (ContainsCondition ''content'' b))"
proof -
  obtain f where f: "schema_Field NewSchema ''content'' = Some f" "fd_SupportsContains f"
    by (simp add: schema_Field_def NewSchema_def plain_field_def)
  show ?thesis
    by (simp add: half_constant_def text_test_def buildContainsCondition_def getIdentName_def f text_argument_def getConstValue_def)
qed

lemma content_field:
  "\<exists>f. schema_Field NewSchema ''content'' = Some f \<and> columnExpr f Postgres = ''memo.content'' \<and> clean_field f"
  by (simp add: schema_Field_def NewSchema_def plain_field_def columnExpr_def qualifyColumn_def clean_field_def mark_def)

text \<open>
  When a constant decides a part of a filter, the SQL drops that part but its arguments stay: in
  \<open>(content.contains(a) && false) || content.contains(b)\<close> the only placeholder left is the one for \<open>b\<close>, and the
  first of the two arguments is the one for \<open>a\<close>. On Postgres the placeholder is then \<open>$2\<close> and nothing names \<open>$1\<close>.
\<close>
theorem discarded_operand_keeps_its_argument:
  "(\<exists>c sql. buildCondition now NewSchema (half_constant a b) = Inr c \<and>
     renderer_Render c (newRenderer NewSchema \<lparr>ro_Dialect = SQLite, ro_PlaceholderOffset = 0\<rparr>) =
       Inr \<lparr>st_SQL = sql, st_Args = [AStr (''%'' @ a @ ''%''), AStr (''%'' @ b @ ''%'')]\<rparr> \<and> marks sql = 1) \<and>
   (\<exists>c. buildCondition now NewSchema (half_constant a b) = Inr c \<and>
     renderer_Render c (newRenderer NewSchema \<lparr>ro_Dialect = Postgres, ro_PlaceholderOffset = 0\<rparr>) =
       Inr \<lparr>st_SQL = ''memo.content ILIKE $2'', st_Args = [AStr (''%'' @ a @ ''%''), AStr (''%'' @ b @ ''%'')]\<rparr>)"
proof -
  obtain f where f: "schema_Field NewSchema ''content'' = Some f" "columnExpr f Postgres = ''memo.content''" "clean_field f"
    using content_field by blast
  have m: "marks (columnExpr f SQLite) = 0" by (rule marks_columnExpr [OF f(3)])
  have two: "dec (Suc (Suc 0)) = ''2''" by code_simp
  show ?thesis
    by (simp add: half_constant_condition renderer_Render_def renderContainsCondition_def newRenderer_def f m two text_defs
        placeholder_def bump_def combineAnd_def combineOr_def plain_result_def unsatisfiable_result_def mark_def)
qed

end
