(* ===== verification/DataEditor.thy ===== *)
theory DataEditor
  imports Dashboard CronParser
begin

text \<open>
  The data editor of the administrators, people's preferences and accounts in \<open>internal/handlers/api.go\<close>, and
  time off, \<open>internal/handlers/timeoff.go\<close> over \<open>internal/database/timeoff.go\<close>.
\<close>

section \<open>Decoded objects\<close>

text \<open>
  An object decoded into \<open>map[string]any\<close>. How \<open>%v\<close> prints an array or an object, how a double is encoded, and the
  text of a driver's error are the parameters \<open>texts\<close>. Numbers are whole here and below 1e21, where \<open>%v\<close>
  would change to an exponent.
\<close>

type_synonym data = "(string \<times> jval) list"

record texts =
  tx_any :: "jval \<Rightarrow> string"
  tx_hours :: "64 word \<Rightarrow> jval"
  tx_driver :: string

definition getString :: "texts \<Rightarrow> data \<Rightarrow> string \<Rightarrow> string" where
  "getString tx m key =
     (case map_of m key of
        None \<Rightarrow> []
      | Some v \<Rightarrow>
          (case v of
             JStr s \<Rightarrow> s
           | JInt n \<Rightarrow> itoa n
           | JBool b \<Rightarrow> if b then ''true'' else ''false''
           | JNull \<Rightarrow> ''<nil>''
           | _ \<Rightarrow> tx_any tx v))"

definition getBool :: "data \<Rightarrow> string \<Rightarrow> bool \<Rightarrow> bool" where
  "getBool m key defaultVal =
     (case map_of m key of
        None \<Rightarrow> defaultVal
      | Some v \<Rightarrow>
          (case v of
             JBool b \<Rightarrow> b
           | JStr s \<Rightarrow> s = ''true'' \<or> s = ''yes'' \<or> s = ''1'' \<or> s = ''Yes''
           | JInt n \<Rightarrow> n \<noteq> 0
           | _ \<Rightarrow> defaultVal))"

text \<open>What \<open>strconv.Atoi\<close> returns beside its error: 0, or the nearest number of 64 bits.\<close>

definition atoi_value :: "string \<Rightarrow> int" where
  "atoi_value s =
     (case Atoi s of
        Some n \<Rightarrow> n
      | None \<Rightarrow>
          (let (neg, ds) = (case s of [] \<Rightarrow> (False, s)
             | c # r \<Rightarrow> if c = CHR ''-'' then (True, r) else if c = CHR ''+'' then (False, r) else (False, s))
           in if ds = [] \<or> \<not> list_all is_digit ds then 0 else if neg then - (2 ^ 63) else 2 ^ 63 - 1))"

definition getInt :: "data \<Rightarrow> string \<Rightarrow> int" where
  "getInt m key =
     (case map_of m key of
        None \<Rightarrow> 0
      | Some v \<Rightarrow> (case v of JInt n \<Rightarrow> n | JStr s \<Rightarrow> atoi_value s | _ \<Rightarrow> 0))"

definition boolToInt :: "bool \<Rightarrow> int" where
  "boolToInt b = (if b then 1 else 0)"

section \<open>Saving an entity\<close>

text \<open>
  \<open>INSERT OR REPLACE\<close>: the row of the key goes, the new one comes last, and a column the statement does not name
  has its default.
\<close>

definition replace_row :: "('r \<Rightarrow> string) \<Rightarrow> 'r \<Rightarrow> 'r list \<Rightarrow> 'r list" where
  "replace_row key row rows = filter (\<lambda>r. key r \<noteq> key row) rows @ [row]"

definition student_of_data :: "texts \<Rightarrow> data \<Rightarrow> student_row" where
  "student_of_data tx m =
     (let s = (\<lambda>k. getString tx m k); c = (\<lambda>k. Some (getString tx m k)) in
      \<lparr>st_id = s ''id'', st_first_name = s ''first_name'', st_last_name = s ''last_name'', st_grade = c ''grade'',
       st_school = c ''school'', st_parent_id = c ''parent_id'', st_email = c ''email'', st_phone = c ''phone'',
       st_address = c ''address'', st_notes = c ''notes'', st_dob = c ''dob'', st_birthplace = c ''birthplace'',
       st_years_in_us = c ''years_in_us'', st_first_language = c ''first_language'',
       st_previous_schools = c ''previous_schools'', st_courses_outside = c ''courses_outside'',
       st_english_name = c ''english_name'', st_package = c ''package'', st_major = c ''major'',
       st_enroll_term = c ''enroll_term'', st_graduation = c ''graduation'', st_profile_status = [],
       st_active = boolToInt (getBool m ''active'' True), st_deleted = boolToInt (getBool m ''deleted'' False),
       st_deleted_at = None, st_deleted_by = None, st_row_hash = None, st_pin_hash = None, st_require_pin = 0,
       st_personal_pin = None, st_pin_generated_date = None\<rparr>)"

definition parent_of_data :: "texts \<Rightarrow> data \<Rightarrow> parent_row" where
  "parent_of_data tx m =
     (let s = (\<lambda>k. getString tx m k); c = (\<lambda>k. Some (getString tx m k)) in
      \<lparr>pa_id = s ''id'', pa_first_name = s ''first_name'', pa_last_name = s ''last_name'', pa_email = c ''email'',
       pa_phone = c ''phone'', pa_email2 = c ''email2'', pa_phone2 = c ''phone2'', pa_address = c ''address'',
       pa_notes = c ''notes'', pa_deleted = boolToInt (getBool m ''deleted'' False), pa_deleted_at = None,
       pa_deleted_by = None, pa_row_hash = None\<rparr>)"

definition teacher_of_data :: "texts \<Rightarrow> data \<Rightarrow> teacher_row" where
  "teacher_of_data tx m =
     (let s = (\<lambda>k. getString tx m k); c = (\<lambda>k. Some (getString tx m k)) in
      \<lparr>te_id = s ''id'', te_first_name = s ''first_name'', te_last_name = s ''last_name'', te_email = c ''email'',
       te_phone = c ''phone'', te_address = c ''address'', te_subjects = c ''subjects'',
       te_active = boolToInt (getBool m ''active'' True), te_deleted = boolToInt (getBool m ''deleted'' False),
       te_deleted_at = None, te_deleted_by = None, te_row_hash = None\<rparr>)"

definition room_of_data :: "texts \<Rightarrow> data \<Rightarrow> room_row" where
  "room_of_data tx m =
     \<lparr>ro_id = getString tx m ''id'', ro_name = getString tx m ''name'', ro_capacity = Some (getInt m ''capacity''),
      ro_notes = Some (getString tx m ''notes''), ro_deleted = boolToInt (getBool m ''deleted'' False),
      ro_deleted_at = None, ro_deleted_by = None, ro_row_hash = None\<rparr>"

definition schedule_of_data :: "texts \<Rightarrow> data \<Rightarrow> schedule_row" where
  "schedule_of_data tx m =
     (let s = (\<lambda>k. getString tx m k); c = (\<lambda>k. Some (getString tx m k)) in
      \<lparr>sc_id = s ''id'', sc_day_of_week = s ''day_of_week'', sc_start_time = s ''start_time'', sc_end_time = s ''end_time'',
       sc_teacher_id = c ''teacher_id'', sc_room_id = c ''room_id'', sc_subject = c ''subject'',
       sc_student_ids = c ''student_ids'', sc_effective_from = c ''effective_from'', sc_effective_until = c ''effective_until'',
       sc_type = (if s ''type'' = [] then ''class'' else s ''type''), sc_deleted = boolToInt (getBool m ''deleted'' False),
       sc_deleted_at = None, sc_deleted_by = None, sc_row_hash = None\<rparr>)"

definition insert_entity :: "texts \<Rightarrow> env \<Rightarrow> classdb \<Rightarrow> string + classdb" where
  "insert_entity tx e db = (if ev_faults e I_entity then Inl (tx_driver tx) else Inr db)"

definition named :: "texts \<Rightarrow> data \<Rightarrow> bool" where
  "named tx m \<longleftrightarrow> getString tx m ''first_name'' \<noteq> [] \<and> getString tx m ''last_name'' \<noteq> []"

definition saveEntity :: "texts \<Rightarrow> env \<Rightarrow> string \<Rightarrow> data \<Rightarrow> classdb \<Rightarrow> string + classdb" where
  "saveEntity tx e entityType m db =
     (if getString tx m ''id'' = [] then Inl ''ID is required''
      else if entityType = ''students'' then
        if \<not> named tx m then Inl ''first_name and last_name are required''
        else insert_entity tx e (db\<lparr>db_students := replace_row st_id (student_of_data tx m) (db_students db)\<rparr>)
      else if entityType = ''parents'' then
        if \<not> named tx m then Inl ''first_name and last_name are required''
        else insert_entity tx e (db\<lparr>db_parents := replace_row pa_id (parent_of_data tx m) (db_parents db)\<rparr>)
      else if entityType = ''teachers'' then
        if \<not> named tx m then Inl ''first_name and last_name are required''
        else insert_entity tx e (db\<lparr>db_teachers := replace_row te_id (teacher_of_data tx m) (db_teachers db)\<rparr>)
      else if entityType = ''rooms'' then
        if getString tx m ''name'' = [] then Inl ''name is required''
        else insert_entity tx e (db\<lparr>db_rooms := replace_row ro_id (room_of_data tx m) (db_rooms db)\<rparr>)
      else if entityType = ''schedules'' then
        if getString tx m ''day_of_week'' = [] \<or> getString tx m ''start_time'' = [] \<or> getString tx m ''end_time'' = []
        then Inl ''day_of_week, start_time, and end_time are required''
        else insert_entity tx e (replace_schedule (schedule_of_data tx m) db)
      else Inl (''unknown entity type: '' @ entityType))"

section \<open>Deleting an entity\<close>

text \<open>A row is marked deleted with the time and the person.\<close>

definition mark_deleted :: "env \<Rightarrow> string \<Rightarrow> string \<Rightarrow> string \<Rightarrow> classdb \<Rightarrow> classdb" where
  "mark_deleted e table i who db =
     (let now = Some (ev_now e); by0 = Some who in
      if table = ''students'' then db\<lparr>db_students := update_where (\<lambda>r. st_id r = i)
        (\<lambda>r. r\<lparr>st_deleted := 1, st_deleted_at := now, st_deleted_by := by0\<rparr>) (db_students db)\<rparr>
      else if table = ''parents'' then db\<lparr>db_parents := update_where (\<lambda>r. pa_id r = i)
        (\<lambda>r. r\<lparr>pa_deleted := 1, pa_deleted_at := now, pa_deleted_by := by0\<rparr>) (db_parents db)\<rparr>
      else if table = ''teachers'' then db\<lparr>db_teachers := update_where (\<lambda>r. te_id r = i)
        (\<lambda>r. r\<lparr>te_deleted := 1, te_deleted_at := now, te_deleted_by := by0\<rparr>) (db_teachers db)\<rparr>
      else if table = ''rooms'' then db\<lparr>db_rooms := update_where (\<lambda>r. ro_id r = i)
        (\<lambda>r. r\<lparr>ro_deleted := 1, ro_deleted_at := now, ro_deleted_by := by0\<rparr>) (db_rooms db)\<rparr>
      else db\<lparr>db_schedules := update_where (\<lambda>r. sc_id r = i)
        (\<lambda>r. r\<lparr>sc_deleted := 1, sc_deleted_at := now, sc_deleted_by := by0\<rparr>) (db_schedules db)\<rparr>)"

record crud_request =
  cq_Action :: string
  cq_Type :: string
  cq_ID :: string
  cq_Data :: "data option"

definition entity_tables :: "string set" where
  "entity_tables = {''students'', ''parents'', ''teachers'', ''rooms'', ''schedules''}"

definition HandleDataCRUD :: "texts \<Rightarrow> env \<Rightarrow> request \<Rightarrow> crud_request option \<Rightarrow> app \<Rightarrow> response \<times> app" where
  "HandleDataCRUD tx e r req a =
     (if rq_Method r \<noteq> ''POST'' then (method_not_allowed, a)
      else case req of
        None \<Rightarrow> (json_error 400 ''Invalid request'', a)
      | Some q \<Rightarrow>
          if cq_Action q = ''delete'' then
            (let (sess, a) = GetSession e r a in
             case sess of
               None \<Rightarrow> (json_error 403 ''Superadmin access required'', a)
             | Some s \<Rightarrow>
                 if \<not> ss_IsSuperAdmin s then (json_error 403 ''Superadmin access required'', a)
                 else if cq_ID q = [] then (json_error 400 ''ID is required'', a)
                 else if cq_Type q \<notin> entity_tables then (json_error 400 ''Unknown type'', a)
                 else if ev_faults e D_entity then (json_error 500 ''Database error'', a)
                 else (ok_answer, map_db (mark_deleted e (cq_Type q) (cq_ID q) (acting_name s)) a))
          else if cq_Action q = ''save'' then
            (case cq_Data q of
               None \<Rightarrow> (json_error 400 ''Data is required'', a)
             | Some m \<Rightarrow>
                 (case saveEntity tx e (cq_Type q) m (ap_DB a) of
                    Inl msg \<Rightarrow> (json_error 400 msg, a)
                  | Inr db \<Rightarrow> (ok_answer, a\<lparr>ap_DB := db\<rparr>)))
          else (json_error 400 ''Unknown action'', a))"

section \<open>Passwords\<close>

definition ResetPassword :: "env \<Rightarrow> string \<Rightarrow> string \<Rightarrow> app \<Rightarrow> app option" where
  "ResetPassword e username newPassword a =
     (case GetUser a username of
        None \<Rightarrow> None
      | Some u \<Rightarrow>
          (case ev_bcrypt e newPassword of
             None \<Rightarrow> None
           | Some hash \<Rightarrow> Some (a\<lparr>ap_Users := map (\<lambda>x. if mu_Username x = username then x\<lparr>mu_PasswordHash := hash\<rparr> else x)
                            (ap_Users a)\<rparr>)))"

record reset_request =
  rr_Type :: string
  rr_ID :: string
  rr_Password :: string

definition person_of :: "env \<Rightarrow> classdb \<Rightarrow> string \<Rightarrow> string \<Rightarrow> (string \<times> string \<times> string) option" where
  "person_of e db table i =
     (if ev_faults e Q_people then None
      else if table = ''students'' then
        map_option (\<lambda>s. (st_first_name s, st_last_name s, coalesce (st_email s))) (List.find (\<lambda>s. st_id s = i) (db_students db))
      else if table = ''parents'' then
        map_option (\<lambda>p. (pa_first_name p, pa_last_name p, coalesce (pa_email p))) (List.find (\<lambda>p. pa_id p = i) (db_parents db))
      else map_option (\<lambda>t. (te_first_name t, te_last_name t, coalesce (te_email t))) (List.find (\<lambda>t. te_id t = i) (db_teachers db)))"

text \<open>The note store is configured.\<close>

definition HandlePasswordReset :: "texts \<Rightarrow> env \<Rightarrow> request \<Rightarrow> reset_request option \<Rightarrow> app \<Rightarrow> response \<times> app" where
  "HandlePasswordReset tx e r req a =
     (if rq_Method r \<noteq> ''POST'' then (method_not_allowed, a)
      else case req of
        None \<Rightarrow> (json_error 400 ''Invalid request'', a)
      | Some q \<Rightarrow>
          if rr_ID q = [] \<or> rr_Password q = [] then (json_error 400 ''ID and password are required'', a)
          else if length (rr_Password q) < 4 then (json_error 400 ''Password must be at least 4 characters'', a)
          else if rr_Type q \<notin> {''students'', ''parents'', ''teachers''}
          then (json_error 400 ''Type must be students, parents, or teachers'', a)
          else case person_of e (ap_DB a) (rr_Type q) (rr_ID q) of
            None \<Rightarrow> (json_error 404 (if rr_Type q = ''students'' then ''Student not found''
                       else if rr_Type q = ''parents'' then ''Parent not found'' else ''Teacher not found''), a)
          | Some (f, l, email) \<Rightarrow>
              (let username = to_lower (rr_ID q); nickname = full_name f l;
                   a = (case EnsureUser e username nickname email (rr_Password q) a of None \<Rightarrow> a | Some b \<Rightarrow> b)
               in case ResetPassword e username (rr_Password q) a of
                    None \<Rightarrow> (json_error 500 (''Password reset failed: '' @ tx_driver tx), a)
                  | Some b \<Rightarrow> (writeJSON 200 [(''ok'', JBool True),
                      (''message'', JStr (''Password set for '' @ nickname @ '' ('' @ username @ '')'')), (''username'', JStr username)], b)))"

section \<open>Preferences\<close>

definition own_preference :: "string \<Rightarrow> string \<Rightarrow> preference_row \<Rightarrow> bool" where
  "own_preference userID userType p \<longleftrightarrow> up_user_id p = userID \<and> up_user_type p = userType"

text \<open>\<open>INSERT .. ON CONFLICT DO UPDATE\<close> on the key of user, type and preference.\<close>

definition put_preference :: "env \<Rightarrow> string \<Rightarrow> string \<Rightarrow> string \<times> string \<Rightarrow> preference_row list \<Rightarrow> preference_row list" where
  "put_preference e userID userType kv rows =
     (let mine = (\<lambda>p. own_preference userID userType p \<and> up_pref_key p = fst kv) in
      if \<exists>p \<in> set rows. mine p
      then update_where mine (\<lambda>p. p\<lparr>up_pref_value := snd kv, up_updated_at := ev_now e\<rparr>) rows
      else rows @ [\<lparr>up_user_id = userID, up_user_type = userType, up_pref_key = fst kv, up_pref_value = snd kv,
                    up_updated_at = ev_now e\<rparr>])"

text \<open>The map of a request is a list with distinct keys, in the order in which the loop takes them.\<close>

definition HandlePreferences :: "env \<Rightarrow> request \<Rightarrow> (string \<times> string) list option \<Rightarrow> app \<Rightarrow> response \<times> app" where
  "HandlePreferences e r req a =
     (let (sess, a) = GetSession e r a in
      case sess of
        None \<Rightarrow> (json_error 401 ''Not authenticated'', a)
      | Some s \<Rightarrow>
          if rq_Method r = ''GET'' then
            if ev_faults e Q_preference then (json_error 500 ''Database error'', a)
            else (answer_json 200 (JObj (map (\<lambda>p. (up_pref_key p, JStr (up_pref_value p)))
                   (filter (own_preference (ss_Username s) (ss_UserType s)) (db_preferences (ap_DB a))))), a)
          else if rq_Method r = ''POST'' then
            (case req of
               None \<Rightarrow> (json_error 400 ''Invalid request'', a)
             | Some kvs \<Rightarrow>
                 if kvs \<noteq> [] \<and> ev_faults e I_preference then (json_error 500 ''Save failed'', a)
                 else (ok_answer, map_db (\<lambda>db. db\<lparr>db_preferences :=
                        fold (put_preference e (ss_Username s) (ss_UserType s)) kvs (db_preferences db)\<rparr>) a))
          else (method_not_allowed, a))"

section \<open>Time off\<close>

definition same_timeoff :: "string \<Rightarrow> string \<Rightarrow> string \<Rightarrow> string \<Rightarrow> timeoff_row \<Rightarrow> bool" where
  "same_timeoff userID userType date scheduleType t \<longleftrightarrow>
     tf_user_id t = userID \<and> tf_user_type t = userType \<and> tf_date t = date \<and> tf_schedule_type t = scheduleType"

definition timeoff_types :: "string set" where
  "timeoff_types = {''holiday'', ''sick'', ''personal''}"

text \<open>\<open>INSERT OR REPLACE\<close> takes a new identifier, and the row with the same user, date and schedule type goes.\<close>

definition CreateTimeOff :: "env \<Rightarrow> timeoff_row \<Rightarrow> classdb \<Rightarrow> (int \<times> classdb) option" where
  "CreateTimeOff e t db =
     (if ev_faults e I_timeoff \<or> tf_type t \<notin> timeoff_types then None
      else let tab = delete_tab (same_timeoff (tf_user_id t) (tf_user_type t) (tf_date t) (tf_schedule_type t)) (db_timeoff db)
           in Some (tb_seq tab + 1, db\<lparr>db_timeoff := insert_row (mk_timeoff t) tab\<rparr>))"

text \<open>An update that would give two rows one key violates it.\<close>

definition UpdateTimeOff :: "env \<Rightarrow> int \<Rightarrow> string \<Rightarrow> string \<Rightarrow> 64 word \<Rightarrow> string \<Rightarrow> classdb \<Rightarrow> classdb option" where
  "UpdateTimeOff e i typ scheduleType hours notes0 db =
     (let tab = db_timeoff db;
          tab' = update_tab (\<lambda>t. tf_id t = i)
            (\<lambda>t. t\<lparr>tf_type := typ, tf_schedule_type := scheduleType, tf_hours := hours, tf_notes := Some notes0\<rparr>) tab
      in if ev_faults e U_timeoff
            \<or> (\<exists>t \<in> set (tb_rows tab). tf_id t = i \<and> (typ \<notin> timeoff_types
                 \<or> (\<exists>u \<in> set (tb_rows tab). tf_id u \<noteq> i \<and> same_timeoff (tf_user_id t) (tf_user_type t) (tf_date t) scheduleType u)))
         then None else Some (db\<lparr>db_timeoff := tab'\<rparr>))"

definition DeleteTimeOff :: "env \<Rightarrow> int \<Rightarrow> classdb \<Rightarrow> classdb option" where
  "DeleteTimeOff e i db =
     (if ev_faults e D_timeoff then None else Some (db\<lparr>db_timeoff := delete_tab (\<lambda>t. tf_id t = i) (db_timeoff db)\<rparr>))"

definition unless_empty :: "string \<Rightarrow> bool \<Rightarrow> bool" where
  "unless_empty s b \<longleftrightarrow> s = [] \<or> b"

text \<open>Rows equal in date and user stay in the order of the table.\<close>

definition ListTimeOff :: "env \<Rightarrow> string \<Rightarrow> string \<Rightarrow> string \<Rightarrow> string \<Rightarrow> classdb \<Rightarrow> timeoff_row list option" where
  "ListTimeOff e userID userType fromDate toDate db =
     (if ev_faults e Q_timeoff then None
      else let rows = filter (\<lambda>t. unless_empty userID (tf_user_id t = userID) \<and> unless_empty userType (tf_user_type t = userType)
                        \<and> unless_empty fromDate (fromDate \<le> tf_date t) \<and> unless_empty toDate (tf_date t \<le> toDate))
                        (tb_rows (db_timeoff db))
           in Some (rev (sort_key tf_date (rev (sort_key tf_user_id rows)))))"

definition timeoff_json :: "texts \<Rightarrow> timeoff_row \<Rightarrow> jval" where
  "timeoff_json tx t = JObj [(''id'', JInt (tf_id t)), (''user_id'', JStr (tf_user_id t)), (''user_type'', JStr (tf_user_type t)),
     (''date'', JStr (tf_date t)), (''type'', JStr (tf_type t)), (''schedule_type'', JStr (tf_schedule_type t)),
     (''hours'', tx_hours tx (tf_hours t)), (''notes'', JStr (coalesce (tf_notes t))),
     (''created_by'', JStr (coalesce (tf_created_by t))), (''created_at'', JStr (fmt_ts (tf_created_at t)))]"

definition timeoff_answer :: "texts \<Rightarrow> timeoff_row list option \<Rightarrow> response" where
  "timeoff_answer tx rows = (case rows of None \<Rightarrow> db_error | Some ts \<Rightarrow> answer_json 200 (JArr (map (timeoff_json tx) ts)))"

definition HandleTimeOffList :: "texts \<Rightarrow> env \<Rightarrow> request \<Rightarrow> app \<Rightarrow> response" where
  "HandleTimeOffList tx e r a =
     (if rq_Method r \<noteq> ''GET'' then method_not_allowed
      else timeoff_answer tx (ListTimeOff e (rq_Query r ''user_id'') (rq_Query r ''user_type'') (rq_Query r ''from'')
             (rq_Query r ''to'') (ap_DB a)))"

record timeoff_request =
  tq_ID :: int
  tq_UserID :: string
  tq_UserType :: string
  tq_Date :: string
  tq_Type :: string
  tq_ScheduleType :: string
  tq_Hours :: "64 word"
  tq_Notes :: string

definition timeoff_of :: "env \<Rightarrow> string \<Rightarrow> timeoff_request \<Rightarrow> timeoff_row" where
  "timeoff_of e createdBy q = \<lparr>tf_id = 0, tf_user_id = tq_UserID q, tf_user_type = tq_UserType q, tf_date = tq_Date q,
     tf_type = tq_Type q, tf_schedule_type = tq_ScheduleType q, tf_hours = tq_Hours q, tf_notes = Some (tq_Notes q),
     tf_created_by = Some createdBy, tf_created_at = ev_now e\<rparr>"

definition HandleTimeOffSave :: "env \<Rightarrow> request \<Rightarrow> timeoff_request option \<Rightarrow> app \<Rightarrow> response \<times> app" where
  "HandleTimeOffSave e r req a =
     (if rq_Method r \<noteq> ''POST'' then (method_not_allowed, a)
      else case req of
        None \<Rightarrow> (api_error 400 ''Invalid request'', a)
      | Some q \<Rightarrow>
          if tq_UserID q = [] \<or> tq_Date q = [] \<or> tq_Type q = [] then (api_error 400 ''user_id, date, and type are required'', a)
          else if tq_Type q \<notin> timeoff_types then (api_error 400 ''type must be holiday, sick, or personal'', a)
          else let (sess, a) = GetSession e r a; createdBy = (case sess of None \<Rightarrow> ''admin'' | Some s \<Rightarrow> acting_name s) in
            if 0 < tq_ID q then
              (case UpdateTimeOff e (tq_ID q) (tq_Type q) (tq_ScheduleType q) (tq_Hours q) (tq_Notes q) (ap_DB a) of
                 None \<Rightarrow> (db_error, a)
               | Some db \<Rightarrow> (writeJSON 200 [(''ok'', JBool True), (''id'', JInt (tq_ID q))], a\<lparr>ap_DB := db\<rparr>))
            else
              (case CreateTimeOff e (timeoff_of e createdBy q) (ap_DB a) of
                 None \<Rightarrow> (db_error, a)
               | Some (i, db) \<Rightarrow> (writeJSON 200 [(''ok'', JBool True), (''id'', JInt i)], a\<lparr>ap_DB := db\<rparr>)))"

definition HandleTimeOffDelete :: "env \<Rightarrow> request \<Rightarrow> int option \<Rightarrow> app \<Rightarrow> response \<times> app" where
  "HandleTimeOffDelete e r req a =
     (if rq_Method r \<noteq> ''POST'' then (method_not_allowed, a)
      else case req of
        None \<Rightarrow> (api_error 400 ''Invalid request'', a)
      | Some i \<Rightarrow> finish_db a (DeleteTimeOff e i (ap_DB a)) (\<lambda>x. x))"

definition HandleDashboardMyTimeOff :: "texts \<Rightarrow> env \<Rightarrow> request \<Rightarrow> app \<Rightarrow> response \<times> app" where
  "HandleDashboardMyTimeOff tx e r a =
     (if rq_Method r \<noteq> ''GET'' then (method_not_allowed, a)
      else let (sess, a) = GetSession e r a in
        case sess of
          None \<Rightarrow> (api_error 401 ''Not authenticated'', a)
        | Some s \<Rightarrow> (timeoff_answer tx (ListTimeOff e (ss_EntityID s) (ss_UserType s) (rq_Query r ''from'') (rq_Query r ''to'') (ap_DB a)), a))"

end
