(* ===== verification/Profiles.thy ===== *)
theory Profiles
  imports DataEditor
begin

text \<open>
  The profiles of students, parents and teachers, \<open>internal/handlers/profile.go\<close>, with the values and the
  automatic tasks of \<open>internal/database/tracker.go\<close> that saving a profile leads to.
\<close>

section \<open>Values and automatic tasks\<close>

text \<open>
  The latest response of a student to each item, for the items of the center. A response without notes makes
  \<open>Scan\<close> fail.
\<close>

definition latest_response :: "classdb \<Rightarrow> string \<Rightarrow> response_row \<Rightarrow> bool" where
  "latest_response db sid r \<longleftrightarrow> tr_student_id r = sid
     \<and> (\<forall>x \<in> set (tb_rows (db_responses db)). tr_student_id x = sid \<and> tr_item_id x = tr_item_id r \<longrightarrow> tr_id x \<le> tr_id r)"

definition GetLatestTrackerValues :: "env \<Rightarrow> string \<Rightarrow> classdb \<Rightarrow> (int \<times> string) list option" where
  "GetLatestTrackerValues e sid db =
     (let rows = filter (\<lambda>r. latest_response db sid r \<and> (\<exists>t \<in> set (tb_rows (db_tasks db)). ti_id t = tr_item_id r \<and> ti_scope t = 1))
                   (tb_rows (db_responses db))
      in if ev_faults e Q_responses \<or> (\<exists>r \<in> set rows. tr_notes r = None) then None
         else Some (map (\<lambda>r. (tr_item_id r, coalesce (tr_notes r))) rows))"

definition GetGlobalTrackerItems :: "env \<Rightarrow> classdb \<Rightarrow> task_item list option" where
  "GetGlobalTrackerItems e db = (if ev_faults e Q_tasks then None else Some (GetCenterTaskItems db))"

text \<open>
  The values are a list in the order in which the loop takes the map; an item that is not an active one of the
  center, or has no name, is left out.
\<close>

definition item_name :: "classdb \<Rightarrow> int \<Rightarrow> string" where
  "item_name db i = (case map_of (rev (map (\<lambda>t. (tk_ID t, tk_Name t)) (GetCenterTaskItems db))) i of None \<Rightarrow> [] | Some n \<Rightarrow> n)"

fun save_values :: "env \<Rightarrow> string \<Rightarrow> string \<Rightarrow> (int \<Rightarrow> string) \<Rightarrow> (int \<times> string) list \<Rightarrow> classdb \<Rightarrow> classdb option" where
  "save_values e sid name items [] db = Some db"
| "save_values e sid name items ((i, notes0) # vs) db =
     (if notes0 = [] \<or> items i = [] then save_values e sid name items vs db
      else case insert_response e (new_response e sid name ''global'' i (items i) ''done'' (Some notes0) None) db of
        None \<Rightarrow> None
      | Some db \<Rightarrow> save_values e sid name items vs db)"

definition SaveProfileTrackerValues :: "env \<Rightarrow> string \<Rightarrow> string \<Rightarrow> (int \<times> string) list \<Rightarrow> classdb \<Rightarrow> classdb option" where
  "SaveProfileTrackerValues e sid name values db =
     (if values = [] then Some db
      else if ev_faults e Q_tasks \<or> ev_faults e Begin_tx then None
      else case save_values e sid name (item_name db) values db of
        None \<Rightarrow> None
      | Some db' \<Rightarrow> if ev_faults e Commit_tx then None else Some db')"

definition shouldAssignForGrade :: "string \<Rightarrow> string \<Rightarrow> int \<Rightarrow> bool" where
  "shouldAssignForGrade name category grade =
     (if grade = 0 then True
      else if contains name ''PSAT 8/9'' then grade \<le> 9
      else if contains name ''PSAT 10'' then 10 \<le> grade
      else if contains name ''PSAT 11'' \<or> contains name ''NMSQT'' then 11 \<le> grade
      else if category = ''SAT'' then 10 \<le> grade
      else if category = ''AP'' then 9 \<le> grade
      else True)"

definition assigned_row :: "env \<Rightarrow> string \<Rightarrow> task_item \<Rightarrow> task_row" where
  "assigned_row e sid it = \<lparr>ti_id = 0, ti_scope = 3, ti_schedule_id = None, ti_student_id = Some sid, ti_type = ''task'',
     ti_name = tk_Name it, ti_notes = None, ti_start_date = None, ti_end_date = None, ti_priority = tk_Priority it,
     ti_recurrence = ''none'', ti_category = Some (tk_Category it), ti_criteria = None, ti_group_id = None,
     ti_group_order = None, ti_created_by = ''system'', ti_owner_type = ''admin'', ti_completed = 0, ti_completed_at = None,
     ti_completed_by = None, ti_active = 1, ti_deleted = 0, ti_deleted_at = None, ti_deleted_by = None,
     ti_created_at = ev_now e, ti_updated_at = ev_now e\<rparr>"

definition wants_item :: "env \<Rightarrow> (int \<Rightarrow> string) \<Rightarrow> string set \<Rightarrow> int \<Rightarrow> task_item \<Rightarrow> bool" where
  "wants_item e existing items gradeNum it \<longleftrightarrow>
     existing (tk_ID it) = [] \<and> tk_Name it \<notin> items
     \<and> (if tk_Criteria it \<noteq> []
        then matchesCriteria e (tk_Criteria it) \<lparr>sa_Grade = gradeNum, sa_Birthplace = [], sa_FirstLanguage = [], sa_School = []\<rparr>
        else shouldAssignForGrade (tk_Name it) (tk_Category it) gradeNum)"

text \<open>An insert that fails is passed over.\<close>

definition AutoAssignProfileTasks :: "env \<Rightarrow> string \<Rightarrow> string \<Rightarrow> classdb \<Rightarrow> classdb option" where
  "AutoAssignProfileTasks e sid grade db =
     (if ev_faults e Q_tasks then None
      else case GetLatestTrackerValues e sid db of
        None \<Rightarrow> None
      | Some existingValues \<Rightarrow>
          (let existing = (\<lambda>i. case map_of (rev existingValues) i of None \<Rightarrow> [] | Some v \<Rightarrow> v);
               items = ti_name ` {t \<in> set (tb_rows (db_tasks db)). ti_scope t = 3 \<and> ti_student_id t = Some sid \<and> ti_deleted t = 0};
               wanted = filter (wants_item e existing items (parseGradeNum grade)) (GetCenterTaskItems db)
           in Some (if ev_faults e I_task then db
                    else on_tasks (\<lambda>t. fold (\<lambda>it. insert_row (mk_task (assigned_row e sid it))) wanted t) db)))"

section \<open>Reading and writing people\<close>

definition profile_student_json :: "student_row \<Rightarrow> jval" where
  "profile_student_json s = JObj [(''id'', JStr (st_id s)), (''first_name'', JStr (st_first_name s)), (''last_name'', JStr (st_last_name s)),
     (''grade'', JStr (coalesce (st_grade s))), (''school'', JStr (coalesce (st_school s))),
     (''parent_id'', JStr (coalesce (st_parent_id s))), (''email'', JStr (coalesce (st_email s))),
     (''phone'', JStr (coalesce (st_phone s))), (''address'', JStr (coalesce (st_address s))), (''notes'', JStr (coalesce (st_notes s))),
     (''dob'', JStr (coalesce (st_dob s))), (''birthplace'', JStr (coalesce (st_birthplace s))),
     (''years_in_us'', JStr (coalesce (st_years_in_us s))), (''first_language'', JStr (coalesce (st_first_language s))),
     (''previous_schools'', JStr (coalesce (st_previous_schools s))), (''courses_outside'', JStr (coalesce (st_courses_outside s))),
     (''profile_status'', JStr (st_profile_status s)), (''active'', JInt (st_active s))]"

definition profile_parent_json :: "parent_row option \<Rightarrow> jval" where
  "profile_parent_json p =
     (case p of
        None \<Rightarrow> JNull
      | Some p \<Rightarrow> JObj [(''id'', JStr (pa_id p)), (''first_name'', JStr (pa_first_name p)), (''last_name'', JStr (pa_last_name p)),
          (''email'', JStr (coalesce (pa_email p))), (''phone'', JStr (coalesce (pa_phone p))), (''email2'', JStr (coalesce (pa_email2 p))),
          (''phone2'', JStr (coalesce (pa_phone2 p))), (''address'', JStr (coalesce (pa_address p)))])"

definition fetchStudentProfile :: "env \<Rightarrow> classdb \<Rightarrow> string \<Rightarrow> (student_row \<times> parent_row option) option" where
  "fetchStudentProfile e db sid =
     (if ev_faults e Q_student then None
      else case student_by_id db sid of
        None \<Rightarrow> None
      | Some s \<Rightarrow> Some (s, if coalesce (st_parent_id s) = [] \<or> ev_faults e Q_people then None
                          else List.find (\<lambda>p. pa_id p = coalesce (st_parent_id s)) (db_parents db)))"

definition updateStudentFields :: "texts \<Rightarrow> env \<Rightarrow> string \<Rightarrow> data \<Rightarrow> string \<Rightarrow> classdb \<Rightarrow> classdb option" where
  "updateStudentFields tx e i m status db =
     (let c = (\<lambda>k. Some (getString tx m k)) in
      if ev_faults e U_people then None
      else Some (db\<lparr>db_students := update_where (\<lambda>s. st_id s = i)
        (\<lambda>s. s\<lparr>st_first_name := getString tx m ''first_name'', st_last_name := getString tx m ''last_name'',
           st_grade := c ''grade'', st_school := c ''school'', st_parent_id := c ''parent_id'', st_email := c ''email'',
           st_phone := c ''phone'', st_address := c ''address'', st_notes := c ''notes'', st_dob := c ''dob'',
           st_birthplace := c ''birthplace'', st_years_in_us := c ''years_in_us'', st_first_language := c ''first_language'',
           st_previous_schools := c ''previous_schools'', st_courses_outside := c ''courses_outside'',
           st_profile_status := status\<rparr>) (db_students db)\<rparr>))"

definition updateParentFields :: "texts \<Rightarrow> env \<Rightarrow> data \<Rightarrow> classdb \<Rightarrow> classdb option" where
  "updateParentFields tx e m db =
     (let i = getString tx m ''id''; c = (\<lambda>k. Some (getString tx m k)) in
      if i = [] then Some db
      else if ev_faults e U_people then None
      else Some (db\<lparr>db_parents := update_where (\<lambda>p. pa_id p = i)
        (\<lambda>p. p\<lparr>pa_first_name := getString tx m ''first_name'', pa_last_name := getString tx m ''last_name'',
           pa_email := c ''email'', pa_phone := c ''phone'', pa_email2 := c ''email2'', pa_phone2 := c ''phone2'',
           pa_address := c ''address''\<rparr>) (db_parents db)\<rparr>))"

section \<open>The administrators' form\<close>

record profile_request =
  pq_Student :: "data option"
  pq_Parent :: "data option"
  pq_Finalize :: bool
  pq_TrackerValues :: data

definition getStudentProfile :: "env \<Rightarrow> request \<Rightarrow> app \<Rightarrow> response" where
  "getStudentProfile e r a =
     (let studentID = rq_Query r ''id'' in
      if studentID = [] then json_error 400 ''Student ID required''
      else case fetchStudentProfile e (ap_DB a) studentID of
        None \<Rightarrow> json_error 404 ''Student not found''
      | Some (s, p) \<Rightarrow> writeJSON 200 [(''ok'', JBool True), (''student'', profile_student_json s), (''parent'', profile_parent_json p)])"

text \<open>The parent's part of a form, after the student's.\<close>

definition save_parent_part :: "texts \<Rightarrow> env \<Rightarrow> data option \<Rightarrow> app \<Rightarrow> app option" where
  "save_parent_part tx e m a =
     (case m of
        None \<Rightarrow> Some a
      | Some m \<Rightarrow> (case updateParentFields tx e m (ap_DB a) of None \<Rightarrow> None | Some db \<Rightarrow> Some (a\<lparr>ap_DB := db\<rparr>)))"

definition saveStudentProfile :: "texts \<Rightarrow> env \<Rightarrow> profile_request option \<Rightarrow> app \<Rightarrow> response \<times> app" where
  "saveStudentProfile tx e req a =
     (case req of
        None \<Rightarrow> (json_error 400 ''Invalid request'', a)
      | Some q \<Rightarrow>
          (let parent_part = (\<lambda>a. case save_parent_part tx e (pq_Parent q) a of
                 None \<Rightarrow> (json_error 500 ''Failed to save parent'', a) | Some b \<Rightarrow> (ok_answer, b))
           in case pq_Student q of
                None \<Rightarrow> parent_part a
              | Some m \<Rightarrow>
                  (let i = getString tx m ''id'' in
                   if i = [] then (json_error 400 ''Student ID required'', a)
                   else case updateStudentFields tx e i m (if pq_Finalize q then ''final'' else ''draft'') (ap_DB a) of
                     None \<Rightarrow> (json_error 500 ''Failed to save student'', a)
                   | Some db \<Rightarrow> parent_part (a\<lparr>ap_DB := db\<rparr>))))"

definition HandleStudentProfile :: "texts \<Rightarrow> env \<Rightarrow> request \<Rightarrow> profile_request option \<Rightarrow> app \<Rightarrow> response \<times> app" where
  "HandleStudentProfile tx e r req a =
     (if rq_Method r = ''GET'' then (getStudentProfile e r a, a)
      else if rq_Method r = ''POST'' then saveStudentProfile tx e req a
      else (method_not_allowed, a))"

section \<open>People's own form\<close>

definition resolveStudentID :: "env \<Rightarrow> request \<Rightarrow> session \<Rightarrow> classdb \<Rightarrow> string" where
  "resolveStudentID e r s db =
     (if ss_UserType s = ''student'' then ss_EntityID s
      else if ss_UserType s = ''parent'' then
        (if rq_Query r ''student_id'' \<noteq> [] then rq_Query r ''student_id''
         else case parent_ids e db (ss_EntityID s) of [] \<Rightarrow> [] | i # _ \<Rightarrow> i)
      else [])"

definition canAccessStudentProfile :: "env \<Rightarrow> classdb \<Rightarrow> session \<Rightarrow> string \<Rightarrow> bool" where
  "canAccessStudentProfile e db s studentID \<longleftrightarrow>
     (if ss_UserType s = ''student'' then ss_EntityID s = studentID
      else if ss_UserType s = ''parent'' then studentID \<in> set (parent_ids e db (ss_EntityID s))
      else False)"

definition teacher_profile_json :: "teacher_row \<Rightarrow> jval" where
  "teacher_profile_json t = JObj [(''id'', JStr (te_id t)), (''first_name'', JStr (te_first_name t)), (''last_name'', JStr (te_last_name t)),
     (''email'', JStr (coalesce (te_email t))), (''phone'', JStr (coalesce (te_phone t))), (''address'', JStr (coalesce (te_address t))),
     (''subjects'', JStr (coalesce (te_subjects t)))]"

definition getTeacherProfile :: "env \<Rightarrow> session \<Rightarrow> classdb \<Rightarrow> response" where
  "getTeacherProfile e s db =
     (case (if ev_faults e Q_people then None else List.find (\<lambda>t. te_id t = ss_EntityID s) (db_teachers db)) of
        None \<Rightarrow> json_error 404 ''Teacher not found''
      | Some t \<Rightarrow> writeJSON 200 [(''ok'', JBool True), (''teacher'', teacher_profile_json t), (''student'', teacher_profile_json t)])"

definition saveTeacherProfile :: "texts \<Rightarrow> env \<Rightarrow> session \<Rightarrow> data \<Rightarrow> app \<Rightarrow> response \<times> app" where
  "saveTeacherProfile tx e s m a =
     (if ev_faults e U_people then (json_error 500 ''Failed to save profile'', a)
      else (ok_answer, map_db (\<lambda>db. db\<lparr>db_teachers := update_where (\<lambda>t. te_id t = ss_EntityID s)
        (\<lambda>t. t\<lparr>te_first_name := getString tx m ''first_name'', te_last_name := getString tx m ''last_name'',
           te_email := Some (getString tx m ''email''), te_phone := Some (getString tx m ''phone''),
           te_address := Some (getString tx m ''address'')\<rparr>) (db_teachers db)\<rparr>) a))"

definition is_teaching :: "session \<Rightarrow> bool" where
  "is_teaching s \<longleftrightarrow> ss_UserType s = ''teacher'' \<or> ss_UserType s = ''admin''"

definition child_json :: "env \<Rightarrow> classdb \<Rightarrow> string \<Rightarrow> jval" where
  "child_json e db cid =
     (let (f, l) = (case (if ev_faults e Q_student then None else student_by_id db cid) of
                      None \<Rightarrow> ([], []) | Some s \<Rightarrow> (st_first_name s, st_last_name s))
      in JObj [(''id'', JStr cid), (''name'', JStr (full_name f l))])"

text \<open>\<open>student[..] == ""\<close> for the three fields that make a profile empty.\<close>

definition empty_profile :: "student_row \<Rightarrow> bool" where
  "empty_profile s \<longleftrightarrow> coalesce (st_dob s) = [] \<and> coalesce (st_school s) = [] \<and> coalesce (st_grade s) = []"

definition getUserProfile :: "env \<Rightarrow> request \<Rightarrow> session \<Rightarrow> app \<Rightarrow> response" where
  "getUserProfile e r s a =
     (let db = ap_DB a in
      if is_teaching s then getTeacherProfile e s db
      else let studentID = resolveStudentID e r s db in
        if studentID = [] then json_error 400 ''No student profile available''
        else if \<not> canAccessStudentProfile e db s studentID then json_error 403 ''Access denied''
        else case fetchStudentProfile e db studentID of
          None \<Rightarrow> json_error 404 ''Student not found''
        | Some (st, p) \<Rightarrow>
            writeJSON 200 [(''ok'', JBool True), (''student'', profile_student_json st), (''parent'', profile_parent_json p),
              (''tracker_items'', (case GetGlobalTrackerItems e db of None \<Rightarrow> JNull | Some its \<Rightarrow> JArr (map task_item_json its))),
              (''tracker_values'', (case GetLatestTrackerValues e studentID db of
                 None \<Rightarrow> JNull | Some vs \<Rightarrow> JObj (map (\<lambda>(i, v). (itoa i, JStr v)) vs))),
              (''is_empty_profile'', JBool (empty_profile st)),
              (''children'', if ss_UserType s = ''parent'' then JArr (map (child_json e db) (parent_ids e db (ss_EntityID s))) else JNull)])"

text \<open>The values of a form: those whose key is a number and whose value is a text that is not empty.\<close>

definition form_values :: "data \<Rightarrow> (int \<times> string) list" where
  "form_values m = concat (map (\<lambda>(k, v). case (Atoi k, v) of (Some i, JStr s) \<Rightarrow> if s = [] then [] else [(i, s)] | _ \<Rightarrow> []) m)"

definition or_same :: "classdb option \<Rightarrow> app \<Rightarrow> app" where
  "or_same r a = (case r of None \<Rightarrow> a | Some db \<Rightarrow> a\<lparr>ap_DB := db\<rparr>)"

definition saveUserProfile :: "texts \<Rightarrow> env \<Rightarrow> session \<Rightarrow> profile_request option \<Rightarrow> app \<Rightarrow> response \<times> app" where
  "saveUserProfile tx e s req a =
     (case req of
        None \<Rightarrow> (json_error 400 ''Invalid request'', a)
      | Some q \<Rightarrow>
          if is_teaching s then
            (case pq_Student q of None \<Rightarrow> (ok_answer, a) | Some m \<Rightarrow> saveTeacherProfile tx e s m a)
          else case pq_Student q of
            None \<Rightarrow> (json_error 400 ''Student ID required'', a)
          | Some m \<Rightarrow>
              (let studentID = getString tx m ''id'' in
               if studentID = [] then (json_error 400 ''Student ID required'', a)
               else if \<not> canAccessStudentProfile e (ap_DB a) s studentID then (json_error 403 ''Access denied'', a)
               else case updateStudentFields tx e studentID m ''draft'' (ap_DB a) of
                 None \<Rightarrow> (json_error 500 ''Failed to save student'', a)
               | Some db \<Rightarrow>
                   (let a = a\<lparr>ap_DB := db\<rparr> in
                    case save_parent_part tx e (pq_Parent q) a of
                      None \<Rightarrow> (json_error 500 ''Failed to save parent'', a)
                    | Some a \<Rightarrow>
                        (let name = full_name (getString tx m ''first_name'') (getString tx m ''last_name'');
                             a = (if pq_TrackerValues q = [] then a
                                  else or_same (SaveProfileTrackerValues e studentID name (form_values (pq_TrackerValues q)) (ap_DB a)) a);
                             a = or_same (AutoAssignProfileTasks e studentID (getString tx m ''grade'') (ap_DB a)) a
                         in (ok_answer, a)))))"

definition HandleUserProfile :: "texts \<Rightarrow> env \<Rightarrow> request \<Rightarrow> profile_request option \<Rightarrow> app \<Rightarrow> response \<times> app" where
  "HandleUserProfile tx e r req a =
     (let (sess, a) = GetSession e r a in
      case sess of
        None \<Rightarrow> (json_error 401 ''Not authenticated'', a)
      | Some s \<Rightarrow>
          if rq_Method r = ''GET'' then (getUserProfile e r s a, a)
          else if rq_Method r = ''POST'' then saveUserProfile tx e s req a
          else (method_not_allowed, a))"

end
