(* ===== verification/ProfileFacts.thy ===== *)
theory ProfileFacts
  imports Profiles TaskRights
begin

text \<open>
  What saving a profile, the data editor and a password reset guarantee, and two ways around: a student's form
  writes any parent's data, and an administrator deletes by saving.
\<close>

section \<open>Changes within a family\<close>

definition same_or :: "('r \<Rightarrow> string) \<Rightarrow> (string \<Rightarrow> bool) \<Rightarrow> 'r \<Rightarrow> 'r \<Rightarrow> bool" where
  "same_or key P x y \<longleftrightarrow> y = x \<or> key y = key x \<and> P (key x)"

definition grows :: "('r \<Rightarrow> bool) \<Rightarrow> 'r tab \<Rightarrow> 'r tab \<Rightarrow> bool" where
  "grows Q t t' \<longleftrightarrow> (\<exists>rs. tb_rows t' = tb_rows t @ rs \<and> list_all Q rs)"

text \<open>
  Students, parents and teachers change where \<open>P\<close>, \<open>R\<close> and \<open>T\<close> allow it, personal tasks and responses are added for
  such students, and nothing else changes.
\<close>

definition edits :: "(string \<Rightarrow> bool) \<Rightarrow> (string \<Rightarrow> bool) \<Rightarrow> (string \<Rightarrow> bool) \<Rightarrow> classdb \<Rightarrow> classdb \<Rightarrow> bool" where
  "edits P R T db db' \<longleftrightarrow>
     list_all2 (same_or st_id P) (db_students db) (db_students db')
     \<and> list_all2 (same_or pa_id R) (db_parents db) (db_parents db')
     \<and> list_all2 (same_or te_id T) (db_teachers db) (db_teachers db')
     \<and> grows (\<lambda>t. ti_scope t = 3 \<and> (\<exists>i. ti_student_id t = Some i \<and> P i)) (db_tasks db) (db_tasks db')
     \<and> grows (\<lambda>r. P (tr_student_id r)) (db_responses db) (db_responses db')
     \<and> db_rooms db' = db_rooms db \<and> db_schedules db' = db_schedules db \<and> db_attendance db' = db_attendance db
     \<and> db_meta db' = db_meta db \<and> db_audit db' = db_audit db \<and> db_preferences db' = db_preferences db
     \<and> db_timeoff db' = db_timeoff db"

lemma same_or_refl [simp]: "same_or key P x x"
  by (simp add: same_or_def)

lemma same_or_trans: "same_or key P x y \<Longrightarrow> same_or key P y z \<Longrightarrow> same_or key P x z"
  by (auto simp: same_or_def)

lemma list_same_refl [simp]: "list_all2 (same_or key P) xs xs"
  by (simp add: list_all2_same)

lemma list_same_trans:
  "list_all2 (same_or key P) xs ys \<Longrightarrow> list_all2 (same_or key P) ys zs \<Longrightarrow> list_all2 (same_or key P) xs zs"
  by (rule list_all2_trans [where as = xs and bs = ys and cs = zs and ?P1.0 = "same_or key P" and ?P2.0 = "same_or key P"])
     (auto intro: same_or_trans)

lemma list_same_update:
  assumes "\<And>r. c r \<Longrightarrow> P (key r)" "\<And>r. key (f r) = key r"
  shows "list_all2 (same_or key P) xs (update_where c f xs)"
  using assms by (induction xs) (auto simp: update_where_def same_or_def)

lemma grows_refl [simp]: "grows Q t t"
  by (simp add: grows_def)

lemma grows_trans: "grows Q t u \<Longrightarrow> grows Q u v \<Longrightarrow> grows Q t v"
  unfolding grows_def by fastforce

lemma grows_insert: "Q (mk (tb_seq t + 1)) \<Longrightarrow> grows Q t (insert_row mk t)"
  by (simp add: grows_def)

lemma edits_refl: "edits P R T db db"
  by (simp add: edits_def)

lemma edits_trans: "edits P R T db db1 \<Longrightarrow> edits P R T db1 db2 \<Longrightarrow> edits P R T db db2"
  unfolding edits_def by (auto intro: list_same_trans grows_trans)

lemma student_edits: "updateStudentFields tx e i m status db = Some db' \<Longrightarrow> P i \<Longrightarrow> edits P R T db db'"
  by (auto simp: updateStudentFields_def edits_def Let_def split: if_splits intro!: list_same_update)

lemma parent_edits: "updateParentFields tx e m db = Some db' \<Longrightarrow> R (getString tx m ''id'') \<Longrightarrow> edits P R T db db'"
  by (auto simp: updateParentFields_def edits_def Let_def split: if_splits intro!: list_same_update)

lemma save_values_edits: "save_values e sid name items vs db = Some db' \<Longrightarrow> P sid \<Longrightarrow> edits P R T db db'"
proof (induction e sid name items vs db rule: save_values.induct)
  case (2 e sid name items i n vs db)
  show ?case
  proof (cases "n = [] \<or> items i = []")
    case False
    then obtain db1 where db1: "insert_response e (new_response e sid name ''global'' i (items i) ''done'' (Some n) None) db = Some db1"
      using 2(3) by (auto split: option.splits)
    have "edits P R T db db1"
      using db1 2(4) by (auto simp: insert_response_def edits_def new_response_def mk_response_def split: if_splits intro!: grows_insert)
    moreover have "edits P R T db1 db'" using 2(2) [OF False db1] 2(3,4) False db1 by simp
    ultimately show ?thesis by (rule edits_trans)
  qed (use 2 in simp)
qed (simp add: edits_refl)

lemma values_edits: "SaveProfileTrackerValues e sid name vs db = Some db' \<Longrightarrow> P sid \<Longrightarrow> edits P R T db db'"
  by (auto simp: SaveProfileTrackerValues_def edits_refl split: if_splits option.splits intro: save_values_edits)

lemma fold_insert_grows: "\<forall>it \<in> set its. \<forall>n. Q (mk it n) \<Longrightarrow> grows Q t (fold (\<lambda>it. insert_row (mk it)) its t)"
proof (induction its arbitrary: t)
  case (Cons it its)
  then have "grows Q (insert_row (mk it) t) (fold (\<lambda>it. insert_row (mk it)) its (insert_row (mk it) t))" by simp
  then show ?case using Cons.prems grows_trans [OF grows_insert] by fastforce
qed simp

lemma assign_edits: "AutoAssignProfileTasks e sid grade db = Some db' \<Longrightarrow> P sid \<Longrightarrow> edits P R T db db'"
  by (auto simp: AutoAssignProfileTasks_def edits_def on_tasks_def Let_def mk_task_def assigned_row_def
      split: if_splits option.splits intro!: fold_insert_grows)

lemma or_same_edits: "(\<And>db'. r = Some db' \<Longrightarrow> edits P R T (ap_DB a) db') \<Longrightarrow> edits P R T (ap_DB a) (ap_DB (or_same r a))"
  by (auto simp: or_same_def edits_refl split: option.splits)

lemma parent_part_edits: "save_parent_part tx e m a = Some b \<Longrightarrow> edits P (\<lambda>_. True) T (ap_DB a) (ap_DB b)"
  by (auto simp: save_parent_part_def edits_refl split: option.splits intro: parent_edits)

lemma save_profile_edits:
  "edits (canAccessStudentProfile e (ap_DB a) s) (\<lambda>_. True) (\<lambda>i. is_teaching s \<and> i = ss_EntityID s)
     (ap_DB a) (ap_DB (snd (saveUserProfile tx e s req a)))"
proof (cases req)
  case (Some q)
  let ?E = "edits (canAccessStudentProfile e (ap_DB a) s) (\<lambda>_. True) (\<lambda>i. is_teaching s \<and> i = ss_EntityID s)"
  show ?thesis
  proof (cases "is_teaching s")
    case True
    then show ?thesis
      by (auto simp: Some saveUserProfile_def saveTeacherProfile_def edits_def split: option.splits intro!: list_same_update)
  next
    case False
    show ?thesis
    proof (cases "pq_Student q")
      case (Some m)
      let ?i = "getString tx m ''id''"
      show ?thesis
      proof (cases "?i = [] \<or> \<not> canAccessStudentProfile e (ap_DB a) s ?i")
        case bad: False
        show ?thesis
        proof (cases "updateStudentFields tx e ?i m ''draft'' (ap_DB a)")
          case u: (Some db)
          have 1: "?E (ap_DB a) db" using student_edits [OF u] bad by auto
          show ?thesis
          proof (cases "save_parent_part tx e (pq_Parent q) (a\<lparr>ap_DB := db\<rparr>)")
            case b: (Some b)
            have 2: "?E db (ap_DB b)" using parent_part_edits [OF b] by simp
            define c where "c = (if pq_TrackerValues q = [] then b else or_same (SaveProfileTrackerValues e ?i
              (full_name (getString tx m ''first_name'') (getString tx m ''last_name'')) (form_values (pq_TrackerValues q)) (ap_DB b)) b)"
            have 3: "?E (ap_DB b) (ap_DB c)" unfolding c_def using bad by (auto simp: edits_refl intro!: or_same_edits values_edits)
            have 4: "?E (ap_DB c) (ap_DB (or_same (AutoAssignProfileTasks e ?i (getString tx m ''grade'') (ap_DB c)) c))"
              using bad by (intro or_same_edits assign_edits) auto
            have "snd (saveUserProfile tx e s req a) = or_same (AutoAssignProfileTasks e ?i (getString tx m ''grade'') (ap_DB c)) c"
              using \<open>req = Some q\<close> \<open>\<not> is_teaching s\<close> \<open>pq_Student q = Some m\<close> bad u b
              by (simp add: saveUserProfile_def Let_def c_def)
            then show ?thesis using edits_trans [OF edits_trans [OF edits_trans [OF 1 2] 3] 4] by simp
          qed (use \<open>req = Some q\<close> \<open>\<not> is_teaching s\<close> \<open>pq_Student q = Some m\<close> bad u 1 in \<open>simp add: saveUserProfile_def Let_def\<close>)
        qed (use \<open>req = Some q\<close> \<open>\<not> is_teaching s\<close> \<open>pq_Student q = Some m\<close> bad in \<open>simp add: saveUserProfile_def Let_def edits_refl\<close>)
      qed (use \<open>req = Some q\<close> \<open>\<not> is_teaching s\<close> \<open>pq_Student q = Some m\<close> in \<open>auto simp: saveUserProfile_def Let_def edits_refl\<close>)
    qed (use \<open>req = Some q\<close> \<open>\<not> is_teaching s\<close> in \<open>simp add: saveUserProfile_def edits_refl\<close>)
  qed
qed (simp add: saveUserProfile_def edits_refl)

lemma GetSession_keeps_DB: "GetSession e r a = (s, a') \<Longrightarrow> ap_DB a' = ap_DB a"
  by (auto simp: GetSession_def Sessions_Get_def on_sessions_def split: if_splits prod.splits)

text \<open>
  C20. A person's form changes no student but the person's own row or a child's, no teacher but the teacher's own row,
  and adds tasks and responses for such students only; classes, attendance and the rest stay as they are.
\<close>
theorem profile_stays_within_family:
  assumes "GetSession e r a = (Some s, a')"
  shows "edits (canAccessStudentProfile e (ap_DB a) s) (\<lambda>_. True) (\<lambda>i. is_teaching s \<and> i = ss_EntityID s)
    (ap_DB a) (ap_DB (snd (HandleUserProfile tx e r req a)))"
proof -
  have db: "ap_DB a' = ap_DB a" by (rule GetSession_keeps_DB [OF assms])
  show ?thesis
    using save_profile_edits [of e a' s tx req] by (auto simp: HandleUserProfile_def assms db edits_refl)
qed

section \<open>Any parent's data\<close>

lemma save_values_parents: "save_values e sid name items vs db = Some db' \<Longrightarrow> db_parents db' = db_parents db"
  by (induction e sid name items vs db rule: save_values.induct) (auto simp: insert_response_def split: option.splits if_splits)

lemma values_parents: "SaveProfileTrackerValues e sid name vs db = Some db' \<Longrightarrow> db_parents db' = db_parents db"
  by (auto simp: SaveProfileTrackerValues_def dest: save_values_parents split: if_splits option.splits)

lemma assign_parents: "AutoAssignProfileTasks e sid grade db = Some db' \<Longrightarrow> db_parents db' = db_parents db"
  by (auto simp: AutoAssignProfileTasks_def Let_def on_tasks_def split: if_splits option.splits)

lemma or_same_parents: "(\<And>db'. res = Some db' \<Longrightarrow> db_parents db' = db_parents (ap_DB a)) \<Longrightarrow> db_parents (ap_DB (or_same res a)) = db_parents (ap_DB a)"
  by (auto simp: or_same_def split: option.splits)

lemma in_set_update: "x \<in> set xs \<Longrightarrow> c x \<Longrightarrow> f x \<in> set (update_where c f xs)"
  by (auto simp: update_where_def)

text \<open>
  C22. The parent's part of the form is not checked: whoever may save a student's profile, the student too, overwrites the
  name and the addresses of any parent by naming that parent's identifier.
\<close>
theorem form_overwrites_any_parent:
  assumes "GetSession e r a = (Some s, a')" "rq_Method r = ''POST''" "\<not> is_teaching s"
    and "pq_Student q = Some m" "pq_Parent q = Some pm" "getString tx m ''id'' \<noteq> []"
    and "canAccessStudentProfile e (ap_DB a) s (getString tx m ''id'')" "\<not> ev_faults e U_people"
    and "p \<in> set (db_parents (ap_DB a))" "pa_id p = getString tx pm ''id''" "pa_id p \<noteq> []"
  shows "answers_ok (fst (HandleUserProfile tx e r (Some q) a)) \<and>
    (\<exists>p' \<in> set (db_parents (ap_DB (snd (HandleUserProfile tx e r (Some q) a)))). pa_id p' = pa_id p
       \<and> pa_first_name p' = getString tx pm ''first_name'' \<and> pa_email p' = Some (getString tx pm ''email'')
       \<and> pa_phone p' = Some (getString tx pm ''phone''))"
proof -
  let ?i = "getString tx m ''id''"
  have db: "ap_DB a' = ap_DB a" by (rule GetSession_keeps_DB [OF assms(1)])
  obtain db1 where db1: "updateStudentFields tx e ?i m ''draft'' (ap_DB a) = Some db1" "db_parents db1 = db_parents (ap_DB a)"
    using assms(8) by (simp add: updateStudentFields_def Let_def)
  obtain b where b: "save_parent_part tx e (Some pm) (a'\<lparr>ap_DB := db1\<rparr>) = Some b"
    "db_parents (ap_DB b) = update_where (\<lambda>x. pa_id x = pa_id p) (\<lambda>x. x\<lparr>pa_first_name := getString tx pm ''first_name'',
       pa_last_name := getString tx pm ''last_name'', pa_email := Some (getString tx pm ''email''), pa_phone := Some (getString tx pm ''phone''),
       pa_email2 := Some (getString tx pm ''email2''), pa_phone2 := Some (getString tx pm ''phone2''),
       pa_address := Some (getString tx pm ''address'')\<rparr>) (db_parents (ap_DB a))"
    using assms(8,10,11) db1(2) by (simp add: save_parent_part_def updateParentFields_def Let_def)
  define c where "c = (if pq_TrackerValues q = [] then b else or_same (SaveProfileTrackerValues e ?i
      (full_name (getString tx m ''first_name'') (getString tx m ''last_name'')) (form_values (pq_TrackerValues q)) (ap_DB b)) b)"
  define d where "d = or_same (AutoAssignProfileTasks e ?i (getString tx m ''grade'') (ap_DB c)) c"
  have "db_parents (ap_DB c) = db_parents (ap_DB b)" unfolding c_def by (auto intro!: or_same_parents dest: values_parents)
  moreover have "db_parents (ap_DB d) = db_parents (ap_DB c)" unfolding d_def by (rule or_same_parents) (rule assign_parents)
  ultimately have ps: "db_parents (ap_DB d) = db_parents (ap_DB b)" by simp
  have run: "HandleUserProfile tx e r (Some q) a = (ok_answer, d)"
    using assms(2-8) db db1(1) b(1) by (simp add: HandleUserProfile_def assms(1) saveUserProfile_def Let_def c_def d_def)
  have ok: "answers_ok ok_answer" by (simp add: ok_answer_def answers_ok_def)
  have "p\<lparr>pa_first_name := getString tx pm ''first_name'', pa_last_name := getString tx pm ''last_name'',
       pa_email := Some (getString tx pm ''email''), pa_phone := Some (getString tx pm ''phone''),
       pa_email2 := Some (getString tx pm ''email2''), pa_phone2 := Some (getString tx pm ''phone2''),
       pa_address := Some (getString tx pm ''address'')\<rparr> \<in> set (db_parents (ap_DB d))" (is "?p' \<in> _")
    unfolding ps b(2) using assms(9) by (rule in_set_update) simp
  then show ?thesis unfolding run using ok by (intro conjI bexI [of _ ?p']) simp_all
qed

section \<open>Automatic tasks\<close>

lemma center_of_append: "list_all (\<lambda>t. ti_scope t = 3) rs \<Longrightarrow> tb_rows (db_tasks db') = tb_rows (db_tasks db) @ rs
  \<Longrightarrow> GetCenterTaskItems db' = GetCenterTaskItems db"
  by (simp add: GetCenterTaskItems_def list_all_iff filter_empty_conv)

lemma latest_of_append:
  assumes "list_all (\<lambda>t. ti_scope t = 3) rs" "tb_rows (db_tasks db') = tb_rows (db_tasks db) @ rs" "db_responses db' = db_responses db"
    "GetLatestTrackerValues e sid db = Some vs" "GetLatestTrackerValues e' sid db' = Some vs'"
  shows "vs' = vs"
proof -
  have "(\<exists>t \<in> set (tb_rows (db_tasks db')). ti_id t = i \<and> ti_scope t = 1) \<longleftrightarrow> (\<exists>t \<in> set (tb_rows (db_tasks db)). ti_id t = i \<and> ti_scope t = 1)" for i
    using assms(1,2) by (auto simp: list_all_iff)
  moreover have "latest_response db' sid = latest_response db sid" by (rule ext) (simp add: latest_response_def assms(3))
  ultimately show ?thesis using assms(3-5) by (auto simp: GetLatestTrackerValues_def Let_def split: if_splits)
qed

lemma fold_insert_rows: "\<exists>rs. tb_rows (fold (\<lambda>it. insert_row (mk it)) its t) = tb_rows t @ rs \<and> length rs = length its
   \<and> (\<forall>k < length its. \<exists>n. rs ! k = mk (its ! k) n)"
proof (induction its arbitrary: t)
  case (Cons it its)
  obtain rs where rs: "tb_rows (fold (\<lambda>it. insert_row (mk it)) its (insert_row (mk it) t)) = tb_rows (insert_row (mk it) t) @ rs"
    "length rs = length its" "\<forall>k < length its. \<exists>n. rs ! k = mk (its ! k) n" using Cons.IH by blast
  have "\<exists>n. (mk it (tb_seq t + 1) # rs) ! k = mk ((it # its) ! k) n" if "k < length (it # its)" for k
    using rs(3) that by (cases k) auto
  then show ?case using rs(1,2) by (intro exI [of _ "mk it (tb_seq t + 1) # rs"]) simp
qed simp

text \<open>The items a run hands out.\<close>

definition wanted_items :: "env \<Rightarrow> string \<Rightarrow> string \<Rightarrow> (int \<times> string) list \<Rightarrow> classdb \<Rightarrow> task_item list" where
  "wanted_items e sid grade vs db =
     filter (wants_item e (\<lambda>i. case map_of (rev vs) i of None \<Rightarrow> [] | Some v \<Rightarrow> v)
       (ti_name ` {t \<in> set (tb_rows (db_tasks db)). ti_scope t = 3 \<and> ti_student_id t = Some sid \<and> ti_deleted t = 0})
       (parseGradeNum grade)) (GetCenterTaskItems db)"

lemma assign_eq:
  "AutoAssignProfileTasks e sid grade db = Some db' \<longleftrightarrow> \<not> ev_faults e Q_tasks \<and> (\<exists>vs. GetLatestTrackerValues e sid db = Some vs \<and>
     db' = (if ev_faults e I_task then db
            else on_tasks (\<lambda>t. fold (\<lambda>it. insert_row (mk_task (assigned_row e sid it))) (wanted_items e sid grade vs db) t) db))"
  by (auto simp: AutoAssignProfileTasks_def wanted_items_def Let_def split: option.splits)

lemma wants_item_mono:
  "wants_item e' ex new g it \<Longrightarrow> old \<subseteq> new \<Longrightarrow> ev_unmarshal e' = ev_unmarshal e \<Longrightarrow> wants_item e ex old g it"
  by (auto simp: wants_item_def matchesCriteria_def)

text \<open>
  Saving a profile gives the student each suitable item of the center once: the tasks added are personal ones of
  the student, named after items of the center, and a second run for the same grade adds nothing.
\<close>
theorem auto_assign_once:
  assumes "AutoAssignProfileTasks e sid grade db = Some db'" "\<not> ev_faults e I_task"
    "AutoAssignProfileTasks e' sid grade db' = Some db''" "ev_unmarshal e' = ev_unmarshal e"
  shows "db'' = db' \<and> (\<exists>rs. tb_rows (db_tasks db') = tb_rows (db_tasks db) @ rs \<and>
    list_all (\<lambda>t. ti_scope t = 3 \<and> ti_student_id t = Some sid \<and> ti_name t \<in> set (map tk_Name (GetCenterTaskItems db))) rs)"
proof -
  obtain vs where vs: "GetLatestTrackerValues e sid db = Some vs"
    and db': "db' = on_tasks (\<lambda>t. fold (\<lambda>it. insert_row (mk_task (assigned_row e sid it))) (wanted_items e sid grade vs db) t) db"
    using assms(1,2) by (auto simp: assign_eq)
  let ?w = "wanted_items e sid grade vs db"
  obtain rs where rs: "tb_rows (db_tasks db') = tb_rows (db_tasks db) @ rs" "length rs = length ?w"
    "\<forall>k < length ?w. \<exists>n. rs ! k = mk_task (assigned_row e sid (?w ! k)) n"
    using fold_insert_rows [of "\<lambda>it. mk_task (assigned_row e sid it)" ?w "db_tasks db"] by (auto simp: db' on_tasks_def)
  have row: "ti_scope (rs ! k) = 3 \<and> ti_student_id (rs ! k) = Some sid \<and> ti_name (rs ! k) = tk_Name (?w ! k) \<and> ti_deleted (rs ! k) = 0"
    if "k < length ?w" for k
    using rs(3) that by (force simp: mk_task_def assigned_row_def)
  have in_w: "?w ! k \<in> set (GetCenterTaskItems db)" if "k < length ?w" for k
    using nth_mem [OF that] by (simp add: wanted_items_def)
  have names: "list_all (\<lambda>t. ti_scope t = 3 \<and> ti_student_id t = Some sid \<and> ti_name t \<in> set (map tk_Name (GetCenterTaskItems db))) rs"
    using row in_w rs(2) by (auto simp: list_all_length)
  have s3: "list_all (\<lambda>t. ti_scope t = 3) rs" using names by (simp add: list_all_iff)
  obtain vs' where vs': "GetLatestTrackerValues e' sid db' = Some vs'" and db'': "db'' = (if ev_faults e' I_task then db'
      else on_tasks (\<lambda>t. fold (\<lambda>it. insert_row (mk_task (assigned_row e' sid it))) (wanted_items e' sid grade vs' db') t) db')"
    using assms(3) unfolding assign_eq by blast
  have same: "vs' = vs" by (rule latest_of_append [OF s3 rs(1) _ vs vs']) (simp add: db' on_tasks_def)
  have cen: "GetCenterTaskItems db' = GetCenterTaskItems db" by (rule center_of_append [OF s3 rs(1)])
  let ?old = "ti_name ` {t \<in> set (tb_rows (db_tasks db)). ti_scope t = 3 \<and> ti_student_id t = Some sid \<and> ti_deleted t = 0}"
  let ?new = "ti_name ` {t \<in> set (tb_rows (db_tasks db')). ti_scope t = 3 \<and> ti_student_id t = Some sid \<and> ti_deleted t = 0}"
  have given: "tk_Name it \<in> ?new" if it: "it \<in> set ?w" for it
  proof -
    obtain k where k: "k < length ?w" "?w ! k = it" using it by (auto simp: in_set_conv_nth)
    have "rs ! k \<in> set rs" using k(1) rs(2) by simp
    then have "rs ! k \<in> set (tb_rows (db_tasks db'))" unfolding rs(1) by simp
    then have "ti_name (rs ! k) \<in> ?new" using row [OF k(1)] by (intro imageI) simp
    then show ?thesis using row [OF k(1)] k(2) by simp
  qed
  let ?ex = "\<lambda>i. case map_of (rev vs) i of None \<Rightarrow> [] | Some v \<Rightarrow> v"
  have sub: "?old \<subseteq> ?new" using rs(1) by auto
  have "\<not> wants_item e' ?ex ?new (parseGradeNum grade) it" if it: "it \<in> set (GetCenterTaskItems db)" for it
  proof
    assume w: "wants_item e' ?ex ?new (parseGradeNum grade) it"
    then have "it \<in> set ?w" using it wants_item_mono [OF w sub assms(4)] by (simp add: wanted_items_def)
    then show False using given [of it] w by (simp add: wants_item_def)
  qed
  then have "wanted_items e' sid grade vs' db' = []" by (simp add: wanted_items_def same cen filter_empty_conv)
  then have "db'' = db'" by (simp add: db'' on_tasks_def)
  then show ?thesis using rs(1) names by blast
qed

section \<open>Passwords and deletions of the data editor\<close>

lemma finish_login_answers: "answers_ok (fst (finish_login e r idn redirect a))"
  by (auto simp: finish_login_def login_response_def answers_ok_def split: prod.splits)

lemma ResetPassword_user:
  assumes "ResetPassword e u p a = Some b"
  shows "\<exists>h x. ev_bcrypt e p = Some h \<and> GetUser b u = Some x \<and> mu_PasswordHash x = h \<and> mu_Username x = u"
proof -
  obtain y h where y: "GetUser a u = Some y" "ev_bcrypt e p = Some h"
    and b: "b = a\<lparr>ap_Users := map (\<lambda>x. if mu_Username x = u then x\<lparr>mu_PasswordHash := h\<rparr> else x) (ap_Users a)\<rparr>"
    using assms by (auto simp: ResetPassword_def split: option.splits)
  have "List.find (\<lambda>x. mu_Username x = u) us = Some y \<Longrightarrow>
      List.find (\<lambda>x. mu_Username x = u) (map (\<lambda>x. if mu_Username x = u then x\<lparr>mu_PasswordHash := h\<rparr> else x) us)
        = Some (y\<lparr>mu_PasswordHash := h\<rparr>) \<and> mu_Username y = u" for us
    by (induction us) (auto split: if_splits)
  then show ?thesis using y by (simp add: GetUser_def b)
qed

lemma others_keep_accounts:
  "filter (\<lambda>x. mu_Username x \<noteq> u) (map (\<lambda>x. if mu_Username x = u then x\<lparr>mu_PasswordHash := h\<rparr> else x) us)
     = filter (\<lambda>x. mu_Username x \<noteq> u) us"
  by (induction us) auto

text \<open>
  After an administrator's password reset that answers ok, the person logs in with that identifier and password,
  and every other account is as before.
\<close>
theorem reset_password_logs_in:
  assumes "HandlePasswordReset tx e r (Some q) a = (resp, b)" "answers_ok resp"
    and "\<And>h. ev_bcrypt e (rr_Password q) = Some h \<Longrightarrow> ev_bcrypt_ok e' h (rr_Password q)"
    and "rq_Method r' = ''POST''" "lr_Action l = ''login''" "lr_EntityID l = rr_ID q" "lr_Password l = rr_Password q"
  shows "answers_ok (fst (HandleLoginAPI pick e' r' (Some l) b))
    \<and> filter (\<lambda>u. mu_Username u \<noteq> to_lower (rr_ID q)) (ap_Users b) = filter (\<lambda>u. mu_Username u \<noteq> to_lower (rr_ID q)) (ap_Users a)"
proof -
  let ?u = "to_lower (rr_ID q)"
  have ids: "rr_ID q \<noteq> []" "rr_Password q \<noteq> []"
    using assms(1,2) by (auto simp: HandlePasswordReset_def split: if_splits)
  obtain f l0 email where p: "person_of e (ap_DB a) (rr_Type q) (rr_ID q) = Some (f, l0, email)"
    using assms(1,2) ids by (auto simp: HandlePasswordReset_def split: if_splits option.splits)
  define c where "c = (case EnsureUser e ?u (full_name f l0) email (rr_Password q) a of None \<Rightarrow> a | Some b \<Rightarrow> b)"
  have reset: "ResetPassword e ?u (rr_Password q) c = Some b"
    using assms(1,2) ids p by (auto simp: HandlePasswordReset_def c_def [symmetric] Let_def split: if_splits option.splits)
  obtain h x where hx: "ev_bcrypt e (rr_Password q) = Some h" "GetUser b ?u = Some x" "mu_PasswordHash x = h"
    using ResetPassword_user [OF reset] by blast
  have "answers_ok (fst (login_login e' r' l b))"
    using ids hx assms(3) [OF hx(1)] by (simp add: login_login_def assms(6,7) Let_def finish_login_answers)
  moreover have "filter (\<lambda>u. mu_Username u \<noteq> ?u) (ap_Users b) = filter (\<lambda>u. mu_Username u \<noteq> ?u) (ap_Users c)"
    using reset by (auto simp: ResetPassword_def others_keep_accounts split: option.splits)
  moreover have "filter (\<lambda>u. mu_Username u \<noteq> ?u) (ap_Users c) = filter (\<lambda>u. mu_Username u \<noteq> ?u) (ap_Users a)"
    by (auto simp: c_def EnsureUser_def split: option.splits)
  ultimately show ?thesis using assms(4,5) by (simp add: HandleLoginAPI_def)
qed

text \<open>
  C21. Only a super administrator may delete, but any administrator may save: saving a student with the deleted flag
  marks the row deleted, without the time or the person, and clears what the form does not name, the personal PIN
  and the demand for one among it.
\<close>
theorem saving_deletes_without_trace:
  assumes "GetSession e r a = (Some s, a1)" "\<not> ss_IsSuperAdmin s" "rq_Method r = ''POST''" "cq_Type q = ''students''"
    and "cq_Data q = Some m" "getBool m ''deleted'' False" "getString tx m ''id'' = cq_ID q" "cq_ID q \<noteq> []" "named tx m"
    and "\<not> ev_faults e I_entity"
  shows "rs_status (fst (HandleDataCRUD tx e r (Some (q\<lparr>cq_Action := ''delete''\<rparr>)) a)) = 403
    \<and> ap_DB (snd (HandleDataCRUD tx e r (Some (q\<lparr>cq_Action := ''delete''\<rparr>)) a)) = ap_DB a
    \<and> answers_ok (fst (HandleDataCRUD tx e r (Some (q\<lparr>cq_Action := ''save''\<rparr>)) a))
    \<and> (\<exists>x. filter (\<lambda>x. st_id x = cq_ID q) (db_students (ap_DB (snd (HandleDataCRUD tx e r (Some (q\<lparr>cq_Action := ''save''\<rparr>)) a)))) = [x]
         \<and> st_deleted x = 1 \<and> st_deleted_at x = None \<and> st_deleted_by x = None \<and> st_require_pin x = 0 \<and> st_personal_pin x = None)"
proof -
  have db: "ap_DB a1 = ap_DB a" by (rule GetSession_keeps_DB [OF assms(1)])
  have del: "HandleDataCRUD tx e r (Some (q\<lparr>cq_Action := ''delete''\<rparr>)) a = (json_error 403 ''Superadmin access required'', a1)"
    using assms(2,3) by (simp add: HandleDataCRUD_def assms(1))
  have i: "st_id (student_of_data tx m) = cq_ID q" using assms(7) by (simp add: student_of_data_def Let_def)
  have sav: "HandleDataCRUD tx e r (Some (q\<lparr>cq_Action := ''save''\<rparr>)) a
      = (ok_answer, a\<lparr>ap_DB := (ap_DB a)\<lparr>db_students := replace_row st_id (student_of_data tx m) (db_students (ap_DB a))\<rparr>\<rparr>)"
    using assms(3-5,7-10) by (simp add: HandleDataCRUD_def saveEntity_def insert_entity_def)
  have one: "filter (\<lambda>x. st_id x = cq_ID q) (replace_row st_id (student_of_data tx m) (db_students (ap_DB a))) = [student_of_data tx m]"
    by (simp add: replace_row_def i)
  have "st_deleted (student_of_data tx m) = 1 \<and> st_deleted_at (student_of_data tx m) = None \<and> st_deleted_by (student_of_data tx m) = None
      \<and> st_require_pin (student_of_data tx m) = 0 \<and> st_personal_pin (student_of_data tx m) = None"
    using assms(6) by (simp add: student_of_data_def boolToInt_def Let_def)
  then show ?thesis by (simp add: del sav db one ok_answer_def answers_ok_def)
qed

section \<open>Examples\<close>

definition plain_texts :: texts where
  "plain_texts = \<lparr>tx_any = (\<lambda>_. []), tx_hours = (\<lambda>_. JInt 8), tx_driver = ''database is locked''\<rparr>"

definition bob :: student_row where
  "bob = new_student ''S002'' ''Bob'' ''Lee''"

definition mary :: parent_row where
  "mary = \<lparr>pa_id = ''P001'', pa_first_name = ''Mary'', pa_last_name = ''Lee'', pa_email = None, pa_phone = None, pa_email2 = None,
     pa_phone2 = None, pa_address = None, pa_notes = None, pa_deleted = 0, pa_deleted_at = None, pa_deleted_by = None, pa_row_hash = None\<rparr>"

definition family_app :: app where
  "family_app = visitor_app\<lparr>ap_DB := empty_db\<lparr>db_students := [alice, bob], db_parents := [mary]\<rparr>\<rparr>"

definition student_part :: data where
  "student_part = [(''id'', JStr ''S001''), (''first_name'', JStr ''Al''), (''last_name'', JStr ''Wang'')]"

definition parent_part :: data where
  "parent_part = [(''id'', JStr ''P001''), (''first_name'', JStr ''Mallory''), (''email'', JStr ''m@example.com'')]"

definition family_form :: profile_request where
  "family_form = \<lparr>pq_Student = Some student_part, pq_Parent = Some parent_part, pq_Finalize = False, pq_TrackerValues = []\<rparr>"

lemma family_session:
  "\<exists>s b. GetSession (demo_env 0) cookie_request family_app = (Some s, b) \<and> ss_UserType s = ''student'' \<and> ss_EntityID s = ''S001''
    \<and> \<not> ss_IsSuperAdmin s"
  by (simp add: GetSession_def GetSessionToken_def cookie_request_def post_request_def Sessions_Get_def on_sessions_def
      Get_def family_app_def visitor_app_def two_sessions_at demo_env_def SessionMaxAge_def syncActive_def in_range_def Let_def)

lemma family_rows: "db_students (ap_DB family_app) = [alice, bob]" "db_parents (ap_DB family_app) = [mary]"
  "st_id alice = ''S001''" "st_id bob = ''S002''" "pa_id mary = ''P001''"
  by (simp_all add: family_app_def alice_def bob_def mary_def new_student_def)

lemma cookie_method: "rq_Method cookie_request = ''POST''"
  by (simp add: cookie_request_def post_request_def)

lemma no_demo_faults: "\<not> ev_faults (demo_env n) k"
  by (simp add: demo_env_def)

lemma profile_stays_within_family_witness:
  "bob \<in> set (db_students (ap_DB (snd (HandleUserProfile plain_texts (demo_env 0) cookie_request (Some family_form) family_app))))"
proof -
  obtain s b where s: "GetSession (demo_env 0) cookie_request family_app = (Some s, b)" "ss_UserType s = ''student''" "ss_EntityID s = ''S001''"
    using family_session by blast
  have "\<not> canAccessStudentProfile (demo_env 0) (ap_DB family_app) s ''S002''" by (simp add: canAccessStudentProfile_def s)
  then show ?thesis
    using profile_stays_within_family [OF s(1), of plain_texts "Some family_form"]
    by (auto simp: edits_def family_rows list_all2_Cons1 same_or_def)
qed

lemma form_overwrites_any_parent_witness:
  "pa_first_name (hd (db_parents (ap_DB (snd (HandleUserProfile plain_texts (demo_env 0) cookie_request (Some family_form) family_app))))) = ''Mallory''"
proof -
  obtain s b where s: "GetSession (demo_env 0) cookie_request family_app = (Some s, b)" "ss_UserType s = ''student''" "ss_EntityID s = ''S001''"
    using family_session by blast
  let ?d = "ap_DB (snd (HandleUserProfile plain_texts (demo_env 0) cookie_request (Some family_form) family_app))"
  have f: "pq_Student family_form = Some student_part" "pq_Parent family_form = Some parent_part" by (simp_all add: family_form_def)
  have v: "getString plain_texts student_part ''id'' = ''S001''" "getString plain_texts parent_part ''id'' = ''P001''"
    "getString plain_texts parent_part ''first_name'' = ''Mallory''"
    by (simp_all add: getString_def student_part_def parent_part_def)
  have "\<exists>p' \<in> set (db_parents ?d). pa_first_name p' = ''Mallory''"
    using form_overwrites_any_parent [OF s(1) cookie_method _ f, of plain_texts mary] s(2,3) no_demo_faults
    by (auto simp: is_teaching_def canAccessStudentProfile_def family_rows v)
  moreover have "\<exists>y. db_parents ?d = [y]"
    using profile_stays_within_family [OF s(1), of plain_texts "Some family_form"]
    by (auto simp: edits_def family_rows list_all2_Cons1)
  ultimately show ?thesis by auto
qed

definition sat_item :: task_row where
  "sat_item = reading\<lparr>ti_scope := 1, ti_student_id := None, ti_name := ''SAT prep'', ti_category := Some ''SAT''\<rparr>"

lemma auto_assign_once_witness:
  "\<exists>db1. AutoAssignProfileTasks (demo_env 0) ''S001'' ''10'' (empty_db\<lparr>db_tasks := \<lparr>tb_rows = [sat_item], tb_seq = 1\<rparr>\<rparr>) = Some db1
     \<and> map ti_name (tb_rows (db_tasks db1)) = [''SAT prep'', ''SAT prep'']
     \<and> AutoAssignProfileTasks (demo_env 5) ''S001'' ''10'' db1 = Some db1"
proof -
  let ?db = "empty_db\<lparr>db_tasks := \<lparr>tb_rows = [sat_item], tb_seq = 1\<rparr>\<rparr>"
  have nf: "ev_faults (demo_env n) = no_faults" for n by (simp add: demo_env_def)
  have g: "GetLatestTrackerValues (demo_env n) ''S001'' d = Some []" if "tb_rows (db_responses d) = []" for n d
    using that by (simp add: GetLatestTrackerValues_def nf Let_def)
  have c: "GetCenterTaskItems ?db = [scanTaskItem sat_item]"
    by (simp add: GetCenterTaskItems_def sat_item_def reading_def mk_task_def task_row_of_def blank_item_def b2i_def)
  have it: "tk_Name (scanTaskItem sat_item) = ''SAT prep''" "tk_Category (scanTaskItem sat_item) = ''SAT''" "tk_Criteria (scanTaskItem sat_item) = []"
    "ti_scope sat_item = 1" "ti_name sat_item = ''SAT prep''"
    by (simp_all add: scanTaskItem_def sat_item_def reading_def mk_task_def task_row_of_def blank_item_def nullStr_def)
  have "shouldAssignForGrade ''SAT prep'' ''SAT'' (parseGradeNum ''10'')" by code_simp
  then have w: "wanted_items (demo_env 0) ''S001'' ''10'' [] ?db = [scanTaskItem sat_item]"
    by (auto simp: wanted_items_def c wants_item_def it)
  define db1 where "db1 = on_tasks (insert_row (mk_task (assigned_row (demo_env 0) ''S001'' (scanTaskItem sat_item)))) ?db"
  have e: "tb_rows (db_responses ?db) = []" "tb_rows (db_responses db1) = []"
    by (simp_all add: db1_def on_tasks_def empty_db_def empty_tab_def)
  have one: "AutoAssignProfileTasks (demo_env 0) ''S001'' ''10'' ?db = Some db1"
    by (simp add: assign_eq nf g [OF e(1)] w db1_def)
  obtain db2 where two: "AutoAssignProfileTasks (demo_env 5) ''S001'' ''10'' db1 = Some db2"
    by (simp add: assign_eq nf g [OF e(2)])
  have "db2 = db1" using auto_assign_once [OF one _ two] by (simp add: nf) (simp add: demo_env_def)
  moreover have "map ti_name (tb_rows (db_tasks db1)) = [''SAT prep'', ''SAT prep'']"
    by (simp add: db1_def on_tasks_def it mk_task_def assigned_row_def)
  ultimately show ?thesis by (intro exI [of _ db1]) (simp add: one two)
qed

definition new_password :: reset_request where
  "new_password = \<lparr>rr_Type = ''students'', rr_ID = ''S001'', rr_Password = ''pear''\<rparr>"

lemma reset_password_logs_in_witness:
  "answers_ok (fst (HandleLoginAPI hd (demo_env 0) post_request
     (Some \<lparr>lr_EntityID = ''S001'', lr_Password = ''pear'', lr_Action = ''login'', lr_FirstName = [], lr_LastName = []\<rparr>)
     (snd (HandlePasswordReset plain_texts (demo_env 0) cookie_request (Some new_password) alice_app))))"
proof -
  obtain resp b where h: "HandlePasswordReset plain_texts (demo_env 0) cookie_request (Some new_password) alice_app = (resp, b)"
    by (metis surj_pair)
  have l: "to_lower ''S001'' = ''s001''" by code_simp
  have ok: "answers_ok resp"
    using h by (auto simp: HandlePasswordReset_def cookie_method new_password_def person_of_def no_demo_faults alice_app_def alice_def
        new_student_def l EnsureUser_def GetUser_def ResetPassword_def demo_env_def answers_ok_def Let_def)
  have bc: "ev_bcrypt_ok (demo_env 0) h (rr_Password new_password)" if "ev_bcrypt (demo_env 0) (rr_Password new_password) = Some h" for h
    using that by (simp add: demo_env_def)
  have "answers_ok (fst (HandleLoginAPI hd (demo_env 0) post_request
     (Some \<lparr>lr_EntityID = ''S001'', lr_Password = ''pear'', lr_Action = ''login'', lr_FirstName = [], lr_LastName = []\<rparr>) b))"
    by (rule reset_password_logs_in [OF h ok bc, THEN conjunct1]) (simp_all add: new_password_def post_request_def)
  then show ?thesis unfolding h by simp
qed

lemma saving_deletes_without_trace_witness:
  "map st_deleted (filter (\<lambda>x. st_id x = ''S001'') (db_students (ap_DB (snd (HandleDataCRUD plain_texts (demo_env 0) cookie_request
     (Some \<lparr>cq_Action = ''save'', cq_Type = ''students'', cq_ID = ''S001'', cq_Data = Some ((''deleted'', JBool True) # student_part)\<rparr>)
     family_app))))) = [1]"
proof -
  let ?q = "\<lparr>cq_Action = ''save'', cq_Type = ''students'', cq_ID = ''S001'', cq_Data = Some ((''deleted'', JBool True) # student_part)\<rparr>"
  obtain s b where s: "GetSession (demo_env 0) cookie_request family_app = (Some s, b)" "\<not> ss_IsSuperAdmin s"
    using family_session by blast
  have "\<exists>x. filter (\<lambda>x. st_id x = cq_ID ?q) (db_students (ap_DB (snd (HandleDataCRUD plain_texts (demo_env 0) cookie_request
      (Some (?q\<lparr>cq_Action := ''save''\<rparr>)) family_app)))) = [x] \<and> st_deleted x = 1"
    using saving_deletes_without_trace [OF s cookie_method, of ?q "(''deleted'', JBool True) # student_part" plain_texts]
    by (auto simp: getBool_def getString_def student_part_def named_def no_demo_faults)
  then show ?thesis by auto
qed

end
