(* ===== verification/MemoStore.thy ===== *)
theory MemoStore
  imports FilterFacts UserStore Tables
begin

text \<open>
  The memos of the note server: the store, \<open>memos/store/memo.go\<close>, \<open>memo_relation.go\<close> and \<open>attachment.go\<close>, over the
  SQLite driver, \<open>memos/store/db/sqlite\<close>. What SQLite makes of the text of a condition is the parameter
  \<open>ne_holds\<close>; the text, its arguments and how they are handed over in order are the driver's.
\<close>

section \<open>Tables\<close>

text \<open>
  The payload of a memo: what the markdown service extracts of the content (tags and properties, as one text), and
  the location of the form.
\<close>

record payload =
  pl_Data :: string
  pl_Location :: "string option"

record memo_row =
  mr_ID :: int
  mr_UID :: string
  mr_RowStatus :: string
  mr_CreatorID :: int
  mr_CreatedTs :: int
  mr_UpdatedTs :: int
  mr_Content :: string
  mr_Visibility :: string
  mr_Pinned :: bool
  mr_Payload :: payload

text \<open>A memo as it is read has the identifier of the memo it comments on.\<close>

record memo =
  me_Row :: memo_row
  me_ParentUID :: "string option"

record memo_relation =
  re_MemoID :: int
  re_RelatedMemoID :: int
  re_Type :: string

datatype storage = LocalStorage | S3Storage | DatabaseStorage

text \<open>The group of an attachment is the one of its motion media, empty without one.\<close>

record attachment =
  at_ID :: int
  at_UID :: string
  at_CreatorID :: int
  at_UpdatedTs :: int
  at_MemoID :: "int option"
  at_Storage :: storage
  at_GroupId :: string

record inbox_row =
  ib_SenderID :: int
  ib_ReceiverID :: int
  ib_MemoID :: int
  ib_RelatedMemoID :: int

record notes_db =
  nd_memos :: "memo_row tab"
  nd_relations :: "memo_relation list"
  nd_attachments :: "attachment list"
  nd_inbox :: "inbox_row list"
  nd_users :: "store_user list"

datatype note_stmt =
    Q_memo | I_memo | U_memo | D_memo | Q_relation | I_relation | D_relation | Q_attachment | U_attachment | D_attachment
  | Q_setting | Q_users | Q_reaction | I_inbox

text \<open>
  The environment of an operation: the clock, which statements fail, the expression parser, the meaning of a condition
  with its arguments, whether the driver refuses arguments left over, the files or objects that cannot be removed, the markdown service, and the setting of the
  instance, whether memos are dated by their update and how long they may be.
\<close>

record note_env =
  ne_now :: int
  ne_fails :: "note_stmt \<Rightarrow> bool"
  ne_cel :: cel_parser
  ne_holds :: "notes_db \<Rightarrow> string \<Rightarrow> sql_arg list \<Rightarrow> memo \<Rightarrow> bool"
  ne_strict :: bool
  ne_stuck :: "attachment \<Rightarrow> bool"
  ne_extract :: "string \<Rightarrow> string option"
  ne_uid :: string
  ne_DisplayWithUpdateTime :: bool
  ne_ContentLengthLimit :: int

definition visibility_allowed :: "string \<Rightarrow> bool" where
  "visibility_allowed v \<longleftrightarrow> v = ''PUBLIC'' \<or> v = ''PROTECTED'' \<or> v = ''PRIVATE''"

definition Visibility_String :: "string \<Rightarrow> string" where
  "Visibility_String v = (if v = ''PUBLIC'' \<or> v = ''PROTECTED'' then v else ''PRIVATE'')"

text \<open>\<open>UIDMatcher\<close>: letters and digits, with hyphens inside, 36 at most.\<close>

definition is_alnum :: "char \<Rightarrow> bool" where
  "is_alnum c \<longleftrightarrow> is_digit c \<or> (CHR ''a'' \<le> c \<and> c \<le> CHR ''z'') \<or> (CHR ''A'' \<le> c \<and> c \<le> CHR ''Z'')"

definition UIDMatcher :: "string \<Rightarrow> bool" where
  "UIDMatcher s \<longleftrightarrow> s \<noteq> [] \<and> length s \<le> 36 \<and> list_all (\<lambda>c. is_alnum c \<or> c = CHR ''-'') s \<and> is_alnum (hd s) \<and> is_alnum (last s)"

section \<open>Memos\<close>

record find_memo =
  fm_ID :: "int option"
  fm_UID :: "string option"
  fm_IDList :: "int list"
  fm_UIDList :: "string list"
  fm_RowStatus :: "string option"
  fm_CreatorID :: "int option"
  fm_VisibilityList :: "string list"
  fm_ExcludeComments :: bool
  fm_Filters :: "string list"
  fm_Limit :: "int option"
  fm_Offset :: "int option"
  fm_OrderByPinned :: bool
  fm_OrderByUpdatedTs :: bool
  fm_OrderByTimeAsc :: bool

definition find_all :: find_memo where
  "find_all = \<lparr>fm_ID = None, fm_UID = None, fm_IDList = [], fm_UIDList = [], fm_RowStatus = None, fm_CreatorID = None,
     fm_VisibilityList = [], fm_ExcludeComments = False, fm_Filters = [], fm_Limit = None, fm_Offset = None,
     fm_OrderByPinned = False, fm_OrderByUpdatedTs = False, fm_OrderByTimeAsc = False\<rparr>"

record update_memo =
  um_ID :: int
  um_UID :: "string option"
  um_CreatedTs :: "int option"
  um_UpdatedTs :: "int option"
  um_RowStatus :: "string option"
  um_Content :: "string option"
  um_Visibility :: "string option"
  um_Pinned :: "bool option"
  um_Payload :: "payload option"

definition update_nothing :: "int \<Rightarrow> update_memo" where
  "update_nothing i = \<lparr>um_ID = i, um_UID = None, um_CreatedTs = None, um_UpdatedTs = None, um_RowStatus = None,
     um_Content = None, um_Visibility = None, um_Pinned = None, um_Payload = None\<rparr>"

datatype store_error = UniqueViolation | OtherError

text \<open>A time of 0 is left to the default of the column.\<close>

definition mk_memo :: "note_env \<Rightarrow> memo_row \<Rightarrow> int \<Rightarrow> memo_row" where
  "mk_memo e create n = create\<lparr>mr_ID := n,
     mr_CreatedTs := (if mr_CreatedTs create \<noteq> 0 then mr_CreatedTs create else ne_now e),
     mr_UpdatedTs := (if mr_UpdatedTs create \<noteq> 0 then mr_UpdatedTs create else ne_now e),
     mr_RowStatus := ''NORMAL'', mr_Pinned := False\<rparr>"

interpretation memo_tab: autoinc mr_ID "mk_memo e" for e
  by unfold_locales (simp add: mk_memo_def)

definition driver_CreateMemo :: "note_env \<Rightarrow> memo_row \<Rightarrow> notes_db \<Rightarrow> store_error + memo_row \<times> notes_db" where
  "driver_CreateMemo e create db =
     (if ne_fails e I_memo \<or> \<not> visibility_allowed (mr_Visibility create) then Inl OtherError
      else if mr_UID create \<in> set (map mr_UID (tb_rows (nd_memos db))) then Inl UniqueViolation
      else Inr (mk_memo e create (tb_seq (nd_memos db) + 1), db\<lparr>nd_memos := insert_row (mk_memo e create) (nd_memos db)\<rparr>))"

definition with_cond :: "string \<Rightarrow> sql_arg list \<Rightarrow> string list \<times> sql_arg list \<Rightarrow> string list \<times> sql_arg list" where
  "with_cond s vs wa = (fst wa @ [s], snd wa @ vs)"

definition int_arg :: "int \<Rightarrow> sql_arg" where
  "int_arg i = AInt (word_of_int i)"

definition in_condition :: "string \<Rightarrow> nat \<Rightarrow> string" where
  "in_condition col n = col @ '' IN ('' @ sql_join '','' (replicate n ''?'') @ '')''"

text \<open>The conditions of a find, after those of its filters.\<close>

definition find_conditions :: "find_memo \<Rightarrow> string list \<times> sql_arg list \<Rightarrow> string list \<times> sql_arg list" where
  "find_conditions f wa =
     (let wa = (case fm_ID f of None \<Rightarrow> wa | Some i \<Rightarrow> with_cond ''`memo`.`id` = ?'' [int_arg i] wa);
          wa = (if fm_IDList f = [] then wa
                else with_cond (in_condition ''`memo`.`id`'' (length (fm_IDList f))) (map int_arg (fm_IDList f)) wa);
          wa = (case fm_UID f of None \<Rightarrow> wa | Some u \<Rightarrow> with_cond ''`memo`.`uid` = ?'' [AStr u] wa);
          wa = (if fm_UIDList f = [] then wa
                else with_cond (in_condition ''`memo`.`uid`'' (length (fm_UIDList f))) (map AStr (fm_UIDList f)) wa);
          wa = (case fm_CreatorID f of None \<Rightarrow> wa | Some i \<Rightarrow> with_cond ''`memo`.`creator_id` = ?'' [int_arg i] wa);
          wa = (case fm_RowStatus f of None \<Rightarrow> wa | Some s \<Rightarrow> with_cond ''`memo`.`row_status` = ?'' [AStr s] wa);
          wa = (if fm_VisibilityList f = [] then wa
                else with_cond (in_condition ''`memo`.`visibility`'' (length (fm_VisibilityList f)))
                       (map (\<lambda>v. AStr (Visibility_String v)) (fm_VisibilityList f)) wa)
      in if fm_ExcludeComments f then with_cond ''`parent_uid` IS NULL'' [] wa else wa)"

text \<open>
  The placeholders of a statement take its arguments from left to right; a statement with too few
  arguments is refused, one with too many where the driver is strict.
\<close>

fun all_hold :: "(string \<Rightarrow> sql_arg list \<Rightarrow> bool) \<Rightarrow> string list \<Rightarrow> sql_arg list \<Rightarrow> bool" where
  "all_hold P [] args = True"
| "all_hold P (w # ws) args = (P w (take (marks w) args) \<and> all_hold P ws (drop (marks w) args))"

definition joined :: "notes_db \<Rightarrow> memo_row \<Rightarrow> memo list" where
  "joined db r =
     (let parent = (\<lambda>rel. map_option mr_UID (List.find (\<lambda>p. mr_ID p = re_RelatedMemoID rel) (tb_rows (nd_memos db))));
          rels = filter (\<lambda>rel. re_MemoID rel = mr_ID r \<and> re_Type rel = ''COMMENT'') (nd_relations db)
      in if rels = [] then [\<lparr>me_Row = r, me_ParentUID = None\<rparr>]
         else map (\<lambda>rel. \<lparr>me_Row = r, me_ParentUID = parent rel\<rparr>) rels)"

definition ordered_memos :: "find_memo \<Rightarrow> memo list \<Rightarrow> memo list" where
  "ordered_memos f xs =
     (let ts = (\<lambda>m. if fm_OrderByUpdatedTs f then mr_UpdatedTs (me_Row m) else mr_CreatedTs (me_Row m));
          xs = desc_by (\<lambda>m. mr_ID (me_Row m)) xs;
          xs = (if fm_OrderByTimeAsc f then sort_key ts xs else desc_by ts xs)
      in if fm_OrderByPinned f then desc_by (\<lambda>m. mr_Pinned (me_Row m)) xs else xs)"

definition page :: "int option \<Rightarrow> int option \<Rightarrow> 'b list \<Rightarrow> 'b list" where
  "page l off xs = (case l of None \<Rightarrow> xs | Some _ \<Rightarrow> limited l (drop (nat (case off of None \<Rightarrow> 0 | Some k \<Rightarrow> k)) xs))"

definition driver_ListMemos :: "note_env \<Rightarrow> find_memo \<Rightarrow> notes_db \<Rightarrow> memo list option" where
  "driver_ListMemos e f db =
     (case AppendConditions (ne_cel e) (word_of_int (ne_now e)) NewSchema SQLite (fm_Filters f) ([''1 = 1''], []) of
        Inl er \<Rightarrow> None
      | Inr wa \<Rightarrow>
          (let (wh, args) = find_conditions f wa in
           if ne_fails e Q_memo \<or> length args < marks (concat wh) \<or> (ne_strict e \<and> marks (concat wh) < length args) then None
           else Some (page (fm_Limit f) (fm_Offset f) (ordered_memos f
                  (filter (\<lambda>m. all_hold (\<lambda>s vs. ne_holds e db s vs m) wh args) (concat (map (joined db) (tb_rows (nd_memos db)))))))))"

definition updated_memo :: "update_memo \<Rightarrow> memo_row \<Rightarrow> memo_row" where
  "updated_memo q r =
     r\<lparr>mr_UID := set_opt (um_UID q) (mr_UID r), mr_CreatedTs := set_opt (um_CreatedTs q) (mr_CreatedTs r),
       mr_UpdatedTs := set_opt (um_UpdatedTs q) (mr_UpdatedTs r), mr_RowStatus := set_opt (um_RowStatus q) (mr_RowStatus r),
       mr_Content := set_opt (um_Content q) (mr_Content r), mr_Visibility := set_opt (um_Visibility q) (mr_Visibility r),
       mr_Pinned := set_opt (um_Pinned q) (mr_Pinned r), mr_Payload := set_opt (um_Payload q) (mr_Payload r)\<rparr>"

text \<open>With nothing to set no statement runs.\<close>

definition driver_UpdateMemo :: "note_env \<Rightarrow> update_memo \<Rightarrow> notes_db \<Rightarrow> notes_db option" where
  "driver_UpdateMemo e q db =
     (let hit = (\<lambda>r. mr_ID r = um_ID q);
          others = map mr_UID (filter (\<lambda>r. \<not> hit r) (tb_rows (nd_memos db)))
      in if q = update_nothing (um_ID q) then Some db
         else if ne_fails e U_memo then None
         else if \<exists>r \<in> set (tb_rows (nd_memos db)). hit r \<and> (\<not> row_status_allowed (mr_RowStatus (updated_memo q r))
                \<or> \<not> visibility_allowed (mr_Visibility (updated_memo q r)) \<or> mr_UID (updated_memo q r) \<in> set others) then None
         else Some (db\<lparr>nd_memos := update_tab hit (updated_memo q) (nd_memos db)\<rparr>))"

definition driver_DeleteMemo :: "note_env \<Rightarrow> int \<Rightarrow> notes_db \<Rightarrow> notes_db option" where
  "driver_DeleteMemo e i db =
     (if ne_fails e D_memo then None else Some (db\<lparr>nd_memos := delete_tab (\<lambda>r. mr_ID r = i) (nd_memos db)\<rparr>))"

section \<open>Relations\<close>

record find_relation =
  fr_MemoID :: "int option"
  fr_RelatedMemoID :: "int option"
  fr_Type :: "string option"
  fr_MemoFilter :: "string option"
  fr_MemoIDList :: "int list"
  fr_Limit :: "int option"
  fr_Offset :: "int option"

definition find_relations :: find_relation where
  "find_relations = \<lparr>fr_MemoID = None, fr_RelatedMemoID = None, fr_Type = None, fr_MemoFilter = None, fr_MemoIDList = [],
     fr_Limit = None, fr_Offset = None\<rparr>"

definition UpsertMemoRelation :: "note_env \<Rightarrow> memo_relation \<Rightarrow> notes_db \<Rightarrow> notes_db option" where
  "UpsertMemoRelation e rel db =
     (if ne_fails e I_relation then None
      else Some (if rel \<in> set (nd_relations db) then db else db\<lparr>nd_relations := nd_relations db @ [rel]\<rparr>))"

definition passes_filter :: "note_env \<Rightarrow> notes_db \<Rightarrow> statement \<Rightarrow> int \<Rightarrow> bool" where
  "passes_filter e db st i \<longleftrightarrow>
     st_SQL st = [] \<or> (\<exists>r \<in> set (tb_rows (nd_memos db)). mr_ID r = i \<and> ne_holds e db (st_SQL st) (st_Args st) \<lparr>me_Row = r, me_ParentUID = None\<rparr>)"

text \<open>Both memos of a relation must pass the filter. The rows are the memos' latest first.\<close>

definition ListMemoRelations_db :: "note_env \<Rightarrow> find_relation \<Rightarrow> notes_db \<Rightarrow> memo_relation list option" where
  "ListMemoRelations_db e f db =
     (let own = (\<lambda>rel. opt_matches (fr_MemoID f) (re_MemoID rel) \<and> opt_matches (fr_RelatedMemoID f) (re_RelatedMemoID rel)
                   \<and> opt_matches (fr_Type f) (re_Type rel)
                   \<and> (fr_MemoIDList f = [] \<or> re_MemoID rel \<in> set (fr_MemoIDList f) \<or> re_RelatedMemoID rel \<in> set (fr_MemoIDList f)));
          found = (\<lambda>ok. Some (page (fr_Limit f) (fr_Offset f)
                     (desc_by re_MemoID (filter (\<lambda>rel. own rel \<and> ok (re_MemoID rel) \<and> ok (re_RelatedMemoID rel)) (nd_relations db)))))
      in case fr_MemoFilter f of
           None \<Rightarrow> if ne_fails e Q_relation then None else found (\<lambda>_. True)
         | Some src \<Rightarrow>
             (case CompileToStatement (ne_cel e) (word_of_int (ne_now e)) NewSchema src \<lparr>ro_Dialect = SQLite, ro_PlaceholderOffset = 0\<rparr> of
                Inl er \<Rightarrow> None
              | Inr st \<Rightarrow> if ne_fails e Q_relation then None else found (passes_filter e db st)))"

definition DeleteMemoRelation :: "note_env \<Rightarrow> int option \<Rightarrow> int option \<Rightarrow> string option \<Rightarrow> notes_db \<Rightarrow> notes_db option" where
  "DeleteMemoRelation e i j t db =
     (if ne_fails e D_relation then None
      else Some (db\<lparr>nd_relations := filter (\<lambda>rel. \<not> (opt_matches i (re_MemoID rel) \<and> opt_matches j (re_RelatedMemoID rel)
             \<and> opt_matches t (re_Type rel))) (nd_relations db)\<rparr>))"

section \<open>Attachments\<close>

text \<open>Without a list of memos the store asks for 100 attachments at most.\<close>

definition ListAttachments_where :: "note_env \<Rightarrow> (attachment \<Rightarrow> bool) \<Rightarrow> notes_db \<Rightarrow> attachment list option" where
  "ListAttachments_where e P db =
     (if ne_fails e Q_attachment then None else Some (take 100 (desc_by at_UpdatedTs (filter P (nd_attachments db)))))"

definition GetAttachment :: "note_env \<Rightarrow> (attachment \<Rightarrow> bool) \<Rightarrow> notes_db \<Rightarrow> attachment option option" where
  "GetAttachment e P db = map_option (\<lambda>xs. case xs of [] \<Rightarrow> None | x # _ \<Rightarrow> Some x) (ListAttachments_where e P db)"

definition UpdateAttachment_memo :: "note_env \<Rightarrow> int \<Rightarrow> int \<Rightarrow> int \<Rightarrow> notes_db \<Rightarrow> notes_db option" where
  "UpdateAttachment_memo e i memoID ts db =
     (if ne_fails e U_attachment then None
      else Some (db\<lparr>nd_attachments := update_where (\<lambda>x. at_ID x = i) (\<lambda>x. x\<lparr>at_MemoID := Some memoID, at_UpdatedTs := ts\<rparr>)
             (nd_attachments db)\<rparr>))"

text \<open>A local file that cannot be removed is an error, another object only a warning.\<close>

definition DeleteAttachment :: "note_env \<Rightarrow> int \<Rightarrow> notes_db \<Rightarrow> notes_db option" where
  "DeleteAttachment e i db =
     (case GetAttachment e (\<lambda>x. at_ID x = i) db of
        None \<Rightarrow> None
      | Some None \<Rightarrow> None
      | Some (Some x) \<Rightarrow>
          if at_Storage x = LocalStorage \<and> ne_stuck e x then None
          else if ne_fails e D_attachment then None
          else Some (db\<lparr>nd_attachments := filter (\<lambda>x. at_ID x \<noteq> i) (nd_attachments db)\<rparr>))"

fun delete_attachments :: "note_env \<Rightarrow> attachment list \<Rightarrow> notes_db \<Rightarrow> bool \<times> notes_db" where
  "delete_attachments e [] db = (True, db)"
| "delete_attachments e (x # xs) db =
     (case DeleteAttachment e (at_ID x) db of None \<Rightarrow> (False, db) | Some db \<Rightarrow> delete_attachments e xs db)"

section \<open>The store\<close>

definition store_CreateMemo :: "note_env \<Rightarrow> memo_row \<Rightarrow> notes_db \<Rightarrow> store_error + memo_row \<times> notes_db" where
  "store_CreateMemo e create db = (if UIDMatcher (mr_UID create) then driver_CreateMemo e create db else Inl OtherError)"

definition store_GetMemo :: "note_env \<Rightarrow> find_memo \<Rightarrow> notes_db \<Rightarrow> memo option option" where
  "store_GetMemo e f db = map_option (\<lambda>ms. case ms of [] \<Rightarrow> None | m # _ \<Rightarrow> Some m) (driver_ListMemos e f db)"

definition store_UpdateMemo :: "note_env \<Rightarrow> update_memo \<Rightarrow> notes_db \<Rightarrow> notes_db option" where
  "store_UpdateMemo e q db =
     (if (case um_UID q of None \<Rightarrow> False | Some u \<Rightarrow> \<not> UIDMatcher u) then None else driver_UpdateMemo e q db)"

text \<open>The relations of the memo go first, then its attachments. What has been removed stays removed when a later step fails.\<close>

definition store_DeleteMemo :: "note_env \<Rightarrow> int \<Rightarrow> notes_db \<Rightarrow> bool \<times> notes_db" where
  "store_DeleteMemo e i db =
     (case DeleteMemoRelation e (Some i) None None db of
        None \<Rightarrow> (False, db)
      | Some db \<Rightarrow>
          (case DeleteMemoRelation e None (Some i) None db of
             None \<Rightarrow> (False, db)
           | Some db \<Rightarrow>
               (case ListAttachments_where e (\<lambda>x. at_MemoID x = Some i) db of
                  None \<Rightarrow> (False, db)
                | Some xs \<Rightarrow>
                    (case delete_attachments e xs db of
                       (False, db) \<Rightarrow> (False, db)
                     | (True, db) \<Rightarrow> (case driver_DeleteMemo e i db of None \<Rightarrow> (False, db) | Some db \<Rightarrow> (True, db))))))"

end
