(* ===== verification/MemoService.thy ===== *)
theory MemoService
  imports MemoStore RateLimiter
begin

text \<open>
  The memo service of the note server, \<open>memos/server/router/api/v1\<close>: \<open>memo_service.go\<close>,
  \<open>memo_relation_service.go\<close> and \<open>memo_attachment_service.go\<close>. An operation takes the user it acts for, which is what
  \<open>fetchCurrentUser\<close> returns, the request and the tables, and answers with a message or the code of an error; an
  operation that writes returns the tables too, with what was written before an error. Reactions, snippets, web hooks,
  events and the notifications of mentions are left out of the answers.
\<close>

section \<open>Answers and names\<close>

datatype note_code =
  InvalidArgument | Unauthenticated | PermissionDenied | NotFound | AlreadyExists | Internal | Unknown | Panics

type_synonym 'a answer = "note_code + 'a"

definition or_code :: "note_code \<Rightarrow> 'a option \<Rightarrow> 'a answer" where
  "or_code c r = (case r of None \<Rightarrow> Inl c | Some x \<Rightarrow> Inr x)"

definition and_then :: "'a answer \<Rightarrow> ('a \<Rightarrow> 'b answer) \<Rightarrow> 'b answer" where
  "and_then r f = (case r of Inl c \<Rightarrow> Inl c | Inr x \<Rightarrow> f x)"

definition unless_fails :: "bool \<Rightarrow> note_code \<Rightarrow> 'b answer \<Rightarrow> 'b answer" where
  "unless_fails b c r = (if b then Inl c else r)"

fun tokens_of :: "string list \<Rightarrow> string list \<Rightarrow> string list option" where
  "tokens_of [] [] = Some []"
| "tokens_of (p # t # ps) (pre # pres) =
     (if p @ ''/'' \<noteq> pre \<or> t = [] then None else map_option (\<lambda>ts. t # ts) (tokens_of ps pres))"
| "tokens_of _ _ = None"

definition GetNameParentTokens :: "string \<Rightarrow> string list \<Rightarrow> string list option" where
  "GetNameParentTokens name pres = tokens_of (split_on (CHR ''/'') name) pres"

definition ExtractMemoUIDFromName :: "string \<Rightarrow> string option" where
  "ExtractMemoUIDFromName name = map_option hd (GetNameParentTokens name [''memos/''])"

definition ExtractAttachmentUIDFromName :: "string \<Rightarrow> string option" where
  "ExtractAttachmentUIDFromName name = map_option hd (GetNameParentTokens name [''attachments/''])"

definition buildMemoName :: "string \<Rightarrow> string" where
  "buildMemoName uid = ''memos/'' @ uid"

definition BuildUserName :: "string \<Rightarrow> string" where
  "BuildUserName username = ''users/'' @ username"

definition ValidateAndGenerateUID :: "note_env \<Rightarrow> string \<Rightarrow> string option" where
  "ValidateAndGenerateUID e provided =
     (let uid = trim_space provided in if uid = [] then Some (ne_uid e) else if UIDMatcher uid then Some uid else None)"

section \<open>The user\<close>

definition user_by_id :: "int \<Rightarrow> find_user" where
  "user_by_id i = \<lparr>fu_ID = Some i, fu_IDList = [], fu_UsernameList = [], fu_RowStatus = None, fu_Username = None, fu_Role = None,
     fu_Email = None, fu_Nickname = None, fu_Search = None, fu_Filters = [], fu_Limit = None\<rparr>"

text \<open>\<open>None\<close> is an error, \<open>Some None\<close> a visitor who has not logged in.\<close>

definition fetchCurrentUser :: "store_env \<Rightarrow> int \<Rightarrow> user_store \<Rightarrow> store_user option option \<times> user_store" where
  "fetchCurrentUser e userID s =
     (if userID = 0 then (Some None, s)
      else case GetUser_by e (user_by_id userID) s of
        (Some (Some u), s) \<Rightarrow> (Some (Some u), s)
      | (_, s) \<Rightarrow> (None, s))"

definition isSuperUser :: "store_user \<Rightarrow> bool" where
  "isSuperUser u \<longleftrightarrow> su_Role u = ''ADMIN''"

section \<open>Conversions\<close>

datatype api_state = StateUnspecified | StateNormal | StateArchived

datatype api_visibility = VisibilityUnspecified | VisibilityPrivate | VisibilityProtected | VisibilityPublic

definition convertStateFromStore :: "string \<Rightarrow> api_state" where
  "convertStateFromStore s =
     (if s = ''NORMAL'' then StateNormal else if s = ''ARCHIVED'' then StateArchived else StateUnspecified)"

definition convertStateToStore :: "api_state \<Rightarrow> string" where
  "convertStateToStore s = (case s of StateArchived \<Rightarrow> ''ARCHIVED'' | _ \<Rightarrow> ''NORMAL'')"

definition convertVisibilityFromStore :: "string \<Rightarrow> api_visibility" where
  "convertVisibilityFromStore v =
     (if v = ''PRIVATE'' then VisibilityPrivate else if v = ''PROTECTED'' then VisibilityProtected
      else if v = ''PUBLIC'' then VisibilityPublic else VisibilityUnspecified)"

definition convertVisibilityToStore :: "api_visibility \<Rightarrow> string" where
  "convertVisibilityToStore v =
     (case v of VisibilityProtected \<Rightarrow> ''PROTECTED'' | VisibilityPublic \<Rightarrow> ''PUBLIC'' | _ \<Rightarrow> ''PRIVATE'')"

record relation_message =
  rm_Memo :: string
  rm_RelatedMemo :: string
  rm_IsComment :: bool

record memo_message =
  ms_Name :: string
  ms_State :: api_state
  ms_Creator :: string
  ms_CreateTime :: int
  ms_UpdateTime :: int
  ms_DisplayTime :: int
  ms_Content :: string
  ms_Visibility :: api_visibility
  ms_Pinned :: bool
  ms_Payload :: payload
  ms_Parent :: "string option"
  ms_Relations :: "relation_message list"
  ms_Attachments :: "string list"

definition user_of :: "notes_db \<Rightarrow> int \<Rightarrow> store_user option" where
  "user_of db i = List.find (\<lambda>u. su_ID u = i) (nd_users db)"

text \<open>A memo without its creator is \<open>errMemoCreatorNotFound\<close>, here \<open>None\<close>.\<close>

definition convertMemoFromStoreWithCreators ::
  "note_env \<Rightarrow> notes_db \<Rightarrow> memo \<Rightarrow> attachment list \<Rightarrow> relation_message list \<Rightarrow> memo_message option answer" where
  "convertMemoFromStoreWithCreators e db m atts rels =
     (let r = me_Row m in
      unless_fails (ne_fails e Q_setting) Unknown
        (Inr (map_option (\<lambda>u. \<lparr>ms_Name = buildMemoName (mr_UID r), ms_State = convertStateFromStore (mr_RowStatus r),
           ms_Creator = BuildUserName (su_Username u), ms_CreateTime = mr_CreatedTs r, ms_UpdateTime = mr_UpdatedTs r,
           ms_DisplayTime = (if ne_DisplayWithUpdateTime e then mr_UpdatedTs r else mr_CreatedTs r), ms_Content = mr_Content r,
           ms_Visibility = convertVisibilityFromStore (mr_Visibility r), ms_Pinned = mr_Pinned r, ms_Payload = mr_Payload r,
           ms_Parent = map_option buildMemoName (me_ParentUID m), ms_Relations = rels,
           ms_Attachments = map (\<lambda>x. ''attachments/'' @ at_UID x) atts\<rparr>) (user_of db (mr_CreatorID r)))))"

section \<open>What a user may see\<close>

definition quoted :: "string \<Rightarrow> string" where
  "quoted s = [CHR 0x22] @ s @ [CHR 0x22]"

text \<open>The filter for what the user may see, as text of the filter language.\<close>

definition own_or_shared :: "int \<Rightarrow> string" where
  "own_or_shared i = ''creator_id == '' @ itoa i @ '' || visibility in ['' @ quoted ''PUBLIC'' @ '', '' @ quoted ''PROTECTED'' @ '']''"

definition viewer_filter :: "store_user option \<Rightarrow> string" where
  "viewer_filter who = (case who of None \<Rightarrow> ''visibility == '' @ quoted ''PUBLIC'' | Some u \<Rightarrow> own_or_shared (su_ID u))"

definition relation_message_of :: "(int \<Rightarrow> string option) \<Rightarrow> memo_relation \<Rightarrow> relation_message list" where
  "relation_message_of uid rel =
     (case (uid (re_MemoID rel), uid (re_RelatedMemoID rel)) of
        (Some u, Some v) \<Rightarrow> [\<lparr>rm_Memo = buildMemoName u, rm_RelatedMemo = buildMemoName v, rm_IsComment = (re_Type rel = ''COMMENT'')\<rparr>]
      | _ \<Rightarrow> [])"

definition batchConvertMemoRelations :: "note_env \<Rightarrow> store_user option \<Rightarrow> memo list \<Rightarrow> notes_db \<Rightarrow> (int \<Rightarrow> relation_message list) option" where
  "batchConvertMemoRelations e who ms db =
     (if ms = [] then Some (\<lambda>_. [])
      else let ids = map (\<lambda>m. mr_ID (me_Row m)) ms in
        case ListMemoRelations_db e (find_relations\<lparr>fr_MemoIDList := ids, fr_MemoFilter := Some (viewer_filter who)\<rparr>) db of
          None \<Rightarrow> None
        | Some rels \<Rightarrow>
            (let needed = filter (\<lambda>i. i \<notin> set ids) (remdups (concat (map (\<lambda>rel. [re_MemoID rel, re_RelatedMemoID rel]) rels)));
                 extra = (if needed = [] then Some [] else driver_ListMemos e (find_all\<lparr>fm_IDList := needed\<rparr>) db)
             in case extra of
                  None \<Rightarrow> None
                | Some others \<Rightarrow>
                    (let uid = map_of (map (\<lambda>m. (mr_ID (me_Row m), mr_UID (me_Row m))) (ms @ others))
                     in Some (\<lambda>i. concat (map (\<lambda>rel. concat (replicate
                          (of_bool (re_MemoID rel = i) + of_bool (re_RelatedMemoID rel = i)) (relation_message_of uid rel))) rels)))))"

definition loadMemoRelations :: "note_env \<Rightarrow> store_user option \<Rightarrow> memo \<Rightarrow> notes_db \<Rightarrow> relation_message list option" where
  "loadMemoRelations e who m db = map_option (\<lambda>f. f (mr_ID (me_Row m))) (batchConvertMemoRelations e who [m] db)"

text \<open>The message of one memo; \<open>c\<close> is the code of the first two queries.\<close>

definition memo_message_of :: "note_env \<Rightarrow> note_code \<Rightarrow> store_user option \<Rightarrow> memo \<Rightarrow> notes_db \<Rightarrow> memo_message option answer" where
  "memo_message_of e c who m db =
     unless_fails (ne_fails e Q_reaction) c
       (and_then (or_code c (ListAttachments_where e (\<lambda>x. at_MemoID x = Some (mr_ID (me_Row m))) db))
         (\<lambda>atts. and_then (or_code Unknown (loadMemoRelations e who m db))
           (\<lambda>rels. unless_fails (ne_fails e Q_users) Unknown (convertMemoFromStoreWithCreators e db m atts rels))))"

section \<open>Reading\<close>

definition find_uid :: "string \<Rightarrow> find_memo" where
  "find_uid uid = find_all\<lparr>fm_UID := Some uid\<rparr>"

definition reading_refused :: "store_user option option \<Rightarrow> memo \<Rightarrow> note_code option" where
  "reading_refused who m =
     (let r = me_Row m; mine = (\<lambda>u. mr_CreatorID r = su_ID u) in
      if mr_RowStatus r = ''ARCHIVED'' \<and> who = None then Some Internal
      else if mr_RowStatus r = ''ARCHIVED'' \<and> \<not> (\<exists>u \<in> set_option (the who). mine u) then Some NotFound
      else if mr_Visibility r = ''PUBLIC'' then None
      else case who of
        None \<Rightarrow> Some Internal
      | Some None \<Rightarrow> Some Unauthenticated
      | Some (Some u) \<Rightarrow> if mr_Visibility r = ''PRIVATE'' \<and> \<not> mine u then Some PermissionDenied else None)"

definition named_memo :: "note_env \<Rightarrow> note_code \<Rightarrow> string \<Rightarrow> notes_db \<Rightarrow> memo option answer" where
  "named_memo e c name db =
     and_then (or_code InvalidArgument (ExtractMemoUIDFromName name)) (\<lambda>uid. or_code c (store_GetMemo e (find_uid uid) db))"

definition existing_memo :: "note_env \<Rightarrow> note_code \<Rightarrow> string \<Rightarrow> notes_db \<Rightarrow> memo answer" where
  "existing_memo e c name db = and_then (named_memo e c name db) (or_code NotFound)"

definition GetMemo :: "note_env \<Rightarrow> store_user option option \<Rightarrow> string \<Rightarrow> notes_db \<Rightarrow> memo_message answer" where
  "GetMemo e who name db =
     and_then (existing_memo e Unknown name db)
       (\<lambda>m. case reading_refused who m of
          Some c \<Rightarrow> Inl c
        | None \<Rightarrow> and_then (memo_message_of e Internal (case who of None \<Rightarrow> None | Some u \<Rightarrow> u) m db) (or_code NotFound))"

section \<open>Listing\<close>

definition normalizePageSize :: "int \<Rightarrow> int" where
  "normalizePageSize n = (if n \<le> 0 then 10 else if 1000 < n then 1000 else n)"

definition order_field :: "string \<Rightarrow> find_memo \<Rightarrow> find_memo option" where
  "order_field field f =
     (case fields_func is_space (trim_space field) of
        [] \<Rightarrow> Some f
      | name # rest \<Rightarrow>
          (let dir = (case rest of [] \<Rightarrow> ''desc'' | d # _ \<Rightarrow> to_lower d) in
           if dir \<noteq> ''asc'' \<and> dir \<noteq> ''desc'' then None
           else if name = ''pinned'' then Some (f\<lparr>fm_OrderByPinned := True\<rparr>)
           else if name = ''display_time'' \<or> name = ''create_time'' \<or> name = ''name'' then
             Some (if fm_OrderByUpdatedTs f then f else f\<lparr>fm_OrderByTimeAsc := (dir = ''asc'')\<rparr>)
           else if name = ''update_time'' then Some (f\<lparr>fm_OrderByUpdatedTs := True, fm_OrderByTimeAsc := (dir = ''asc'')\<rparr>)
           else None))"

fun order_fields :: "string list \<Rightarrow> find_memo \<Rightarrow> find_memo option" where
  "order_fields [] f = Some f"
| "order_fields (x # xs) f = (case order_field x f of None \<Rightarrow> None | Some f \<Rightarrow> order_fields xs f)"

definition parseMemoOrderBy :: "string \<Rightarrow> find_memo \<Rightarrow> find_memo option" where
  "parseMemoOrderBy orderBy f =
     (if trim_space orderBy = [] then None
      else let parts = split_on (CHR '','') orderBy in
        map_option (\<lambda>f. if fm_OrderByPinned f \<and> \<not> fm_OrderByUpdatedTs f \<and> length parts = 1 then f\<lparr>fm_OrderByTimeAsc := False\<rparr> else f)
          (order_fields parts f))"

definition validateFilter :: "note_env \<Rightarrow> string \<Rightarrow> bool" where
  "validateFilter e src \<longleftrightarrow> src \<noteq> [] \<and>
     (case CompileToStatement (ne_cel e) (word_of_int (ne_now e)) NewSchema src \<lparr>ro_Dialect = SQLite, ro_PlaceholderOffset = 0\<rparr> of
        Inl er \<Rightarrow> False | Inr st \<Rightarrow> True)"

text \<open>The page token is decoded: absent, not readable, or a limit and an offset.\<close>

record list_request =
  lq_Archived :: bool
  lq_OrderBy :: string
  lq_Filter :: string
  lq_PageSize :: int
  lq_PageToken :: "(int \<times> int) option option"

definition page_of :: "int \<Rightarrow> (int \<times> int) option option \<Rightarrow> (int \<times> int) option" where
  "page_of sz token =
     (case token of
        None \<Rightarrow> Some (normalizePageSize sz, 0)
      | Some None \<Rightarrow> None
      | Some (Some (l, off)) \<Rightarrow> Some (normalizePageSize l, max 0 off))"

text \<open>What is looked for, without the page; an archived list is the user's own.\<close>

definition list_find :: "note_env \<Rightarrow> store_user option \<Rightarrow> list_request \<Rightarrow> find_memo answer" where
  "list_find e who q =
     (let f = find_all\<lparr>fm_ExcludeComments := True, fm_RowStatus := Some (if lq_Archived q then ''ARCHIVED'' else ''NORMAL''),
                fm_CreatorID := (if lq_Archived q then map_option su_ID who else None)\<rparr>
      in and_then (or_code InvalidArgument (if lq_OrderBy q = [] then Some f else parseMemoOrderBy (lq_OrderBy q) f))
        (\<lambda>f. if lq_Filter q \<noteq> [] \<and> \<not> validateFilter e (lq_Filter q) then Inl InvalidArgument
           else let f = (if lq_Filter q = [] then f else f\<lparr>fm_Filters := fm_Filters f @ [lq_Filter q]\<rparr>) in
             Inr (case who of
                None \<Rightarrow> f\<lparr>fm_VisibilityList := [''PUBLIC'']\<rparr>
              | Some u \<Rightarrow> (case fm_CreatorID f of
                    None \<Rightarrow> f\<lparr>fm_Filters := fm_Filters f @ [own_or_shared (su_ID u)]\<rparr>
                  | Some i \<Rightarrow> if i \<noteq> su_ID u then f\<lparr>fm_VisibilityList := [''PUBLIC'', ''PROTECTED'']\<rparr> else f))))"

definition memo_messages :: "note_env \<Rightarrow> note_code \<Rightarrow> store_user option \<Rightarrow> memo list \<Rightarrow> notes_db \<Rightarrow> memo_message list answer" where
  "memo_messages e c who ms db =
     (if ms = [] then Inr []
      else unless_fails (ne_fails e Q_reaction \<or> ne_fails e Q_attachment) c
        (and_then (or_code c (batchConvertMemoRelations e who ms db))
          (\<lambda>rels. unless_fails (ne_fails e Q_users) c (unless_fails (ne_fails e Q_setting) Unknown
             (Inr (concat (map (\<lambda>m. case convertMemoFromStoreWithCreators e db m
                  (desc_by at_UpdatedTs (filter (\<lambda>x. at_MemoID x = Some (mr_ID (me_Row m))) (nd_attachments db))) (rels (mr_ID (me_Row m))) of
                Inr (Some msg) \<Rightarrow> [msg] | _ \<Rightarrow> []) ms)))))))"

definition ListMemos :: "note_env \<Rightarrow> store_user option option \<Rightarrow> list_request \<Rightarrow> notes_db \<Rightarrow> (memo_message list \<times> (int \<times> int) option) answer" where
  "ListMemos e who q db =
     (case who of
        None \<Rightarrow> Inl Internal
      | Some u \<Rightarrow>
          if lq_Archived q \<and> u = None then Inr ([], None)
          else and_then (list_find e u q)
            (\<lambda>f. unless_fails (ne_fails e Q_setting) Internal
              (and_then (or_code InvalidArgument (page_of (lq_PageSize q) (lq_PageToken q)))
                (\<lambda>(l, off). let f = (if ne_DisplayWithUpdateTime e then f\<lparr>fm_OrderByUpdatedTs := True\<rparr> else f) in
                   and_then (or_code Internal (driver_ListMemos e (f\<lparr>fm_Limit := Some (l + 1), fm_Offset := Some off\<rparr>) db))
                     (\<lambda>ms. let full = (int (length ms) = l + 1) in
                        and_then (memo_messages e Internal u (if full then take (nat l) ms else ms) db)
                          (\<lambda>msgs. Inr (msgs, if full then Some (l, off + l) else None)))))))"

text \<open>The comments of a memo; a memo that does not exist is a nil pointer.\<close>

definition ListMemoComments :: "note_env \<Rightarrow> store_user option option \<Rightarrow> string \<Rightarrow> int \<Rightarrow> (int \<times> int) option option \<Rightarrow> notes_db
    \<Rightarrow> (memo_message list \<times> (int \<times> int) option) answer" where
  "ListMemoComments e who name sz token db =
     and_then (named_memo e Internal name db)
       (\<lambda>found. and_then (or_code Internal who)
         (\<lambda>u. and_then (or_code InvalidArgument (page_of sz token))
           (\<lambda>(l, off). and_then (or_code Panics found)
             (\<lambda>m. and_then (or_code Internal (ListMemoRelations_db e (find_relations\<lparr>fr_RelatedMemoID := Some (mr_ID (me_Row m)),
                    fr_Type := Some ''COMMENT'', fr_MemoFilter := Some (viewer_filter u), fr_Limit := Some (l + 1), fr_Offset := Some off\<rparr>) db))
               (\<lambda>rels. let full = (int (length rels) = l + 1); shown = (if full then take (nat l) rels else rels);
                          token = (if full then Some (l, off + l) else None) in
                  if shown = [] then Inr ([], token)
                  else and_then (or_code Internal (driver_ListMemos e (find_all\<lparr>fm_IDList := map re_MemoID shown\<rparr>) db))
                    (\<lambda>ms. unless_fails (ne_fails e Q_reaction \<or> ne_fails e Q_attachment) Internal
                      (and_then (memo_messages e Internal u ms db) (\<lambda>msgs. Inr (msgs, token)))))))))"

end
