(* ===== verification/MemoWrites.thy ===== *)
theory MemoWrites
  imports MemoService
begin

text \<open>
  The operations of the memo service that write: creating, updating and deleting memos, comments, relations and
  attachments. An operation returns the tables with what was written before an error.
\<close>

section \<open>Attachments\<close>

text \<open>The state of the loop: what has been taken, the groups and the attachments seen.\<close>

type_synonym taken = "attachment list \<times> string set \<times> string set"

fun take_members :: "attachment list \<Rightarrow> taken \<Rightarrow> taken" where
  "take_members [] acc = acc"
| "take_members (x # xs) (norm, groups, uids) =
     take_members xs (if at_UID x \<in> uids then (norm, groups, uids) else (norm @ [x], groups, insert (at_UID x) uids))"

definition group_members :: "string \<Rightarrow> attachment list \<Rightarrow> attachment list" where
  "group_members g xs = filter (\<lambda>x. at_GroupId x = g) xs"

definition take_attachment :: "attachment list \<Rightarrow> attachment list \<Rightarrow> attachment \<Rightarrow> taken \<Rightarrow> taken" where
  "take_attachment cur req x acc =
     (case acc of (norm, groups, uids) \<Rightarrow>
        (let g = at_GroupId x; mates = group_members g cur in
         if g = [] then take_members [x] acc
         else if g \<in> groups then acc
         else if 2 \<le> length mates \<and> \<not> list_all (\<lambda>y. at_UID y \<in> at_UID ` set (group_members g req)) mates
         then (norm, insert g groups, uids)
         else (case take_members (group_members g req) acc of (norm, groups, uids) \<Rightarrow> (norm, insert g groups, uids))))"

definition normalized :: "attachment list \<Rightarrow> attachment list \<Rightarrow> attachment list" where
  "normalized cur req = fst (fold (take_attachment cur req) req ([], {}, {}))"

fun requested_attachments :: "note_env \<Rightarrow> string list \<Rightarrow> notes_db \<Rightarrow> attachment list answer" where
  "requested_attachments e [] db = Inr []"
| "requested_attachments e (n # ns) db =
     and_then (or_code InvalidArgument (ExtractAttachmentUIDFromName n))
       (\<lambda>uid. and_then (or_code Internal (GetAttachment e (\<lambda>x. at_UID x = uid) db))
         (\<lambda>found. and_then (or_code NotFound found)
           (\<lambda>x. and_then (requested_attachments e ns db) (\<lambda>xs. Inr (x # xs)))))"

fun link_attachments :: "note_env \<Rightarrow> int \<Rightarrow> int \<Rightarrow> attachment list \<Rightarrow> notes_db \<Rightarrow> bool \<times> notes_db" where
  "link_attachments e memoID ts [] db = (True, db)"
| "link_attachments e memoID ts (x # xs) db =
     (case UpdateAttachment_memo e (at_ID x) memoID ts db of
        None \<Rightarrow> (False, db) | Some db \<Rightarrow> link_attachments e memoID (ts + 1) xs db)"

text \<open>The attachments not asked for are deleted, the others get the memo, whoever created them.\<close>

definition setMemoAttachmentsInternal :: "note_env \<Rightarrow> memo_row \<Rightarrow> string list \<Rightarrow> notes_db \<Rightarrow> note_code option \<times> notes_db" where
  "setMemoAttachmentsInternal e r names db =
     (case ListAttachments_where e (\<lambda>x. at_MemoID x = Some (mr_ID r)) db of
        None \<Rightarrow> (Some Internal, db)
      | Some cur \<Rightarrow>
          (case requested_attachments e names db of
             Inl c \<Rightarrow> (Some c, db)
           | Inr req \<Rightarrow>
               (let norm = normalized cur req in
                case delete_attachments e (filter (\<lambda>x. at_ID x \<notin> at_ID ` set norm) cur) db of
                  (False, db) \<Rightarrow> (Some Internal, db)
                | (True, db) \<Rightarrow>
                    (case link_attachments e (mr_ID r) (ne_now e) (rev norm) db of
                       (False, db) \<Rightarrow> (Some Internal, db) | (True, db) \<Rightarrow> (None, db)))))"

section \<open>Relations\<close>

text \<open>A related memo that does not exist is a nil pointer.\<close>

fun upsert_relations :: "note_env \<Rightarrow> memo_row \<Rightarrow> (string \<times> bool) list \<Rightarrow> notes_db \<Rightarrow> note_code option \<times> notes_db" where
  "upsert_relations e r [] db = (None, db)"
| "upsert_relations e r ((name, is_comment) # rels) db =
     (if buildMemoName (mr_UID r) = name \<or> is_comment then upsert_relations e r rels db
      else case and_then (named_memo e Internal name db) (or_code Panics) of
        Inl c \<Rightarrow> (Some c, db)
      | Inr m \<Rightarrow>
          (case UpsertMemoRelation e \<lparr>re_MemoID = mr_ID r, re_RelatedMemoID = mr_ID (me_Row m), re_Type = ''REFERENCE''\<rparr> db of
             None \<Rightarrow> (Some Internal, db) | Some db \<Rightarrow> upsert_relations e r rels db))"

definition setMemoRelationsInternal :: "note_env \<Rightarrow> memo_row \<Rightarrow> (string \<times> bool) list \<Rightarrow> notes_db \<Rightarrow> note_code option \<times> notes_db" where
  "setMemoRelationsInternal e r rels db =
     (case DeleteMemoRelation e (Some (mr_ID r)) None (Some ''REFERENCE'') db of
        None \<Rightarrow> (Some Internal, db) | Some db \<Rightarrow> upsert_relations e r rels db)"

section \<open>Changing the parts of a memo\<close>

text \<open>Who may write: the creator or an administrator of the note server.\<close>

definition writing_refused :: "store_user option option \<Rightarrow> memo \<Rightarrow> note_code option" where
  "writing_refused who m =
     (case who of
        None \<Rightarrow> Some Internal
      | Some None \<Rightarrow> Some Unauthenticated
      | Some (Some u) \<Rightarrow> if mr_CreatorID (me_Row m) \<noteq> su_ID u \<and> \<not> isSuperUser u then Some PermissionDenied else None)"

definition touchMemoUpdatedTimestamp :: "note_env \<Rightarrow> int \<Rightarrow> notes_db \<Rightarrow> notes_db option" where
  "touchMemoUpdatedTimestamp e i db = store_UpdateMemo e ((update_nothing i)\<lparr>um_UpdatedTs := Some (ne_now e)\<rparr>) db"

definition buildUpdatedMemoState :: "note_env \<Rightarrow> store_user option \<Rightarrow> int \<Rightarrow> notes_db \<Rightarrow> memo_message answer" where
  "buildUpdatedMemoState e who i db =
     and_then (or_code Unknown (store_GetMemo e (find_all\<lparr>fm_ID := Some i\<rparr>) db))
       (\<lambda>found. and_then (or_code Unknown found)
         (\<lambda>m. and_then (memo_message_of e Unknown who m db) (or_code Unknown)))"

text \<open>
  \<open>SetMemoRelations\<close> and \<open>SetMemoAttachments\<close>, with what they set as an argument. The user is asked for before
  the name is read.
\<close>

definition set_memo_part ::
  "(memo_row \<Rightarrow> notes_db \<Rightarrow> note_code option \<times> notes_db) \<Rightarrow> note_env \<Rightarrow> store_user option option \<Rightarrow> string \<Rightarrow> notes_db
    \<Rightarrow> unit answer \<times> notes_db" where
  "set_memo_part put e who name db =
     (case who of
        None \<Rightarrow> (Inl Internal, db)
      | Some None \<Rightarrow> (Inl Unauthenticated, db)
      | Some (Some u) \<Rightarrow>
          (case existing_memo e Internal name db of
             Inl c \<Rightarrow> (Inl c, db)
           | Inr m \<Rightarrow>
               (case writing_refused who m of
                  Some c \<Rightarrow> (Inl c, db)
                | None \<Rightarrow>
                    (case put (me_Row m) db of
                       (Some c, db) \<Rightarrow> (Inl c, db)
                     | (None, db) \<Rightarrow>
                         (case touchMemoUpdatedTimestamp e (mr_ID (me_Row m)) db of
                            None \<Rightarrow> (Inl Internal, db)
                          | Some db \<Rightarrow> (case buildUpdatedMemoState e (Some u) (mr_ID (me_Row m)) db of
                              Inl c \<Rightarrow> (Inl Internal, db) | Inr _ \<Rightarrow> (Inr (), db)))))))"

definition SetMemoRelations :: "note_env \<Rightarrow> store_user option option \<Rightarrow> string \<Rightarrow> (string \<times> bool) list \<Rightarrow> notes_db \<Rightarrow> unit answer \<times> notes_db" where
  "SetMemoRelations e who name rels db = set_memo_part (\<lambda>r. setMemoRelationsInternal e r rels) e who name db"

definition SetMemoAttachments :: "note_env \<Rightarrow> store_user option option \<Rightarrow> string \<Rightarrow> string list \<Rightarrow> notes_db \<Rightarrow> unit answer \<times> notes_db" where
  "SetMemoAttachments e who name atts db = set_memo_part (\<lambda>r. setMemoAttachmentsInternal e r atts) e who name db"

section \<open>Updating\<close>

text \<open>A time that is absent reads as 0, except for the update's, which is then now.\<close>

record update_request =
  uq_Name :: string
  uq_Mask :: "string list"
  uq_Content :: string
  uq_Visibility :: api_visibility
  uq_Pinned :: bool
  uq_State :: api_state
  uq_CreateTime :: int
  uq_UpdateTime :: "int option"
  uq_DisplayTime :: int
  uq_Location :: "string option"
  uq_Attachments :: "string list"
  uq_Relations :: "(string \<times> bool) list"

type_synonym updating = "memo_row \<times> update_memo \<times> notes_db"

definition update_content :: "note_env \<Rightarrow> string \<Rightarrow> updating \<Rightarrow> updating answer" where
  "update_content e content x =
     (case x of (r, q, db) \<Rightarrow>
        unless_fails (ne_fails e Q_setting) Internal
          (unless_fails (ne_ContentLengthLimit e < int (length content)) InvalidArgument
            (and_then (or_code Internal (ne_extract e content))
              (\<lambda>d. let p = (mr_Payload r)\<lparr>pl_Data := d\<rparr>
                   in Inr (r\<lparr>mr_Content := content, mr_Payload := p\<rparr>, q\<lparr>um_Content := Some content, um_Payload := Some p\<rparr>, db)))))"

definition update_path :: "note_env \<Rightarrow> update_request \<Rightarrow> string \<Rightarrow> updating \<Rightarrow> note_code option \<times> updating" where
  "update_path e u path x =
     (case x of (r, q, db) \<Rightarrow>
        if path = ''content'' then (case update_content e (uq_Content u) x of Inl c \<Rightarrow> (Some c, x) | Inr y \<Rightarrow> (None, y))
        else if path = ''visibility'' then (None, r, q\<lparr>um_Visibility := Some (convertVisibilityToStore (uq_Visibility u))\<rparr>, db)
        else if path = ''pinned'' then (None, r, q\<lparr>um_Pinned := Some (uq_Pinned u)\<rparr>, db)
        else if path = ''state'' then (None, r, q\<lparr>um_RowStatus := Some (convertStateToStore (uq_State u))\<rparr>, db)
        else if path = ''create_time'' then (None, r, q\<lparr>um_CreatedTs := Some (uq_CreateTime u)\<rparr>, db)
        else if path = ''update_time'' then
          (None, r, q\<lparr>um_UpdatedTs := Some (case uq_UpdateTime u of None \<Rightarrow> ne_now e | Some t \<Rightarrow> t)\<rparr>, db)
        else if path = ''display_time'' then
          (if ne_fails e Q_setting then (Some Internal, x)
           else if ne_DisplayWithUpdateTime e then (None, r, q\<lparr>um_UpdatedTs := Some (uq_DisplayTime u)\<rparr>, db)
           else (None, r, q\<lparr>um_CreatedTs := Some (uq_DisplayTime u)\<rparr>, db))
        else if path = ''location'' then
          (let p = (mr_Payload r)\<lparr>pl_Location := uq_Location u\<rparr> in (None, r\<lparr>mr_Payload := p\<rparr>, q\<lparr>um_Payload := Some p\<rparr>, db))
        else if path = ''attachments'' then
          (case setMemoAttachmentsInternal e r (uq_Attachments u) db of (c, db) \<Rightarrow> (c, r, q, db))
        else if path = ''relations'' then
          (case setMemoRelationsInternal e r (uq_Relations u) db of (c, db) \<Rightarrow> (c, r, q, db))
        else (None, x))"

fun update_paths :: "note_env \<Rightarrow> update_request \<Rightarrow> string list \<Rightarrow> updating \<Rightarrow> note_code option \<times> updating" where
  "update_paths e u [] x = (None, x)"
| "update_paths e u (p # ps) x = (case update_path e u p x of (Some c, x) \<Rightarrow> (Some c, x) | (None, x) \<Rightarrow> update_paths e u ps x)"

definition UpdateMemo :: "note_env \<Rightarrow> store_user option option \<Rightarrow> update_request \<Rightarrow> notes_db \<Rightarrow> memo_message answer \<times> notes_db" where
  "UpdateMemo e who u db =
     (if ExtractMemoUIDFromName (uq_Name u) = None \<or> uq_Mask u = [] then (Inl InvalidArgument, db)
      else case existing_memo e Internal (uq_Name u) db of
        Inl c \<Rightarrow> (Inl c, db)
      | Inr m \<Rightarrow>
          (case writing_refused who m of
             Some c \<Rightarrow> (Inl c, db)
           | None \<Rightarrow>
               (let i = mr_ID (me_Row m) in
                case update_paths e u (uq_Mask u) (me_Row m, update_nothing i, db) of
                  (Some c, _, _, db) \<Rightarrow> (Inl c, db)
                | (None, _, q, db) \<Rightarrow>
                    (case store_UpdateMemo e q db of
                       None \<Rightarrow> (Inl Internal, db)
                     | Some db \<Rightarrow>
                         (and_then (or_code Unknown (store_GetMemo e (find_all\<lparr>fm_ID := Some i\<rparr>) db))
                            (\<lambda>found. and_then (or_code Panics found) (\<lambda>_. buildUpdatedMemoState e (the who) i db)), db)))))"

section \<open>Deleting\<close>

fun delete_memos :: "note_env \<Rightarrow> int list \<Rightarrow> notes_db \<Rightarrow> bool \<times> notes_db" where
  "delete_memos e [] db = (True, db)"
| "delete_memos e (i # is) db = (case store_DeleteMemo e i db of (False, db) \<Rightarrow> (False, db) | (True, db) \<Rightarrow> delete_memos e is db)"

text \<open>The comments go first, then the memo.\<close>

definition DeleteMemo :: "note_env \<Rightarrow> store_user option option \<Rightarrow> string \<Rightarrow> notes_db \<Rightarrow> unit answer \<times> notes_db" where
  "DeleteMemo e who name db =
     (case existing_memo e Unknown name db of
        Inl c \<Rightarrow> (Inl c, db)
      | Inr m \<Rightarrow>
          (case writing_refused who m of
             Some c \<Rightarrow> (Inl c, db)
           | None \<Rightarrow>
               (let i = mr_ID (me_Row m) in
                if ne_fails e Q_reaction \<or> ne_fails e Q_attachment then (Inl Internal, db)
                else case ListMemoRelations_db e (find_relations\<lparr>fr_RelatedMemoID := Some i, fr_Type := Some ''COMMENT''\<rparr>) db of
                  None \<Rightarrow> (Inl Internal, db)
                | Some rels \<Rightarrow>
                    (case delete_memos e (map re_MemoID rels @ [i]) db of
                       (False, db) \<Rightarrow> (Inl Internal, db) | (True, db) \<Rightarrow> (Inr (), db)))))"

section \<open>Creating\<close>

record create_request =
  kq_MemoId :: string
  kq_Content :: string
  kq_Visibility :: api_visibility
  kq_DisplayTime :: "int option"
  kq_CreateTime :: "int option"
  kq_UpdateTime :: "int option"
  kq_Location :: "string option"
  kq_Attachments :: "string list"
  kq_Relations :: "(string \<times> bool) list"

text \<open>The row to insert; the times given explicitly take precedence over the one displayed.\<close>

definition new_memo :: "note_env \<Rightarrow> store_user \<Rightarrow> string \<Rightarrow> create_request \<Rightarrow> string \<Rightarrow> memo_row" where
  "new_memo e u uid k data =
     (let display = (case kq_DisplayTime k of None \<Rightarrow> 0 | Some t \<Rightarrow> t) in
      \<lparr>mr_ID = 0, mr_UID = uid, mr_RowStatus = [], mr_CreatorID = su_ID u,
       mr_CreatedTs = (case kq_CreateTime k of Some t \<Rightarrow> t | None \<Rightarrow> if ne_DisplayWithUpdateTime e then 0 else display),
       mr_UpdatedTs = (case kq_UpdateTime k of Some t \<Rightarrow> t | None \<Rightarrow> if ne_DisplayWithUpdateTime e then display else 0),
       mr_Content = kq_Content k, mr_Visibility = convertVisibilityToStore (kq_Visibility k), mr_Pinned = False,
       mr_Payload = \<lparr>pl_Data = data, pl_Location = kq_Location k\<rparr>\<rparr>)"

text \<open>An error of setting the attachments or the relations leaves the memo created.\<close>

definition set_if_any :: "'x list \<Rightarrow> (notes_db \<Rightarrow> unit answer \<times> notes_db) \<Rightarrow> notes_db \<Rightarrow> unit answer \<times> notes_db" where
  "set_if_any xs put db = (if xs = [] then (Inr (), db) else put db)"

definition CreateMemo :: "note_env \<Rightarrow> store_user option option \<Rightarrow> create_request \<Rightarrow> notes_db \<Rightarrow> memo_message answer \<times> notes_db" where
  "CreateMemo e who k db =
     (case who of
        None \<Rightarrow> (Inl Internal, db)
      | Some None \<Rightarrow> (Inl Unauthenticated, db)
      | Some (Some u) \<Rightarrow>
          (case ValidateAndGenerateUID e (kq_MemoId k) of
             None \<Rightarrow> (Inl InvalidArgument, db)
           | Some uid \<Rightarrow>
               if ne_fails e Q_setting then (Inl Internal, db)
               else if ne_ContentLengthLimit e < int (length (kq_Content k)) then (Inl InvalidArgument, db)
               else case ne_extract e (kq_Content k) of
                 None \<Rightarrow> (Inl Internal, db)
               | Some data \<Rightarrow>
                   (case store_CreateMemo e (new_memo e u uid k data) db of
                      Inl UniqueViolation \<Rightarrow> (Inl AlreadyExists, db)
                    | Inl OtherError \<Rightarrow> (Inl Unknown, db)
                    | Inr (r, db) \<Rightarrow>
                        (case set_if_any (kq_Attachments k) (SetMemoAttachments e who (buildMemoName uid) (kq_Attachments k)) db of
                           (Inl c, db) \<Rightarrow> (Inl c, db)
                         | (Inr _, db) \<Rightarrow>
                             (case set_if_any (kq_Relations k) (SetMemoRelations e who (buildMemoName uid) (kq_Relations k)) db of
                                (Inl c, db) \<Rightarrow> (Inl c, db)
                              | (Inr _, db) \<Rightarrow>
                                  (let m = \<lparr>me_Row = r, me_ParentUID = None\<rparr> in
                                   (and_then (if kq_Attachments k = [] then Inr []
                                       else or_code Unknown (ListAttachments_where e (\<lambda>x. at_MemoID x = Some (mr_ID r)) db))
                                     (\<lambda>atts. and_then (or_code Unknown (loadMemoRelations e (Some u) m db))
                                       (\<lambda>rels. unless_fails (ne_fails e Q_users) Unknown
                                         (and_then (convertMemoFromStoreWithCreators e db m atts rels) (or_code Unknown)))), db)))))))"

section \<open>Comments\<close>

text \<open>Only a private memo refuses comments of others; an archived one does not.\<close>

definition commenting_refused :: "store_user option option \<Rightarrow> memo \<Rightarrow> note_code option" where
  "commenting_refused who m =
     (case who of
        None \<Rightarrow> Some Internal
      | Some None \<Rightarrow> Some Unauthenticated
      | Some (Some u) \<Rightarrow>
          if mr_Visibility (me_Row m) = ''PRIVATE'' \<and> mr_CreatorID (me_Row m) \<noteq> su_ID u \<and> \<not> isSuperUser u
          then Some PermissionDenied else None)"

definition notify_creator :: "note_env \<Rightarrow> store_user \<Rightarrow> memo_message \<Rightarrow> memo_row \<Rightarrow> memo_row \<Rightarrow> notes_db \<Rightarrow> notes_db option" where
  "notify_creator e u msg r related db =
     (if ms_Visibility msg = VisibilityPrivate \<or> su_ID u = mr_CreatorID related then Some db
      else if ne_fails e I_inbox then None
      else Some (db\<lparr>nd_inbox := nd_inbox db @ [\<lparr>ib_SenderID = su_ID u, ib_ReceiverID = mr_CreatorID related,
             ib_MemoID = mr_ID r, ib_RelatedMemoID = mr_ID related\<rparr>]\<rparr>))"

definition CreateMemoComment :: "note_env \<Rightarrow> store_user option option \<Rightarrow> string \<Rightarrow> create_request \<Rightarrow> notes_db \<Rightarrow> memo_message answer \<times> notes_db" where
  "CreateMemoComment e who name k db =
     (case existing_memo e Internal name db of
        Inl c \<Rightarrow> (Inl c, db)
      | Inr related \<Rightarrow>
          (case commenting_refused who related of
             Some c \<Rightarrow> (Inl c, db)
           | None \<Rightarrow>
               (case CreateMemo e who k db of
                  (Inl c, db) \<Rightarrow> (Inl Internal, db)
                | (Inr msg, db) \<Rightarrow>
                    (case and_then (named_memo e Internal (ms_Name msg) db) (or_code Panics) of
                       Inl c \<Rightarrow> (Inl c, db)
                     | Inr m \<Rightarrow>
                         (case UpsertMemoRelation e \<lparr>re_MemoID = mr_ID (me_Row m), re_RelatedMemoID = mr_ID (me_Row related), re_Type = ''COMMENT''\<rparr> db of
                            None \<Rightarrow> (Inl Internal, db)
                          | Some db \<Rightarrow>
                              (if ne_fails e Q_users then (Inl InvalidArgument, db)
                               else case List.find (\<lambda>u. BuildUserName (su_Username u) = ms_Creator msg) (nd_users db) of
                                 None \<Rightarrow> (Inl NotFound, db)
                               | Some u \<Rightarrow>
                                   (case notify_creator e u msg (me_Row m) (me_Row related) db of
                                      None \<Rightarrow> (Inl Internal, db) | Some db \<Rightarrow> (Inr msg, db))))))))"

section \<open>Calls\<close>

datatype note_call =
    NCreate create_request | NUpdate update_request | NDelete string | NRelations string "(string \<times> bool) list"
  | NAttachments string "string list" | NComment string create_request

fun serve_note :: "note_env \<Rightarrow> store_user option option \<Rightarrow> note_call \<Rightarrow> notes_db \<Rightarrow> notes_db" where
  "serve_note e who (NCreate k) db = snd (CreateMemo e who k db)"
| "serve_note e who (NUpdate u) db = snd (UpdateMemo e who u db)"
| "serve_note e who (NDelete name) db = snd (DeleteMemo e who name db)"
| "serve_note e who (NRelations name rels) db = snd (SetMemoRelations e who name rels db)"
| "serve_note e who (NAttachments name atts) db = snd (SetMemoAttachments e who name atts db)"
| "serve_note e who (NComment name k) db = snd (CreateMemoComment e who name k db)"

text \<open>A run of the service: any calls of anyone, in any environment.\<close>

inductive note_run :: "notes_db \<Rightarrow> notes_db \<Rightarrow> bool" where
  start: "note_run db db"
| call: "note_run db db1 \<Longrightarrow> note_run db (serve_note e who c db1)"

end
