(* ===== verification/MemoExample.thy ===== *)
theory MemoExample
  imports MemoWrites
begin

text \<open>
  An example of the note server: three memos, two users, a SQLite that reads the conditions of the service, and an
  expression parser that reads two filters.
\<close>

definition own_sql :: string where
  "own_sql = ''((`memo`.`creator_id` = ? OR `memo`.`visibility` IN (?,?)))''"

definition creator_test :: "64 word \<Rightarrow> expr" where
  "creator_test w = ECall None ''_==_'' [EIdent ''creator_id'', EConst (CInt w)]"

definition shared_test :: expr where
  "shared_test = ECall None ''@in'' [EIdent ''visibility'', EList [EConst (CStr ''PUBLIC''), EConst (CStr ''PROTECTED'')]]"

definition demo_holds :: "notes_db \<Rightarrow> string \<Rightarrow> sql_arg list \<Rightarrow> memo \<Rightarrow> bool" where
  "demo_holds db s vs m =
     (let r = me_Row m; i = AInt (word_of_int (mr_CreatorID r)) in
      if s = ''1 = 1'' then True
      else if s = ''`memo`.`uid` = ?'' then vs = [AStr (mr_UID r)]
      else if s = ''`memo`.`id` = ?'' then vs = [AInt (word_of_int (mr_ID r))]
      else if s = ''`memo`.`creator_id` = ?'' \<or> s = ''(`memo`.`creator_id` = ?)'' then vs = [i]
      else if s = ''`memo`.`row_status` = ?'' then vs = [AStr (mr_RowStatus r)]
      else if s = ''`memo`.`visibility` IN (?)'' then vs = [AStr (mr_Visibility r)]
      else if s = own_sql then length vs = 3 \<and> (vs ! 0 = i \<or> vs ! 1 = AStr (mr_Visibility r) \<or> vs ! 2 = AStr (mr_Visibility r))
      else s = ''`parent_uid` IS NULL'' \<and> me_ParentUID m = None)"

definition demo_user :: "int \<Rightarrow> string \<Rightarrow> store_user" where
  "demo_user i name = \<lparr>su_ID = i, su_RowStatus = ''NORMAL'', su_CreatedTs = 0, su_UpdatedTs = 0, su_Username = name, su_Role = ''USER'',
     su_Email = [], su_Nickname = [], su_PasswordHash = [], su_AvatarURL = [], su_Description = []\<rparr>"

definition note_alice :: store_user where "note_alice = demo_user 1 ''alice''"

definition note_bob :: store_user where "note_bob = demo_user 2 ''bob''"

definition demo_memo :: "int \<Rightarrow> string \<Rightarrow> int \<Rightarrow> string \<Rightarrow> memo_row" where
  "demo_memo i uid creator vis = \<lparr>mr_ID = i, mr_UID = uid, mr_RowStatus = ''NORMAL'', mr_CreatorID = creator, mr_CreatedTs = i, mr_UpdatedTs = i,
     mr_Content = uid, mr_Visibility = vis, mr_Pinned = False, mr_Payload = \<lparr>pl_Data = [], pl_Location = None\<rparr>\<rparr>"

definition demo_notes :: notes_db where
  "demo_notes = \<lparr>nd_memos = \<lparr>tb_rows = [demo_memo 1 ''secret'' 1 ''PRIVATE'', demo_memo 2 ''open'' 1 ''PUBLIC'', demo_memo 3 ''mine'' 2 ''PRIVATE''],
     tb_seq = 3\<rparr>, nd_relations = [], nd_attachments = [], nd_inbox = [], nd_users = [note_alice, note_bob]\<rparr>"

definition notes_env :: "cel_parser \<Rightarrow> note_env" where
  "notes_env cel = \<lparr>ne_now = 9, ne_fails = (\<lambda>_. False), ne_cel = cel, ne_holds = demo_holds, ne_strict = False, ne_stuck = (\<lambda>_. False),
     ne_extract = Some, ne_uid = ''new'', ne_DisplayWithUpdateTime = False, ne_ContentLengthLimit = 100\<rparr>"

definition demo_cel :: "expr \<Rightarrow> cel_parser" where
  "demo_cel x sm src = (if src = own_or_shared 2 then Some (ECall None ''_||_'' [creator_test 2, shared_test]) else if src = ''f'' then Some x else None)"

end
