(* ===== verification/MemoRights.thy ===== *)
theory MemoRights
  imports MemoExample
begin

text \<open>
  What the writing operations of the memo service keep, whoever calls them and whatever fails on the way: the contract
  of the store's steps is a locale, interpreted for the memos of others and for the relations between memos.
\<close>

section \<open>Memos that are read\<close>

definition memo_ids :: "notes_db \<Rightarrow> int set" where
  "memo_ids db = mr_ID ` set (tb_rows (nd_memos db))"

lemma set_desc_memos [simp]: "set (desc_by f xs) = set xs"
  by (simp add: desc_by_def)

lemma set_page: "set (page l off xs) \<subseteq> set xs"
  by (auto simp: page_def limited_def split: option.splits if_splits dest!: in_set_takeD in_set_dropD)

lemma set_ordered_memos [simp]: "set (ordered_memos f xs) = set xs"
  by (simp add: ordered_memos_def Let_def)

lemma joined_row: "m \<in> set (joined db r) \<Longrightarrow> me_Row m = r"
  by (auto simp: joined_def Let_def split: if_splits)

lemma listed_memo: "driver_ListMemos e f db = Some ms \<Longrightarrow> m \<in> set ms \<Longrightarrow> me_Row m \<in> set (tb_rows (nd_memos db))"
  by (auto simp: driver_ListMemos_def dest!: subsetD [OF set_page] joined_row split: sum.splits prod.splits if_splits)

lemma read_memo: "store_GetMemo e f db = Some (Some m) \<Longrightarrow> me_Row m \<in> set (tb_rows (nd_memos db))"
  unfolding store_GetMemo_def by (cases "driver_ListMemos e f db") (auto split: list.splits intro: listed_memo)

lemma named_row: "named_memo e c name db = Inr (Some m) \<Longrightarrow> me_Row m \<in> set (tb_rows (nd_memos db))"
  by (auto simp: named_memo_def and_then_def or_code_def split: option.splits sum.splits dest: read_memo)

lemma existing_named: "existing_memo e c name db = Inr m \<Longrightarrow> named_memo e c name db = Inr (Some m)"
  by (auto simp: existing_memo_def and_then_def or_code_def split: option.splits sum.splits)

lemma existing_row: "existing_memo e c name db = Inr m \<Longrightarrow> me_Row m \<in> set (tb_rows (nd_memos db))"
  by (rule named_row [OF existing_named])

section \<open>Steps that leave the memos alone\<close>

named_theorems same_memos

lemma upsert_same [same_memos]: "UpsertMemoRelation e rel db = Some db' \<Longrightarrow> nd_memos db' = nd_memos db"
  by (auto simp: UpsertMemoRelation_def split: if_splits)

lemma relation_gone_same [same_memos]: "DeleteMemoRelation e i j t db = Some db' \<Longrightarrow> nd_memos db' = nd_memos db"
  by (auto simp: DeleteMemoRelation_def split: if_splits)

lemma attachment_gone_same [same_memos]: "DeleteAttachment e i db = Some db' \<Longrightarrow> nd_memos db' = nd_memos db"
  by (auto simp: DeleteAttachment_def split: option.splits if_splits)

lemma attachment_linked_same [same_memos]: "UpdateAttachment_memo e i j t db = Some db' \<Longrightarrow> nd_memos db' = nd_memos db"
  by (auto simp: UpdateAttachment_memo_def split: if_splits)

lemma attachments_gone_same [same_memos]: "delete_attachments e xs db = (b, db') \<Longrightarrow> nd_memos db' = nd_memos db"
  by (induction e xs db rule: delete_attachments.induct) (auto split: option.splits dest: same_memos)

lemma attachments_linked_same [same_memos]: "link_attachments e i t xs db = (b, db') \<Longrightarrow> nd_memos db' = nd_memos db"
  by (induction e i t xs db rule: link_attachments.induct) (auto split: option.splits dest: same_memos)

lemma attachments_set_same [same_memos]: "setMemoAttachmentsInternal e r names db = (c, db') \<Longrightarrow> nd_memos db' = nd_memos db"
  by (auto simp: setMemoAttachmentsInternal_def Let_def split: option.splits sum.splits prod.splits bool.splits dest!: same_memos)

lemma relations_upserted_same [same_memos]: "upsert_relations e r rels db = (c, db') \<Longrightarrow> nd_memos db' = nd_memos db"
  by (induction e r rels db rule: upsert_relations.induct)
     (auto split: option.splits sum.splits if_splits dest: same_memos)

lemma relations_set_same [same_memos]: "setMemoRelationsInternal e r rels db = (c, db') \<Longrightarrow> nd_memos db' = nd_memos db"
  by (auto simp: setMemoRelationsInternal_def split: option.splits dest!: same_memos)

lemma path_same:
  "update_path e u p (r, q, db) = (c, r', q', db') \<Longrightarrow> nd_memos db' = nd_memos db \<and> mr_ID r' = mr_ID r \<and> um_ID q' = um_ID q"
  by (auto simp: update_path_def update_content_def and_then_def or_code_def unless_fails_def Let_def
      split: if_splits sum.splits option.splits prod.splits dest: same_memos)

lemma paths_same:
  "update_paths e u ps (r, q, db) = (c, r', q', db') \<Longrightarrow> nd_memos db' = nd_memos db \<and> mr_ID r' = mr_ID r \<and> um_ID q' = um_ID q"
proof (induction ps arbitrary: r q db)
  case (Cons p ps)
  obtain c1 r1 q1 db1 where 1: "update_path e u p (r, q, db) = (c1, r1, q1, db1)" by (metis surj_pair)
  show ?case using Cons path_same [OF 1] by (auto simp: 1 split: option.splits)
qed simp

section \<open>The steps of the store\<close>

text \<open>
  A relation between tables that every step of the store keeps which the service runs: on memos whose identifiers are
  in \<open>A\<close> where the step updates and in \<open>D\<close> where it deletes, and between memos that exist where it relates them.
\<close>

locale note_steps =
  fixes R :: "notes_db \<Rightarrow> notes_db \<Rightarrow> bool" and A D :: "int set"
  assumes refl_step: "R db db"
    and trans_step: "R db db1 \<Longrightarrow> R db1 db2 \<Longrightarrow> R db db2"
    and create_step: "store_CreateMemo e r db = Inr (r', db') \<Longrightarrow> R db db'"
    and update_step: "store_UpdateMemo e q db = Some db' \<Longrightarrow> um_ID q \<in> A \<Longrightarrow> R db db'"
    and delete_step: "store_DeleteMemo e i db = (b, db') \<Longrightarrow> i \<in> D \<Longrightarrow> R db db'"
    and relate_step: "UpsertMemoRelation e rel db = Some db' \<Longrightarrow> re_MemoID rel \<in> memo_ids db \<Longrightarrow> re_RelatedMemoID rel \<in> memo_ids db \<Longrightarrow> R db db'"
    and unrelate_step: "DeleteMemoRelation e x y z db = Some db' \<Longrightarrow> R db db'"
    and attach_step: "UpdateAttachment_memo e i j t db = Some db' \<Longrightarrow> R db db'"
    and detach_step: "DeleteAttachment e i db = Some db' \<Longrightarrow> R db db'"
    and notify_step: "notify_creator e u msg r related db = Some db' \<Longrightarrow> R db db'"
begin

lemma detach_all: "delete_attachments e xs db = (b, db') \<Longrightarrow> R db db'"
  by (induction e xs db rule: delete_attachments.induct) (auto split: option.splits intro: refl_step trans_step detach_step)

lemma attach_all: "link_attachments e i t xs db = (b, db') \<Longrightarrow> R db db'"
  by (induction e i t xs db rule: link_attachments.induct) (auto split: option.splits intro: refl_step trans_step attach_step)

lemma set_attachments: "setMemoAttachmentsInternal e r names db = (c, db') \<Longrightarrow> R db db'"
  by (auto simp: setMemoAttachmentsInternal_def Let_def refl_step split: option.splits sum.splits prod.splits bool.splits
      intro: trans_step [OF detach_all attach_all] dest: detach_all attach_all)

lemma relate_all: "upsert_relations e r rels db = (c, db') \<Longrightarrow> mr_ID r \<in> memo_ids db \<Longrightarrow> R db db'"
proof (induction e r rels db rule: upsert_relations.induct)
  case (2 e r name is_comment rels db)
  show ?case
  proof (cases "buildMemoName (mr_UID r) = name \<or> is_comment")
    case False
    show ?thesis
    proof (cases "and_then (named_memo e Internal name db) (or_code Panics)")
      case (Inr m)
      let ?rel = "\<lparr>re_MemoID = mr_ID r, re_RelatedMemoID = mr_ID (me_Row m), re_Type = ''REFERENCE''\<rparr>"
      have m: "mr_ID (me_Row m) \<in> memo_ids db"
        using Inr by (auto simp: memo_ids_def and_then_def or_code_def split: sum.splits option.splits dest: named_row)
      show ?thesis
      proof (cases "UpsertMemoRelation e ?rel db")
        case (Some db1)
        have "nd_memos db1 = nd_memos db" by (rule upsert_same [OF Some])
        then have "R db1 db'" using 2(2) [OF False Inr Some] 2(3,4) False Inr Some by (simp add: memo_ids_def)
        moreover have "R db db1" by (rule relate_step [OF Some]) (use 2(4) m in simp_all)
        ultimately show ?thesis using trans_step by blast
      qed (use 2(3) False Inr refl_step in simp)
    qed (use 2(3) False refl_step in simp)
  qed (use 2 in simp)
qed (auto simp: refl_step)

lemma set_relations: "setMemoRelationsInternal e r rels db = (c, db') \<Longrightarrow> mr_ID r \<in> memo_ids db \<Longrightarrow> R db db'"
  by (auto simp: setMemoRelationsInternal_def refl_step memo_ids_def split: option.splits dest: relation_gone_same
      intro!: trans_step [OF unrelate_step relate_all])

lemma set_part:
  assumes "\<And>r d c d'. put r d = (c, d') \<Longrightarrow> mr_ID r \<in> memo_ids d \<Longrightarrow> R d d'"
    and "\<And>m. existing_memo e Internal name db = Inr m \<Longrightarrow> writing_refused who m = None \<Longrightarrow> mr_ID (me_Row m) \<in> A"
  shows "R db (snd (set_memo_part put e who name db))"
proof (cases "\<exists>u m. who = Some (Some u) \<and> existing_memo e Internal name db = Inr m \<and> writing_refused who m = None")
  case True
  then obtain u m where h: "who = Some (Some u)" "existing_memo e Internal name db = Inr m" "writing_refused who m = None" by blast
  obtain c db1 where p: "put (me_Row m) db = (c, db1)" by fastforce
  have 1: "R db db1" by (rule assms(1) [OF p]) (use existing_row [OF h(2)] in \<open>simp add: memo_ids_def\<close>)
  have "R db1 db2" if "touchMemoUpdatedTimestamp e (mr_ID (me_Row m)) db1 = Some db2" for db2
    using that assms(2) [OF h(2,3)] by (auto simp: touchMemoUpdatedTimestamp_def update_nothing_def intro!: update_step)
  then show ?thesis
    using h 1 p by (auto simp: set_memo_part_def refl_step split: option.splits sum.splits intro: trans_step)
qed (auto simp: set_memo_part_def refl_step split: option.splits sum.splits)

lemma path_steps: "update_path e u p (r, q, db) = (c, r', q', db') \<Longrightarrow> mr_ID r \<in> memo_ids db \<Longrightarrow> R db db'"
  by (auto simp: update_path_def update_content_def and_then_def or_code_def unless_fails_def Let_def refl_step
      split: if_splits sum.splits option.splits prod.splits dest: set_attachments set_relations)

lemma paths_steps: "update_paths e u ps (r, q, db) = (c, r', q', db') \<Longrightarrow> mr_ID r \<in> memo_ids db \<Longrightarrow> R db db'"
proof (induction ps arbitrary: r q db)
  case (Cons p ps)
  obtain c1 r1 q1 db1 where 1: "update_path e u p (r, q, db) = (c1, r1, q1, db1)" by (metis surj_pair)
  have 2: "R db db1" "nd_memos db1 = nd_memos db" "mr_ID r1 = mr_ID r"
    using path_steps [OF 1 Cons.prems(2)] path_same [OF 1] by auto
  show ?case
  proof (cases c1)
    case None
    have "R db1 db'" by (rule Cons.IH [of r1 q1]) (use Cons.prems 1 2 None in \<open>simp_all add: memo_ids_def\<close>)
    then show ?thesis using 2(1) trans_step by blast
  qed (use Cons.prems(1) 1 2(1) in simp)
qed (simp add: refl_step)

lemma update_keeps:
  assumes "\<And>m. existing_memo e Internal (uq_Name u) db = Inr m \<Longrightarrow> writing_refused who m = None \<Longrightarrow> mr_ID (me_Row m) \<in> A"
  shows "R db (snd (UpdateMemo e who u db))"
proof (cases "ExtractMemoUIDFromName (uq_Name u) = None \<or> uq_Mask u = []")
  case ok: False
  show ?thesis
  proof (cases "existing_memo e Internal (uq_Name u) db")
    case (Inr m)
    show ?thesis
    proof (cases "writing_refused who m")
      case None
      have i: "mr_ID (me_Row m) \<in> A" by (rule assms [OF Inr None])
      obtain c r q db1 where p: "update_paths e u (uq_Mask u) (me_Row m, update_nothing (mr_ID (me_Row m)), db) = (c, r, q, db1)"
        by (metis surj_pair)
      have 1: "R db db1" by (rule paths_steps [OF p]) (use existing_row [OF Inr] in \<open>simp add: memo_ids_def\<close>)
      have "um_ID q = mr_ID (me_Row m)" using paths_same [OF p] by (simp add: update_nothing_def)
      then have 2: "store_UpdateMemo e q db1 = Some db2 \<Longrightarrow> R db1 db2" for db2 using i by (auto intro: update_step)
      show ?thesis using ok Inr None p 1 trans_step [OF 1 2]
        by (auto simp: UpdateMemo_def Let_def split: option.splits)
    qed (use ok Inr in \<open>auto simp: UpdateMemo_def refl_step\<close>)
  qed (use ok in \<open>auto simp: UpdateMemo_def refl_step\<close>)
qed (auto simp: UpdateMemo_def refl_step)

lemma delete_all: "delete_memos e is db = (b, db') \<Longrightarrow> set is \<subseteq> D \<Longrightarrow> R db db'"
proof (induction e "is" db rule: delete_memos.induct)
  case (2 e i js db)
  obtain c db1 where 1: "store_DeleteMemo e i db = (c, db1)" by fastforce
  have r: "R db db1" by (rule delete_step [OF 1]) (use 2(3) in simp)
  show ?case
  proof (cases c)
    case True
    have "R db1 db'" using 2(1) [of c db1] 1 True 2(2,3) by simp
    then show ?thesis using r trans_step by blast
  qed (use 2(2) 1 r in simp)
qed (simp add: refl_step)

lemma delete_keeps:
  assumes "\<And>m. existing_memo e Unknown name db = Inr m \<Longrightarrow> writing_refused who m = None \<Longrightarrow>
      insert (mr_ID (me_Row m)) {i. \<exists>rel \<in> set (nd_relations db). re_MemoID rel = i \<and> re_RelatedMemoID rel = mr_ID (me_Row m)
        \<and> re_Type rel = ''COMMENT''} \<subseteq> D"
  shows "R db (snd (DeleteMemo e who name db))"
proof (cases "existing_memo e Unknown name db")
  case (Inr m)
  show ?thesis
  proof (cases "writing_refused who m")
    case None
    let ?i = "mr_ID (me_Row m)"
    have "R db db'" if "ListMemoRelations_db e (find_relations\<lparr>fr_RelatedMemoID := Some ?i, fr_Type := Some ''COMMENT''\<rparr>) db = Some rels"
      "delete_memos e (map re_MemoID rels @ [?i]) db = (b, db')" for rels b db'
    proof (rule delete_all [OF that(2)])
      show "set (map re_MemoID rels @ [?i]) \<subseteq> D"
        using assms [OF Inr None] that(1)
        by (auto simp: ListMemoRelations_db_def find_relations_def page_def opt_matches_def Let_def split: if_splits) blast
    qed
    then show ?thesis using Inr None
      by (auto simp: DeleteMemo_def Let_def refl_step split: option.splits prod.splits bool.splits)
  qed (use Inr in \<open>auto simp: DeleteMemo_def refl_step\<close>)
qed (auto simp: DeleteMemo_def refl_step)

lemma set_if_any_keeps:
  "set_if_any xs put db = (c, db') \<Longrightarrow> (\<And>c db'. put db = (c, db') \<Longrightarrow> R db db') \<Longrightarrow> R db db'"
  by (auto simp: set_if_any_def refl_step split: if_splits)

lemma create_keeps:
  assumes "\<And>db' e name m. R db db' \<Longrightarrow> existing_memo e Internal name db' = Inr m \<Longrightarrow> writing_refused who m = None \<Longrightarrow> mr_ID (me_Row m) \<in> A"
  shows "R db (snd (CreateMemo e who k db))"
proof (cases "\<exists>u uid d r db1. who = Some (Some u) \<and> ValidateAndGenerateUID e (kq_MemoId k) = Some uid \<and> ne_extract e (kq_Content k) = Some d
    \<and> \<not> ne_fails e Q_setting \<and> \<not> ne_ContentLengthLimit e < int (length (kq_Content k)) \<and> store_CreateMemo e (new_memo e u uid k d) db = Inr (r, db1)")
  case True
  then obtain u uid d r db1 where h: "who = Some (Some u)" "ValidateAndGenerateUID e (kq_MemoId k) = Some uid" "ne_extract e (kq_Content k) = Some d"
    "\<not> ne_fails e Q_setting" "\<not> ne_ContentLengthLimit e < int (length (kq_Content k))" "store_CreateMemo e (new_memo e u uid k d) db = Inr (r, db1)"
    by blast
  have 1: "R db db1" by (rule create_step [OF h(6)])
  obtain c2 db2 where p2: "set_if_any (kq_Attachments k) (SetMemoAttachments e who (buildMemoName uid) (kq_Attachments k)) db1 = (c2, db2)" by fastforce
  have 2: "R db1 db2"
  proof (rule set_if_any_keeps [OF p2])
    fix c db' assume p: "SetMemoAttachments e who (buildMemoName uid) (kq_Attachments k) db1 = (c, db')"
    have "R db1 (snd (SetMemoAttachments e who (buildMemoName uid) (kq_Attachments k) db1))"
      unfolding SetMemoAttachments_def by (rule set_part) (auto intro: set_attachments assms [OF 1])
    then show "R db1 db'" by (simp add: p)
  qed
  obtain c3 db3 where p3: "set_if_any (kq_Relations k) (SetMemoRelations e who (buildMemoName uid) (kq_Relations k)) db2 = (c3, db3)" by fastforce
  have 3: "R db2 db3"
  proof (rule set_if_any_keeps [OF p3])
    fix c db' assume p: "SetMemoRelations e who (buildMemoName uid) (kq_Relations k) db2 = (c, db')"
    have "R db2 (snd (SetMemoRelations e who (buildMemoName uid) (kq_Relations k) db2))"
      unfolding SetMemoRelations_def by (rule set_part) (auto intro: set_relations assms [OF trans_step [OF 1 2]])
    then show "R db2 db'" by (simp add: p)
  qed
  have "snd (CreateMemo e who k db) = (case c2 of Inl _ \<Rightarrow> db2 | Inr _ \<Rightarrow> db3)"
    using h(2-6) by (auto simp: CreateMemo_def h(1) p2 [unfolded h(1)] p3 [unfolded h(1)] Let_def split: sum.splits)
  then show ?thesis using trans_step [OF 1 2] trans_step [OF trans_step [OF 1 2] 3] by (simp split: sum.splits)
qed (auto simp: CreateMemo_def refl_step split: option.splits sum.splits store_error.splits)

end

text \<open>Identifiers stay in use unless a memo is deleted.\<close>

lemma ids_same: "nd_memos db' = nd_memos db \<Longrightarrow> memo_ids db' = memo_ids db"
  by (simp add: memo_ids_def)

lemma updated_memo_id [simp]: "mr_ID (updated_memo q r) = mr_ID r"
  by (simp add: updated_memo_def)

lemma update_rows:
  "store_UpdateMemo e q db = Some db' \<Longrightarrow>
    db' = db \<or> db' = db\<lparr>nd_memos := update_tab (\<lambda>r. mr_ID r = um_ID q) (updated_memo q) (nd_memos db)\<rparr>"
  by (auto simp: store_UpdateMemo_def driver_UpdateMemo_def Let_def split: if_splits)

lemma update_where_ids: "mr_ID ` set (update_where P (updated_memo q) rs) = mr_ID ` set rs"
  by (induction rs) (auto simp: update_where_def)

lemma update_ids: "store_UpdateMemo e q db = Some db' \<Longrightarrow> memo_ids db' = memo_ids db"
  by (drule update_rows, elim disjE) (simp_all add: memo_ids_def update_where_ids)

lemma create_rows: "store_CreateMemo e r db = Inr (r', db') \<Longrightarrow> db' = db\<lparr>nd_memos := insert_row (mk_memo e r) (nd_memos db)\<rparr>"
  by (auto simp: store_CreateMemo_def driver_CreateMemo_def split: if_splits)

lemma notify_same: "notify_creator e u msg r related db = Some db' \<Longrightarrow> nd_memos db' = nd_memos db \<and> nd_relations db' = nd_relations db"
  by (auto simp: notify_creator_def split: if_splits)

interpretation ids: note_steps "\<lambda>db db'. memo_ids db \<subseteq> memo_ids db'" UNIV "{}"
proof unfold_locales
  show "store_CreateMemo e r db = Inr (r', db') \<Longrightarrow> memo_ids db \<subseteq> memo_ids db'" for e r db r' db'
    by (auto dest!: create_rows simp: memo_ids_def)
  show "notify_creator e u msg r related db = Some db' \<Longrightarrow> memo_ids db \<subseteq> memo_ids db'" for e u msg r related db db'
    by (drule notify_same, drule conjunct1, drule ids_same, simp)
  show "store_UpdateMemo e q db = Some db' \<Longrightarrow> um_ID q \<in> UNIV \<Longrightarrow> memo_ids db \<subseteq> memo_ids db'" for e q db db'
    by (drule update_ids, simp)
  show "UpsertMemoRelation e rel db = Some db' \<Longrightarrow> re_MemoID rel \<in> memo_ids db \<Longrightarrow> re_RelatedMemoID rel \<in> memo_ids db \<Longrightarrow>
      memo_ids db \<subseteq> memo_ids db'" for e rel db db'
    by (drule upsert_same, drule ids_same, simp)
  show "DeleteMemoRelation e x y z db = Some db' \<Longrightarrow> memo_ids db \<subseteq> memo_ids db'" for e x y z db db'
    by (drule relation_gone_same, drule ids_same, simp)
  show "UpdateAttachment_memo e i j t db = Some db' \<Longrightarrow> memo_ids db \<subseteq> memo_ids db'" for e i j t db db'
    by (drule attachment_linked_same, drule ids_same, simp)
  show "DeleteAttachment e i db = Some db' \<Longrightarrow> memo_ids db \<subseteq> memo_ids db'" for e i db db'
    by (drule attachment_gone_same, drule ids_same, simp)
qed auto

lemma ids_created: "memo_ids db \<subseteq> memo_ids (snd (CreateMemo e who k db))"
  by (rule ids.create_keeps) simp

context note_steps begin

lemma comment_keeps:
  assumes "\<And>db' e name m. R db db' \<Longrightarrow> existing_memo e Internal name db' = Inr m \<Longrightarrow> writing_refused who m = None \<Longrightarrow> mr_ID (me_Row m) \<in> A"
  shows "R db (snd (CreateMemoComment e who name k db))"
proof (cases "existing_memo e Internal name db")
  case (Inr related)
  show ?thesis
  proof (cases "commenting_refused who related")
    case None
    obtain c db1 where c: "CreateMemo e who k db = (c, db1)" by fastforce
    have "R db (snd (CreateMemo e who k db))" by (rule create_keeps) (rule assms)
    then have 1: "R db db1" by (simp add: c)
    have rel: "mr_ID (me_Row related) \<in> memo_ids db1"
      using ids_created [of db e who k] existing_row [OF Inr] by (auto simp: c memo_ids_def)
    show ?thesis
    proof (cases "\<exists>msg m. c = Inr msg \<and> and_then (named_memo e Internal (ms_Name msg) db1) (or_code Panics) = Inr m")
      case True
      then obtain msg m where m: "c = Inr msg" "and_then (named_memo e Internal (ms_Name msg) db1) (or_code Panics) = Inr m" by blast
      let ?rel = "\<lparr>re_MemoID = mr_ID (me_Row m), re_RelatedMemoID = mr_ID (me_Row related), re_Type = ''COMMENT''\<rparr>"
      have mi: "mr_ID (me_Row m) \<in> memo_ids db1"
        using m(2) by (auto simp: memo_ids_def and_then_def or_code_def split: sum.splits option.splits dest: named_row)
      have 2: "UpsertMemoRelation e ?rel db1 = Some db2 \<Longrightarrow> R db1 db2" for db2
        by (erule relate_step) (simp_all add: mi rel)
      have 3: "UpsertMemoRelation e ?rel db1 = Some db2 \<Longrightarrow> notify_creator e u msg r r' db2 = Some db3 \<Longrightarrow> R db1 db3" for db2 db3 u r r'
        using 2 notify_step trans_step by blast
      show ?thesis using Inr None 1 2 3
        by (auto simp: CreateMemoComment_def c m split: option.splits intro: trans_step)
    qed (use Inr None 1 in \<open>auto simp: CreateMemoComment_def c split: sum.splits\<close>)
  qed (use Inr in \<open>auto simp: CreateMemoComment_def refl_step\<close>)
qed (auto simp: CreateMemoComment_def refl_step)

lemma serve_keeps:
  assumes "\<And>db' e code name m. R db db' \<Longrightarrow> existing_memo e code name db' = Inr m \<Longrightarrow> writing_refused who m = None \<Longrightarrow> mr_ID (me_Row m) \<in> A"
    and "\<And>name m. c = NDelete name \<Longrightarrow> existing_memo e Unknown name db = Inr m \<Longrightarrow> writing_refused who m = None \<Longrightarrow>
      insert (mr_ID (me_Row m)) {i. \<exists>rel \<in> set (nd_relations db). re_MemoID rel = i \<and> re_RelatedMemoID rel = mr_ID (me_Row m)
        \<and> re_Type rel = ''COMMENT''} \<subseteq> D"
  shows "R db (serve_note e who c db)"
proof (cases c)
  case (NCreate k) then show ?thesis using assms(1) by (auto intro: create_keeps)
next
  case (NUpdate u) then show ?thesis using assms(1) by (auto intro: update_keeps assms(1) [OF refl_step])
next
  case (NDelete name) then show ?thesis by (simp only: serve_note.simps) (intro delete_keeps assms(2))
next
  case (NRelations name rels) then show ?thesis
    unfolding NRelations serve_note.simps SetMemoRelations_def by (intro set_part) (auto intro: set_relations assms(1) [OF refl_step])
next
  case (NAttachments name atts) then show ?thesis
    unfolding NAttachments serve_note.simps SetMemoAttachments_def by (intro set_part) (auto intro: set_attachments assms(1) [OF refl_step])
next
  case (NComment name k) then show ?thesis using assms(1) by (auto intro: comment_keeps)
qed

end

section \<open>The memos of others\<close>

definition keeps_row :: "memo_row \<Rightarrow> notes_db \<Rightarrow> notes_db \<Rightarrow> bool" where
  "keeps_row r db db' \<longleftrightarrow> (keys_ok mr_ID (nd_memos db) \<and> r \<in> set (tb_rows (nd_memos db))
     \<longrightarrow> keys_ok mr_ID (nd_memos db') \<and> r \<in> set (tb_rows (nd_memos db')))"

lemma keeps_row_same: "nd_memos db' = nd_memos db \<Longrightarrow> keeps_row r db db'"
  by (simp add: keeps_row_def)

lemma keeps_row_update: "store_UpdateMemo e q db = Some db' \<Longrightarrow> um_ID q \<noteq> mr_ID r \<Longrightarrow> keeps_row r db db'"
  by (drule update_rows, elim disjE) (auto simp: keeps_row_def update_where_def image_iff intro!: memo_tab.keys_update)

lemma keeps_row_delete: "store_DeleteMemo e i db = (b, db') \<Longrightarrow> i \<noteq> mr_ID r \<Longrightarrow> keeps_row r db db'"
  by (auto simp: store_DeleteMemo_def driver_DeleteMemo_def keeps_row_def intro!: memo_tab.keys_delete
      split: option.splits prod.splits bool.splits if_splits dest!: same_memos)

lemma keeps_row_create: "store_CreateMemo e k db = Inr (r', db') \<Longrightarrow> keeps_row r db db'"
  by (auto dest!: create_rows simp: keeps_row_def intro!: memo_tab.keys_insert)

interpretation row: note_steps "keeps_row r" "- {mr_ID r}" "- {mr_ID r}" for r
proof unfold_locales
  show "keeps_row r db db1 \<Longrightarrow> keeps_row r db1 db2 \<Longrightarrow> keeps_row r db db2" for r db db1 db2 by (simp add: keeps_row_def)
  show "notify_creator e u msg x y db = Some db' \<Longrightarrow> keeps_row r db db'" for e u msg x y db db' r
    by (rule keeps_row_same) (simp add: notify_same)
qed (auto simp: keeps_row_same intro: keeps_row_update keeps_row_delete keeps_row_create dest: same_memos)

text \<open>
  C11. Whatever a user of the note server who is not an administrator calls, the memos of others stay as they are, row by
  row; the one exception is a comment on a memo of the user's own, which goes when the user deletes that memo.
\<close>
theorem memos_of_others_stay:
  assumes "keys_ok mr_ID (nd_memos db)" "r \<in> set (tb_rows (nd_memos db))"
    and "\<And>u. who = Some (Some u) \<Longrightarrow> \<not> isSuperUser u \<and> mr_CreatorID r \<noteq> su_ID u"
  shows "r \<in> set (tb_rows (nd_memos (serve_note e who c db))) \<or>
    (\<exists>name u rel p. c = NDelete name \<and> who = Some (Some u) \<and> rel \<in> set (nd_relations db) \<and> re_MemoID rel = mr_ID r \<and> re_Type rel = ''COMMENT''
       \<and> p \<in> set (tb_rows (nd_memos db)) \<and> mr_ID p = re_RelatedMemoID rel \<and> mr_CreatorID p = su_ID u)" (is "_ \<or> ?gone")
proof (cases ?gone)
  case False
  have other: "mr_ID (me_Row m) \<noteq> mr_ID r" if "keeps_row r db db'" "existing_memo e' code name db' = Inr m" "writing_refused who m = None" for db' e' code name m
  proof
    assume "mr_ID (me_Row m) = mr_ID r"
    moreover have "keys_ok mr_ID (nd_memos db')" "r \<in> set (tb_rows (nd_memos db'))" using that(1) assms(1,2) by (simp_all add: keeps_row_def)
    ultimately have "me_Row m = r" using memo_tab.same_key existing_row [OF that(2)] by blast
    then show False using that(3) assms(3) by (auto simp: writing_refused_def split: option.splits if_splits)
  qed
  have "keeps_row r db (serve_note e who c db)"
  proof (rule row.serve_keeps)
    show "mr_ID (me_Row m) \<in> - {mr_ID r}" if "keeps_row r db db'" "existing_memo e' code name db' = Inr m" "writing_refused who m = None" for db' e' code name m
      using other [OF that] by simp
    show "insert (mr_ID (me_Row m)) {i. \<exists>rel \<in> set (nd_relations db). re_MemoID rel = i \<and> re_RelatedMemoID rel = mr_ID (me_Row m)
        \<and> re_Type rel = ''COMMENT''} \<subseteq> - {mr_ID r}"
      if del: "c = NDelete name" and ex: "existing_memo e Unknown name db = Inr m" and may: "writing_refused who m = None" for name m
    proof -
      obtain u where u: "who = Some (Some u)" "mr_CreatorID (me_Row m) = su_ID u"
        using may assms(3) by (auto simp: writing_refused_def split: option.splits if_splits)
      have "mr_ID (me_Row m) \<noteq> mr_ID r" by (rule other [OF row.refl_step ex may])
      then show ?thesis using False del u existing_row [OF ex] by auto
    qed
  qed
  then show ?thesis using assms(1,2) by (simp add: keeps_row_def)
qed simp

theorem memos_of_others_stay_witness:
  "demo_memo 1 ''secret'' 1 ''PRIVATE'' \<in> set (tb_rows (nd_memos (serve_note (notes_env (demo_cel shared_test)) (Some (Some note_bob)) (NDelete ''memos/mine'') demo_notes))) \<and>
   map mr_UID (tb_rows (nd_memos (serve_note (notes_env (demo_cel shared_test)) (Some (Some note_bob)) (NDelete ''memos/mine'') demo_notes))) = [''secret'', ''open'']"
proof -
  have "keys_ok mr_ID (nd_memos demo_notes)" by (simp add: keys_ok_def demo_notes_def demo_memo_def)
  moreover have "demo_memo 1 ''secret'' 1 ''PRIVATE'' \<in> set (tb_rows (nd_memos demo_notes))" "nd_relations demo_notes = []"
    by (simp_all add: demo_notes_def)
  moreover have "\<not> isSuperUser note_bob \<and> mr_CreatorID (demo_memo 1 ''secret'' 1 ''PRIVATE'') \<noteq> su_ID note_bob"
    by (simp add: note_bob_def demo_user_def isSuperUser_def demo_memo_def)
  moreover have "map mr_UID (tb_rows (nd_memos (serve_note (notes_env (demo_cel shared_test)) (Some (Some note_bob)) (NDelete ''memos/mine'') demo_notes))) = [''secret'', ''open'']"
    by code_simp
  ultimately show ?thesis
    using memos_of_others_stay [of demo_notes "demo_memo 1 ''secret'' 1 ''PRIVATE''" "Some (Some note_bob)"] by (auto simp del: serve_note.simps)
qed

section \<open>Relations between memos that exist\<close>

definition closed_relations :: "notes_db \<Rightarrow> bool" where
  "closed_relations db \<longleftrightarrow> (\<forall>rel \<in> set (nd_relations db). re_MemoID rel \<in> memo_ids db \<and> re_RelatedMemoID rel \<in> memo_ids db)"

lemma closed_same: "memo_ids db \<subseteq> memo_ids db' \<Longrightarrow> set (nd_relations db') \<subseteq> set (nd_relations db) \<Longrightarrow> closed_relations db \<Longrightarrow> closed_relations db'"
  unfolding closed_relations_def by blast

lemma relation_gone: "DeleteMemoRelation e x y z db = Some db' \<Longrightarrow> set (nd_relations db') = {rel \<in> set (nd_relations db).
    \<not> (opt_matches x (re_MemoID rel) \<and> opt_matches y (re_RelatedMemoID rel) \<and> opt_matches z (re_Type rel))}"
  by (auto simp: DeleteMemoRelation_def split: if_splits)

lemma attachment_relations:
  "UpdateAttachment_memo e i j t db = Some db' \<Longrightarrow> nd_relations db' = nd_relations db"
  "DeleteAttachment e i db = Some db' \<Longrightarrow> nd_relations db' = nd_relations db"
  by (auto simp: UpdateAttachment_memo_def DeleteAttachment_def split: if_splits option.splits)

lemma attachments_relations: "delete_attachments e xs db = (b, db') \<Longrightarrow> nd_relations db' = nd_relations db"
  by (induction e xs db rule: delete_attachments.induct) (auto split: option.splits dest: attachment_relations)

lemma delete_closed:
  assumes "store_DeleteMemo e i db = (b, db')" "closed_relations db"
  shows "closed_relations db'"
proof -
  have same: "closed_relations d'" if "nd_memos d' = nd_memos d" "set (nd_relations d') \<subseteq> set (nd_relations d)" "closed_relations d" for d d'
    using that by (intro closed_same [of d d']) (auto simp: memo_ids_def)
  show ?thesis
  proof (cases "DeleteMemoRelation e (Some i) None None db")
    case 1: (Some d1)
    have c1: "closed_relations d1" by (rule same [of d1 db]) (use 1 relation_gone [OF 1] assms(2) in \<open>auto dest: relation_gone_same\<close>)
    show ?thesis
    proof (cases "DeleteMemoRelation e None (Some i) None d1")
      case 2: (Some d2)
      have c2: "closed_relations d2" by (rule same [of d2 d1]) (use 2 relation_gone [OF 2] c1 in \<open>auto dest: relation_gone_same\<close>)
      have free: "\<forall>rel \<in> set (nd_relations d2). re_MemoID rel \<noteq> i \<and> re_RelatedMemoID rel \<noteq> i"
        using relation_gone [OF 1] relation_gone [OF 2] by (auto simp: opt_matches_def)
      show ?thesis
      proof (cases "ListAttachments_where e (\<lambda>x. at_MemoID x = Some i) d2")
        case 3: (Some xs)
        obtain c d3 where d3: "delete_attachments e xs d2 = (c, d3)" by fastforce
        have 4: "nd_memos d3 = nd_memos d2" "nd_relations d3 = nd_relations d2"
          using attachments_gone_same [OF d3] attachments_relations [OF d3] by auto
        have c3: "closed_relations d3" by (rule same [OF 4(1) _ c2]) (simp add: 4(2))
        have "closed_relations d4" if "driver_DeleteMemo e i d3 = Some d4" for d4
        proof -
          have "d4 = d3\<lparr>nd_memos := delete_tab (\<lambda>r. mr_ID r = i) (nd_memos d3)\<rparr>"
            using that by (simp add: driver_DeleteMemo_def split: if_splits)
          then show ?thesis using c3 free 4(2) by (auto simp: closed_relations_def memo_ids_def)
        qed
        then show ?thesis using assms(1) 1 2 3 d3 c3 by (auto simp: store_DeleteMemo_def split: option.splits bool.splits)
      qed (use assms(1) 1 2 c2 in \<open>simp add: store_DeleteMemo_def\<close>)
    qed (use assms(1) 1 c1 in \<open>simp add: store_DeleteMemo_def\<close>)
  qed (use assms in \<open>simp add: store_DeleteMemo_def\<close>)
qed

lemma upsert_closed: "UpsertMemoRelation e rel db = Some db' \<Longrightarrow> re_MemoID rel \<in> memo_ids db \<Longrightarrow> re_RelatedMemoID rel \<in> memo_ids db
    \<Longrightarrow> closed_relations db \<Longrightarrow> closed_relations db'"
  by (auto simp: UpsertMemoRelation_def closed_relations_def memo_ids_def split: if_splits)

lemma update_relations: "store_UpdateMemo e q db = Some db' \<Longrightarrow> nd_relations db' = nd_relations db"
  by (drule update_rows) auto

interpretation closed: note_steps "\<lambda>db db'. closed_relations db \<longrightarrow> closed_relations db'" UNIV UNIV
proof unfold_locales
  show "store_CreateMemo e r db = Inr (r', db') \<Longrightarrow> closed_relations db \<longrightarrow> closed_relations db'" for e r db r' db'
    by (intro impI closed_same [of db db']) (auto dest!: create_rows simp: memo_ids_def)
  show "store_UpdateMemo e q db = Some db' \<Longrightarrow> um_ID q \<in> UNIV \<Longrightarrow> closed_relations db \<longrightarrow> closed_relations db'" for e q db db'
    using update_ids [of e q db db'] update_relations [of e q db db'] closed_same [of db db'] by auto
  show "DeleteMemoRelation e x y z db = Some db' \<Longrightarrow> closed_relations db \<longrightarrow> closed_relations db'" for e x y z db db'
    by (intro impI closed_same [of db db']) (auto simp: relation_gone memo_ids_def dest: relation_gone_same)
  show "UpdateAttachment_memo e i j t db = Some db' \<Longrightarrow> closed_relations db \<longrightarrow> closed_relations db'" for e i j t db db'
    by (intro impI closed_same [of db db']) (auto simp: attachment_relations memo_ids_def dest: attachment_linked_same)
  show "DeleteAttachment e i db = Some db' \<Longrightarrow> closed_relations db \<longrightarrow> closed_relations db'" for e i db db'
    by (intro impI closed_same [of db db']) (auto simp: attachment_relations memo_ids_def dest: attachment_gone_same)
  show "notify_creator e u msg r related db = Some db' \<Longrightarrow> closed_relations db \<longrightarrow> closed_relations db'" for e u msg r related db db'
    by (intro impI closed_same [of db db']) (auto simp: notify_same memo_ids_def)
qed (auto intro: delete_closed upsert_closed)

text \<open>
  C18. Relations only ever hold between memos that exist: over every run of the service, with any callers, statements
  that fail in the middle and memos deleted with their comments, no relation is left with a memo that is gone.
\<close>
theorem relations_stay_closed:
  assumes "note_run db db'" "closed_relations db"
  shows "closed_relations db'"
  using assms by (induction rule: note_run.induct) (use closed.serve_keeps in auto)

text \<open>Bob relates a memo of his to an open one of Alice.\<close>

theorem relations_stay_closed_witness:
  "closed_relations (serve_note (notes_env (demo_cel shared_test)) (Some (Some note_bob)) (NRelations ''memos/mine'' [(''memos/open'', False)]) demo_notes)"
proof -
  have "closed_relations demo_notes" by (simp add: closed_relations_def demo_notes_def)
  then show ?thesis using relations_stay_closed [OF note_run.call [OF note_run.start]] by blast
qed

end
