(* ===== verification/MemoFacts.thy ===== *)
theory MemoFacts
  imports MemoRights DashboardFacts
begin

text \<open>
  Who reads which memos: \<open>GetMemo\<close> and \<open>ListMemos\<close> show only what the user may read, as long as the user's filter has
  no constants; a filter with one shows anybody's private memos.
\<close>

section \<open>What SQLite and the expression parser are known to do\<close>

text \<open>The meaning of the conditions that the service itself writes.\<close>

definition reads_sql :: "(notes_db \<Rightarrow> string \<Rightarrow> sql_arg list \<Rightarrow> memo \<Rightarrow> bool) \<Rightarrow> bool" where
  "reads_sql P \<longleftrightarrow> (\<forall>db m. P db ''1 = 1'' [] m
     \<and> (\<forall>s. P db ''`memo`.`uid` = ?'' [AStr s] m \<longleftrightarrow> mr_UID (me_Row m) = s)
     \<and> (\<forall>w. P db ''`memo`.`creator_id` = ?'' [AInt w] m \<longleftrightarrow> word_of_int (mr_CreatorID (me_Row m)) = w)
     \<and> (\<forall>w. P db ''(`memo`.`creator_id` = ?)'' [AInt w] m \<longleftrightarrow> word_of_int (mr_CreatorID (me_Row m)) = w)
     \<and> (\<forall>s. P db ''`memo`.`row_status` = ?'' [AStr s] m \<longleftrightarrow> mr_RowStatus (me_Row m) = s)
     \<and> (\<forall>s. P db ''`memo`.`visibility` IN (?)'' [AStr s] m \<longleftrightarrow> mr_Visibility (me_Row m) = s)
     \<and> (\<forall>w s t. P db own_sql [AInt w, AStr s, AStr t] m \<longleftrightarrow>
          word_of_int (mr_CreatorID (me_Row m)) = w \<or> mr_Visibility (me_Row m) = s \<or> mr_Visibility (me_Row m) = t)
     \<and> (P db ''`parent_uid` IS NULL'' [] m \<longleftrightarrow> me_ParentUID m = None))"

text \<open>The parser reads the filter of the service as it is meant.\<close>

definition reads_own :: "cel_parser \<Rightarrow> int \<Rightarrow> bool" where
  "reads_own cel i \<longleftrightarrow> cel NewSchema (own_or_shared i) = Some (ECall None ''_||_'' [creator_test (word_of_int i), shared_test])"

definition own_part :: string where
  "own_part = ''(`memo`.`creator_id` = ? OR `memo`.`visibility` IN (?,?))''"

lemma own_sql_part: "own_sql = ''('' @ own_part @ '')''"
  by (simp add: own_sql_def own_part_def)

lemma own_condition:
  "buildCondition now NewSchema (ECall None ''_||_'' [creator_test w, shared_test]) =
     Inr (LogicalCondition LogicalOr (ComparisonCondition (FieldRef ''creator_id'') CompareEq (LiteralValue (LInt w)))
       (InCondition (FieldRef ''visibility'') [LiteralValue (LStr ''PUBLIC''), LiteralValue (LStr ''PROTECTED'')]))"
  by code_simp

lemma own_rendered:
  "renderer_Render (LogicalCondition LogicalOr (ComparisonCondition (FieldRef ''creator_id'') CompareEq (LiteralValue (LInt w)))
      (InCondition (FieldRef ''visibility'') [LiteralValue (LStr ''PUBLIC''), LiteralValue (LStr ''PROTECTED'')]))
     (newRenderer NewSchema \<lparr>ro_Dialect = SQLite, ro_PlaceholderOffset = k\<rparr>) =
   Inr \<lparr>st_SQL = own_part, st_Args = [AInt w, AStr ''PUBLIC'', AStr ''PROTECTED'']\<rparr>"
  by code_simp

lemma own_not_blank: "trim_space (own_or_shared i) \<noteq> []"
  by (simp add: own_or_shared_def trim_space_def is_space_def)

lemma own_statement:
  assumes "reads_own cel i"
  shows "CompileToStatement cel now NewSchema (own_or_shared i) \<lparr>ro_Dialect = SQLite, ro_PlaceholderOffset = k\<rparr> =
    Inr \<lparr>st_SQL = own_part, st_Args = [int_arg i, AStr ''PUBLIC'', AStr ''PROTECTED'']\<rparr>"
  using assms by (simp add: CompileToStatement_def Compile_def own_not_blank reads_own_def own_condition program_Render_def own_rendered int_arg_def
    del: buildCondition.simps)

section \<open>Conditions in order\<close>

lemma all_hold_append:
  "length vs = marks (concat ws) \<Longrightarrow> all_hold P (ws @ ws') (vs @ vs') \<longleftrightarrow> all_hold P ws vs \<and> all_hold P ws' vs'"
proof (induction ws arbitrary: vs)
  case (Cons w ws)
  then have "length (drop (marks w) vs) = marks (concat ws)" by simp
  from Cons.IH [OF this] Cons.prems show ?case by simp
qed simp

definition args_aligned :: "string list \<times> sql_arg list \<Rightarrow> bool" where
  "args_aligned wa \<longleftrightarrow> length (snd wa) = marks (concat (fst wa))"

lemma filters_aligned:
  assumes "list_all (constant_free cel now NewSchema) fs" "AppendConditions cel now NewSchema SQLite fs (wh, args) = Inr wa" "args_aligned (wh, args)"
  shows "args_aligned wa"
proof -
  obtain s vs where "concat (fst wa) = concat wh @ s" "marks s = length vs" "snd wa = args @ vs"
    using appended_marks [OF clean_schemas(1) assms(1), of wh args "fst wa" "snd wa"] assms(2) by auto
  then show ?thesis using assms(3) by (simp add: args_aligned_def)
qed

text \<open>The service's own filter comes last.\<close>

lemma append_own:
  assumes "reads_own cel i" "AppendConditions cel now NewSchema SQLite (fs @ [own_or_shared i]) wa0 = Inr wa"
  shows "\<exists>wb. AppendConditions cel now NewSchema SQLite fs wa0 = Inr wb \<and>
     wa = with_cond own_sql [int_arg i, AStr ''PUBLIC'', AStr ''PROTECTED''] wb"
  using assms(2)
proof (induction fs arbitrary: wa0)
  case Nil
  then show ?case by (cases wa0) (auto simp: own_statement [OF assms(1)] with_cond_def own_sql_part own_part_def)
next
  case (Cons f fs)
  then show ?case by (cases wa0) (auto split: sum.splits if_splits)
qed

section \<open>Listing\<close>

lemma order_field_keeps: "order_field x f = Some f' \<Longrightarrow>
    \<exists>a b c. f' = f\<lparr>fm_OrderByPinned := a, fm_OrderByUpdatedTs := b, fm_OrderByTimeAsc := c\<rparr>"
  by (cases f) (auto simp: order_field_def Let_def split: list.splits if_splits)

lemma order_fields_keep: "order_fields xs f = Some f' \<Longrightarrow>
    \<exists>a b c. f' = f\<lparr>fm_OrderByPinned := a, fm_OrderByUpdatedTs := b, fm_OrderByTimeAsc := c\<rparr>"
proof (induction xs arbitrary: f)
  case Nil then show ?case by (cases f) auto
next
  case (Cons x xs) then show ?case by (auto split: option.splits dest!: order_field_keeps) fastforce
qed

lemma order_by_keeps: "parseMemoOrderBy s f = Some f' \<Longrightarrow>
    \<exists>a b c. f' = f\<lparr>fm_OrderByPinned := a, fm_OrderByUpdatedTs := b, fm_OrderByTimeAsc := c\<rparr>"
  by (auto simp: parseMemoOrderBy_def Let_def split: if_splits dest!: order_fields_keep) fastforce+

text \<open>The filters and the conditions of a list, by who asks.\<close>

definition user_filters :: "list_request \<Rightarrow> string list" where
  "user_filters q = (if lq_Filter q = [] then [] else [lq_Filter q])"

lemma list_find_shape:
  assumes "list_find e who q = Inr f"
  shows "fm_Filters f = user_filters q @ (case who of Some u \<Rightarrow> if lq_Archived q then [] else [own_or_shared (su_ID u)] | None \<Rightarrow> [])"
    "find_conditions (f\<lparr>fm_Limit := l, fm_Offset := k, fm_OrderByUpdatedTs := b\<rparr>) wa =
      with_cond ''`parent_uid` IS NULL'' []
       (case who of
          None \<Rightarrow> with_cond ''`memo`.`visibility` IN (?)'' [AStr ''PUBLIC'']
             (with_cond ''`memo`.`row_status` = ?'' [AStr (if lq_Archived q then ''ARCHIVED'' else ''NORMAL'')] wa)
        | Some u \<Rightarrow> if lq_Archived q
            then with_cond ''`memo`.`row_status` = ?'' [AStr ''ARCHIVED''] (with_cond ''`memo`.`creator_id` = ?'' [int_arg (su_ID u)] wa)
            else with_cond ''`memo`.`row_status` = ?'' [AStr ''NORMAL''] wa)"
proof -
  let ?f = "find_all\<lparr>fm_ExcludeComments := True, fm_RowStatus := Some (if lq_Archived q then ''ARCHIVED'' else ''NORMAL''),
                fm_CreatorID := (if lq_Archived q then map_option su_ID who else None)\<rparr>"
  obtain g where g: "(if lq_OrderBy q = [] then Some ?f else parseMemoOrderBy (lq_OrderBy q) ?f) = Some g"
    using assms by (cases "if lq_OrderBy q = [] then Some ?f else parseMemoOrderBy (lq_OrderBy q) ?f")
      (simp_all only: list_find_def and_then_def or_code_def Let_def option.case sum.case, simp_all)
  have "\<exists>x y z. g = ?f\<lparr>fm_OrderByPinned := x, fm_OrderByUpdatedTs := y, fm_OrderByTimeAsc := z\<rparr>"
  proof (cases "lq_OrderBy q = []")
    case True then show ?thesis using g by (auto simp: find_all_def)
  next
    case False then show ?thesis using g order_by_keeps by (simp only: if_False)
  qed
  then obtain x y z where gf: "g = ?f\<lparr>fm_OrderByPinned := x, fm_OrderByUpdatedTs := y, fm_OrderByTimeAsc := z\<rparr>" by blast
  have f: "f = (let f = g\<lparr>fm_Filters := user_filters q\<rparr> in case who of
        None \<Rightarrow> f\<lparr>fm_VisibilityList := [''PUBLIC'']\<rparr>
      | Some u \<Rightarrow> if lq_Archived q then f else f\<lparr>fm_Filters := user_filters q @ [own_or_shared (su_ID u)]\<rparr>)"
    using assms unfolding list_find_def Let_def g or_code_def and_then_def option.case sum.case
    by (cases who) (auto simp: gf user_filters_def find_all_def split: if_splits)
  show "fm_Filters f = user_filters q @ (case who of Some u \<Rightarrow> if lq_Archived q then [] else [own_or_shared (su_ID u)] | None \<Rightarrow> [])"
    by (simp add: f gf find_all_def split: option.splits)
  show "find_conditions (f\<lparr>fm_Limit := l, fm_Offset := k, fm_OrderByUpdatedTs := b\<rparr>) wa =
      with_cond ''`parent_uid` IS NULL'' []
       (case who of
          None \<Rightarrow> with_cond ''`memo`.`visibility` IN (?)'' [AStr ''PUBLIC'']
             (with_cond ''`memo`.`row_status` = ?'' [AStr (if lq_Archived q then ''ARCHIVED'' else ''NORMAL'')] wa)
        | Some u \<Rightarrow> if lq_Archived q
            then with_cond ''`memo`.`row_status` = ?'' [AStr ''ARCHIVED''] (with_cond ''`memo`.`creator_id` = ?'' [int_arg (su_ID u)] wa)
            else with_cond ''`memo`.`row_status` = ?'' [AStr ''NORMAL''] wa)"
    by (simp add: f gf find_all_def find_conditions_def in_condition_def Visibility_String_def split: option.splits)
qed

text \<open>What holds of a memo that the driver lists.\<close>

lemma listed_holds:
  assumes "driver_ListMemos e f db = Some ms" "m \<in> set ms"
  obtains wa where "AppendConditions (ne_cel e) (word_of_int (ne_now e)) NewSchema SQLite (fm_Filters f) ([''1 = 1''], []) = Inr wa"
    "all_hold (\<lambda>s vs. ne_holds e db s vs m) (fst (find_conditions f wa)) (snd (find_conditions f wa))"
    "me_Row m \<in> set (tb_rows (nd_memos db))"
proof -
  from assms(1) obtain wa where "AppendConditions (ne_cel e) (word_of_int (ne_now e)) NewSchema SQLite (fm_Filters f) ([''1 = 1''], []) = Inr wa"
    by (auto simp: driver_ListMemos_def split: sum.splits)
  then show ?thesis
    using that assms listed_memo [OF assms] by (auto simp: driver_ListMemos_def dest!: subsetD [OF set_page] split: prod.splits if_splits)
qed

lemma with_cond_aligned: "args_aligned wa \<Longrightarrow> marks s = length vs \<Longrightarrow> args_aligned (with_cond s vs wa)"
  by (simp add: args_aligned_def with_cond_def)

lemma with_cond_holds:
  assumes "args_aligned wa" "marks s = length vs"
  shows "all_hold P (fst (with_cond s vs wa)) (snd (with_cond s vs wa)) \<longleftrightarrow> all_hold P (fst wa) (snd wa) \<and> P s vs"
  using all_hold_append [of "snd wa" "fst wa" P "[s]" vs] assms by (simp add: args_aligned_def with_cond_def)

lemma own_marks:
  "marks own_sql = 3" "marks ''`memo`.`row_status` = ?'' = 1" "marks ''`memo`.`creator_id` = ?'' = 1"
  "marks ''`memo`.`visibility` IN (?)'' = 1" "marks ''`parent_uid` IS NULL'' = 0" "marks ''1 = 1'' = 0" "marks ''`memo`.`uid` = ?'' = 1"
  by code_simp+

text \<open>What a list asks of a row, in terms of the rows.\<close>

definition listed_for :: "store_user option \<Rightarrow> bool \<Rightarrow> memo \<Rightarrow> bool" where
  "listed_for who archived m \<longleftrightarrow> me_ParentUID m = None \<and>
     (let r = me_Row m in case who of
        None \<Rightarrow> mr_RowStatus r = (if archived then ''ARCHIVED'' else ''NORMAL'') \<and> mr_Visibility r = ''PUBLIC''
      | Some u \<Rightarrow> if archived then mr_RowStatus r = ''ARCHIVED'' \<and> int_arg (mr_CreatorID r) = int_arg (su_ID u)
          else mr_RowStatus r = ''NORMAL'' \<and>
            (int_arg (mr_CreatorID r) = int_arg (su_ID u) \<or> mr_Visibility r = ''PUBLIC'' \<or> mr_Visibility r = ''PROTECTED''))"

lemma list_rows:
  assumes sql: "reads_sql (ne_holds e)" and own: "\<And>u. who = Some u \<Longrightarrow> reads_own (ne_cel e) (su_ID u)"
    and free: "list_all (constant_free (ne_cel e) (word_of_int (ne_now e)) NewSchema) (user_filters q)"
    and f: "list_find e who q = Inr f"
    and ms: "driver_ListMemos e (f\<lparr>fm_Limit := l, fm_Offset := k, fm_OrderByUpdatedTs := b\<rparr>) db = Some ms" "m \<in> set ms"
  shows "listed_for who (lq_Archived q) m"
proof -
  let ?A = "AppendConditions (ne_cel e) (word_of_int (ne_now e)) NewSchema SQLite"
  let ?P = "\<lambda>s vs. ne_holds e db s vs m"
  obtain wa where wa: "?A (fm_Filters f) ([''1 = 1''], []) = Inr wa"
      and hold: "all_hold ?P (fst (find_conditions (f\<lparr>fm_Limit := l, fm_Offset := k, fm_OrderByUpdatedTs := b\<rparr>) wa))
        (snd (find_conditions (f\<lparr>fm_Limit := l, fm_Offset := k, fm_OrderByUpdatedTs := b\<rparr>) wa))"
    by (rule listed_holds [OF ms]) simp
  have start: "args_aligned ([''1 = 1''], [])" by (simp add: args_aligned_def mark_def)
  note sh = list_find_shape(1) [OF f] and holds = hold [unfolded list_find_shape(2) [OF f]]
  note P = sql [unfolded reads_sql_def, rule_format, of db m]
  show ?thesis
  proof (cases who)
    case None
    have "args_aligned wa" by (rule filters_aligned [OF free _ start]) (use wa sh None in simp)
    then show ?thesis using holds P None
      by (simp add: with_cond_holds with_cond_aligned own_marks mark_def listed_for_def Let_def)
  next
    case (Some u)
    show ?thesis
    proof (cases "lq_Archived q")
      case True
      have "args_aligned wa" by (rule filters_aligned [OF free _ start]) (use wa sh Some True in simp)
      then show ?thesis using holds P Some True
        by (simp add: with_cond_holds with_cond_aligned own_marks mark_def listed_for_def Let_def int_arg_def)
    next
      case False
      obtain wb where wb: "?A (user_filters q) ([''1 = 1''], []) = Inr wb"
          "wa = with_cond own_sql [int_arg (su_ID u), AStr ''PUBLIC'', AStr ''PROTECTED''] wb"
        using append_own [OF own [OF Some]] wa sh Some False by fastforce
      have "args_aligned wb" by (rule filters_aligned [OF free wb(1) start])
      then show ?thesis using holds P Some False
        by (simp add: wb(2) with_cond_holds with_cond_aligned own_marks mark_def listed_for_def Let_def int_arg_def)
    qed
  qed
qed

text \<open>The rule: one's own memos, and those of others that are not archived, public ones or, for a user who has logged in, not private ones.\<close>

definition may_read :: "store_user option \<Rightarrow> memo_row \<Rightarrow> bool" where
  "may_read who r \<longleftrightarrow> (\<exists>u. who = Some u \<and> mr_CreatorID r = su_ID u)
     \<or> mr_RowStatus r \<noteq> ''ARCHIVED'' \<and> (mr_Visibility r = ''PUBLIC'' \<or> who \<noteq> None \<and> mr_Visibility r \<noteq> ''PRIVATE'')"

definition int32 :: "int \<Rightarrow> bool" where
  "int32 i \<longleftrightarrow> - (2 ^ 31) \<le> i \<and> i < 2 ^ 31"

lemma int_arg_same:
  assumes "int32 i" "int32 j"
  shows "int_arg i = int_arg j \<longleftrightarrow> i = j"
proof
  have keep: "signed_take_bit 63 k = k" if "int32 k" for k
    using that by (intro signed_take_bit_int_eq_self) (simp_all add: int32_def)
  assume "int_arg i = int_arg j"
  then have "signed_take_bit 63 i = signed_take_bit 63 j"
    by (simp add: int_arg_def word_of_int_eq_iff signed_take_bit_eq_iff_take_bit_eq)
  then show "i = j" using assms by (simp add: keep)
qed simp

lemma listed_may_read:
  assumes "listed_for who archived m" "int32 (mr_CreatorID (me_Row m))" "\<And>u. who = Some u \<Longrightarrow> int32 (su_ID u)" "archived \<Longrightarrow> who \<noteq> None"
  shows "may_read who (me_Row m)"
  using assms by (cases who) (auto simp: listed_for_def may_read_def Let_def int_arg_same split: if_splits)

lemma converted:
  "convertMemoFromStoreWithCreators e db m atts rels = Inr (Some msg) \<Longrightarrow>
    ms_Name msg = buildMemoName (mr_UID (me_Row m)) \<and> ms_Content msg = mr_Content (me_Row m)"
  by (auto simp: convertMemoFromStoreWithCreators_def unless_fails_def Let_def split: if_splits)

lemma message_of_memo:
  "memo_messages e c who ms db = Inr msgs \<Longrightarrow> msg \<in> set msgs \<Longrightarrow>
    \<exists>m \<in> set ms. ms_Name msg = buildMemoName (mr_UID (me_Row m)) \<and> ms_Content msg = mr_Content (me_Row m)"
  by (auto simp: memo_messages_def unless_fails_def and_then_def or_code_def Let_def
      split: if_splits option.splits sum.splits dest!: converted [OF sym])

lemma list_memos_found:
  assumes "ListMemos e (Some who) q db = Inr (msgs, token)" "msg \<in> set msgs"
  obtains f b l k ms m where "list_find e who q = Inr f"
    "driver_ListMemos e (f\<lparr>fm_Limit := l, fm_Offset := k, fm_OrderByUpdatedTs := b\<rparr>) db = Some ms" "m \<in> set ms"
    "ms_Name msg = buildMemoName (mr_UID (me_Row m))" "ms_Content msg = mr_Content (me_Row m)" "lq_Archived q \<longrightarrow> who \<noteq> None"
proof -
  obtain f where f: "list_find e who q = Inr f" and vis: "lq_Archived q \<longrightarrow> who \<noteq> None"
    using assms by (auto simp: ListMemos_def and_then_def split: if_splits sum.splits)
  let ?f = "\<lambda>l off. (if ne_DisplayWithUpdateTime e then f\<lparr>fm_OrderByUpdatedTs := True\<rparr> else f)\<lparr>fm_Limit := Some (l + 1), fm_Offset := Some off\<rparr>"
  obtain l off ms xs where ms: "driver_ListMemos e (?f l off) db = Some ms" "memo_messages e Internal who xs db = Inr msgs" "set xs \<subseteq> set ms"
    using assms f by (auto simp: ListMemos_def and_then_def or_code_def unless_fails_def Let_def set_take_subset
        split: if_splits sum.splits option.splits prod.splits intro: that)
  obtain m where m: "m \<in> set ms" "ms_Name msg = buildMemoName (mr_UID (me_Row m))" "ms_Content msg = mr_Content (me_Row m)"
    using message_of_memo [OF ms(2) assms(2)] ms(3) by blast
  have shape: "?f l off = f\<lparr>fm_Limit := Some (l + 1), fm_Offset := Some off,
      fm_OrderByUpdatedTs := (if ne_DisplayWithUpdateTime e then True else fm_OrderByUpdatedTs f)\<rparr>" by (cases f) simp
  show ?thesis by (rule that [OF f ms(1) [unfolded shape] m vis])
qed

text \<open>
  C16. A list shows a user only memos that the user may read, and no comments: the user's own, those of others that are
  public or protected and, to a visitor, the public ones. It holds for every filter of the user that is compiled to
  a condition without constants.
\<close>
theorem list_shows_what_may_be_read:
  assumes "reads_sql (ne_holds e)" "\<forall>u. who = Some u \<longrightarrow> int32 (su_ID u) \<and> reads_own (ne_cel e) (su_ID u)"
    "lq_Filter q = [] \<or> constant_free (ne_cel e) (word_of_int (ne_now e)) NewSchema (lq_Filter q)"
    "\<forall>r \<in> set (tb_rows (nd_memos db)). int32 (mr_CreatorID r)"
    "ListMemos e (Some who) q db = Inr (msgs, token)" "msg \<in> set msgs"
  shows "\<exists>m :: memo. me_Row m \<in> set (tb_rows (nd_memos db)) \<and> ms_Name msg = buildMemoName (mr_UID (me_Row m)) \<and>
    ms_Content msg = mr_Content (me_Row m) \<and> me_ParentUID m = None \<and> may_read who (me_Row m)"
proof -
  obtain f b l k ms m where m: "list_find e who q = Inr f"
      "driver_ListMemos e (f\<lparr>fm_Limit := l, fm_Offset := k, fm_OrderByUpdatedTs := b\<rparr>) db = Some ms" "m \<in> set ms"
      "ms_Name msg = buildMemoName (mr_UID (me_Row m))" "ms_Content msg = mr_Content (me_Row m)" "lq_Archived q \<longrightarrow> who \<noteq> None"
    by (rule list_memos_found [OF assms(5,6)]) (rule that)
  have free: "list_all (constant_free (ne_cel e) (word_of_int (ne_now e)) NewSchema) (user_filters q)"
    using assms(3) by (auto simp: user_filters_def)
  have l: "listed_for who (lq_Archived q) m" by (rule list_rows [OF assms(1) _ free m(1-3)]) (use assms(2) in simp)
  have row: "me_Row m \<in> set (tb_rows (nd_memos db))" by (rule listed_memo [OF m(2,3)])
  have "may_read who (me_Row m)" by (rule listed_may_read [OF l]) (use row assms(2,4) m(6) in auto)
  moreover have "me_ParentUID m = None" using l by (simp add: listed_for_def)
  ultimately show ?thesis using row m(4,5) by blast
qed

definition demo_list :: list_request where
  "demo_list = \<lparr>lq_Archived = False, lq_OrderBy = [], lq_Filter = ''f'', lq_PageSize = 10, lq_PageToken = None\<rparr>"

lemma demo_sql: "reads_sql demo_holds"
  by (simp add: reads_sql_def demo_holds_def own_sql_def Let_def) blast

lemma demo_own: "reads_own (demo_cel x) 2"
  by (simp add: reads_own_def demo_cel_def)

theorem list_shows_what_may_be_read_witness:
  "case ListMemos (notes_env (demo_cel (creator_test 1))) (Some (Some note_bob)) demo_list demo_notes of
     Inl c \<Rightarrow> False
   | Inr (msgs, token) \<Rightarrow> map ms_Name msgs = [''memos/open''] \<and>
       (\<exists>m :: memo. me_Row m \<in> set (tb_rows (nd_memos demo_notes)) \<and> ms_Name (hd msgs) = buildMemoName (mr_UID (me_Row m)) \<and>
         ms_Content (hd msgs) = mr_Content (me_Row m) \<and> me_ParentUID m = None \<and> may_read (Some note_bob) (me_Row m))"
proof -
  let ?e = "notes_env (demo_cel (creator_test 1))"
  have n: "case ListMemos ?e (Some (Some note_bob)) demo_list demo_notes of Inl c \<Rightarrow> False | Inr (msgs, token) \<Rightarrow> map ms_Name msgs = [''memos/open'']"
    by code_simp
  then obtain msgs token where l: "ListMemos ?e (Some (Some note_bob)) demo_list demo_notes = Inr (msgs, token)" "map ms_Name msgs = [''memos/open'']"
    by (auto split: sum.splits)
  have free: "constant_free (ne_cel ?e) (word_of_int (ne_now ?e)) NewSchema (lq_Filter demo_list)" by code_simp
  have "\<forall>r \<in> set (tb_rows (nd_memos demo_notes)). int32 (mr_CreatorID r)" by code_simp
  moreover have "\<forall>u. Some note_bob = Some u \<longrightarrow> int32 (su_ID u) \<and> reads_own (ne_cel ?e) (su_ID u)"
    using demo_own by (simp add: note_bob_def demo_user_def notes_env_def int32_def)
  moreover have "reads_sql (ne_holds ?e)" using demo_sql by (simp add: notes_env_def)
  moreover have "hd msgs \<in> set msgs" using l(2) by (cases msgs) auto
  ultimately show ?thesis using list_shows_what_may_be_read [OF _ _ _ _ l(1)] free l by auto
qed

section \<open>One memo\<close>

lemma refused_rule:
  "reading_refused (Some who) m = (if may_read who (me_Row m) then None
     else Some (if mr_RowStatus (me_Row m) = ''ARCHIVED'' then NotFound else if who = None then Unauthenticated else PermissionDenied))"
  by (cases who) (auto simp: reading_refused_def may_read_def Let_def)

lemma name_uid:
  assumes "uid \<noteq> []" "CHR ''/'' \<notin> set uid"
  shows "ExtractMemoUIDFromName (buildMemoName uid) = Some uid"
proof -
  have "split_on (CHR ''/'') (''memos'' @ CHR ''/'' # uid) = [''memos'', uid]"
    by (subst split_on_append) (simp_all add: split_on_single assms)
  then show ?thesis using assms by (simp add: ExtractMemoUIDFromName_def GetNameParentTokens_def buildMemoName_def)
qed

lemma uid_conditions: "find_conditions (find_uid uid) wa = with_cond ''`memo`.`uid` = ?'' [AStr uid] wa"
  by (simp add: find_conditions_def find_uid_def find_all_def)

lemma uid_parts: "fm_Filters (find_uid uid) = []" "fm_Limit (find_uid uid) = None"
  by (simp_all add: find_uid_def find_all_def)

lemma all_joined: "r \<in> set rows \<Longrightarrow> \<exists>m \<in> set (concat (map (joined db) rows)). me_Row m = r"
proof -
  assume "r \<in> set rows"
  moreover obtain m ms where "joined db r = m # ms" by (cases "joined db r") (auto simp: joined_def Let_def split: if_splits)
  ultimately show ?thesis using joined_row [of m db r] by (intro bexI [of _ m]) (auto intro!: bexI [of _ "me_Row m"])
qed

lemma memo_by_uid:
  assumes "reads_sql (ne_holds e)" "\<not> ne_fails e Q_memo" "distinct (map mr_UID (tb_rows (nd_memos db)))" "r \<in> set (tb_rows (nd_memos db))"
  obtains m where "store_GetMemo e (find_uid (mr_UID r)) db = Some (Some m)" "me_Row m = r"
proof -
  let ?all = "concat (map (joined db) (tb_rows (nd_memos db)))"
  note P = assms(1) [unfolded reads_sql_def, rule_format]
  have found: "driver_ListMemos e (find_uid (mr_UID r)) db =
      Some (ordered_memos (find_uid (mr_UID r)) (filter (\<lambda>m. mr_UID (me_Row m) = mr_UID r) ?all))"
    using assms(2) P by (simp add: driver_ListMemos_def uid_parts uid_conditions with_cond_def mark_def page_def)
  let ?ms = "ordered_memos (find_uid (mr_UID r)) (filter (\<lambda>m. mr_UID (me_Row m) = mr_UID r) ?all)"
  have only: "me_Row m = r" if "m \<in> set ?ms" for m
  proof -
    have "me_Row m \<in> set (tb_rows (nd_memos db))" "mr_UID (me_Row m) = mr_UID r" using that by (auto dest: joined_row)
    then show ?thesis using assms(3,4) by (auto simp: distinct_map dest: inj_onD)
  qed
  obtain m where "m \<in> set ?all" "me_Row m = r" using all_joined [OF assms(4)] by blast
  then have "m \<in> set ?ms" by simp
  then obtain x xs where "?ms = x # xs" by (cases ?ms) auto
  then show ?thesis using that [of x] only [of x] by (simp add: store_GetMemo_def found)
qed

text \<open>
  C17. \<open>GetMemo\<close> refuses exactly those whom the list leaves out: it shows a memo only to a user who may read it; to any
  other it answers that the memo is not found when it is archived, that a visitor must log in, or that it is not permitted.
\<close>
theorem memo_kept_from_others:
  assumes "reads_sql (ne_holds e)" "\<not> ne_fails e Q_memo" "distinct (map mr_UID (tb_rows (nd_memos db)))" "r \<in> set (tb_rows (nd_memos db))"
    "mr_UID r \<noteq> []" "CHR ''/'' \<notin> set (mr_UID r)"
  shows "case GetMemo e (Some who) (buildMemoName (mr_UID r)) db of
      Inr msg \<Rightarrow> may_read who r \<and> ms_Name msg = buildMemoName (mr_UID r) \<and> ms_Content msg = mr_Content r
    | Inl c \<Rightarrow> \<not> may_read who r \<longrightarrow> c = (if mr_RowStatus r = ''ARCHIVED'' then NotFound else if who = None then Unauthenticated else PermissionDenied)"
proof -
  obtain m where m: "store_GetMemo e (find_uid (mr_UID r)) db = Some (Some m)" "me_Row m = r" by (rule memo_by_uid [OF assms(1-4)])
  then have found: "existing_memo e Unknown (buildMemoName (mr_UID r)) db = Inr m"
    by (simp add: existing_memo_def named_memo_def name_uid [OF assms(5,6)] and_then_def or_code_def)
  show ?thesis
  proof (cases "may_read who r")
    case False then show ?thesis by (simp add: GetMemo_def found refused_rule m(2) and_then_def del: buildMemoName_def)
  next
    case True
    then show ?thesis
      by (auto simp: GetMemo_def found refused_rule m(2) and_then_def or_code_def memo_message_of_def unless_fails_def
          split: sum.splits option.splits if_splits dest!: converted)
  qed
qed

theorem memo_kept_from_others_witness:
  "GetMemo (notes_env (demo_cel shared_test)) (Some (Some note_bob)) ''memos/secret'' demo_notes = Inl PermissionDenied"
proof -
  let ?r = "demo_memo 1 ''secret'' 1 ''PRIVATE''"
  have "\<not> may_read (Some note_bob) ?r" by (simp add: may_read_def demo_memo_def note_bob_def demo_user_def)
  moreover have "buildMemoName (mr_UID ?r) = ''memos/secret''" "mr_RowStatus ?r \<noteq> ''ARCHIVED''" by (simp_all add: demo_memo_def buildMemoName_def)
  ultimately show ?thesis
    using memo_kept_from_others [of "notes_env (demo_cel shared_test)" demo_notes ?r "Some note_bob"] demo_sql
    by (simp add: notes_env_def demo_notes_def demo_memo_def split: sum.splits)
qed

section \<open>A filter that shows the private memos of another\<close>

text \<open>
  \<open>creator_id == i || (creator_id == i && visibility == "PRIVATE") && (visibility == "PRIVATE" && visibility == "NORMAL" && false)\<close>:
  the constant makes the right operand superfluous, and its four arguments stay.
\<close>

definition visibility_test :: "string \<Rightarrow> expr" where
  "visibility_test v = ECall None ''_==_'' [EIdent ''visibility'', EConst (CStr v)]"

definition both :: "expr \<Rightarrow> expr \<Rightarrow> expr" where
  "both a b = ECall None ''_&&_'' [a, b]"

definition leak_expr :: "64 word \<Rightarrow> expr" where
  "leak_expr w = ECall None ''_||_'' [creator_test w, both (both (creator_test w) (visibility_test ''PRIVATE''))
     (both (both (visibility_test ''PRIVATE'') (visibility_test ''NORMAL'')) (EConst (CBool False)))]"

definition leak_args :: "64 word \<Rightarrow> sql_arg list" where
  "leak_args w = [AInt w, AInt w, AStr ''PRIVATE'', AStr ''PRIVATE'', AStr ''NORMAL'']"

definition eq_literal :: "string \<Rightarrow> literal \<Rightarrow> condition" where
  "eq_literal f v = ComparisonCondition (FieldRef f) CompareEq (LiteralValue v)"

lemma leak_condition:
  "buildCondition now NewSchema (leak_expr w) =
     Inr (LogicalCondition LogicalOr (eq_literal ''creator_id'' (LInt w))
       (LogicalCondition LogicalAnd (LogicalCondition LogicalAnd (eq_literal ''creator_id'' (LInt w)) (eq_literal ''visibility'' (LStr ''PRIVATE'')))
         (LogicalCondition LogicalAnd (LogicalCondition LogicalAnd (eq_literal ''visibility'' (LStr ''PRIVATE'')) (eq_literal ''visibility'' (LStr ''NORMAL'')))
           (ConstantCondition False))))"
  by code_simp

lemma leak_rendered:
  "renderer_Render (LogicalCondition LogicalOr (eq_literal ''creator_id'' (LInt w))
       (LogicalCondition LogicalAnd (LogicalCondition LogicalAnd (eq_literal ''creator_id'' (LInt w)) (eq_literal ''visibility'' (LStr ''PRIVATE'')))
         (LogicalCondition LogicalAnd (LogicalCondition LogicalAnd (eq_literal ''visibility'' (LStr ''PRIVATE'')) (eq_literal ''visibility'' (LStr ''NORMAL'')))
           (ConstantCondition False))))
     (newRenderer NewSchema \<lparr>ro_Dialect = SQLite, ro_PlaceholderOffset = k\<rparr>) =
   Inr \<lparr>st_SQL = ''`memo`.`creator_id` = ?'', st_Args = leak_args w\<rparr>"
  by code_simp

lemma leak_statement:
  assumes "cel NewSchema src = Some (leak_expr w)" "trim_space src \<noteq> []"
  shows "CompileToStatement cel now NewSchema src \<lparr>ro_Dialect = SQLite, ro_PlaceholderOffset = k\<rparr> =
    Inr \<lparr>st_SQL = ''`memo`.`creator_id` = ?'', st_Args = leak_args w\<rparr>"
  using assms by (simp add: CompileToStatement_def Compile_def leak_condition program_Render_def leak_rendered del: buildCondition.simps)

lemma leak_appended:
  assumes "cel NewSchema src = Some (leak_expr w)" "trim_space src \<noteq> []" "reads_own cel i"
  shows "AppendConditions cel now NewSchema SQLite [src, own_or_shared i] ([''1 = 1''], []) =
    Inr ([''1 = 1'', ''(`memo`.`creator_id` = ?)'', own_sql], leak_args w @ [int_arg i, AStr ''PUBLIC'', AStr ''PROTECTED''])"
  by (simp add: leak_statement [where cel = cel, OF assms(1,2)] own_statement [OF assms(3)] own_sql_part, simp add: own_part_def)

text \<open>
  C19. Where the driver leaves arguments without a placeholder aside, a filter with a constant lists the private memos of
  anybody \<open>i\<close> to any user who has logged in: its superfluous arguments take the places of the service's own, which then
  asks for memos of \<open>i\<close>.
\<close>
theorem filter_leaks_private_memos:
  assumes "reads_sql (ne_holds e)" "reads_own (ne_cel e) (su_ID u)" "\<not> ne_strict e" "\<not> ne_fails e Q_memo"
    "ne_cel e NewSchema (lq_Filter q) = Some (leak_expr (word_of_int (mr_CreatorID r)))" "trim_space (lq_Filter q) \<noteq> []"
    "lq_OrderBy q = []" "\<not> lq_Archived q"
    "r \<in> set (tb_rows (nd_memos db))" "mr_RowStatus r = ''NORMAL''" "mr_Visibility r = ''PRIVATE''" "mr_CreatorID r \<noteq> su_ID u"
    "\<forall>rel \<in> set (nd_relations db). \<not> (re_MemoID rel = mr_ID r \<and> re_Type rel = ''COMMENT'')"
  shows "\<not> may_read (Some u) r \<and>
    (\<exists>f ms. list_find e (Some u) q = Inr f \<and> driver_ListMemos e f db = Some ms \<and> (\<exists>m \<in> set ms. me_Row m = r))"
proof -
  let ?f = "find_all\<lparr>fm_ExcludeComments := True, fm_RowStatus := Some ''NORMAL'', fm_Filters := [lq_Filter q, own_or_shared (su_ID u)]\<rparr>"
  let ?m = "\<lparr>me_Row = r, me_ParentUID = None\<rparr>"
  have ne: "lq_Filter q \<noteq> []" using assms(6) by (auto simp: trim_space_def)
  have valid: "validateFilter e (lq_Filter q)"
    using ne leak_statement [where cel = "ne_cel e", OF assms(5,6)] by (auto simp: validateFilter_def)
  have f: "list_find e (Some u) q = Inr ?f"
    using assms(7,8) ne valid by (simp add: list_find_def and_then_def or_code_def find_all_def)
  have c: "find_conditions ?f wa = with_cond ''`parent_uid` IS NULL'' [] (with_cond ''`memo`.`row_status` = ?'' [AStr ''NORMAL''] wa)" for wa
    by (simp add: find_conditions_def find_all_def)
  have "filter (\<lambda>rel. re_MemoID rel = mr_ID r \<and> re_Type rel = ''COMMENT'') (nd_relations db) = []"
    using assms(13) by (auto simp: filter_empty_conv)
  then have here: "?m \<in> set (concat (map (joined db) (tb_rows (nd_memos db))))"
    using assms(9) by (auto simp: joined_def Let_def intro!: bexI [of _ r])
  note P = assms(1) [unfolded reads_sql_def, rule_format, of db]
  have part: "''(`memo`.`creator_id` = ?)'' \<noteq> []" by simp
  let ?wh = "[''1 = 1'', ''(`memo`.`creator_id` = ?)'', own_sql, ''`memo`.`row_status` = ?'', ''`parent_uid` IS NULL'']"
  let ?args = "leak_args (word_of_int (mr_CreatorID r)) @ [int_arg (su_ID u), AStr ''PUBLIC'', AStr ''PROTECTED'', AStr ''NORMAL'']"
  have holds: "all_hold (\<lambda>s vs. ne_holds e db s vs ?m) ?wh ?args"
    using P [of ?m] assms(10) by (simp add: leak_args_def own_marks mark_def)
  have marks: "marks (concat ?wh) = 5" by (simp add: own_marks mark_def)
  have a: "AppendConditions (ne_cel e) (word_of_int (ne_now e)) NewSchema SQLite (fm_Filters ?f) ([''1 = 1''], []) =
      Inr (take 3 ?wh, take 8 ?args)"
    using leak_appended [where cel = "ne_cel e", OF assms(5,6,2)] by (simp add: find_all_def leak_args_def)
  have b: "find_conditions ?f (take 3 ?wh, take 8 ?args) = (?wh, ?args)"
    by (simp add: c with_cond_def leak_args_def)
  have n: "length ?args = 9" "fm_Limit ?f = None" by (simp_all add: leak_args_def find_all_def)
  have "driver_ListMemos e ?f db =
      Some (ordered_memos ?f (filter (\<lambda>m. all_hold (\<lambda>s vs. ne_holds e db s vs m) ?wh ?args) (concat (map (joined db) (tb_rows (nd_memos db))))))"
    unfolding driver_ListMemos_def a sum.case b Let_def prod.case page_def n marks option.case using assms(3,4) by (simp del: all_hold.simps)
  then have "\<exists>ms. driver_ListMemos e ?f db = Some ms \<and> ?m \<in> set ms" using here holds by (simp del: all_hold.simps)
  then show ?thesis using f assms(11,12) by (intro conjI exI [of _ ?f]) (auto simp: may_read_def intro!: bexI [of _ ?m])
qed

theorem filter_leaks_private_memos_witness:
  "\<not> may_read (Some note_bob) (demo_memo 1 ''secret'' 1 ''PRIVATE'') \<and>
   (\<exists>f ms. list_find (notes_env (demo_cel (leak_expr 1))) (Some note_bob) demo_list = Inr f \<and>
     driver_ListMemos (notes_env (demo_cel (leak_expr 1))) f demo_notes = Some ms \<and>
     (\<exists>m \<in> set ms. me_Row m = demo_memo 1 ''secret'' 1 ''PRIVATE'')) \<and>
   (case ListMemos (notes_env (demo_cel (leak_expr 1))) (Some (Some note_bob)) demo_list demo_notes of
      Inl c \<Rightarrow> False | Inr (msgs, token) \<Rightarrow> map ms_Name msgs = [''memos/open'', ''memos/secret''])"
proof -
  let ?e = "notes_env (demo_cel (leak_expr 1))" and ?r = "demo_memo 1 ''secret'' 1 ''PRIVATE''"
  have e: "reads_sql (ne_holds ?e)" "reads_own (ne_cel ?e) (su_ID note_bob)" "\<not> ne_strict ?e" "\<not> ne_fails ?e Q_memo"
    using demo_sql demo_own by (simp_all add: notes_env_def note_bob_def demo_user_def)
  have q: "ne_cel ?e NewSchema (lq_Filter demo_list) = Some (leak_expr (word_of_int (mr_CreatorID ?r)))"
    by (simp add: notes_env_def demo_cel_def demo_list_def own_or_shared_def demo_memo_def)
  have "case ListMemos ?e (Some (Some note_bob)) demo_list demo_notes of
      Inl c \<Rightarrow> False | Inr (msgs, token) \<Rightarrow> map ms_Name msgs = [''memos/open'', ''memos/secret'']" by code_simp
  then show ?thesis using filter_leaks_private_memos [where db = demo_notes and u = note_bob, OF e q]
    by (simp add: demo_list_def demo_notes_def demo_memo_def note_bob_def demo_user_def trim_space_def is_space_def)
qed

end
