(* ===== verification/NoteUsers.thy ===== *)
theory NoteUsers
  imports MemoService
begin

text \<open>
  The accounts of the note server: creating, updating, deleting and listing users, \<open>user_service.go\<close> and
  \<open>user_resource_name.go\<close> of \<open>memos/server/router/api/v1\<close>, over the users of the store with their cache. An operation
  takes the identifier of the user of the request, 0 for a visitor, and looks the user up itself. Every call into the
  store has an environment of its own.
\<close>

section \<open>Names\<close>

definition isNumericUsername :: "string \<Rightarrow> bool" where
  "isNumericUsername s \<longleftrightarrow> s \<noteq> [] \<and> list_all is_digit s"

definition validateUsername :: "string \<Rightarrow> bool" where
  "validateUsername s \<longleftrightarrow> s \<noteq> [] \<and> \<not> isNumericUsername s \<and> UIDMatcher s"

definition ExtractUsernameFromName :: "string \<Rightarrow> string option" where
  "ExtractUsernameFromName name =
     (case GetNameParentTokens name [''users/''] of
        None \<Rightarrow> None
      | Some ts \<Rightarrow> if hd ts = [] \<or> \<not> validateUsername (hd ts) then None else Some (hd ts))"

definition any_user :: find_user where
  "any_user = \<lparr>fu_ID = None, fu_IDList = [], fu_UsernameList = [], fu_RowStatus = None, fu_Username = None, fu_Role = None,
     fu_Email = None, fu_Nickname = None, fu_Search = None, fu_Filters = [], fu_Limit = None\<rparr>"

text \<open>\<open>None\<close> is an error of the name or of the statement.\<close>

definition ResolveUserByName :: "store_env \<Rightarrow> string \<Rightarrow> user_store \<Rightarrow> store_user option option \<times> user_store" where
  "ResolveUserByName e name s =
     (case ExtractUsernameFromName name of
        None \<Rightarrow> (None, s)
      | Some username \<Rightarrow> GetUser_by e (any_user\<lparr>fu_Username := Some username\<rparr>) s)"

section \<open>Messages\<close>

datatype api_role = RoleUnspecified | ApiAdmin | ApiUser

definition convertUserRoleFromStore :: "string \<Rightarrow> api_role" where
  "convertUserRoleFromStore r = (if r = ''ADMIN'' then ApiAdmin else if r = ''USER'' then ApiUser else RoleUnspecified)"

definition convertUserRoleToStore :: "api_role \<Rightarrow> string" where
  "convertUserRoleToStore r = (case r of ApiAdmin \<Rightarrow> ''ADMIN'' | _ \<Rightarrow> ''USER'')"

record user_message =
  ua_Name :: string
  ua_State :: api_state
  ua_CreateTime :: int
  ua_UpdateTime :: int
  ua_Role :: api_role
  ua_Username :: string
  ua_DisplayName :: string
  ua_AvatarUrl :: string
  ua_Description :: string
  ua_Email :: string

text \<open>The type of a data URI: the longest text between \<open>data:\<close> and \<open>;base64,\<close> that leaves something behind.\<close>

definition extractImageInfo :: "string \<Rightarrow> string option" where
  "extractImageInfo s =
     (if \<not> prefix ''data:'' s then None
      else let r = drop 5 s;
               fits = (\<lambda>k. 0 < k \<and> CHR 0x0A \<notin> set (take k r) \<and> prefix '';base64,'' (drop k r)
                    \<and> drop (k + 8) r \<noteq> [] \<and> hd (drop (k + 8) r) \<noteq> CHR 0x0A)
           in map_option (\<lambda>k. take k r) (List.find fits (rev [0..<length r])))"

definition canViewerAccessUserEmail :: "store_user option \<Rightarrow> store_user \<Rightarrow> bool" where
  "canViewerAccessUserEmail viewer u = (case viewer of None \<Rightarrow> False | Some v \<Rightarrow> su_Role v = ''ADMIN'' \<or> su_ID v = su_ID u)"

definition convertUserFromStore :: "store_user \<Rightarrow> store_user option \<Rightarrow> user_message" where
  "convertUserFromStore u viewer =
     \<lparr>ua_Name = BuildUserName (su_Username u), ua_State = convertStateFromStore (su_RowStatus u), ua_CreateTime = su_CreatedTs u,
      ua_UpdateTime = su_UpdatedTs u, ua_Role = convertUserRoleFromStore (su_Role u), ua_Username = su_Username u,
      ua_DisplayName = su_Nickname u,
      ua_AvatarUrl = (if su_AvatarURL u \<noteq> [] \<and> extractImageInfo (su_AvatarURL u) \<noteq> None
        then ''/file/'' @ BuildUserName (su_Username u) @ ''/avatar'' else su_AvatarURL u),
      ua_Description = su_Description u,
      ua_Email = (if canViewerAccessUserEmail viewer u then su_Email u else [])\<rparr>"

section \<open>The environment\<close>

text \<open>
  The calls into the store that an operation makes: of the current user, of the user named, of a list, and the one
  that writes; the settings of the instance; bcrypt, which may fail; and the clock.
\<close>

datatype user_call = C_current | C_named | C_list | C_write

record account_env =
  ac_store :: "user_call \<Rightarrow> store_env"
  ac_setting_fails :: bool
  ac_DisallowUserRegistration :: bool
  ac_DisallowChangeUsername :: bool
  ac_DisallowChangeNickname :: bool
  ac_DisallowPasswordAuth :: bool
  ac_hash :: "string \<Rightarrow> string option"
  ac_now :: int

text \<open>The current user where an error counts as nobody.\<close>

definition maybe_user :: "store_user option option \<Rightarrow> store_user option" where
  "maybe_user r = (case r of None \<Rightarrow> None | Some u \<Rightarrow> u)"

section \<open>Creating\<close>

record create_user_request =
  cu_Username :: string
  cu_Email :: string
  cu_DisplayName :: string
  cu_Role :: api_role
  cu_Password :: string
  cu_ValidateOnly :: bool

definition registration_refused :: "account_env \<Rightarrow> bool \<Rightarrow> store_user option \<Rightarrow> note_code option" where
  "registration_refused e first cur =
     (if first \<or> (\<exists>u \<in> set_option cur. isSuperUser u) then None
      else if ac_setting_fails e then Some Internal
      else if ac_DisallowUserRegistration e then Some PermissionDenied else None)"

definition role_to_assign :: "bool \<Rightarrow> store_user option \<Rightarrow> api_role \<Rightarrow> string" where
  "role_to_assign first cur role =
     (if first then ''ADMIN''
      else if \<exists>u \<in> set_option cur. su_Role u = ''ADMIN''
      then (if role \<noteq> RoleUnspecified then convertUserRoleToStore role else ''USER'') else ''USER'')"

definition created_user :: "create_user_request \<Rightarrow> string \<Rightarrow> string \<Rightarrow> store_user" where
  "created_user q role pw = \<lparr>su_ID = 0, su_RowStatus = [], su_CreatedTs = 0, su_UpdatedTs = 0, su_Username = cu_Username q, su_Role = role,
     su_Email = cu_Email q, su_Nickname = cu_DisplayName q, su_PasswordHash = pw, su_AvatarURL = [], su_Description = []\<rparr>"

definition preview :: "create_user_request \<Rightarrow> string \<Rightarrow> user_message" where
  "preview q role = \<lparr>ua_Name = [], ua_State = StateUnspecified, ua_CreateTime = 0, ua_UpdateTime = 0, ua_Role = convertUserRoleFromStore role,
     ua_Username = cu_Username q, ua_DisplayName = cu_DisplayName q, ua_AvatarUrl = [], ua_Description = [], ua_Email = cu_Email q\<rparr>"

definition service_CreateUser :: "account_env \<Rightarrow> int \<Rightarrow> create_user_request \<Rightarrow> user_store \<Rightarrow> user_message answer \<times> user_store" where
  "service_CreateUser e userID q s =
     (case fetchCurrentUser (ac_store e C_current) userID s of (found, s) \<Rightarrow>
        (case ListUsers (ac_store e C_list) (any_user\<lparr>fu_Limit := Some 1\<rparr>) s of
           (None, s) \<Rightarrow> (Inl Internal, s)
         | (Some all, s) \<Rightarrow>
             (case registration_refused e (all = []) (maybe_user found) of
                Some c \<Rightarrow> (Inl c, s)
              | None \<Rightarrow>
                  (let role = role_to_assign (all = []) (maybe_user found) (cu_Role q) in
                   if \<not> validateUsername (cu_Username q) then (Inl InvalidArgument, s)
                   else if cu_ValidateOnly q then (Inr (preview q role), s)
                   else case ac_hash e (cu_Password q) of
                     None \<Rightarrow> (Inl Internal, s)
                   | Some pw \<Rightarrow>
                       (case CreateUser (ac_store e C_write) (created_user q role pw) s of
                          (None, s) \<Rightarrow> (Inl Internal, s)
                        | (Some u, s) \<Rightarrow> (Inr (convertUserFromStore u (Some u)), s))))))"

section \<open>Updating\<close>

record update_user_request =
  uw_Name :: string
  uw_Mask :: "string list"
  uw_Username :: string
  uw_DisplayName :: string
  uw_Email :: string
  uw_AvatarUrl :: string
  uw_Description :: string
  uw_Role :: api_role
  uw_Password :: string
  uw_State :: api_state

definition allowed_avatar :: "string \<Rightarrow> bool" where
  "allowed_avatar url \<longleftrightarrow> url = [] \<or> (case extractImageInfo url of None \<Rightarrow> False
     | Some t \<Rightarrow> t \<in> {''image/png'', ''image/jpeg'', ''image/jpg'', ''image/gif'', ''image/webp''})"

definition no_change :: "int \<Rightarrow> int \<Rightarrow> update_user" where
  "no_change i now = \<lparr>uu_ID = i, uu_UpdatedTs = Some now, uu_RowStatus = None, uu_Username = None, uu_Role = None, uu_Email = None,
     uu_Nickname = None, uu_AvatarURL = None, uu_PasswordHash = None, uu_Description = None\<rparr>"

definition update_user_path :: "account_env \<Rightarrow> store_user \<Rightarrow> update_user_request \<Rightarrow> string \<Rightarrow> update_user \<Rightarrow> update_user answer" where
  "update_user_path e cur q field u =
     (if field = ''username'' then
        (if ac_DisallowChangeUsername e then Inl PermissionDenied
         else if \<not> validateUsername (uw_Username q) then Inl InvalidArgument else Inr (u\<lparr>uu_Username := Some (uw_Username q)\<rparr>))
      else if field = ''display_name'' then
        (if ac_DisallowChangeNickname e then Inl PermissionDenied else Inr (u\<lparr>uu_Nickname := Some (uw_DisplayName q)\<rparr>))
      else if field = ''email'' then Inr (u\<lparr>uu_Email := Some (uw_Email q)\<rparr>)
      else if field = ''avatar_url'' then
        (if \<not> allowed_avatar (uw_AvatarUrl q) then Inl InvalidArgument else Inr (u\<lparr>uu_AvatarURL := Some (uw_AvatarUrl q)\<rparr>))
      else if field = ''description'' then Inr (u\<lparr>uu_Description := Some (uw_Description q)\<rparr>)
      else if field = ''role'' then
        (if su_Role cur \<noteq> ''ADMIN'' then Inl PermissionDenied else Inr (u\<lparr>uu_Role := Some (convertUserRoleToStore (uw_Role q))\<rparr>))
      else if field = ''password'' then
        (case ac_hash e (uw_Password q) of None \<Rightarrow> Inl Internal | Some h \<Rightarrow> Inr (u\<lparr>uu_PasswordHash := Some h\<rparr>))
      else if field = ''state'' then Inr (u\<lparr>uu_RowStatus := Some (convertStateToStore (uw_State q))\<rparr>)
      else Inl InvalidArgument)"

fun update_user_paths :: "account_env \<Rightarrow> store_user \<Rightarrow> update_user_request \<Rightarrow> string list \<Rightarrow> update_user \<Rightarrow> update_user answer" where
  "update_user_paths e cur q [] u = Inr u"
| "update_user_paths e cur q (p # ps) u = and_then (update_user_path e cur q p u) (update_user_paths e cur q ps)"

text \<open>Only an administrator or the user; the user named is looked up before anybody is asked who they are.\<close>

definition with_user_named ::
  "account_env \<Rightarrow> int \<Rightarrow> string \<Rightarrow> (store_user \<Rightarrow> store_user \<Rightarrow> user_store \<Rightarrow> 'a answer \<times> user_store) \<Rightarrow> user_store \<Rightarrow> 'a answer \<times> user_store" where
  "with_user_named e userID name act s =
     (case ResolveUserByName (ac_store e C_named) name s of
        (None, s) \<Rightarrow> (Inl InvalidArgument, s)
      | (Some None, s) \<Rightarrow> (Inl NotFound, s)
      | (Some (Some u), s) \<Rightarrow>
          (case fetchCurrentUser (ac_store e C_current) userID s of
             (None, s) \<Rightarrow> (Inl Internal, s)
           | (Some None, s) \<Rightarrow> (Inl Unauthenticated, s)
           | (Some (Some cur), s) \<Rightarrow>
               if su_ID cur \<noteq> su_ID u \<and> su_Role cur \<noteq> ''ADMIN'' then (Inl PermissionDenied, s) else act u cur s))"

definition service_UpdateUser :: "account_env \<Rightarrow> int \<Rightarrow> update_user_request \<Rightarrow> user_store \<Rightarrow> user_message answer \<times> user_store" where
  "service_UpdateUser e userID q s =
     (if uw_Mask q = [] then (Inl InvalidArgument, s)
      else with_user_named e userID (uw_Name q)
        (\<lambda>u cur s. if ac_setting_fails e then (Inl Internal, s)
           else case update_user_paths e cur q (uw_Mask q) (no_change (su_ID u) (ac_now e)) of
             Inl c \<Rightarrow> (Inl c, s)
           | Inr change \<Rightarrow>
               (case UpdateUser (ac_store e C_write) change s of
                  (None, s) \<Rightarrow> (Inl Internal, s) | (Some u, s) \<Rightarrow> (Inr (convertUserFromStore u (Some cur)), s))) s)"

definition service_DeleteUser :: "account_env \<Rightarrow> int \<Rightarrow> string \<Rightarrow> user_store \<Rightarrow> unit answer \<times> user_store" where
  "service_DeleteUser e userID name =
     with_user_named e userID name
       (\<lambda>u cur s. case DeleteUser (ac_store e C_write) (su_ID u) s of (False, s) \<Rightarrow> (Inl Internal, s) | (True, s) \<Rightarrow> (Inr (), s))"

section \<open>Reading\<close>

definition service_GetUser :: "account_env \<Rightarrow> int \<Rightarrow> string \<Rightarrow> user_store \<Rightarrow> user_message answer \<times> user_store" where
  "service_GetUser e userID name s =
     (case ResolveUserByName (ac_store e C_named) name s of
        (None, s) \<Rightarrow> (Inl InvalidArgument, s)
      | (Some None, s) \<Rightarrow> (Inl NotFound, s)
      | (Some (Some u), s) \<Rightarrow>
          (case fetchCurrentUser (ac_store e C_current) userID s of (cur, s) \<Rightarrow> (Inr (convertUserFromStore u (maybe_user cur)), s)))"

text \<open>The filter of a list compares the user name with a text; the expression is the parser's.\<close>

definition extractUsernameFromComparison :: "expr \<Rightarrow> expr \<Rightarrow> string option" where
  "extractUsernameFromComparison l r =
     (case (l, r) of (EIdent x, EConst (CStr v)) \<Rightarrow> if x = ''username'' \<and> v \<noteq> [] then Some v else None | _ \<Rightarrow> None)"

definition extractUsernameFromAST :: "expr \<Rightarrow> string option" where
  "extractUsernameFromAST x =
     (case x of
        ECall t f [a, b] \<Rightarrow>
          if f \<noteq> ''_==_'' then None
          else (case extractUsernameFromComparison a b of Some v \<Rightarrow> Some v | None \<Rightarrow> extractUsernameFromComparison b a)
      | _ \<Rightarrow> None)"

definition extractUsernameFromFilter :: "(string \<Rightarrow> expr option) \<Rightarrow> string \<Rightarrow> string option" where
  "extractUsernameFromFilter parse src =
     (let src = trim_space src in
      if src = [] then Some []
      else case parse src of None \<Rightarrow> None | Some x \<Rightarrow> extractUsernameFromAST x)"

definition service_ListUsers ::
  "account_env \<Rightarrow> (string \<Rightarrow> expr option) \<Rightarrow> int \<Rightarrow> string \<Rightarrow> user_store \<Rightarrow> user_message list answer \<times> user_store" where
  "service_ListUsers e parse userID src s =
     (case fetchCurrentUser (ac_store e C_current) userID s of
        (None, s) \<Rightarrow> (Inl Internal, s)
      | (Some None, s) \<Rightarrow> (Inl Unauthenticated, s)
      | (Some (Some cur), s) \<Rightarrow>
          if su_Role cur \<noteq> ''ADMIN'' then (Inl PermissionDenied, s)
          else case (if src = [] then Some [] else extractUsernameFromFilter parse src) of
            None \<Rightarrow> (Inl InvalidArgument, s)
          | Some name \<Rightarrow>
              (case ListUsers (ac_store e C_list) (any_user\<lparr>fu_Username := if name = [] then None else Some name\<rparr>) s of
                 (None, s) \<Rightarrow> (Inl Internal, s)
               | (Some us, s) \<Rightarrow> (Inr (map (\<lambda>u. convertUserFromStore u (Some cur)) us), s)))"

fun normalizeBatchUsernames :: "string list \<Rightarrow> string list \<Rightarrow> string list" where
  "normalizeBatchUsernames [] seen = []"
| "normalizeBatchUsernames (x # xs) seen =
     (let n = trim_space x in
      if \<not> validateUsername n \<or> n \<in> set seen then normalizeBatchUsernames xs seen
      else n # normalizeBatchUsernames xs (n # seen))"

definition BatchGetUsers :: "account_env \<Rightarrow> int \<Rightarrow> string list \<Rightarrow> user_store \<Rightarrow> user_message list answer \<times> user_store" where
  "BatchGetUsers e userID usernames s =
     (let names = normalizeBatchUsernames usernames [] in
      if usernames = [] then (Inr [], s)
      else if 100 < length names then (Inl InvalidArgument, s)
      else if names = [] then (Inr [], s)
      else case ListUsers (ac_store e C_list) (any_user\<lparr>fu_UsernameList := names, fu_RowStatus := Some ''NORMAL''\<rparr>) s of
        (None, s) \<Rightarrow> (Inl Internal, s)
      | (Some us, s) \<Rightarrow>
          (case fetchCurrentUser (ac_store e C_current) userID s of
             (cur, s) \<Rightarrow> (Inr (map (\<lambda>u. convertUserFromStore u (maybe_user cur)) us), s)))"

section \<open>Calls\<close>

datatype account_call =
    ACreate create_user_request | AUpdate update_user_request | ADelete string | AGet string
  | AList "string \<Rightarrow> expr option" string | ABatch "string list"

fun serve_account :: "account_env \<Rightarrow> int \<Rightarrow> account_call \<Rightarrow> user_store \<Rightarrow> user_store" where
  "serve_account e userID (ACreate q) s = snd (service_CreateUser e userID q s)"
| "serve_account e userID (AUpdate q) s = snd (service_UpdateUser e userID q s)"
| "serve_account e userID (ADelete name) s = snd (service_DeleteUser e userID name s)"
| "serve_account e userID (AGet name) s = snd (service_GetUser e userID name s)"
| "serve_account e userID (AList parse src) s = snd (service_ListUsers e parse userID src s)"
| "serve_account e userID (ABatch names) s = snd (BatchGetUsers e userID names s)"

end
