(* ===== verification/NoteSettings.thy ===== *)
theory NoteSettings
  imports MemoService
begin

text \<open>
  The settings of a user of the note server: refresh tokens, personal access tokens, web hooks and the general ones, one
  row for each user and key, \<open>memos/store/user_setting.go\<close> over \<open>memos/store/db/sqlite/user_setting.go\<close>, behind a cache.
\<close>

section \<open>Values\<close>

record refresh_token =
  rt_TokenId :: string
  rt_ExpiresAt :: "int option"
  rt_CreatedAt :: int
  rt_ClientInfo :: string

record access_token =
  pt_TokenId :: string
  pt_TokenHash :: string
  pt_Description :: string
  pt_ExpiresAt :: "int option"
  pt_CreatedAt :: int
  pt_LastUsedAt :: "int option"

record webhook =
  wh_Id :: string
  wh_Title :: string
  wh_Url :: string

record general_setting =
  gs_Locale :: string
  gs_MemoVisibility :: string
  gs_Theme :: string

record shortcut =
  sc_Id :: string
  sc_Title :: string
  sc_Filter :: string

datatype setting_value =
    General general_setting | RefreshTokens "refresh_token list" | AccessTokens "access_token list" | Webhooks "webhook list"
  | Shortcuts "shortcut list"

definition key_of :: "setting_value \<Rightarrow> string" where
  "key_of v = (case v of General _ \<Rightarrow> ''GENERAL'' | RefreshTokens _ \<Rightarrow> ''REFRESH_TOKENS'' | AccessTokens _ \<Rightarrow> ''PERSONAL_ACCESS_TOKENS''
     | Webhooks _ \<Rightarrow> ''WEBHOOKS'' | Shortcuts _ \<Rightarrow> ''SHORTCUTS'')"

text \<open>A row keeps its value as JSON, which is read by its key.\<close>

record setting =
  sg_UserID :: int
  sg_Value :: setting_value

record setting_store =
  gt_cache :: "setting cache"
  gt_rows :: "setting list"

text \<open>
  The environment of a call into the store: for what it reads and for what it writes the world of the cache and whether
  the statement fails, and the order in which the engine scans the table.
\<close>

record setting_env =
  sv_read :: "setting world"
  sv_read_fails :: bool
  sv_write :: "setting world"
  sv_write_fails :: bool
  sv_scan :: "setting list \<Rightarrow> setting list"

section \<open>The driver\<close>

definition is_setting :: "int \<Rightarrow> string \<Rightarrow> setting \<Rightarrow> bool" where
  "is_setting i k x \<longleftrightarrow> sg_UserID x = i \<and> key_of (sg_Value x) = k"

definition upsert_row :: "setting \<Rightarrow> setting list \<Rightarrow> setting list" where
  "upsert_row x rows =
     (let same = is_setting (sg_UserID x) (key_of (sg_Value x)) in
      if \<exists>y \<in> set rows. same y then map (\<lambda>y. if same y then x else y) rows else rows @ [x])"

definition driver_ListUserSettings :: "setting_env \<Rightarrow> int \<Rightarrow> string \<Rightarrow> setting_store \<Rightarrow> setting list option" where
  "driver_ListUserSettings e i k t = (if sv_read_fails e then None else Some (filter (is_setting i k) (sv_scan e (gt_rows t))))"

text \<open>The user and the token with a hash: the first row scanned that has it.\<close>

definition tokens_with :: "setting \<Rightarrow> access_token list" where
  "tokens_with x = (case sg_Value x of AccessTokens ts \<Rightarrow> ts | _ \<Rightarrow> [])"

definition driver_GetUserByPATHash :: "setting_env \<Rightarrow> string \<Rightarrow> setting_store \<Rightarrow> (int \<times> access_token) option" where
  "driver_GetUserByPATHash e h t =
     (if sv_read_fails e then None
      else case List.find (\<lambda>x. \<exists>p \<in> set (tokens_with x). pt_TokenHash p = h) (sv_scan e (gt_rows t)) of
        None \<Rightarrow> None
      | Some x \<Rightarrow> map_option (\<lambda>p. (sg_UserID x, p)) (List.find (\<lambda>p. pt_TokenHash p = h) (tokens_with x)))"

section \<open>The store\<close>

definition getUserSettingCacheKey :: "int \<Rightarrow> string \<Rightarrow> string" where
  "getUserSettingCacheKey i k = itoa i @ ''-'' @ k"

definition setting_key :: "setting \<Rightarrow> string" where
  "setting_key x = getUserSettingCacheKey (sg_UserID x) (key_of (sg_Value x))"

definition cache_setting :: "setting world \<Rightarrow> setting \<Rightarrow> setting_store \<Rightarrow> setting_store" where
  "cache_setting w x t = t\<lparr>gt_cache := Cache_Set (fst w) (snd w) (setting_key x) (VOther x) (gt_cache t)\<rparr>"

definition UpsertUserSetting :: "setting_env \<Rightarrow> setting \<Rightarrow> setting_store \<Rightarrow> bool \<times> setting_store" where
  "UpsertUserSetting e x t =
     (if sv_write_fails e then (False, t) else (True, cache_setting (sv_write e) x (t\<lparr>gt_rows := upsert_row x (gt_rows t)\<rparr>)))"

definition ListUserSettings :: "setting_env \<Rightarrow> int \<Rightarrow> string \<Rightarrow> setting_store \<Rightarrow> setting list option \<times> setting_store" where
  "ListUserSettings e i k t =
     (case driver_ListUserSettings e i k t of None \<Rightarrow> (None, t) | Some xs \<Rightarrow> (Some xs, fold (cache_setting (sv_read e)) xs t))"

text \<open>\<open>None\<close> is an error, \<open>Some None\<close> no such setting.\<close>

definition GetUserSetting :: "setting_env \<Rightarrow> int \<Rightarrow> string \<Rightarrow> setting_store \<Rightarrow> setting option option \<times> setting_store" where
  "GetUserSetting e i k t =
     (case Cache_Get (snd (sv_read e)) (getUserSettingCacheKey i k) (gt_cache t) of
        (Some (VOther x), c) \<Rightarrow> (Some (Some x), t\<lparr>gt_cache := c\<rparr>)
      | (_, c) \<Rightarrow>
          (case ListUserSettings e i k (t\<lparr>gt_cache := c\<rparr>) of
             (None, t) \<Rightarrow> (None, t)
           | (Some [], t) \<Rightarrow> (Some None, t)
           | (Some [x], t) \<Rightarrow> (Some (Some x), cache_setting (sv_read e) x t)
           | (Some _, t) \<Rightarrow> (None, t)))"

text \<open>A setting that is read, changed and written back; one of another kind reads as empty.\<close>

definition change_setting :: "setting_env \<Rightarrow> int \<Rightarrow> string \<Rightarrow> (setting_value option \<Rightarrow> setting_value) \<Rightarrow> setting_store \<Rightarrow> bool \<times> setting_store" where
  "change_setting e i k f t =
     (case GetUserSetting e i k t of
        (None, t) \<Rightarrow> (False, t)
      | (Some r, t) \<Rightarrow> UpsertUserSetting e \<lparr>sg_UserID = i, sg_Value = f (map_option sg_Value r)\<rparr> t)"

text \<open>What is read is the object in the cache: changing it in place changes the cache, before anything is written.\<close>

definition poke :: "setting \<Rightarrow> setting_store \<Rightarrow> setting_store" where
  "poke x t = t\<lparr>gt_cache := (gt_cache t)\<lparr>ca_data :=
     map (\<lambda>(k, y). (k, if k = setting_key x then y\<lparr>it_value := VOther x\<rparr> else y)) (ca_data (gt_cache t))\<rparr>\<rparr>"

section \<open>Refresh tokens\<close>

definition refresh_tokens_of :: "setting_value option \<Rightarrow> refresh_token list" where
  "refresh_tokens_of v = (case v of Some (RefreshTokens ts) \<Rightarrow> ts | _ \<Rightarrow> [])"

definition GetUserRefreshTokens :: "setting_env \<Rightarrow> int \<Rightarrow> setting_store \<Rightarrow> refresh_token list option \<times> setting_store" where
  "GetUserRefreshTokens e i t =
     (case GetUserSetting e i ''REFRESH_TOKENS'' t of (r, t) \<Rightarrow> (map_option (\<lambda>x. refresh_tokens_of (map_option sg_Value x)) r, t))"

definition AddUserRefreshToken :: "setting_env \<Rightarrow> int \<Rightarrow> refresh_token \<Rightarrow> setting_store \<Rightarrow> bool \<times> setting_store" where
  "AddUserRefreshToken e i tok = change_setting e i ''REFRESH_TOKENS'' (\<lambda>v. RefreshTokens (refresh_tokens_of v @ [tok]))"

definition RemoveUserRefreshToken :: "setting_env \<Rightarrow> int \<Rightarrow> string \<Rightarrow> setting_store \<Rightarrow> bool \<times> setting_store" where
  "RemoveUserRefreshToken e i tid =
     change_setting e i ''REFRESH_TOKENS'' (\<lambda>v. RefreshTokens (filter (\<lambda>x. rt_TokenId x \<noteq> tid) (refresh_tokens_of v)))"

definition GetUserRefreshTokenByID :: "setting_env \<Rightarrow> int \<Rightarrow> string \<Rightarrow> setting_store \<Rightarrow> refresh_token option option \<times> setting_store" where
  "GetUserRefreshTokenByID e i tid t =
     (case GetUserRefreshTokens e i t of (r, t) \<Rightarrow> (map_option (List.find (\<lambda>x. rt_TokenId x = tid)) r, t))"

section \<open>Personal access tokens\<close>

definition access_tokens_of :: "setting_value option \<Rightarrow> access_token list" where
  "access_tokens_of v = (case v of Some (AccessTokens ts) \<Rightarrow> ts | _ \<Rightarrow> [])"

definition GetUserPersonalAccessTokens :: "setting_env \<Rightarrow> int \<Rightarrow> setting_store \<Rightarrow> access_token list option \<times> setting_store" where
  "GetUserPersonalAccessTokens e i t =
     (case GetUserSetting e i ''PERSONAL_ACCESS_TOKENS'' t of (r, t) \<Rightarrow> (map_option (\<lambda>x. access_tokens_of (map_option sg_Value x)) r, t))"

definition AddUserPersonalAccessToken :: "setting_env \<Rightarrow> int \<Rightarrow> access_token \<Rightarrow> setting_store \<Rightarrow> bool \<times> setting_store" where
  "AddUserPersonalAccessToken e i tok = change_setting e i ''PERSONAL_ACCESS_TOKENS'' (\<lambda>v. AccessTokens (access_tokens_of v @ [tok]))"

definition RemoveUserPersonalAccessToken :: "setting_env \<Rightarrow> int \<Rightarrow> string \<Rightarrow> setting_store \<Rightarrow> bool \<times> setting_store" where
  "RemoveUserPersonalAccessToken e i tid =
     change_setting e i ''PERSONAL_ACCESS_TOKENS'' (\<lambda>v. AccessTokens (filter (\<lambda>x. pt_TokenId x \<noteq> tid) (access_tokens_of v)))"

text \<open>The first element that fits, changed.\<close>

fun change_first :: "('b \<Rightarrow> bool) \<Rightarrow> ('b \<Rightarrow> 'b) \<Rightarrow> 'b list \<Rightarrow> 'b list" where
  "change_first P f [] = []"
| "change_first P f (x # xs) = (if P x then f x # xs else x # change_first P f xs)"

text \<open>Read, changed in place and written back.\<close>

definition change_in_place :: "setting_env \<Rightarrow> int \<Rightarrow> string \<Rightarrow> (setting_value option \<Rightarrow> setting_value) \<Rightarrow> setting_store \<Rightarrow> bool \<times> setting_store" where
  "change_in_place e i k f t =
     (case GetUserSetting e i k t of
        (None, t) \<Rightarrow> (False, t)
      | (Some r, t) \<Rightarrow>
          (let x = \<lparr>sg_UserID = i, sg_Value = f (map_option sg_Value r)\<rparr>
           in UpsertUserSetting e x (if r = None then t else poke x t)))"

definition UpdatePATLastUsed :: "setting_env \<Rightarrow> int \<Rightarrow> string \<Rightarrow> int \<Rightarrow> setting_store \<Rightarrow> bool \<times> setting_store" where
  "UpdatePATLastUsed e i tid now =
     change_in_place e i ''PERSONAL_ACCESS_TOKENS''
       (\<lambda>v. AccessTokens (change_first (\<lambda>p. pt_TokenId p = tid) (\<lambda>p. p\<lparr>pt_LastUsedAt := Some now\<rparr>) (access_tokens_of v)))"

section \<open>Web hooks\<close>

definition webhooks_of :: "setting_value option \<Rightarrow> webhook list" where
  "webhooks_of v = (case v of Some (Webhooks ws) \<Rightarrow> ws | _ \<Rightarrow> [])"

definition GetUserWebhooks :: "setting_env \<Rightarrow> int \<Rightarrow> setting_store \<Rightarrow> webhook list option \<times> setting_store" where
  "GetUserWebhooks e i t =
     (case GetUserSetting e i ''WEBHOOKS'' t of (r, t) \<Rightarrow> (map_option (\<lambda>x. webhooks_of (map_option sg_Value x)) r, t))"

definition put_webhook :: "webhook \<Rightarrow> webhook list \<Rightarrow> webhook list" where
  "put_webhook w ws =
     (if \<exists>x \<in> set ws. wh_Id x = wh_Id w then map (\<lambda>x. if wh_Id x = wh_Id w then w else x) ws else ws @ [w])"

definition AddUserWebhook :: "setting_env \<Rightarrow> int \<Rightarrow> webhook \<Rightarrow> setting_store \<Rightarrow> bool \<times> setting_store" where
  "AddUserWebhook e i w = change_setting e i ''WEBHOOKS'' (\<lambda>v. Webhooks (put_webhook w (webhooks_of v)))"

definition RemoveUserWebhook :: "setting_env \<Rightarrow> int \<Rightarrow> string \<Rightarrow> setting_store \<Rightarrow> bool \<times> setting_store" where
  "RemoveUserWebhook e i wid = change_setting e i ''WEBHOOKS'' (\<lambda>v. Webhooks (filter (\<lambda>x. wh_Id x \<noteq> wid) (webhooks_of v)))"

definition UpdateUserWebhook :: "setting_env \<Rightarrow> int \<Rightarrow> webhook \<Rightarrow> setting_store \<Rightarrow> bool \<times> setting_store" where
  "UpdateUserWebhook e i w = change_in_place e i ''WEBHOOKS'' (\<lambda>v. Webhooks (change_first (\<lambda>x. wh_Id x = wh_Id w) (\<lambda>_. w) (webhooks_of v)))"

end
