(* ===== verification/NoteAuth.thy ===== *)
theory NoteAuth
  imports NoteUsers NoteSettings CronNext
begin

text \<open>
  Who a request to the note server comes from: the authenticator, \<open>memos/server/auth\<close>, the interceptor, the rounds of
  signing in, refreshing and signing out of \<open>auth_service.go\<close>, and the personal access tokens of \<open>user_service.go\<close>. The
  JWT library, bcrypt, SHA-256 and random identifiers are parameters; cookies and headers arrive decoded.
\<close>

section \<open>Tokens\<close>

text \<open>The claims that a token carries, beside those the library checks: issuer, audience and expiry.\<close>

record claims =
  cl_Type :: string
  cl_Subject :: string
  cl_TokenID :: string
  cl_Username :: string
  cl_Role :: string
  cl_Status :: string

record note_accounts =
  na_users :: user_store
  na_settings :: setting_store

text \<open>
  The environment: the clock in seconds and the zone of the server, the calls into the stores, the library's parser and signer (audience, the
  expiry, the claims), the hash of personal tokens, the comparison of passwords, and what is random.
\<close>

record auth_env =
  au_now :: int
  au_zone :: zone
  au_account :: account_env
  au_read :: setting_env
  au_add :: setting_env
  au_remove :: setting_env
  au_jwt :: "string \<Rightarrow> int \<Rightarrow> string \<Rightarrow> claims option"
  au_sign :: "string \<Rightarrow> int \<Rightarrow> claims \<Rightarrow> string option"
  au_sha :: "string \<Rightarrow> string"
  au_compare :: "string \<Rightarrow> string \<Rightarrow> bool"
  au_tokenID :: string
  au_random :: string
  au_client :: string
  au_header_fails :: bool

definition AccessTokenDuration :: int where "AccessTokenDuration = 15 * 60"

definition RefreshTokenDuration :: int where "RefreshTokenDuration = 30 * 24 * 3600"

definition ParseAccessTokenV2 :: "auth_env \<Rightarrow> string \<Rightarrow> claims option" where
  "ParseAccessTokenV2 e tok =
     (case au_jwt e ''user.access-token'' (au_now e) tok of None \<Rightarrow> None | Some c \<Rightarrow> if cl_Type c \<noteq> ''access'' then None else Some c)"

definition ParseRefreshToken :: "auth_env \<Rightarrow> string \<Rightarrow> claims option" where
  "ParseRefreshToken e tok =
     (case au_jwt e ''user.refresh-token'' (au_now e) tok of None \<Rightarrow> None | Some c \<Rightarrow> if cl_Type c \<noteq> ''refresh'' then None else Some c)"

definition access_claims :: "store_user \<Rightarrow> claims" where
  "access_claims u = \<lparr>cl_Type = ''access'', cl_Subject = itoa (su_ID u), cl_TokenID = [], cl_Username = su_Username u,
     cl_Role = su_Role u, cl_Status = su_RowStatus u\<rparr>"

definition refresh_claims :: "int \<Rightarrow> string \<Rightarrow> claims" where
  "refresh_claims i tid = \<lparr>cl_Type = ''refresh'', cl_Subject = itoa i, cl_TokenID = tid, cl_Username = [], cl_Role = [], cl_Status = []\<rparr>"

definition GenerateAccessTokenV2 :: "auth_env \<Rightarrow> store_user \<Rightarrow> (string \<times> int) option" where
  "GenerateAccessTokenV2 e u =
     (let exp = au_now e + AccessTokenDuration in
      map_option (\<lambda>tok. (tok, exp)) (au_sign e ''user.access-token'' exp (access_claims u)))"

definition GenerateRefreshToken :: "auth_env \<Rightarrow> int \<Rightarrow> string \<Rightarrow> (string \<times> int) option" where
  "GenerateRefreshToken e i tid =
     (let exp = au_now e + RefreshTokenDuration in
      map_option (\<lambda>tok. (tok, exp)) (au_sign e ''user.refresh-token'' exp (refresh_claims i tid)))"

definition PersonalAccessTokenPrefix :: string where
  "PersonalAccessTokenPrefix = ''memos_pat_''"

definition GeneratePersonalAccessToken :: "auth_env \<Rightarrow> string" where
  "GeneratePersonalAccessToken e = PersonalAccessTokenPrefix @ au_random e"

text \<open>\<open>strconv.ParseInt\<close> in 32 bits.\<close>

definition ConvertStringToInt32 :: "string \<Rightarrow> int option" where
  "ConvertStringToInt32 s =
     (let neg = (s \<noteq> [] \<and> hd s = CHR ''-''); body = (if s \<noteq> [] \<and> (hd s = CHR ''-'' \<or> hd s = CHR ''+'') then tl s else s);
          n = (if neg then - int (undec body) else int (undec body))
      in if body = [] \<or> \<not> list_all is_digit body \<or> n < - (2 ^ 31) \<or> 2 ^ 31 \<le> n then None else Some n)"

definition ExtractBearerToken :: "string \<Rightarrow> string" where
  "ExtractBearerToken header =
     (case fields_func is_space header of [a, b] \<Rightarrow> if to_lower a = ''bearer'' then b else [] | _ \<Rightarrow> [])"

section \<open>The authenticator\<close>

definition unexpired :: "int option \<Rightarrow> int \<Rightarrow> bool" where
  "unexpired expiry now \<longleftrightarrow> (case expiry of None \<Rightarrow> True | Some t \<Rightarrow> now \<le> t)"

definition AuthenticateByAccessTokenV2 :: "auth_env \<Rightarrow> string \<Rightarrow> (int \<times> claims) option" where
  "AuthenticateByAccessTokenV2 e tok =
     (case ParseAccessTokenV2 e tok of
        None \<Rightarrow> None
      | Some c \<Rightarrow> map_option (\<lambda>i. (i, c)) (ConvertStringToInt32 (cl_Subject c)))"

text \<open>The user with an identifier, unless there is none or it is archived.\<close>

definition active_user :: "auth_env \<Rightarrow> int \<Rightarrow> note_accounts \<Rightarrow> store_user option \<times> note_accounts" where
  "active_user e i a =
     (case GetUser_by (ac_store (au_account e) C_current) (user_by_id i) (na_users a) of
        (Some (Some u), s) \<Rightarrow> (if su_RowStatus u = ''ARCHIVED'' then None else Some u, a\<lparr>na_users := s\<rparr>)
      | (_, s) \<Rightarrow> (None, a\<lparr>na_users := s\<rparr>))"

definition AuthenticateByRefreshToken :: "auth_env \<Rightarrow> string \<Rightarrow> note_accounts \<Rightarrow> (store_user \<times> string) option \<times> note_accounts" where
  "AuthenticateByRefreshToken e tok a =
     (case ParseRefreshToken e tok of
        None \<Rightarrow> (None, a)
      | Some c \<Rightarrow>
          (case ConvertStringToInt32 (cl_Subject c) of
             None \<Rightarrow> (None, a)
           | Some i \<Rightarrow>
               (case GetUserRefreshTokenByID (au_read e) i (cl_TokenID c) (na_settings a) of
                  (Some (Some t), g) \<Rightarrow>
                    if \<not> unexpired (rt_ExpiresAt t) (au_now e) then (None, a\<lparr>na_settings := g\<rparr>)
                    else (case active_user e i (a\<lparr>na_settings := g\<rparr>) of (r, a) \<Rightarrow> (map_option (\<lambda>u. (u, cl_TokenID c)) r, a))
                | (_, g) \<Rightarrow> (None, a\<lparr>na_settings := g\<rparr>))))"

text \<open>The user is read before the expiry and the status are looked at.\<close>

definition AuthenticateByPAT :: "auth_env \<Rightarrow> string \<Rightarrow> note_accounts \<Rightarrow> (store_user \<times> access_token) option \<times> note_accounts" where
  "AuthenticateByPAT e tok a =
     (if \<not> prefix PersonalAccessTokenPrefix tok then (None, a)
      else case driver_GetUserByPATHash (au_read e) (au_sha e tok) (na_settings a) of
        None \<Rightarrow> (None, a)
      | Some (i, p) \<Rightarrow>
          (case GetUser_by (ac_store (au_account e) C_current) (user_by_id i) (na_users a) of
             (Some (Some u), s) \<Rightarrow>
               (if \<not> unexpired (pt_ExpiresAt p) (au_now e) \<or> su_RowStatus u = ''ARCHIVED'' then None else Some (u, p), a\<lparr>na_users := s\<rparr>)
           | (_, s) \<Rightarrow> (None, a\<lparr>na_users := s\<rparr>)))"

text \<open>Of an access token only the claims are known, the tables are not asked.\<close>

datatype auth_result = ByClaims int claims | ByPAT store_user access_token

definition Authenticate :: "auth_env \<Rightarrow> string \<Rightarrow> note_accounts \<Rightarrow> auth_result option \<times> note_accounts" where
  "Authenticate e header a =
     (let tok = ExtractBearerToken header in
      if tok = [] then (None, a)
      else if \<not> prefix PersonalAccessTokenPrefix tok
      then (map_option (\<lambda>(i, c). ByClaims i c) (AuthenticateByAccessTokenV2 e tok), a)
      else case AuthenticateByPAT e tok a of (r, a) \<Rightarrow> (map_option (\<lambda>(u, p). ByPAT u p) r, a))"

text \<open>The time of the last use is written afterwards, on its own.\<close>

definition touch_pat :: "auth_env \<Rightarrow> auth_result option \<Rightarrow> note_accounts \<Rightarrow> note_accounts" where
  "touch_pat e r a =
     (case r of
        Some (ByPAT u p) \<Rightarrow> a\<lparr>na_settings := snd (UpdatePATLastUsed (au_add e) (su_ID u) (pt_TokenId p) (au_now e) (na_settings a))\<rparr>
      | _ \<Rightarrow> a)"

definition identity_of :: "auth_result option \<Rightarrow> int" where
  "identity_of r = (case r of None \<Rightarrow> 0 | Some (ByClaims i _) \<Rightarrow> i | Some (ByPAT u _) \<Rightarrow> su_ID u)"

definition public_methods :: "string list" where
  "public_methods = map (\<lambda>m. ''/memos.api.v1.'' @ m)
     [''AuthService/SignIn'', ''AuthService/RefreshToken'', ''InstanceService/GetInstanceProfile'', ''InstanceService/GetInstanceSetting'',
      ''UserService/CreateUser'', ''UserService/GetUser'', ''UserService/BatchGetUsers'', ''UserService/GetUserAvatar'', ''UserService/GetUserStats'',
      ''UserService/ListAllUserStats'', ''IdentityProviderService/ListIdentityProviders'', ''MemoService/GetMemo'', ''MemoService/ListMemos'',
      ''MemoService/ListMemoComments'', ''MemoService/GetMemoByShare'']"

definition IsPublicMethod :: "string \<Rightarrow> bool" where
  "IsPublicMethod procedure \<longleftrightarrow> procedure \<in> set public_methods"

text \<open>The interceptor hands the request on with what it knows of the user, or refuses it.\<close>

definition WrapUnary :: "auth_env \<Rightarrow> string \<Rightarrow> string \<Rightarrow> note_accounts \<Rightarrow> (auth_result option) answer \<times> note_accounts" where
  "WrapUnary e procedure header a =
     (case Authenticate e header a of (r, a) \<Rightarrow>
        (if r = None \<and> \<not> IsPublicMethod procedure then (Inl Unauthenticated, a) else (Inr r, a)))"

text \<open>
  The other entrances, \<open>v1.go\<close> and \<open>mcp.go\<close>. The middleware of the REST gateway refuses only where the gateway has put the
  name of the procedure into the context, which \<open>rpcMethod\<close> is then; the tools for programs ask for a token only if there is a header.
\<close>

definition gatewayAuthMiddleware :: "auth_env \<Rightarrow> string option \<Rightarrow> string \<Rightarrow> note_accounts \<Rightarrow> (auth_result option) answer \<times> note_accounts" where
  "gatewayAuthMiddleware e rpcMethod header a =
     (case Authenticate e header a of (r, a) \<Rightarrow>
        (if r = None \<and> rpcMethod \<noteq> None \<and> \<not> IsPublicMethod (the rpcMethod) then (Inl Unauthenticated, a) else (Inr r, a)))"

definition mcp_authenticate :: "auth_env \<Rightarrow> string \<Rightarrow> note_accounts \<Rightarrow> (auth_result option) answer \<times> note_accounts" where
  "mcp_authenticate e header a =
     (if header \<noteq> []
      then (case Authenticate e header a of (None, a) \<Rightarrow> (Inl Unauthenticated, a) | (Some r, a) \<Rightarrow> (Inr (Some r), a))
      else (Inr None, a))"

datatype entrance = Connect string | Gateway "string option" | Tools

fun enter :: "auth_env \<Rightarrow> entrance \<Rightarrow> string \<Rightarrow> note_accounts \<Rightarrow> (auth_result option) answer \<times> note_accounts" where
  "enter e (Connect procedure) header a = WrapUnary e procedure header a"
| "enter e (Gateway rpcMethod) header a = gatewayAuthMiddleware e rpcMethod header a"
| "enter e Tools header a = mcp_authenticate e header a"

text \<open>The file server asks for a user: a bearer token, and else the refresh token of the cookie. \<open>None\<close> is an error.\<close>

definition AuthenticateToUser :: "auth_env \<Rightarrow> string \<Rightarrow> string \<Rightarrow> note_accounts \<Rightarrow> store_user option option \<times> note_accounts" where
  "AuthenticateToUser e header cookie a =
     (let tok = ExtractBearerToken header;
          by_cookie = (\<lambda>a. if cookie = [] then (Some None, a)
             else case AuthenticateByRefreshToken e cookie a of (r, a) \<Rightarrow> (map_option (\<lambda>(u, tid). Some u) r, a))
      in if tok = [] then by_cookie a
         else if \<not> prefix PersonalAccessTokenPrefix tok
         then (case AuthenticateByAccessTokenV2 e tok of
                 Some (i, c) \<Rightarrow> (case GetUser_by (ac_store (au_account e) C_current) (user_by_id i) (na_users a) of (r, s) \<Rightarrow> (r, a\<lparr>na_users := s\<rparr>))
               | None \<Rightarrow> by_cookie a)
         else (case AuthenticateByPAT e tok a of (Some (u, p), a) \<Rightarrow> (Some (Some u), a) | (None, a) \<Rightarrow> by_cookie a))"

section \<open>Signing in and out\<close>

definition new_refresh_token :: "auth_env \<Rightarrow> int \<Rightarrow> refresh_token" where
  "new_refresh_token e exp = \<lparr>rt_TokenId = au_tokenID e, rt_ExpiresAt = Some exp, rt_CreatedAt = au_now e, rt_ClientInfo = au_client e\<rparr>"

record signed_in =
  sn_Refresh :: "string \<times> int"
  sn_Access :: "string \<times> int"

text \<open>That the refresh token cannot be stored is only logged.\<close>

definition doSignIn :: "auth_env \<Rightarrow> store_user \<Rightarrow> note_accounts \<Rightarrow> signed_in option \<times> note_accounts" where
  "doSignIn e u a =
     (case GenerateRefreshToken e (su_ID u) (au_tokenID e) of
        None \<Rightarrow> (None, a)
      | Some (tok, exp) \<Rightarrow>
          (let a = a\<lparr>na_settings := snd (AddUserRefreshToken (au_add e) (su_ID u) (new_refresh_token e exp) (na_settings a))\<rparr> in
           if au_header_fails e then (None, a)
           else (map_option (\<lambda>acc. \<lparr>sn_Refresh = (tok, exp), sn_Access = acc\<rparr>) (GenerateAccessTokenV2 e u), a)))"

text \<open>What an identity provider answers: an error, or who signs in, past the filter of the provider.\<close>

record user_info =
  ui_Identifier :: string
  ui_DisplayName :: string
  ui_Email :: string
  ui_AvatarURL :: string

datatype credentials = PasswordCredentials string string | SSOCredentials "user_info answer" string | NoCredentials

definition sso_user :: "user_info \<Rightarrow> string \<Rightarrow> store_user" where
  "sso_user i pw = \<lparr>su_ID = 0, su_RowStatus = [], su_CreatedTs = 0, su_UpdatedTs = 0, su_Username = ui_Identifier i, su_Role = ''USER'',
     su_Email = ui_Email i, su_Nickname = ui_DisplayName i, su_PasswordHash = pw, su_AvatarURL = ui_AvatarURL i, su_Description = []\<rparr>"

text \<open>The user of the credentials; the password that a user of a provider gets is random.\<close>

definition user_with_name :: "auth_env \<Rightarrow> string \<Rightarrow> user_store \<Rightarrow> store_user option option \<times> user_store" where
  "user_with_name e name = GetUser_by (ac_store (au_account e) C_named) (any_user\<lparr>fu_Username := Some name\<rparr>)"

definition password_user :: "auth_env \<Rightarrow> string \<Rightarrow> string \<Rightarrow> user_store \<Rightarrow> store_user answer \<times> user_store" where
  "password_user e name pw s =
     (case user_with_name e name s of
        (None, s) \<Rightarrow> (Inl Internal, s)
      | (Some None, s) \<Rightarrow> (Inl InvalidArgument, s)
      | (Some (Some u), s) \<Rightarrow>
          (if \<not> au_compare e (su_PasswordHash u) pw then Inl InvalidArgument
           else if ac_setting_fails (au_account e) then Inl Internal
           else if ac_DisallowPasswordAuth (au_account e) \<and> su_Role u = ''USER'' then Inl PermissionDenied
           else Inr u, s))"

definition provider_user :: "auth_env \<Rightarrow> user_info \<Rightarrow> string \<Rightarrow> user_store \<Rightarrow> store_user answer \<times> user_store" where
  "provider_user e i random s =
     (case user_with_name e (ui_Identifier i) s of
        (None, s) \<Rightarrow> (Inl Internal, s)
      | (Some (Some u), s) \<Rightarrow> (Inr u, s)
      | (Some None, s) \<Rightarrow>
          (if ac_setting_fails (au_account e) then (Inl Internal, s)
           else if ac_DisallowUserRegistration (au_account e) then (Inl PermissionDenied, s)
           else case ac_hash (au_account e) random of
             None \<Rightarrow> (Inl Internal, s)
           | Some pw \<Rightarrow>
               (case CreateUser (ac_store (au_account e) C_write) (sso_user i pw) s of
                  (None, s) \<Rightarrow> (Inl Internal, s) | (Some u, s) \<Rightarrow> (Inr u, s))))"

definition SignIn :: "auth_env \<Rightarrow> credentials \<Rightarrow> note_accounts \<Rightarrow> (user_message \<times> signed_in) answer \<times> note_accounts" where
  "SignIn e c a =
     (let (r, s) = (case c of
             PasswordCredentials name pw \<Rightarrow> password_user e name pw (na_users a)
           | SSOCredentials (Inl er) random \<Rightarrow> (Inl er, na_users a)
           | SSOCredentials (Inr i) random \<Rightarrow> provider_user e i random (na_users a)
           | NoCredentials \<Rightarrow> (Inl InvalidArgument, na_users a));
          a = a\<lparr>na_users := s\<rparr>
      in case r of
           Inl er \<Rightarrow> (Inl er, a)
         | Inr u \<Rightarrow>
             if su_RowStatus u = ''ARCHIVED'' then (Inl PermissionDenied, a)
             else (case doSignIn e u a of
               (None, a) \<Rightarrow> (Inl Internal, a)
             | (Some t, a) \<Rightarrow> (Inr (convertUserFromStore u (Some u), t), a)))"

text \<open>Rotation: the new token is stored before the old one goes; that it does not go is only logged.\<close>

definition service_RefreshToken :: "auth_env \<Rightarrow> string \<Rightarrow> note_accounts \<Rightarrow> signed_in answer \<times> note_accounts" where
  "service_RefreshToken e cookie a =
     (if cookie = [] then (Inl Unauthenticated, a)
      else case AuthenticateByRefreshToken e cookie a of
        (None, a) \<Rightarrow> (Inl Unauthenticated, a)
      | (Some (u, old), a) \<Rightarrow>
          (case GenerateRefreshToken e (su_ID u) (au_tokenID e) of
             None \<Rightarrow> (Inl Internal, a)
           | Some (tok, exp) \<Rightarrow>
               (case AddUserRefreshToken (au_add e) (su_ID u) (new_refresh_token e exp) (na_settings a) of
                  (False, g) \<Rightarrow> (Inl Internal, a\<lparr>na_settings := g\<rparr>)
                | (True, g) \<Rightarrow>
                    (let a = a\<lparr>na_settings := snd (RemoveUserRefreshToken (au_remove e) (su_ID u) old g)\<rparr> in
                     if au_header_fails e then (Inl Internal, a)
                     else case GenerateAccessTokenV2 e u of
                       None \<Rightarrow> (Inl Internal, a)
                     | Some acc \<Rightarrow> (Inr \<lparr>sn_Refresh = (tok, exp), sn_Access = acc\<rparr>, a)))))"

text \<open>The claims are those of an access token; a request with a personal token signs out of nothing.\<close>

definition SignOut :: "auth_env \<Rightarrow> auth_result option \<Rightarrow> string \<Rightarrow> note_accounts \<Rightarrow> unit answer \<times> note_accounts" where
  "SignOut e who cookie a =
     (let a = (case who of
             Some (ByClaims i c) \<Rightarrow>
               (case (if cookie = [] then None else ParseRefreshToken e cookie) of
                  None \<Rightarrow> a
                | Some rc \<Rightarrow> a\<lparr>na_settings := snd (RemoveUserRefreshToken (au_remove e) i (cl_TokenID rc) (na_settings a))\<rparr>)
           | _ \<Rightarrow> a)
      in (if au_header_fails e then Inl Internal else Inr (), a))"

section \<open>Personal access tokens\<close>

text \<open>
  The user named, if the request comes from them (or, where \<open>admin\<close>, from an administrator). With an access token the claims
  are enough; the user of the request is asked of the table only where they do not fit.
\<close>

definition with_owner ::
  "auth_env \<Rightarrow> bool \<Rightarrow> auth_result option \<Rightarrow> string \<Rightarrow> (store_user \<Rightarrow> note_accounts \<Rightarrow> 'a answer \<times> note_accounts) \<Rightarrow> note_accounts \<Rightarrow> 'a answer \<times> note_accounts" where
  "with_owner e admin who name act a =
     (case ResolveUserByName (ac_store (au_account e) C_named) name (na_users a) of
        (None, s) \<Rightarrow> (Inl InvalidArgument, a\<lparr>na_users := s\<rparr>)
      | (Some None, s) \<Rightarrow> (Inl InvalidArgument, a\<lparr>na_users := s\<rparr>)
      | (Some (Some u), s) \<Rightarrow>
          if (case who of Some (ByClaims i c) \<Rightarrow> i = su_ID u | _ \<Rightarrow> False) then act u (a\<lparr>na_users := s\<rparr>)
          else (case fetchCurrentUser (ac_store (au_account e) C_current) (identity_of who) s of
             (r, s) \<Rightarrow>
               if \<exists>cur \<in> set_option (maybe_user r). su_ID cur = su_ID u \<or> admin \<and> su_Role cur = ''ADMIN''
               then act u (a\<lparr>na_users := s\<rparr>) else (Inl PermissionDenied, a\<lparr>na_users := s\<rparr>)))"

definition pat_name :: "store_user \<Rightarrow> string \<Rightarrow> string" where
  "pat_name u tid = BuildUserName (su_Username u) @ ''/personalAccessTokens/'' @ tid"

text \<open>What is told of a token: neither the token nor its hash.\<close>

record pat_message =
  pm_Name :: string
  pm_Description :: string
  pm_ExpiresAt :: "int option"
  pm_CreatedAt :: int
  pm_LastUsedAt :: "int option"

definition pat_message_of :: "store_user \<Rightarrow> access_token \<Rightarrow> pat_message" where
  "pat_message_of u p = \<lparr>pm_Name = pat_name u (pt_TokenId p), pm_Description = pt_Description p, pm_ExpiresAt = pt_ExpiresAt p,
     pm_CreatedAt = pt_CreatedAt p, pm_LastUsedAt = pt_LastUsedAt p\<rparr>"

definition ListPersonalAccessTokens ::
  "auth_env \<Rightarrow> auth_result option \<Rightarrow> string \<Rightarrow> note_accounts \<Rightarrow> pat_message list answer \<times> note_accounts" where
  "ListPersonalAccessTokens e who parent =
     with_owner e True who parent
       (\<lambda>u a. case GetUserPersonalAccessTokens (au_read e) (su_ID u) (na_settings a) of
          (None, g) \<Rightarrow> (Inl Internal, a\<lparr>na_settings := g\<rparr>)
        | (Some ts, g) \<Rightarrow> (Inr (map (pat_message_of u) ts), a\<lparr>na_settings := g\<rparr>))"

definition CreatePersonalAccessToken ::
  "auth_env \<Rightarrow> auth_result option \<Rightarrow> string \<Rightarrow> string \<Rightarrow> int \<Rightarrow> note_accounts \<Rightarrow> (pat_message \<times> string) answer \<times> note_accounts" where
  "CreatePersonalAccessToken e who parent description days =
     with_owner e False who parent
       (\<lambda>u a. let tok = GeneratePersonalAccessToken e;
                  p = \<lparr>pt_TokenId = au_tokenID e, pt_TokenHash = au_sha e tok, pt_Description = description,
                       pt_ExpiresAt = (if 0 < days then Some (AddDate (au_zone e) (au_now e) 0 0 days) else None), pt_CreatedAt = au_now e, pt_LastUsedAt = None\<rparr>
              in case AddUserPersonalAccessToken (au_add e) (su_ID u) p (na_settings a) of
                   (False, g) \<Rightarrow> (Inl Internal, a\<lparr>na_settings := g\<rparr>)
                 | (True, g) \<Rightarrow> (Inr (pat_message_of u p, tok), a\<lparr>na_settings := g\<rparr>))"

definition DeletePersonalAccessToken :: "auth_env \<Rightarrow> auth_result option \<Rightarrow> string \<Rightarrow> note_accounts \<Rightarrow> unit answer \<times> note_accounts" where
  "DeletePersonalAccessToken e who name a =
     (case split_on (CHR ''/'') name of
        [p0, p1, p2, tid] \<Rightarrow>
          if p0 \<noteq> ''users'' \<or> p2 \<noteq> ''personalAccessTokens'' then (Inl InvalidArgument, a)
          else with_owner e False who (BuildUserName p1)
            (\<lambda>u a. case RemoveUserPersonalAccessToken (au_remove e) (su_ID u) tid (na_settings a) of
               (b, g) \<Rightarrow> (if b then Inr () else Inl Internal, a\<lparr>na_settings := g\<rparr>)) a
      | _ \<Rightarrow> (Inl InvalidArgument, a))"

end
