(* ===== verification/NoteUserRights.thy ===== *)
theory NoteUserRights
  imports NoteUsers UserStoreFacts
begin

text \<open>Who changes which accounts of the note server, and where administrators come from.\<close>

section \<open>Reading keeps the table\<close>

lemma cache_fold_rows: "us_rows (snd (ListUsers e f s)) = us_rows s" "us_seq (snd (ListUsers e f s)) = us_seq s"
  by (simp_all add: ListUsers_def split: option.split)

lemma cached_rows: "us_rows (snd (cached_user e f s)) = us_rows s" "us_seq (snd (cached_user e f s)) = us_seq s"
  by (simp_all add: cached_user_def split_beta Let_def split: option.split)

lemma get_rows: "us_rows (snd (GetUser_by e f s)) = us_rows s" "us_seq (snd (GetUser_by e f s)) = us_seq s"
  unfolding GetUser_by_def Let_def split_beta using cache_fold_rows cached_rows by (auto split: option.split list.split)

text \<open>A state after reading: the same table, and a cache that agrees when it did.\<close>

definition same_table :: "user_store \<Rightarrow> user_store \<Rightarrow> bool" where
  "same_table s t \<longleftrightarrow> us_rows t = us_rows s \<and> us_seq t = us_seq s \<and> (current s \<longrightarrow> current t)"

lemma same_table_refl [simp]: "same_table s s"
  by (simp add: same_table_def)

lemma same_table_trans: "same_table s t \<Longrightarrow> same_table t u \<Longrightarrow> same_table s u"
  by (simp add: same_table_def)

lemma list_same: "usable_env e \<Longrightarrow> ListUsers e f s = (r, t) \<Longrightarrow> same_table s t"
  using list_current [of s e f] cache_fold_rows [of e f s] by (simp add: same_table_def)

lemma get_same: "usable_env e \<Longrightarrow> GetUser_by e f s = (r, t) \<Longrightarrow> same_table s t"
  using get_current [of s e f] get_rows [of e f s] by (simp add: same_table_def)

lemma fetch_same: "usable_env e \<Longrightarrow> fetchCurrentUser e i s = (r, t) \<Longrightarrow> same_table s t"
  by (auto simp: fetchCurrentUser_def split: if_splits option.splits prod.splits dest: get_same)

lemma resolve_same: "usable_env e \<Longrightarrow> ResolveUserByName e name s = (r, t) \<Longrightarrow> same_table s t"
  by (auto simp: ResolveUserByName_def split: option.splits dest: get_same)

section \<open>What is read\<close>

lemma listed_in_table: "usable_env e \<Longrightarrow> ListUsers e f s = (Some us, t) \<Longrightarrow> set us \<subseteq> set (us_rows s)"
  by (auto simp: ListUsers_def split: option.splits dest: listed_rows)

lemma listed_matches: "usable_env e \<Longrightarrow> ListUsers e f s = (Some us, t) \<Longrightarrow> u \<in> set us \<Longrightarrow> user_found f u"
  by (auto simp: ListUsers_def driver_ListUsers_def limited_def split: option.splits if_splits dest!: in_set_takeD)

lemma user_by_id_find: "user_by_id = find_id"
  by (simp add: fun_eq_iff user_by_id_def find_id_def)

lemma fetched_user:
  assumes "fetchCurrentUser e i s = (Some (Some u), t)" "usable_env e" "current s" "us_seq s \<le> 55295"
  shows "u \<in> set (us_rows s)" "su_ID u = i"
proof -
  have g: "fst (GetUser_by e (find_id i) s) = Some (Some u)"
    using assms(1) by (auto simp: fetchCurrentUser_def user_by_id_find split: if_splits option.splits prod.splits)
  obtain hit s1 where h: "cached_user e (find_id i) s = (hit, s1)" by fastforce
  have "u \<in> set (us_rows s) \<and> su_ID u = i"
  proof (cases hit)
    case (Some v)
    then have "List.find (\<lambda>u. su_ID u = i) (us_rows s) = Some u"
      using cached_hit [OF assms(3,4,2)] g h by (simp add: GetUser_by_def)
    then show ?thesis using find_Some_iff_mem by fastforce
  next
    case None
    then obtain us s2 where l: "ListUsers e (find_id i) s1 = (Some (u # us), s2)"
      using g h by (auto simp: GetUser_by_def Let_def split: prod.splits option.splits list.splits)
    have "us_rows s1 = us_rows s" using cached_rows(1) [of e "find_id i" s] h by simp
    then show ?thesis using listed_in_table [OF assms(2) l] listed_matches [OF assms(2) l, of u] found_by_id by simp
  qed
  then show "u \<in> set (us_rows s)" "su_ID u = i" by simp_all
qed

lemma resolved_user:
  assumes "ResolveUserByName e name s = (Some (Some u), t)" "usable_env e"
  shows "u \<in> set (us_rows s)"
proof -
  obtain n where g: "GetUser_by e (any_user\<lparr>fu_Username := Some n\<rparr>) s = (Some (Some u), t)"
    using assms(1) by (auto simp: ResolveUserByName_def split: option.splits)
  then obtain us s2 where l: "ListUsers e (any_user\<lparr>fu_Username := Some n\<rparr>) s = (Some (u # us), s2)"
    by (auto simp: GetUser_by_def cached_user_def any_user_def Let_def split: prod.splits option.splits list.splits)
  show ?thesis using listed_in_table [OF assms(2) l] by simp
qed

section \<open>Writing\<close>

definition admins :: "user_store \<Rightarrow> int set" where
  "admins s = {i. \<exists>u \<in> set (us_rows s). su_ID u = i \<and> su_Role u = ''ADMIN''}"

text \<open>What a call of a user who is no administrator may do to a table with users.\<close>

definition harmless :: "int \<Rightarrow> user_store \<Rightarrow> user_store \<Rightarrow> bool" where
  "harmless i s t \<longleftrightarrow> admins t \<subseteq> admins s \<and> (\<forall>u \<in> set (us_rows s). su_ID u \<noteq> i \<longrightarrow> u \<in> set (us_rows t))"

lemma harmless_same: "same_table s t \<Longrightarrow> harmless i s t"
  by (simp add: same_table_def harmless_def admins_def)

lemma harmless_after: "same_table s t \<Longrightarrow> harmless i t u \<Longrightarrow> harmless i s u"
  by (simp add: same_table_def harmless_def admins_def)

lemma create_harmless:
  assumes "CreateUser e q s = (r, t)" "su_Role q \<noteq> ''ADMIN''"
  shows "harmless i s t"
  using assms by (auto simp: CreateUser_def driver_CreateUser_def harmless_def admins_def Let_def split: option.splits if_splits)

lemma update_harmless:
  assumes "UpdateUser e q s = (r, t)" "uu_ID q = i" "uu_Role q = None"
  shows "harmless i s t"
proof (cases "driver_UpdateUser e q s")
  case (Some x)
  then obtain u where u: "u \<in> set (us_rows s)" "su_ID u = i"
    and x: "us_rows (snd x) = map (\<lambda>y. if su_ID y = i then updated_user q u else y) (us_rows s)"
    using assms(2) by (auto simp: driver_UpdateUser_def Let_def split: option.splits if_splits dest: find_Some_iff_mem)
  have same: "su_ID (updated_user q u) = i" "su_Role (updated_user q u) = su_Role u"
    using u(2) assms(3) by (simp_all add: updated_user_def set_opt_def)
  have rows: "us_rows t = map (\<lambda>y. if su_ID y = i then updated_user q u else y) (us_rows s)"
    using assms(1) Some x by (auto simp: UpdateUser_def split: prod.splits)
  have "admins t \<subseteq> admins s" unfolding admins_def rows using u same by auto
  moreover have "\<forall>v \<in> set (us_rows s). su_ID v \<noteq> i \<longrightarrow> v \<in> set (us_rows t)" unfolding rows by auto
  ultimately show ?thesis by (simp add: harmless_def)
qed (use assms(1) in \<open>auto simp: UpdateUser_def intro: harmless_same\<close>)

lemma delete_harmless: "DeleteUser e i s = (r, t) \<Longrightarrow> harmless i s t"
  by (auto simp: DeleteUser_def driver_DeleteUser_def harmless_def admins_def split: if_splits)

lemma path_role: "update_user_path e cur q p u = Inr u' \<Longrightarrow> su_Role cur \<noteq> ''ADMIN'' \<Longrightarrow> uu_ID u' = uu_ID u \<and> uu_Role u' = uu_Role u"
  by (auto simp: update_user_path_def split: if_splits option.splits)

lemma paths_role: "update_user_paths e cur q ps u = Inr u' \<Longrightarrow> su_Role cur \<noteq> ''ADMIN'' \<Longrightarrow> uu_ID u' = uu_ID u \<and> uu_Role u' = uu_Role u"
proof (induction ps arbitrary: u)
  case (Cons p ps)
  then obtain v where "update_user_path e cur q p u = Inr v" "update_user_paths e cur q ps v = Inr u'"
    by (auto simp: and_then_def split: sum.splits)
  then show ?case using Cons path_role by metis
qed simp

section \<open>The operations\<close>

definition steady :: "account_env \<Rightarrow> bool" where
  "steady e \<longleftrightarrow> (\<forall>c. usable_env (ac_store e c))"

lemma named_harmless:
  assumes "steady e" "current s" "us_seq s \<le> 55295" "i \<notin> admins s"
    and "with_user_named e i name act s = (r, t)"
    and "\<And>u cur s1 r t. same_table s s1 \<Longrightarrow> su_ID cur = i \<Longrightarrow> su_ID u = i \<Longrightarrow> su_Role cur \<noteq> ''ADMIN'' \<Longrightarrow> act u cur s1 = (r, t) \<Longrightarrow> harmless i s1 t"
  shows "harmless i s t"
proof -
  note use = assms(1) [unfolded steady_def, rule_format]
  obtain x s1 where x: "ResolveUserByName (ac_store e C_named) name s = (x, s1)" by fastforce
  have 1: "same_table s s1" by (rule resolve_same [OF use x])
  obtain y s2 where y: "fetchCurrentUser (ac_store e C_current) i s1 = (y, s2)" by fastforce
  have 2: "same_table s s2" by (rule same_table_trans [OF 1 fetch_same [OF use y]])
  show ?thesis
  proof (cases "\<exists>u cur. x = Some (Some u) \<and> y = Some (Some cur) \<and> (su_ID cur = su_ID u \<or> su_Role cur = ''ADMIN'')")
    case True
    then obtain u cur where h: "x = Some (Some u)" "y = Some (Some cur)" "su_ID cur = su_ID u \<or> su_Role cur = ''ADMIN''" by blast
    have "cur \<in> set (us_rows s1)" "su_ID cur = i"
      using fetched_user [of "ac_store e C_current" i s1 cur s2] y h(2) use assms(2,3) 1 by (simp_all add: same_table_def)
    then have cur: "su_Role cur \<noteq> ''ADMIN''" "su_ID cur = i" using assms(4) 1 by (auto simp: admins_def same_table_def)
    have "act u cur s2 = (r, t)" using assms(5) h cur x y by (auto simp: with_user_named_def)
    then have "harmless i s2 t" using assms(6) 2 cur h(3) by metis
    then show ?thesis by (rule harmless_after [OF 2])
  next
    case False
    have "t = s1 \<or> t = s2" using assms(5) x y False
      by (auto simp: with_user_named_def split: option.splits if_splits)
    then show ?thesis using 1 2 harmless_same by blast
  qed
qed

lemma service_create_harmless:
  assumes "steady e" "current s" "us_seq s \<le> 55295" "i \<notin> admins s" "us_rows s \<noteq> []"
  shows "harmless i s (snd (service_CreateUser e i q s))"
proof -
  note use = assms(1) [unfolded steady_def, rule_format]
  obtain x s1 where x: "fetchCurrentUser (ac_store e C_current) i s = (x, s1)" by fastforce
  have 1: "same_table s s1" by (rule fetch_same [OF use x])
  have nobody: "su_Role u \<noteq> ''ADMIN''" if "maybe_user x = Some u" for u
  proof -
    have "x = Some (Some u)" using that by (auto simp: maybe_user_def split: option.splits)
    then show ?thesis using fetched_user [OF _ use assms(2,3)] x assms(4) by (auto simp: admins_def)
  qed
  obtain y s2 where y: "ListUsers (ac_store e C_list) (any_user\<lparr>fu_Limit := Some 1\<rparr>) s1 = (y, s2)" by fastforce
  have 2: "same_table s s2" by (rule same_table_trans [OF 1 list_same [OF use y]])
  have some: "all \<noteq> []" if "y = Some all" for all
  proof -
    have "mset (se_scan (ac_store e C_list) (us_rows s1)) = mset (us_rows s1)" using use by (simp add: usable_env_def permuting_def)
    then have ne: "se_scan (ac_store e C_list) (us_rows s1) \<noteq> []" using 1 assms(5) by (auto simp: same_table_def)
    let ?f = "any_user\<lparr>fu_Limit := Some 1\<rparr>"
    have "user_found ?f = (\<lambda>_. True)" by (simp add: fun_eq_iff user_found_def any_user_def opt_matches_def search_text_def)
    then have "all = take 1 (ordered_users ?f (se_scan (ac_store e C_list) (us_rows s1)))"
      using y that by (auto simp: ListUsers_def driver_ListUsers_def limited_def any_user_def split: option.splits if_splits)
    moreover have "ordered_users ?f (se_scan (ac_store e C_list) (us_rows s1)) \<noteq> []"
      using ne set_ordered [of ?f "se_scan (ac_store e C_list) (us_rows s1)"] by (metis set_empty)
    ultimately show ?thesis by simp
  qed
  show ?thesis
  proof (cases "\<exists>all pw. y = Some all \<and> ac_hash e (cu_Password q) = Some pw")
    case True
    then obtain all pw where h: "y = Some all" "ac_hash e (cu_Password q) = Some pw" by blast
    have role: "role_to_assign (all = []) (maybe_user x) (cu_Role q) = ''USER''"
      using some [OF h(1)] nobody by (auto simp: role_to_assign_def)
    obtain z s3 where z: "CreateUser (ac_store e C_write) (created_user q ''USER'' pw) s2 = (z, s3)" by fastforce
    have "harmless i s2 s3" by (rule create_harmless [OF z]) (simp add: created_user_def)
    then have "harmless i s s3" by (rule harmless_after [OF 2])
    then show ?thesis using harmless_same [OF 2] x y h z role
      by (auto simp: service_CreateUser_def Let_def split: option.splits)
  qed (use harmless_same [OF 2] x y in \<open>auto simp: service_CreateUser_def Let_def split: option.splits\<close>)
qed

lemma serve_harmless:
  assumes "steady e" "current s" "us_seq s \<le> 55295" "i \<notin> admins s" "us_rows s \<noteq> []"
  shows "harmless i s (serve_account e i c s)"
proof (cases c)
  case (ACreate q) then show ?thesis using service_create_harmless [OF assms] by simp
next
  case (AUpdate q)
  have "harmless i s t" if "with_user_named e i (uw_Name q) act s = (r, t)"
      "act = (\<lambda>u cur s. if ac_setting_fails e then (Inl Internal, s)
           else case update_user_paths e cur q (uw_Mask q) (no_change (su_ID u) (ac_now e)) of
             Inl c \<Rightarrow> (Inl c, s)
           | Inr change \<Rightarrow>
               (case UpdateUser (ac_store e C_write) change s of
                  (None, s) \<Rightarrow> (Inl Internal, s) | (Some u, s) \<Rightarrow> (Inr (convertUserFromStore u (Some cur)), s)))" for r t act
    by (rule named_harmless [OF assms(1-4) that(1)])
      (auto simp: that(2) no_change_def harmless_same split: if_splits sum.splits option.splits prod.splits
        intro: update_harmless dest!: paths_role)
  then show ?thesis by (auto simp: AUpdate service_UpdateUser_def harmless_same intro: prod.collapse [symmetric])
next
  case (ADelete name)
  have "harmless i s (snd (service_DeleteUser e i name s))"
    unfolding service_DeleteUser_def
    by (rule named_harmless [OF assms(1-4) prod.collapse [symmetric]])
      (auto split: prod.splits bool.splits intro: delete_harmless)
  then show ?thesis by (simp add: ADelete)
next
  case (AGet name)
  then show ?thesis using assms(1) unfolding steady_def
    by (auto simp: service_GetUser_def split: option.splits prod.splits
        intro!: harmless_same dest: resolve_same fetch_same intro: same_table_trans)
next
  case (AList parse src)
  then show ?thesis using assms(1) unfolding steady_def
    by (auto simp: service_ListUsers_def split: option.splits prod.splits
        intro!: harmless_same dest: list_same fetch_same intro: same_table_trans)
next
  case (ABatch names)
  then show ?thesis using assms(1) unfolding steady_def
    by (auto simp: BatchGetUsers_def Let_def split: option.splits prod.splits
        intro!: harmless_same dest: list_same fetch_same intro: same_table_trans)
qed

section \<open>Runs\<close>

lemma same_current: "same_table s t \<Longrightarrow> current s \<Longrightarrow> current t"
  by (simp add: same_table_def)

lemma named_current:
  assumes "steady e" "current s" "with_user_named e i name act s = (r, t)"
    and "\<And>u cur s1 r t. current s1 \<Longrightarrow> u \<in> set (us_rows s1) \<Longrightarrow> act u cur s1 = (r, t) \<Longrightarrow> current t"
  shows "current t"
proof -
  note use = assms(1) [unfolded steady_def, rule_format]
  obtain x s1 where x: "ResolveUserByName (ac_store e C_named) name s = (x, s1)" by fastforce
  have 1: "same_table s s1" by (rule resolve_same [OF use x])
  obtain y s2 where y: "fetchCurrentUser (ac_store e C_current) i s1 = (y, s2)" by fastforce
  have 2: "same_table s s2" by (rule same_table_trans [OF 1 fetch_same [OF use y]])
  have "current s1" "current s2" using 1 2 assms(2) same_current by blast+
  moreover have "u \<in> set (us_rows s2)" if "x = Some (Some u)" for u
    using resolved_user [of "ac_store e C_named" name s u s1] x that use 2 by (simp add: same_table_def)
  ultimately show ?thesis using assms(3,4) x y
    by (auto simp: with_user_named_def split: option.splits if_splits)
qed

lemma serve_current:
  assumes "steady e" "current s"
  shows "current (serve_account e i c s)"
proof -
  note use = assms(1) [unfolded steady_def, rule_format]
  show ?thesis
  proof (cases c)
    case (ACreate q)
    have "current t'" if "current t" "CreateUser (ac_store e C_write) u t = (r, t')" for t t' u r
      using create_current(1) [OF that(1) use, of C_write u] that(2) by simp
    then show ?thesis using assms use
      by (auto simp: ACreate service_CreateUser_def Let_def split: option.splits prod.splits if_splits
          dest!: fetch_same [OF use] list_same [OF use] same_current)
  next
    case (AUpdate q)
    have w: "current t'" if "current t" "UpdateUser (ac_store e C_write) u t = (r, t')" for t t' u r
      using update_current(1) [OF that(1) use, of C_write u] that(2) by simp
    show ?thesis
      unfolding AUpdate serve_account.simps service_UpdateUser_def
      by (auto simp: assms(2) intro!: named_current [OF assms prod.collapse [symmetric]] split: if_splits sum.splits option.splits prod.splits intro: w)
  next
    case (ADelete name)
    have w: "current t'" if "current t" "DeleteUser (ac_store e C_write) i t = (r, t')" for t t' i r
      using delete_current(1) [OF that(1) use, of C_write i] that(2) by simp
    show ?thesis
      unfolding ADelete serve_account.simps service_DeleteUser_def
      by (rule named_current [OF assms prod.collapse [symmetric]]) (auto split: prod.splits bool.splits intro: w)
  next
    case (AGet name)
    then show ?thesis using assms
      by (auto simp: service_GetUser_def split: option.splits prod.splits dest!: resolve_same [OF use] fetch_same [OF use] same_current)
  next
    case (AList parse src)
    then show ?thesis using assms
      by (auto simp: service_ListUsers_def split: option.splits prod.splits dest!: list_same [OF use] fetch_same [OF use] same_current)
  next
    case (ABatch names)
    then show ?thesis using assms
      by (auto simp: BatchGetUsers_def Let_def split: option.splits prod.splits dest!: list_same [OF use] fetch_same [OF use] same_current)
  qed
qed

text \<open>Any calls of anyone, and the ticks of the clean-up loop of the cache.\<close>

inductive account_run :: "user_store \<Rightarrow> user_store \<Rightarrow> bool" where
  start: "account_run s s"
| call: "account_run s t \<Longrightarrow> steady e \<Longrightarrow> account_run s (serve_account e i c t)"
| clean: "account_run s t \<Longrightarrow> permuting order \<Longrightarrow> account_run s (t\<lparr>us_cache := cleanupLoop_tick order calls now (us_cache t)\<rparr>)"

lemma account_run_current: "account_run s t \<Longrightarrow> current s \<Longrightarrow> current t"
  by (induction rule: account_run.induct) (auto intro: serve_current tick_current)

text \<open>
  C12. Administrators of the note server come from administrators only: in any reachable state with users, a call of
  anybody who is no administrator makes nobody one, and changes no row but their own, however the caches stand.
\<close>
theorem only_admins_make_admins:
  assumes "account_run s t" "current s" "us_seq t \<le> 55295" "steady e" "i \<notin> admins t" "us_rows t \<noteq> []"
  shows "admins (serve_account e i c t) \<subseteq> admins t \<and>
    (\<forall>u \<in> set (us_rows t). su_ID u \<noteq> i \<longrightarrow> u \<in> set (us_rows (serve_account e i c t)))"
  using serve_harmless [OF assms(4) account_run_current [OF assms(1,2)] assms(3,5,6)] by (simp add: harmless_def)

definition demo_accounts :: account_env where
  "demo_accounts = \<lparr>ac_store = (\<lambda>_. demo_store_env), ac_setting_fails = False, ac_DisallowUserRegistration = False,
     ac_DisallowChangeUsername = False, ac_DisallowChangeNickname = False, ac_DisallowPasswordAuth = False, ac_hash = Some, ac_now = 7\<rparr>"

definition registers :: "string \<Rightarrow> create_user_request" where
  "registers name = \<lparr>cu_Username = name, cu_Email = [], cu_DisplayName = name, cu_Role = ApiAdmin, cu_Password = ''pw'', cu_ValidateOnly = False\<rparr>"

text \<open>Two visitors ask to be administrators; the first becomes one, the second tries again.\<close>

definition two_users :: user_store where
  "two_users = serve_account demo_accounts 0 (ACreate (registers ''ben'')) (serve_account demo_accounts 0 (ACreate (registers ''ann'')) (users_from 0))"

definition promote :: update_user_request where
  "promote = \<lparr>uw_Name = ''users/ben'', uw_Mask = [''role''], uw_Username = [], uw_DisplayName = [], uw_Email = [], uw_AvatarUrl = [],
     uw_Description = [], uw_Role = ApiAdmin, uw_Password = [], uw_State = StateNormal\<rparr>"

lemma only_admins_make_admins_witness:
  "map (\<lambda>u. (su_Username u, su_Role u)) (us_rows two_users) = [(''ann'', ''ADMIN''), (''ben'', ''USER'')] \<and>
   admins (serve_account demo_accounts 2 (AUpdate promote) two_users) \<subseteq> admins two_users"
proof -
  have steady: "steady demo_accounts" by (simp add: steady_def demo_accounts_def demo_usable)
  have run: "account_run (users_from 0) two_users"
    unfolding two_users_def by (intro account_run.call account_run.start steady)
  have rows: "map (\<lambda>u. (su_Username u, su_Role u)) (us_rows two_users) = [(''ann'', ''ADMIN''), (''ben'', ''USER'')]" by code_simp
  have "us_seq two_users = 2" "map (\<lambda>u. (su_ID u, su_Role u)) (us_rows two_users) = [(1, ''ADMIN''), (2, ''USER'')]" by code_simp+
  then have "us_seq two_users \<le> 55295" "2 \<notin> admins two_users" "us_rows two_users \<noteq> []"
    by (auto simp: admins_def map_eq_Cons_conv)
  then show ?thesis using only_admins_make_admins [OF run users_from_current _ steady] rows by (simp del: serve_account.simps)
qed

end
