(* ===== verification/NoteAuthFacts.thy ===== *)
theory NoteAuthFacts
  imports NoteAuth NoteUserRights ProgressFacts CronFields
begin

text \<open>
  The settings of users behind their cache, and what they mean for those who come with a token: rotation of refresh tokens, who
  is let in, and how long a personal token lives.
\<close>

section \<open>Keys\<close>

lemma key_no_hyphen: "CHR ''-'' \<notin> set (key_of v)"
  by (cases v) (simp_all add: key_of_def)

lemma last_hyphen: "a @ c # k = b @ c # l \<Longrightarrow> c \<notin> set k \<Longrightarrow> c \<notin> set l \<Longrightarrow> a = b \<and> k = l"
proof (induction a arbitrary: b)
  case Nil
  then show ?case by (cases b) (auto simp: append_eq_Cons_conv Cons_eq_append_conv)
next
  case (Cons x a)
  show ?case
  proof (cases b)
    case Nil
    then show ?thesis using Cons.prems by (auto simp: Cons_eq_append_conv)
  qed (use Cons in auto)
qed

lemma cache_key_inject:
  assumes "CHR ''-'' \<notin> set k" "CHR ''-'' \<notin> set l"
  shows "getUserSettingCacheKey i k = getUserSettingCacheKey j l \<longleftrightarrow> i = j \<and> k = l"
  using last_hyphen [of "itoa i" "CHR ''-''" k "itoa j" l] assms
  by (auto simp: getUserSettingCacheKey_def itoa_inject)

lemma is_setting_key: "CHR ''-'' \<notin> set k \<Longrightarrow> is_setting i k x \<longleftrightarrow> setting_key x = getUserSettingCacheKey i k"
  by (simp add: is_setting_def setting_key_def cache_key_inject key_no_hyphen)

lemma is_own_setting: "is_setting (sg_UserID x) (key_of (sg_Value x)) y \<longleftrightarrow> setting_key y = setting_key x"
  by (simp add: is_setting_key key_no_hyphen) (simp add: setting_key_def)

section \<open>The table and the cache\<close>

definition setting_at :: "int \<Rightarrow> string \<Rightarrow> setting list \<Rightarrow> setting option" where
  "setting_at i k rows = List.find (is_setting i k) rows"

definition setting_map :: "setting list \<Rightarrow> string \<rightharpoonup> setting any_value" where
  "setting_map rows k = map_option VOther (List.find (\<lambda>x. setting_key x = k) rows)"

definition in_step :: "setting_store \<Rightarrow> bool" where
  "in_step t \<longleftrightarrow> distinct (map setting_key (gt_rows t)) \<and> store_cache.agrees (setting_map (gt_rows t)) (gt_cache t)"

definition usable_setting_env :: "setting_env \<Rightarrow> bool" where
  "usable_setting_env e \<longleftrightarrow> permuting (fst (sv_read e)) \<and> permuting (fst (sv_write e)) \<and> permuting (sv_scan e)"

lemma map_at: "CHR ''-'' \<notin> set k \<Longrightarrow> setting_map rows (getUserSettingCacheKey i k) = map_option VOther (setting_at i k rows)"
  by (simp add: setting_map_def setting_at_def is_setting_key cong: find_cong)

lemma find_key: "distinct (map setting_key rows) \<Longrightarrow> x \<in> set rows \<Longrightarrow> List.find (\<lambda>y. setting_key y = setting_key x) rows = Some x"
  by (induction rows) auto

lemma upsert_map: "setting_map (upsert_row x rows) = (setting_map rows)(setting_key x \<mapsto> VOther x)"
proof -
  let ?new = "map (\<lambda>y. if setting_key y = setting_key x then x else y)"
  have other: "List.find (\<lambda>y. setting_key y = k) (?new rows) = List.find (\<lambda>y. setting_key y = k) rows" if "k \<noteq> setting_key x" for k
    using that by (induction rows) auto
  have own: "(\<exists>y \<in> set rows. setting_key y = setting_key x) \<longrightarrow> List.find (\<lambda>y. setting_key y = setting_key x) (?new rows) = Some x"
    by (induction rows) auto
  have there: "List.find (\<lambda>y. setting_key y = k) (?new rows) =
      (if k = setting_key x then Some x else List.find (\<lambda>y. setting_key y = k) rows)"
    if "\<exists>y \<in> set rows. setting_key y = setting_key x" for k
    using own other that by auto
  have absent: "List.find (\<lambda>y. setting_key y = k) (rows @ [x]) = (if k = setting_key x then Some x else List.find (\<lambda>y. setting_key y = k) rows)"
    if "\<not> (\<exists>y \<in> set rows. setting_key y = setting_key x)" for k
    using that by (induction rows) auto
  show ?thesis
    by (rule ext) (simp add: setting_map_def upsert_row_def is_own_setting there absent Let_def)
qed

lemma upsert_distinct: "distinct (map setting_key rows) \<Longrightarrow> distinct (map setting_key (upsert_row x rows))"
proof -
  assume d: "distinct (map setting_key rows)"
  have "map setting_key (map (\<lambda>y. if setting_key y = setting_key x then x else y) rows) = map setting_key rows" by auto
  then show ?thesis using d by (auto simp: upsert_row_def is_own_setting Let_def simp del: map_map)
qed

lemma at_map: "CHR ''-'' \<notin> set k \<Longrightarrow> setting_at i k rows = (case setting_map rows (getUserSettingCacheKey i k) of Some (VOther x) \<Rightarrow> Some x | _ \<Rightarrow> None)"
  by (simp add: map_at split: option.split)

lemma upsert_at:
  assumes "CHR ''-'' \<notin> set k"
  shows "setting_at i k (upsert_row x rows) = (if is_setting i k x then Some x else setting_at i k rows)"
  by (simp add: at_map [OF assms] upsert_map is_setting_key [OF assms] eq_commute)

lemma upserted:
  assumes "UpsertUserSetting e x t = (b, t')" "in_step t" "usable_setting_env e"
  shows "in_step t'" "gt_rows t' = (if b then upsert_row x (gt_rows t) else gt_rows t)"
proof -
  have "store_cache.agrees (setting_map (upsert_row x (gt_rows t)))
      (Cache_Set (fst (sv_write e)) (snd (sv_write e)) (setting_key x) (VOther x) (gt_cache t))"
    unfolding upsert_map using assms(2,3)
    by (intro store_cache.agrees_put) (simp_all add: in_step_def usable_setting_env_def)
  then show "in_step t'" "gt_rows t' = (if b then upsert_row x (gt_rows t) else gt_rows t)"
    using assms upsert_distinct by (auto simp: UpsertUserSetting_def cache_setting_def in_step_def split: if_splits)
qed

lemma cache_setting_settled:
  assumes "in_step t" "permuting (fst w)" "x \<in> set (gt_rows t)"
  shows "in_step (cache_setting w x t)" "gt_rows (cache_setting w x t) = gt_rows t"
proof -
  have "setting_map (gt_rows t) (setting_key x) = Some (VOther x)"
    using assms(1,3) find_key by (simp add: setting_map_def in_step_def)
  then show "in_step (cache_setting w x t)" "gt_rows (cache_setting w x t) = gt_rows t"
    using assms store_cache.agrees_put_same [of "setting_map (gt_rows t)" "gt_cache t" w "setting_key x" "VOther x"]
    by (simp_all add: in_step_def cache_setting_def)
qed

lemma cache_settings_settled:
  "in_step t \<Longrightarrow> permuting (fst w) \<Longrightarrow> set xs \<subseteq> set (gt_rows t) \<Longrightarrow>
    in_step (fold (cache_setting w) xs t) \<and> gt_rows (fold (cache_setting w) xs t) = gt_rows t"
proof (induction xs arbitrary: t)
  case (Cons x xs)
  then show ?case using cache_setting_settled [of t w x] by simp
qed simp

lemma filter_one:
  assumes "distinct (map setting_key rows)" "CHR ''-'' \<notin> set k" "mset xs = mset rows"
  shows "filter (is_setting i k) xs = (case setting_at i k rows of None \<Rightarrow> [] | Some x \<Rightarrow> [x])"
proof -
  have here: "filter (is_setting i k) rows = (case setting_at i k rows of None \<Rightarrow> [] | Some x \<Rightarrow> [x])"
    using assms(1)
  proof (induction rows)
    case (Cons x rows)
    show ?case
    proof (cases "is_setting i k x")
      case True
      then have "filter (is_setting i k) rows = []" using Cons.prems assms(2)
        by (auto simp: filter_empty_conv is_setting_key image_iff)
      then show ?thesis using True by (simp add: setting_at_def)
    qed (use Cons in \<open>simp add: setting_at_def\<close>)
  qed (simp add: setting_at_def)
  have "mset (filter (is_setting i k) xs) = mset (filter (is_setting i k) rows)" using assms(3) by (simp add: mset_filter)
  then show ?thesis unfolding here by (simp split: option.splits del: mset_filter)
qed

lemma read_setting:
  assumes "GetUserSetting e i k t = (r, t')" "in_step t" "usable_setting_env e" "CHR ''-'' \<notin> set k"
  shows "in_step t'" "gt_rows t' = gt_rows t" "r = None \<or> r = Some (setting_at i k (gt_rows t))" "\<not> sv_read_fails e \<Longrightarrow> r \<noteq> None"
proof -
  let ?key = "getUserSettingCacheKey i k"
  let ?at = "setting_at i k (gt_rows t)"
  obtain v c where g: "Cache_Get (snd (sv_read e)) ?key (gt_cache t) = (v, c)" by fastforce
  have ag: "store_cache.agrees (setting_map (gt_rows t)) (gt_cache t)" and d: "distinct (map setting_key (gt_rows t))"
    using assms(2) by (simp_all add: in_step_def)
  have p: "permuting (fst (sv_read e))" "permuting (sv_scan e)" using assms(3) by (simp_all add: usable_setting_env_def)
  have s1: "in_step (t\<lparr>gt_cache := c\<rparr>)"
    using store_cache.agrees_look [OF ag p(1), of ?key] g d by (simp add: in_step_def)
  have xs: "filter (is_setting i k) (sv_scan e (gt_rows t)) = (case ?at of None \<Rightarrow> [] | Some x \<Rightarrow> [x])"
    by (rule filter_one [OF d assms(4)]) (use p(2) in \<open>simp add: permuting_def\<close>)
  have mem: "x \<in> set (gt_rows t)" if "?at = Some x" for x using that by (auto simp: setting_at_def dest: find_Some_iff_mem)
  have f: "in_step (fold (cache_setting (sv_read e)) (case ?at of None \<Rightarrow> [] | Some x \<Rightarrow> [x]) (t\<lparr>gt_cache := c\<rparr>))"
      "gt_rows (fold (cache_setting (sv_read e)) (case ?at of None \<Rightarrow> [] | Some x \<Rightarrow> [x]) (t\<lparr>gt_cache := c\<rparr>)) = gt_rows t"
    using cache_settings_settled [OF s1 p(1), of "case ?at of None \<Rightarrow> [] | Some x \<Rightarrow> [x]"] mem by (auto split: option.split)
  have hit: "?at = Some x" if "v = Some (VOther x)" for x
  proof -
    have "setting_map (gt_rows t) ?key = Some (VOther x)"
      using store_cache.look_agrees [OF ag p(1), of ?key] g that by simp
    then show ?thesis by (simp add: map_at [OF assms(4)])
  qed
  have miss: "(case ListUserSettings e i k (t\<lparr>gt_cache := c\<rparr>) of (None, t) \<Rightarrow> (None, t) | (Some [], t) \<Rightarrow> (Some None, t)
       | (Some [x], t) \<Rightarrow> (Some (Some x), cache_setting (sv_read e) x t) | (Some _, t) \<Rightarrow> (None, t)) = (r, t')" if "\<nexists>x. v = Some (VOther x)"
    using assms(1) that g by (simp add: GetUserSetting_def split: option.splits any_value.splits)
  have "in_step t' \<and> gt_rows t' = gt_rows t \<and> (r = None \<or> r = Some ?at) \<and> (\<not> sv_read_fails e \<longrightarrow> r \<noteq> None)"
  proof (cases "\<exists>x. v = Some (VOther x)")
    case True
    then show ?thesis using hit s1 assms(1) g by (auto simp: GetUserSetting_def)
  next
    case False
    note m = miss [OF False, unfolded ListUserSettings_def driver_ListUserSettings_def]
    show ?thesis
    proof (cases "sv_read_fails e")
      case True
      then show ?thesis using m s1 by auto
    next
      case ok: False
      show ?thesis
      proof (cases ?at)
        case None
        then show ?thesis using m ok xs s1 by auto
      next
        case (Some x)
        have "in_step (cache_setting (sv_read e) x (cache_setting (sv_read e) x (t\<lparr>gt_cache := c\<rparr>)))"
            "gt_rows (cache_setting (sv_read e) x (cache_setting (sv_read e) x (t\<lparr>gt_cache := c\<rparr>))) = gt_rows t"
          using cache_setting_settled [OF f(1) p(1), of x] f(2) mem [OF Some] Some by simp_all
        then show ?thesis using m ok xs Some by auto
      qed
    qed
  qed
  then show "in_step t'" "gt_rows t' = gt_rows t" "r = None \<or> r = Some ?at" "\<not> sv_read_fails e \<Longrightarrow> r \<noteq> None" by auto
qed

text \<open>A change succeeds as a whole or leaves the table; no other setting is touched.\<close>

lemma changed_setting:
  assumes "change_setting e i k f t = (b, t')" "in_step t" "usable_setting_env e" "CHR ''-'' \<notin> set k" "\<And>v. key_of (f v) = k"
  shows "in_step t'" "b \<Longrightarrow> setting_at i k (gt_rows t') = Some \<lparr>sg_UserID = i, sg_Value = f (map_option sg_Value (setting_at i k (gt_rows t)))\<rparr>"
    "CHR ''-'' \<notin> set l \<Longrightarrow> (j, l) \<noteq> (i, k) \<Longrightarrow> setting_at j l (gt_rows t') = setting_at j l (gt_rows t)" "\<not> b \<Longrightarrow> gt_rows t' = gt_rows t"
    "\<not> sv_read_fails e \<Longrightarrow> \<not> sv_write_fails e \<Longrightarrow> b"
proof -
  obtain r t1 where r: "GetUserSetting e i k t = (r, t1)" by fastforce
  note R = read_setting [OF r assms(2,3,4)]
  let ?x = "\<lambda>y. \<lparr>sg_UserID = i, sg_Value = f (map_option sg_Value y)\<rparr>"
  have own: "is_setting i k (?x y)" for y by (simp add: is_setting_def assms(5))
  have other: "\<not> is_setting j l (?x y)" if "(j, l) \<noteq> (i, k)" for j l y using that by (auto simp: is_setting_def assms(5))
  have "in_step t' \<and> (b \<longrightarrow> setting_at i k (gt_rows t') = Some (?x (setting_at i k (gt_rows t))))
      \<and> (CHR ''-'' \<notin> set l \<longrightarrow> (j, l) \<noteq> (i, k) \<longrightarrow> setting_at j l (gt_rows t') = setting_at j l (gt_rows t)) \<and> (\<not> b \<longrightarrow> gt_rows t' = gt_rows t)
      \<and> (\<not> sv_read_fails e \<longrightarrow> \<not> sv_write_fails e \<longrightarrow> b)"
  proof (cases r)
    case None
    then show ?thesis using assms(1) r R by (auto simp: change_setting_def)
  next
    case (Some y)
    then have y: "y = setting_at i k (gt_rows t)" using R(3) by simp
    have u: "UpsertUserSetting e (?x y) t1 = (b, t')" using assms(1) r Some by (simp add: change_setting_def)
    note U = upserted [OF u R(1) assms(3)]
    show ?thesis using U R(2) own [of y] other [of j l y] y assms(4) u
      by (auto simp: upsert_at UpsertUserSetting_def split: if_splits)
  qed
  then show "in_step t'" "b \<Longrightarrow> setting_at i k (gt_rows t') = Some (?x (setting_at i k (gt_rows t)))"
    "CHR ''-'' \<notin> set l \<Longrightarrow> (j, l) \<noteq> (i, k) \<Longrightarrow> setting_at j l (gt_rows t') = setting_at j l (gt_rows t)" "\<not> b \<Longrightarrow> gt_rows t' = gt_rows t"
    "\<not> sv_read_fails e \<Longrightarrow> \<not> sv_write_fails e \<Longrightarrow> b"
    by auto
qed

section \<open>Reading users and tokens\<close>

lemma read_user:
  assumes "GetUser_by e (user_by_id i) s = (r, t)" "current s" "us_seq s \<le> 55295" "usable_env e"
  shows "same_table s t" "r = None \<or> r = Some (List.find (\<lambda>u. su_ID u = i) (us_rows s))" "\<not> se_fails e \<Longrightarrow> r \<noteq> None"
proof -
  show "same_table s t" by (rule get_same [OF assms(4,1)])
  obtain hit s1 where h: "cached_user e (find_id i) s = (hit, s1)" by fastforce
  have rows: "us_rows s1 = us_rows s" using cached_rows(1) [of e "find_id i" s] h by simp
  have d: "distinct (map su_ID (us_rows s1))" using assms(2) rows by (simp add: current_def rows_ok_def)
  note g = assms(1) [unfolded user_by_id_find GetUser_by_def h]
  have "(r = None \<or> r = Some (List.find (\<lambda>u. su_ID u = i) (us_rows s))) \<and> (\<not> se_fails e \<longrightarrow> r \<noteq> None)"
  proof (cases hit)
    case (Some u)
    then show ?thesis using cached_hit [OF assms(2,3,4), of i] h g by auto
  next
    case None
    show ?thesis
    proof (cases "se_fails e")
      case True
      then show ?thesis using g None by (auto simp: ListUsers_def driver_ListUsers_def)
    next
      case False
      then show ?thesis using g None listed_by_id [OF d assms(4) False, of i] rows by (auto simp: ListUsers_def split: option.splits)
    qed
  qed
  then show "r = None \<or> r = Some (List.find (\<lambda>u. su_ID u = i) (us_rows s))" "\<not> se_fails e \<Longrightarrow> r \<noteq> None" by auto
qed

definition stored_tokens :: "int \<Rightarrow> setting_store \<Rightarrow> refresh_token list" where
  "stored_tokens i g = refresh_tokens_of (map_option sg_Value (setting_at i ''REFRESH_TOKENS'' (gt_rows g)))"

lemma read_token:
  assumes "GetUserRefreshTokenByID e i tid g = (r, g')" "in_step g" "usable_setting_env e"
  shows "in_step g'" "gt_rows g' = gt_rows g" "r = None \<or> r = Some (List.find (\<lambda>x. rt_TokenId x = tid) (stored_tokens i g))"
    "\<not> sv_read_fails e \<Longrightarrow> r \<noteq> None"
proof -
  obtain x g1 where x: "GetUserSetting e i ''REFRESH_TOKENS'' g = (x, g1)" by fastforce
  note R = read_setting [OF x assms(2,3)]
  have "g' = g1" "r = map_option (\<lambda>y. List.find (\<lambda>x. rt_TokenId x = tid) (refresh_tokens_of (map_option sg_Value y))) x"
    using assms(1) x by (simp_all add: GetUserRefreshTokenByID_def GetUserRefreshTokens_def option.map_comp comp_def)
  then show "in_step g'" "gt_rows g' = gt_rows g" "r = None \<or> r = Some (List.find (\<lambda>x. rt_TokenId x = tid) (stored_tokens i g))"
    "\<not> sv_read_fails e \<Longrightarrow> r \<noteq> None"
    using R by (auto simp: stored_tokens_def)
qed

text \<open>States whose caches agree with their tables, and environments in which the caches can be used.\<close>

definition sound :: "note_accounts \<Rightarrow> bool" where
  "sound a \<longleftrightarrow> current (na_users a) \<and> us_seq (na_users a) \<le> 55295 \<and> in_step (na_settings a)"

definition usable_auth :: "auth_env \<Rightarrow> bool" where
  "usable_auth e \<longleftrightarrow> steady (au_account e) \<and> usable_setting_env (au_read e) \<and> usable_setting_env (au_add e) \<and> usable_setting_env (au_remove e)"

definition answering :: "auth_env \<Rightarrow> bool" where
  "answering e \<longleftrightarrow> \<not> se_fails (ac_store (au_account e) C_current) \<and> \<not> sv_read_fails (au_read e)"

text \<open>The active user that the table has under an identifier.\<close>

definition active_row :: "int \<Rightarrow> note_accounts \<Rightarrow> store_user option" where
  "active_row i a = (case List.find (\<lambda>u. su_ID u = i) (us_rows (na_users a)) of
     Some u \<Rightarrow> if su_RowStatus u = ''ARCHIVED'' then None else Some u | None \<Rightarrow> None)"

lemma active_rowD: "active_row i a = Some u \<Longrightarrow> u \<in> set (us_rows (na_users a)) \<and> su_ID u = i \<and> su_RowStatus u \<noteq> ''ARCHIVED''"
  by (auto simp: active_row_def split: option.splits if_splits dest: find_Some_iff_mem)

lemma active_row_same: "us_rows (na_users a) = us_rows (na_users b) \<Longrightarrow> active_row i a = active_row i b"
  by (simp add: active_row_def)

lemma read_active:
  assumes "active_user e i a = (r, b)" "sound a" "usable_auth e"
  shows "sound b" "us_rows (na_users b) = us_rows (na_users a)" "na_settings b = na_settings a"
    "r = None \<or> r = active_row i a" "\<not> se_fails (ac_store (au_account e) C_current) \<Longrightarrow> r = active_row i a"
proof -
  obtain x s where x: "GetUser_by (ac_store (au_account e) C_current) (user_by_id i) (na_users a) = (x, s)" by fastforce
  note R = read_user [OF x]
  have "sound b \<and> us_rows (na_users b) = us_rows (na_users a) \<and> na_settings b = na_settings a
      \<and> (r = None \<or> r = active_row i a) \<and> (\<not> se_fails (ac_store (au_account e) C_current) \<longrightarrow> r = active_row i a)"
    using assms x R
    by (auto simp: active_user_def sound_def usable_auth_def steady_def same_table_def active_row_def split: option.splits if_splits)
  then show "sound b" "us_rows (na_users b) = us_rows (na_users a)" "na_settings b = na_settings a"
    "r = None \<or> r = active_row i a" "\<not> se_fails (ac_store (au_account e) C_current) \<Longrightarrow> r = active_row i a" by auto
qed

text \<open>The token a cookie stands for, as the tables have it.\<close>

definition standing :: "auth_env \<Rightarrow> int \<Rightarrow> string \<Rightarrow> note_accounts \<Rightarrow> bool" where
  "standing e i tid a \<longleftrightarrow>
     (\<exists>t. List.find (\<lambda>x. rt_TokenId x = tid) (stored_tokens i (na_settings a)) = Some t \<and> unexpired (rt_ExpiresAt t) (au_now e))"

lemma refresh_exact:
  assumes "AuthenticateByRefreshToken e tok a = (r, b)" "sound a" "usable_auth e" "ParseRefreshToken e tok = Some c"
    "ConvertStringToInt32 (cl_Subject c) = Some i"
  shows "sound b" "us_rows (na_users b) = us_rows (na_users a)" "gt_rows (na_settings b) = gt_rows (na_settings a)"
    "r = Some (u, tid) \<Longrightarrow> standing e i tid a \<and> tid = cl_TokenID c \<and> active_row i a = Some u"
    "answering e \<Longrightarrow> standing e i (cl_TokenID c) a \<Longrightarrow> r = map_option (\<lambda>u. (u, cl_TokenID c)) (active_row i a)"
proof -
  obtain x g where x: "GetUserRefreshTokenByID (au_read e) i (cl_TokenID c) (na_settings a) = (x, g)" by fastforce
  have use: "usable_setting_env (au_read e)" "in_step (na_settings a)" using assms(2,3) by (simp_all add: usable_auth_def sound_def)
  note R = read_token [OF x use(2,1)]
  let ?a = "a\<lparr>na_settings := g\<rparr>"
  have s: "sound ?a" "active_row i ?a = active_row i a" using assms(2) R(1) by (simp_all add: sound_def active_row_def)
  obtain y d where y: "active_user e i ?a = (y, d)" by fastforce
  note Y = read_active [OF y s(1) assms(3)]
  have "sound b \<and> us_rows (na_users b) = us_rows (na_users a) \<and> gt_rows (na_settings b) = gt_rows (na_settings a)
      \<and> (r = Some (u, tid) \<longrightarrow> standing e i tid a \<and> tid = cl_TokenID c \<and> active_row i a = Some u)
      \<and> (answering e \<longrightarrow> standing e i (cl_TokenID c) a \<longrightarrow> r = map_option (\<lambda>u. (u, cl_TokenID c)) (active_row i a))"
  proof (cases "\<exists>t. x = Some (Some t) \<and> unexpired (rt_ExpiresAt t) (au_now e)")
    case True
    then obtain t where t: "x = Some (Some t)" "unexpired (rt_ExpiresAt t) (au_now e)" by blast
    then have "List.find (\<lambda>x. rt_TokenId x = cl_TokenID c) (stored_tokens i (na_settings a)) = Some t" using R(3) by auto
    then have "standing e i (cl_TokenID c) a" using t(2) by (simp add: standing_def)
    moreover have "b = d" "r = map_option (\<lambda>u. (u, cl_TokenID c)) y"
      using assms(1,4,5) x y t by (simp_all add: AuthenticateByRefreshToken_def)
    ultimately show ?thesis using Y s(2) R(2) by (auto simp: answering_def)
  next
    case False
    then have "r = None" "b = ?a"
      using assms(1,4,5) x by (auto simp: AuthenticateByRefreshToken_def split: option.splits)
    then show ?thesis using False s(1) R by (auto simp: answering_def standing_def)
  qed
  then show "sound b" "us_rows (na_users b) = us_rows (na_users a)" "gt_rows (na_settings b) = gt_rows (na_settings a)"
    "r = Some (u, tid) \<Longrightarrow> standing e i tid a \<and> tid = cl_TokenID c \<and> active_row i a = Some u"
    "answering e \<Longrightarrow> standing e i (cl_TokenID c) a \<Longrightarrow> r = map_option (\<lambda>u. (u, cl_TokenID c)) (active_row i a)" by blast+
qed

lemma refresh_unparsed:
  "AuthenticateByRefreshToken e tok a = (Some r, b) \<Longrightarrow>
    \<exists>c i. ParseRefreshToken e tok = Some c \<and> ConvertStringToInt32 (cl_Subject c) = Some i"
  by (auto simp: AuthenticateByRefreshToken_def split: option.splits)

section \<open>Rotation\<close>

lemma key_texts [simp]: "CHR ''-'' \<notin> set ''REFRESH_TOKENS''" "CHR ''-'' \<notin> set ''PERSONAL_ACCESS_TOKENS''"
  by simp_all

lemma added_token:
  assumes "AddUserRefreshToken e i t g = (b, g')" "in_step g" "usable_setting_env e"
  shows "in_step g'" "b \<Longrightarrow> stored_tokens i g' = stored_tokens i g @ [t]" "\<not> b \<Longrightarrow> gt_rows g' = gt_rows g"
    "\<not> sv_read_fails e \<Longrightarrow> \<not> sv_write_fails e \<Longrightarrow> b"
proof -
  note C = changed_setting [OF assms(1) [unfolded AddUserRefreshToken_def] assms(2,3) key_texts(1)]
  have k: "key_of (RefreshTokens (refresh_tokens_of v @ [t])) = ''REFRESH_TOKENS''" for v by (simp add: key_of_def)
  show "in_step g'" "b \<Longrightarrow> stored_tokens i g' = stored_tokens i g @ [t]" "\<not> b \<Longrightarrow> gt_rows g' = gt_rows g"
    "\<not> sv_read_fails e \<Longrightarrow> \<not> sv_write_fails e \<Longrightarrow> b"
    using C(1,2,4,5) [OF k] by (simp_all add: stored_tokens_def) (simp add: refresh_tokens_of_def)
qed

lemma removed_token:
  assumes "RemoveUserRefreshToken e i tid g = (b, g')" "in_step g" "usable_setting_env e"
  shows "in_step g'" "b \<Longrightarrow> stored_tokens i g' = filter (\<lambda>x. rt_TokenId x \<noteq> tid) (stored_tokens i g)" "\<not> b \<Longrightarrow> gt_rows g' = gt_rows g"
    "\<not> sv_read_fails e \<Longrightarrow> \<not> sv_write_fails e \<Longrightarrow> b"
proof -
  note C = changed_setting [OF assms(1) [unfolded RemoveUserRefreshToken_def] assms(2,3) key_texts(1)]
  have k: "key_of (RefreshTokens (filter (\<lambda>x. rt_TokenId x \<noteq> tid) (refresh_tokens_of v))) = ''REFRESH_TOKENS''" for v by (simp add: key_of_def)
  show "in_step g'" "b \<Longrightarrow> stored_tokens i g' = filter (\<lambda>x. rt_TokenId x \<noteq> tid) (stored_tokens i g)" "\<not> b \<Longrightarrow> gt_rows g' = gt_rows g"
    "\<not> sv_read_fails e \<Longrightarrow> \<not> sv_write_fails e \<Longrightarrow> b"
    using C(1,2,4,5) [OF k] by (simp_all add: stored_tokens_def) (simp add: refresh_tokens_of_def)
qed

lemma find_filtered: "List.find (\<lambda>x. f x = k) (filter (\<lambda>x. f x \<noteq> k) xs) = None"
  by (induction xs) auto

lemma find_last:
  "\<forall>x \<in> set xs. f x \<noteq> k \<Longrightarrow> f y = k \<Longrightarrow> k \<noteq> j \<Longrightarrow> List.find (\<lambda>x. f x = k) (filter (\<lambda>x. f x \<noteq> j) (xs @ [y])) = Some y"
  by (induction xs) auto

lemma convert_itoa: "- (2 ^ 31) \<le> i \<Longrightarrow> i < 2 ^ 31 \<Longrightarrow> 0 \<le> i \<Longrightarrow> ConvertStringToInt32 (itoa i) = Some i"
proof -
  assume i: "- (2 ^ 31) \<le> i" "i < 2 ^ 31" "0 \<le> i"
  have d: "\<forall>c \<in> set (itoa i). is_digit c" "itoa i \<noteq> []" "undec (itoa i) = nat i" using dec_digits i(3) by (simp_all add: itoa_dec)
  have "\<not> is_digit (CHR ''-'')" "\<not> is_digit (CHR ''+'')" by code_simp+
  then have "hd (itoa i) \<noteq> CHR ''-''" "hd (itoa i) \<noteq> CHR ''+''" using d(1) hd_in_set [OF d(2)] by metis+
  then show ?thesis using d i by (simp add: ConvertStringToInt32_def list_all_iff)
qed

lemma rotated:
  assumes "service_RefreshToken e cookie a = (Inr t, a')" "sound a" "usable_auth e"
    and "ParseRefreshToken e cookie = Some c" "ConvertStringToInt32 (cl_Subject c) = Some i"
    and "\<not> sv_read_fails (au_remove e)" "\<not> sv_write_fails (au_remove e)"
  shows "sound a'" "us_rows (na_users a') = us_rows (na_users a)" "standing e i (cl_TokenID c) a" "active_row i a \<noteq> None"
    "stored_tokens i (na_settings a') =
       filter (\<lambda>x. rt_TokenId x \<noteq> cl_TokenID c) (stored_tokens i (na_settings a) @ [new_refresh_token e (au_now e + RefreshTokenDuration)])"
    "GenerateRefreshToken e i (au_tokenID e) = Some (sn_Refresh t)"
proof -
  obtain u old b where r: "AuthenticateByRefreshToken e cookie a = (Some (u, old), b)"
    using assms(1) by (auto simp: service_RefreshToken_def split: if_splits option.splits prod.splits)
  note A = refresh_exact [OF r assms(2-5)]
  have old: "standing e i (cl_TokenID c) a" "old = cl_TokenID c" "active_row i a = Some u" using A(4) by auto
  then have i: "su_ID u = i" using active_rowD by blast
  obtain tok exp where t: "GenerateRefreshToken e i (au_tokenID e) = Some (tok, exp)"
    using assms(1) r i by (auto simp: service_RefreshToken_def split: if_splits option.splits)
  have exp: "exp = au_now e + RefreshTokenDuration" using t by (auto simp: GenerateRefreshToken_def Let_def)
  obtain b1 g where g: "AddUserRefreshToken (au_add e) i (new_refresh_token e exp) (na_settings b) = (b1, g)" by fastforce
  obtain b2 h where h: "RemoveUserRefreshToken (au_remove e) i old g = (b2, h)" by fastforce
  have out: "b1" "a' = b\<lparr>na_settings := h\<rparr>" "sn_Refresh t = (tok, exp)"
    using assms(1) r i t g h by (auto simp: service_RefreshToken_def Let_def split: if_splits option.splits bool.splits)
  have b: "in_step (na_settings b)" "usable_setting_env (au_add e)" "usable_setting_env (au_remove e)"
    using A(1) assms(3) by (simp_all add: sound_def usable_auth_def)
  note G = added_token [OF g b(1,2)]
  note H = removed_token [OF h G(1) b(3)]
  have same: "stored_tokens i (na_settings b) = stored_tokens i (na_settings a)" using A(3) by (simp add: stored_tokens_def)
  show "sound a'" using A(1) H(1) out(2) by (simp add: sound_def)
  show "us_rows (na_users a') = us_rows (na_users a)" using A(2) out(2) by simp
  show "standing e i (cl_TokenID c) a" "active_row i a \<noteq> None" using old by simp_all
  show "stored_tokens i (na_settings a') =
       filter (\<lambda>x. rt_TokenId x \<noteq> cl_TokenID c) (stored_tokens i (na_settings a) @ [new_refresh_token e (au_now e + RefreshTokenDuration)])"
    using G(2) [OF out(1)] H(2) H(4) [OF assms(6,7)] same out(2) old(2) exp by simp
  show "GenerateRefreshToken e i (au_tokenID e) = Some (sn_Refresh t)" using t out(3) by simp
qed

section \<open>Personal access tokens\<close>

definition stored_pats :: "int \<Rightarrow> setting_store \<Rightarrow> access_token list" where
  "stored_pats i g = access_tokens_of (map_option sg_Value (setting_at i ''PERSONAL_ACCESS_TOKENS'' (gt_rows g)))"

lemma own_tokens: "is_setting i ''PERSONAL_ACCESS_TOKENS'' x \<Longrightarrow> access_tokens_of (Some (sg_Value x)) = tokens_with x \<and> sg_UserID x = i"
  by (cases "sg_Value x") (simp_all add: is_setting_def key_of_def access_tokens_of_def tokens_with_def)

lemma row_tokens:
  assumes "in_step g" "x \<in> set (gt_rows g)" "p \<in> set (tokens_with x)"
  shows "tokens_with x = stored_pats (sg_UserID x) g"
proof -
  have x: "is_setting (sg_UserID x) ''PERSONAL_ACCESS_TOKENS'' x"
    using assms(3) by (cases "sg_Value x") (simp_all add: is_setting_def key_of_def tokens_with_def)
  have "setting_at (sg_UserID x) ''PERSONAL_ACCESS_TOKENS'' (gt_rows g) = Some x"
    using find_key [of "gt_rows g" x] assms(1,2) x
    by (simp add: setting_at_def in_step_def is_setting_key cong: find_cong)
  then show ?thesis using own_tokens [OF x] by (simp add: stored_pats_def)
qed

lemma pats_row:
  assumes "q \<in> set (stored_pats i g)"
  obtains x where "x \<in> set (gt_rows g)" "sg_UserID x = i" "tokens_with x = stored_pats i g"
proof -
  obtain x where x: "setting_at i ''PERSONAL_ACCESS_TOKENS'' (gt_rows g) = Some x"
    using assms by (cases "setting_at i ''PERSONAL_ACCESS_TOKENS'' (gt_rows g)") (auto simp: stored_pats_def access_tokens_of_def)
  then have "x \<in> set (gt_rows g)" "is_setting i ''PERSONAL_ACCESS_TOKENS'' x" by (auto simp: setting_at_def dest: find_Some_iff_mem)
  then show ?thesis using that own_tokens [of i x] x by (simp add: stored_pats_def)
qed

lemma hash_found:
  assumes "driver_GetUserByPATHash e h g = Some (i, p)" "in_step g" "usable_setting_env e"
  shows "p \<in> set (stored_pats i g)" "pt_TokenHash p = h" "\<exists>x \<in> set (gt_rows g). sg_UserID x = i \<and> p \<in> set (tokens_with x)"
proof -
  obtain x where x: "List.find (\<lambda>x. \<exists>p \<in> set (tokens_with x). pt_TokenHash p = h) (sv_scan e (gt_rows g)) = Some x"
    "List.find (\<lambda>p. pt_TokenHash p = h) (tokens_with x) = Some p" "sg_UserID x = i"
    using assms(1) by (auto simp: driver_GetUserByPATHash_def split: if_splits option.splits)
  have "set (sv_scan e (gt_rows g)) = set (gt_rows g)"
    using assms(3) unfolding usable_setting_env_def permuting_def by (metis set_mset_mset)
  with x have m: "x \<in> set (gt_rows g)" "p \<in> set (tokens_with x)" "pt_TokenHash p = h" by (auto dest: find_Some_iff_mem)
  show "p \<in> set (stored_pats i g)" using row_tokens [OF assms(2) m(1,2)] x(3) m(2) by simp
  show "pt_TokenHash p = h" by (rule m)
  show "\<exists>x \<in> set (gt_rows g). sg_UserID x = i \<and> p \<in> set (tokens_with x)" using m x(3) by blast
qed

lemma hash_finds:
  assumes "\<not> sv_read_fails e" "in_step g" "usable_setting_env e" "List.find (\<lambda>p. pt_TokenHash p = h) (stored_pats i g) = Some p"
    and "\<And>j q. q \<in> set (stored_pats j g) \<Longrightarrow> pt_TokenHash q = h \<Longrightarrow> j = i"
  shows "driver_GetUserByPATHash e h g = Some (i, p)"
proof -
  let ?has = "\<lambda>x. \<exists>p \<in> set (tokens_with x). pt_TokenHash p = h"
  have rows: "set (sv_scan e (gt_rows g)) = set (gt_rows g)"
    using assms(3) unfolding usable_setting_env_def permuting_def by (metis set_mset_mset)
  have p: "p \<in> set (stored_pats i g)" "pt_TokenHash p = h" using assms(4) by (auto dest: find_Some_iff_mem)
  obtain x where x: "x \<in> set (gt_rows g)" "sg_UserID x = i" "tokens_with x = stored_pats i g" by (rule pats_row [OF p(1)])
  then have "x \<in> set (sv_scan e (gt_rows g))" "?has x" using p rows by auto
  then have "List.find ?has (sv_scan e (gt_rows g)) \<noteq> None" unfolding find_None_iff by blast
  then obtain y where y: "List.find ?has (sv_scan e (gt_rows g)) = Some y" by blast
  then obtain q where q: "y \<in> set (gt_rows g)" "q \<in> set (tokens_with y)" "pt_TokenHash q = h" using rows by (auto dest: find_Some_iff_mem)
  have t: "tokens_with y = stored_pats (sg_UserID y) g" by (rule row_tokens [OF assms(2) q(1,2)])
  then have "sg_UserID y = i" using assms(5) q(2,3) by simp
  then show ?thesis using y t assms(1,4) by (simp add: driver_GetUserByPATHash_def)
qed

lemma by_pat:
  assumes "AuthenticateByPAT e tok a = (r, b)" "sound a" "usable_auth e"
  shows "r = Some (u, p) \<Longrightarrow> active_row (su_ID u) a = Some u \<and> p \<in> set (stored_pats (su_ID u) (na_settings a)) \<and> pt_TokenHash p = au_sha e tok
      \<and> unexpired (pt_ExpiresAt p) (au_now e)"
    "prefix PersonalAccessTokenPrefix tok \<Longrightarrow> driver_GetUserByPATHash (au_read e) (au_sha e tok) (na_settings a) = Some (i, q) \<Longrightarrow>
      answering e \<Longrightarrow> unexpired (pt_ExpiresAt q) (au_now e) \<Longrightarrow> r = map_option (\<lambda>u. (u, q)) (active_row i a)"
proof -
  have use: "usable_setting_env (au_read e)" "in_step (na_settings a)" "current (na_users a)" "us_seq (na_users a) \<le> 55295"
    "usable_env (ac_store (au_account e) C_current)"
    using assms(2,3) by (simp_all add: sound_def usable_auth_def steady_def)
  note read = read_user [OF surjective_pairing use(3-5)]
  show "active_row (su_ID u) a = Some u \<and> p \<in> set (stored_pats (su_ID u) (na_settings a)) \<and> pt_TokenHash p = au_sha e tok
      \<and> unexpired (pt_ExpiresAt p) (au_now e)" if res: "r = Some (u, p)"
  proof -
    obtain i s where i: "driver_GetUserByPATHash (au_read e) (au_sha e tok) (na_settings a) = Some (i, p)"
      "GetUser_by (ac_store (au_account e) C_current) (user_by_id i) (na_users a) = (Some (Some u), s)"
      "unexpired (pt_ExpiresAt p) (au_now e)" "su_RowStatus u \<noteq> ''ARCHIVED''"
      using assms(1) res by (auto simp: AuthenticateByPAT_def split: if_splits option.splits prod.splits)
    have u: "List.find (\<lambda>u. su_ID u = i) (us_rows (na_users a)) = Some u" using read(2) [of i] i(2) by simp
    then have "su_ID u = i" by (auto dest: find_Some_iff_mem)
    then show ?thesis using hash_found [OF i(1) use(2,1)] i u by (simp add: active_row_def)
  qed
  show "r = map_option (\<lambda>u. (u, q)) (active_row i a)" if "prefix PersonalAccessTokenPrefix tok"
    "driver_GetUserByPATHash (au_read e) (au_sha e tok) (na_settings a) = Some (i, q)" "answering e" "unexpired (pt_ExpiresAt q) (au_now e)"
  proof -
    obtain x s where x: "GetUser_by (ac_store (au_account e) C_current) (user_by_id i) (na_users a) = (x, s)" by fastforce
    then have "x = Some (List.find (\<lambda>u. su_ID u = i) (us_rows (na_users a)))"
      using read(2,3) [of i] that(3) by (auto simp: answering_def)
    then show ?thesis using assms(1) that x
      by (auto simp: AuthenticateByPAT_def active_row_def split: option.splits if_splits)
  qed
qed

end
