(* ===== verification/NoteRuns.thy ===== *)
theory NoteRuns
  imports NoteAuthFacts
begin

text \<open>
  Runs of the note server as far as tokens go: every call that reads or writes users, refresh tokens, personal access tokens and
  other settings, one after another. Seen from outside a run is a sequence of moves of the two tables of tokens: one is
  issued, revoked, made, dropped or marked as used; what holds of all moves holds over every run.
\<close>

section \<open>The tables of tokens\<close>

type_synonym token_view = "(int \<Rightarrow> refresh_token list) \<times> (int \<Rightarrow> access_token list)"

definition view :: "setting_store \<Rightarrow> token_view" where
  "view g = ((\<lambda>i. stored_tokens i g), (\<lambda>i. stored_pats i g))"

text \<open>The moves of a call: \<open>ends\<close> and \<open>drops\<close> say which tokens, by user and identifier, it asks to end.\<close>

inductive token_move :: "auth_env \<Rightarrow> (int \<Rightarrow> string \<Rightarrow> bool) \<Rightarrow> (int \<Rightarrow> string \<Rightarrow> bool) \<Rightarrow> token_view \<Rightarrow> token_view \<Rightarrow> bool"
  for e ends drops where
  issue: "rt_TokenId t = au_tokenID e \<Longrightarrow> token_move e ends drops (T, P) (T(i := T i @ [t]), P)"
| revoke: "ends i tid \<Longrightarrow> token_move e ends drops (T, P) (T(i := filter (\<lambda>x. rt_TokenId x \<noteq> tid) (T i)), P)"
| make: "pt_TokenHash p = au_sha e (GeneratePersonalAccessToken e) \<Longrightarrow> token_move e ends drops (T, P) (T, P(i := P i @ [p]))"
| drop: "drops i tid \<Longrightarrow> token_move e ends drops (T, P) (T, P(i := filter (\<lambda>x. pt_TokenId x \<noteq> tid) (P i)))"
| used: "token_move e ends drops (T, P)
    (T, P(i := change_first (\<lambda>p. pt_TokenId p = tid) (\<lambda>p. p\<lparr>pt_LastUsedAt := Some now\<rparr>) (P i)))"

inductive_cases token_moveE: "token_move e ends drops v w"

section \<open>What writing a setting does to them\<close>

lemma view_refresh:
  assumes "change_setting se i ''REFRESH_TOKENS'' (\<lambda>v. RefreshTokens (h (refresh_tokens_of v))) g = (b, g')" "in_step g" "usable_setting_env se"
  shows "in_step g'" "view g' = (if b then ((fst (view g))(i := h (fst (view g) i)), snd (view g)) else view g)"
proof -
  note C = changed_setting [OF assms key_texts(1)]
  have k: "key_of (RefreshTokens (h (refresh_tokens_of v))) = ''REFRESH_TOKENS''" for v by (simp add: key_of_def)
  show "in_step g'" using C(1) [OF k] .
  have "stored_tokens i g' = h (stored_tokens i g)" if b
    using C(2) [OF k that] by (simp add: stored_tokens_def) (simp add: refresh_tokens_of_def)
  moreover have "stored_tokens j g' = stored_tokens j g" if "j \<noteq> i" for j
    using C(3) [OF k key_texts(1), of j] that by (simp add: stored_tokens_def)
  moreover have "stored_pats j g' = stored_pats j g" for j
    using C(3) [OF k key_texts(2), of j] by (simp add: stored_pats_def)
  moreover have "gt_rows g' = gt_rows g" if "\<not> b" using C(4) [OF k that] .
  ultimately show "view g' = (if b then ((fst (view g))(i := h (fst (view g) i)), snd (view g)) else view g)"
    by (auto simp: view_def fun_eq_iff stored_tokens_def stored_pats_def)
qed

lemma view_pats:
  assumes "change_setting se i ''PERSONAL_ACCESS_TOKENS'' (\<lambda>v. AccessTokens (h (access_tokens_of v))) g = (b, g')" "in_step g" "usable_setting_env se"
  shows "in_step g'" "view g' = (if b then (fst (view g), (snd (view g))(i := h (snd (view g) i))) else view g)"
proof -
  note C = changed_setting [OF assms key_texts(2)]
  have k: "key_of (AccessTokens (h (access_tokens_of v))) = ''PERSONAL_ACCESS_TOKENS''" for v by (simp add: key_of_def)
  show "in_step g'" using C(1) [OF k] .
  have "stored_pats i g' = h (stored_pats i g)" if b
    using C(2) [OF k that] by (simp add: stored_pats_def) (simp add: access_tokens_of_def)
  moreover have "stored_pats j g' = stored_pats j g" if "j \<noteq> i" for j
    using C(3) [OF k key_texts(2), of j] that by (simp add: stored_pats_def)
  moreover have "stored_tokens j g' = stored_tokens j g" for j
    using C(3) [OF k key_texts(1), of j] by (simp add: stored_tokens_def)
  moreover have "gt_rows g' = gt_rows g" if "\<not> b" using C(4) [OF k that] .
  ultimately show "view g' = (if b then (fst (view g), (snd (view g))(i := h (snd (view g) i))) else view g)"
    by (auto simp: view_def fun_eq_iff stored_tokens_def stored_pats_def)
qed

lemma view_other:
  assumes "change_setting se i k f g = (b, g')" "in_step g" "usable_setting_env se" "CHR ''-'' \<notin> set k"
    and "\<And>v. key_of (f v) = k" "k \<noteq> ''REFRESH_TOKENS''" "k \<noteq> ''PERSONAL_ACCESS_TOKENS''"
  shows "in_step g'" "view g' = view g"
proof -
  note C = changed_setting [OF assms(1-5)]
  show "in_step g'" using C(1) .
  show "view g' = view g"
    using C(3) [OF key_texts(1)] C(3) [OF key_texts(2)] assms(6,7) by (simp add: view_def stored_tokens_def stored_pats_def)
qed

text \<open>A setting changed in place: the cache holds it before the table does, until the write.\<close>

lemma poked:
  assumes "in_step t"
  shows "store_cache.agrees ((setting_map (gt_rows t))(setting_key x \<mapsto> VOther x)) (gt_cache (poke x t))"
proof -
  let ?f = "\<lambda>k y. if k = setting_key x then y\<lparr>it_value := VOther x\<rparr> else y"
  have ag: "cache_ok (gt_cache t)" "cache_holds (gt_cache t) k v \<Longrightarrow> setting_map (gt_rows t) k = Some v" for k v
    using assms by (auto simp: in_step_def store_cache.agrees_def)
  have look: "map_of (map (\<lambda>(k, y). (k, ?f k y)) xs) k = map_option (?f k) (map_of xs k)" for k and xs :: "setting entries"
    by (induction xs) auto
  have "map fst (map (\<lambda>(k, y). (k, ?f k y)) xs) = map fst xs" for xs :: "setting entries" by (induction xs) auto
  then have "cache_ok (gt_cache (poke x t))" using ag(1) by (auto simp: poke_def cache_ok_def simp del: map_map)
  moreover have "((setting_map (gt_rows t))(setting_key x \<mapsto> VOther x)) k = Some v" if held: "cache_holds (gt_cache (poke x t)) k v" for k v
  proof -
    obtain y where y: "map_of (ca_data (gt_cache t)) k = Some y" "it_value (?f k y) = v"
      using held by (auto simp: poke_def cache_holds_def map_Load_def look)
    then show ?thesis using ag(2) [of k v] by (auto simp: cache_holds_def map_Load_def split: if_splits)
  qed
  ultimately show ?thesis by (simp add: store_cache.agrees_def)
qed

lemma changed_in_place:
  assumes "change_in_place e i k f t = (b, t')" "in_step t" "usable_setting_env e" "CHR ''-'' \<notin> set k" "\<And>v. key_of (f v) = k" "\<not> sv_write_fails e"
  shows "in_step t'" "b \<Longrightarrow> setting_at i k (gt_rows t') = Some \<lparr>sg_UserID = i, sg_Value = f (map_option sg_Value (setting_at i k (gt_rows t)))\<rparr>"
    "CHR ''-'' \<notin> set l \<Longrightarrow> (j, l) \<noteq> (i, k) \<Longrightarrow> setting_at j l (gt_rows t') = setting_at j l (gt_rows t)" "\<not> b \<Longrightarrow> gt_rows t' = gt_rows t"
proof -
  obtain r t1 where r: "GetUserSetting e i k t = (r, t1)" by fastforce
  note R = read_setting [OF r assms(2,3,4)]
  let ?x = "\<lambda>y. \<lparr>sg_UserID = i, sg_Value = f (map_option sg_Value y)\<rparr>"
  have own: "is_setting i k (?x y)" for y by (simp add: is_setting_def assms(5))
  have other: "\<not> is_setting j l (?x y)" if "(j, l) \<noteq> (i, k)" for j l y using that by (auto simp: is_setting_def assms(5))
  have "in_step t' \<and> (b \<longrightarrow> setting_at i k (gt_rows t') = Some (?x (setting_at i k (gt_rows t))))
      \<and> (CHR ''-'' \<notin> set l \<longrightarrow> (j, l) \<noteq> (i, k) \<longrightarrow> setting_at j l (gt_rows t') = setting_at j l (gt_rows t)) \<and> (\<not> b \<longrightarrow> gt_rows t' = gt_rows t)"
  proof (cases r)
    case None
    then show ?thesis using assms(1) r R by (auto simp: change_in_place_def)
  next
    case (Some y)
    then have y: "y = setting_at i k (gt_rows t)" using R(3) by simp
    let ?t = "if y = None then t1 else poke (?x y) t1"
    have out: "b" "t' = cache_setting (sv_write e) (?x y) (?t\<lparr>gt_rows := upsert_row (?x y) (gt_rows ?t)\<rparr>)"
      using assms(1,6) r Some by (auto simp: change_in_place_def UpsertUserSetting_def Let_def)
    have rows: "gt_rows ?t = gt_rows t" using R(2) by (simp add: poke_def)
    have w: "permuting (fst (sv_write e))" using assms(3) by (simp add: usable_setting_env_def)
    let ?db = "(setting_map (gt_rows t))(setting_key (?x y) \<mapsto> VOther (?x y))"
    have put: "store_cache.agrees ?db (Cache_Set (fst (sv_write e)) (snd (sv_write e)) (setting_key (?x y)) (VOther (?x y)) (gt_cache ?t))"
    proof (cases "y = None")
      case True
      have "store_cache.agrees (setting_map (gt_rows t)) (gt_cache t1)" using R(1,2) by (simp add: in_step_def)
      from store_cache.agrees_put [OF this w] show ?thesis by (simp add: True)
    next
      case False
      have t: "?t = poke (?x y) t1" using False by (rule if_not_P)
      have ag: "store_cache.agrees ?db (gt_cache (poke (?x y) t1))" using poked [OF R(1), of "?x y"] R(2) by simp
      show ?thesis unfolding t by (rule store_cache.agrees_put_same [OF ag w]) simp
    qed
    have d: "distinct (map setting_key (gt_rows t))" using assms(2) by (simp add: in_step_def)
    have "gt_rows t' = upsert_row (?x y) (gt_rows t)"
      "gt_cache t' = Cache_Set (fst (sv_write e)) (snd (sv_write e)) (setting_key (?x y)) (VOther (?x y)) (gt_cache ?t)"
      using out(2) rows by (simp_all add: cache_setting_def)
    then have "in_step t'" "gt_rows t' = upsert_row (?x y) (gt_rows t)"
      using put upsert_distinct [OF d] by (simp_all add: in_step_def upsert_map)
    then show ?thesis using out(1) own [of y] other [of j l y] y assms(4) by (auto simp: upsert_at)
  qed
  then show "in_step t'" "b \<Longrightarrow> setting_at i k (gt_rows t') = Some (?x (setting_at i k (gt_rows t)))"
    "CHR ''-'' \<notin> set l \<Longrightarrow> (j, l) \<noteq> (i, k) \<Longrightarrow> setting_at j l (gt_rows t') = setting_at j l (gt_rows t)" "\<not> b \<Longrightarrow> gt_rows t' = gt_rows t"
    by auto
qed

lemma view_used:
  assumes "UpdatePATLastUsed se i tid now g = (b, g')" "in_step g" "usable_setting_env se" "\<not> sv_write_fails se"
  shows "in_step g'" "view g' = (if b then (fst (view g), (snd (view g))(i :=
      change_first (\<lambda>p. pt_TokenId p = tid) (\<lambda>p. p\<lparr>pt_LastUsedAt := Some now\<rparr>) (snd (view g) i))) else view g)"
proof -
  let ?h = "change_first (\<lambda>p. pt_TokenId p = tid) (\<lambda>p. p\<lparr>pt_LastUsedAt := Some now\<rparr>)"
  note C = changed_in_place [OF assms(1) [unfolded UpdatePATLastUsed_def] assms(2,3) key_texts(2) _ assms(4)]
  have k: "key_of (AccessTokens (?h (access_tokens_of v))) = ''PERSONAL_ACCESS_TOKENS''" for v by (simp add: key_of_def)
  show "in_step g'" using C(1) [OF k] .
  have "stored_pats i g' = ?h (stored_pats i g)" if b
    using C(2) [OF k that] by (simp add: stored_pats_def) (simp add: access_tokens_of_def)
  moreover have "stored_pats j g' = stored_pats j g" if "j \<noteq> i" for j
    using C(3) [OF k key_texts(2), of j] that by (simp add: stored_pats_def)
  moreover have "stored_tokens j g' = stored_tokens j g" for j
    using C(3) [OF k key_texts(1), of j] by (simp add: stored_tokens_def)
  moreover have "gt_rows g' = gt_rows g" if "\<not> b" using C(4) [OF k that] .
  ultimately show "view g' = (if b then (fst (view g), (snd (view g))(i := ?h (snd (view g) i))) else view g)"
    by (auto simp: view_def fun_eq_iff stored_tokens_def stored_pats_def)
qed

lemma view_webhook:
  assumes "UpdateUserWebhook se i w g = (b, g')" "in_step g" "usable_setting_env se" "\<not> sv_write_fails se"
  shows "in_step g'" "view g' = view g"
proof -
  have h: "CHR ''-'' \<notin> set ''WEBHOOKS''" by simp
  note C = changed_in_place [OF assms(1) [unfolded UpdateUserWebhook_def] assms(2,3) h _ assms(4)]
  have k: "key_of (Webhooks (change_first P f ws)) = ''WEBHOOKS''" for P f ws by (simp add: key_of_def)
  show "in_step g'" using C(1) [OF k] .
  show "view g' = view g"
    using C(3) [OF k key_texts(1)] C(3) [OF k key_texts(2)] by (simp add: view_def stored_tokens_def stored_pats_def)
qed

section \<open>Calls\<close>

datatype token_call =
    NSignIn credentials | NRefresh string | NSignOut "auth_result option" string
  | NCreatePAT "auth_result option" string string int | NListPATs "auth_result option" string | NDeletePAT "auth_result option" string
  | NEnter entrance string | NFile string string | NTouch "auth_result option"
  | NAccount int account_call | NSetting int string "setting_value option \<Rightarrow> setting_value" | NWebhook int webhook
  | NTickUsers "store_user entries \<Rightarrow> store_user entries" "store_user entries \<Rightarrow> store_user entries" int
  | NTickSettings "setting entries \<Rightarrow> setting entries" "setting entries \<Rightarrow> setting entries" int

text \<open>
  What a call leaves behind. \<open>NTouch\<close> is the last use of a personal token written back after its request, \<open>NSetting\<close> any other
  setting that is read, changed and written, the ticks are those of the clean-up loops of the two caches.
\<close>

fun serve_token :: "auth_env \<Rightarrow> token_call \<Rightarrow> note_accounts \<Rightarrow> note_accounts" where
  "serve_token e (NSignIn c) a = snd (SignIn e c a)"
| "serve_token e (NRefresh cookie) a = snd (service_RefreshToken e cookie a)"
| "serve_token e (NSignOut who cookie) a = snd (SignOut e who cookie a)"
| "serve_token e (NCreatePAT who parent description days) a = snd (CreatePersonalAccessToken e who parent description days a)"
| "serve_token e (NListPATs who parent) a = snd (ListPersonalAccessTokens e who parent a)"
| "serve_token e (NDeletePAT who name) a = snd (DeletePersonalAccessToken e who name a)"
| "serve_token e (NEnter door header) a = snd (enter e door header a)"
| "serve_token e (NFile header cookie) a = snd (AuthenticateToUser e header cookie a)"
| "serve_token e (NTouch r) a = touch_pat e r a"
| "serve_token e (NAccount i c) a = a\<lparr>na_users := serve_account (au_account e) i c (na_users a)\<rparr>"
| "serve_token e (NSetting i k f) a = a\<lparr>na_settings := snd (change_setting (au_add e) i k f (na_settings a))\<rparr>"
| "serve_token e (NWebhook i w) a = a\<lparr>na_settings := snd (UpdateUserWebhook (au_add e) i w (na_settings a))\<rparr>"
| "serve_token e (NTickUsers order calls now) a =
     a\<lparr>na_users := (na_users a)\<lparr>us_cache := cleanupLoop_tick order calls now (us_cache (na_users a))\<rparr>\<rparr>"
| "serve_token e (NTickSettings order calls now) a =
     a\<lparr>na_settings := (na_settings a)\<lparr>gt_cache := cleanupLoop_tick order calls now (gt_cache (na_settings a))\<rparr>\<rparr>"

text \<open>
  The calls considered: the in-place changes can be written, other settings are under other keys, and the loops visit every entry.
\<close>

definition proper :: "auth_env \<Rightarrow> token_call \<Rightarrow> bool" where
  "proper e c \<longleftrightarrow> (case c of
       NTouch r \<Rightarrow> \<not> sv_write_fails (au_add e)
     | NWebhook i w \<Rightarrow> \<not> sv_write_fails (au_add e)
     | NSetting i k f \<Rightarrow> CHR ''-'' \<notin> set k \<and> (\<forall>v. key_of (f v) = k) \<and> k \<noteq> ''REFRESH_TOKENS'' \<and> k \<noteq> ''PERSONAL_ACCESS_TOKENS''
     | NTickUsers order calls now \<Rightarrow> permuting order
     | NTickSettings order calls now \<Rightarrow> permuting order
     | _ \<Rightarrow> True)"

text \<open>The refresh token, and the personal token, that a call asks to end.\<close>

definition revokes :: "auth_env \<Rightarrow> token_call \<Rightarrow> int \<Rightarrow> string \<Rightarrow> bool" where
  "revokes e c i tid \<longleftrightarrow> (case c of
       NRefresh cookie \<Rightarrow> (\<exists>cl. ParseRefreshToken e cookie = Some cl \<and> ConvertStringToInt32 (cl_Subject cl) = Some i \<and> cl_TokenID cl = tid)
     | NSignOut (Some (ByClaims j _)) cookie \<Rightarrow> j = i \<and> (\<exists>cl. ParseRefreshToken e cookie = Some cl \<and> cl_TokenID cl = tid)
     | _ \<Rightarrow> False)"

definition deletes :: "store_user list \<Rightarrow> token_call \<Rightarrow> int \<Rightarrow> string \<Rightarrow> bool" where
  "deletes rows c i tid \<longleftrightarrow> (case c of
       NDeletePAT who name \<Rightarrow> (\<exists>u \<in> set rows. su_ID u = i \<and>
         split_on (CHR ''/'') name = [''users'', su_Username u, ''personalAccessTokens'', tid])
     | _ \<Rightarrow> False)"

text \<open>A run of calls one after another, each of which satisfies \<open>ok\<close>, with at most 55295 users ever created.\<close>

inductive token_run :: "(auth_env \<Rightarrow> token_call \<Rightarrow> note_accounts \<Rightarrow> bool) \<Rightarrow> note_accounts \<Rightarrow> note_accounts \<Rightarrow> bool" for ok where
  start: "token_run ok a a"
| call: "token_run ok a b \<Longrightarrow> usable_auth e \<Longrightarrow> proper e c \<Longrightarrow> ok e c b \<Longrightarrow>
    us_seq (na_users (serve_token e c b)) \<le> 55295 \<Longrightarrow> token_run ok a (serve_token e c b)"

section \<open>Every call is a sequence of moves\<close>

definition keeps :: "note_accounts \<Rightarrow> note_accounts \<Rightarrow> bool" where
  "keeps a b \<longleftrightarrow> sound b \<and> us_rows (na_users b) = us_rows (na_users a) \<and> view (na_settings b) = view (na_settings a)"

lemma run_step_refl: "sound a \<Longrightarrow> keeps a a"
  by (simp add: keeps_def)

lemma run_step_trans: "keeps a b \<Longrightarrow> keeps b c \<Longrightarrow> keeps a c"
  by (simp add: keeps_def)

lemma view_rows: "gt_rows g' = gt_rows g \<Longrightarrow> view g' = view g"
  by (simp add: view_def stored_tokens_def stored_pats_def)

lemma keeps_users: "sound a \<Longrightarrow> same_table (na_users a) s \<Longrightarrow> keeps a (a\<lparr>na_users := s\<rparr>)"
  by (simp add: keeps_def sound_def same_table_def)

lemma usable_parts:
  assumes "usable_auth e"
  shows "usable_env (ac_store (au_account e) k)" "usable_setting_env (au_read e)" "usable_setting_env (au_add e)" "usable_setting_env (au_remove e)"
  using assms by (simp_all add: usable_auth_def steady_def)

lemma refresh_keeps:
  assumes "AuthenticateByRefreshToken e tok a = (r, b)" "sound a" "usable_auth e"
  shows "keeps a b"
proof (cases "\<exists>c i. ParseRefreshToken e tok = Some c \<and> ConvertStringToInt32 (cl_Subject c) = Some i")
  case True
  then obtain c i where "ParseRefreshToken e tok = Some c" "ConvertStringToInt32 (cl_Subject c) = Some i" by blast
  from refresh_exact(1-3) [OF assms this] show ?thesis unfolding keeps_def by (blast intro: view_rows)
next
  case False
  then have "b = a" using assms(1) by (auto simp: AuthenticateByRefreshToken_def split: option.splits)
  then show ?thesis using assms(2) by (simp add: run_step_refl)
qed

lemma pat_keeps:
  assumes "AuthenticateByPAT e tok a = (r, b)" "sound a" "usable_auth e"
  shows "keeps a b"
  using assms(1) run_step_refl [OF assms(2)] keeps_users [OF assms(2) get_same [OF usable_parts(1) [OF assms(3)]]]
  by (auto simp: AuthenticateByPAT_def split: if_splits option.splits prod.splits)

lemma authenticate_keeps:
  assumes "Authenticate e header a = (r, b)" "sound a" "usable_auth e"
  shows "keeps a b"
proof -
  obtain x s where x: "AuthenticateByPAT e (ExtractBearerToken header) a = (x, s)" by fastforce
  have "b = a \<or> b = s" using assms(1) x by (auto simp: Authenticate_def Let_def split: if_splits)
  then show ?thesis using pat_keeps [OF x assms(2,3)] run_step_refl [OF assms(2)] by blast
qed

lemma enter_keeps:
  assumes "enter e door header a = (r, b)" "sound a" "usable_auth e"
  shows "keeps a b"
proof -
  obtain x s where x: "Authenticate e header a = (x, s)" by fastforce
  have "b = a \<or> b = s" using assms(1) x
    by (cases door) (auto simp: WrapUnary_def gatewayAuthMiddleware_def mcp_authenticate_def split: if_splits option.splits)
  then show ?thesis using authenticate_keeps [OF x assms(2,3)] run_step_refl [OF assms(2)] by blast
qed

lemma file_keeps:
  assumes "AuthenticateToUser e header cookie a = (r, b)" "sound a" "usable_auth e"
  shows "keeps a b"
proof -
  define by_cookie where "by_cookie = (\<lambda>a. if cookie = [] then (Some None, a)
    else case AuthenticateByRefreshToken e cookie a of (r, a) \<Rightarrow> (map_option (\<lambda>(u, tid). Some u) r, a))"
  have c: "keeps a' (snd (by_cookie a'))" if "sound a'" for a'
    using that refresh_keeps [of e cookie a'] assms(3) run_step_refl by (auto simp: by_cookie_def split: prod.split)
  obtain x s where x: "AuthenticateByPAT e (ExtractBearerToken header) a = (x, s)" by fastforce
  have s: "keeps a s" by (rule pat_keeps [OF x assms(2,3)])
  then have cs: "keeps a (snd (by_cookie s))" using c run_step_trans by (auto simp: keeps_def)
  note out = assms(1) [unfolded AuthenticateToUser_def by_cookie_def [symmetric] Let_def]
  show ?thesis
  proof (cases "ExtractBearerToken header = []")
    case True
    then have "b = snd (by_cookie a)" using out by (metis snd_conv)
    then show ?thesis using c [OF assms(2)] by simp
  next
    case tok: False
    show ?thesis
    proof (cases "prefix PersonalAccessTokenPrefix (ExtractBearerToken header)")
      case True
      show ?thesis
      proof (cases x)
        case None
        then have "b = snd (by_cookie s)" using out tok True x by simp
        then show ?thesis using cs by simp
      next
        case (Some z)
        then have "b = s" using out tok True x by (cases z) simp
        then show ?thesis using s by simp
      qed
    next
      case False
      show ?thesis
      proof (cases "AuthenticateByAccessTokenV2 e (ExtractBearerToken header)")
        case None
        then have "b = snd (by_cookie a)" using out tok False by simp
        then show ?thesis using c [OF assms(2)] by simp
      next
        case (Some ic)
        obtain i cl where ic: "ic = (i, cl)" by fastforce
        obtain z t where z: "GetUser_by (ac_store (au_account e) C_current) (user_by_id i) (na_users a) = (z, t)" by fastforce
        then have "b = a\<lparr>na_users := t\<rparr>" using out tok False Some ic by simp
        then show ?thesis using keeps_users [OF assms(2) get_same [OF usable_parts(1) [OF assms(3)] z]] by simp
      qed
    qed
  qed
qed

section \<open>The owner a name stands for\<close>

lemma resolved_name:
  assumes "ResolveUserByName e name s = (Some (Some u), t)" "usable_env e"
  shows "ExtractUsernameFromName name = Some (su_Username u)"
proof -
  obtain n where n: "ExtractUsernameFromName name = Some n"
    and g: "GetUser_by e (any_user\<lparr>fu_Username := Some n\<rparr>) s = (Some (Some u), t)"
    using assms(1) by (auto simp: ResolveUserByName_def split: option.splits)
  then obtain us s2 where l: "ListUsers e (any_user\<lparr>fu_Username := Some n\<rparr>) s = (Some (u # us), s2)"
    by (auto simp: GetUser_by_def cached_user_def any_user_def Let_def split: prod.splits option.splits list.splits)
  have "user_found (any_user\<lparr>fu_Username := Some n\<rparr>) u" using listed_matches [OF assms(2) l] by simp
  then show ?thesis using n by (simp add: user_found_def any_user_def opt_matches_def)
qed

lemma owner_of:
  assumes "with_owner e admin who name act a = (r, b)" "sound a" "usable_auth e"
  obtains (refused) er where "r = Inl er" "keeps a b"
  | (acts) u a1 where "u \<in> set (us_rows (na_users a))" "ExtractUsernameFromName name = Some (su_Username u)" "keeps a a1"
      "na_settings a1 = na_settings a" "act u a1 = (r, b)"
proof -
  note use = usable_parts(1) [OF assms(3)]
  obtain x s where x: "ResolveUserByName (ac_store (au_account e) C_named) name (na_users a) = (x, s)" by fastforce
  have 1: "same_table (na_users a) s" by (rule resolve_same [OF use x])
  obtain y s2 where y: "fetchCurrentUser (ac_store (au_account e) C_current) (identity_of who) s = (y, s2)" by fastforce
  have 2: "same_table (na_users a) s2" by (rule same_table_trans [OF 1 fetch_same [OF use y]])
  note k = keeps_users [OF assms(2) 1] keeps_users [OF assms(2) 2]
  show ?thesis
  proof (cases "\<exists>u. x = Some (Some u)")
    case True
    then obtain u where u: "ResolveUserByName (ac_store (au_account e) C_named) name (na_users a) = (Some (Some u), s)" using x by blast
    have "act u (a\<lparr>na_users := s\<rparr>) = (r, b) \<or> act u (a\<lparr>na_users := s2\<rparr>) = (r, b) \<or> (r, b) = (Inl PermissionDenied, a\<lparr>na_users := s2\<rparr>)"
      using assms(1) u y by (auto simp: with_owner_def split: if_splits)
    then consider t where "same_table (na_users a) t" "act u (a\<lparr>na_users := t\<rparr>) = (r, b)" | "r = Inl PermissionDenied" "b = a\<lparr>na_users := s2\<rparr>"
      using 1 2 by auto
    then show ?thesis
    proof cases
      case (1 t)
      show ?thesis
        by (rule acts [of u "a\<lparr>na_users := t\<rparr>"])
          (use resolved_user [OF u use] resolved_name [OF u use] keeps_users [OF assms(2) 1(1)] 1(2) in simp_all)
    next
      case 2
      then show ?thesis using refused k(2) by blast
    qed
  next
    case False
    then have "r = Inl InvalidArgument" "b = a\<lparr>na_users := s\<rparr>"
      using assms(1) x by (auto simp: with_owner_def split: option.splits)
    then show ?thesis using refused k(1) by blast
  qed
qed

lemma valid_no_slash: "validateUsername n \<Longrightarrow> CHR ''/'' \<notin> set n"
proof
  assume "validateUsername n" "CHR ''/'' \<in> set n"
  then have "is_alnum (CHR ''/'') \<or> CHR ''/'' = CHR ''-''" unfolding validateUsername_def UIDMatcher_def list_all_iff by blast
  moreover have "\<not> is_alnum (CHR ''/'')" by code_simp
  ultimately show False by simp
qed

lemma extracted_valid: "ExtractUsernameFromName name = Some n \<Longrightarrow> validateUsername n"
  by (auto simp: ExtractUsernameFromName_def split: option.splits if_splits)

lemma extract_built: "validateUsername n \<Longrightarrow> ExtractUsernameFromName (BuildUserName n) = Some n"
proof -
  assume n: "validateUsername n"
  have "split_on (CHR ''/'') (''users'' @ CHR ''/'' # n) = [''users'', n]"
    using valid_no_slash [OF n] by (subst split_on_append_sep) (simp_all add: split_on_single)
  moreover have "n \<noteq> []" using n by (simp add: validateUsername_def)
  ultimately show ?thesis using n by (simp add: ExtractUsernameFromName_def GetNameParentTokens_def BuildUserName_def)
qed

lemma split_pat_name:
  "validateUsername (su_Username u) \<Longrightarrow> CHR ''/'' \<notin> set tid \<Longrightarrow>
    split_on (CHR ''/'') (pat_name u tid) = [''users'', su_Username u, ''personalAccessTokens'', tid]"
proof -
  assume a: "validateUsername (su_Username u)" "CHR ''/'' \<notin> set tid"
  let ?rest = "''personalAccessTokens'' @ CHR ''/'' # tid"
  have 1: "split_on (CHR ''/'') ?rest = [''personalAccessTokens'', tid]"
    using a(2) by (subst split_on_append_sep) (simp_all add: split_on_single)
  have 2: "split_on (CHR ''/'') (su_Username u @ CHR ''/'' # ?rest) = su_Username u # split_on (CHR ''/'') ?rest"
    by (rule split_on_append_sep [OF valid_no_slash [OF a(1)]])
  have 3: "split_on (CHR ''/'') (''users'' @ CHR ''/'' # (su_Username u @ CHR ''/'' # ?rest)) = ''users'' # split_on (CHR ''/'') (su_Username u @ CHR ''/'' # ?rest)"
    by (rule split_on_append_sep) simp
  have "pat_name u tid = ''users'' @ CHR ''/'' # (su_Username u @ CHR ''/'' # ?rest)"
    by (simp add: pat_name_def BuildUserName_def)
  then show ?thesis unfolding 3 2 1 by (simp only: 3 2 1)
qed

lemma moved: "token_move e E D v w \<Longrightarrow> (token_move e E D)\<^sup>*\<^sup>* v w"
  by (rule r_into_rtranclp)

lemma issue_step:
  assumes "AddUserRefreshToken se i t g = (b, g')" "in_step g" "usable_setting_env se" "rt_TokenId t = au_tokenID e"
  shows "in_step g'" "(token_move e E D)\<^sup>*\<^sup>* (view g) (view g')"
proof -
  note V = view_refresh [of se i "\<lambda>ts. ts @ [t]", OF assms(1) [unfolded AddUserRefreshToken_def] assms(2,3)]
  show "in_step g'" by (rule V)
  show "(token_move e E D)\<^sup>*\<^sup>* (view g) (view g')"
    using moved [OF token_move.issue [OF assms(4), of E D "fst (view g)" "snd (view g)" i]] unfolding V(2) by (cases b) simp_all
qed

lemma revoke_step:
  assumes "RemoveUserRefreshToken se i tid g = (b, g')" "in_step g" "usable_setting_env se" "E i tid"
  shows "in_step g'" "(token_move e E D)\<^sup>*\<^sup>* (view g) (view g')"
proof -
  note V = view_refresh [of se i "filter (\<lambda>x. rt_TokenId x \<noteq> tid)", OF assms(1) [unfolded RemoveUserRefreshToken_def] assms(2,3)]
  show "in_step g'" by (rule V)
  show "(token_move e E D)\<^sup>*\<^sup>* (view g) (view g')"
    using moved [OF token_move.revoke [of E, OF assms(4), of e D "fst (view g)" "snd (view g)"]] unfolding V(2) by (cases b) simp_all
qed

lemma make_step:
  assumes "AddUserPersonalAccessToken se i p g = (b, g')" "in_step g" "usable_setting_env se"
    and "pt_TokenHash p = au_sha e (GeneratePersonalAccessToken e)"
  shows "in_step g'" "(token_move e E D)\<^sup>*\<^sup>* (view g) (view g')"
proof -
  note V = view_pats [of se i "\<lambda>ps. ps @ [p]", OF assms(1) [unfolded AddUserPersonalAccessToken_def] assms(2,3)]
  show "in_step g'" by (rule V)
  show "(token_move e E D)\<^sup>*\<^sup>* (view g) (view g')"
    using moved [OF token_move.make [OF assms(4), of E D "fst (view g)" "snd (view g)" i]] unfolding V(2) by (cases b) simp_all
qed

lemma drop_step:
  assumes "RemoveUserPersonalAccessToken se i tid g = (b, g')" "in_step g" "usable_setting_env se" "D i tid"
  shows "in_step g'" "(token_move e E D)\<^sup>*\<^sup>* (view g) (view g')"
    "b \<Longrightarrow> view g' = (fst (view g), (snd (view g))(i := filter (\<lambda>x. pt_TokenId x \<noteq> tid) (snd (view g) i)))"
proof -
  note V = view_pats [of se i "filter (\<lambda>x. pt_TokenId x \<noteq> tid)", OF assms(1) [unfolded RemoveUserPersonalAccessToken_def] assms(2,3)]
  show "in_step g'" by (rule V)
  show "(token_move e E D)\<^sup>*\<^sup>* (view g) (view g')"
    using moved [OF token_move.drop [of D, OF assms(4), of e E "fst (view g)" "snd (view g)"]] unfolding V(2) by (cases b) simp_all
  show "b \<Longrightarrow> view g' = (fst (view g), (snd (view g))(i := filter (\<lambda>x. pt_TokenId x \<noteq> tid) (snd (view g) i)))"
    using V(2) by simp
qed

lemma used_step:
  assumes "UpdatePATLastUsed se i tid now g = (b, g')" "in_step g" "usable_setting_env se" "\<not> sv_write_fails se"
  shows "in_step g'" "(token_move e E D)\<^sup>*\<^sup>* (view g) (view g')"
proof -
  note V = view_used [OF assms]
  show "in_step g'" by (rule V)
  show "(token_move e E D)\<^sup>*\<^sup>* (view g) (view g')"
    using moved [OF token_move.used [of e E D "fst (view g)" "snd (view g)" i tid now]] unfolding V(2) by (cases b) simp_all
qed

text \<open>A state reached by moves of a call.\<close>

definition reaches :: "auth_env \<Rightarrow> token_call \<Rightarrow> note_accounts \<Rightarrow> note_accounts \<Rightarrow> bool" where
  "reaches e c a b \<longleftrightarrow> sound b \<and>
     (token_move e (revokes e c) (deletes (us_rows (na_users a)) c))\<^sup>*\<^sup>* (view (na_settings a)) (view (na_settings b))"

lemma keeps_reaches: "keeps a b \<Longrightarrow> reaches e c a b"
  by (simp add: keeps_def reaches_def)

lemma reaches_more:
  assumes "keeps a b" "in_step g"
    and "(token_move e (revokes e c) (deletes (us_rows (na_users a)) c))\<^sup>*\<^sup>* (view (na_settings b)) (view g)"
  shows "reaches e c a (b\<lparr>na_settings := g\<rparr>)"
  using assms by (simp add: keeps_def reaches_def sound_def)

lemma signin_reaches:
  assumes "SignIn e c a = (r, b)" "sound a" "usable_auth e" "us_seq (na_users b) \<le> 55295"
  shows "reaches e (NSignIn c) a b"
proof -
  note use = usable_parts(1) [OF assms(3)]
  have cur: "current (na_users a)" using assms(2) by (simp add: sound_def)
  have named: "current t" if "user_with_name e name (na_users a) = (x, t)" for name x t
    using get_same [OF use that [unfolded user_with_name_def]] cur by (simp add: same_table_def)
  obtain x s where x: "(case c of
             PasswordCredentials name pw \<Rightarrow> password_user e name pw (na_users a)
           | SSOCredentials (Inl er) random \<Rightarrow> (Inl er, na_users a)
           | SSOCredentials (Inr i) random \<Rightarrow> provider_user e i random (na_users a)
           | NoCredentials \<Rightarrow> (Inl InvalidArgument, na_users a)) = (x, s)" by fastforce
  have made: "current t'" if "current t" "CreateUser (ac_store (au_account e) C_write) u t = (y, t')" for t t' u y
    using create_current(1) [OF that(1) use, of C_write u] that(2) by simp
  have s: "current s"
  proof (cases c)
    case (PasswordCredentials name pw)
    then show ?thesis using x named by (auto simp: password_user_def split: prod.splits option.splits)
  next
    case (SSOCredentials i random)
    then show ?thesis using x named cur
      by (cases i) (auto simp: provider_user_def split: prod.splits option.splits if_splits, (blast intro: made named)+)
  qed (use x cur in auto)
  let ?a = "a\<lparr>na_users := s\<rparr>"
  have out: "(r, b) = (case x of Inl er \<Rightarrow> (Inl er, ?a)
         | Inr u \<Rightarrow> if su_RowStatus u = ''ARCHIVED'' then (Inl PermissionDenied, ?a)
             else (case doSignIn e u ?a of (None, a) \<Rightarrow> (Inl Internal, a)
               | (Some t, a) \<Rightarrow> (Inr (convertUserFromStore u (Some u), t), a)))"
    using assms(1) unfolding SignIn_def x by (simp add: Let_def)
  have step: "in_step (na_settings a)" using assms(2) by (simp add: sound_def)
  have "\<exists>g. b = ?a\<lparr>na_settings := g\<rparr> \<and> in_step g
      \<and> (token_move e (revokes e (NSignIn c)) (deletes (us_rows (na_users a)) (NSignIn c)))\<^sup>*\<^sup>* (view (na_settings a)) (view g)"
  proof (cases "\<exists>u tok exp. x = Inr u \<and> su_RowStatus u \<noteq> ''ARCHIVED'' \<and> GenerateRefreshToken e (su_ID u) (au_tokenID e) = Some (tok, exp)")
    case True
    then obtain u tok exp where u: "x = Inr u" "su_RowStatus u \<noteq> ''ARCHIVED''" "GenerateRefreshToken e (su_ID u) (au_tokenID e) = Some (tok, exp)" by blast
    obtain ok g where g: "AddUserRefreshToken (au_add e) (su_ID u) (new_refresh_token e exp) (na_settings a) = (ok, g)" by fastforce
    have "snd (doSignIn e u ?a) = ?a\<lparr>na_settings := g\<rparr>" using u(3) g by (simp add: doSignIn_def Let_def)
    then have "b = ?a\<lparr>na_settings := g\<rparr>" using out u(1,2) by (auto split: prod.splits option.splits)
    then show ?thesis
      using issue_step [OF g step usable_parts(3) [OF assms(3)], of e] by (auto simp: new_refresh_token_def)
  next
    case False
    then have "b = ?a" using out by (auto simp: doSignIn_def split: sum.splits if_splits option.splits)
    then show ?thesis using step by (intro exI [of _ "na_settings a"]) simp
  qed
  then show ?thesis using s assms(4) by (auto simp: reaches_def sound_def)
qed

lemma rotate_reaches:
  assumes "service_RefreshToken e cookie a = (r, b)" "sound a" "usable_auth e"
  shows "reaches e (NRefresh cookie) a b"
proof -
  obtain x s where x: "AuthenticateByRefreshToken e cookie a = (x, s)" by fastforce
  have ks: "keeps a s" by (rule refresh_keeps [OF x assms(2,3)])
  then have s: "sound s" "us_rows (na_users s) = us_rows (na_users a)" by (simp_all add: keeps_def)
  have step: "in_step (na_settings s)" using s(1) by (simp add: sound_def)
  show ?thesis
  proof (cases "cookie \<noteq> [] \<and> (\<exists>u old tok exp. x = Some (u, old) \<and> GenerateRefreshToken e (su_ID u) (au_tokenID e) = Some (tok, exp))")
    case True
    then obtain u old tok exp where u: "cookie \<noteq> []" "x = Some (u, old)" "GenerateRefreshToken e (su_ID u) (au_tokenID e) = Some (tok, exp)" by blast
    obtain c i where c: "ParseRefreshToken e cookie = Some c" "ConvertStringToInt32 (cl_Subject c) = Some i"
      using refresh_unparsed x u(2) by blast
    have "old = cl_TokenID c" "active_row i a = Some u"
      using refresh_exact(4) [OF x assms(2,3) c, of u old] u(2) by auto
    then have asks: "revokes e (NRefresh cookie) (su_ID u) old" using c active_rowD by (auto simp: revokes_def)
    obtain ok g where g: "AddUserRefreshToken (au_add e) (su_ID u) (new_refresh_token e exp) (na_settings s) = (ok, g)" by fastforce
    obtain ok2 h where h: "RemoveUserRefreshToken (au_remove e) (su_ID u) old g = (ok2, h)" by fastforce
    have t: "rt_TokenId (new_refresh_token e exp) = au_tokenID e" by (simp add: new_refresh_token_def)
    note G = issue_step [OF g step usable_parts(3) [OF assms(3)] t]
    note H = revoke_step [OF h G(1) usable_parts(4) [OF assms(3)], of "revokes e (NRefresh cookie)", OF asks]
    have "b = s\<lparr>na_settings := g\<rparr> \<or> b = s\<lparr>na_settings := h\<rparr>"
      using assms(1) x u g h by (auto simp: service_RefreshToken_def Let_def split: bool.splits if_splits option.splits)
    then show ?thesis
      using reaches_more [OF ks G(1) G(2)] reaches_more [OF ks H(1) rtranclp_trans [OF G(2) H(2)]] by blast
  next
    case False
    then have "b = a \<or> b = s" using assms(1) x by (auto simp: service_RefreshToken_def split: if_splits option.splits)
    then show ?thesis using keeps_reaches [OF ks] keeps_reaches [OF run_step_refl [OF assms(2)]] by blast
  qed
qed

lemma signout_reaches:
  assumes "SignOut e who cookie a = (r, b)" "sound a" "usable_auth e"
  shows "reaches e (NSignOut who cookie) a b"
proof (cases "\<exists>i c rc. who = Some (ByClaims i c) \<and> cookie \<noteq> [] \<and> ParseRefreshToken e cookie = Some rc")
  case True
  then obtain i c rc where w: "who = Some (ByClaims i c)" "cookie \<noteq> []" "ParseRefreshToken e cookie = Some rc" by blast
  obtain ok g where g: "RemoveUserRefreshToken (au_remove e) i (cl_TokenID rc) (na_settings a) = (ok, g)" by fastforce
  have asks: "revokes e (NSignOut who cookie) i (cl_TokenID rc)" using w by (simp add: revokes_def)
  have step: "in_step (na_settings a)" using assms(2) by (simp add: sound_def)
  note G = revoke_step [OF g step usable_parts(4) [OF assms(3)], of "revokes e (NSignOut who cookie)", OF asks]
  have "b = a\<lparr>na_settings := g\<rparr>" using assms(1) w g by (simp add: SignOut_def Let_def)
  then show ?thesis using reaches_more [OF run_step_refl [OF assms(2)] G(1) G(2)] by simp
next
  case False
  then have "b = a" using assms(1) by (auto simp: SignOut_def Let_def split: option.splits auth_result.splits if_splits)
  then show ?thesis using keeps_reaches [OF run_step_refl [OF assms(2)]] by simp
qed

lemma make_reaches:
  assumes "CreatePersonalAccessToken e who parent description days a = (r, b)" "sound a" "usable_auth e"
  shows "reaches e (NCreatePAT who parent description days) a b"
proof (cases rule: owner_of [OF assms(1) [unfolded CreatePersonalAccessToken_def] assms(2,3)])
  case (1 er)
  then show ?thesis by (rule_tac keeps_reaches)
next
  case (2 u a1)
  define p where "p = \<lparr>pt_TokenId = au_tokenID e, pt_TokenHash = au_sha e (GeneratePersonalAccessToken e), pt_Description = description,
    pt_ExpiresAt = (if 0 < days then Some (AddDate (au_zone e) (au_now e) 0 0 days) else None), pt_CreatedAt = au_now e, pt_LastUsedAt = None\<rparr>"
  have step: "in_step (na_settings a1)" using 2(3) by (simp add: keeps_def sound_def)
  obtain ok g where g: "AddUserPersonalAccessToken (au_add e) (su_ID u) p (na_settings a1) = (ok, g)" by fastforce
  have h: "pt_TokenHash p = au_sha e (GeneratePersonalAccessToken e)" by (simp add: p_def)
  note G = make_step [OF g step usable_parts(3) [OF assms(3)] h]
  have "b = a1\<lparr>na_settings := g\<rparr>" using 2(5) g unfolding Let_def p_def [symmetric] by (cases ok) simp_all
  then show ?thesis using reaches_more [OF 2(3) G(1) G(2)] by simp
qed

lemma names_match:
  assumes "split_on (CHR ''/'') name = [p0, p1, p2, tid]" "ExtractUsernameFromName (BuildUserName p1) = Some n"
  shows "p1 = n"
proof -
  have "CHR ''/'' \<notin> set p1" using split_on_no_sep [of p1 "CHR ''/''" name] assms(1) by simp
  then have "split_on (CHR ''/'') (''users'' @ CHR ''/'' # p1) = [''users'', p1]"
    by (subst split_on_append_sep) (simp_all add: split_on_single)
  then show ?thesis
    using assms(2) by (auto simp: ExtractUsernameFromName_def GetNameParentTokens_def BuildUserName_def split: if_splits option.splits)
qed

lemma delete_acts:
  assumes "DeletePersonalAccessToken e who name a = (r, b)" "sound a" "usable_auth e"
  obtains (refused) er where "r = Inl er" "keeps a b"
  | (acts) u a1 tid ok g where "u \<in> set (us_rows (na_users a))" "keeps a a1"
      "split_on (CHR ''/'') name = [''users'', su_Username u, ''personalAccessTokens'', tid]"
      "RemoveUserPersonalAccessToken (au_remove e) (su_ID u) tid (na_settings a1) = (ok, g)"
      "r = (if ok then Inr () else Inl Internal)" "b = a1\<lparr>na_settings := g\<rparr>"
proof (cases "\<exists>p1 tid. split_on (CHR ''/'') name = [''users'', p1, ''personalAccessTokens'', tid]")
  case True
  then obtain p1 tid where s: "split_on (CHR ''/'') name = [''users'', p1, ''personalAccessTokens'', tid]" by blast
  have w: "with_owner e False who (BuildUserName p1)
      (\<lambda>u a. case RemoveUserPersonalAccessToken (au_remove e) (su_ID u) tid (na_settings a) of
         (b, g) \<Rightarrow> (if b then Inr () else Inl Internal, a\<lparr>na_settings := g\<rparr>)) a = (r, b)"
    using assms(1) by (simp add: DeletePersonalAccessToken_def s)
  show thesis
  proof (cases rule: owner_of [OF w assms(2,3)])
    case (1 er)
    then show thesis by (rule refused)
  next
    case (2 u a1)
    obtain ok g where g: "RemoveUserPersonalAccessToken (au_remove e) (su_ID u) tid (na_settings a1) = (ok, g)" by fastforce
    show thesis
      by (rule acts [OF 2(1,3) _ g]) (use s names_match [OF s 2(2)] 2(5) g in auto)
  qed
next
  case False
  have "r = Inl InvalidArgument" "b = a"
    using assms(1) False unfolding DeletePersonalAccessToken_def by (auto split: list.splits if_splits)
  then show thesis using refused run_step_refl [OF assms(2)] by blast
qed

lemma drop_reaches:
  assumes "DeletePersonalAccessToken e who name a = (r, b)" "sound a" "usable_auth e"
  shows "reaches e (NDeletePAT who name) a b"
proof (cases rule: delete_acts [OF assms])
  case (1 er)
  show ?thesis by (rule keeps_reaches [OF 1(2)])
next
  case (2 u a1 tid ok g)
  have step: "in_step (na_settings a1)" using 2(2) by (simp add: keeps_def sound_def)
  have asks: "deletes (us_rows (na_users a)) (NDeletePAT who name) (su_ID u) tid" using 2(1,3) by (auto simp: deletes_def)
  note G = drop_step [OF 2(4) step usable_parts(4) [OF assms(3)], of "deletes (us_rows (na_users a)) (NDeletePAT who name)", OF asks]
  show ?thesis unfolding 2(6) by (rule reaches_more [OF 2(2) G(1) G(2)])
qed

lemma tokens_listed:
  assumes "ListPersonalAccessTokens e who parent a = (r, b)" "sound a" "usable_auth e"
  shows "keeps a b"
proof (cases rule: owner_of [OF assms(1) [unfolded ListPersonalAccessTokens_def] assms(2,3)])
  case (2 u a1)
  obtain x g where x: "GetUserSetting (au_read e) (su_ID u) ''PERSONAL_ACCESS_TOKENS'' (na_settings a1) = (x, g)" by fastforce
  have step: "in_step (na_settings a1)" using 2(3) by (simp add: keeps_def sound_def)
  note R = read_setting [OF x step usable_parts(2) [OF assms(3)] key_texts(2)]
  have "b = a1\<lparr>na_settings := g\<rparr>" using 2(5) x by (auto simp: GetUserPersonalAccessTokens_def split: option.splits)
  moreover have "keeps a1 (a1\<lparr>na_settings := g\<rparr>)" using 2(3) R(1) view_rows [OF R(2)] by (simp add: keeps_def sound_def)
  ultimately show ?thesis using run_step_trans [OF 2(3)] by simp
qed simp

lemma touch_reaches:
  assumes "sound a" "usable_auth e" "\<not> sv_write_fails (au_add e)"
  shows "reaches e (NTouch r) a (touch_pat e r a)"
proof (cases "\<exists>u p. r = Some (ByPAT u p)")
  case True
  then obtain u p where r: "r = Some (ByPAT u p)" by blast
  obtain ok g where g: "UpdatePATLastUsed (au_add e) (su_ID u) (pt_TokenId p) (au_now e) (na_settings a) = (ok, g)" by fastforce
  have step: "in_step (na_settings a)" using assms(1) by (simp add: sound_def)
  note G = used_step [OF g step usable_parts(3) [OF assms(2)] assms(3)]
  have "touch_pat e r a = a\<lparr>na_settings := g\<rparr>" using g by (simp add: touch_pat_def r)
  then show ?thesis using reaches_more [OF run_step_refl [OF assms(1)] G(1) G(2)] by simp
next
  case False
  then have "touch_pat e r a = a" by (auto simp: touch_pat_def split: option.split auth_result.split)
  then show ?thesis using keeps_reaches [OF run_step_refl [OF assms(1)]] by simp
qed

lemma tick_in_step:
  assumes "in_step g" "permuting order"
  shows "in_step (g\<lparr>gt_cache := cleanupLoop_tick order calls now (gt_cache g)\<rparr>)"
proof -
  have ok: "cache_ok (gt_cache g)" using assms(1) by (simp add: in_step_def store_cache.agrees_def)
  have "store_cache.agrees (setting_map (gt_rows g)) (cleanupLoop_tick order calls now (gt_cache g))"
    using assms(1) cleanup_keeps(1,3) [OF ok assms(2)]
    by (auto simp: in_step_def store_cache.agrees_def cleanupLoop_tick_def cache_holds_def split: option.splits if_splits)
  then show ?thesis using assms(1) by (simp add: in_step_def)
qed

lemma serve_note_reaches:
  assumes "sound a" "usable_auth e" "proper e c" "us_seq (na_users (serve_token e c a)) \<le> 55295"
  shows "reaches e c a (serve_token e c a)"
proof -
  note col = prod.collapse [symmetric]
  have step: "in_step (na_settings a)" using assms(1) by (simp add: sound_def)
  show ?thesis
  proof (cases c)
    case (NSignIn x)
    then show ?thesis using signin_reaches [OF col assms(1,2)] assms(4) by simp
  next
    case (NRefresh cookie)
    then show ?thesis using rotate_reaches [OF col assms(1,2)] by simp
  next
    case (NSignOut who cookie)
    then show ?thesis using signout_reaches [OF col assms(1,2)] by simp
  next
    case (NCreatePAT who parent description days)
    then show ?thesis using make_reaches [OF col assms(1,2)] by simp
  next
    case (NListPATs who parent)
    then show ?thesis using keeps_reaches [OF tokens_listed [OF col assms(1,2)]] by simp
  next
    case (NDeletePAT who name)
    then show ?thesis using drop_reaches [OF col assms(1,2)] by simp
  next
    case (NEnter door header)
    then show ?thesis using keeps_reaches [OF enter_keeps [OF col assms(1,2)]] by simp
  next
    case (NFile header cookie)
    then show ?thesis using keeps_reaches [OF file_keeps [OF col assms(1,2)]] by simp
  next
    case (NTouch r)
    then show ?thesis using touch_reaches [OF assms(1,2)] assms(3) by (simp add: proper_def)
  next
    case (NAccount i x)
    have "current (serve_account (au_account e) i x (na_users a))"
      using serve_current assms(1,2) by (simp add: sound_def usable_auth_def)
    then show ?thesis using assms(4) step unfolding NAccount by (simp add: reaches_def sound_def del: serve_account.simps)
  next
    case (NSetting i k f)
    obtain ok g where g: "change_setting (au_add e) i k f (na_settings a) = (ok, g)" by fastforce
    have p: "CHR ''-'' \<notin> set k" "\<And>v. key_of (f v) = k" "k \<noteq> ''REFRESH_TOKENS''" "k \<noteq> ''PERSONAL_ACCESS_TOKENS''"
      using assms(3) by (simp_all add: NSetting proper_def)
    note V = view_other [OF g step usable_parts(3) [OF assms(2)] p]
    show ?thesis using reaches_more [OF run_step_refl [OF assms(1)] V(1)] V(2) by (simp add: NSetting g)
  next
    case (NWebhook i w)
    obtain ok g where g: "UpdateUserWebhook (au_add e) i w (na_settings a) = (ok, g)" by fastforce
    have p: "\<not> sv_write_fails (au_add e)" using assms(3) by (simp add: NWebhook proper_def)
    note V = view_webhook [OF g step usable_parts(3) [OF assms(2)] p]
    show ?thesis using reaches_more [OF run_step_refl [OF assms(1)] V(1)] V(2) by (simp add: NWebhook g)
  next
    case (NTickUsers order calls now)
    then have "current ((na_users a)\<lparr>us_cache := cleanupLoop_tick order calls now (us_cache (na_users a))\<rparr>)"
      using tick_current assms(1,3) by (simp add: sound_def proper_def)
    then show ?thesis using assms(1) by (simp add: NTickUsers reaches_def sound_def)
  next
    case (NTickSettings order calls now)
    let ?g = "(na_settings a)\<lparr>gt_cache := cleanupLoop_tick order calls now (gt_cache (na_settings a))\<rparr>"
    have "in_step ?g" using tick_in_step [OF step] assms(3) by (simp add: NTickSettings proper_def)
    moreover have "view ?g = view (na_settings a)" by (rule view_rows) simp
    ultimately show ?thesis using assms(1) by (simp add: NTickSettings reaches_def sound_def)
  qed
qed

section \<open>Runs\<close>

text \<open>What the moves of all calls keep holds all along a run.\<close>

lemma run_keeps:
  assumes "token_run ok a b" "sound a" "I (view (na_settings a))"
    and "\<And>e c s v w. ok e c s \<Longrightarrow> token_move e (revokes e c) (deletes (us_rows (na_users s)) c) v w \<Longrightarrow> I v \<Longrightarrow> I w"
  shows "sound b \<and> I (view (na_settings b))"
  using assms(1-3)
proof (induction rule: token_run.induct)
  case (start a)
  then show ?case by simp
next
  case (call a b e c)
  then have b: "sound b" "I (view (na_settings b))" by auto
  have r: "reaches e c b (serve_token e c b)" by (rule serve_note_reaches [OF b(1) call(2,3,5)])
  have "I w" if "(token_move e (revokes e c) (deletes (us_rows (na_users b)) c))\<^sup>*\<^sup>* (view (na_settings b)) w" for w
    using that by (induction rule: rtranclp_induct) (use b(2) assms(4) [OF call(4)] in blast)+
  then show ?case using r by (simp add: reaches_def)
qed

lemma run_mono: "token_run ok a b \<Longrightarrow> (\<And>e c s. ok e c s \<Longrightarrow> ok' e c s) \<Longrightarrow> token_run ok' a b"
  by (induction rule: token_run.induct) (auto intro: token_run.intros)

end
