(* ===== verification/NoteTokens.thy ===== *)
theory NoteTokens
  imports NoteRuns
begin

text \<open>
  What protects a call: whom the entrances of the note server let in, how refresh tokens rotate, and that a personal access token
  opens the door from its creation to its deletion, whatever is called in between. With the examples for these theorems.
\<close>

section \<open>The entrances\<close>

lemma authenticated:
  assumes "Authenticate e header a = (Some w, b)" "sound a" "usable_auth e"
  shows "case w of
      ByClaims i c \<Rightarrow> ParseAccessTokenV2 e (ExtractBearerToken header) = Some c \<and> ConvertStringToInt32 (cl_Subject c) = Some i
    | ByPAT u p \<Rightarrow> active_row (su_ID u) a = Some u \<and> p \<in> set (stored_pats (su_ID u) (na_settings a))
        \<and> pt_TokenHash p = au_sha e (ExtractBearerToken header) \<and> unexpired (pt_ExpiresAt p) (au_now e)"
proof (cases w)
  case (ByClaims i c)
  then show ?thesis using assms(1)
    by (auto simp: Authenticate_def AuthenticateByAccessTokenV2_def Let_def split: if_splits option.splits prod.splits)
next
  case (ByPAT u p)
  then have "AuthenticateByPAT e (ExtractBearerToken header) a = (Some (u, p), b)"
    using assms(1) by (auto simp: Authenticate_def Let_def split: if_splits prod.splits)
  from by_pat(1) [OF this assms(2,3) refl] show ?thesis using ByPAT by simp
qed

lemma entered: "enter e door header a = (Inr r, b) \<Longrightarrow> Authenticate e header a = (r, b) \<or> door = Tools \<and> header = [] \<and> r = None"
  by (cases door) (auto simp: WrapUnary_def gatewayAuthMiddleware_def mcp_authenticate_def split: if_splits option.splits prod.splits)

lemma entered_unknown:
  "enter e door header a = (Inr None, b) \<Longrightarrow> (case door of Connect procedure \<Rightarrow> IsPublicMethod procedure
     | Gateway rpcMethod \<Rightarrow> (case rpcMethod of None \<Rightarrow> True | Some procedure \<Rightarrow> IsPublicMethod procedure) | Tools \<Rightarrow> header = [])"
  by (cases door) (auto simp: WrapUnary_def gatewayAuthMiddleware_def mcp_authenticate_def split: if_splits option.splits prod.splits)

text \<open>
  C13. Whom the entrances let in. Without an identity: over Connect only to a public procedure; over the REST gateway only to
  a public procedure or where the gateway has not said which procedure it is; to the tools only without a header. With an identity:
  only by a valid access token, or by a personal access token that is stored, by its hash, for a user who exists and is not
  archived, and that has not expired. This in states whose caches agree with their tables, with at most 55295 users ever created
(beyond, users are confused, C40).
\<close>
theorem protected_calls_are_authenticated:
  assumes "enter e door header a = (Inr r, b)" "sound a" "usable_auth e"
  shows "case r of
      None \<Rightarrow> (case door of Connect procedure \<Rightarrow> IsPublicMethod procedure
        | Gateway rpcMethod \<Rightarrow> (case rpcMethod of None \<Rightarrow> True | Some procedure \<Rightarrow> IsPublicMethod procedure) | Tools \<Rightarrow> header = [])
    | Some (ByClaims i c) \<Rightarrow> ParseAccessTokenV2 e (ExtractBearerToken header) = Some c \<and> ConvertStringToInt32 (cl_Subject c) = Some i
    | Some (ByPAT u p) \<Rightarrow> active_row (su_ID u) a = Some u \<and> p \<in> set (stored_pats (su_ID u) (na_settings a))
        \<and> pt_TokenHash p = au_sha e (ExtractBearerToken header) \<and> unexpired (pt_ExpiresAt p) (au_now e)"
proof (cases r)
  case None
  then show ?thesis using entered_unknown assms(1) by simp
next
  case (Some w)
  then have "Authenticate e header a = (Some w, b)" using entered [OF assms(1)] by simp
  from authenticated [OF this assms(2,3)] show ?thesis using Some by simp
qed

section \<open>Rotation\<close>

lemma old_stays_gone:
  "token_move e E D v w \<Longrightarrow> au_tokenID e \<noteq> k \<Longrightarrow> k \<notin> rt_TokenId ` set (fst v i) \<Longrightarrow> k \<notin> rt_TokenId ` set (fst w i)"
  by (erule token_moveE) auto

lemma find_kept: "k \<noteq> j \<Longrightarrow> List.find (\<lambda>x. f x = k) (filter (\<lambda>x. f x \<noteq> j) xs) = List.find (\<lambda>x. f x = k) xs"
  by (induction xs) auto

lemma find_kept_first: "List.find P xs = Some x \<Longrightarrow> List.find P (xs @ ys) = Some x"
  by (induction xs) auto

lemma new_stays:
  assumes "token_move e E D v w" "\<not> E i k" "List.find (\<lambda>x. rt_TokenId x = k) (fst v i) = Some t"
  shows "List.find (\<lambda>x. rt_TokenId x = k) (fst w i) = Some t"
  using assms(1)
proof (cases rule: token_move.cases)
  case (issue t' T P j)
  then show ?thesis using assms(3) find_kept_first [of "\<lambda>x. rt_TokenId x = k" "T i" t] by (cases "i = j") simp_all
next
  case (revoke j tid T P)
  then have "j = i \<Longrightarrow> tid \<noteq> k" using assms(2) by auto
  then show ?thesis using revoke assms(3) find_kept [of k tid rt_TokenId "T i"] by auto
qed (use assms(3) in simp_all)

text \<open>
  C14. Refresh tokens rotate. When a refresh has succeeded and the removal of the old token could be written (that it could not is
  only logged), then after any run of calls the old cookie is refused; and after any run in which nobody refreshes or signs out with
  the new cookie it lets its user in for thirty days, exactly as long as that user is there and not archived. The calls
  come one after another, the new token gets an identifier that is not stored yet, and no later one gets that of the old token.
  States as in C13.
\<close>
theorem refresh_rotates:
  assumes "service_RefreshToken e cookie a = (Inr t, a')" "sound a" "usable_auth e"
    and "ParseRefreshToken e cookie = Some c" "ConvertStringToInt32 (cl_Subject c) = Some i" "0 \<le> i" "i < 2 ^ 31"
    and "\<not> sv_read_fails (au_remove e)" "\<not> sv_write_fails (au_remove e)"
    and "\<forall>x \<in> set (stored_tokens i (na_settings a)). rt_TokenId x \<noteq> au_tokenID e"
    and "token_run (\<lambda>d call s. au_tokenID d \<noteq> cl_TokenID c) a' b" "usable_auth e'"
  shows "active_row i a' = active_row i a \<and> active_row i a \<noteq> None \<and>
    (ParseRefreshToken e' cookie \<in> {None, Some c} \<longrightarrow> fst (AuthenticateByRefreshToken e' cookie b) = None) \<and>
    (token_run (\<lambda>d call s. \<not> revokes d call i (au_tokenID e)) a' b \<and> answering e' \<and>
      ParseRefreshToken e' (fst (sn_Refresh t)) = Some (refresh_claims i (au_tokenID e)) \<and> au_now e' \<le> au_now e + RefreshTokenDuration \<longrightarrow>
      fst (AuthenticateByRefreshToken e' (fst (sn_Refresh t)) b) = map_option (\<lambda>u. (u, au_tokenID e)) (active_row i b))"
proof (intro conjI impI)
  note R = rotated [OF assms(1-5,8,9)]
  show "active_row i a' = active_row i a" by (rule active_row_same [OF R(2)])
  show "active_row i a \<noteq> None" by (rule R(4))
next
  note R = rotated [OF assms(1-5,8,9)]
  assume p: "ParseRefreshToken e' cookie \<in> {None, Some c}"
  have "cl_TokenID c \<notin> rt_TokenId ` set (fst (view (na_settings a')) i)" unfolding view_def fst_conv R(5) by auto
  from run_keeps [OF assms(11) R(1), of "\<lambda>v. cl_TokenID c \<notin> rt_TokenId ` set (fst v i)", OF this]
  have b: "sound b" "cl_TokenID c \<notin> rt_TokenId ` set (stored_tokens i (na_settings b))"
    using old_stays_gone by (auto simp: view_def)
  show "fst (AuthenticateByRefreshToken e' cookie b) = None"
  proof (cases "ParseRefreshToken e' cookie")
    case (Some d)
    then have d: "ParseRefreshToken e' cookie = Some c" using p by simp
    have gone: "\<not> standing e' i (cl_TokenID c) b" using b(2) by (force simp: standing_def dest: find_Some_iff_mem)
    show ?thesis
    proof (rule ccontr)
      assume "fst (AuthenticateByRefreshToken e' cookie b) \<noteq> None"
      then obtain u tid s where "AuthenticateByRefreshToken e' cookie b = (Some (u, tid), s)" by (metis eq_fst_iff not_None_eq surj_pair)
      from refresh_exact(4) [OF this b(1) assms(12) d assms(5) refl] gone show False by blast
    qed
  qed (simp add: AuthenticateByRefreshToken_def)
next
  note R = rotated [OF assms(1-5,8,9)]
  let ?new = "new_refresh_token e (au_now e + RefreshTokenDuration)" and ?tok = "fst (sn_Refresh t)"
  assume e: "token_run (\<lambda>d call s. \<not> revokes d call i (au_tokenID e)) a' b \<and> answering e' \<and>
      ParseRefreshToken e' ?tok = Some (refresh_claims i (au_tokenID e)) \<and> au_now e' \<le> au_now e + RefreshTokenDuration"
  have "cl_TokenID c \<in> rt_TokenId ` set (stored_tokens i (na_settings a))"
    using R(3) by (force simp: standing_def dest: find_Some_iff_mem)
  then have "au_tokenID e \<noteq> cl_TokenID c" using assms(10) by auto
  then have "List.find (\<lambda>x. rt_TokenId x = au_tokenID e) (stored_tokens i (na_settings a')) = Some ?new"
    using assms(10) unfolding R(5) by (intro find_last) (simp_all add: new_refresh_token_def)
  then have start: "List.find (\<lambda>x. rt_TokenId x = au_tokenID e) (fst (view (na_settings a')) i) = Some ?new" by (simp add: view_def)
  have b: "sound b" "List.find (\<lambda>x. rt_TokenId x = au_tokenID e) (stored_tokens i (na_settings b)) = Some ?new"
    using run_keeps [OF conjunct1 [OF e] R(1), of "\<lambda>v. List.find (\<lambda>x. rt_TokenId x = au_tokenID e) (fst v i) = Some ?new", OF start] new_stays
    by (auto simp: view_def)
  then have s: "standing e' i (cl_TokenID (refresh_claims i (au_tokenID e))) b"
    using e by (simp add: standing_def refresh_claims_def new_refresh_token_def unexpired_def)
  have sub: "ConvertStringToInt32 (cl_Subject (refresh_claims i (au_tokenID e))) = Some i"
    using convert_itoa [of i] assms(6,7) by (simp add: refresh_claims_def)
  show "fst (AuthenticateByRefreshToken e' ?tok b) = map_option (\<lambda>u. (u, au_tokenID e)) (active_row i b)"
    using refresh_exact(5) [OF surjective_pairing b(1) assms(12) _ sub _ s] e by (simp add: refresh_claims_def)
qed

section \<open>From creation to deletion\<close>

text \<open>What counts of a personal token: its hash, its identifier and its expiry.\<close>

definition stamp :: "access_token \<Rightarrow> string \<times> string \<times> int option" where
  "stamp p = (pt_TokenHash p, pt_TokenId p, pt_ExpiresAt p)"

definition stamps :: "token_view \<Rightarrow> int \<Rightarrow> (string \<times> string \<times> int option) set" where
  "stamps v j = stamp ` set (snd v j)"

text \<open>One token has the hash, and it is this user's, with this identifier and expiry.\<close>

definition one_pat :: "string \<Rightarrow> int \<Rightarrow> string \<Rightarrow> int option \<Rightarrow> token_view \<Rightarrow> bool" where
  "one_pat h i tid ex v \<longleftrightarrow> (\<forall>j k x. (h, k, x) \<in> stamps v j \<longleftrightarrow> j = i \<and> k = tid \<and> x = ex)"

definition no_pat :: "string \<Rightarrow> token_view \<Rightarrow> bool" where
  "no_pat h v \<longleftrightarrow> (\<forall>j k x. (h, k, x) \<notin> stamps v j)"

lemma used_stamps: "map stamp (change_first Q (\<lambda>p. p\<lparr>pt_LastUsedAt := z\<rparr>) xs) = map stamp xs"
  by (induction xs) (simp_all add: stamp_def)

lemma moved_stamps:
  assumes "token_move e E D v w"
  shows "stamps w j \<subseteq> stamps v j \<union> {z. fst z = au_sha e (GeneratePersonalAccessToken e)}"
    and "z \<in> stamps v j \<Longrightarrow> \<not> D j (fst (snd z)) \<Longrightarrow> z \<in> stamps w j"
proof -
  have u: "stamp ` set (change_first Q (\<lambda>p. p\<lparr>pt_LastUsedAt := n\<rparr>) xs) = stamp ` set xs" for Q n xs
    using arg_cong [OF used_stamps, of set] by simp
  show "stamps w j \<subseteq> stamps v j \<union> {z. fst z = au_sha e (GeneratePersonalAccessToken e)}"
    using assms by (cases rule: token_move.cases) (auto simp: stamps_def u, auto simp: stamp_def)
  assume z: "z \<in> stamps v j" "\<not> D j (fst (snd z))"
  show "z \<in> stamps w j"
    using assms
  proof (cases rule: token_move.cases)
    case (drop i tid T P)
    obtain p where p: "p \<in> set (P j)" "z = stamp p" using z(1) drop(1) by (auto simp: stamps_def)
    have "i = j \<Longrightarrow> pt_TokenId p \<noteq> tid" using z(2) drop(3) p(2) by (auto simp: stamp_def)
    then show ?thesis using p drop(2) by (auto simp: stamps_def)
  qed (use z(1) in \<open>auto simp: stamps_def u\<close>)
qed

lemma one_pat_stays:
  assumes "token_move e E D v w" "one_pat h i tid ex v" "au_sha e (GeneratePersonalAccessToken e) \<noteq> h" "\<not> D i tid"
  shows "one_pat h i tid ex w"
proof -
  have "(h, k, x) \<in> stamps w j \<Longrightarrow> j = i \<and> k = tid \<and> x = ex" for j k x
    using moved_stamps(1) [OF assms(1), of j] assms(2,3) unfolding one_pat_def by force
  moreover have "(h, tid, ex) \<in> stamps w i"
    using moved_stamps(2) [OF assms(1), of "(h, tid, ex)" i] assms(2,4) by (simp add: one_pat_def)
  ultimately show ?thesis unfolding one_pat_def by blast
qed

lemma no_pat_stays: "token_move e E D v w \<Longrightarrow> no_pat h v \<Longrightarrow> au_sha e (GeneratePersonalAccessToken e) \<noteq> h \<Longrightarrow> no_pat h w"
  using moved_stamps(1) [of e E D v w] unfolding no_pat_def by force

lemma one_pat_finds:
  assumes "one_pat h i tid ex (view g)"
  obtains p where "List.find (\<lambda>q. pt_TokenHash q = h) (stored_pats i g) = Some p" "pt_TokenId p = tid" "pt_ExpiresAt p = ex"
    "\<And>j q. q \<in> set (stored_pats j g) \<Longrightarrow> pt_TokenHash q = h \<Longrightarrow> j = i \<and> pt_ExpiresAt q = ex"
proof -
  have one: "(h, k, x) \<in> stamp ` set (stored_pats j g) \<longleftrightarrow> j = i \<and> k = tid \<and> x = ex" for j k x
    using assms by (simp add: one_pat_def stamps_def view_def)
  have all: "j = i \<and> pt_TokenId q = tid \<and> pt_ExpiresAt q = ex" if "q \<in> set (stored_pats j g)" "pt_TokenHash q = h" for j q
    using one [of "pt_TokenId q" "pt_ExpiresAt q" j] that by (auto simp: stamp_def)
  have "(h, tid, ex) \<in> stamp ` set (stored_pats i g)" using one by simp
  then have "\<exists>q \<in> set (stored_pats i g). pt_TokenHash q = h" by (auto simp: stamp_def)
  then obtain p where p: "List.find (\<lambda>q. pt_TokenHash q = h) (stored_pats i g) = Some p"
    by (metis (mono_tags, lifting) find_None_iff not_None_eq)
  then have "p \<in> set (stored_pats i g)" "pt_TokenHash p = h" by (auto dest: find_Some_iff_mem)
  from all [OF this] show thesis using that [OF p] all by blast
qed

lemma created_pat:
  assumes "CreatePersonalAccessToken e who parent description days a = (Inr (m, tok), b)" "sound a" "usable_auth e"
    and "\<forall>j. \<forall>q \<in> set (stored_pats j (na_settings a)). pt_TokenHash q \<noteq> au_sha e tok"
  obtains u where "u \<in> set (us_rows (na_users a))" "ExtractUsernameFromName parent = Some (su_Username u)" "sound b"
    "us_rows (na_users b) = us_rows (na_users a)" "one_pat (au_sha e tok) (su_ID u) (au_tokenID e) (pm_ExpiresAt m) (view (na_settings b))"
    "pm_Name m = pat_name u (au_tokenID e)" "prefix PersonalAccessTokenPrefix tok"
proof (cases rule: owner_of [OF assms(1) [unfolded CreatePersonalAccessToken_def] assms(2,3)])
  case (2 u a1)
  define p where "p = \<lparr>pt_TokenId = au_tokenID e, pt_TokenHash = au_sha e (GeneratePersonalAccessToken e), pt_Description = description,
    pt_ExpiresAt = (if 0 < days then Some (AddDate (au_zone e) (au_now e) 0 0 days) else None), pt_CreatedAt = au_now e, pt_LastUsedAt = None\<rparr>"
  have step: "in_step (na_settings a1)" using 2(3) by (simp add: keeps_def sound_def)
  obtain ok g where g: "AddUserPersonalAccessToken (au_add e) (su_ID u) p (na_settings a1) = (ok, g)" by fastforce
  have r: "(if ok then (Inr (pat_message_of u p, GeneratePersonalAccessToken e), a1\<lparr>na_settings := g\<rparr>) else (Inl Internal, a1\<lparr>na_settings := g\<rparr>))
      = (Inr (m, tok), b)"
    using 2(5) unfolding Let_def p_def [symmetric] g by (cases ok) simp_all
  then have out: "ok" "b = a1\<lparr>na_settings := g\<rparr>" "m = pat_message_of u p" "tok = GeneratePersonalAccessToken e"
    by (auto split: if_splits)
  note V = view_pats [of "au_add e" "su_ID u" "\<lambda>ps. ps @ [p]", OF g [unfolded AddUserPersonalAccessToken_def] step usable_parts(3) [OF assms(3)]]
  have p: "stamp p = (au_sha e tok, au_tokenID e, pm_ExpiresAt m)" by (simp add: stamp_def out(3,4) p_def pat_message_of_def)
  have old: "(au_sha e tok, k, x) \<notin> stamps (view (na_settings a)) j" for j k x
  proof
    assume "(au_sha e tok, k, x) \<in> stamps (view (na_settings a)) j"
    then obtain q where "q \<in> set (stored_pats j (na_settings a))" "pt_TokenHash q = au_sha e tok"
      by (auto simp: stamps_def stamp_def view_def)
    then show False using assms(4) by blast
  qed
  have "stamps (view g) j = (if j = su_ID u then insert (stamp p) (stamps (view (na_settings a)) j) else stamps (view (na_settings a)) j)" for j
    using V(2) out(1) 2(3) by (simp add: keeps_def stamps_def)
  then have "one_pat (au_sha e tok) (su_ID u) (au_tokenID e) (pm_ExpiresAt m) (view g)"
    using old by (auto simp: one_pat_def p)
  moreover have "sound b" "us_rows (na_users b) = us_rows (na_users a)" using 2(3) V(1) out(2) by (simp_all add: keeps_def sound_def)
  moreover have "pm_Name m = pat_name u (au_tokenID e)" by (simp add: out(3) p_def pat_message_of_def)
  moreover have "prefix PersonalAccessTokenPrefix tok" by (simp add: out(4) GeneratePersonalAccessToken_def)
  ultimately show thesis using that [OF 2(1,2)] out(2) by simp
qed simp

lemma deleted_pat:
  assumes "DeletePersonalAccessToken e by name a = (Inr (), b)" "sound a" "usable_auth e"
    and "deletes (us_rows (na_users a)) (NDeletePAT by name) i tid" "distinct (map su_Username (us_rows (na_users a)))"
    and "one_pat h i tid ex (view (na_settings a))"
  shows "sound b" "no_pat h (view (na_settings b))"
proof -
  show "sound b" using drop_reaches [OF assms(1-3)] by (simp add: reaches_def)
  obtain v where v: "v \<in> set (us_rows (na_users a))" "su_ID v = i"
    "split_on (CHR ''/'') name = [''users'', su_Username v, ''personalAccessTokens'', tid]"
    using assms(4) by (auto simp: deletes_def)
  show "no_pat h (view (na_settings b))"
  proof (cases rule: delete_acts [OF assms(1-3)])
    case (2 u a1 tid' ok g)
    have "su_Username u = su_Username v" "tid' = tid" using v(3) 2(3) by simp_all
    then have u: "u = v" using assms(5) v(1) 2(1) by (auto simp: distinct_map dest: inj_onD)
    have ok: "ok" using 2(5) by (auto split: if_splits)
    have step: "in_step (na_settings a1)" using 2(2) by (simp add: keeps_def sound_def)
    have "view g = (fst (view (na_settings a)), (snd (view (na_settings a)))(i := filter (\<lambda>x. pt_TokenId x \<noteq> tid) (snd (view (na_settings a)) i)))"
      using drop_step(3) [OF 2(4) step usable_parts(4) [OF assms(3)] _ ok, of "\<lambda>_ _. True"] 2(2) u v(2) \<open>tid' = tid\<close>
      by (simp add: keeps_def)
    then show ?thesis using assms(6) 2(6) by (fastforce simp: no_pat_def one_pat_def stamps_def stamp_def)
  qed simp
qed

text \<open>
  C15. A personal access token works from its creation to its deletion, with any run of calls, one after another, in between and after,
  as long as no other token has its hash. Until its owner deletes it by name it lets exactly the owner in, while it has not
  expired and the owner is not archived; the name its creation answered with is such a name while the owner keeps the user name. Once
  a deletion has answered that it succeeded, nobody gets in with it any more. That the time of its last use, written back
  after a request, can bring it to life again when it overlaps with the deletion, is \<open>overlapping_use_revives\<close>. User names
  are unique, the token's identifier has no slash, and the rest is as in C13.
\<close>
theorem pat_until_deleted:
  assumes "CreatePersonalAccessToken e who parent description days a = (Inr (m, tok), b)" "sound a" "usable_auth e"
    and "\<forall>j. \<forall>q \<in> set (stored_pats j (na_settings a)). pt_TokenHash q \<noteq> au_sha e tok"
    and "u \<in> set (us_rows (na_users a))" "ExtractUsernameFromName parent = Some (su_Username u)"
    and "distinct (map su_Username (us_rows (na_users a)))" "CHR ''/'' \<notin> set (au_tokenID e)"
    and "token_run (\<lambda>d call s. au_sha d (GeneratePersonalAccessToken d) \<noteq> au_sha e tok
          \<and> \<not> deletes (us_rows (na_users s)) call (su_ID u) (au_tokenID e)) b b'"
    and "usable_auth e'" "au_sha e' = au_sha e" "usable_auth d"
  shows "(answering e' \<longrightarrow> map_option (\<lambda>(v, p). (v, pt_TokenId p)) (fst (AuthenticateByPAT e' tok b')) =
        (if unexpired (pm_ExpiresAt m) (au_now e') then map_option (\<lambda>v. (v, au_tokenID e)) (active_row (su_ID u) b') else None)) \<and>
    (\<forall>rows by v. v \<in> set rows \<and> su_ID v = su_ID u \<and> su_Username v = su_Username u \<longrightarrow>
        deletes rows (NDeletePAT by (pm_Name m)) (su_ID u) (au_tokenID e)) \<and>
    (DeletePersonalAccessToken d by name b' = (Inr (), c) \<and> deletes (us_rows (na_users b')) (NDeletePAT by name) (su_ID u) (au_tokenID e) \<and>
      distinct (map su_Username (us_rows (na_users b'))) \<and>
      token_run (\<lambda>d call s. au_sha d (GeneratePersonalAccessToken d) \<noteq> au_sha e tok) c c' \<longrightarrow>
      fst (AuthenticateByPAT e' tok c') = None)"
proof -
  let ?h = "au_sha e tok"
  obtain v where v: "v \<in> set (us_rows (na_users a))" "ExtractUsernameFromName parent = Some (su_Username v)" "sound b"
    "one_pat ?h (su_ID v) (au_tokenID e) (pm_ExpiresAt m) (view (na_settings b))"
    "pm_Name m = pat_name v (au_tokenID e)" "prefix PersonalAccessTokenPrefix tok"
    by (rule created_pat [OF assms(1-4)]) (rule that, assumption+)
  have "v = u" using v(1,2) assms(5-7) by (auto simp: distinct_map dest: inj_onD)
  note one = v(4) [unfolded this] and name = v(5) [unfolded this]
  have run: "sound b' \<and> one_pat ?h (su_ID u) (au_tokenID e) (pm_ExpiresAt m) (view (na_settings b'))"
    using run_keeps [OF assms(9) v(3), of "one_pat ?h (su_ID u) (au_tokenID e) (pm_ExpiresAt m)", OF one] one_pat_stays by blast
  have s: "sound b'" "in_step (na_settings b')" using run by (simp_all add: sound_def)
  obtain p where p: "List.find (\<lambda>q. pt_TokenHash q = ?h) (stored_pats (su_ID u) (na_settings b')) = Some p"
    "pt_TokenId p = au_tokenID e" "pt_ExpiresAt p = pm_ExpiresAt m"
    and all: "\<And>j q. q \<in> set (stored_pats j (na_settings b')) \<Longrightarrow> pt_TokenHash q = ?h \<Longrightarrow> j = su_ID u \<and> pt_ExpiresAt q = pm_ExpiresAt m"
    using one_pat_finds [OF conjunct2 [OF run]] by metis
  have "map_option (\<lambda>(v, p). (v, pt_TokenId p)) (fst (AuthenticateByPAT e' tok b')) =
      (if unexpired (pm_ExpiresAt m) (au_now e') then map_option (\<lambda>v. (v, au_tokenID e)) (active_row (su_ID u) b') else None)" if e: "answering e'"
  proof (cases "unexpired (pm_ExpiresAt m) (au_now e')")
    case True
    have "driver_GetUserByPATHash (au_read e') (au_sha e' tok) (na_settings b') = Some (su_ID u, p)"
      unfolding assms(11) using e all by (intro hash_finds [OF _ s(2) usable_parts(2) [OF assms(10)] p(1)]) (simp_all add: answering_def)
    then have "fst (AuthenticateByPAT e' tok b') = map_option (\<lambda>v. (v, p)) (active_row (su_ID u) b')"
      using True p(3) by (intro by_pat(2) [OF surjective_pairing s(1) assms(10) v(6) _ e]) simp_all
    then show ?thesis using True p(2) by (simp add: option.map_comp comp_def)
  next
    case False
    have "fst (AuthenticateByPAT e' tok b') = None"
    proof (rule ccontr)
      assume "fst (AuthenticateByPAT e' tok b') \<noteq> None"
      then obtain v q x where "AuthenticateByPAT e' tok b' = (Some (v, q), x)" by (metis eq_fst_iff not_None_eq surj_pair)
      from by_pat(1) [OF this s(1) assms(10) refl] show False using all False assms(11) by auto
    qed
    then show ?thesis using False by simp
  qed
  moreover have "deletes rows (NDeletePAT by (pm_Name m)) (su_ID u) (au_tokenID e)"
    if "v \<in> set rows" "su_ID v = su_ID u" "su_Username v = su_Username u" for rows "by" v
    using that split_pat_name [OF extracted_valid [OF assms(6)] assms(8)] by (auto simp: deletes_def name)
  moreover have "fst (AuthenticateByPAT e' tok c') = None"
    if d: "DeletePersonalAccessToken d by name b' = (Inr (), c)" "deletes (us_rows (na_users b')) (NDeletePAT by name) (su_ID u) (au_tokenID e)"
      "distinct (map su_Username (us_rows (na_users b')))" "token_run (\<lambda>d call s. au_sha d (GeneratePersonalAccessToken d) \<noteq> ?h) c c'" for "by" name c c'
  proof -
    note D = deleted_pat [OF d(1) s(1) assms(12) d(2,3) conjunct2 [OF run]]
    have gone: "sound c' \<and> no_pat ?h (view (na_settings c'))"
      using run_keeps [OF d(4) D(1), of "no_pat ?h", OF D(2)] no_pat_stays by blast
    show ?thesis
    proof (rule ccontr)
      assume "fst (AuthenticateByPAT e' tok c') \<noteq> None"
      then obtain v q x where "AuthenticateByPAT e' tok c' = (Some (v, q), x)" by (metis eq_fst_iff not_None_eq surj_pair)
      from by_pat(1) [OF this conjunct1 [OF gone] assms(10) refl]
      have q: "q \<in> set (stored_pats (su_ID v) (na_settings c'))" "pt_TokenHash q = ?h" using assms(11) by simp_all
      then have "(?h, pt_TokenId q, pt_ExpiresAt q) \<in> stamps (view (na_settings c')) (su_ID v)"
        by (force simp: stamps_def view_def stamp_def)
      then show False using gone by (simp add: no_pat_def)
    qed
  qed
  ultimately show ?thesis by blast
qed

text \<open>
  The two calls that overlap: \<open>UpdatePATLastUsed\<close> has read the tokens before a deletion and writes them back after it. The token
  that was deleted is stored again.
\<close>
lemma overlapping_use_revives:
  assumes "GetUserSetting r i ''PERSONAL_ACCESS_TOKENS'' g = (Some (Some x), g1)"
    and "RemoveUserPersonalAccessToken d i tid g1 = (True, g2)"
    and "UpsertUserSetting w \<lparr>sg_UserID = i, sg_Value = AccessTokens (change_first (\<lambda>p. pt_TokenId p = tid)
          (\<lambda>p. p\<lparr>pt_LastUsedAt := Some now\<rparr>) (access_tokens_of (Some (sg_Value x))))\<rparr> g2 = (True, g3)"
    and "in_step g" "usable_setting_env r" "usable_setting_env d" "usable_setting_env w"
  shows "map stamp (stored_pats i g3) = map stamp (stored_pats i g)"
proof -
  note R = read_setting [OF assms(1,4,5) key_texts(2)]
  have x: "access_tokens_of (Some (sg_Value x)) = stored_pats i g" 
  proof -
    have "setting_at i ''PERSONAL_ACCESS_TOKENS'' (gt_rows g) = Some x" using R(3) by simp
    then show ?thesis by (simp add: stored_pats_def)
  qed
  have 2: "in_step g2"
    using view_pats(1) [of d i "filter (\<lambda>x. pt_TokenId x \<noteq> tid)", OF assms(2) [unfolded RemoveUserPersonalAccessToken_def] R(1) assms(6)] .
  let ?y = "\<lparr>sg_UserID = i, sg_Value = AccessTokens (change_first (\<lambda>p. pt_TokenId p = tid)
          (\<lambda>p. p\<lparr>pt_LastUsedAt := Some now\<rparr>) (access_tokens_of (Some (sg_Value x))))\<rparr>"
  have "gt_rows g3 = upsert_row ?y (gt_rows g2)" using upserted(2) [OF assms(3) 2 assms(7)] by simp
  moreover have "is_setting i ''PERSONAL_ACCESS_TOKENS'' ?y" by (simp add: is_setting_def key_of_def)
  ultimately have "setting_at i ''PERSONAL_ACCESS_TOKENS'' (gt_rows g3) = Some ?y" by (simp add: upsert_at)
  then have "stored_pats i g3 = change_first (\<lambda>p. pt_TokenId p = tid) (\<lambda>p. p\<lparr>pt_LastUsedAt := Some now\<rparr>) (stored_pats i g)"
    unfolding stored_pats_def x by (simp add: access_tokens_of_def)
  then show ?thesis by (simp add: used_stamps)
qed

section \<open>Examples\<close>

definition demo_settings :: setting_env where
  "demo_settings = \<lparr>sv_read = (id, 0), sv_read_fails = False, sv_write = (id, 0), sv_write_fails = False, sv_scan = id\<rparr>"

text \<open>A signer whose tokens show their claims.\<close>

definition demo_sign :: "string \<Rightarrow> int \<Rightarrow> claims \<Rightarrow> string option" where
  "demo_sign aud exp c = Some (cl_Type c @ '' '' @ cl_Subject c @ '' '' @ cl_TokenID c)"

definition demo_jwt :: "string \<Rightarrow> int \<Rightarrow> string \<Rightarrow> claims option" where
  "demo_jwt aud now tok = (case split_on (CHR '' '') tok of
     [ty, sub, tid] \<Rightarrow> Some \<lparr>cl_Type = ty, cl_Subject = sub, cl_TokenID = tid, cl_Username = [], cl_Role = [], cl_Status = []\<rparr> | _ \<Rightarrow> None)"

definition demo_auth :: "string \<Rightarrow> auth_env" where
  "demo_auth tid = \<lparr>au_now = 100, au_zone = (\<lambda>_. 0), au_account = demo_accounts, au_read = demo_settings, au_add = demo_settings,
     au_remove = demo_settings, au_jwt = demo_jwt, au_sign = demo_sign, au_sha = rev, au_compare = (=), au_tokenID = tid, au_random = tid,
     au_client = [], au_header_fails = False\<rparr>"

definition fresh_notes :: note_accounts where
  "fresh_notes = \<lparr>na_users = two_users, na_settings = \<lparr>gt_cache = NewCache DefaultConfig, gt_rows = []\<rparr>\<rparr>"

definition signed_notes :: note_accounts where
  "signed_notes = snd (doSignIn (demo_auth ''t1'') (hd (us_rows two_users)) fresh_notes)"

lemma demo_auth_usable: "usable_auth (demo_auth tid)" "answering (demo_auth tid)"
proof -
  have "\<not> se_fails demo_store_env" by (simp add: demo_store_env_def)
  then show "usable_auth (demo_auth tid)" "answering (demo_auth tid)"
    by (simp_all add: usable_auth_def answering_def demo_auth_def steady_def demo_accounts_def demo_usable usable_setting_env_def
        demo_settings_def permuting_def)
qed

lemma succeeds: "(case fst z of Inl _ \<Rightarrow> False | Inr x \<Rightarrow> P x) \<Longrightarrow> \<exists>x s. z = (Inr x, s) \<and> P x"
  by (cases z) (auto split: sum.splits)

lemma fresh_sound: "sound fresh_notes"
proof -
  have "steady demo_accounts" by (simp add: steady_def demo_accounts_def demo_usable)
  then have "account_run (users_from 0) two_users" unfolding two_users_def by (intro account_run.call account_run.start)
  then have "current two_users" using account_run_current users_from_current by blast
  moreover have "us_seq two_users = 2" by code_simp
  ultimately show ?thesis
    by (simp add: sound_def fresh_notes_def in_step_def store_cache.agrees_def cache_ok_def NewCache_def cache_holds_def map_Load_def)
qed

lemma signed_sound: "sound signed_notes"
proof -
  obtain b g where g: "AddUserRefreshToken demo_settings (su_ID (hd (us_rows two_users)))
      (new_refresh_token (demo_auth ''t1'') (100 + RefreshTokenDuration)) (na_settings fresh_notes) = (b, g)" by fastforce
  have "in_step g" by (rule added_token(1) [OF g]) (use fresh_sound demo_auth_usable [of "[]"] in \<open>simp_all add: sound_def usable_auth_def demo_auth_def\<close>)
  moreover have out: "signed_notes = fresh_notes\<lparr>na_settings := g\<rparr>"
    using g by (simp add: signed_notes_def doSignIn_def GenerateRefreshToken_def Let_def demo_auth_def demo_sign_def)
  ultimately show ?thesis using fresh_sound unfolding out sound_def by simp
qed

lemma signed_standing:
  "ParseRefreshToken (demo_auth x) ''refresh 1 t1'' = Some (refresh_claims 1 ''t1'')"
  "ParseRefreshToken (demo_auth x) ''refresh 1 t2'' = Some (refresh_claims 1 ''t2'')"
  "ConvertStringToInt32 (cl_Subject (refresh_claims 1 ''t1'')) = Some 1"
proof -
  have "demo_jwt ''user.refresh-token'' 100 ''refresh 1 t1'' = Some (refresh_claims 1 ''t1'')"
    "demo_jwt ''user.refresh-token'' 100 ''refresh 1 t2'' = Some (refresh_claims 1 ''t2'')" by code_simp+
  then show "ParseRefreshToken (demo_auth x) ''refresh 1 t1'' = Some (refresh_claims 1 ''t1'')"
    "ParseRefreshToken (demo_auth x) ''refresh 1 t2'' = Some (refresh_claims 1 ''t2'')"
    by (simp_all add: ParseRefreshToken_def demo_auth_def refresh_claims_def)
  show "ConvertStringToInt32 (cl_Subject (refresh_claims 1 ''t1'')) = Some 1" by code_simp
qed

text \<open>Ann refreshes, and then signs in with another device: her first cookie is gone, the second still works.\<close>

lemma refresh_rotates_witness:
  "\<exists>t a'. service_RefreshToken (demo_auth ''t2'') ''refresh 1 t1'' signed_notes = (Inr t, a') \<and> fst (sn_Refresh t) = ''refresh 1 t2'' \<and>
     (let b = serve_token (demo_auth ''t3'') (NSignIn (PasswordCredentials ''ann'' ''pw'')) a' in
      fst (AuthenticateByRefreshToken (demo_auth ''t4'') ''refresh 1 t1'' b) = None \<and>
      fst (AuthenticateByRefreshToken (demo_auth ''t4'') ''refresh 1 t2'' b) = map_option (\<lambda>u. (u, ''t2'')) (active_row 1 b))"
proof -
  let ?call = "NSignIn (PasswordCredentials ''ann'' ''pw'')"
  let ?r = "service_RefreshToken (demo_auth ''t2'') ''refresh 1 t1'' signed_notes"
  have "case fst ?r of Inl _ \<Rightarrow> False | Inr t \<Rightarrow> fst (sn_Refresh t) = ''refresh 1 t2''" by code_simp
  then obtain t a' where t: "?r = (Inr t, a')" "fst (sn_Refresh t) = ''refresh 1 t2''"
    by (blast dest: succeeds)
  have "us_seq (na_users (serve_token (demo_auth ''t3'') ?call (snd ?r))) = 2" by code_simp
  then have seq: "us_seq (na_users (serve_token (demo_auth ''t3'') ?call a')) \<le> 55295" unfolding t(1) snd_conv by simp
  have ids: "au_tokenID (demo_auth x) = x" for x by (simp add: demo_auth_def)
  have run: "token_run ok a' (serve_token (demo_auth ''t3'') ?call a')" if "ok (demo_auth ''t3'') ?call a'" for ok
    by (rule token_run.call [OF token_run.start demo_auth_usable(1) _ _ seq]) (use that in \<open>simp_all add: proper_def\<close>)
  have "map rt_TokenId (stored_tokens 1 (na_settings signed_notes)) = [''t1'']" by code_simp
  then have fresh: "\<forall>x \<in> set (stored_tokens 1 (na_settings signed_notes)). rt_TokenId x \<noteq> au_tokenID (demo_auth ''t2'')"
    by (auto simp: map_eq_Cons_conv demo_auth_def)
  have writes: "\<not> sv_read_fails (au_remove (demo_auth x))" "\<not> sv_write_fails (au_remove (demo_auth x))" for x
    by (simp_all add: demo_auth_def demo_settings_def)
  have late: "au_now (demo_auth ''t4'') \<le> au_now (demo_auth ''t2'') + RefreshTokenDuration"
    by (simp add: demo_auth_def RefreshTokenDuration_def)
  have first: "token_run (\<lambda>d call s. au_tokenID d \<noteq> cl_TokenID (refresh_claims 1 ''t1'')) a' (serve_token (demo_auth ''t3'') ?call a')"
    by (rule run) (simp add: ids refresh_claims_def)
  have second: "token_run (\<lambda>d call s. \<not> revokes d call 1 (au_tokenID (demo_auth ''t2''))) a' (serve_token (demo_auth ''t3'') ?call a')"
    by (rule run) (simp add: revokes_def)
  have small: "(0::int) \<le> 1" "(1::int) < 2 ^ 31" by simp_all
  note T = refresh_rotates [OF t(1) signed_sound demo_auth_usable(1) signed_standing(1,3) small writes fresh first demo_auth_usable(1) [of "''t4''"]]
  show ?thesis
    using T t(1) t(2) second late demo_auth_usable(2) [of "''t4''"] signed_standing(1,2) [of "''t4''"] unfolding Let_def ids
    by (intro exI [of _ t] exI [of _ a']) simp
qed

text \<open>Ann makes a token for a program, which then writes memos, until she deletes it.\<close>

definition by_ann :: "auth_result option" where
  "by_ann = Some (ByClaims 1 (refresh_claims 1 []))"

definition token_made :: "(pat_message \<times> string) answer \<times> note_accounts" where
  "token_made = CreatePersonalAccessToken (demo_auth ''p1'') by_ann ''users/ann'' ''cli'' 0 fresh_notes"

lemma token_answer: "\<exists>m b. token_made = (Inr (m, ''memos_pat_p1''), b) \<and> pm_ExpiresAt m = None \<and> pm_Name m = ''users/ann/personalAccessTokens/p1''"
proof -
  have "case fst token_made of Inl _ \<Rightarrow> False
      | Inr x \<Rightarrow> snd x = ''memos_pat_p1'' \<and> pm_ExpiresAt (fst x) = None \<and> pm_Name (fst x) = ''users/ann/personalAccessTokens/p1''" by code_simp
  from succeeds [OF this] show ?thesis by auto
qed

lemma token_sound:
  "sound (snd token_made)"
  "\<forall>j. \<forall>q \<in> set (stored_pats j (na_settings fresh_notes)). pt_TokenHash q \<noteq> au_sha (demo_auth ''p1'') ''memos_pat_p1''"
proof -
  show none: "\<forall>j. \<forall>q \<in> set (stored_pats j (na_settings fresh_notes)). pt_TokenHash q \<noteq> au_sha (demo_auth ''p1'') ''memos_pat_p1''"
    by (simp add: stored_pats_def fresh_notes_def setting_at_def access_tokens_of_def)
  obtain m b where m: "token_made = (Inr (m, ''memos_pat_p1''), b)" using token_answer by blast
  have "sound b" by (rule created_pat [OF m [unfolded token_made_def] fresh_sound demo_auth_usable(1) none])
  then show "sound (snd token_made)" unfolding m by simp
qed

lemma protected_calls_are_authenticated_witness:
  "\<exists>u p b. enter (demo_auth ''x'') (Gateway (Some ''/memos.api.v1.MemoService/CreateMemo'')) ''Bearer memos_pat_p1'' (snd token_made) = (Inr (Some (ByPAT u p)), b)
     \<and> active_row (su_ID u) (snd token_made) = Some u \<and> su_Username u = ''ann''"
proof -
  let ?call = "enter (demo_auth ''x'') (Gateway (Some ''/memos.api.v1.MemoService/CreateMemo'')) ''Bearer memos_pat_p1'' (snd token_made)"
  have "case fst ?call of Inl _ \<Rightarrow> False | Inr r \<Rightarrow> (case r of Some (ByPAT u p) \<Rightarrow> su_Username u = ''ann'' | _ \<Rightarrow> False)" by code_simp
  then obtain r b where r: "?call = (Inr r, b)" "case r of Some (ByPAT u p) \<Rightarrow> su_Username u = ''ann'' | _ \<Rightarrow> False" by (blast dest: succeeds)
  then obtain u p where u: "r = Some (ByPAT u p)" "su_Username u = ''ann''" by (auto split: option.splits auth_result.splits)
  from protected_calls_are_authenticated [OF r(1) token_sound(1) demo_auth_usable(1)] show ?thesis using u r(1) by auto
qed

text \<open>A program writes memos with Ann's token, the time of which is written back, until she deletes it.\<close>

lemma pat_until_deleted_witness:
  "\<exists>c. DeletePersonalAccessToken (demo_auth ''d'') by_ann ''users/ann/personalAccessTokens/p1''
        (serve_token (demo_auth ''q'') (NFile ''Bearer memos_pat_p1'' []) (snd token_made)) = (Inr (), c) \<and>
     fst (AuthenticateByPAT (demo_auth ''x'') ''memos_pat_p1'' (serve_token (demo_auth ''q'') (NFile ''Bearer memos_pat_p1'' []) (snd token_made))) \<noteq> None \<and>
     fst (AuthenticateByPAT (demo_auth ''x'') ''memos_pat_p1'' c) = None"
proof -
  let ?call = "NFile ''Bearer memos_pat_p1'' []"
  let ?b = "serve_token (demo_auth ''q'') ?call (snd token_made)"
  obtain m b where m: "token_made = (Inr (m, ''memos_pat_p1''), b)" "pm_ExpiresAt m = None" "pm_Name m = ''users/ann/personalAccessTokens/p1''"
    using token_answer by blast
  have b: "snd token_made = b" by (simp add: m(1))
  have "case fst (DeletePersonalAccessToken (demo_auth ''d'') by_ann ''users/ann/personalAccessTokens/p1'' ?b) of Inl _ \<Rightarrow> False | Inr _ \<Rightarrow> True"
    by code_simp
  then obtain c where c: "DeletePersonalAccessToken (demo_auth ''d'') by_ann ''users/ann/personalAccessTokens/p1'' ?b = (Inr (), c)"
    by (auto dest: succeeds)
  define ann where "ann = hd (us_rows two_users)"
  have row: "us_rows two_users \<noteq> []" "su_ID ann = 1" "su_Username ann = ''ann''" "su_RowStatus ann = ''NORMAL''" unfolding ann_def by code_simp+
  have rows: "map su_Username (us_rows (na_users fresh_notes)) = [''ann'', ''ben'']" "us_rows (na_users ?b) = us_rows two_users"
    "us_seq (na_users ?b) = 2" by code_simp+
  have mem: "ann \<in> set (us_rows (na_users fresh_notes))" using row(1) by (simp add: ann_def fresh_notes_def)
  have parent: "ExtractUsernameFromName ''users/ann'' = Some (su_Username ann)" unfolding row(3) by code_simp
  have d: "distinct (map su_Username (us_rows (na_users fresh_notes)))" by (simp add: rows(1))
  have sha: "au_sha (demo_auth x) = rev" "au_tokenID (demo_auth x) = x" "au_random (demo_auth x) = x" for x by (simp_all add: demo_auth_def)
  have simple: "CHR ''/'' \<notin> set (au_tokenID (demo_auth ''p1''))" by (simp add: sha)
  have other: "au_sha (demo_auth x) (GeneratePersonalAccessToken (demo_auth x)) \<noteq> au_sha (demo_auth ''p1'') ''memos_pat_p1''" if "x \<noteq> ''p1''" for x
    using that by (simp add: sha GeneratePersonalAccessToken_def PersonalAccessTokenPrefix_def)
  have run: "token_run (\<lambda>d call s. au_sha d (GeneratePersonalAccessToken d) \<noteq> au_sha (demo_auth ''p1'') ''memos_pat_p1''
      \<and> \<not> deletes (us_rows (na_users s)) call (su_ID ann) (au_tokenID (demo_auth ''p1''))) b ?b"
    unfolding b by (rule token_run.call [OF token_run.start demo_auth_usable(1)])
      (use other [of "''q''"] rows(3) in \<open>simp_all add: proper_def deletes_def b del: serve_token.simps\<close>)
  have same: "au_sha (demo_auth ''x'') = au_sha (demo_auth ''p1'')" by (simp add: sha)
  note T = pat_until_deleted [OF m(1) [unfolded token_made_def] fresh_sound demo_auth_usable(1) token_sound(2) mem parent d simple run
      demo_auth_usable(1) [of "''x''"] same demo_auth_usable(1) [of "''d''"]]
  have asks: "deletes (us_rows (na_users ?b)) (NDeletePAT by_ann ''users/ann/personalAccessTokens/p1'') (su_ID ann) (au_tokenID (demo_auth ''p1''))"
  proof -
    have "ann \<in> set (us_rows (na_users ?b))" unfolding rows(2) using row(1) by (simp add: ann_def)
    then show ?thesis using T [THEN conjunct2, THEN conjunct1] unfolding m(3) by blast
  qed
  have alive: "active_row (su_ID ann) ?b \<noteq> None"
  proof -
    have "active_row 1 ?b \<noteq> None" by code_simp
    then show ?thesis unfolding row(2) .
  qed
  have live: "unexpired (pm_ExpiresAt m) (au_now (demo_auth ''x''))" by (simp add: m(2) unexpired_def)
  have "fst (AuthenticateByPAT (demo_auth ''x'') ''memos_pat_p1'' ?b) \<noteq> None"
    using T [THEN conjunct1] demo_auth_usable(2) [of "''x''"] live alive by (auto simp del: serve_token.simps)
  moreover have "fst (AuthenticateByPAT (demo_auth ''x'') ''memos_pat_p1'' c) = None"
  proof (rule T [THEN conjunct2, THEN conjunct2, THEN mp], intro conjI)
    show "distinct (map su_Username (us_rows (na_users ?b)))" unfolding rows(2) using d by (simp add: fresh_notes_def)
  qed (rule c asks token_run.start)+
  ultimately show ?thesis using c by blast
qed

end
