(* ===== verification/Spec2Isabelle.thy ===== *)
theory Spec2Isabelle
  imports TunnelGuard PinDay CronJobs TaskRights ProgressFacts DashboardFacts UserStoreFacts FilterFacts ProfileFacts MemoFacts NoteTokens
begin

text \<open>
  ClassGo: the check-in server of a learning centre, and the note server (memos) it embeds.

  The program. People (\<open>students\<close>, \<open>parents\<close>, \<open>teachers\<close>) live in SQLite tables
  (\<open>internal/database\<close>); visitors and kiosks reach the HTTP handlers of \<open>internal/handlers\<close>.
  A request passes the tunnel guard (when it comes over the public tunnel) and a middleware that asks
  the session store (\<open>internal/auth\<close>) who is acting; a check-in asks the rate limiter and the PIN
  rules, writes attendance, the audit log and the link to the scheduled session
  (\<open>internal/scheduling\<close>); a check-out asks for the task items that need a sign-off
  (\<open>internal/database/tracker.go\<close>) and stores the responses. The cron library of memos
  (\<open>memos/lib/cron\<close>) reads schedules written as text and starts jobs at their times.

  Conventions. A Go struct is a record, a table a list of rows in the order of their rowids with the
  next rowid, a map an association list or a function, a string a list of characters. Instants are
  whole seconds (the cron runner: nanoseconds), a zone the offset from UTC as a function of the
  instant. A handler takes the environment of the request (its clock, the failures of the database
  statements it runs, the operating system's password check), the decoded request and the state, and
  returns the response and the new state; every early return is a branch. Where Go leaves an order
  open (maps, unstable sorts) it is a parameter, known only to give a permutation.

  Theories, in the order of their dependence:

  \<^item> \<open>Prelude\<close>: generic lemmas and the functions of Go's \<open>strings\<close>; \<open>Http\<close>: responses;
    \<open>Calendar\<close>: dates of Go's \<open>time\<close>, with their round trip between dates and day numbers.
  \<^item> \<open>Scheduling\<close>: \<open>engine.go\<close>, \<open>conflicts.go\<close> and the schedule found for a check-in: sessions of
    a week, effective dates, conflicts, the half-hour window.
  \<^item> \<open>Sessions\<close>, \<open>Access\<close>, \<open>Accounts\<close>: the session store with several identities per browser, its
    invariant over all runs as a locale interpreted on the store, the login handlers of \<open>app.go\<close> and
    \<open>account.go\<close>, and who can pass the administrators' middlewares.
  \<^item> \<open>RateLimiter\<close>, \<open>TunnelGuard\<close>: \<open>ratelimit.go\<close> and \<open>tunnel_guard.go\<close>, each with the
    exact condition under which it refuses.
  \<^item> \<open>Tables\<close>, \<open>App\<close>, \<open>Pins\<close>: the tables with their keys and checks, the state of the server, the
    PINs of the day and the handlers that change them.
  \<^item> \<open>Tasks\<close>, \<open>Due\<close>: \<open>tracker.go\<close> of the database: due items, completing, taking back,
    late sign-offs; how long a sign-off lasts.
  \<^item> \<open>Attendance\<close>, \<open>Checkins\<close>: check-in, status and check-out of \<open>api.go\<close> and
    \<open>tracker.go\<close> with every statement they run; a check-in is two steps, up to its query for an open
    row and from its insert on, so that the invariant of the attendance table is over all interleavings of
    these steps with other requests; what two check-ins of a name at once do, and the audit's flags.
  \<^item> \<open>PinDay\<close>: a PIN is the same for its whole day, over runs of all requests that do not change it.
  \<^item> \<open>TaskHandlers\<close>, \<open>TaskRights\<close>: the handlers of task items in \<open>tracker.go\<close>, the type of the
    tables that every one of them keeps, as a locale interpreted on them, and who may change an item by which of them.
  \<^item> \<open>Progress\<close>, \<open>ProgressFacts\<close>: expected and done sign-offs of a range of days, the admin's
    summary with its cache, that the cache is not seen over runs of the handlers that tell it of a change,
    and which do not tell it.
  \<^item> \<open>Dashboard\<close>, \<open>DashboardFacts\<close>: \<open>dashboard.go\<close>: enrolment, a teacher's schedules, and the
    lists shown; that no class exceeds its room and no teacher touches another's classes.
  \<^item> \<open>DataEditor\<close>, \<open>Profiles\<close>, \<open>ProfileFacts\<close>: the administrators' tables and password resets of
    \<open>api.go\<close>, preferences, time off and the profiles of \<open>profile.go\<close>, and whose rows each of them changes.
  \<^item> \<open>CronNext\<close>, \<open>CronExact\<close>: \<open>spec.go\<close>, and that \<open>Next\<close> returns the earliest matching
    second; the loops over seconds, minutes, hours, days and months are interpretations of one locale.
  \<^item> \<open>CronParser\<close>, \<open>CronFields\<close>: \<open>parser.go\<close>, and what its fields accept.
  \<^item> \<open>CronRunner\<close>, \<open>CronJobs\<close>: \<open>cron.go\<close> and \<open>chain.go\<close>: the runner as a step relation, with
    what a wake-up starts, what is never started again, and that nothing due is missed.

  \<^item> \<open>Cache\<close>, \<open>CacheFacts\<close>: \<open>memos/store/cache/cache.go\<close>, a refinement of an expiring map that may
    forget; the contract of a cache in front of a table is the locale \<open>caching\<close>, interpreted on it.
  \<^item> \<open>UserStore\<close>, \<open>UserStoreFacts\<close>: the users of the note store, \<open>memos/store/user.go\<close> over the SQLite
    driver: what is read through the cache is what the table holds, and when it is not.
  \<^item> \<open>FilterSchema\<close>, \<open>FilterParser\<close>, \<open>FilterRender\<close>, \<open>FilterFacts\<close>: the filter language,
    \<open>memos/lib/filter\<close>, from the tree of an expression to SQL with arguments: literals never become SQL, and
    what is rendered is, piece by piece, what the condition asks for, each placeholder bound to its value.
  \<^item> \<open>MemoStore\<close>: memos, relations and attachments, \<open>memos/store\<close> over the SQLite driver; \<open>MemoService\<close>,
    \<open>MemoWrites\<close>: the memo service of \<open>memos/server/router/api/v1\<close>, what reads and what writes.
  \<^item> \<open>MemoRights\<close>: what every writing operation keeps, as a locale over the steps of the store interpreted for the
    memos of others and for the relations; \<open>MemoFacts\<close>: who reads which memos, and the filter that shows more;
    \<open>MemoExample\<close>: the tables and the environment its examples run in.
  \<^item> \<open>NoteUsers\<close>, \<open>NoteUserRights\<close>: the accounts of \<open>user_service.go\<close> over the users of the store with their cache;
    who changes which account and where administrators come from, over all runs.
  \<^item> \<open>NoteSettings\<close>: \<open>memos/store/user_setting.go\<close>: refresh tokens, personal tokens and web hooks behind their cache;
    \<open>NoteAuth\<close>: \<open>memos/server/auth\<close>, the interceptor of Connect, the middlewares of the REST gateway (\<open>v1.go\<close>) and of
    the tools (\<open>mcp.go\<close>), and \<open>auth_service.go\<close>.
  \<^item> \<open>NoteAuthFacts\<close>, \<open>NoteRuns\<close>, \<open>NoteTokens\<close>: the cache of settings is not seen; runs of calls, one after another, and
    what each may do to the tokens stored; whom the entrances let in, that refresh tokens rotate, and that a personal
    token works from its creation to its deletion and lets nobody else in.

  Interleaving. A handler is one step, except for check-in, whose query and insert are steps of their own, and for
  the time of a token's last use, which is written back after the request; the invariants over runs are over
  requests handled one after another otherwise, and the texts of the properties say so. Days are civil days,
  exact in zones that skip no midnight; letters change their case as ASCII.

  Loops and bounds. The day loops of the scheduler recurse on the number of days left. The loops of
  \<open>Next\<close> and of \<open>getBits\<close> are partial functions into options, \<open>None\<close> for not returning; that they
  return is proved (\<open>CronExact\<close>, for zones of a fixed offset; \<open>CronFields\<close>, for every bound the
  code uses), it is not assumed. Bit sets of cron are 64-bit words, and a step of \<open>getBits\<close> wraps as
  Go's does.

  Parameters. The operating system's password check, bcrypt, the generator of tokens and PINs, the
  zone database, \<open>time.ParseDuration\<close>, the sorting functions and the iteration order of maps are
  arguments of the definitions that use them; what is known of them is a hypothesis of the property
  that needs it, with a witness.

  Not modelled. Rendering of pages and reports, spreadsheets and imports, exports and the directory, backups, the tunnel
  process and cloud storage: input and output, without state of their own. Of the note server: the generated code
  (protobuf, gRPC gateways, connect clients), the drivers for MySQL and Postgres, which repeat the one for SQLite, the
  services for a user's general settings, web hooks, statistics and notifications, for the settings of the instance,
  uploads, shares and shortcuts, the file server, and what follows a change of a memo for those who watch it: web hooks,
  events, mentions.
\<close>

end
